(* ===== verification/Prelude.thy ===== *)
theory Prelude
  imports Complex_Main "HOL-Library.Char_ord" "HOL-Library.List_Lexorder"
begin

text \<open>
  Shared vocabulary of the development: the exceptions the Python code raises, the
  result type of a computation that may raise, the floating point instants that the
  code guards with \<open>math.isfinite\<close>, and the small table library (rows in rowid
  order, \<open>find\<close> for SELECT, \<open>update_where\<close> for UPDATE) that the models of
  the SQLite tables are written with.
\<close>

section \<open>Exceptions and results\<close>

text \<open>
  One constructor per exception class the modelled code raises or lets escape. A
  \<open>BoundaryError\<close> carries its stage and code (python/spireagent/json\_boundary.py); the
  fixed recovery text plays no part in any decision. \<open>IntegrityError\<close> is SQLite's,
  raised when an INSERT breaks a UNIQUE or PRIMARY KEY constraint; \<open>ArchiveError\<close> stands for the
  standard library's \<open>TarError\<close>, \<open>BadGzipFile\<close>, \<open>EOFError\<close> and \<open>zlib.error\<close>.
\<close>

datatype py_error =
    BoundaryError string string
  | ContractError string
  | CanonicalizationError string
  | ValueError string
  | RuntimeError string
  | OSError
  | TypeError
  | KeyError
  | IndexError
  | AssertionError
  | IntegrityError
  | ProviderError
  | ArchiveError
  | AttributeError

text \<open>\<open>StoreError\<close> is the subclass whose stage is fixed (python/spireagent/storage/blobs.py).\<close>

abbreviation StoreError :: "string \<Rightarrow> py_error" where
  "StoreError code \<equiv> BoundaryError ''artifact_store'' code"

text \<open>What \<open>except ValueError\<close> catches.\<close>

definition value_error :: "py_error \<Rightarrow> bool" where
  "value_error e =
     (case e of
        BoundaryError _ _ \<Rightarrow> True | ContractError _ \<Rightarrow> True | CanonicalizationError _ \<Rightarrow> True
      | ValueError _ \<Rightarrow> True | _ \<Rightarrow> False)"

type_synonym 'a result = "py_error + 'a"

definition and_then :: "'a result \<Rightarrow> ('a \<Rightarrow> 'b result) \<Rightarrow> 'b result" where
  "and_then m f = (case m of Inl e \<Rightarrow> Inl e | Inr x \<Rightarrow> f x)"

lemma and_then_simps [simp]:
  "and_then (Inl e) f = Inl e"
  "and_then (Inr x) f = f x"
  by (simp_all add: and_then_def)

lemma and_then_eq_Inr:
  "and_then m f = Inr y \<longleftrightarrow> (\<exists>x. m = Inr x \<and> f x = Inr y)"
  by (cases m) simp_all

lemma and_then_eq_Inl:
  "and_then m f = Inl e \<longleftrightarrow> m = Inl e \<or> (\<exists>x. m = Inr x \<and> f x = Inl e)"
  by (cases m) auto

lemma and_then_cong [fundef_cong]:
  "m = n \<Longrightarrow> (\<And>x. n = Inr x \<Longrightarrow> f x = g x) \<Longrightarrow> and_then m f = and_then n g"
  by (cases n) simp_all

lemma and_then_assoc: "and_then (and_then m f) g = and_then m (\<lambda>x. and_then (f x) g)"
  by (cases m) simp_all

text \<open>The collection every inversion proof starts from: a computation returned.\<close>

named_theorems returned "inversion of a computation that returned normally"

declare and_then_eq_Inr [returned]

lemma if_raise_eq_Inr [returned]: "((if b then Inl e else r) = Inr y) \<longleftrightarrow> \<not> b \<and> r = Inr y"
  by simp

lemma option_raise_eq_Inr [returned]:
  "((case x of None \<Rightarrow> Inl e | Some v \<Rightarrow> f v) = Inr y) \<longleftrightarrow> (\<exists>v. x = Some v \<and> f v = Inr y)"
  by (cases x) simp_all

text \<open>\<open>for x in xs: check(x)\<close>, stopping at the first exception.\<close>

fun each :: "('a \<Rightarrow> 'b result) \<Rightarrow> 'a list \<Rightarrow> 'b list result" where
  "each f [] = Inr []"
| "each f (x # xs) = and_then (f x) (\<lambda>y. and_then (each f xs) (\<lambda>ys. Inr (y # ys)))"

lemma each_eq_Inr:
  "each f xs = Inr ys \<longleftrightarrow> length ys = length xs \<and> (\<forall>i < length xs. f (xs ! i) = Inr (ys ! i))"
proof (induction xs arbitrary: ys)
  case Nil
  then show ?case by auto
next
  case (Cons x xs)
  show ?case
    by (cases ys) (auto simp: and_then_eq_Inr Cons.IH All_less_Suc2)
qed

lemma each_cong [fundef_cong]:
  "xs = ys \<Longrightarrow> (\<And>x. x \<in> set ys \<Longrightarrow> f x = g x) \<Longrightarrow> each f xs = each g ys"
proof -
  assume "xs = ys" and eq: "\<And>x. x \<in> set ys \<Longrightarrow> f x = g x"
  moreover have "\<forall>x \<in> set ys. f x = g x \<Longrightarrow> each f ys = each g ys"
    by (induction ys) auto
  ultimately show "each f xs = each g ys" by simp
qed

lemma each_length: "each f xs = Inr ys \<Longrightarrow> length ys = length xs"
  by (simp add: each_eq_Inr)

lemma each_map_Inr: "(\<And>x. x \<in> set xs \<Longrightarrow> f x = Inr (g x)) \<Longrightarrow> each f xs = Inr (map g xs)"
  by (induction xs) auto

lemma each_map: "each f (map g xs) = each (\<lambda>x. f (g x)) xs"
  by (induction xs) auto

lemma each_identity: "(\<And>x. x \<in> set xs \<Longrightarrow> f x = Inr x) \<Longrightarrow> each f xs = Inr xs"
  by (induction xs) auto

lemma each_in_set: "each f xs = Inr ys \<Longrightarrow> x \<in> set xs \<Longrightarrow> \<exists>y \<in> set ys. f x = Inr y"
  by (auto simp: each_eq_Inr in_set_conv_nth)

lemma each_out_set: "each f xs = Inr ys \<Longrightarrow> y \<in> set ys \<Longrightarrow> \<exists>x \<in> set xs. f x = Inr y"
  by (simp add: each_eq_Inr) (metis in_set_conv_nth)

section \<open>Floating point instants\<close>

text \<open>
  A clock argument is a Python float. The code only asks whether it is finite, compares
  it and adds a small integer to it. \<open>Finite t\<close> is a finite float, \<open>NonFinite\<close> an
  infinity or a NaN; rounding of the sums is not modelled.
\<close>

datatype pyfloat = Finite real | NonFinite

definition isfinite :: "pyfloat \<Rightarrow> bool" where
  "isfinite x = (case x of Finite _ \<Rightarrow> True | NonFinite \<Rightarrow> False)"

lemma isfinite_simps [simp]: "isfinite (Finite t)" "\<not> isfinite NonFinite"
  by (simp_all add: isfinite_def)

section \<open>Tables\<close>

text \<open>
  A table is the list of its rows in rowid order. UPDATE with a WHERE clause rewrites the
  rows that satisfy it and keeps the order.
\<close>

definition update_where :: "('r \<Rightarrow> bool) \<Rightarrow> ('r \<Rightarrow> 'r) \<Rightarrow> 'r list \<Rightarrow> 'r list" where
  "update_where P f rows = map (\<lambda>r. if P r then f r else r) rows"

named_theorems table "selection from updated tables"

lemma length_update_where [simp, table]: "length (update_where P f rows) = length rows"
  by (simp add: update_where_def)

lemma update_where_simps [simp, table]:
  "update_where P f [] = []"
  "update_where P f (r # rows) = (if P r then f r else r) # update_where P f rows"
  by (simp_all add: update_where_def)

lemma update_where_append [simp, table]:
  "update_where P f (xs @ ys) = update_where P f xs @ update_where P f ys"
  by (simp add: update_where_def)

lemma map_update_where [table]:
  "(\<And>r. key (f r) = key r) \<Longrightarrow> map key (update_where P f rows) = map key rows"
  by (simp add: update_where_def)

lemma update_where_none: "(\<And>r. r \<in> set rows \<Longrightarrow> \<not> P r) \<Longrightarrow> update_where P f rows = rows"
  by (induction rows) auto

lemma in_update_where:
  "r \<in> set (update_where P f rows) \<longleftrightarrow>
     (\<exists>q \<in> set rows. (P q \<and> r = f q) \<or> (\<not> P q \<and> r = q))"
  by (auto simp: update_where_def)

lemma update_where_image: "q \<in> set rows \<Longrightarrow> (if P q then f q else q) \<in> set (update_where P f rows)"
  by (auto simp: in_update_where)

lemma find_append: "find P (xs @ ys) = (case find P xs of None \<Rightarrow> find P ys | Some x \<Rightarrow> Some x)"
  by (induction xs) auto

lemma find_key_update_same:
  "(\<And>r. key (f r) = key r) \<Longrightarrow>
   find (\<lambda>r. key r = k) (update_where (\<lambda>r. key r = k) f rows) = map_option f (find (\<lambda>r. key r = k) rows)"
  by (induction rows) auto

lemma find_key_update_other:
  "(\<And>r. key (f r) = key r) \<Longrightarrow> k \<noteq> k' \<Longrightarrow>
   find (\<lambda>r. key r = k) (update_where (\<lambda>r. key r = k') f rows) = find (\<lambda>r. key r = k) rows"
  by (induction rows) auto

lemma find_key_Some: "find (\<lambda>r. key r = k) rows = Some r \<Longrightarrow> r \<in> set rows \<and> key r = k"
  by (auto simp: find_Some_iff)

lemma find_key_distinct:
  "distinct (map key rows) \<Longrightarrow> r \<in> set rows \<Longrightarrow> find (\<lambda>q. key q = key r) rows = Some r"
  by (induction rows) (auto simp: rev_image_eqI)

lemma distinct_key_inj:
  "distinct (map key rows) \<Longrightarrow> r \<in> set rows \<Longrightarrow> q \<in> set rows \<Longrightarrow> key r = key q \<Longrightarrow> r = q"
  by (metis find_key_distinct option.inject)

lemma find_map_key:
  "distinct (map key rows) \<Longrightarrow>
   find (\<lambda>r. key r = k) rows = Some r \<longleftrightarrow> r \<in> set rows \<and> key r = k"
  by (auto dest: find_key_Some find_key_distinct)

lemma find_key_unique:
  "distinct (map key rows) \<Longrightarrow> find (\<lambda>r. key r = k) rows = Some r \<Longrightarrow> q \<in> set rows \<Longrightarrow> key q = k \<Longrightarrow> q = r"
  by (auto dest!: find_key_Some intro: distinct_key_inj)

lemma find_None_key: "find (\<lambda>r. key r = k) rows = None \<longleftrightarrow> k \<notin> set (map key rows)"
  by (auto simp: find_None_iff)

lemma filter_unique_key: "distinct (map key xs) \<Longrightarrow> x \<in> set xs \<Longrightarrow> filter (\<lambda>y. key y = key x) xs = [x]"
  by (induction xs) (auto simp: filter_empty_conv image_iff)

lemma length_filter_unique:
  "distinct xs \<Longrightarrow> (\<And>x y. x \<in> set xs \<Longrightarrow> y \<in> set xs \<Longrightarrow> P x \<Longrightarrow> P y \<Longrightarrow> x = y) \<Longrightarrow> length (filter P xs) \<le> 1"
proof (induction xs)
  case (Cons x xs)
  show ?case
  proof (cases "P x")
    case True
    with Cons.prems have "\<forall>y \<in> set xs. \<not> P y" by auto
    then have "filter P xs = []" by (simp add: filter_empty_conv)
    then show ?thesis by simp
  next
    case False
    with Cons show ?thesis by auto
  qed
qed simp

lemma find_cong_set: "(\<And>x. x \<in> set xs \<Longrightarrow> P x = Q x) \<Longrightarrow> find P xs = find Q xs"
  by (induction xs) auto

section \<open>Transactions\<close>

text \<open>
  A method body inside \<open>with self.transaction() as db\<close> either commits (the new tables and
  the value returned) or raises, and then SQLite rolls every write back: \<open>Inl\<close> therefore
  carries no state. \<open>committed\<close> is how a caller that goes on after an exception sees it.
\<close>

type_synonym ('s, 'a) tx = "'s \<Rightarrow> ('s \<times> 'a) result"

definition committed :: "('s, 'a) tx \<Rightarrow> 's \<Rightarrow> 's \<times> 'a result" where
  "committed t s = (case t s of Inl e \<Rightarrow> (s, Inl e) | Inr (s', x) \<Rightarrow> (s', Inr x))"

lemma committed_Inl [simp]: "t s = Inl e \<Longrightarrow> committed t s = (s, Inl e)"
  by (simp add: committed_def)

lemma committed_Inr [simp]: "t s = Inr (s', x) \<Longrightarrow> committed t s = (s', Inr x)"
  by (simp add: committed_def)

lemma committed_cases:
  obtains e where "t s = Inl e" "committed t s = (s, Inl e)"
  | s' x where "t s = Inr (s', x)" "committed t s = (s', Inr x)"
  by (cases "t s") (auto simp: committed_def)

end
