(* ===== verification/Json.thy ===== *)
theory Json
  imports Prelude
begin

text \<open>
  JSON values and the strict boundary validators: python/spireagent/encoding.py
  (\<open>to_json_value\<close>, \<open>canonical_json\<close>, \<open>semantic_hash\<close>) and the value checks of
  python/spireagent/json\_boundary.py (\<open>object_fields\<close>, \<open>text\<close>, \<open>digest\<close>,
  \<open>unsigned\<close>, \<open>array\<close>). A Python \<open>str\<close> is a HOL \<open>string\<close> (code points up to
  255); a dict is the list of its items in insertion order; a float is named by the text
  \<open>float.__repr__\<close> gives it, which determines it.
\<close>

section \<open>Values\<close>

datatype json =
    JNull
  | JBool bool
  | JInt int
  | JFloat string
  | JStr string
  | JList "json list"
  | JObj "(string \<times> json) list"

text \<open>
  The Python values that reach \<open>to_json_value\<close>: the plain JSON types and the containers
  it converts. \<open>PyMapping\<close> is a Mapping other than dict, \<open>PySequence\<close> a Sequence other
  than list, str, bytes and bytearray, \<open>PyDataclass\<close> a dataclass instance as the field
  dictionary \<open>asdict\<close> gives, \<open>PyEnum\<close> an Enum member with a JSON value, \<open>PyOther\<close> any
  other object. A dictionary key is \<open>None\<close> when it is not a string.
\<close>

datatype pyobj =
    PyNone
  | PyBool bool
  | PyInt int
  | PyFloat string
  | PyStr string
  | PyDict "(string option \<times> pyobj) list"
  | PyList "pyobj list"
  | PyDataclass "(string option \<times> pyobj) list"
  | PyEnum json
  | PyMapping "(string option \<times> pyobj) list"
  | PySequence "pyobj list"
  | PyOther

definition non_finite :: "string \<Rightarrow> bool" where
  "non_finite repr \<longleftrightarrow> repr \<in> {''nan'', ''inf'', ''-inf''}"

fun to_json_value :: "pyobj \<Rightarrow> json result"
  and to_json_items :: "(string option \<times> pyobj) list \<Rightarrow> (string \<times> json) list result"
  and to_json_list :: "pyobj list \<Rightarrow> json list result" where
  "to_json_value PyNone = Inr JNull"
| "to_json_value (PyBool b) = Inr (JBool b)"
| "to_json_value (PyInt i) = Inr (JInt i)"
| "to_json_value (PyStr s) = Inr (JStr s)"
| "to_json_value (PyFloat f) =
     (if non_finite f
      then Inl (CanonicalizationError ''non-finite floats are not canonical JSON'')
      else Inr (JFloat f))"
| "to_json_value (PyDict items) = and_then (to_json_items items) (\<lambda>kvs. Inr (JObj kvs))"
| "to_json_value (PyList xs) = and_then (to_json_list xs) (\<lambda>ys. Inr (JList ys))"
| "to_json_value (PyDataclass items) = and_then (to_json_items items) (\<lambda>kvs. Inr (JObj kvs))"
| "to_json_value (PyEnum v) = Inr v"
| "to_json_value (PyMapping items) = and_then (to_json_items items) (\<lambda>kvs. Inr (JObj kvs))"
| "to_json_value (PySequence xs) = and_then (to_json_list xs) (\<lambda>ys. Inr (JList ys))"
| "to_json_value PyOther = Inl (CanonicalizationError ''unsupported canonical value'')"
| "to_json_items [] = Inr []"
| "to_json_items ((k, x) # items) =
     (case k of
        None \<Rightarrow> Inl (CanonicalizationError ''JSON object keys must be strings'')
      | Some key \<Rightarrow>
          and_then (to_json_value x) (\<lambda>v.
          and_then (to_json_items items) (\<lambda>kvs. Inr ((key, v) # kvs))))"
| "to_json_list [] = Inr []"
| "to_json_list (x # xs) =
     and_then (to_json_value x) (\<lambda>v. and_then (to_json_list xs) (\<lambda>vs. Inr (v # vs)))"

section \<open>Canonical text\<close>

text \<open>Key order is code point order; the sort is recursive, as \<open>sort_keys=True\<close> is.\<close>

primrec sort_keys :: "json \<Rightarrow> json" where
  "sort_keys JNull = JNull"
| "sort_keys (JBool b) = JBool b"
| "sort_keys (JInt i) = JInt i"
| "sort_keys (JFloat f) = JFloat f"
| "sort_keys (JStr s) = JStr s"
| "sort_keys (JList xs) = JList (map sort_keys xs)"
| "sort_keys (JObj kvs) = JObj (sort_key fst (map (map_prod id sort_keys) kvs))"

fun show_nat :: "nat \<Rightarrow> string" where
  "show_nat n =
     (if n < 10 then [char_of (48 + n)] else show_nat (n div 10) @ [char_of (48 + n mod 10)])"

declare show_nat.simps [simp del]

definition show_int :: "int \<Rightarrow> string" where
  "show_int i = (if i < 0 then CHR ''-'' # show_nat (nat (- i)) else show_nat (nat i))"

definition hex_digit :: "nat \<Rightarrow> char" where
  "hex_digit n = (if n < 10 then char_of (48 + n) else char_of (87 + n))"

text \<open>The escapes of \<open>json.dumps(..., ensure_ascii=False)\<close>.\<close>

definition quote_char :: char where "quote_char = CHR 0x22"
definition backslash :: char where "backslash = CHR 0x5C"

definition escape_char :: "char \<Rightarrow> string" where
  "escape_char c =
     (if c = quote_char then [backslash, quote_char]
      else if c = backslash then [backslash, backslash]
      else if c = CHR 0x0A then [backslash, CHR ''n'']
      else if c = CHR 0x0D then [backslash, CHR ''r'']
      else if c = CHR 0x09 then [backslash, CHR ''t'']
      else if c = CHR 0x0C then [backslash, CHR ''f'']
      else if c = CHR 0x08 then [backslash, CHR ''b'']
      else if (of_char c :: nat) < 32 then
        [backslash, CHR ''u'', CHR ''0'', CHR ''0'',
         hex_digit (of_char c div 16), hex_digit (of_char c mod 16)]
      else [c])"

text \<open>The bits of a character decide: only those without any of the upper three are controls.\<close>

lemma escape_char_bits [code]:
  "escape_char (Char b0 b1 b2 b3 b4 b5 b6 b7) =
     (let c = Char b0 b1 b2 b3 b4 b5 b6 b7 in
      if b5 \<or> b6 \<or> b7 then (if c = quote_char then [backslash, quote_char] else if c = backslash then [backslash, backslash] else [c])
      else if c = CHR 0x0A then [backslash, CHR ''n'']
      else if c = CHR 0x0D then [backslash, CHR ''r'']
      else if c = CHR 0x09 then [backslash, CHR ''t'']
      else if c = CHR 0x0C then [backslash, CHR ''f'']
      else if c = CHR 0x08 then [backslash, CHR ''b'']
      else [backslash, CHR ''u'', CHR ''0'', CHR ''0'', hex_digit (of_char c div 16), hex_digit (of_char c mod 16)])"
proof -
  have "(of_char (Char b0 b1 b2 b3 b4 b5 b6 b7) :: nat) < 32 \<longleftrightarrow> \<not> b5 \<and> \<not> b6 \<and> \<not> b7"
    by (simp add: of_char_def split: if_splits)
  then show ?thesis by (auto simp: escape_char_def Let_def quote_char_def backslash_def)
qed

definition print_string :: "string \<Rightarrow> string" where
  "print_string s = quote_char # concat (map escape_char s) @ [quote_char]"

fun commas :: "string list \<Rightarrow> string" where
  "commas [] = []"
| "commas [x] = x"
| "commas (x # xs) = x @ '','' @ commas xs"

primrec print_json :: "json \<Rightarrow> string" where
  "print_json JNull = ''null''"
| "print_json (JBool b) = (if b then ''true'' else ''false'')"
| "print_json (JInt i) = show_int i"
| "print_json (JFloat f) = f"
| "print_json (JStr s) = print_string s"
| "print_json (JList xs) = ''['' @ commas (map print_json xs) @ '']''"
| "print_json (JObj kvs) =
     CHR 0x7B # commas (map (\<lambda>kv. print_string (fst kv) @ '':'' @ snd kv)
       (map (map_prod id print_json) kvs)) @ [CHR 0x7D]"

definition canonical_json :: "pyobj \<Rightarrow> string result" where
  "canonical_json x = and_then (to_json_value x) (\<lambda>v. Inr (print_json (sort_keys v)))"

text \<open>
  \<open>sha\<close> is hashlib's SHA-256 as a hexadecimal digest of the UTF-8 bytes of a text, a
  parameter wherever an identity is computed.
\<close>

type_synonym hash = "string \<Rightarrow> string"

definition semantic_hash :: "hash \<Rightarrow> pyobj \<Rightarrow> string result" where
  "semantic_hash sha x = and_then (canonical_json x) (\<lambda>payload. Inr (sha payload))"

text \<open>A JSON value as the Python object \<open>json.loads\<close> makes of it.\<close>

primrec of_json :: "json \<Rightarrow> pyobj" where
  "of_json JNull = PyNone"
| "of_json (JBool b) = PyBool b"
| "of_json (JInt i) = PyInt i"
| "of_json (JFloat f) = PyFloat f"
| "of_json (JStr s) = PyStr s"
| "of_json (JList xs) = PyList (map of_json xs)"
| "of_json (JObj kvs) = PyDict (map (map_prod Some of_json) kvs)"

lemma json_object_eq_Inr [returned]:
  "((case v of JObj kvs \<Rightarrow> f kvs | _ \<Rightarrow> Inl e) = Inr y) \<longleftrightarrow> (\<exists>kvs. v = JObj kvs \<and> f kvs = Inr y)"
  by (cases v) simp_all

lemma json_string_eq_Inr [returned]:
  "((case v of JStr t \<Rightarrow> g t | _ \<Rightarrow> Inl e) = Inr y) \<longleftrightarrow> (\<exists>t. v = JStr t \<and> g t = Inr y)"
  by (cases v) simp_all

section \<open>Lookup in a key-sorted object\<close>

lemma sort_keys_eq_JStr [simp]: "sort_keys v = JStr t \<longleftrightarrow> v = JStr t" "JStr t = sort_keys v \<longleftrightarrow> v = JStr t"
  by (cases v; auto)+

lemma map_of_filter_key: "map_of kvs k = (case filter (\<lambda>kv. fst kv = k) kvs of [] \<Rightarrow> None | kv # _ \<Rightarrow> Some (snd kv))"
  by (induction kvs) auto

lemma map_of_sort_key [simp]: "map_of (sort_key fst kvs) = map_of (kvs :: (string \<times> 'b) list)"
proof (rule ext)
  fix k
  have "filter (\<lambda>kv. fst kv = k) (sort_key fst kvs) = filter (\<lambda>kv. fst kv = k) kvs"
    by (rule sort_key_stable)
  then show "map_of (sort_key fst kvs) k = map_of kvs k"
    by (simp add: map_of_filter_key)
qed

lemma map_of_map_prod_id: "map_of (map (map_prod id f) kvs) k = map_option f (map_of kvs k)"
  by (induction kvs) auto

lemma sort_keys_JObj_lookup:
  "sort_keys (JObj kvs) = sort_keys (JObj kvs') \<Longrightarrow>
   map_option sort_keys (map_of kvs k) = map_option sort_keys (map_of kvs' k)"
  by simp (metis map_of_map_prod_id map_of_sort_key)

lemma sort_keys_JObj_string:
  "sort_keys (JObj kvs) = sort_keys (JObj kvs') \<Longrightarrow>
   map_of kvs k = Some (JStr t) \<longleftrightarrow> map_of kvs' k = Some (JStr t)"
  by (drule sort_keys_JObj_lookup [of _ _ k]) (cases "map_of kvs k"; cases "map_of kvs' k"; auto)

end
