(* ===== verification/Boundary.thy ===== *)
theory Boundary
  imports Json
begin

text \<open>
  The strict value checks of python/spireagent/json\_boundary.py. Each takes an untyped
  value and either raises a classified \<open>BoundaryError\<close> or returns the value at the type
  the caller goes on with. The lemmas say exactly which values pass.
\<close>

section \<open>Checks\<close>

text \<open>\<open>_pairs\<close>, the object hook that refuses a repeated key.\<close>

fun pairs_from :: "(string \<times> json) list \<Rightarrow> (string \<times> json) list \<Rightarrow> (string \<times> json) list result" where
  "pairs_from result [] = Inr result"
| "pairs_from result ((key, value) # rest) =
     (if key \<in> fst ` set result then Inl (BoundaryError ''json'' ''duplicate_key'')
      else pairs_from (result @ [(key, value)]) rest)"

definition pairs :: "(string \<times> json) list \<Rightarrow> (string \<times> json) list result" where
  "pairs kvs = pairs_from [] kvs"

definition object_fields :: "json \<Rightarrow> string list \<Rightarrow> string \<Rightarrow> (string \<times> json) list result" where
  "object_fields value fields stage =
     (case value of
        JObj kvs \<Rightarrow>
          if fst ` set kvs = set fields then Inr kvs
          else Inl (BoundaryError stage ''missing_or_unknown_fields'')
      | _ \<Rightarrow> Inl (BoundaryError stage ''missing_or_unknown_fields''))"

definition control_free :: "string \<Rightarrow> bool" where
  "control_free s \<longleftrightarrow> list_all (\<lambda>c. 32 \<le> (of_char c :: nat)) s"

definition text_value :: "json \<Rightarrow> string \<Rightarrow> nat \<Rightarrow> string result" where
  "text_value value stage maximum =
     (case value of
        JStr s \<Rightarrow>
          if s = [] \<or> maximum < length s then Inl (BoundaryError stage ''invalid_text'')
          else if \<not> control_free s then Inl (BoundaryError stage ''control_character'')
          else Inr s
      | _ \<Rightarrow> Inl (BoundaryError stage ''invalid_text''))"

definition lower_hex :: "string \<Rightarrow> bool" where
  "lower_hex s \<longleftrightarrow> list_all (\<lambda>c. c \<in> set ''0123456789abcdef'') s"

definition digest :: "json \<Rightarrow> string \<Rightarrow> nat \<Rightarrow> string result" where
  "digest value stage len =
     (case value of
        JStr s \<Rightarrow>
          if length s = len \<and> lower_hex s then Inr s
          else Inl (BoundaryError stage ''invalid_digest'')
      | _ \<Rightarrow> Inl (BoundaryError stage ''invalid_digest''))"

text \<open>\<open>type(value) is not int\<close>: a bool is refused although it is an int instance.\<close>

definition unsigned :: "json \<Rightarrow> string \<Rightarrow> int result" where
  "unsigned value stage =
     (case value of
        JInt i \<Rightarrow> if i < 0 then Inl (BoundaryError stage ''invalid_unsigned_integer'') else Inr i
      | _ \<Rightarrow> Inl (BoundaryError stage ''invalid_unsigned_integer''))"

definition array :: "json \<Rightarrow> string \<Rightarrow> json list result" where
  "array value stage =
     (case value of JList xs \<Rightarrow> Inr xs | _ \<Rightarrow> Inl (BoundaryError stage ''expected_array''))"

text \<open>\<open>obj[key]\<close> on a dict, and membership of an untyped value in a set of strings (a list
  or a dict is unhashable).\<close>

definition item :: "(string \<times> json) list \<Rightarrow> string \<Rightarrow> json result" where
  "item kvs key = (case map_of kvs key of None \<Rightarrow> Inl KeyError | Some v \<Rightarrow> Inr v)"

definition in_strings :: "json \<Rightarrow> string list \<Rightarrow> bool result" where
  "in_strings value names =
     (case value of
        JStr s \<Rightarrow> Inr (s \<in> set names)
      | JList _ \<Rightarrow> Inl TypeError
      | JObj _ \<Rightarrow> Inl TypeError
      | _ \<Rightarrow> Inr False)"

section \<open>What passes\<close>

lemma pairs_from_distinct:
  "distinct (map fst result @ map fst kvs) \<Longrightarrow> pairs_from result kvs = Inr (result @ kvs)"
  by (induction result kvs rule: pairs_from.induct) auto

lemma pairs_from_Inr:
  "pairs_from result kvs = Inr out \<Longrightarrow> distinct (map fst result) \<Longrightarrow>
   out = result @ kvs \<and> distinct (map fst (result @ kvs))"
  by (induction result kvs rule: pairs_from.induct) (simp_all split: if_splits)

lemma pairs_eq_Inr: "pairs kvs = Inr out \<longleftrightarrow> out = kvs \<and> distinct (map fst kvs)"
  using pairs_from_distinct [of "[]" kvs] pairs_from_Inr [of "[]" kvs out]
  unfolding pairs_def by auto

lemma object_fields_eq_Inr [returned]:
  "object_fields value fields stage = Inr kvs \<longleftrightarrow> value = JObj kvs \<and> fst ` set kvs = set fields"
  by (auto simp: object_fields_def split: json.splits)

lemma text_value_eq_Inr [returned]:
  "text_value value stage maximum = Inr s \<longleftrightarrow>
     value = JStr s \<and> s \<noteq> [] \<and> length s \<le> maximum \<and> control_free s"
  by (auto simp: text_value_def not_less split: json.splits)

lemma digest_eq_Inr [returned]:
  "digest value stage len = Inr s \<longleftrightarrow> value = JStr s \<and> length s = len \<and> lower_hex s"
  by (auto simp: digest_def split: json.splits)

lemma unsigned_eq_Inr [returned]: "unsigned value stage = Inr i \<longleftrightarrow> value = JInt i \<and> 0 \<le> i"
  by (auto simp: unsigned_def split: json.splits)

lemma array_eq_Inr [returned]: "array value stage = Inr xs \<longleftrightarrow> value = JList xs"
  by (auto simp: array_def split: json.splits)

lemma item_eq_Inr [returned]: "item kvs key = Inr v \<longleftrightarrow> map_of kvs key = Some v"
  by (auto simp: item_def split: option.splits)

lemma item_present: "fst ` set kvs = set fields \<Longrightarrow> key \<in> set fields \<Longrightarrow> \<exists>v. item kvs key = Inr v"
  by (metis item_eq_Inr map_of_eq_None_iff option.exhaust)

lemma in_strings_eq_True [returned]: "in_strings value names = Inr True \<longleftrightarrow> (\<exists>s. value = JStr s \<and> s \<in> set names)"
  by (auto simp: in_strings_def split: json.splits)

text \<open>A check fails only with the error it names.\<close>

lemma text_value_eq_Inl:
  "text_value value stage maximum = Inl e \<Longrightarrow>
   e = BoundaryError stage ''invalid_text'' \<or> e = BoundaryError stage ''control_character''"
  by (auto simp: text_value_def split: json.splits if_splits)

lemma digest_eq_Inl: "digest value stage len = Inl e \<Longrightarrow> e = BoundaryError stage ''invalid_digest''"
  by (auto simp: digest_def split: json.splits if_splits)

lemma unsigned_eq_Inl:
  "unsigned value stage = Inl e \<Longrightarrow> e = BoundaryError stage ''invalid_unsigned_integer''"
  by (auto simp: unsigned_def split: json.splits if_splits)

text \<open>The key-sorted dictionary a stored object decodes to has the same keys and the sorted values.\<close>

lemma stored_object:
  obtains obj where "sort_keys (JObj kvs) = JObj obj" and "fst ` set obj = fst ` set kvs"
    and "\<And>key. item obj key =
      (case map_of kvs key of None \<Rightarrow> Inl KeyError | Some v \<Rightarrow> Inr (sort_keys v))"
proof -
  let ?obj = "sort_key fst (map (map_prod id sort_keys) kvs)"
  have "fst ` set ?obj = fst ` map_prod id sort_keys ` set kvs"
    by (simp only: set_sort set_map)
  then have "fst ` set ?obj = fst ` set kvs"
    by (simp only: image_image fst_map_prod id_apply)
  moreover have "item ?obj key =
      (case map_of kvs key of None \<Rightarrow> Inl KeyError | Some v \<Rightarrow> Inr (sort_keys v))" for key
    by (simp add: item_def map_of_map_prod_id split: option.splits)
  ultimately show thesis by (intro that [of ?obj]) simp_all
qed

lemma stored_items:
  assumes "object_fields v names stage = Inr kvs"
  obtains obj where "sort_keys v = JObj obj" and "fst ` set obj = set names"
    and "\<And>key w. item kvs key = Inr w \<Longrightarrow> item obj key = Inr (sort_keys w)"
proof -
  from assms have v: "v = JObj kvs" "fst ` set kvs = set names"
    by (simp_all add: object_fields_eq_Inr)
  obtain obj where "sort_keys (JObj kvs) = JObj obj" "fst ` set obj = fst ` set kvs"
    and items: "\<And>key. item obj key =
      (case map_of kvs key of None \<Rightarrow> Inl KeyError | Some w \<Rightarrow> Inr (sort_keys w))"
    by (rule stored_object [of kvs]) (rule that)
  moreover have "item kvs key = Inr w \<Longrightarrow> item obj key = Inr (sort_keys w)" for key w
    by (cases "map_of kvs key") (simp_all add: items [of key], simp_all add: item_def)
  ultimately show thesis using v by (intro that) auto
qed

lemma object_fields_stored: "fst ` set kvs = set fields \<Longrightarrow> object_fields (JObj kvs) fields stage = Inr kvs"
  by (simp add: object_fields_def)

end
