(* ===== verification/HubSchema.thy ===== *)
theory HubSchema
  imports Boundary
begin

text \<open>
  The operational database of the Hub: the tables that \<open>Operations.__init__\<close>
  (python/spireagent/hub/database.py), \<open>create_campaign_tables\<close> (hub/campaigns.py) and
  \<open>CurationLedger.__init__\<close> (hub/curation.py), \<open>CollectionAccess.__init__\<close> (hub/collections.py)
  and \<open>DecisionJobs.__init__\<close> (hub/decision\_jobs.py) create, with the two tables of the console
  index (hub/console\_index.py) that they read, one record per row type and one
  list of rows, in rowid order, per table. A TEXT column that holds
  \<open>json.dumps(v, sort_keys=True)\<close> is kept as the key-sorted tree of \<open>v\<close>, which the text
  determines and is determined by; a column whose values are a closed set of names is an
  enumeration.
\<close>

section \<open>Rows\<close>

record device =
  d_id :: string
  d_token_hash :: string
  d_active :: bool
  d_name :: "string option"
  d_owner :: "string option"
  d_last_seen :: "real option"

datatype upload_status =
  AwaitingUpload | VerificationPending | Verified | Quarantined | TransferFailed

record upload =
  u_id :: string
  u_device :: string
  u_content_id :: string
  u_manifest_sha :: string
  u_intent :: json
  u_status :: upload_status
  u_receipt :: "json option"
  u_verify_attempts :: int
  u_retry_at :: real
  u_last_error :: "string option"

datatype job_status =
    Queued | Running | SubmissionUnknown | Uncertain | Cancelling
  | Completed | Paused | Failed | Cancelled

record job =
  j_id :: string
  j_request_key :: string
  j_kind :: string
  j_input_id :: string
  j_max_seconds :: int
  j_reserved_units :: int
  j_status :: job_status
  j_fence :: int
  j_attempt_id :: "string option"
  j_lease_hash :: "string option"
  j_lease_until :: "real option"
  j_deadline :: "real option"
  j_provider_ref :: "string option"
  j_result :: "json option"
  j_options :: json

datatype compute_phase = Submitting | Submitted | Settled job_status

datatype cancel_state = Requested | Acknowledged | CancelUnknown

record attempt =
  a_job :: string
  a_attempt_id :: string
  a_fence :: int
  a_request_id :: string
  a_request :: json
  a_target_id :: string
  a_phase :: compute_phase
  a_handle :: "json option"
  a_cancel_state :: "cancel_state option"
  a_last_error :: "string option"
  a_receipt :: "json option"

record event =
  e_at :: real
  e_actor :: string
  e_operation :: string
  e_subject :: string
  e_detail :: json

record user =
  us_subject :: string
  us_issuer :: string
  us_access_subject :: string
  us_email :: string

datatype flow_status = FlowPending | FlowApproved | FlowDenied | FlowAcknowledged

record flow =
  f_id :: string
  f_client_hash :: string
  f_device_name :: string
  f_device_id :: "string option"
  f_device_proof_hash :: "string option"
  f_user_code :: string
  f_created_at :: real
  f_expires_at :: real
  f_status :: flow_status
  f_key_id :: string
  f_subject :: "string option"
  f_session_hash :: "string option"
  f_session_expires_at :: "real option"
  f_new_device :: bool

record session_row =
  s_token_hash :: string
  s_subject :: string
  s_expires_at :: real
  s_created_at :: real

record rate =
  r_source :: string
  r_bucket :: int
  r_count :: int

datatype role = Member | Admin

datatype member_status = Invited | Active | Disabled

record member =
  m_id :: string
  m_email :: string
  m_issuer :: string
  m_access_subject :: "string option"
  m_subject :: "string option"
  m_role :: role
  m_status :: member_status
  m_enroll_devices :: bool
  m_device_quota :: int
  m_created_at :: real
  m_updated_at :: real

record activity =
  ac_id :: string
  ac_activity_id :: string
  ac_version :: int
  ac_template :: json
  ac_created_at :: real
  ac_created_by :: string

record enrollment =
  en_id :: string
  en_template_id :: string
  en_device_id :: string
  en_subject :: string
  en_consent :: json
  en_created_at :: real

record curation_claim =
  c_id :: string
  c_purpose :: string
  c_artifact :: "string option"
  c_created :: real

record curation_source =
  cs_id :: string
  cs_archive :: string
  cs_complete :: bool

record annotation =
  an_sequence :: int
  an_occurrence :: string
  an_actor :: string
  an_action :: string
  an_reason :: string
  an_at :: real

record sharing =
  sh_upload :: string
  sh_approved :: bool
  sh_evidence :: string
  sh_changed_at :: real

datatype decision_state = DPending | DRunning | DCompleted | DFailed | DCancelled

record decision =
  dj_id :: string
  dj_owner :: string
  dj_request :: json
  dj_state :: decision_state
  dj_result :: "json option"
  dj_error :: "string option"
  dj_created :: real
  dj_updated :: real

section \<open>The database\<close>

record ops =
  settings :: "string \<rightharpoonup> string"
  devices :: "device list"
  uploads :: "upload list"
  jobs :: "job list"
  attempts :: "attempt list"
  events :: "event list"
  users :: "user list"
  flows :: "flow list"
  sessions :: "session_row list"
  rates :: "rate list"
  members :: "member list"
  claim_scopes :: "(string \<times> string) list"
  activities :: "activity list"
  enrollments :: "enrollment list"
  cur_sources :: "curation_source list"
  cur_source_runs :: "(string \<times> string) list"
  cur_fingerprints :: "(string \<times> string) list"
  cur_occurrences :: "(string \<times> string \<times> string) list"
  cur_details :: "(string \<times> int \<times> string \<times> string \<times> json) list"
  cur_claims :: "curation_claim list"
  cur_claim_runs :: "(string \<times> string) list"
  cur_uses :: "(string \<times> string \<times> string \<times> real) list"
  cur_source_uses :: "(string \<times> string \<times> string) list"
  cur_annotations :: "annotation list"
  shared :: "sharing list"
  decisions :: "decision list"
  decision_hidden :: "(string \<times> string \<times> bool) list"
  decision_attempts :: "(string \<times> int) list"
  console_artifacts :: "(string \<times> string \<times> json) list"
  console_lineage :: "(string \<times> string) list"

text \<open>A new database: every table empty, and the one row \<open>('paused','0')\<close> of settings.\<close>

definition new_operations :: ops where
  "new_operations =
     \<lparr>settings = [''paused'' \<mapsto> ''0''], devices = [], uploads = [], jobs = [], attempts = [],
      events = [], users = [], flows = [], sessions = [], rates = [], members = [],
      claim_scopes = [], activities = [], enrollments = [], cur_sources = [],
      cur_source_runs = [], cur_fingerprints = [], cur_occurrences = [], cur_details = [],
      cur_claims = [], cur_claim_runs = [], cur_uses = [], cur_source_uses = [],
      cur_annotations = [], shared = [], decisions = [], decision_hidden = [], decision_attempts = [],
      console_artifacts = [], console_lineage = []\<rparr>"

text \<open>
  \<open>Operations._event\<close>. The clock reading \<open>clock\<close> is an argument of every operation that
  writes an event; one reading serves all the events of a transaction.
\<close>

definition record_event :: "real \<Rightarrow> string \<Rightarrow> string \<Rightarrow> string \<Rightarrow> json \<Rightarrow> ops \<Rightarrow> ops" where
  "record_event clock actor operation subject detail s =
     s\<lparr>events := events s @
        [\<lparr>e_at = clock, e_actor = actor, e_operation = operation, e_subject = subject,
          e_detail = sort_keys detail\<rparr>]\<rparr>"

text \<open>\<open>token_hash\<close>: SHA-256 of the token as a hexadecimal digest.\<close>

definition token_hash :: "hash \<Rightarrow> string \<Rightarrow> string" where
  "token_hash sha token = sha token"

text \<open>An event writes the audit table and nothing else.\<close>

lemma record_event_sel [simp]:
  "settings (record_event clock a op x d s) = settings s"
  "devices (record_event clock a op x d s) = devices s"
  "uploads (record_event clock a op x d s) = uploads s"
  "jobs (record_event clock a op x d s) = jobs s"
  "attempts (record_event clock a op x d s) = attempts s"
  "users (record_event clock a op x d s) = users s"
  "flows (record_event clock a op x d s) = flows s"
  "sessions (record_event clock a op x d s) = sessions s"
  "members (record_event clock a op x d s) = members s"
  "claim_scopes (record_event clock a op x d s) = claim_scopes s"
  "activities (record_event clock a op x d s) = activities s"
  "enrollments (record_event clock a op x d s) = enrollments s"
  "cur_claims (record_event clock a op x d s) = cur_claims s"
  "cur_claim_runs (record_event clock a op x d s) = cur_claim_runs s"
  "shared (record_event clock a op x d s) = shared s"
  "decisions (record_event clock a op x d s) = decisions s"
  "decision_hidden (record_event clock a op x d s) = decision_hidden s"
  "decision_attempts (record_event clock a op x d s) = decision_attempts s"
  by (simp_all add: record_event_def)

lemma record_event_events [simp]:
  "events (record_event clock a op x d s) =
     events s @ [\<lparr>e_at = clock, e_actor = a, e_operation = op, e_subject = x, e_detail = sort_keys d\<rparr>]"
  by (simp add: record_event_def)

end
