(* ===== verification/Devices.thy ===== *)
theory Devices
  imports HubSchema
begin

text \<open>
  Machine identities of the Hub: registration, authentication, revocation and credential
  rotation of devices (\<open>Operations.register\<close>, \<open>authenticate\<close>, \<open>device_authorized\<close>,
  \<open>authenticated_device\<close>, \<open>revoke\<close>, \<open>rotate_device\<close> in python/spireagent/hub/database.py).
  A credential is accepted only while its device is active and, when a member owns the
  device, only while that member is active.
\<close>

section \<open>Operations\<close>

definition device_row :: "ops \<Rightarrow> string \<Rightarrow> device option" where
  "device_row s device = find (\<lambda>d. d_id d = device) (devices s)"

text \<open>INSERT INTO devices: the id is the primary key and the token hash is UNIQUE.\<close>

definition insert_device :: "device \<Rightarrow> ops \<Rightarrow> ops result" where
  "insert_device d s =
     (if list_ex (\<lambda>e. d_id e = d_id d \<or> d_token_hash e = d_token_hash d) (devices s)
      then Inl IntegrityError
      else Inr (s\<lparr>devices := devices s @ [d]\<rparr>))"

definition register :: "hash \<Rightarrow> real \<Rightarrow> string \<Rightarrow> string \<Rightarrow> (ops, unit) tx" where
  "register sha clock device token s =
     (if device = [] \<or> 128 < length device \<or> length token < 32
      then Inl (BoundaryError ''hub'' ''invalid_device_credential'')
      else and_then
        (insert_device
          \<lparr>d_id = device, d_token_hash = token_hash sha token, d_active = True, d_name = None,
           d_owner = None, d_last_seen = None\<rparr> s)
        (\<lambda>s'. Inr (record_event clock ''admin'' ''device_registered'' device (JObj []) s', ())))"

definition active_owner :: "ops \<Rightarrow> string \<Rightarrow> bool" where
  "active_owner s subject \<longleftrightarrow>
     list_ex (\<lambda>m. m_subject m = Some subject \<and> m_status m = Active) (members s)"

definition device_authorized :: "ops \<Rightarrow> string \<Rightarrow> bool" where
  "device_authorized s device \<longleftrightarrow>
     list_ex (\<lambda>d. d_id d = device \<and> d_active d \<and>
        (case d_owner d of None \<Rightarrow> True | Some subject \<Rightarrow> active_owner s subject)) (devices s)"

definition authenticated_device :: "hash \<Rightarrow> ops \<Rightarrow> string \<Rightarrow> device result" where
  "authenticated_device sha s token =
     (case find (\<lambda>d. d_token_hash d = token_hash sha token) (devices s) of
        None \<Rightarrow> Inl (BoundaryError ''hub'' ''unauthorized'')
      | Some row \<Rightarrow>
          if device_authorized s (d_id row) then Inr row
          else Inl (BoundaryError ''hub'' ''unauthorized''))"

definition authenticate :: "hash \<Rightarrow> string \<Rightarrow> (ops, string) tx" where
  "authenticate sha token s =
     and_then (authenticated_device sha s token) (\<lambda>row. Inr (s, d_id row))"

definition revoke :: "real \<Rightarrow> string \<Rightarrow> (ops, unit) tx" where
  "revoke clock device s =
     Inr (record_event clock ''admin'' ''device_revoked'' device (JObj [])
       (s\<lparr>devices := update_where (\<lambda>d. d_id d = device) (\<lambda>d. d\<lparr>d_active := False\<rparr>) (devices s)\<rparr>), ())"

text \<open>UPDATE of the token hash is subject to the same UNIQUE constraint.\<close>

definition rotate_device :: "hash \<Rightarrow> real \<Rightarrow> string \<Rightarrow> string \<Rightarrow> (ops, unit) tx" where
  "rotate_device sha clock device token s =
     (if length token < 32 \<or> list_ex (\<lambda>c. c = CHR 0x0D \<or> c = CHR 0x0A) token
      then Inl (BoundaryError ''hub'' ''invalid_device_credential'')
      else
        (case device_row s device of
           None \<Rightarrow> Inl (BoundaryError ''hub'' ''device_rotation_not_applicable'')
         | Some row \<Rightarrow>
             if d_token_hash row = token_hash sha token
             then Inl (BoundaryError ''hub'' ''device_rotation_not_applicable'')
             else if (case d_owner row of
                        None \<Rightarrow> False
                      | Some subject \<Rightarrow> subject \<noteq> [] \<and> \<not> active_owner s subject)
             then Inl (BoundaryError ''hub'' ''device_owner_disabled'')
             else if list_ex (\<lambda>d. d_id d \<noteq> device \<and> d_token_hash d = token_hash sha token) (devices s)
             then Inl IntegrityError
             else Inr (record_event clock ''admin'' ''device_credential_rotated'' device
                    (JObj [(''previously_active'', JBool (d_active row))])
                    (s\<lparr>devices := update_where (\<lambda>d. d_id d = device)
                         (\<lambda>d. d\<lparr>d_token_hash := token_hash sha token, d_active := True\<rparr>)
                         (devices s)\<rparr>), ())))"

section \<open>Keys\<close>

text \<open>The UNIQUE constraints, as every operation keeps them.\<close>

definition devices_keyed :: "ops \<Rightarrow> bool" where
  "devices_keyed s \<longleftrightarrow>
     distinct (map d_id (devices s)) \<and> distinct (map d_token_hash (devices s))"

lemma insert_device_eq_Inr [returned]:
  "insert_device d s = Inr s' \<longleftrightarrow>
     d_id d \<notin> d_id ` set (devices s) \<and> d_token_hash d \<notin> d_token_hash ` set (devices s) \<and>
     s' = s\<lparr>devices := devices s @ [d]\<rparr>"
  unfolding insert_device_def list_ex_iff image_iff by (simp add: returned) metis

lemma insert_device_keyed: "insert_device d s = Inr s' \<Longrightarrow> devices_keyed s \<Longrightarrow> devices_keyed s'"
  by (auto simp: devices_keyed_def returned)

lemma register_keyed: "register sha clock device token s = Inr (s', u) \<Longrightarrow> devices_keyed s \<Longrightarrow> devices_keyed s'"
  by (auto simp: register_def devices_keyed_def returned)

lemma revoke_keyed: "revoke clock device s = Inr (s', u) \<Longrightarrow> devices_keyed s \<Longrightarrow> devices_keyed s'"
  by (auto simp: revoke_def devices_keyed_def map_update_where)

lemma rotate_token_distinct:
  "distinct (map d_token_hash rows) \<Longrightarrow> distinct (map d_id rows) \<Longrightarrow>
   (\<And>d. d \<in> set rows \<Longrightarrow> d_id d \<noteq> device \<Longrightarrow> d_token_hash d \<noteq> h) \<Longrightarrow>
   distinct (map d_token_hash
     (update_where (\<lambda>d. d_id d = device) (\<lambda>d. d\<lparr>d_token_hash := h, d_active := True\<rparr>) rows))"
proof (induction rows)
  case Nil
  then show ?case by simp
next
  case (Cons r rows)
  show ?case
  proof (cases "d_id r = device")
    case True
    with Cons.prems(2) have "\<And>q. q \<in> set rows \<Longrightarrow> d_id q \<noteq> device"
      by (auto simp: image_iff)
    with True Cons.prems show ?thesis
      by (auto simp: update_where_none)
  next
    case False
    with Cons show ?thesis
      by (auto simp: in_update_where)
  qed
qed

lemma rotate_device_keyed:
  "rotate_device sha clock device token s = Inr (s', u) \<Longrightarrow> devices_keyed s \<Longrightarrow> devices_keyed s'"
proof -
  let ?h = "token_hash sha token"
  assume keyed: "devices_keyed s" and ok: "rotate_device sha clock device token s = Inr (s', u)"
  from ok have "\<not> list_ex (\<lambda>d. d_id d \<noteq> device \<and> d_token_hash d = ?h) (devices s)"
    by (simp add: rotate_device_def returned) blast
  then have fresh: "\<And>d. d \<in> set (devices s) \<Longrightarrow> d_id d \<noteq> device \<Longrightarrow> d_token_hash d \<noteq> ?h"
    by (simp add: list_ex_iff) blast
  from ok have after: "devices s' = update_where (\<lambda>d. d_id d = device)
      (\<lambda>d. d\<lparr>d_token_hash := ?h, d_active := True\<rparr>) (devices s)"
    by (clarsimp simp: rotate_device_def returned)
  from keyed fresh show "devices_keyed s'"
    by (simp add: devices_keyed_def after map_update_where rotate_token_distinct)
qed

section \<open>Authentication\<close>

lemma device_authorized_row:
  "devices_keyed s \<Longrightarrow> d \<in> set (devices s) \<Longrightarrow>
   device_authorized s (d_id d) \<longleftrightarrow>
     d_active d \<and> (case d_owner d of None \<Rightarrow> True | Some subject \<Rightarrow> active_owner s subject)"
  unfolding device_authorized_def list_ex_iff devices_keyed_def
  by (metis (no_types, lifting) distinct_key_inj)

lemma authenticated_device_eq_Inr [returned]:
  "devices_keyed s \<Longrightarrow>
   authenticated_device sha s token = Inr row \<longleftrightarrow>
     row \<in> set (devices s) \<and> d_token_hash row = token_hash sha token \<and> d_active row \<and>
     (case d_owner row of None \<Rightarrow> True | Some subject \<Rightarrow> active_owner s subject)"
proof -
  assume keyed: "devices_keyed s"
  then have unique: "\<And>r q. r \<in> set (devices s) \<Longrightarrow> q \<in> set (devices s) \<Longrightarrow>
      d_token_hash r = d_token_hash q \<Longrightarrow> r = q"
    unfolding devices_keyed_def by (metis distinct_key_inj)
  show ?thesis
  proof (cases "find (\<lambda>d. d_token_hash d = token_hash sha token) (devices s)")
    case None
    then have "authenticated_device sha s token \<noteq> Inr row"
      by (simp add: authenticated_device_def)
    with None show ?thesis
      by (auto simp: find_None_iff)
  next
    case (Some r)
    note r = find_key_Some [OF Some]
    then have "row \<in> set (devices s) \<and> d_token_hash row = token_hash sha token \<Longrightarrow> row = r"
      using unique by metis
    with Some r show ?thesis
      by (auto simp: authenticated_device_def device_authorized_row [OF keyed])
  qed
qed

end
