(* ===== verification/Uploads.thy ===== *)
theory Uploads
  imports Devices
begin

text \<open>
  The upload queue of the Hub (\<open>Operations.create_upload\<close> to \<open>finish_upload\<close> in
  python/spireagent/hub/database.py): one row per (device, content id), moved from
  awaiting the bytes to verification and from there to a receipt, to a bounded number of
  retries, or to a failed transfer that only an operator re-opens.
\<close>

section \<open>Operations\<close>

definition upload_row :: "ops \<Rightarrow> string \<Rightarrow> upload option" where
  "upload_row s upload_id = find (\<lambda>u. u_id u = upload_id) (uploads s)"

definition pending_uploads :: "ops \<Rightarrow> string \<Rightarrow> nat" where
  "pending_uploads s device =
     length (filter (\<lambda>u. u_device u = device \<and> u_status u \<in> {AwaitingUpload, VerificationPending})
       (uploads s))"

text \<open>The fresh identity is \<open>secrets.token_hex(16)\<close>; a collision would break the primary key.\<close>

definition create_upload ::
  "string \<Rightarrow> real \<Rightarrow> string \<Rightarrow> string \<Rightarrow> string \<Rightarrow> json \<Rightarrow> (ops, upload) tx" where
  "create_upload fresh clock device content_id manifest_sha intent s =
     (let encoded = sort_keys intent in
      case find (\<lambda>u. u_device u = device \<and> u_content_id u = content_id) (uploads s) of
        Some old \<Rightarrow>
          if u_manifest_sha old \<noteq> manifest_sha
          then Inl (BoundaryError ''hub'' ''content_manifest_conflict'')
          else if u_intent old \<noteq> encoded \<and> u_status old \<noteq> Verified
          then Inl (BoundaryError ''hub'' ''upload_transport_changed'')
          else Inr (s, old)
      | None \<Rightarrow>
          if 16 \<le> pending_uploads s device
          then Inl (BoundaryError ''hub'' ''upload_queue_limit'')
          else if upload_row s fresh \<noteq> None then Inl IntegrityError
          else
            let row = \<lparr>u_id = fresh, u_device = device, u_content_id = content_id,
                       u_manifest_sha = manifest_sha, u_intent = encoded,
                       u_status = AwaitingUpload, u_receipt = None, u_verify_attempts = 0,
                       u_retry_at = 0, u_last_error = None\<rparr>
            in Inr (record_event clock device ''upload_created'' fresh
                      (JObj [(''content_id'', JStr content_id)])
                      (s\<lparr>uploads := uploads s @ [row]\<rparr>), row))"

definition upload_status_name :: "upload_status \<Rightarrow> string" where
  "upload_status_name st =
     (case st of
        AwaitingUpload \<Rightarrow> ''awaiting_upload''
      | VerificationPending \<Rightarrow> ''verification_pending''
      | Verified \<Rightarrow> ''verified''
      | Quarantined \<Rightarrow> ''quarantined''
      | TransferFailed \<Rightarrow> ''transfer_failed'')"

definition upload_status_names :: "string list" where
  "upload_status_names =
     [''awaiting_upload'', ''verification_pending'', ''verified'', ''quarantined'', ''transfer_failed'']"

text \<open>The projection the listings select: every column but the intent and the manifest hash.\<close>

record upload_summary =
  su_id :: string
  su_device :: string
  su_content_id :: string
  su_status :: upload_status
  su_receipt :: "json option"
  su_retry_at :: real
  su_verify_attempts :: int
  su_last_error :: "string option"

definition summary :: "upload \<Rightarrow> upload_summary" where
  "summary u =
     \<lparr>su_id = u_id u, su_device = u_device u, su_content_id = u_content_id u,
      su_status = u_status u, su_receipt = u_receipt u, su_retry_at = u_retry_at u,
      su_verify_attempts = u_verify_attempts u, su_last_error = u_last_error u\<rparr>"

definition json_int_in :: "json \<Rightarrow> int \<Rightarrow> int \<Rightarrow> bool" where
  "json_int_in v lo hi = (case v of JInt i \<Rightarrow> lo \<le> i \<and> i \<le> hi | _ \<Rightarrow> False)"

definition json_int :: "json \<Rightarrow> int" where
  "json_int v = (case v of JInt i \<Rightarrow> i | _ \<Rightarrow> 0)"

definition list_uploads ::
  "string option \<Rightarrow> json \<Rightarrow> json \<Rightarrow> json list option \<Rightarrow> ops \<Rightarrow> upload_summary list result" where
  "list_uploads device limit offset statuses s =
     (if \<not> json_int_in limit 1 1000 \<or> (case offset of JInt i \<Rightarrow> i < 0 | _ \<Rightarrow> True)
      then Inl (BoundaryError ''hub'' ''invalid_upload_pagination'')
      else if (case statuses of
                 None \<Rightarrow> False
               | Some values \<Rightarrow> \<not> list_all (\<lambda>v. v \<in> set (map JStr upload_status_names)) values)
      then Inl (BoundaryError ''hub'' ''invalid_upload_status_filter'')
      else if statuses = Some [] then Inr []
      else Inr (map summary (take (nat (json_int limit)) (drop (nat (json_int offset))
        (rev (filter (\<lambda>u.
            (case device of None \<Rightarrow> True | Some d \<Rightarrow> u_device u = d) \<and>
            (case statuses of None \<Rightarrow> True
             | Some values \<Rightarrow> JStr (upload_status_name (u_status u)) \<in> set values))
          (uploads s)))))))"

text \<open>The due row with the least retry time, the earliest row among equals.\<close>

definition pending_upload :: "pyfloat \<Rightarrow> ops \<Rightarrow> upload_summary option result" where
  "pending_upload now s =
     (case now of
        NonFinite \<Rightarrow> Inl (BoundaryError ''hub'' ''invalid_verification_time'')
      | Finite t \<Rightarrow>
          (case sort_key u_retry_at
                  (filter (\<lambda>u. u_status u = VerificationPending \<and> u_retry_at u \<le> t) (uploads s)) of
             [] \<Rightarrow> Inr None
           | u # _ \<Rightarrow> Inr (Some (summary u))))"

definition upload_counts :: "string option \<Rightarrow> ops \<Rightarrow> upload_status \<Rightarrow> nat option" where
  "upload_counts device s st =
     (let n = length (filter (\<lambda>u. u_status u = st \<and>
                (case device of None \<Rightarrow> True | Some d \<Rightarrow> u_device u = d)) (uploads s))
      in if n = 0 then None else Some n)"

definition get_upload :: "string \<Rightarrow> string option \<Rightarrow> ops \<Rightarrow> upload result" where
  "get_upload upload_id device s =
     (case upload_row s upload_id of
        None \<Rightarrow> Inl (BoundaryError ''hub'' ''upload_not_found'')
      | Some row \<Rightarrow>
          if (case device of None \<Rightarrow> False | Some d \<Rightarrow> u_device row \<noteq> d)
          then Inl (BoundaryError ''hub'' ''upload_not_found'')
          else Inr row)"

definition request_verification :: "real \<Rightarrow> string \<Rightarrow> (ops, unit) tx" where
  "request_verification clock upload_id s =
     (if list_ex (\<lambda>u. u_id u = upload_id \<and> u_status u = AwaitingUpload) (uploads s)
      then Inr (record_event clock ''receiver'' ''upload_verification_requested'' upload_id (JObj [])
             (s\<lparr>uploads := update_where (\<lambda>u. u_id u = upload_id \<and> u_status u = AwaitingUpload)
                  (\<lambda>u. u\<lparr>u_status := VerificationPending\<rparr>) (uploads s)\<rparr>), ())
      else Inr (s, ()))"

definition retry_delay :: "int \<Rightarrow> int" where
  "retry_delay tries = min 300 (2 ^ nat tries)"

definition verification_failure :: "real \<Rightarrow> string \<Rightarrow> string \<Rightarrow> real \<Rightarrow> (ops, unit) tx" where
  "verification_failure clock upload_id code now s =
     (case upload_row s upload_id of
        None \<Rightarrow> Inr (s, ())
      | Some row \<Rightarrow>
          if u_status row \<noteq> VerificationPending then Inr (s, ())
          else
            let tries = u_verify_attempts row + 1;
                status = (if 5 \<le> tries then TransferFailed else VerificationPending)
            in Inr (record_event clock ''receiver'' ''verification_retry'' upload_id
                      (JObj [(''attempt'', JInt tries), (''code'', JStr code),
                             (''status'', JStr (upload_status_name status))])
                      (s\<lparr>uploads := update_where (\<lambda>u. u_id u = upload_id)
                           (\<lambda>u. u\<lparr>u_verify_attempts := tries,
                                  u_retry_at := now + of_int (retry_delay tries),
                                  u_last_error := Some code, u_status := status\<rparr>)
                           (uploads s)\<rparr>), ()))"

definition retry_upload :: "real \<Rightarrow> string \<Rightarrow> (ops, unit) tx" where
  "retry_upload clock upload_id s =
     (case upload_row s upload_id of
        None \<Rightarrow> Inl (BoundaryError ''hub'' ''upload_retry_not_applicable'')
      | Some row \<Rightarrow>
          if u_status row \<noteq> TransferFailed
          then Inl (BoundaryError ''hub'' ''upload_retry_not_applicable'')
          else Inr (record_event clock ''admin'' ''upload_retry_authorized'' upload_id (JObj [])
                 (s\<lparr>uploads := update_where (\<lambda>u. u_id u = upload_id)
                      (\<lambda>u. u\<lparr>u_status := AwaitingUpload, u_verify_attempts := 0, u_retry_at := 0,
                             u_last_error := None\<rparr>) (uploads s)\<rparr>), ()))"

definition receipt_status :: "(string \<times> json) list \<Rightarrow> upload_status option" where
  "receipt_status receipt =
     (if map_of receipt ''status'' = Some (JStr ''verified'') then Some Verified
      else if map_of receipt ''status'' = Some (JStr ''quarantined'') then Some Quarantined
      else None)"

definition receipt_names :: "upload \<Rightarrow> (string \<times> json) list \<Rightarrow> bool" where
  "receipt_names row receipt \<longleftrightarrow>
     map_of receipt ''content_id'' = Some (JStr (u_content_id row)) \<and>
     map_of receipt ''manifest_sha256'' = Some (JStr (u_manifest_sha row))"

definition finish_upload :: "real \<Rightarrow> string \<Rightarrow> (string \<times> json) list \<Rightarrow> (ops, unit) tx" where
  "finish_upload clock upload_id receipt s =
     and_then (in_strings (case map_of receipt ''status'' of None \<Rightarrow> JNull | Some v \<Rightarrow> v)
                 [''verified'', ''quarantined''])
       (\<lambda>known.
         case receipt_status receipt of
           None \<Rightarrow> Inl (BoundaryError ''hub'' ''invalid_receive_disposition'')
         | Some status \<Rightarrow>
             (case upload_row s upload_id of
                None \<Rightarrow> Inl (BoundaryError ''hub'' ''receipt_identity_mismatch'')
              | Some row \<Rightarrow>
                  if \<not> receipt_names row receipt
                  then Inl (BoundaryError ''hub'' ''receipt_identity_mismatch'')
                  else
                    let encoded = sort_keys (JObj receipt) in
                    if u_receipt row \<noteq> None \<and> u_receipt row \<noteq> Some encoded
                    then Inl (BoundaryError ''hub'' ''receipt_conflict'')
                    else Inr (record_event clock ''verifier'' ''upload_receipt'' upload_id (JObj receipt)
                           (s\<lparr>uploads := update_where (\<lambda>u. u_id u = upload_id)
                                (\<lambda>u. u\<lparr>u_status := status, u_receipt := Some encoded\<rparr>)
                                (uploads s)\<rparr>), ())))"

section \<open>One step of the queue\<close>

text \<open>Any committed operation, with any clock, fresh identity and arguments.\<close>

inductive upload_step :: "ops \<Rightarrow> ops \<Rightarrow> bool" where
  created: "create_upload fresh clock device cid sha intent s = Inr (s', row) \<Longrightarrow> upload_step s s'"
| requested: "request_verification clock i s = Inr (s', u) \<Longrightarrow> upload_step s s'"
| failed: "verification_failure clock i code now s = Inr (s', u) \<Longrightarrow> upload_step s s'"
| retried: "retry_upload clock i s = Inr (s', u) \<Longrightarrow> upload_step s s'"
| finished: "finish_upload clock i receipt s = Inr (s', u) \<Longrightarrow> upload_step s s'"

section \<open>Well-formed rows\<close>

text \<open>
  What the queue keeps true of a row: the attempt counter stays within its bound of five,
  a row without receipt is on its way, and a row with a receipt is settled exactly as that
  receipt says, for the content and manifest the row was created for.
\<close>

definition settled_by :: "upload \<Rightarrow> json \<Rightarrow> bool" where
  "settled_by u r \<longleftrightarrow>
     (\<exists>receipt. r = sort_keys (JObj receipt) \<and> receipt_status receipt = Some (u_status u) \<and>
        receipt_names u receipt)"

definition upload_wf :: "upload \<Rightarrow> bool" where
  "upload_wf u \<longleftrightarrow>
     0 \<le> u_verify_attempts u \<and> u_verify_attempts u \<le> 5 \<and>
     (case u_receipt u of
        Some r \<Rightarrow> u_status u \<in> {Verified, Quarantined} \<and> settled_by u r
      | None \<Rightarrow>
          u_status u \<in> {AwaitingUpload, VerificationPending} \<and> u_verify_attempts u < 5 \<or>
          u_status u = TransferFailed \<and> u_verify_attempts u = 5)"

definition uploads_ok :: "ops \<Rightarrow> bool" where
  "uploads_ok s \<longleftrightarrow>
     distinct (map u_id (uploads s)) \<and>
     distinct (map (\<lambda>u. (u_device u, u_content_id u)) (uploads s)) \<and>
     (\<forall>u \<in> set (uploads s). upload_wf u)"

lemma receipt_status_sort:
  "sort_keys (JObj r) = sort_keys (JObj r') \<Longrightarrow> receipt_status r = receipt_status r'"
  using sort_keys_JObj_string [of r r' "''status''"] by (simp add: receipt_status_def)

lemma receipt_names_sort:
  "sort_keys (JObj r) = sort_keys (JObj r') \<Longrightarrow> receipt_names u r = receipt_names u r'"
  using sort_keys_JObj_string [of r r'] by (simp add: receipt_names_def)

section \<open>Every operation keeps the rows well formed\<close>

lemma upload_wf_update:
  assumes "uploads_ok s" and "\<And>u. u_id (f u) = u_id u"
    and "\<And>u. u_device (f u) = u_device u" and "\<And>u. u_content_id (f u) = u_content_id u"
    and "\<And>u. u \<in> set (uploads s) \<Longrightarrow> P u \<Longrightarrow> upload_wf u \<Longrightarrow> upload_wf (f u)"
  shows "uploads_ok (s\<lparr>uploads := update_where P f (uploads s)\<rparr>)"
  using assms unfolding uploads_ok_def by (auto simp: map_update_where in_update_where)

lemma uploads_ok_event [simp]: "uploads_ok (record_event clock a op x d s) = uploads_ok s"
  by (simp add: uploads_ok_def)

lemma upload_row_unique:
  "uploads_ok s \<Longrightarrow> upload_row s i = Some r \<Longrightarrow> u \<in> set (uploads s) \<Longrightarrow> u_id u = i \<Longrightarrow> u = r"
  unfolding uploads_ok_def upload_row_def by (blast intro: find_key_unique)

lemma create_upload_wf: 
  assumes "create_upload fresh clock device cid sha intent s = Inr (s', row)" and ok: "uploads_ok s"
  shows "uploads_ok s'"
proof (cases "find (\<lambda>u. u_device u = device \<and> u_content_id u = cid) (uploads s)")
  case (Some old)
  with assms show ?thesis by (auto simp: create_upload_def Let_def split: if_splits)
next
  case None
  then have "(device, cid) \<notin> (\<lambda>u. (u_device u, u_content_id u)) ` set (uploads s)"
    by (auto simp: find_None_iff)
  with None assms show ?thesis
    by (auto simp: create_upload_def Let_def uploads_ok_def upload_wf_def upload_row_def
        find_None_key image_iff split: if_splits)
qed

lemma request_verification_wf:
  "request_verification clock i s = Inr (s', u) \<Longrightarrow> uploads_ok s \<Longrightarrow> uploads_ok s'"
  by (auto simp: request_verification_def upload_wf_def settled_by_def
      split: if_splits option.splits intro!: upload_wf_update)

lemma verification_failure_wf:
  assumes run: "verification_failure clock i code now s = Inr (s', u)" and ok: "uploads_ok s"
  shows "uploads_ok s'"
proof (cases "upload_row s i")
  case None
  with run ok show ?thesis by (simp add: verification_failure_def)
next
  case (Some row)
  from ok Some have unique: "\<And>q. q \<in> set (uploads s) \<Longrightarrow> u_id q = i \<Longrightarrow> q = row"
    by (rule upload_row_unique)
  have bound: "upload_wf row \<Longrightarrow> u_status row = VerificationPending \<Longrightarrow>
      u_receipt row = None \<and> 0 \<le> u_verify_attempts row \<and> u_verify_attempts row < 5"
    by (auto simp: upload_wf_def split: option.splits)
  show ?thesis
  proof (cases "u_status row = VerificationPending")
    case False
    with run ok Some show ?thesis by (simp add: verification_failure_def)
  next
    case True
    with run Some bound show ?thesis
      by (auto simp: verification_failure_def Let_def upload_wf_def dest!: unique
          intro!: upload_wf_update [OF ok])
  qed
qed

lemma retry_upload_wf:
  assumes run: "retry_upload clock i s = Inr (s', u)" and ok: "uploads_ok s"
  shows "uploads_ok s'"
proof -
  from run obtain row where row: "upload_row s i = Some row" "u_status row = TransferFailed"
    and s': "s' = record_event clock ''admin'' ''upload_retry_authorized'' i (JObj [])
       (s\<lparr>uploads := update_where (\<lambda>u. u_id u = i)
          (\<lambda>u. u\<lparr>u_status := AwaitingUpload, u_verify_attempts := 0, u_retry_at := 0,
                 u_last_error := None\<rparr>) (uploads s)\<rparr>)"
    by (auto simp: retry_upload_def split: option.splits if_splits)
  note unique = upload_row_unique [OF ok row(1)]
  from row(2) show ?thesis
    unfolding s'
    by (auto simp: upload_wf_def dest!: unique split: option.splits
        intro!: upload_wf_update [OF ok])
qed

lemma finish_upload_eq_Inr:
  "finish_upload clock i receipt s = Inr (s', u) \<longleftrightarrow>
     (\<exists>row status. upload_row s i = Some row \<and> receipt_status receipt = Some status \<and>
        receipt_names row receipt \<and>
        (u_receipt row = None \<or> u_receipt row = Some (sort_keys (JObj receipt))) \<and>
        s' = record_event clock ''verifier'' ''upload_receipt'' i (JObj receipt)
          (s\<lparr>uploads := update_where (\<lambda>u. u_id u = i)
             (\<lambda>u. u\<lparr>u_status := status, u_receipt := Some (sort_keys (JObj receipt))\<rparr>)
             (uploads s)\<rparr>))"
proof (cases "receipt_status receipt")
  case None
  then show ?thesis
    by (auto simp: finish_upload_def and_then_eq_Inr)
next
  case (Some status)
  then have "\<exists>b. in_strings (case map_of receipt ''status'' of None \<Rightarrow> JNull | Some v \<Rightarrow> v)
      [''verified'', ''quarantined''] = Inr b"
    by (auto simp: receipt_status_def in_strings_def split: if_splits)
  with Some show ?thesis
    by (auto simp: finish_upload_def Let_def split: option.splits if_splits)
qed

lemma finish_upload_wf:
  assumes run: "finish_upload clock i receipt s = Inr (s', u)" and ok: "uploads_ok s"
  shows "uploads_ok s'"
proof -
  from run obtain row status where row: "upload_row s i = Some row"
    and named: "receipt_status receipt = Some status" "receipt_names row receipt"
    and s': "s' = record_event clock ''verifier'' ''upload_receipt'' i (JObj receipt)
       (s\<lparr>uploads := update_where (\<lambda>u. u_id u = i)
          (\<lambda>u. u\<lparr>u_status := status, u_receipt := Some (sort_keys (JObj receipt))\<rparr>)
          (uploads s)\<rparr>)"
    unfolding finish_upload_eq_Inr by blast
  note unique = upload_row_unique [OF ok row]
  have "status \<in> {Verified, Quarantined}"
    using named(1) by (auto simp: receipt_status_def split: if_splits)
  moreover have "settled_by (row\<lparr>u_status := status, u_receipt := Some (sort_keys (JObj receipt))\<rparr>)
      (sort_keys (JObj receipt))"
    using named unfolding settled_by_def receipt_names_def by (intro exI [of _ receipt]) auto
  ultimately show ?thesis
    unfolding s'
    by (auto simp: upload_wf_def dest!: unique simp del: sort_keys.simps split: option.splits
        intro!: upload_wf_update [OF ok])
qed

lemma upload_step_wf: "upload_step s s' \<Longrightarrow> uploads_ok s \<Longrightarrow> uploads_ok s'"
  by (induction rule: upload_step.induct)
     (blast intro: create_upload_wf request_verification_wf verification_failure_wf
       retry_upload_wf finish_upload_wf)+

lemma upload_steps_wf: "upload_step\<^sup>*\<^sup>* s s' \<Longrightarrow> uploads_ok s \<Longrightarrow> uploads_ok s'"
  by (induction rule: rtranclp_induct) (auto intro: upload_step_wf)

section \<open>A receipt is final\<close>

definition same_settlement :: "upload \<Rightarrow> upload \<Rightarrow> bool" where
  "same_settlement u v \<longleftrightarrow>
     u_id v = u_id u \<and> u_device v = u_device u \<and> u_content_id v = u_content_id u \<and>
     u_manifest_sha v = u_manifest_sha u \<and> u_receipt v = u_receipt u \<and> u_status v = u_status u"

lemma same_settlement_refl [simp]: "same_settlement u u"
  by (simp add: same_settlement_def)

lemma same_settlement_trans: "same_settlement u v \<Longrightarrow> same_settlement v w \<Longrightarrow> same_settlement u w"
  by (simp add: same_settlement_def)

lemma settled_update:
  assumes "u \<in> set rows" and "P u \<Longrightarrow> same_settlement u (f u)"
  shows "\<exists>v \<in> set (update_where P f rows). same_settlement u v"
  using update_where_image [OF assms(1), of P f] assms(2)
  by (cases "P u") (auto intro: bexI [of _ "f u"] bexI [of _ u])

lemma settled_kept: "u \<in> set rows \<Longrightarrow> \<exists>v \<in> set rows. same_settlement u v"
  by (auto intro: bexI [of _ u])

lemma settled_status: "upload_wf u \<Longrightarrow> u_receipt u \<noteq> None \<Longrightarrow> u_status u \<in> {Verified, Quarantined}"
  by (auto simp: upload_wf_def)

lemma upload_step_settled:
  assumes step: "upload_step s s'" and ok: "uploads_ok s"
    and u: "u \<in> set (uploads s)" "u_receipt u \<noteq> None"
  shows "\<exists>v \<in> set (uploads s'). same_settlement u v"
proof -
  from ok u have wf: "upload_wf u" by (auto simp: uploads_ok_def)
  note status = settled_status [OF wf u(2)]
  note same = upload_row_unique [OF ok _ u(1)]
  from step show ?thesis
  proof cases
    case created
    with u(1) show ?thesis
      by (auto simp: create_upload_def Let_def intro!: settled_kept split: option.splits if_splits)
  next
    case requested
    with status u(1) show ?thesis
      by (auto simp: request_verification_def intro!: settled_update intro: settled_kept split: if_splits)
  next
    case failed
    with status u(1) show ?thesis
      by (auto simp: verification_failure_def Let_def dest!: same [OF _ refl] intro!: settled_update intro: settled_kept split: option.splits if_splits)
  next
    case retried
    with status u(1) show ?thesis
      by (auto simp: retry_upload_def dest!: same [OF _ refl] intro!: settled_update intro: settled_kept split: option.splits if_splits)
  next
    case (finished clock i receipt)
    then obtain row status where row: "upload_row s i = Some row"
      "receipt_status receipt = Some status"
      "u_receipt row = None \<or> u_receipt row = Some (sort_keys (JObj receipt))"
      and s': "uploads s' = update_where (\<lambda>u. u_id u = i)
         (\<lambda>u. u\<lparr>u_status := status, u_receipt := Some (sort_keys (JObj receipt))\<rparr>) (uploads s)"
      unfolding finish_upload_eq_Inr by (auto simp del: sort_keys.simps)
    have "u_id u = i \<Longrightarrow> u_status u = status \<and> u_receipt u = Some (sort_keys (JObj receipt))"
    proof -
      assume "u_id u = i"
      with row(1) same have "row = u" by simp
      with row(3) u(2) have r: "u_receipt u = Some (sort_keys (JObj receipt))" by auto
      with wf obtain r' where "sort_keys (JObj receipt) = sort_keys (JObj r')"
        "receipt_status r' = Some (u_status u)"
        unfolding upload_wf_def settled_by_def by auto
      with receipt_status_sort [of receipt r'] row(2) r show ?thesis by (simp del: sort_keys.simps)
    qed
    with u(1) show ?thesis
      unfolding s' by (intro settled_update) (auto simp: same_settlement_def)
  qed
qed

lemma upload_steps_settled:
  assumes "upload_step\<^sup>*\<^sup>* s s'" and "uploads_ok s"
    and "u \<in> set (uploads s)" "u_receipt u \<noteq> None"
  shows "\<exists>v \<in> set (uploads s'). same_settlement u v"
  using assms
proof (induction rule: rtranclp_induct)
  case base
  then show ?case by (auto intro: bexI [of _ u])
next
  case (step t t')
  then obtain v where v: "v \<in> set (uploads t)" "same_settlement u v" by blast
  with step.prems have "u_receipt v \<noteq> None" by (simp add: same_settlement_def)
  with v step show ?case
    by (meson same_settlement_trans upload_step_settled upload_steps_wf)
qed

end
