(* ===== verification/Jobs.thy ===== *)
theory Jobs
  imports Uploads
begin

text \<open>
  The job ledger of the Hub (\<open>Operations.enqueue\<close> to \<open>paused\<close> in
  python/spireagent/hub/database.py): budgeted intake, the lease on the one running job,
  its expiry into an uncertain state, completion, cancellation and the operator's
  reconciliation. The compute half of the same ledger is in \<open>Compute\<close>.
\<close>

section \<open>Intake\<close>

definition job_row :: "ops \<Rightarrow> string \<Rightarrow> job option" where
  "job_row s i = find (\<lambda>r. j_id r = i) (jobs s)"

definition option_value :: "(string \<times> json) list \<Rightarrow> string \<Rightarrow> json" where
  "option_value kvs key = (case map_of kvs key of None \<Rightarrow> JNull | Some v \<Rightarrow> v)"

definition is_hex64 :: "json \<Rightarrow> bool" where
  "is_hex64 v = (case v of JStr t \<Rightarrow> length t = 64 \<and> lower_hex t | _ \<Rightarrow> False)"

definition positive_int :: "json \<Rightarrow> bool" where
  "positive_int v = (case v of JInt i \<Rightarrow> 0 < i | _ \<Rightarrow> False)"

definition check_job_options :: "string \<Rightarrow> json option \<Rightarrow> (string \<times> json) list result" where
  "check_job_options kind given =
     (case (case given of None \<Rightarrow> JObj [] | Some v \<Rightarrow> v) of
        JObj options \<Rightarrow>
          if \<not> list_all (\<lambda>kv. fst kv \<in> {''resume'', ''stop_after''}) options
          then Inl (BoundaryError ''hub'' ''invalid_job_options'')
          else
            let resume = option_value options ''resume'';
                stop_after = option_value options ''stop_after''
            in if resume \<noteq> JNull \<and> \<not> is_hex64 resume
               then Inl (BoundaryError ''hub'' ''invalid_resume'')
               else if stop_after \<noteq> JNull \<and> \<not> positive_int stop_after
               then Inl (BoundaryError ''hub'' ''invalid_stop_after'')
               else if kind = ''feature'' \<and> (resume \<noteq> JNull \<or> stop_after \<noteq> JNull)
               then Inl (BoundaryError ''hub'' ''feature_resume_not_supported'')
               else Inr options
      | _ \<Rightarrow> Inl (BoundaryError ''hub'' ''invalid_job_options''))"

definition reserved_total :: "ops \<Rightarrow> int" where
  "reserved_total s = sum_list (map j_reserved_units (jobs s))"

definition enqueue ::
  "string \<Rightarrow> real \<Rightarrow> string \<Rightarrow> string \<Rightarrow> string \<Rightarrow> json \<Rightarrow> json \<Rightarrow> json \<Rightarrow> json option
    \<Rightarrow> (ops, string) tx" where
  "enqueue fresh clock kind input_id request_key max_seconds reserved_units budget_limit given s =
     and_then (check_job_options kind given) (\<lambda>options.
       let encoded_options = sort_keys (JObj options) in
       if kind \<notin> {''feature'', ''training''} \<or> \<not> json_int_in max_seconds 1 86400
       then Inl (BoundaryError ''hub'' ''invalid_job'')
       else if length input_id \<noteq> 64 \<or> \<not> lower_hex input_id
       then Inl (BoundaryError ''hub'' ''invalid_job_input'')
       else if request_key = [] \<or> \<not> positive_int reserved_units \<or> \<not> positive_int budget_limit
       then Inl (BoundaryError ''hub'' ''invalid_budget'')
       else
         (case find (\<lambda>r. j_request_key r = request_key) (jobs s) of
            Some old \<Rightarrow>
              if (j_kind old, j_input_id old, j_max_seconds old, j_reserved_units old, j_options old)
                 \<noteq> (kind, input_id, json_int max_seconds, json_int reserved_units, encoded_options)
              then Inl (BoundaryError ''hub'' ''job_request_conflict'')
              else Inr (s, j_id old)
          | None \<Rightarrow>
              if json_int budget_limit < reserved_total s + json_int reserved_units
              then Inl (BoundaryError ''hub'' ''budget_exhausted'')
              else if job_row s fresh \<noteq> None then Inl IntegrityError
              else
                let row = \<lparr>j_id = fresh, j_request_key = request_key, j_kind = kind,
                           j_input_id = input_id, j_max_seconds = json_int max_seconds,
                           j_reserved_units = json_int reserved_units, j_status = Queued,
                           j_fence = 0, j_attempt_id = None, j_lease_hash = None,
                           j_lease_until = None, j_deadline = None, j_provider_ref = None,
                           j_result = None, j_options = encoded_options\<rparr>
                in Inr (record_event clock ''admin'' ''job_enqueued'' fresh
                          (JObj [(''input_id'', JStr input_id)])
                          (s\<lparr>jobs := jobs s @ [row]\<rparr>), fresh)))"

section \<open>Leases\<close>

definition active_statuses :: "job_status list" where
  "active_statuses = [Running, SubmissionUnknown, Uncertain, Cancelling]"

definition is_active :: "job \<Rightarrow> bool" where
  "is_active r \<longleftrightarrow> j_status r \<in> set active_statuses"

definition setting_paused :: "ops \<Rightarrow> bool result" where
  "setting_paused s =
     (case settings s ''paused'' of None \<Rightarrow> Inl TypeError | Some v \<Rightarrow> Inr (v = ''1''))"

definition paused :: "(ops, bool) tx" where
  "paused s = and_then (setting_paused s) (\<lambda>p. Inr (s, p))"

definition valid_lease :: "json \<Rightarrow> pyfloat \<Rightarrow> bool" where
  "valid_lease lease_seconds now \<longleftrightarrow> json_int_in lease_seconds 1 600 \<and> isfinite now"

definition instant :: "pyfloat \<Rightarrow> real" where
  "instant now = (case now of Finite t \<Rightarrow> t | NonFinite \<Rightarrow> 0)"

definition update_job :: "string \<Rightarrow> (job \<Rightarrow> job) \<Rightarrow> ops \<Rightarrow> ops" where
  "update_job i f s = s\<lparr>jobs := update_where (\<lambda>r. j_id r = i) f (jobs s)\<rparr>"

definition job_deadline :: "pyfloat \<Rightarrow> job \<Rightarrow> real" where
  "job_deadline now row = instant now + of_int (j_max_seconds row)"

definition granted_lease :: "pyfloat \<Rightarrow> json \<Rightarrow> real \<Rightarrow> real" where
  "granted_lease now lease_seconds deadline = min (instant now + of_int (json_int lease_seconds)) deadline"

text \<open>The UPDATE of \<open>claim\<close>, with the lease and deadline computed from the selected row.\<close>

definition take_job :: "hash \<Rightarrow> string \<Rightarrow> string \<Rightarrow> real \<Rightarrow> real \<Rightarrow> job \<Rightarrow> job" where
  "take_job sha token attempt lease deadline r =
     r\<lparr>j_status := Running, j_fence := j_fence r + 1, j_attempt_id := Some attempt,
       j_lease_hash := Some (token_hash sha token), j_lease_until := Some lease,
       j_deadline := Some deadline, j_provider_ref := None\<rparr>"

text \<open>
  The claimed row is returned without its lease hash and with the lease token, the fresh
  \<open>secrets.token_urlsafe(32)\<close>; \<open>attempt\<close> is the fresh \<open>secrets.token_hex(16)\<close>.
\<close>

definition claim ::
  "hash \<Rightarrow> string \<Rightarrow> string \<Rightarrow> real \<Rightarrow> string \<Rightarrow> pyfloat \<Rightarrow> json \<Rightarrow> (ops, (job \<times> string) option) tx" where
  "claim sha token attempt clock owner now lease_seconds s =
     (if \<not> valid_lease lease_seconds now then Inl (BoundaryError ''hub'' ''invalid_lease'')
      else and_then (setting_paused s) (\<lambda>is_paused.
        if is_paused then Inr (s, None)
        else if list_ex is_active (jobs s) then Inr (s, None)
        else
          (case find (\<lambda>r. j_status r = Queued) (jobs s) of
             None \<Rightarrow> Inr (s, None)
           | Some row \<Rightarrow>
               let deadline = job_deadline now row;
                   lease = granted_lease now lease_seconds deadline;
                   take_row = take_job sha token attempt lease deadline
               in Inr (record_event clock owner ''job_claimed'' (j_id row)
                         (JObj [(''attempt_id'', JStr attempt)]) (update_job (j_id row) take_row s),
                       Some ((take_row row)\<lparr>j_lease_hash := None\<rparr>, token)))))"

text \<open>\<open>_live\<close>: the running row whose unexpired lease the token holds.\<close>

definition lease_matches :: "hash \<Rightarrow> job \<Rightarrow> string \<Rightarrow> bool" where
  "lease_matches sha row token \<longleftrightarrow>
     (case j_lease_hash row of None \<Rightarrow> [] | Some h \<Rightarrow> h) = token_hash sha token"

definition stale_attempt :: py_error where
  "stale_attempt = BoundaryError ''hub'' ''stale_attempt''"

definition live :: "hash \<Rightarrow> ops \<Rightarrow> string \<Rightarrow> string \<Rightarrow> pyfloat \<Rightarrow> job result" where
  "live sha s i token now =
     (case now of
        NonFinite \<Rightarrow> Inl stale_attempt
      | Finite t \<Rightarrow>
          (case job_row s i of
             None \<Rightarrow> Inl stale_attempt
           | Some row \<Rightarrow>
               if j_status row \<noteq> Running then Inl stale_attempt
               else
                 (case j_lease_until row of
                    None \<Rightarrow> Inl TypeError
                  | Some lease \<Rightarrow>
                      if lease \<le> t then Inl stale_attempt
                      else if \<not> lease_matches sha row token then Inl stale_attempt
                      else Inr row)))"

definition heartbeat :: "hash \<Rightarrow> string \<Rightarrow> string \<Rightarrow> pyfloat \<Rightarrow> json \<Rightarrow> (ops, unit) tx" where
  "heartbeat sha i token now lease_seconds s =
     (if \<not> valid_lease lease_seconds now then Inl (BoundaryError ''hub'' ''invalid_lease'')
      else and_then (live sha s i token now) (\<lambda>row.
        case j_deadline row of
          None \<Rightarrow> Inl TypeError
        | Some deadline \<Rightarrow>
            Inr (update_job i (\<lambda>r. r\<lparr>j_lease_until :=
                   Some (granted_lease now lease_seconds deadline)\<rparr>) s, ())))"

definition submitted :: "hash \<Rightarrow> string \<Rightarrow> string \<Rightarrow> string \<Rightarrow> pyfloat \<Rightarrow> (ops, unit) tx" where
  "submitted sha i token reference now s =
     (if reference = [] \<or> 512 < length reference
      then Inl (BoundaryError ''hub'' ''invalid_provider_reference'')
      else and_then (live sha s i token now) (\<lambda>row.
        if j_provider_ref row \<notin> {None, Some reference}
        then Inl (BoundaryError ''hub'' ''provider_reference_conflict'')
        else Inr (update_job i (\<lambda>r. r\<lparr>j_provider_ref := Some reference\<rparr>) s, ())))"

definition submission_unknown :: "hash \<Rightarrow> real \<Rightarrow> string \<Rightarrow> string \<Rightarrow> pyfloat \<Rightarrow> (ops, unit) tx" where
  "submission_unknown sha clock i token now s =
     and_then (live sha s i token now) (\<lambda>row.
       Inr (record_event clock ''scheduler'' ''submission_unknown'' i (JObj [])
              (update_job i (\<lambda>r. r\<lparr>j_status := SubmissionUnknown\<rparr>) s), ()))"

text \<open>\<open>lease_until <= now\<close> is not true of a NULL lease; the result is the number of rows changed.\<close>

definition lease_expired :: "real \<Rightarrow> job \<Rightarrow> bool" where
  "lease_expired t r \<longleftrightarrow>
     j_status r = Running \<and> (case j_lease_until r of None \<Rightarrow> False | Some lease \<Rightarrow> lease \<le> t)"

definition expire :: "pyfloat \<Rightarrow> (ops, nat) tx" where
  "expire now s =
     (case now of
        NonFinite \<Rightarrow> Inl (BoundaryError ''hub'' ''invalid_lease'')
      | Finite t \<Rightarrow>
          Inr (s\<lparr>jobs := update_where (lease_expired t) (\<lambda>r. r\<lparr>j_status := Uncertain\<rparr>) (jobs s)\<rparr>,
               length (filter (lease_expired t) (jobs s))))"

section \<open>Settlement by the operator or the local worker\<close>

definition complete :: "hash \<Rightarrow> real \<Rightarrow> string \<Rightarrow> string \<Rightarrow> json \<Rightarrow> pyfloat \<Rightarrow> (ops, unit) tx" where
  "complete sha clock i token outcome now s =
     (let encoded = sort_keys outcome;
          settle = and_then (live sha s i token now) (\<lambda>row.
            Inr (record_event clock ''scheduler'' ''job_completed'' i outcome
                   (update_job i (\<lambda>r. r\<lparr>j_status := Completed, j_result := Some encoded\<rparr>) s), ()))
      in case job_row s i of
           Some row \<Rightarrow>
             if j_status row = Completed then
               if j_result row = Some encoded \<and> lease_matches sha row token then Inr (s, ())
               else Inl (BoundaryError ''hub'' ''completion_conflict'')
             else settle
         | None \<Rightarrow> settle)"

definition cancel :: "real \<Rightarrow> string \<Rightarrow> (ops, unit) tx" where
  "cancel clock i s =
     (case job_row s i of
        None \<Rightarrow> Inl (BoundaryError ''hub'' ''job_not_found'')
      | Some row \<Rightarrow>
          let status = (if j_status row = Queued then Cancelled else Cancelling) in
          if j_status row \<in> {Completed, Paused, Failed, Cancelled} then Inr (s, ())
          else Inr (record_event clock ''admin'' ''cancel_requested'' i (JObj [])
                 (update_job i (\<lambda>r. r\<lparr>j_status := status\<rparr>) s), ()))"

definition is_space :: "char \<Rightarrow> bool" where
  "is_space c \<longleftrightarrow> (let n = (of_char c :: nat) in
     n = 32 \<or> (9 \<le> n \<and> n \<le> 13) \<or> (28 \<le> n \<and> n \<le> 31) \<or> n = 133 \<or> n = 160)"

definition blank :: "string \<Rightarrow> bool" where
  "blank t \<longleftrightarrow> list_all is_space t"

definition reconcile_stopped :: "real \<Rightarrow> string \<Rightarrow> string \<Rightarrow> bool \<Rightarrow> (ops, unit) tx" where
  "reconcile_stopped clock i evidence requeue s =
     (if blank evidence then Inl (BoundaryError ''hub'' ''provider_stop_evidence_required'')
      else
        (case job_row s i of
           None \<Rightarrow> Inl (BoundaryError ''hub'' ''reconciliation_not_applicable'')
         | Some row \<Rightarrow>
             if j_status row \<notin> {Uncertain, SubmissionUnknown, Cancelling}
             then Inl (BoundaryError ''hub'' ''reconciliation_not_applicable'')
             else if requeue then Inl (BoundaryError ''hub'' ''new_budgeted_job_required'')
             else
               let target = (if j_status row = Cancelling then Cancelled else Failed) in
               Inr (record_event clock ''admin'' ''provider_stopped'' i
                      (JObj [(''evidence'', JStr evidence)])
                      (update_job i (\<lambda>r. r\<lparr>j_status := target, j_lease_hash := None\<rparr>) s), ())))"

definition pause :: "real \<Rightarrow> bool \<Rightarrow> (ops, unit) tx" where
  "pause clock flag s =
     (if \<not> flag \<and> list_ex is_active (jobs s)
      then Inl (BoundaryError ''hub'' ''reconcile_external_jobs_before_unpause'')
      else
        let value = (if flag then ''1'' else ''0'');
            updated = (case settings s ''paused'' of
                         None \<Rightarrow> settings s | Some _ \<Rightarrow> (settings s)(''paused'' \<mapsto> value))
        in Inr (record_event clock ''admin'' ''pause_changed'' ''hub''
                  (JObj [(''paused'', JBool flag)]) (s\<lparr>settings := updated\<rparr>), ()))"

text \<open>The database file a backup leaves behind: the same tables, paused.\<close>

definition backup_tables :: "ops \<Rightarrow> ops" where
  "backup_tables s =
     s\<lparr>settings := (case settings s ''paused'' of
         None \<Rightarrow> settings s | Some _ \<Rightarrow> (settings s)(''paused'' \<mapsto> ''1''))\<rparr>"

end
