(* ===== verification/JsonText.thy ===== *)
theory JsonText
  imports Boundary
begin

text \<open>
  Strict JSON text: \<open>decode_json\<close> of python/spireagent/json\_boundary.py, that is
  \<open>json.loads\<close> with the hooks that refuse repeated keys and non-finite constants, as a
  recursive descent over the text. Fuel bounds the nesting and is always enough when it
  is the length of the text. The main result is that decoding inverts canonical printing.

  A string escape beyond U+00FF leaves the modelled alphabet and is reported as its own
  error. \<open>fr\<close> is \<open>repr(float(token))\<close>, the standard library's float conversion.
\<close>

section \<open>Scanners\<close>

definition bad_document :: py_error where
  "bad_document = BoundaryError ''json'' ''invalid_encoding_or_document''"

definition json_space :: "char \<Rightarrow> bool" where
  "json_space c \<longleftrightarrow> c = CHR '' '' \<or> c = CHR 0x09 \<or> c = CHR 0x0A \<or> c = CHR 0x0D"

definition skip_ws :: "string \<Rightarrow> string" where
  "skip_ws t = dropWhile json_space t"

definition is_digit :: "char \<Rightarrow> bool" where
  "is_digit c \<longleftrightarrow> 48 \<le> (of_char c :: nat) \<and> (of_char c :: nat) \<le> 57"

definition hex_value :: "char \<Rightarrow> nat option" where
  "hex_value c =
     (let n = (of_char c :: nat) in
      if 48 \<le> n \<and> n \<le> 57 then Some (n - 48)
      else if 97 \<le> n \<and> n \<le> 102 then Some (n - 87)
      else if 65 \<le> n \<and> n \<le> 70 then Some (n - 55)
      else None)"

definition simple_escape :: "char \<Rightarrow> char option" where
  "simple_escape c =
     (if c = quote_char then Some quote_char
      else if c = backslash then Some backslash
      else if c = CHR ''/'' then Some (CHR ''/'')
      else if c = CHR ''b'' then Some (CHR 0x08)
      else if c = CHR ''f'' then Some (CHR 0x0C)
      else if c = CHR ''n'' then Some (CHR 0x0A)
      else if c = CHR ''r'' then Some (CHR 0x0D)
      else if c = CHR ''t'' then Some (CHR 0x09)
      else None)"

text \<open>The text after the opening quote: the characters up to the closing quote, and the rest.\<close>

definition cons_char :: "char \<Rightarrow> (string \<times> string) result \<Rightarrow> (string \<times> string) result" where
  "cons_char c r = and_then r (\<lambda>(t, rest). Inr (c # t, rest))"

fun scan_string :: "string \<Rightarrow> (string \<times> string) result" where
  "scan_string [] = Inl bad_document"
| "scan_string (c # cs) =
     (if c = quote_char then Inr ([], cs)
      else if c = backslash then
        (case cs of
           [] \<Rightarrow> Inl bad_document
         | e # es \<Rightarrow>
             if e = CHR ''u'' then
               (case es of
                  h1 # h2 # h3 # h4 # ds \<Rightarrow>
                    (case (hex_value h1, hex_value h2, hex_value h3, hex_value h4) of
                       (Some d1, Some d2, Some d3, Some d4) \<Rightarrow>
                         if d1 = 0 \<and> d2 = 0
                         then cons_char (char_of (16 * d3 + d4)) (scan_string ds)
                         else Inl (RuntimeError ''outside the modelled alphabet'')
                     | _ \<Rightarrow> Inl bad_document)
                | _ \<Rightarrow> Inl bad_document)
             else
               (case simple_escape e of
                  None \<Rightarrow> Inl bad_document
                | Some d \<Rightarrow> cons_char d (scan_string es)))
      else if (of_char c :: nat) < 32 then Inl bad_document
      else cons_char c (scan_string cs))"

fun digits_value :: "nat \<Rightarrow> string \<Rightarrow> nat" where
  "digits_value n [] = n"
| "digits_value n (c # cs) = digits_value (10 * n + (of_char c - 48)) cs"

text \<open>The optional fraction and exponent of a number, each empty when it does not match.\<close>

definition scan_fraction :: "string \<Rightarrow> string \<times> string" where
  "scan_fraction t =
     (case t of
        c # cs \<Rightarrow>
          if c = CHR ''.'' \<and> takeWhile is_digit cs \<noteq> []
          then (c # takeWhile is_digit cs, dropWhile is_digit cs) else ([], t)
      | [] \<Rightarrow> ([], t))"

definition scan_exponent :: "string \<Rightarrow> string \<times> string" where
  "scan_exponent t =
     (case t of
        e # cs \<Rightarrow>
          if e = CHR ''e'' \<or> e = CHR ''E'' then
            (case cs of
               sg # ds \<Rightarrow>
                 if (sg = CHR ''+'' \<or> sg = CHR ''-'') \<and> takeWhile is_digit ds \<noteq> []
                 then (e # sg # takeWhile is_digit ds, dropWhile is_digit ds)
                 else if takeWhile is_digit cs \<noteq> []
                 then (e # takeWhile is_digit cs, dropWhile is_digit cs) else ([], t)
             | [] \<Rightarrow> ([], t))
          else ([], t)
      | [] \<Rightarrow> ([], t))"

definition scan_integer :: "string \<Rightarrow> (string \<times> string) option" where
  "scan_integer t =
     (let (sign, body) = (case t of
            c # cs \<Rightarrow> if c = CHR ''-'' then ([c], cs) else ([], t) | [] \<Rightarrow> ([], t))
      in case body of
           [] \<Rightarrow> None
         | d # ds \<Rightarrow>
             if d = CHR ''0'' then Some (sign @ [d], ds)
             else if is_digit d then Some (sign @ d # takeWhile is_digit ds, dropWhile is_digit ds)
             else None)"

definition integer_value :: "string \<Rightarrow> int" where
  "integer_value t =
     (case t of
        c # cs \<Rightarrow> if c = CHR ''-'' then - int (digits_value 0 cs) else int (digits_value 0 t)
      | [] \<Rightarrow> 0)"

definition scan_number :: "(string \<Rightarrow> string) \<Rightarrow> string \<Rightarrow> (json \<times> string) option" where
  "scan_number fr t =
     (case scan_integer t of
        None \<Rightarrow> None
      | Some (token, rest) \<Rightarrow>
          let (fraction, rest1) = scan_fraction rest; (exponent, rest2) = scan_exponent rest1
          in if fraction = [] \<and> exponent = [] then Some (JInt (integer_value token), rest)
             else Some (JFloat (fr (token @ fraction @ exponent)), rest2))"

definition prefixed :: "string \<Rightarrow> string \<Rightarrow> bool" where
  "prefixed p t \<longleftrightarrow> take (length p) t = p"

section \<open>Documents\<close>

text \<open>
  \<open>parse_value\<close> expects a value at the head of the text; \<open>parse_items\<close> the rest of a
  non-empty array; \<open>parse_members\<close> the rest of a non-empty object, at its next key quote.
\<close>

fun parse_value :: "(string \<Rightarrow> string) \<Rightarrow> nat \<Rightarrow> string \<Rightarrow> (json \<times> string) result"
  and parse_items :: "(string \<Rightarrow> string) \<Rightarrow> nat \<Rightarrow> string \<Rightarrow> (json list \<times> string) result"
  and parse_members :: "(string \<Rightarrow> string) \<Rightarrow> nat \<Rightarrow> string \<Rightarrow> ((string \<times> json) list \<times> string) result"
  where
  "parse_value fr 0 t = Inl bad_document"
| "parse_value fr (Suc n) t =
     (case t of
        [] \<Rightarrow> Inl bad_document
      | c # cs \<Rightarrow>
          if c = quote_char then and_then (scan_string cs) (\<lambda>(x, rest). Inr (JStr x, rest))
          else if c = CHR 0x7B then
            (case skip_ws cs of
               [] \<Rightarrow> Inl bad_document
             | d # ds \<Rightarrow>
                 if d = CHR 0x7D then Inr (JObj [], ds)
                 else if d = quote_char then
                   and_then (parse_members fr n ds) (\<lambda>(kvs, rest).
                   and_then (pairs kvs) (\<lambda>obj. Inr (JObj obj, rest)))
                 else Inl bad_document)
          else if c = CHR ''['' then
            (case skip_ws cs of
               [] \<Rightarrow> Inl bad_document
             | d # ds \<Rightarrow>
                 if d = CHR '']'' then Inr (JList [], ds)
                 else and_then (parse_items fr n (d # ds)) (\<lambda>(xs, rest). Inr (JList xs, rest)))
          else if prefixed ''null'' t then Inr (JNull, drop 4 t)
          else if prefixed ''true'' t then Inr (JBool True, drop 4 t)
          else if prefixed ''false'' t then Inr (JBool False, drop 5 t)
          else
            (case scan_number fr t of
               Some (v, rest) \<Rightarrow> Inr (v, rest)
             | None \<Rightarrow>
                 if prefixed ''NaN'' t \<or> prefixed ''Infinity'' t \<or> prefixed ''-Infinity'' t
                 then Inl (BoundaryError ''json'' ''non_finite_number'')
                 else Inl bad_document))"
| "parse_items fr 0 t = Inl bad_document"
| "parse_items fr (Suc n) t =
     and_then (parse_value fr n t) (\<lambda>(x, rest).
       case skip_ws rest of
         [] \<Rightarrow> Inl bad_document
       | d # ds \<Rightarrow>
           if d = CHR '']'' then Inr ([x], ds)
           else if d = CHR '','' then
             and_then (parse_items fr n (skip_ws ds)) (\<lambda>(xs, rest'). Inr (x # xs, rest'))
           else Inl bad_document)"
| "parse_members fr 0 t = Inl bad_document"
| "parse_members fr (Suc n) t =
     and_then (scan_string t) (\<lambda>(key, rest).
       case skip_ws rest of
         [] \<Rightarrow> Inl bad_document
       | d # ds \<Rightarrow>
           if d \<noteq> CHR '':'' then Inl bad_document
           else and_then (parse_value fr n (skip_ws ds)) (\<lambda>(x, rest').
             case skip_ws rest' of
               [] \<Rightarrow> Inl bad_document
             | e # es \<Rightarrow>
                 if e = CHR 0x7D then Inr ([(key, x)], es)
                 else if e = CHR '','' then
                   (case skip_ws es of
                      [] \<Rightarrow> Inl bad_document
                    | q # qs \<Rightarrow>
                        if q \<noteq> quote_char then Inl bad_document
                        else and_then (parse_members fr n qs)
                               (\<lambda>(kvs, rest''). Inr ((key, x) # kvs, rest'')))
                 else Inl bad_document))"

definition decode_json :: "(string \<Rightarrow> string) \<Rightarrow> string \<Rightarrow> json result" where
  "decode_json fr raw =
     and_then (parse_value fr (Suc (length raw)) (skip_ws raw)) (\<lambda>(v, rest).
       if skip_ws rest = [] then Inr v else Inl bad_document)"

section \<open>Decoded documents are strict\<close>

text \<open>No object of a decoded value repeats a key.\<close>

fun strict_json :: "json \<Rightarrow> bool" where
  "strict_json (JList xs) = list_all strict_json xs"
| "strict_json (JObj kvs) = (distinct (map fst kvs) \<and> list_all (\<lambda>kv. strict_json (snd kv)) kvs)"
| "strict_json _ = True"

declare parse_value.simps(2) [simp del] parse_items.simps(2) [simp del] parse_members.simps(2) [simp del]

lemma scan_number_strict: "scan_number fr t = Some (v, rest) \<Longrightarrow> strict_json v"
  by (auto simp: scan_number_def split: option.splits prod.splits if_splits)

lemma parse_items_Suc:
  assumes "parse_items fr (Suc n) t = Inr (vs, rest)"
  obtains x rest1 ds where "parse_value fr n t = Inr (x, rest1)"
    "skip_ws rest1 = CHR '']'' # ds" "vs = [x]" "rest = ds"
  | x rest1 ds xs where "parse_value fr n t = Inr (x, rest1)"
    "skip_ws rest1 = CHR '','' # ds" "parse_items fr n (skip_ws ds) = Inr (xs, rest)" "vs = x # xs"
proof -
  from assms obtain x rest1 where x: "parse_value fr n t = Inr (x, rest1)"
    by (auto simp: parse_items.simps(2) and_then_eq_Inr)
  from assms x obtain d ds where d: "skip_ws rest1 = d # ds"
    by (cases "skip_ws rest1") (auto simp: parse_items.simps(2))
  with assms x show thesis
    by (auto simp: parse_items.simps(2) and_then_eq_Inr split: if_splits intro: that)
qed

lemma parse_members_Suc:
  assumes "parse_members fr (Suc n) t = Inr (kvs, rest)"
  obtains key rest1 ds x rest2 es where "scan_string t = Inr (key, rest1)"
    "skip_ws rest1 = CHR '':'' # ds" "parse_value fr n (skip_ws ds) = Inr (x, rest2)"
    "skip_ws rest2 = CHR 0x7D # es" "kvs = [(key, x)]" "rest = es"
  | key rest1 ds x rest2 es qs more where "scan_string t = Inr (key, rest1)"
    "skip_ws rest1 = CHR '':'' # ds" "parse_value fr n (skip_ws ds) = Inr (x, rest2)"
    "skip_ws rest2 = CHR '','' # es" "skip_ws es = quote_char # qs"
    "parse_members fr n qs = Inr (more, rest)" "kvs = (key, x) # more"
proof -
  from assms obtain key rest1 where k: "scan_string t = Inr (key, rest1)"
    by (auto simp: parse_members.simps(2) and_then_eq_Inr)
  from assms k obtain ds where c: "skip_ws rest1 = CHR '':'' # ds"
    by (cases "skip_ws rest1") (auto simp: parse_members.simps(2) split: if_splits)
  from assms k c obtain x rest2 where x: "parse_value fr n (skip_ws ds) = Inr (x, rest2)"
    by (auto simp: parse_members.simps(2) and_then_eq_Inr)
  from assms k c x obtain e es where e: "skip_ws rest2 = e # es"
    by (cases "skip_ws rest2") (auto simp: parse_members.simps(2))
  show thesis
  proof (cases "e = CHR 0x7D")
    case True
    with assms k c x e show thesis by (auto simp: parse_members.simps(2) intro: that)
  next
    case False
    with assms k c x e have comma: "e = CHR '',''"
      by (auto simp: parse_members.simps(2) split: if_splits)
    with assms k c x e obtain qs where q: "skip_ws es = quote_char # qs"
      by (cases "skip_ws es") (auto simp: parse_members.simps(2) split: if_splits)
    with assms k c x e comma show thesis
      by (auto simp: parse_members.simps(2) and_then_eq_Inr intro: that)
  qed
qed

lemma parse_strict_all:
  "(\<forall>t v rest. parse_value fr n t = Inr (v, rest) \<longrightarrow> strict_json v) \<and>
   (\<forall>t vs rest. parse_items fr n t = Inr (vs, rest) \<longrightarrow> list_all strict_json vs) \<and>
   (\<forall>t kvs rest. parse_members fr n t = Inr (kvs, rest) \<longrightarrow> list_all (\<lambda>kv. strict_json (snd kv)) kvs)"
proof (induction n)
  case 0
  show ?case by simp
next
  case (Suc n)
  then have value_n: "\<And>t v rest. parse_value fr n t = Inr (v, rest) \<Longrightarrow> strict_json v"
    and items_n: "\<And>t vs rest. parse_items fr n t = Inr (vs, rest) \<Longrightarrow> list_all strict_json vs"
    and members_n: "\<And>t kvs rest. parse_members fr n t = Inr (kvs, rest) \<Longrightarrow>
      list_all (\<lambda>kv. strict_json (snd kv)) kvs"
    by blast+
  have "strict_json v" if "parse_value fr (Suc n) t = Inr (v, rest)" for t v rest
    using that items_n members_n
    by (auto simp: parse_value.simps(2) and_then_eq_Inr pairs_eq_Inr
        split: list.splits if_splits option.splits dest: scan_number_strict)
  moreover have "list_all strict_json vs" if "parse_items fr (Suc n) t = Inr (vs, rest)" for t vs rest
    using that by (rule parse_items_Suc) (auto dest: value_n items_n)
  moreover have "list_all (\<lambda>kv. strict_json (snd kv)) kvs"
    if "parse_members fr (Suc n) t = Inr (kvs, rest)" for t kvs rest
    using that by (rule parse_members_Suc) (auto dest: value_n members_n)
  ultimately show ?case by blast
qed

lemma parse_value_strict: "parse_value fr n t = Inr (v, rest) \<Longrightarrow> strict_json v"
  using parse_strict_all by blast

lemma decode_json_is_strict: "decode_json fr raw = Inr v \<Longrightarrow> strict_json v"
  unfolding decode_json_def by (simp only: and_then_eq_Inr) (auto dest: parse_value_strict split: if_splits)

section \<open>Strings survive printing\<close>

lemma hex_value_digit: "n < 16 \<Longrightarrow> hex_value (hex_digit n) = Some n"
  by (auto simp: hex_value_def hex_digit_def Let_def)

lemma hex_value_zero [simp]: "hex_value (CHR ''0'') = Some 0"
  by (simp add: hex_value_def)

lemma scan_escape: "scan_string (escape_char c @ t) = cons_char c (scan_string t)"
proof -
  have code: "char_of (16 * (of_char c div 16) + of_char c mod 16 :: nat) = c"
    by simp
  show ?thesis
    by (auto simp: escape_char_def simple_escape_def quote_char_def backslash_def hex_value_digit code)
qed

lemma scan_print_string: "scan_string (concat (map escape_char t) @ quote_char # rest) = Inr (t, rest)"
proof (induction t)
  case Nil
  then show ?case by simp
next
  case (Cons c t)
  then show ?case
    by (simp add: scan_escape cons_char_def del: scan_string.simps(2))
qed

section \<open>Numbers survive printing\<close>

lemma is_digit_char_of: "(n::nat) < 10 \<Longrightarrow> is_digit (char_of (48 + n))"
  by (simp add: is_digit_def)

lemma show_nat_digits: "list_all is_digit (show_nat n)"
proof (induction n rule: show_nat.induct)
  case (1 n)
  then show ?case
    by (subst show_nat.simps) (auto simp: is_digit_char_of)
qed

lemma digits_value_append: "digits_value m (xs @ ys) = digits_value (digits_value m xs) ys"
  by (induction m xs rule: digits_value.induct) auto

lemma digits_value_show_nat: "digits_value 0 (show_nat n) = n"
proof (induction n rule: show_nat.induct)
  case (1 n)
  then show ?case
    by (subst show_nat.simps) (auto simp: digits_value_append)
qed

lemma show_nat_small: "n < 10 \<Longrightarrow> show_nat n = [char_of (48 + n)]"
  by (subst show_nat.simps) simp

lemma show_nat_head:
  "\<exists>d ds. show_nat n = d # ds \<and> is_digit d \<and> (d = CHR ''0'' \<longrightarrow> n = 0)"
proof (induction n rule: show_nat.induct)
  case (1 n)
  show ?case
  proof (cases "n < 10")
    case True
    have "char_of (48 + n) = CHR ''0'' \<Longrightarrow> n = 0"
    proof -
      assume "char_of (48 + n) = CHR ''0''"
      then have "(of_char (char_of (48 + n)) :: nat) = of_char (CHR ''0'')" by simp
      with True show "n = 0" by simp
    qed
    with True show ?thesis by (simp add: show_nat_small is_digit_char_of)
  next
    case False
    with 1 obtain d ds where "show_nat (n div 10) = d # ds" "is_digit d"
      "d = CHR ''0'' \<longrightarrow> n div 10 = 0" by blast
    with False show ?thesis by (subst show_nat.simps) auto
  qed
qed

definition ends :: "string \<Rightarrow> bool" where
  "ends rest \<longleftrightarrow> rest = [] \<or> hd rest = CHR '','' \<or> hd rest = CHR '']'' \<or> hd rest = CHR 0x7D \<or> hd rest = CHR 0x0A"

lemma ends_simps [simp]:
  "ends []" "ends (CHR '','' # t)" "ends (CHR '']'' # t)" "ends (CHR 0x7D # t)" "ends (CHR 0x0A # t)"
  by (simp_all add: ends_def)

lemma ends_digit: "ends (c # t) \<Longrightarrow> \<not> is_digit c"
  by (auto simp: ends_def is_digit_def)

lemma ends_sign: "ends (c # t) \<Longrightarrow> c \<noteq> CHR ''+'' \<and> c \<noteq> CHR ''-''"
  by (auto simp: ends_def)

lemma takeWhile_ends [simp]: "ends rest \<Longrightarrow> takeWhile is_digit (xs @ rest) = takeWhile is_digit xs"
  by (induction xs) (cases rest; auto simp: ends_digit)+

lemma dropWhile_ends [simp]: "ends rest \<Longrightarrow> dropWhile is_digit (xs @ rest) = dropWhile is_digit xs @ rest"
  by (induction xs) (cases rest; auto simp: ends_digit)+

lemma takeWhile_ends_only [simp]: "ends rest \<Longrightarrow> takeWhile is_digit rest = []"
  using takeWhile_ends [of rest "[]"] by simp

lemma dropWhile_ends_only [simp]: "ends rest \<Longrightarrow> dropWhile is_digit rest = rest"
  using dropWhile_ends [of rest "[]"] by simp

lemma scan_fraction_ends:
  "ends rest \<Longrightarrow> scan_fraction (t @ rest) = (fst (scan_fraction t), snd (scan_fraction t) @ rest)"
  by (cases t; cases rest) (auto simp: scan_fraction_def ends_def)

lemma scan_exponent_ends:
  "ends rest \<Longrightarrow> scan_exponent (t @ rest) = (fst (scan_exponent t), snd (scan_exponent t) @ rest)"
proof (cases t)
  case Nil
  assume "ends rest"
  with Nil show ?thesis by (cases rest) (auto simp: scan_exponent_def ends_def)
next
  case (Cons e cs)
  assume ends: "ends rest"
  show ?thesis
  proof (cases cs)
    case Nil
    with Cons ends takeWhile_ends_only [OF ends] ends_sign show ?thesis
      by (cases rest) (auto simp: scan_exponent_def)
  next
    case (Cons sg ds)
    with \<open>t = e # cs\<close> ends show ?thesis
      by (simp add: scan_exponent_def)
  qed
qed

lemma scan_integer_ends:
  "ends rest \<Longrightarrow> scan_integer t = Some (token, t') \<Longrightarrow> scan_integer (t @ rest) = Some (token, t' @ rest)"
  by (cases t; cases "tl t") (auto simp: scan_integer_def split: if_splits)

lemma scan_number_ends:
  assumes "ends rest" and "scan_number fr t = Some (v, t')"
  shows "scan_number fr (t @ rest) = Some (v, t' @ rest)"
  using assms
  by (auto simp: scan_number_def scan_integer_ends scan_fraction_ends scan_exponent_ends Let_def
      split: option.splits prod.splits if_splits)

lemma scan_show_int: "scan_number fr (show_int i) = Some (JInt i, [])"
proof -
  have nat: "scan_integer (show_nat n) = Some (show_nat n, [])" for n
  proof -
    obtain d ds where d: "show_nat n = d # ds" "is_digit d" "d = CHR ''0'' \<longrightarrow> n = 0"
      using show_nat_head by blast
    with show_nat_digits [of n] have "list_all is_digit ds" by simp
    then have "takeWhile is_digit ds = ds \<and> dropWhile is_digit ds = []"
      by (auto simp: list_all_iff)
    with d show ?thesis
      by (auto simp: scan_integer_def is_digit_def show_nat_small)
  qed
  have minus: "scan_integer (CHR ''-'' # show_nat n) = Some (CHR ''-'' # show_nat n, [])" for n
  proof -
    obtain d ds where "show_nat n = d # ds" "is_digit d"
      using show_nat_head by blast
    with nat [of n] show ?thesis
      by (auto simp: scan_integer_def is_digit_def split: if_splits)
  qed
  have value_nat: "integer_value (show_nat n) = int n" for n
  proof -
    obtain d ds where "show_nat n = d # ds" "is_digit d"
      using show_nat_head by blast
    with digits_value_show_nat [of n] show ?thesis
      by (auto simp: integer_value_def is_digit_def)
  qed
  have value_minus: "integer_value (CHR ''-'' # show_nat n) = - int n" for n
    by (simp add: integer_value_def digits_value_show_nat)
  show ?thesis
    by (simp add: scan_number_def show_int_def nat minus value_nat value_minus scan_fraction_def
        scan_exponent_def)
qed

section \<open>Documents survive printing\<close>

text \<open>
  \<open>printable\<close>: every float is named by a number token that the float conversion keeps,
  which is what \<open>float(repr(x)) == x\<close> says of the text \<open>repr\<close> gives a finite float.
\<close>

primrec printable :: "(string \<Rightarrow> string) \<Rightarrow> json \<Rightarrow> bool" where
  "printable fr JNull = True"
| "printable fr (JBool b) = True"
| "printable fr (JInt i) = True"
| "printable fr (JFloat f) = (scan_number fr f = Some (JFloat f, []))"
| "printable fr (JStr t) = True"
| "printable fr (JList xs) = list_all (\<lambda>b. b) (map (printable fr) xs)"
| "printable fr (JObj kvs) = list_all (\<lambda>kv. snd kv) (map (map_prod id (printable fr)) kvs)"

lemma printable_JList [simp]: "printable fr (JList xs) = (\<forall>x \<in> set xs. printable fr x)"
  by (auto simp: list_all_iff)

lemma printable_JObj [simp]: "printable fr (JObj kvs) = (\<forall>kv \<in> set kvs. printable fr (snd kv))"
  by (auto simp: list_all_iff)

lemma scan_number_head:
  "scan_number fr t = Some r \<Longrightarrow> \<exists>c cs. t = c # cs \<and> (c = CHR ''-'' \<or> is_digit c)"
  by (cases t) (auto simp: scan_number_def scan_integer_def is_digit_def split: if_splits)

lemma digit_not [simp]:
  "\<not> is_digit quote_char" "\<not> is_digit (CHR 0x7B)" "\<not> is_digit (CHR ''['')" "\<not> is_digit (CHR ''n'')"
  "\<not> is_digit (CHR ''t'')" "\<not> is_digit (CHR ''f'')" "\<not> is_digit (CHR 0x7D)" "\<not> is_digit (CHR '']'')"
  by (simp_all add: is_digit_def quote_char_def)

lemma quote_char_not [simp]:
  "quote_char \<noteq> CHR ''-''" "quote_char \<noteq> CHR 0x7B" "quote_char \<noteq> CHR ''[''" "quote_char \<noteq> CHR 0x7D"
  "quote_char \<noteq> CHR '']''" "quote_char \<noteq> CHR '',''"
  by (simp_all add: quote_char_def)

declare quote_char_not [symmetric, simp]

lemma parse_number:
  assumes "scan_number fr t = Some (v, [])" and "ends rest"
  shows "parse_value fr (Suc n) (t @ rest) = Inr (v, rest)"
proof -
  obtain c cs where t: "t = c # cs" "c = CHR ''-'' \<or> is_digit c"
    using scan_number_head [OF assms(1)] by blast
  then have "c \<noteq> quote_char" "c \<noteq> CHR 0x7B" "c \<noteq> CHR ''[''"
    "\<not> prefixed ''null'' (t @ rest)" "\<not> prefixed ''true'' (t @ rest)" "\<not> prefixed ''false'' (t @ rest)"
    by (auto simp: prefixed_def quote_char_def is_digit_def)
  with t scan_number_ends [OF assms(2,1)] show ?thesis
    by (simp add: parse_value.simps(2))
qed

text \<open>One value, from its printed text: what the induction proves of each component.\<close>

definition parses :: "(string \<Rightarrow> string) \<Rightarrow> json \<Rightarrow> bool" where
  "parses fr v \<longleftrightarrow> (\<forall>n rest. length (print_json v) \<le> n \<longrightarrow> ends rest \<longrightarrow>
     parse_value fr n (print_json v @ rest) = Inr (v, rest))"

lemma parses_number:
  assumes "scan_number fr (print_json v) = Some (v, [])"
  shows "parses fr v"
  unfolding parses_def
proof (intro allI impI)
  fix n rest
  assume "length (print_json v) \<le> n" "ends rest"
  moreover from this obtain k where "n = Suc k"
    using scan_number_head [OF assms] by (cases n) auto
  ultimately show "parse_value fr n (print_json v @ rest) = Inr (v, rest)"
    using parse_number [OF assms] by simp
qed

lemma json_space_not [simp]:
  "\<not> json_space (CHR ''['')" "\<not> json_space (CHR '']'')" "\<not> json_space (CHR 0x7B)"
  "\<not> json_space (CHR 0x7D)" "\<not> json_space (CHR '','')" "\<not> json_space (CHR '':'')"
  "\<not> json_space quote_char" "\<not> json_space (CHR ''n'')" "\<not> json_space (CHR ''t'')"
  "\<not> json_space (CHR ''f'')" "\<not> json_space (CHR ''-'')"
  by (simp_all add: json_space_def quote_char_def)

lemma skip_ws_Cons [simp]: "\<not> json_space c \<Longrightarrow> skip_ws (c # t) = c # t"
  by (simp add: skip_ws_def)

lemma skip_ws_Nil [simp]: "skip_ws [] = []"
  by (simp add: skip_ws_def)

lemma print_json_head: "printable fr v \<Longrightarrow> \<exists>c cs. print_json v = c # cs \<and> \<not> json_space c \<and> c \<noteq> CHR '']''"
proof (cases v)
  case (JInt i)
  then show ?thesis
    using scan_number_head [OF scan_show_int [of fr i]]
    by (auto simp: is_digit_def json_space_def)
next
  case (JFloat f)
  assume "printable fr v"
  with JFloat scan_number_head [of fr f] show ?thesis
    by (auto simp: is_digit_def json_space_def)
qed (auto simp: print_string_def)

lemma skip_ws_print [simp]: "printable fr v \<Longrightarrow> skip_ws (print_json v @ t) = print_json v @ t"
  using print_json_head [of fr v] by auto

lemma commas_Cons: "xs \<noteq> [] \<Longrightarrow> commas (x # xs) = x @ '','' @ commas xs"
  by (cases xs) simp_all

lemma parsesD:
  "parses fr v \<Longrightarrow> length (print_json v) \<le> n \<Longrightarrow> ends rest \<Longrightarrow>
   parse_value fr n (print_json v @ rest) = Inr (v, rest)"
  by (simp add: parses_def)

lemma parses_items:
  assumes "xs \<noteq> []" and "\<forall>x \<in> set xs. printable fr x \<and> parses fr x"
    and "length (commas (map print_json xs)) < n"
  shows "parse_items fr n (commas (map print_json xs) @ CHR '']'' # rest) = Inr (xs, rest)"
  using assms
proof (induction xs arbitrary: n)
  case Nil
  then show ?case by simp
next
  case (Cons x xs)
  then obtain k where n: "n = Suc k" by (cases n) auto
  show ?case
  proof (cases "xs = []")
    case True
    with Cons.prems n show ?thesis
      by (simp add: parses_def parse_items.simps(2))
  next
    case False
    then obtain y ys where xs: "xs = y # ys" by (cases xs) auto
    from Cons.prems False n have "parse_items fr k (commas (map print_json xs) @ CHR '']'' # rest) = Inr (xs, rest)"
      by (intro Cons.IH) (auto simp: commas_Cons)
    moreover have "skip_ws (commas (map print_json xs) @ CHR '']'' # rest) = commas (map print_json xs) @ CHR '']'' # rest"
    proof -
      obtain u where "commas (map print_json xs) = print_json y @ u"
        using xs by (cases ys) auto
      moreover have "printable fr y" using Cons.prems(2) xs by simp
      ultimately show ?thesis by simp
    qed
    ultimately show ?thesis
      using Cons.prems n False by (simp add: parses_def parse_items.simps(2) commas_Cons)
  qed
qed

lemma print_member:
  "(\<lambda>kv. print_string (fst kv) @ '':'' @ snd kv) (map_prod id print_json kv) =
   quote_char # concat (map escape_char (fst kv)) @ quote_char # CHR '':'' # print_json (snd kv)"
  by (simp add: print_string_def)

definition member_text :: "string \<times> json \<Rightarrow> string" where
  "member_text kv = concat (map escape_char (fst kv)) @ quote_char # CHR '':'' # print_json (snd kv)"

lemma parses_members:
  assumes "kvs \<noteq> []" and "\<forall>kv \<in> set kvs. printable fr (snd kv) \<and> parses fr (snd kv)"
    and "length (commas (map (\<lambda>kv. quote_char # member_text kv) kvs)) \<le> n"
  shows "parse_members fr n (tl (commas (map (\<lambda>kv. quote_char # member_text kv) kvs)) @ CHR 0x7D # rest)
    = Inr (kvs, rest)"
  using assms
proof (induction kvs arbitrary: n)
  case Nil
  then show ?case by simp
next
  case (Cons kv kvs)
  obtain key x where kv: "kv = (key, x)" by fastforce
  with Cons.prems have x: "printable fr x" "parses fr x" by auto
  from Cons obtain k where n: "n = Suc k" by (cases n; cases kvs) auto
  show ?case
  proof (cases "kvs = []")
    case True
    with Cons.prems n kv x show ?thesis
      by (simp add: member_text_def skip_ws_print [OF x(1)] parsesD [OF x(2)] parse_members.simps(2) scan_print_string)
  next
    case False
    let ?more = "commas (map (\<lambda>kv. quote_char # member_text kv) kvs)"
    have more: "?more = quote_char # tl ?more"
      using False by (cases kvs; cases "tl kvs") auto
    from Cons.prems False n have "parse_members fr k (tl ?more @ CHR 0x7D # rest) = Inr (kvs, rest)"
      by (intro Cons.IH) (auto simp: commas_Cons)
    moreover have "skip_ws (?more @ CHR 0x7D # rest) = quote_char # tl ?more @ CHR 0x7D # rest"
      by (subst more) simp
    moreover have "parse_value fr k (print_json x @ CHR '','' # ?more @ CHR 0x7D # rest) =
        Inr (x, CHR '','' # ?more @ CHR 0x7D # rest)"
      using Cons.prems n kv False by (intro parsesD [OF x(2)]) (auto simp: member_text_def commas_Cons)
    moreover have "tl (commas (map (\<lambda>kv. quote_char # member_text kv) (kv # kvs))) =
        member_text kv @ CHR '','' # ?more"
      using False by (simp add: commas_Cons)
    ultimately show ?thesis
      using n kv
      by (simp add: member_text_def skip_ws_print [OF x(1)] parse_members.simps(2) scan_print_string)
  qed
qed

lemma print_members:
  "map (\<lambda>kv. print_string (fst kv) @ '':'' @ snd kv) (map (map_prod id print_json) kvs) =
   map (\<lambda>kv. quote_char # member_text kv) kvs"
  by (simp add: print_string_def member_text_def)

lemma parses_JList: "(\<forall>x \<in> set xs. printable fr x \<and> parses fr x) \<Longrightarrow> parses fr (JList xs)"
  unfolding parses_def [of fr "JList xs"]
proof (intro allI impI)
  fix n rest
  assume items: "\<forall>x \<in> set xs. printable fr x \<and> parses fr x"
    and n: "length (print_json (JList xs)) \<le> n" and "ends rest"
  then obtain k where k: "n = Suc k" by (cases n) auto
  show "parse_value fr n (print_json (JList xs) @ rest) = Inr (JList xs, rest)"
  proof (cases "xs = []")
    case True
    then show ?thesis using k by (simp add: parse_value.simps(2))
  next
    case False
    with items obtain y ys where y: "xs = y # ys" "printable fr y" by (cases xs) auto
    let ?t = "commas (map print_json xs) @ CHR '']'' # rest"
    obtain u where u: "commas (map print_json xs) = print_json y @ u"
      using y by (cases ys) auto
    with print_json_head [OF y(2)] obtain c cs where c: "?t = c # cs" "\<not> json_space c" "c \<noteq> CHR '']''"
      by auto
    moreover have "parse_items fr k ?t = Inr (xs, rest)"
      using False items n k by (intro parses_items) auto
    ultimately show ?thesis using k by (simp add: parse_value.simps(2))
  qed
qed

lemma parses_JObj:
  "(\<forall>kv \<in> set kvs. printable fr (snd kv) \<and> parses fr (snd kv)) \<Longrightarrow> distinct (map fst kvs) \<Longrightarrow>
   parses fr (JObj kvs)"
  unfolding parses_def [of fr "JObj kvs"]
proof (intro allI impI)
  fix n rest
  assume kvs: "\<forall>kv \<in> set kvs. printable fr (snd kv) \<and> parses fr (snd kv)" "distinct (map fst kvs)"
    and n: "length (print_json (JObj kvs)) \<le> n" and "ends rest"
  let ?t = "commas (map (\<lambda>kv. quote_char # member_text kv) kvs)"
  have print: "print_json (JObj kvs) = CHR 0x7B # ?t @ [CHR 0x7D]"
    by (simp only: print_json.simps print_members)
  from n obtain k where k: "n = Suc k" by (cases n) auto
  show "parse_value fr n (print_json (JObj kvs) @ rest) = Inr (JObj kvs, rest)"
  proof (cases "kvs = []")
    case True
    then show ?thesis using k by (simp add: parse_value.simps(2) print)
  next
    case False
    then have head: "?t = quote_char # tl ?t" by (cases kvs; cases "tl kvs") auto
    have "parse_members fr k (tl ?t @ CHR 0x7D # rest) = Inr (kvs, rest)"
      using False kvs n k by (intro parses_members) (auto simp: print simp del: print_json.simps)
    moreover have "skip_ws (?t @ CHR 0x7D # rest) = quote_char # tl ?t @ CHR 0x7D # rest"
      by (subst head) simp
    moreover have "pairs kvs = Inr kvs"
      using kvs(2) by (simp add: pairs_eq_Inr)
    ultimately show ?thesis using k by (simp add: parse_value.simps(2) print del: print_json.simps)
  qed
qed

lemma parses_print: "printable fr v \<Longrightarrow> strict_json v \<Longrightarrow> parses fr v"
proof (induction v)
  case (JInt i)
  show ?case by (rule parses_number) (simp add: scan_show_int)
next
  case (JFloat f)
  then show ?case by (intro parses_number) simp
next
  case (JStr t)
  show ?case
    by (auto simp: parses_def print_string_def parse_value.simps(2) scan_print_string
        Suc_le_eq gr0_conv_Suc less_Suc_eq_0_disj Suc_less_eq2)
next
  case (JList xs)
  then show ?case by (intro parses_JList) (auto simp: list_all_iff)
next
  case (JObj kvs)
  then show ?case
    by (intro parses_JObj) (auto simp: list_all_iff snds.simps)
qed (auto simp: parses_def parse_value.simps(2) prefixed_def quote_char_def Suc_le_eq gr0_conv_Suc
    Suc_less_eq2)

lemma decode_print: "printable fr v \<Longrightarrow> strict_json v \<Longrightarrow> decode_json fr (print_json v) = Inr v"
  using parsesD [OF parses_print, of fr v "Suc (length (print_json v))" "[]"]
    skip_ws_print [of fr v "[]"]
  by (simp add: decode_json_def)

lemma decode_print_line:
  "printable fr v \<Longrightarrow> strict_json v \<Longrightarrow> decode_json fr (print_json v @ [CHR 0x0A]) = Inr v"
  using parsesD [OF parses_print, of fr v "Suc (Suc (length (print_json v)))" "[CHR 0x0A]"]
    skip_ws_print [of fr v "[CHR 0x0A]"]
  by (simp add: decode_json_def skip_ws_def json_space_def)

section \<open>Canonical text\<close>

lemma distinct_map_sort_key: "distinct (map f (sort_key g xs)) = distinct (map f xs)"
  by (simp add: distinct_map)

lemma strict_sort_keys [simp]: "strict_json (sort_keys v) = strict_json v"
proof (induction v)
  case (JObj kvs)
  have "distinct (map fst (sort_key fst (map (map_prod id sort_keys) kvs))) = distinct (map fst kvs)"
    by (simp add: distinct_map_sort_key comp_def)
  with JObj show ?case
    by (auto simp: list_all_iff snds.simps)
qed (auto simp: list_all_iff)

lemma printable_sort_keys [simp]: "printable fr (sort_keys v) = printable fr v"
proof (induction v)
  case (JObj kvs)
  then show ?case by (auto simp: snds.simps simp del: printable.simps)
qed (auto simp del: printable.simps(6,7))

lemma sort_keys_idem [simp]: "sort_keys (sort_keys v) = sort_keys v"
proof (induction v)
  case (JObj kvs)
  have "map (map_prod id sort_keys) (sort_key fst (map (map_prod id sort_keys) kvs)) =
      sort_key fst (map (map_prod id sort_keys) kvs)"
    using JObj by (intro map_idI) (auto simp: snds.simps)
  then show ?case by (simp add: sort_key_id_if_sorted)
qed (auto simp: map_idI)

lemma decode_canonical:
  "printable fr v \<Longrightarrow> strict_json v \<Longrightarrow> decode_json fr (print_json (sort_keys v)) = Inr (sort_keys v)"
  by (simp add: decode_print)

text \<open>Canonical text therefore identifies a value up to the order of its keys.\<close>

lemma print_sort_inj:
  assumes "printable fr v" "strict_json v" "printable fr w" "strict_json w"
    and "print_json (sort_keys v) = print_json (sort_keys w)"
  shows "sort_keys v = sort_keys w"
proof -
  have "Inr (sort_keys v) = decode_json fr (print_json (sort_keys v))"
    using assms(1,2) by (rule decode_canonical [symmetric])
  also have "\<dots> = Inr (sort_keys w)"
    unfolding assms(5) using assms(3,4) by (rule decode_canonical)
  finally show ?thesis by simp
qed

end
