(* ===== verification/Artifacts.thy ===== *)
theory Artifacts
  imports JsonText "HOL-Library.Product_Lexorder"
begin

text \<open>
  Versioned manifest identities: python/spireagent/artifact\_contracts.py, with the
  canonical-bytes object \<open>FrozenObject\<close> of json\_boundary.py. A manifest names its
  producer, its parent artifacts and its payloads; its identity is the hash of its
  canonical body, and its bytes decode to it and to nothing else.

  \<open>L\<close> holds the standard library functions the contracts rely on and this development
  does not define: SHA-256, \<open>urllib.parse\<close> and the float conversion.
\<close>

section \<open>Library parameters\<close>

record url_parts =
  url_scheme :: string
  url_username :: "string option"
  url_password :: "string option"
  url_query :: string
  url_fragment :: string

record stdlib =
  sha256 :: hash
  urlsplit :: "string \<Rightarrow> url_parts result"
  parse_qsl :: "string \<Rightarrow> (string \<times> string) list"
  float_text :: "string \<Rightarrow> string"

text \<open>\<open>hexdigest()\<close> is 64 lower case hexadecimal digits.\<close>

definition hex_digests :: "stdlib \<Rightarrow> bool" where
  "hex_digests L \<longleftrightarrow> (\<forall>t. length (sha256 L t) = 64 \<and> lower_hex (sha256 L t))"

section \<open>Frozen objects\<close>

definition canonical_text :: "json \<Rightarrow> string" where
  "canonical_text v = print_json (sort_keys v)"

definition json_bytes :: "json \<Rightarrow> string" where
  "json_bytes v = canonical_text v @ [CHR 0x0A]"

definition frozen_post_init :: "stdlib \<Rightarrow> string \<Rightarrow> unit result" where
  "frozen_post_init L encoded =
     and_then (decode_json (float_text L) encoded) (\<lambda>v.
       case v of
         JObj _ \<Rightarrow>
           and_then (canonical_json (of_json v)) (\<lambda>t.
             if t \<noteq> encoded then Inl (BoundaryError ''frozen_object'' ''not_a_canonical_object'')
             else Inr ())
       | _ \<Rightarrow> Inl (BoundaryError ''frozen_object'' ''not_a_canonical_object''))"

definition frozen_of :: "stdlib \<Rightarrow> pyobj \<Rightarrow> string result" where
  "frozen_of L x =
     and_then (canonical_json x) (\<lambda>encoded.
     and_then (frozen_post_init L encoded) (\<lambda>u. Inr encoded))"

definition frozen_value :: "stdlib \<Rightarrow> string \<Rightarrow> (string \<times> json) list result" where
  "frozen_value L encoded =
     and_then (decode_json (float_text L) encoded) (\<lambda>v.
       case v of
         JObj kvs \<Rightarrow> Inr kvs
       | _ \<Rightarrow> Inl (BoundaryError ''frozen_object'' ''not_an_object''))"

text \<open>
  The decoders above show that the encoded text and the key-sorted tree it decodes to
  determine each other, so elsewhere a frozen object is that tree; \<open>freeze\<close> builds it and
  refuses what canonical JSON refuses.
\<close>

fun finite_json :: "json \<Rightarrow> bool" where
  "finite_json (JFloat f) = (\<not> non_finite f)"
| "finite_json (JList xs) = list_all finite_json xs"
| "finite_json (JObj kvs) = list_all (\<lambda>kv. finite_json (snd kv)) kvs"
| "finite_json _ = True"

definition freeze :: "(string \<times> json) list \<Rightarrow> json result" where
  "freeze kvs =
     (if finite_json (JObj kvs) then Inr (sort_keys (JObj kvs))
      else Inl (CanonicalizationError ''non-finite floats are not canonical JSON''))"

definition fields_of :: "json \<Rightarrow> (string \<times> json) list" where
  "fields_of v = (case v of JObj kvs \<Rightarrow> kvs | _ \<Rightarrow> [])"

lemma finite_json_sort: "finite_json (sort_keys v) = finite_json v"
proof (induction v)
  case (JList xs)
  then show ?case by (auto simp: list_all_iff)
next
  case (JObj kvs)
  then have "finite_json (sort_keys (snd kv)) = finite_json (snd kv)" if "kv \<in> set kvs" for kv
    using that by (cases kv) (force simp: snds.simps)
  then show ?case by (auto simp: list_all_iff)
qed simp_all

text \<open>A frozen object freezes to itself.\<close>

lemma freeze_again: "freeze kvs = Inr v \<Longrightarrow> freeze (fields_of v) = Inr v"
proof -
  assume "freeze kvs = Inr v"
  then have v: "v = sort_keys (JObj kvs)" and plain: "finite_json (JObj kvs)" by (auto simp: freeze_def split: if_splits)
  then obtain ws where ws: "v = JObj ws" by simp
  have "sort_keys v = v" unfolding v by (rule sort_keys_idem)
  moreover have "finite_json v" using plain unfolding v by (simp only: finite_json_sort)
  ultimately show ?thesis using ws by (simp add: freeze_def fields_of_def)
qed

definition get_field :: "json \<Rightarrow> string \<Rightarrow> json" where
  "get_field v key = (case map_of (fields_of v) key of None \<Rightarrow> JNull | Some x \<Rightarrow> x)"

section \<open>Durable metadata\<close>

definition manifest_kinds :: "string list" where
  "manifest_kinds =
     [''evidence'', ''dataset'', ''model_view'', ''feature_set'', ''feature_job'',
      ''training_input'', ''experiment'', ''run'', ''checkpoint'', ''model'',
      ''offline_evaluation'', ''live_evaluation'', ''performance'', ''run_event'',
      ''run_result'', ''gold_tasks'', ''gold_labels'', ''protocol'', ''analysis'']"

definition secret_field_names :: "string list" where
  "secret_field_names =
     [''accesskey'', ''accesskeyid'', ''accesstoken'', ''apikey'', ''authorization'',
      ''bearer'', ''awsaccesskeyid'', ''awssecretaccesskey'', ''clientsecret'',
      ''credential'', ''credentials'', ''password'', ''passwd'', ''privatekey'', ''secret'',
      ''secretkey'', ''sessiontoken'', ''token'', ''xamzcredential'', ''xamzsignature'']"

text \<open>\<open>str.casefold\<close> on the code points up to 255; sharp s folds to two letters.\<close>

definition casefold_char :: "char \<Rightarrow> string" where
  "casefold_char c =
     (let n = (of_char c :: nat) in
      if 65 \<le> n \<and> n \<le> 90 then [char_of (n + 32)]
      else if n = 223 then ''ss''
      else [c])"

definition metadata_key :: "string \<Rightarrow> string" where
  "metadata_key value =
     filter (\<lambda>c. (97 \<le> (of_char c :: nat) \<and> (of_char c :: nat) \<le> 122) \<or> is_digit c)
       (concat (map casefold_char value))"

definition is_secret_name :: "string \<Rightarrow> bool" where
  "is_secret_name key \<longleftrightarrow> metadata_key key \<in> set secret_field_names"

definition check_url :: "stdlib \<Rightarrow> string \<Rightarrow> unit result" where
  "check_url L value =
     (case urlsplit L value of
        Inl e \<Rightarrow>
          (case e of
             ValueError _ \<Rightarrow> Inl (BoundaryError ''manifest'' ''invalid_url_metadata'')
           | _ \<Rightarrow> Inl e)
      | Inr parsed \<Rightarrow>
          if url_scheme parsed \<in> {''http'', ''https''} \<and>
             (url_username parsed \<noteq> None \<or> url_password parsed \<noteq> None \<or>
              list_ex (\<lambda>kv. is_secret_name (fst kv))
                (parse_qsl L (url_query parsed) @ parse_qsl L (url_fragment parsed)))
          then Inl (BoundaryError ''manifest'' ''credentialed_url'')
          else Inr ())"

fun validate_durable_metadata :: "stdlib \<Rightarrow> json \<Rightarrow> unit result"
  and validate_items :: "stdlib \<Rightarrow> (string \<times> json) list \<Rightarrow> unit result"
  and validate_list :: "stdlib \<Rightarrow> json list \<Rightarrow> unit result" where
  "validate_durable_metadata L (JObj kvs) = validate_items L kvs"
| "validate_durable_metadata L (JList xs) = validate_list L xs"
| "validate_durable_metadata L (JStr t) = check_url L t"
| "validate_durable_metadata L _ = Inr ()"
| "validate_items L [] = Inr ()"
| "validate_items L ((key, x) # kvs) =
     (if is_secret_name key then Inl (BoundaryError ''manifest'' ''secret_metadata'')
      else and_then (validate_durable_metadata L x) (\<lambda>u. validate_items L kvs))"
| "validate_list L [] = Inr ()"
| "validate_list L (x # xs) = and_then (validate_durable_metadata L x) (\<lambda>u. validate_list L xs)"

section \<open>Producers, parents and payloads\<close>

record producer =
  p_repository :: string
  p_source_revision :: string
  p_uv_lock_sha256 :: string

definition make_producer :: "stdlib \<Rightarrow> json \<Rightarrow> json \<Rightarrow> json \<Rightarrow> producer result" where
  "make_producer L repository source_revision uv_lock_sha256 =
     and_then (text_value repository ''producer.repository'' 4096) (\<lambda>repo.
     and_then (digest source_revision ''producer.source_revision'' 40) (\<lambda>revision.
     and_then (digest uv_lock_sha256 ''producer.uv_lock_sha256'' 64) (\<lambda>lock.
     and_then (validate_durable_metadata L repository) (\<lambda>u.
       Inr \<lparr>p_repository = repo, p_source_revision = revision, p_uv_lock_sha256 = lock\<rparr>))))"

definition producer_dict :: "producer \<Rightarrow> json" where
  "producer_dict p =
     JObj [(''repository'', JStr (p_repository p)),
           (''source_revision'', JStr (p_source_revision p)),
           (''uv_lock_sha256'', JStr (p_uv_lock_sha256 p))]"

definition decode_producer :: "stdlib \<Rightarrow> json \<Rightarrow> producer result" where
  "decode_producer L v =
     and_then (object_fields v [''repository'', ''source_revision'', ''uv_lock_sha256''] ''producer'')
       (\<lambda>obj.
     and_then (item obj ''repository'') (\<lambda>repository.
     and_then (item obj ''source_revision'') (\<lambda>revision.
     and_then (item obj ''uv_lock_sha256'') (\<lambda>lock.
       make_producer L repository revision lock))))"

datatype parent = Parent (parent_role: string) (parent_artifact: string)

datatype payload =
  Payload (payload_role: string) (payload_sha: string) (payload_size: int) (payload_media: string)

text \<open>\<open>dataclass(order=True)\<close>: the order of the field tuples.\<close>

definition parent_key :: "parent \<Rightarrow> string \<times> string" where
  "parent_key p = (parent_role p, parent_artifact p)"

definition payload_key :: "payload \<Rightarrow> string \<times> string \<times> int \<times> string" where
  "payload_key p = (payload_role p, payload_sha p, payload_size p, payload_media p)"

lemma parent_key_inj: "parent_key a = parent_key b \<longleftrightarrow> a = b"
  by (cases a; cases b) (simp add: parent_key_def)

lemma payload_key_inj: "payload_key a = payload_key b \<longleftrightarrow> a = b"
  by (cases a; cases b) (simp add: payload_key_def)

instantiation parent :: linorder
begin

definition less_eq_parent :: "parent \<Rightarrow> parent \<Rightarrow> bool" where
  "a \<le> b \<longleftrightarrow> parent_key a \<le> parent_key b"

definition less_parent :: "parent \<Rightarrow> parent \<Rightarrow> bool" where
  "a < b \<longleftrightarrow> parent_key a < parent_key b"

instance
  by standard
    (auto simp: less_eq_parent_def less_parent_def parent_key_inj [symmetric] order.strict_iff_order
      simp del: less_eq_prod_simp less_prod_simp)

end

instantiation payload :: linorder
begin

definition less_eq_payload :: "payload \<Rightarrow> payload \<Rightarrow> bool" where
  "a \<le> b \<longleftrightarrow> payload_key a \<le> payload_key b"

definition less_payload :: "payload \<Rightarrow> payload \<Rightarrow> bool" where
  "a < b \<longleftrightarrow> payload_key a < payload_key b"

instance
  by standard
    (auto simp: less_eq_payload_def less_payload_def payload_key_inj [symmetric] order.strict_iff_order
      simp del: less_eq_prod_simp less_prod_simp)

end

definition make_parent :: "json \<Rightarrow> json \<Rightarrow> parent result" where
  "make_parent role artifact =
     and_then (text_value role ''parent.role'' 128) (\<lambda>r.
     and_then (digest artifact ''parent.artifact_id'' 64) (\<lambda>a. Inr (Parent r a)))"

definition parent_dict :: "parent \<Rightarrow> json" where
  "parent_dict p = JObj [(''role'', JStr (parent_role p)), (''artifact_id'', JStr (parent_artifact p))]"

definition make_payload :: "json \<Rightarrow> json \<Rightarrow> json \<Rightarrow> json \<Rightarrow> payload result" where
  "make_payload role sha count media =
     and_then (text_value role ''payload.role'' 128) (\<lambda>r.
     and_then (digest sha ''payload.sha256'' 64) (\<lambda>h.
     and_then (unsigned count ''payload.size'') (\<lambda>n.
     and_then (text_value media ''payload.media_type'' 128) (\<lambda>m. Inr (Payload r h n m)))))"

definition payload_dict :: "payload \<Rightarrow> json" where
  "payload_dict p =
     JObj [(''role'', JStr (payload_role p)), (''sha256'', JStr (payload_sha p)),
           (''size'', JInt (payload_size p)), (''media_type'', JStr (payload_media p))]"

definition decode_payload :: "json \<Rightarrow> payload result" where
  "decode_payload v =
     and_then (object_fields v [''role'', ''sha256'', ''size'', ''media_type''] ''payload'') (\<lambda>obj.
     and_then (item obj ''role'') (\<lambda>role.
     and_then (item obj ''sha256'') (\<lambda>sha.
     and_then (item obj ''size'') (\<lambda>count.
     and_then (item obj ''media_type'') (\<lambda>media. make_payload role sha count media)))))"

end
