(* ===== verification/Manifests.thy ===== *)
theory Manifests
  imports Artifacts
begin

text \<open>
  The \<open>Manifest\<close> of python/spireagent/artifact\_contracts.py: its constructor checks, its
  canonical body and identity, its bytes, the lookup of parents and payloads by role, and
  the strict decoder. Decoding accepts exactly the bytes a manifest prints.
\<close>

section \<open>The manifest\<close>

record manifest =
  mf_kind :: string
  mf_producer :: producer
  mf_parents :: "parent list"
  mf_payloads :: "payload list"
  mf_parameters :: json

definition manifest_schema :: string where
  "manifest_schema = ''stpd/artifact-manifest-v1''"

definition make_manifest ::
  "stdlib \<Rightarrow> json \<Rightarrow> producer \<Rightarrow> parent list \<Rightarrow> payload list \<Rightarrow> json \<Rightarrow> manifest result" where
  "make_manifest L kind producer parents payloads parameters =
     (case kind of
        JStr k \<Rightarrow>
          if k \<notin> set manifest_kinds then Inl (BoundaryError ''manifest'' ''unknown_kind'')
          else if \<not> distinct parents then Inl (BoundaryError ''manifest'' ''duplicate_parent'')
          else if \<not> distinct (map parent_role parents)
          then Inl (BoundaryError ''manifest'' ''duplicate_parent_role'')
          else if \<not> distinct (map payload_role payloads)
          then Inl (BoundaryError ''manifest'' ''duplicate_payload_role'')
          else and_then (validate_durable_metadata L parameters) (\<lambda>u.
            Inr \<lparr>mf_kind = k, mf_producer = producer, mf_parents = parents,
                 mf_payloads = payloads, mf_parameters = parameters\<rparr>)
      | _ \<Rightarrow> Inl (BoundaryError ''manifest'' ''unknown_kind''))"

definition manifest_body :: "manifest \<Rightarrow> (string \<times> json) list" where
  "manifest_body m =
     [(''schema'', JStr manifest_schema),
      (''kind'', JStr (mf_kind m)),
      (''producer'', producer_dict (mf_producer m)),
      (''parents'', JList (map parent_dict (sort (mf_parents m)))),
      (''payloads'', JList (map payload_dict (sort (mf_payloads m)))),
      (''parameters'', mf_parameters m)]"

definition artifact_id :: "stdlib \<Rightarrow> manifest \<Rightarrow> string" where
  "artifact_id L m = sha256 L (canonical_text (JObj (manifest_body m)))"

definition manifest_bytes :: "stdlib \<Rightarrow> manifest \<Rightarrow> string" where
  "manifest_bytes L m =
     json_bytes (JObj (manifest_body m @ [(''artifact_id'', JStr (artifact_id L m))]))"

definition manifest_parent :: "manifest \<Rightarrow> string \<Rightarrow> string result" where
  "manifest_parent m role =
     (case filter (\<lambda>p. parent_role p = role) (mf_parents m) of
        [p] \<Rightarrow> Inr (parent_artifact p)
      | _ \<Rightarrow> Inl (BoundaryError ''manifest.parent'' ''missing_or_ambiguous_role''))"

definition manifest_payload :: "manifest \<Rightarrow> string \<Rightarrow> payload result" where
  "manifest_payload m role =
     (case filter (\<lambda>p. payload_role p = role) (mf_payloads m) of
        [p] \<Rightarrow> Inr p
      | _ \<Rightarrow> Inl (BoundaryError ''manifest.payload'' ''missing_or_ambiguous_role''))"

definition decode_parent :: "json \<Rightarrow> parent result" where
  "decode_parent v =
     and_then (object_fields v [''role'', ''artifact_id''] ''manifest.parent'') (\<lambda>obj.
     and_then (item obj ''role'') (\<lambda>role.
     and_then (item obj ''artifact_id'') (\<lambda>artifact. make_parent role artifact)))"

definition manifest_fields :: "string list" where
  "manifest_fields =
     [''schema'', ''artifact_id'', ''kind'', ''producer'', ''parents'', ''payloads'', ''parameters'']"

definition manifest_from_bytes :: "stdlib \<Rightarrow> string \<Rightarrow> string option \<Rightarrow> manifest result" where
  "manifest_from_bytes L raw expected =
     and_then (decode_json (float_text L) raw) (\<lambda>doc.
     and_then (object_fields doc manifest_fields ''manifest'') (\<lambda>obj.
     and_then (item obj ''schema'') (\<lambda>schema.
     if schema \<noteq> JStr manifest_schema then Inl (BoundaryError ''manifest'' ''unsupported_schema'')
     else
       and_then (item obj ''parents'') (\<lambda>raw_parents.
       and_then (array raw_parents ''manifest.parents'') (\<lambda>parent_list.
       and_then (each decode_parent parent_list) (\<lambda>parents.
       and_then (item obj ''parameters'') (\<lambda>parameters.
       case parameters of
         JObj info \<Rightarrow>
           and_then (item obj ''kind'') (\<lambda>kind.
           and_then (item obj ''producer'') (\<lambda>raw_producer.
           and_then (decode_producer L raw_producer) (\<lambda>producer.
           and_then (item obj ''payloads'') (\<lambda>raw_payloads.
           and_then (array raw_payloads ''manifest.payloads'') (\<lambda>payload_list.
           and_then (each decode_payload payload_list) (\<lambda>payloads.
           and_then (freeze info) (\<lambda>frozen.
           and_then (make_manifest L kind producer parents payloads frozen) (\<lambda>m.
           and_then (item obj ''artifact_id'') (\<lambda>claimed.
             if claimed \<noteq> JStr (artifact_id L m)
             then Inl (BoundaryError ''manifest'' ''identity_mismatch'')
             else
               and_then (case expected of
                           None \<Rightarrow> Inr (artifact_id L m)
                         | Some e \<Rightarrow> digest (JStr e) ''manifest.expected'' 64) (\<lambda>e.
               if e \<noteq> artifact_id L m then Inl (BoundaryError ''manifest'' ''identity_mismatch'')
               else if raw \<noteq> manifest_bytes L m
               then Inl (BoundaryError ''manifest'' ''non_canonical_bytes'')
               else Inr m))))))))))
       | _ \<Rightarrow> Inl (BoundaryError ''manifest.parameters'' ''not_an_object''))))))))"

section \<open>What a manifest satisfies\<close>

definition manifest_ok :: "stdlib \<Rightarrow> manifest \<Rightarrow> bool" where
  "manifest_ok L m \<longleftrightarrow>
     mf_kind m \<in> set manifest_kinds \<and> distinct (map parent_role (mf_parents m)) \<and>
     distinct (map payload_role (mf_payloads m)) \<and>
     validate_durable_metadata L (mf_parameters m) = Inr ()"

lemma make_manifest_eq_Inr:
  "make_manifest L kind producer parents payloads parameters = Inr m \<longleftrightarrow>
     (\<exists>k. kind = JStr k \<and>
       m = \<lparr>mf_kind = k, mf_producer = producer, mf_parents = parents,
            mf_payloads = payloads, mf_parameters = parameters\<rparr>) \<and> manifest_ok L m"
  by (cases kind)
     (auto simp: make_manifest_def manifest_ok_def and_then_eq_Inr distinct_map split: if_splits)

lemma manifest_from_bytes_sound:
  assumes "manifest_from_bytes L raw expected = Inr m"
  shows "manifest_bytes L m = raw \<and> manifest_ok L m \<and> expected \<in> {None, Some (artifact_id L m)}"
proof -
  from assms obtain kind producer parents payloads frozen e where
    m: "make_manifest L kind producer parents payloads frozen = Inr m"
    and e: "(case expected of None \<Rightarrow> Inr (artifact_id L m)
        | Some e \<Rightarrow> digest (JStr e) ''manifest.expected'' 64) = Inr e"
    and same: "e = artifact_id L m" "raw = manifest_bytes L m"
    unfolding manifest_from_bytes_def
    by (simp only: and_then_eq_Inr if_raise_eq_Inr json_object_eq_Inr) blast
  from m have "manifest_ok L m" by (simp add: make_manifest_eq_Inr)
  with e same show ?thesis by (auto simp: returned split: option.splits)
qed

lemma manifest_parent_unique:
  assumes "manifest_ok L m" "p \<in> set (mf_parents m)"
  shows "manifest_parent m (parent_role p) = Inr (parent_artifact p)"
proof -
  from assms have "filter (\<lambda>q. parent_role q = parent_role p) (mf_parents m) = [p]"
    by (intro filter_unique_key) (auto simp: manifest_ok_def)
  then show ?thesis by (simp add: manifest_parent_def)
qed

lemma manifest_payload_unique:
  assumes "distinct (map payload_role (mf_payloads m))" and "p \<in> set (mf_payloads m)"
  shows "manifest_payload m (payload_role p) = Inr p"
proof -
  from assms have "filter (\<lambda>q. payload_role q = payload_role p) (mf_payloads m) = [p]"
    by (intro filter_unique_key)
  then show ?thesis by (simp add: manifest_payload_def)
qed

lemma manifest_parent_eq_Inr:
  "manifest_parent m role = Inr a \<Longrightarrow> \<exists>p \<in> set (mf_parents m). parent_role p = role \<and> parent_artifact p = a"
proof -
  assume ok: "manifest_parent m role = Inr a"
  then obtain p where p: "filter (\<lambda>p. parent_role p = role) (mf_parents m) = [p]" "parent_artifact p = a"
    by (auto simp: manifest_parent_def split: list.splits)
  then have "p \<in> set (filter (\<lambda>p. parent_role p = role) (mf_parents m))" by simp
  with p(2) show ?thesis by auto
qed

section \<open>A manifest decodes from its own bytes\<close>

text \<open>The members went through their constructors, and the parameters through \<open>freeze\<close>.\<close>

definition valid_producer :: "stdlib \<Rightarrow> producer \<Rightarrow> bool" where
  "valid_producer L p \<longleftrightarrow>
     make_producer L (JStr (p_repository p)) (JStr (p_source_revision p)) (JStr (p_uv_lock_sha256 p)) = Inr p"

definition valid_parent :: "parent \<Rightarrow> bool" where
  "valid_parent p \<longleftrightarrow> make_parent (JStr (parent_role p)) (JStr (parent_artifact p)) = Inr p"

definition valid_payload :: "payload \<Rightarrow> bool" where
  "valid_payload p \<longleftrightarrow>
     make_payload (JStr (payload_role p)) (JStr (payload_sha p)) (JInt (payload_size p))
       (JStr (payload_media p)) = Inr p"

definition valid_parameters :: "stdlib \<Rightarrow> json \<Rightarrow> bool" where
  "valid_parameters L v \<longleftrightarrow>
     freeze (fields_of v) = Inr v \<and> strict_json v \<and> printable (float_text L) v"

definition manifest_typed :: "stdlib \<Rightarrow> manifest \<Rightarrow> bool" where
  "manifest_typed L m \<longleftrightarrow>
     valid_producer L (mf_producer m) \<and> list_all valid_parent (mf_parents m) \<and>
     list_all valid_payload (mf_payloads m) \<and> valid_parameters L (mf_parameters m)"

definition normal_manifest :: "manifest \<Rightarrow> manifest" where
  "normal_manifest m = m\<lparr>mf_parents := sort (mf_parents m), mf_payloads := sort (mf_payloads m)\<rparr>"

lemma normal_manifest_body [simp]: "manifest_body (normal_manifest m) = manifest_body m"
  by (simp add: manifest_body_def normal_manifest_def sort_key_id_if_sorted)

lemma normal_manifest_id [simp]:
  "artifact_id L (normal_manifest m) = artifact_id L m"
  "manifest_bytes L (normal_manifest m) = manifest_bytes L m"
  by (simp_all add: artifact_id_def manifest_bytes_def)

lemma decode_parent_dict: "valid_parent p \<Longrightarrow> decode_parent (sort_keys (parent_dict p)) = Inr p"
  by (cases p) (auto simp: decode_parent_def parent_dict_def object_fields_def item_def valid_parent_def)

lemma decode_payload_dict: "valid_payload p \<Longrightarrow> decode_payload (sort_keys (payload_dict p)) = Inr p"
  by (cases p) (auto simp: decode_payload_def payload_dict_def object_fields_def item_def valid_payload_def)

lemma decode_producer_dict:
  "valid_producer L p \<Longrightarrow> decode_producer L (sort_keys (producer_dict p)) = Inr p"
  by (auto simp: decode_producer_def producer_dict_def object_fields_def item_def valid_producer_def)

lemma freeze_fixed: "freeze (fields_of v) = Inr v \<Longrightarrow> \<exists>kvs. v = JObj kvs \<and> sort_keys v = v"
proof -
  assume "freeze (fields_of v) = Inr v"
  then have v: "v = sort_keys (JObj (fields_of v))"
    by (auto simp: freeze_def split: if_splits)
  then have "sort_keys v = v" by (metis sort_keys_idem)
  with v show ?thesis by (metis sort_keys.simps(7))
qed

lemma strict_manifest:
  assumes "manifest_typed L m"
  shows "strict_json (JObj (manifest_body m @ [(''artifact_id'', JStr i)]))"
    "printable (float_text L) (JObj (manifest_body m @ [(''artifact_id'', JStr i)]))"
  using assms
  by (auto simp: manifest_body_def manifest_typed_def valid_parameters_def producer_dict_def
      parent_dict_def payload_dict_def list_all_iff simp del: printable.simps(6,7))

lemma map_of_document:
  "map_of (fields_of (sort_keys (JObj kvs))) key = map_option sort_keys (map_of kvs key)"
  by (simp add: fields_of_def map_of_map_prod_id)

lemma manifest_from_bytes_complete:
  assumes L: "hex_digests L" and ok: "manifest_ok L m" and typed: "manifest_typed L m"
  shows "manifest_from_bytes L (manifest_bytes L m) (Some (artifact_id L m)) = Inr (normal_manifest m)"
proof -
  let ?kvs = "manifest_body m @ [(''artifact_id'', JStr (artifact_id L m))]"
  obtain obj where doc: "sort_keys (JObj ?kvs) = JObj obj" by simp
  have fields: "object_fields (JObj obj) manifest_fields ''manifest'' = Inr obj"
  proof -
    from doc have "obj = sort_key fst (map (map_prod id sort_keys) ?kvs)" by simp
    then have "fst ` set obj = fst ` map_prod id sort_keys ` set ?kvs"
      by (simp only: set_sort set_map)
    then have "fst ` set obj = fst ` set ?kvs"
      by (simp only: image_image fst_map_prod id_apply)
    then show ?thesis by (auto simp: object_fields_def manifest_fields_def manifest_body_def)
  qed
  have item: "item obj key = (case map_of ?kvs key of None \<Rightarrow> Inl KeyError | Some v \<Rightarrow> Inr (sort_keys v))" for key
    using map_of_document [of ?kvs key] unfolding doc
    by (auto simp: item_def fields_of_def split: option.splits)
  from typed have params: "valid_parameters L (mf_parameters m)"
    by (simp add: manifest_typed_def)
  then obtain info where info: "mf_parameters m = JObj info" "sort_keys (JObj info) = JObj info"
      "freeze info = Inr (JObj info)"
    using freeze_fixed unfolding valid_parameters_def fields_of_def by fastforce
  have members: "each decode_parent (map sort_keys (map parent_dict (sort (mf_parents m)))) = Inr (sort (mf_parents m))"
    "each decode_payload (map sort_keys (map payload_dict (sort (mf_payloads m)))) = Inr (sort (mf_payloads m))"
    using typed
    by (auto simp: each_map manifest_typed_def list_all_iff decode_parent_dict decode_payload_dict
        intro!: each_identity)
  have made: "make_manifest L (JStr (mf_kind m)) (mf_producer m) (sort (mf_parents m))
      (sort (mf_payloads m)) (JObj info) = Inr (normal_manifest m)"
    using ok info(1)
    by (auto simp: make_manifest_eq_Inr manifest_ok_def normal_manifest_def distinct_map_sort_key)
  have "decode_json (float_text L) (manifest_bytes L m) = Inr (JObj obj)"
    unfolding manifest_bytes_def json_bytes_def canonical_text_def doc
    using strict_manifest [OF typed, of "artifact_id L m"] doc
    by (intro decode_print_line) (metis printable_sort_keys, metis strict_sort_keys)
  moreover have "length (artifact_id L m) = 64" "lower_hex (artifact_id L m)"
    using L by (simp_all add: artifact_id_def hex_digests_def)
  ultimately show ?thesis
    using fields typed
    by (simp add: manifest_from_bytes_def item manifest_body_def array_def info members made
        decode_producer_dict manifest_typed_def digest_def del: map_map sort_keys.simps(7))
qed

end
