(* ===== verification/Contracts.thy ===== *)
theory Contracts
  imports Manifests
begin

text \<open>
  The identity-bound compute contracts: \<open>ComputeRequest\<close> and \<open>ComputeReceipt\<close> of
  python/stpd/cloud\_jobs/contracts.py, \<open>ModalTarget\<close> and \<open>ModalCall\<close> of
  cloud\_jobs/modal.py. A request is identified by the hash of its canonical dictionary, a
  receipt names the request it answers, and a call handle carries the request it runs.
\<close>

section \<open>Requests\<close>

record compute_request =
  rq_kind :: string
  rq_input_id :: string
  rq_producer :: producer
  rq_attempt_id :: string
  rq_resume :: "string option"
  rq_stop_after :: "int option"

definition optional :: "(json \<Rightarrow> 'a result) \<Rightarrow> json \<Rightarrow> 'a option result" where
  "optional check v = (if v = JNull then Inr None else and_then (check v) (\<lambda>x. Inr (Some x)))"

definition positive_budget :: "json \<Rightarrow> int result" where
  "positive_budget v =
     and_then (unsigned v ''compute.stop_after'') (\<lambda>n.
       if n = 0 then Inl (BoundaryError ''compute_request'' ''zero_pause_budget'') else Inr n)"

definition known_string :: "json \<Rightarrow> string list \<Rightarrow> py_error \<Rightarrow> string result" where
  "known_string v names e =
     and_then (in_strings v names) (\<lambda>known.
       case v of JStr t \<Rightarrow> if known then Inr t else Inl e | _ \<Rightarrow> Inl e)"

definition make_request ::
  "json \<Rightarrow> json \<Rightarrow> producer \<Rightarrow> json \<Rightarrow> json \<Rightarrow> json \<Rightarrow> compute_request result" where
  "make_request kind input_id producer attempt_id resume stop_after =
     and_then (known_string kind [''features'', ''training'']
                 (BoundaryError ''compute_request'' ''unknown_kind'')) (\<lambda>k.
     and_then (digest input_id ''compute_request.input_id'' 64) (\<lambda>i.
     and_then (text_value attempt_id ''compute_request.attempt_id'' 128) (\<lambda>a.
     and_then (optional (\<lambda>v. digest v ''compute_request.resume'' 64) resume) (\<lambda>r.
     and_then (optional positive_budget stop_after) (\<lambda>n.
       if k = ''features'' \<and> (r \<noteq> None \<or> n \<noteq> None)
       then Inl (BoundaryError ''compute_request'' ''feature_resume_not_supported'')
       else Inr \<lparr>rq_kind = k, rq_input_id = i, rq_producer = producer, rq_attempt_id = a,
                 rq_resume = r, rq_stop_after = n\<rparr>)))))"

definition optional_string :: "string option \<Rightarrow> json" where
  "optional_string x = (case x of None \<Rightarrow> JNull | Some t \<Rightarrow> JStr t)"

definition optional_int :: "int option \<Rightarrow> json" where
  "optional_int x = (case x of None \<Rightarrow> JNull | Some i \<Rightarrow> JInt i)"

definition request_dict :: "compute_request \<Rightarrow> (string \<times> json) list" where
  "request_dict r =
     [(''schema'', JStr ''stpd/compute-request-v1''),
      (''kind'', JStr (rq_kind r)),
      (''input_id'', JStr (rq_input_id r)),
      (''producer'', producer_dict (rq_producer r)),
      (''attempt_id'', JStr (rq_attempt_id r)),
      (''resume'', optional_string (rq_resume r)),
      (''stop_after'', optional_int (rq_stop_after r))]"

definition request_id :: "stdlib \<Rightarrow> compute_request \<Rightarrow> string" where
  "request_id L r = sha256 L (canonical_text (JObj (request_dict r)))"

definition decode_request :: "stdlib \<Rightarrow> json \<Rightarrow> compute_request result" where
  "decode_request L v =
     and_then (object_fields v
       [''schema'', ''kind'', ''input_id'', ''producer'', ''attempt_id'', ''resume'', ''stop_after'']
       ''compute_request'') (\<lambda>obj.
     and_then (item obj ''schema'') (\<lambda>schema.
     if schema \<noteq> JStr ''stpd/compute-request-v1''
     then Inl (BoundaryError ''compute_request'' ''unsupported_schema'')
     else
       and_then (item obj ''producer'') (\<lambda>raw.
       and_then (decode_producer L raw) (\<lambda>producer.
       and_then (item obj ''kind'') (\<lambda>kind.
       and_then (item obj ''input_id'') (\<lambda>input_id.
       and_then (item obj ''attempt_id'') (\<lambda>attempt_id.
       and_then (item obj ''resume'') (\<lambda>resume.
       and_then (item obj ''stop_after'') (\<lambda>stop_after.
         make_request kind input_id producer attempt_id resume stop_after)))))))))"

section \<open>Receipts\<close>

record compute_receipt =
  rc_request_id :: string
  rc_attempt_id :: string
  rc_kind :: string
  rc_input_id :: string
  rc_producer :: producer
  rc_state :: string
  rc_output_id :: "string option"
  rc_checkpoint_id :: "string option"

definition make_receipt ::
  "json \<Rightarrow> json \<Rightarrow> json \<Rightarrow> json \<Rightarrow> producer \<Rightarrow> json \<Rightarrow> json \<Rightarrow> json \<Rightarrow> compute_receipt result" where
  "make_receipt req attempt_id kind input_id producer state output checkpoint =
     and_then (digest req ''compute_receipt.request_id'' 64) (\<lambda>q.
     and_then (make_request kind input_id producer attempt_id JNull JNull) (\<lambda>r.
     and_then (known_string state [''candidate_prepared'', ''paused'']
                 (BoundaryError ''compute_receipt'' ''unknown_state'')) (\<lambda>st.
     and_then (optional (\<lambda>v. digest v ''compute_receipt.output'' 64) output) (\<lambda>out.
     and_then (optional (\<lambda>v. digest v ''compute_receipt.output'' 64) checkpoint) (\<lambda>chk.
       if (st = ''candidate_prepared'') \<noteq> (out \<noteq> None)
       then Inl (BoundaryError ''compute_receipt'' ''state_output_mismatch'')
       else if st = ''paused'' \<and> (rq_kind r \<noteq> ''training'' \<or> chk = None)
       then Inl (BoundaryError ''compute_receipt'' ''pause_checkpoint_required'')
       else if rq_kind r = ''features'' \<and> chk \<noteq> None
       then Inl (BoundaryError ''compute_receipt'' ''unexpected_checkpoint'')
       else Inr \<lparr>rc_request_id = q, rc_attempt_id = rq_attempt_id r, rc_kind = rq_kind r,
                 rc_input_id = rq_input_id r, rc_producer = producer, rc_state = st,
                 rc_output_id = out, rc_checkpoint_id = chk\<rparr>)))))"

definition receipt_dict :: "compute_receipt \<Rightarrow> (string \<times> json) list" where
  "receipt_dict r =
     [(''schema'', JStr ''stpd/compute-receipt-v1''),
      (''request_id'', JStr (rc_request_id r)),
      (''attempt_id'', JStr (rc_attempt_id r)),
      (''kind'', JStr (rc_kind r)),
      (''input_id'', JStr (rc_input_id r)),
      (''producer'', producer_dict (rc_producer r)),
      (''state'', JStr (rc_state r)),
      (''output_id'', optional_string (rc_output_id r)),
      (''checkpoint_id'', optional_string (rc_checkpoint_id r))]"

definition bind_receipt :: "stdlib \<Rightarrow> compute_receipt \<Rightarrow> compute_request \<Rightarrow> unit result" where
  "bind_receipt L receipt request =
     (if rc_request_id receipt \<noteq> request_id L request \<or> rc_attempt_id receipt \<noteq> rq_attempt_id request \<or>
         rc_kind receipt \<noteq> rq_kind request \<or> rc_input_id receipt \<noteq> rq_input_id request \<or>
         rc_producer receipt \<noteq> rq_producer request
      then Inl (BoundaryError ''compute_receipt'' ''request_binding_mismatch'')
      else Inr ())"

definition decode_receipt :: "stdlib \<Rightarrow> json \<Rightarrow> compute_receipt result" where
  "decode_receipt L v =
     and_then (object_fields v
       [''schema'', ''request_id'', ''attempt_id'', ''kind'', ''input_id'', ''producer'', ''state'',
        ''output_id'', ''checkpoint_id''] ''compute_receipt'') (\<lambda>obj.
     and_then (item obj ''schema'') (\<lambda>schema.
     if schema \<noteq> JStr ''stpd/compute-receipt-v1''
     then Inl (BoundaryError ''compute_receipt'' ''unsupported_schema'')
     else
       and_then (item obj ''producer'') (\<lambda>raw.
       and_then (decode_producer L raw) (\<lambda>producer.
       and_then (item obj ''request_id'') (\<lambda>req.
       and_then (item obj ''attempt_id'') (\<lambda>attempt_id.
       and_then (item obj ''kind'') (\<lambda>kind.
       and_then (item obj ''input_id'') (\<lambda>input_id.
       and_then (item obj ''state'') (\<lambda>state.
       and_then (item obj ''output_id'') (\<lambda>output.
       and_then (item obj ''checkpoint_id'') (\<lambda>checkpoint.
         make_receipt req attempt_id kind input_id producer state output checkpoint)))))))))))"

section \<open>The provider's target and call\<close>

definition alnum :: "char \<Rightarrow> bool" where
  "alnum c \<longleftrightarrow> (let n = (of_char c :: nat) in
     (48 \<le> n \<and> n \<le> 57) \<or> (65 \<le> n \<and> n \<le> 90) \<or> (97 \<le> n \<and> n \<le> 122))"

definition image_name :: "string \<Rightarrow> bool" where
  "image_name t \<longleftrightarrow>
     (case t of [] \<Rightarrow> False
      | c # cs \<Rightarrow> alnum c \<and> list_all (\<lambda>d. alnum d \<or> d \<in> set ''._:/-'') cs)"

definition immutable_image :: "string \<Rightarrow> bool" where
  "immutable_image t \<longleftrightarrow>
     (let n = length t - 72 in
      72 < length t \<and> image_name (take n t) \<and> take 8 (drop n t) = ''@sha256:'' \<and>
      lower_hex (drop (n + 8) t))"

definition resource_name :: "string \<Rightarrow> bool" where
  "resource_name t \<longleftrightarrow>
     1 \<le> length t \<and> length t \<le> 64 \<and> list_all (\<lambda>c. alnum c \<or> c = CHR ''_'' \<or> c = CHR ''-'') t"

record modal_target =
  mt_producer :: producer
  mt_image :: string
  mt_gpu :: string
  mt_timeout_seconds :: int
  mt_storage_secret_name :: "string option"
  mt_qwen_volume_name :: "string option"

definition json_string :: "json \<Rightarrow> string option" where
  "json_string v = (case v of JStr t \<Rightarrow> Some t | _ \<Rightarrow> None)"

definition resource_value :: "json \<Rightarrow> string option result" where
  "resource_value v =
     (case v of
        JNull \<Rightarrow> Inr None
      | JStr t \<Rightarrow>
          if resource_name t then Inr (Some t)
          else Inl (BoundaryError ''modal_target'' ''invalid_resource_name'')
      | _ \<Rightarrow> Inl (BoundaryError ''modal_target'' ''invalid_resource_name''))"

definition make_target ::
  "producer \<Rightarrow> json \<Rightarrow> json \<Rightarrow> json \<Rightarrow> json \<Rightarrow> json \<Rightarrow> modal_target result" where
  "make_target producer raw_image gpu timeout secret volume =
     (case json_string raw_image of
        None \<Rightarrow> Inl (BoundaryError ''modal_target'' ''immutable_image_digest_required'')
      | Some img \<Rightarrow>
          if \<not> immutable_image img
          then Inl (BoundaryError ''modal_target'' ''immutable_image_digest_required'')
          else
            and_then (known_string gpu
                [''none'', ''L4'', ''A10'', ''L40S'', ''A100-40GB'', ''A100-80GB'', ''H100!'']
                (BoundaryError ''modal_target'' ''explicit_single_compatible_gpu_required'')) (\<lambda>g.
            and_then (unsigned timeout ''modal.timeout'') (\<lambda>t.
              if t < 1 \<or> 86400 < t then Inl (BoundaryError ''modal_target'' ''timeout_limit'')
              else
                and_then (resource_value secret) (\<lambda>s.
                and_then (resource_value volume) (\<lambda>v.
                  Inr \<lparr>mt_producer = producer, mt_image = img, mt_gpu = g,
                       mt_timeout_seconds = t, mt_storage_secret_name = s,
                       mt_qwen_volume_name = v\<rparr>)))))"

definition target_dict :: "modal_target \<Rightarrow> (string \<times> json) list" where
  "target_dict t =
     [(''schema'', JStr ''stpd/modal-target-v1''),
      (''producer'', producer_dict (mt_producer t)),
      (''image'', JStr (mt_image t)),
      (''gpu'', JStr (mt_gpu t)),
      (''timeout_seconds'', JInt (mt_timeout_seconds t)),
      (''storage_secret_name'', optional_string (mt_storage_secret_name t)),
      (''qwen_volume_name'', optional_string (mt_qwen_volume_name t))]"

definition target_id :: "stdlib \<Rightarrow> modal_target \<Rightarrow> string" where
  "target_id L t = sha256 L (canonical_text (JObj (target_dict t)))"

definition app_name :: "stdlib \<Rightarrow> modal_target \<Rightarrow> string" where
  "app_name L t = ''stpd-compute-'' @ take 48 (target_id L t)"

definition decode_target :: "stdlib \<Rightarrow> json \<Rightarrow> modal_target result" where
  "decode_target L v =
     and_then (object_fields v
       [''schema'', ''producer'', ''image'', ''gpu'', ''timeout_seconds'', ''storage_secret_name'',
        ''qwen_volume_name''] ''modal_target'') (\<lambda>obj.
     and_then (item obj ''schema'') (\<lambda>schema.
     if schema \<noteq> JStr ''stpd/modal-target-v1''
     then Inl (BoundaryError ''modal_target'' ''unsupported_schema'')
     else
       and_then (item obj ''producer'') (\<lambda>raw.
       and_then (decode_producer L raw) (\<lambda>producer.
       and_then (item obj ''image'') (\<lambda>raw_image.
       and_then (item obj ''gpu'') (\<lambda>gpu.
       and_then (item obj ''timeout_seconds'') (\<lambda>timeout.
       and_then (item obj ''storage_secret_name'') (\<lambda>secret.
       and_then (item obj ''qwen_volume_name'') (\<lambda>volume.
         make_target producer raw_image gpu timeout secret volume)))))))))"

record modal_call =
  mc_target_id :: string
  mc_request :: compute_request
  mc_call_id :: string

definition call_name :: "string \<Rightarrow> bool" where
  "call_name t \<longleftrightarrow>
     take 3 t = ''fc-'' \<and> 3 < length t \<and>
     list_all (\<lambda>c. alnum c \<or> c = CHR ''_'' \<or> c = CHR ''-'') (drop 3 t)"

definition make_call :: "json \<Rightarrow> compute_request \<Rightarrow> json \<Rightarrow> modal_call result" where
  "make_call target request call_id =
     and_then (digest target ''modal_call.target_id'' 64) (\<lambda>t.
       case call_id of
         JStr c \<Rightarrow>
           if call_name c then Inr \<lparr>mc_target_id = t, mc_request = request, mc_call_id = c\<rparr>
           else Inl (BoundaryError ''modal_call'' ''invalid_call_id'')
       | _ \<Rightarrow> Inl (BoundaryError ''modal_call'' ''invalid_call_id''))"

definition call_dict :: "modal_call \<Rightarrow> (string \<times> json) list" where
  "call_dict c =
     [(''schema'', JStr ''stpd/modal-call-v1''), (''target_id'', JStr (mc_target_id c)),
      (''request'', JObj (request_dict (mc_request c))), (''call_id'', JStr (mc_call_id c))]"

definition decode_call :: "stdlib \<Rightarrow> json \<Rightarrow> modal_call result" where
  "decode_call L v =
     and_then (object_fields v [''schema'', ''target_id'', ''request'', ''call_id''] ''modal_call'')
       (\<lambda>obj.
     and_then (item obj ''schema'') (\<lambda>schema.
     if schema \<noteq> JStr ''stpd/modal-call-v1''
     then Inl (BoundaryError ''modal_call'' ''unsupported_schema'')
     else
       and_then (item obj ''target_id'') (\<lambda>target.
       and_then (item obj ''request'') (\<lambda>raw.
       and_then (decode_request L raw) (\<lambda>request.
       and_then (item obj ''call_id'') (\<lambda>call_id.
         make_call target request call_id))))))"

section \<open>Documents that are stored and reloaded\<close>

text \<open>
  The contract every dictionary codec of the service keeps with its two clients, the
  database (which stores the key-sorted dictionary and decodes it again) and the identity
  hash (which is taken over the canonical text): a valid value survives its own dictionary,
  whatever decodes still decodes after storage and is valid, and the dictionary is a plain
  JSON document.
\<close>

locale document_codec =
  fixes fr :: "string \<Rightarrow> string"
    and encode :: "'a \<Rightarrow> json"
    and decode :: "json \<Rightarrow> 'a result"
    and valid :: "'a \<Rightarrow> bool"
  assumes fresh: "valid x \<Longrightarrow> decode (encode x) = Inr x"
    and kept: "decode v = Inr x \<Longrightarrow> decode (sort_keys v) = Inr x"
    and sound: "decode v = Inr x \<Longrightarrow> valid x"
    and plain: "strict_json (encode x)" "printable fr (encode x)"
begin

lemma stored: "valid x \<Longrightarrow> decode (sort_keys (encode x)) = Inr x"
  by (rule kept) (rule fresh)

lemma reload: "decode v = Inr x \<Longrightarrow> decode (sort_keys (encode x)) = Inr x"
  by (rule stored) (rule sound)

lemma text_reload: "valid x \<Longrightarrow> and_then (decode_json fr (canonical_text (encode x))) decode = Inr x"
  unfolding canonical_text_def decode_canonical [OF plain(2,1)] by (simp add: stored)

lemma canonical_text_inj:
  assumes "valid x" "valid y" "canonical_text (encode x) = canonical_text (encode y)"
  shows "x = y"
proof -
  have "sort_keys (encode x) = sort_keys (encode y)"
    using assms(3) unfolding canonical_text_def
    by (rule print_sort_inj [OF plain(2) plain(1) plain(2) plain(1)])
  then have "decode (sort_keys (encode x)) = decode (sort_keys (encode y))" by (rule arg_cong)
  then show ?thesis unfolding stored [OF assms(1)] stored [OF assms(2)] by (rule Inr_inject)
qed

lemma identity_inj:
  assumes "valid x" "valid y" and "sha (canonical_text (encode x)) = sha (canonical_text (encode y))"
    and "sha (canonical_text (encode x)) = sha (canonical_text (encode y)) \<Longrightarrow>
      canonical_text (encode x) = canonical_text (encode y)"
  shows "x = y"
  using assms by (blast intro: canonical_text_inj)

end

section \<open>The codecs of the compute contracts\<close>

definition valid_request :: "stdlib \<Rightarrow> compute_request \<Rightarrow> bool" where
  "valid_request L r \<longleftrightarrow> valid_producer L (rq_producer r) \<and>
     make_request (JStr (rq_kind r)) (JStr (rq_input_id r)) (rq_producer r) (JStr (rq_attempt_id r))
       (optional_string (rq_resume r)) (optional_int (rq_stop_after r)) = Inr r"

definition valid_receipt :: "stdlib \<Rightarrow> compute_receipt \<Rightarrow> bool" where
  "valid_receipt L r \<longleftrightarrow> valid_producer L (rc_producer r) \<and>
     make_receipt (JStr (rc_request_id r)) (JStr (rc_attempt_id r)) (JStr (rc_kind r))
       (JStr (rc_input_id r)) (rc_producer r) (JStr (rc_state r)) (optional_string (rc_output_id r))
       (optional_string (rc_checkpoint_id r)) = Inr r"

definition valid_call :: "stdlib \<Rightarrow> modal_call \<Rightarrow> bool" where
  "valid_call L c \<longleftrightarrow> valid_request L (mc_request c) \<and>
     make_call (JStr (mc_target_id c)) (mc_request c) (JStr (mc_call_id c)) = Inr c"

lemma known_string_eq_Inr [returned]:
  "known_string v names e = Inr t \<longleftrightarrow> v = JStr t \<and> t \<in> set names"
  by (cases v) (auto simp: known_string_def in_strings_def)

lemma optional_eq_Inr [returned]:
  "optional check v = Inr x \<longleftrightarrow>
     v = JNull \<and> x = None \<or> v \<noteq> JNull \<and> (\<exists>y. check v = Inr y \<and> x = Some y)"
  by (auto simp: optional_def and_then_eq_Inr)

lemma positive_budget_eq_Inr [returned]: "positive_budget v = Inr n \<longleftrightarrow> v = JInt n \<and> 0 < n"
  by (auto simp: positive_budget_def returned)

lemma optional_string_simps [simp]: "optional_string None = JNull" "optional_string (Some t) = JStr t"
  "sort_keys (optional_string x) = optional_string x" "strict_json (optional_string x)"
  "printable fr (optional_string x)"
  by (simp_all add: optional_string_def split: option.splits)

lemma optional_int_simps [simp]: "optional_int None = JNull" "optional_int (Some i) = JInt i"
  "sort_keys (optional_int n) = optional_int n" "strict_json (optional_int n)"
  "printable fr (optional_int n)"
  by (simp_all add: optional_int_def split: option.splits)

lemma make_producer_again:
  "make_producer L repo revision lock = Inr p \<Longrightarrow>
   repo = JStr (p_repository p) \<and> revision = JStr (p_source_revision p) \<and> lock = JStr (p_uv_lock_sha256 p)"
  by (clarsimp simp: make_producer_def and_then_eq_Inr text_value_eq_Inr digest_eq_Inr)

lemma decode_producer_kept:
  assumes "decode_producer L v = Inr p"
  shows "decode_producer L (sort_keys v) = Inr p"
proof -
  from assms obtain kvs repo revision lock where
    kvs: "object_fields v [''repository'', ''source_revision'', ''uv_lock_sha256''] ''producer'' = Inr kvs"
    and items: "item kvs ''repository'' = Inr repo" "item kvs ''source_revision'' = Inr revision"
      "item kvs ''uv_lock_sha256'' = Inr lock"
    and made: "make_producer L repo revision lock = Inr p"
    by (auto simp: decode_producer_def and_then_eq_Inr)
  obtain obj where obj: "sort_keys v = JObj obj"
    "fst ` set obj = set [''repository'', ''source_revision'', ''uv_lock_sha256'']"
    "\<And>key w. item kvs key = Inr w \<Longrightarrow> item obj key = Inr (sort_keys w)"
    by (rule stored_items [OF kvs]) (rule that)
  show ?thesis
    using made make_producer_again [OF made] items [THEN obj(3)] obj(2)
    by (simp add: obj(1) decode_producer_def object_fields_stored)
qed

lemma decode_producer_valid: "decode_producer L v = Inr p \<Longrightarrow> valid_producer L p"
  unfolding decode_producer_def valid_producer_def and_then_eq_Inr
  by (metis make_producer_again)

lemma make_request_again:
  assumes "make_request kind i p a rs st = Inr r"
  shows "rq_producer r = p \<and> kind = JStr (rq_kind r) \<and> i = JStr (rq_input_id r) \<and>
    a = JStr (rq_attempt_id r) \<and> rs = optional_string (rq_resume r) \<and> st = optional_int (rq_stop_after r)"
proof -
  from assms obtain k i' a' r' n where
    parts: "kind = JStr k" "i = JStr i'" "a = JStr a'"
      "optional (\<lambda>v. digest v ''compute_request.resume'' 64) rs = Inr r'"
      "optional positive_budget st = Inr n"
    and r: "r = \<lparr>rq_kind = k, rq_input_id = i', rq_producer = p, rq_attempt_id = a',
                 rq_resume = r', rq_stop_after = n\<rparr>"
    unfolding make_request_def and_then_eq_Inr if_raise_eq_Inr known_string_eq_Inr
      digest_eq_Inr text_value_eq_Inr by blast
  from parts(4,5) have "rs = optional_string r' \<and> st = optional_int n"
    by (auto simp: optional_eq_Inr digest_eq_Inr positive_budget_eq_Inr)
  with parts r show ?thesis by simp
qed

lemma decode_producer_fresh: "valid_producer L p \<Longrightarrow> decode_producer L (producer_dict p) = Inr p"
  by (auto simp: decode_producer_def producer_dict_def object_fields_def item_def valid_producer_def)

lemma decode_request_valid: "decode_request L v = Inr r \<Longrightarrow> valid_request L r"
  unfolding decode_request_def valid_request_def and_then_eq_Inr if_raise_eq_Inr
  by (metis decode_producer_valid make_request_again)

lemma decode_request_kept:
  assumes "decode_request L v = Inr r"
  shows "decode_request L (sort_keys v) = Inr r"
proof -
  let ?fields = "[''schema'', ''kind'', ''input_id'', ''producer'', ''attempt_id'', ''resume'', ''stop_after'']"
  from assms obtain kvs raw p kind i a rs st where
    kvs: "object_fields v ?fields ''compute_request'' = Inr kvs"
    and items: "item kvs ''schema'' = Inr (JStr ''stpd/compute-request-v1'')"
      "item kvs ''producer'' = Inr raw" "item kvs ''kind'' = Inr kind" "item kvs ''input_id'' = Inr i"
      "item kvs ''attempt_id'' = Inr a" "item kvs ''resume'' = Inr rs" "item kvs ''stop_after'' = Inr st"
    and p: "decode_producer L raw = Inr p" and made: "make_request kind i p a rs st = Inr r"
    unfolding decode_request_def and_then_eq_Inr if_raise_eq_Inr by blast
  obtain obj where obj: "sort_keys v = JObj obj" "fst ` set obj = set ?fields"
    "\<And>key w. item kvs key = Inr w \<Longrightarrow> item obj key = Inr (sort_keys w)"
    by (rule stored_items [OF kvs]) (rule that)
  from made make_request_again [OF made] items [THEN obj(3)] obj(2) decode_producer_kept [OF p]
  show ?thesis by (simp add: obj(1) decode_request_def object_fields_stored)
qed

lemma decode_request_fresh: "valid_request L r \<Longrightarrow> decode_request L (JObj (request_dict r)) = Inr r"
  by (simp add: decode_request_def request_dict_def object_fields_def item_def valid_request_def
      decode_producer_fresh insert_commute)

lemma make_receipt_again:
  assumes "make_receipt q a kind i p st out chk = Inr r"
  shows "rc_producer r = p \<and> q = JStr (rc_request_id r) \<and> kind = JStr (rc_kind r) \<and>
    i = JStr (rc_input_id r) \<and> a = JStr (rc_attempt_id r) \<and> st = JStr (rc_state r) \<and>
    out = optional_string (rc_output_id r) \<and> chk = optional_string (rc_checkpoint_id r)"
proof -
  from assms obtain q' rq st' out' chk' where
    parts: "q = JStr q'" "make_request kind i p a JNull JNull = Inr rq" "st = JStr st'"
      "optional (\<lambda>v. digest v ''compute_receipt.output'' 64) out = Inr out'"
      "optional (\<lambda>v. digest v ''compute_receipt.output'' 64) chk = Inr chk'"
    and r: "r = \<lparr>rc_request_id = q', rc_attempt_id = rq_attempt_id rq, rc_kind = rq_kind rq,
                 rc_input_id = rq_input_id rq, rc_producer = p, rc_state = st',
                 rc_output_id = out', rc_checkpoint_id = chk'\<rparr>"
    unfolding make_receipt_def and_then_eq_Inr if_raise_eq_Inr known_string_eq_Inr digest_eq_Inr
    by blast
  from parts(4,5) have "out = optional_string out' \<and> chk = optional_string chk'"
    by (auto simp: optional_eq_Inr digest_eq_Inr)
  with parts(1,3) make_request_again [OF parts(2)] r show ?thesis by simp
qed

lemma decode_receipt_valid: "decode_receipt L v = Inr r \<Longrightarrow> valid_receipt L r"
  unfolding decode_receipt_def valid_receipt_def and_then_eq_Inr if_raise_eq_Inr
  by (metis decode_producer_valid make_receipt_again)

lemma decode_receipt_kept:
  assumes "decode_receipt L v = Inr r"
  shows "decode_receipt L (sort_keys v) = Inr r"
proof -
  let ?fields = "[''schema'', ''request_id'', ''attempt_id'', ''kind'', ''input_id'', ''producer'',
    ''state'', ''output_id'', ''checkpoint_id'']"
  from assms obtain kvs raw p q a kind i st out chk where
    kvs: "object_fields v ?fields ''compute_receipt'' = Inr kvs"
    and items: "item kvs ''schema'' = Inr (JStr ''stpd/compute-receipt-v1'')"
      "item kvs ''producer'' = Inr raw" "item kvs ''request_id'' = Inr q"
      "item kvs ''attempt_id'' = Inr a" "item kvs ''kind'' = Inr kind" "item kvs ''input_id'' = Inr i"
      "item kvs ''state'' = Inr st" "item kvs ''output_id'' = Inr out" "item kvs ''checkpoint_id'' = Inr chk"
    and p: "decode_producer L raw = Inr p" and made: "make_receipt q a kind i p st out chk = Inr r"
    unfolding decode_receipt_def and_then_eq_Inr if_raise_eq_Inr by blast
  obtain obj where obj: "sort_keys v = JObj obj" "fst ` set obj = set ?fields"
    "\<And>key w. item kvs key = Inr w \<Longrightarrow> item obj key = Inr (sort_keys w)"
    by (rule stored_items [OF kvs]) (rule that)
  from made make_receipt_again [OF made] items [THEN obj(3)] obj(2) decode_producer_kept [OF p]
  show ?thesis by (simp add: obj(1) decode_receipt_def object_fields_stored)
qed

lemma decode_receipt_fresh: "valid_receipt L r \<Longrightarrow> decode_receipt L (JObj (receipt_dict r)) = Inr r"
  by (simp add: decode_receipt_def receipt_dict_def object_fields_def item_def valid_receipt_def
      decode_producer_fresh insert_commute)

lemma make_call_again:
  "make_call t rq c = Inr call \<Longrightarrow> mc_request call = rq \<and> t = JStr (mc_target_id call) \<and> c = JStr (mc_call_id call)"
  by (auto simp: make_call_def returned split: json.splits if_splits)

lemma decode_call_valid: "decode_call L v = Inr c \<Longrightarrow> valid_call L c"
  unfolding decode_call_def valid_call_def and_then_eq_Inr if_raise_eq_Inr
  by (metis decode_request_valid make_call_again)

lemma decode_call_kept:
  assumes "decode_call L v = Inr c"
  shows "decode_call L (sort_keys v) = Inr c"
proof -
  let ?fields = "[''schema'', ''target_id'', ''request'', ''call_id'']"
  from assms obtain kvs raw rq t i where
    kvs: "object_fields v ?fields ''modal_call'' = Inr kvs"
    and items: "item kvs ''schema'' = Inr (JStr ''stpd/modal-call-v1'')"
      "item kvs ''target_id'' = Inr t" "item kvs ''request'' = Inr raw" "item kvs ''call_id'' = Inr i"
    and rq: "decode_request L raw = Inr rq" and made: "make_call t rq i = Inr c"
    unfolding decode_call_def and_then_eq_Inr if_raise_eq_Inr by blast
  obtain obj where obj: "sort_keys v = JObj obj" "fst ` set obj = set ?fields"
    "\<And>key w. item kvs key = Inr w \<Longrightarrow> item obj key = Inr (sort_keys w)"
    by (rule stored_items [OF kvs]) (rule that)
  from made make_call_again [OF made] items [THEN obj(3)] obj(2) decode_request_kept [OF rq]
  show ?thesis by (simp add: obj(1) decode_call_def object_fields_stored)
qed

lemma decode_call_fresh: "valid_call L c \<Longrightarrow> decode_call L (JObj (call_dict c)) = Inr c"
  by (simp add: decode_call_def call_dict_def object_fields_def item_def valid_call_def
      decode_request_fresh insert_commute)

lemma producer_dict_plain [simp]: "strict_json (producer_dict p)" "printable fr (producer_dict p)"
  by (simp_all add: producer_dict_def)

lemma request_dict_plain: "strict_json (JObj (request_dict r))" "printable fr (JObj (request_dict r))"
  by (simp_all add: request_dict_def)

lemma receipt_dict_plain: "strict_json (JObj (receipt_dict r))" "printable fr (JObj (receipt_dict r))"
  by (simp_all add: receipt_dict_def)

lemma call_dict_plain: "strict_json (JObj (call_dict c))" "printable fr (JObj (call_dict c))"
  using request_dict_plain(1) [of "mc_request c"] request_dict_plain(2) [of fr "mc_request c"]
  by (simp_all add: call_dict_def)

interpretation producer_codec: document_codec fr producer_dict "decode_producer L" "valid_producer L"
  for fr L
  by unfold_locales (simp_all add: decode_producer_fresh decode_producer_kept decode_producer_valid)

interpretation request_codec:
  document_codec fr "\<lambda>r. JObj (request_dict r)" "decode_request L" "valid_request L" for fr L
  by unfold_locales
    (rule decode_request_fresh decode_request_kept decode_request_valid request_dict_plain, assumption?)+

interpretation receipt_codec:
  document_codec fr "\<lambda>r. JObj (receipt_dict r)" "decode_receipt L" "valid_receipt L" for fr L
  by unfold_locales
    (rule decode_receipt_fresh decode_receipt_kept decode_receipt_valid receipt_dict_plain, assumption?)+

interpretation call_codec:
  document_codec fr "\<lambda>c. JObj (call_dict c)" "decode_call L" "valid_call L" for fr L
  by unfold_locales (rule decode_call_fresh decode_call_kept decode_call_valid call_dict_plain, assumption?)+

end
