(* ===== verification/Compute.thy ===== *)
theory Compute
  imports Jobs Contracts
begin

text \<open>
  The compute half of the job ledger (\<open>Operations._compute_fenced\<close> to
  \<open>record_compute_cancel\<close> in python/spireagent/hub/database.py): the durable intent written
  before the provider is called, the handle bound after it answered, the uncertain and
  cancelled outcomes, and the fenced selection of a receipt. Every operation is one
  transaction over the tables \<open>jobs\<close> and \<open>compute_attempts\<close>.
\<close>

section \<open>The fence\<close>

definition attempt_row :: "ops \<Rightarrow> string \<Rightarrow> attempt option" where
  "attempt_row s i = find (\<lambda>a. a_job a = i) (attempts s)"

definition update_attempt :: "string \<Rightarrow> (attempt \<Rightarrow> attempt) \<Rightarrow> ops \<Rightarrow> ops" where
  "update_attempt i f s = s\<lparr>attempts := update_where (\<lambda>a. a_job a = i) f (attempts s)\<rparr>"

definition compute_fenced :: "hash \<Rightarrow> ops \<Rightarrow> string \<Rightarrow> string \<Rightarrow> string \<Rightarrow> int \<Rightarrow> job result" where
  "compute_fenced sha s i token attempt_id fence =
     (case job_row s i of
        None \<Rightarrow> Inl stale_attempt
      | Some row \<Rightarrow>
          if j_attempt_id row \<noteq> Some attempt_id \<or> j_fence row \<noteq> fence \<or> \<not> lease_matches sha row token
          then Inl stale_attempt
          else Inr row)"

text \<open>
  \<open>recover_compute\<close>: the new owner's token is the fresh \<open>secrets.token_urlsafe(32)\<close>. A NULL
  lease of a running row cannot be compared with a float and raises.
\<close>

definition recovered_status :: "job \<Rightarrow> real \<Rightarrow> job_status result" where
  "recovered_status row t =
     (if j_status row = Running then
        (case j_lease_until row of
           None \<Rightarrow> Inl TypeError
         | Some lease \<Rightarrow> Inr (if lease \<le> t then Uncertain else Running))
      else Inr (j_status row))"

definition recover_compute ::
  "hash \<Rightarrow> string \<Rightarrow> real \<Rightarrow> string \<Rightarrow> string option \<Rightarrow> int \<Rightarrow> pyfloat \<Rightarrow> (ops, job \<times> string) tx" where
  "recover_compute sha token clock i attempt_id fence now s =
     (case now of
        NonFinite \<Rightarrow> Inl (BoundaryError ''hub'' ''invalid_lease'')
      | Finite t \<Rightarrow>
          (case job_row s i of
             None \<Rightarrow> Inl stale_attempt
           | Some row \<Rightarrow>
               if j_attempt_id row \<noteq> attempt_id \<or> j_fence row \<noteq> fence \<or> \<not> is_active row
               then Inl stale_attempt
               else
                 and_then (recovered_status row t) (\<lambda>status.
                   let rotate = (\<lambda>r. r\<lparr>j_lease_hash := Some (token_hash sha token), j_status := status\<rparr>)
                   in Inr (record_event clock ''scheduler'' ''attempt_owner_recovered'' i
                             (JObj [(''attempt_id'', optional_string attempt_id), (''fence'', JInt fence)])
                             (update_job i rotate s),
                           ((rotate row)\<lparr>j_lease_hash := None\<rparr>, token)))))"

text \<open>\<open>compute_state\<close> reads the attempt with its JSON columns decoded, which the tables hold as trees.\<close>

definition compute_state :: "string \<Rightarrow> (ops, attempt option) tx" where
  "compute_state i s = Inr (s, attempt_row s i)"

section \<open>Intent and handle\<close>

definition compute_kind :: "string \<Rightarrow> string result" where
  "compute_kind kind =
     (if kind = ''feature'' then Inr ''features''
      else if kind = ''training'' then Inr ''training'' else Inl KeyError)"

definition request_names_job :: "compute_request \<Rightarrow> job \<Rightarrow> bool result" where
  "request_names_job value row =
     (if Some (rq_attempt_id value) \<noteq> j_attempt_id row \<or> rq_input_id value \<noteq> j_input_id row
      then Inr False
      else and_then (compute_kind (j_kind row)) (\<lambda>k. Inr (rq_kind value = k)))"

definition row_options :: "job \<Rightarrow> (string \<times> json) list result" where
  "row_options row = (case j_options row of JObj kvs \<Rightarrow> Inr kvs | _ \<Rightarrow> Inl TypeError)"

definition submission_intent :: "stdlib \<Rightarrow> string \<Rightarrow> compute_request \<Rightarrow> job \<Rightarrow> json \<Rightarrow> string \<Rightarrow> attempt" where
  "submission_intent L i value row encoded target =
     \<lparr>a_job = i, a_attempt_id = rq_attempt_id value, a_fence = j_fence row,
      a_request_id = request_id L value, a_request = encoded, a_target_id = target,
      a_phase = Submitting, a_handle = None, a_cancel_state = None, a_last_error = None,
      a_receipt = None\<rparr>"

definition prepare_compute ::
  "stdlib \<Rightarrow> real \<Rightarrow> string \<Rightarrow> string \<Rightarrow> json \<Rightarrow> string \<Rightarrow> pyfloat \<Rightarrow> (ops, bool) tx" where
  "prepare_compute L clock i token request target now s =
     and_then (decode_request L request) (\<lambda>value.
     and_then (digest (JStr target) ''compute.target_id'' 64) (\<lambda>_.
     let encoded = sort_keys request in
     and_then (live (sha256 L) s i token now) (\<lambda>row.
     and_then (request_names_job value row) (\<lambda>named.
     if \<not> named then Inl (BoundaryError ''hub'' ''compute_request_job_mismatch'')
     else
       and_then (row_options row) (\<lambda>options.
       if (optional_string (rq_resume value), optional_int (rq_stop_after value))
          \<noteq> (option_value options ''resume'', option_value options ''stop_after'')
       then Inl (BoundaryError ''hub'' ''compute_request_options_mismatch'')
       else
         (case attempt_row s i of
            Some prior \<Rightarrow>
              if (a_request prior, a_target_id prior, a_fence prior) \<noteq> (encoded, target, j_fence row)
              then Inl (BoundaryError ''hub'' ''compute_request_conflict'')
              else Inr (s, False)
          | None \<Rightarrow>
              Inr (record_event clock ''scheduler'' ''compute_submission_intent'' i
                     (JObj [(''request_id'', JStr (request_id L value)), (''target_id'', JStr target)])
                     (s\<lparr>attempts := attempts s @ [submission_intent L i value row encoded target]\<rparr>),
                   True)))))))"

definition bind_compute_handle ::
  "stdlib \<Rightarrow> real \<Rightarrow> string \<Rightarrow> string \<Rightarrow> string \<Rightarrow> int \<Rightarrow> json \<Rightarrow> (ops, unit) tx" where
  "bind_compute_handle L clock i token attempt_id fence handle s =
     and_then (decode_call L handle) (\<lambda>value.
     let encoded = sort_keys handle in
     and_then (compute_fenced (sha256 L) s i token attempt_id fence) (\<lambda>row.
     if \<not> is_active row then Inl (BoundaryError ''hub'' ''compute_handle_mismatch'')
     else
       (case attempt_row s i of
          None \<Rightarrow> Inl (BoundaryError ''hub'' ''compute_handle_mismatch'')
        | Some current \<Rightarrow>
            if a_request_id current \<noteq> request_id L (mc_request value) \<or>
               a_target_id current \<noteq> mc_target_id value \<or> rq_attempt_id (mc_request value) \<noteq> attempt_id
            then Inl (BoundaryError ''hub'' ''compute_handle_mismatch'')
            else if a_handle current \<notin> {None, Some encoded}
            then Inl (BoundaryError ''hub'' ''provider_reference_conflict'')
            else
              Inr (record_event clock ''scheduler'' ''compute_handle_bound'' i
                     (JObj [(''request_id'', JStr (request_id L (mc_request value))),
                            (''provider_ref'', JStr (mc_call_id value))])
                     (update_job i (\<lambda>r. r\<lparr>j_provider_ref := Some (mc_call_id value)\<rparr>)
                       (update_attempt i (\<lambda>a. a\<lparr>a_handle := Some encoded, a_phase := Submitted\<rparr>) s)),
                   ()))))"

section \<open>Uncertain and failed outcomes\<close>

definition uncertain_status :: "job \<Rightarrow> attempt option \<Rightarrow> job_status" where
  "uncertain_status row current =
     (if j_status row = Cancelling then Cancelling
      else if (case current of None \<Rightarrow> True | Some a \<Rightarrow> a_handle a = None) then SubmissionUnknown
      else Uncertain)"

definition compute_uncertain ::
  "hash \<Rightarrow> real \<Rightarrow> string \<Rightarrow> string \<Rightarrow> string \<Rightarrow> int \<Rightarrow> string \<Rightarrow> (ops, unit) tx" where
  "compute_uncertain sha clock i token attempt_id fence code s =
     and_then (text_value (JStr code) ''compute.code'' 128) (\<lambda>_.
     and_then (compute_fenced sha s i token attempt_id fence) (\<lambda>row.
     if \<not> is_active row then Inl stale_attempt
     else
       let current = attempt_row s i;
           status = uncertain_status row current;
           mark = (\<lambda>q. record_event clock ''scheduler'' ''compute_uncertain'' i
                         (JObj [(''code'', JStr code)])
                         (update_job i (\<lambda>r. r\<lparr>j_status := status\<rparr>) q))
       in case current of
            None \<Rightarrow> if j_status row = status then Inr (s, ()) else Inr (mark s, ())
          | Some a \<Rightarrow>
              if a_last_error a = Some code \<and> j_status row = status then Inr (s, ())
              else Inr (mark (update_attempt i (\<lambda>a. a\<lparr>a_last_error := Some code\<rparr>) s), ())))"

definition fail_before_compute ::
  "hash \<Rightarrow> real \<Rightarrow> string \<Rightarrow> string \<Rightarrow> string \<Rightarrow> pyfloat \<Rightarrow> (ops, unit) tx" where
  "fail_before_compute sha clock i token code now s =
     and_then (text_value (JStr code) ''compute.code'' 128) (\<lambda>_.
     and_then (live sha s i token now) (\<lambda>row.
     if j_provider_ref row \<noteq> None \<or> attempt_row s i \<noteq> None
     then Inl (BoundaryError ''hub'' ''submission_may_exist'')
     else
       Inr (record_event clock ''scheduler'' ''compute_preflight_failed'' i (JObj [(''code'', JStr code)])
              (update_job i (\<lambda>r. r\<lparr>j_status := Failed,
                 j_result := Some (JObj [(''stage'', JStr ''preflight''), (''code'', JStr code)])\<rparr>) s), ())))"

section \<open>Selection of a receipt\<close>

definition accepted_status :: "bool \<Rightarrow> compute_receipt \<Rightarrow> job_status" where
  "accepted_status cancelled value =
     (if cancelled then Cancelled else if rc_state value = ''paused'' then Paused else Completed)"

definition status_word :: "job_status \<Rightarrow> string" where
  "status_word st =
     (case st of Cancelled \<Rightarrow> ''cancelled'' | Paused \<Rightarrow> ''paused'' | _ \<Rightarrow> ''completed'')"

definition acceptable :: "bool \<Rightarrow> job \<Rightarrow> bool" where
  "acceptable cancelled row \<longleftrightarrow>
     (if cancelled then j_status row = Cancelling
      else j_status row \<in> {Running, Uncertain, SubmissionUnknown})"

definition selected_result :: "bool \<Rightarrow> compute_receipt \<Rightarrow> json \<Rightarrow> json" where
  "selected_result cancelled value encoded =
     (if cancelled
      then JObj [(''state'', JStr ''cancelled''), (''request_id'', JStr (rc_request_id value)),
                 (''terminal_receipt_recorded'', JBool True)]
      else encoded)"

definition accept_compute ::
  "stdlib \<Rightarrow> real \<Rightarrow> string \<Rightarrow> string \<Rightarrow> string \<Rightarrow> int \<Rightarrow> json \<Rightarrow> bool \<Rightarrow> (ops, unit) tx" where
  "accept_compute L clock i token attempt_id fence receipt cancelled s =
     and_then (decode_receipt L receipt) (\<lambda>value.
     let encoded = sort_keys receipt;
         target = accepted_status cancelled value
     in
     and_then (compute_fenced (sha256 L) s i token attempt_id fence) (\<lambda>row.
       case attempt_row s i of
         None \<Rightarrow> Inl (BoundaryError ''hub'' ''compute_handle_required'')
       | Some current \<Rightarrow>
           if a_handle current = None \<or> a_attempt_id current \<noteq> attempt_id \<or> a_fence current \<noteq> fence
           then Inl (BoundaryError ''hub'' ''compute_handle_required'')
           else
             and_then (decode_request L (a_request current)) (\<lambda>request.
             and_then (bind_receipt L value request) (\<lambda>_.
             if j_status row = target \<and> a_receipt current = Some encoded then Inr (s, ())
             else if \<not> acceptable cancelled row then Inl stale_attempt
             else
               Inr (record_event clock ''scheduler'' (''compute_'' @ status_word target) i receipt
                      (update_attempt i (\<lambda>a. a\<lparr>a_phase := Settled target, a_receipt := Some encoded\<rparr>)
                        (update_job i (\<lambda>r. r\<lparr>j_status := target,
                            j_result := Some (selected_result cancelled value encoded)\<rparr>) s)), ())))))"

section \<open>Cancellation at the provider\<close>

definition begin_compute_cancel ::
  "hash \<Rightarrow> real \<Rightarrow> string \<Rightarrow> string \<Rightarrow> string \<Rightarrow> int \<Rightarrow> (ops, bool) tx" where
  "begin_compute_cancel sha clock i token attempt_id fence s =
     and_then (compute_fenced sha s i token attempt_id fence) (\<lambda>row.
       case attempt_row s i of
         None \<Rightarrow> Inl (BoundaryError ''hub'' ''cancel_handle_required'')
       | Some current \<Rightarrow>
           if j_status row \<noteq> Cancelling \<or> a_handle current = None
           then Inl (BoundaryError ''hub'' ''cancel_handle_required'')
           else if a_cancel_state current \<noteq> None then Inr (s, False)
           else
             Inr (record_event clock ''scheduler'' ''compute_cancel_requested'' i (JObj [])
                    (update_attempt i (\<lambda>a. a\<lparr>a_cancel_state := Some Requested\<rparr>) s), True))"

definition record_compute_cancel ::
  "hash \<Rightarrow> real \<Rightarrow> string \<Rightarrow> string \<Rightarrow> string \<Rightarrow> int \<Rightarrow> bool \<Rightarrow> (ops, unit) tx" where
  "record_compute_cancel sha clock i token attempt_id fence acknowledged s =
     and_then (compute_fenced sha s i token attempt_id fence) (\<lambda>row.
       if j_status row \<noteq> Cancelling then Inl stale_attempt
       else
         let state = (if acknowledged then Acknowledged else CancelUnknown);
             word = (if acknowledged then ''acknowledged'' else ''unknown'')
         in Inr (record_event clock ''scheduler'' (''compute_cancel_'' @ word) i (JObj [])
                   (update_attempt i (\<lambda>a. a\<lparr>a_cancel_state := Some state\<rparr>) s), ()))"

end
