(* ===== verification/Grants.thy ===== *)
theory Grants
  imports Main
begin

text \<open>
  The contract behind every at-most-once decision of the service: an operation grants a
  permission for a key (to call the provider, to cancel a call, to take a lease, to charge a
  budget), and the permission is recorded in the tables for good. A component that grants
  under this contract grants each key once in any history, however its calls interleave with
  the other transactions.
\<close>

text \<open>A history lists the keys granted, oldest first, between arbitrary other steps.\<close>

inductive history :: "('s \<Rightarrow> 's \<Rightarrow> bool) \<Rightarrow> ('k \<Rightarrow> 's \<Rightarrow> 's \<Rightarrow> bool) \<Rightarrow> 's \<Rightarrow> 'k list \<Rightarrow> 's \<Rightarrow> bool"
  for step grant where
  start: "history step grant s [] s"
| other: "history step grant s ks t \<Longrightarrow> step t u \<Longrightarrow> history step grant s ks u"
| granted: "history step grant s ks t \<Longrightarrow> grant k t u \<Longrightarrow> history step grant s (ks @ [k]) u"

locale grant_ledger =
  fixes ok :: "'s \<Rightarrow> bool"
    and step :: "'s \<Rightarrow> 's \<Rightarrow> bool"
    and grant :: "'k \<Rightarrow> 's \<Rightarrow> 's \<Rightarrow> bool"
    and held :: "'s \<Rightarrow> 'k \<Rightarrow> bool"
  assumes ok_step: "ok s \<Longrightarrow> step s t \<Longrightarrow> ok t"
    and held_step: "ok s \<Longrightarrow> step s t \<Longrightarrow> held s k \<Longrightarrow> held t k"
    and grant_step: "ok s \<Longrightarrow> grant k s t \<Longrightarrow> step s t"
    and grant_fresh: "ok s \<Longrightarrow> grant k s t \<Longrightarrow> \<not> held s k"
    and grant_held: "ok s \<Longrightarrow> grant k s t \<Longrightarrow> held t k"
begin

lemma history_ok: "history step grant s ks t \<Longrightarrow> ok s \<Longrightarrow> ok t"
  by (induction rule: history.induct) (auto intro: ok_step grant_step)

lemma history_held: "history step grant s ks t \<Longrightarrow> ok s \<Longrightarrow> held s k \<or> k \<in> set ks \<Longrightarrow> held t k"
  by (induction rule: history.induct)
    (auto intro: held_step grant_step grant_held history_ok)

lemma granted_once: "history step grant s ks t \<Longrightarrow> ok s \<Longrightarrow> distinct ks \<and> (\<forall>k \<in> set ks. \<not> held s k)"
proof (induction rule: history.induct)
  case (granted s ks t k u)
  then have "ok t" by (blast intro: history_ok)
  from this granted.hyps(2) have "\<not> held t k" by (rule grant_fresh)
  with granted history_held [OF granted.hyps(1) granted.prems] show ?case by auto
qed auto

end

end
