(* ===== verification/Ledger.thy ===== *)
theory Ledger
  imports Compute Grants
begin

text \<open>
  What the job ledger promises. \<open>life\<close> is the abstract state machine of one job and its
  compute attempt; \<open>ledger_step\<close> is one committed transaction of the concrete ledger, any
  operation of \<open>Jobs\<close> or \<open>Compute\<close> or a transaction that leaves both tables alone.
  Every ledger step is, for every job, a move of that machine (\<open>ledger_step_life\<close>), so the
  facts about single moves (a settled job is frozen, a cancelling job is never selected, a
  fence is issued once) and the invariant of a job's cell hold along every history.
\<close>

section \<open>The life of one job\<close>

definition terminal :: "job_status \<Rightarrow> bool" where
  "terminal st \<longleftrightarrow> st \<in> {Completed, Paused, Failed, Cancelled}"

definition intent_of :: "stdlib \<Rightarrow> job \<Rightarrow> attempt \<Rightarrow> bool" where
  "intent_of L r a \<longleftrightarrow>
     (\<exists>q. decode_request L (a_request a) = Inr q \<and> a_request_id a = request_id L q \<and>
        a_attempt_id a = rq_attempt_id q \<and> Some (rq_attempt_id q) = j_attempt_id r \<and>
        rq_input_id q = j_input_id r \<and> a_fence a = j_fence r)"

definition call_of :: "stdlib \<Rightarrow> attempt \<Rightarrow> json \<Rightarrow> modal_call \<Rightarrow> bool" where
  "call_of L a h c \<longleftrightarrow>
     decode_call L h = Inr c \<and> request_id L (mc_request c) = a_request_id a \<and>
     mc_target_id c = a_target_id a \<and> rq_attempt_id (mc_request c) = a_attempt_id a"

definition receipt_of :: "stdlib \<Rightarrow> attempt \<Rightarrow> json \<Rightarrow> compute_receipt \<Rightarrow> bool" where
  "receipt_of L a e v \<longleftrightarrow>
     decode_receipt L e = Inr v \<and>
     (\<exists>q. decode_request L (a_request a) = Inr q \<and> bind_receipt L v q = Inr ())"

definition new_intent :: "attempt \<Rightarrow> bool" where
  "new_intent a \<longleftrightarrow> a_phase a = Submitting \<and> a_handle a = None \<and> a_receipt a = None \<and> a_cancel_state a = None"

inductive life ::
  "stdlib \<Rightarrow> job \<times> attempt option \<Rightarrow> job \<times> attempt option \<Rightarrow> bool" for L where
  stutter: "life L (r, a) (r, a)"
| claimed: "j_status r = Queued \<Longrightarrow> lease \<le> deadline \<Longrightarrow>
    life L (r, a) (r\<lparr>j_status := Running, j_fence := j_fence r + 1, j_attempt_id := Some t,
      j_lease_hash := Some h, j_lease_until := Some lease, j_deadline := Some deadline,
      j_provider_ref := None\<rparr>, a)"
| renewed: "j_status r = Running \<Longrightarrow> j_deadline r = Some deadline \<Longrightarrow> lease \<le> deadline \<Longrightarrow>
    life L (r, a) (r\<lparr>j_lease_until := Some lease\<rparr>, a)"
| referenced: "j_status r = Running \<Longrightarrow> j_provider_ref r \<in> {None, Some ref} \<Longrightarrow>
    life L (r, a) (r\<lparr>j_provider_ref := Some ref\<rparr>, a)"
| doubted: "is_active r \<Longrightarrow> j_status r \<noteq> Cancelling \<Longrightarrow> st \<in> {SubmissionUnknown, Uncertain} \<Longrightarrow>
    life L (r, a) (r\<lparr>j_status := st\<rparr>, map_option (\<lambda>a. a\<lparr>a_last_error := e\<rparr>) a)"
| reported: "is_active r \<Longrightarrow> life L (r, a) (r, map_option (\<lambda>a. a\<lparr>a_last_error := e\<rparr>) a)"
| handed_over: "is_active r \<Longrightarrow> st = j_status r \<or> j_status r = Running \<and> st = Uncertain \<Longrightarrow>
    life L (r, a) (r\<lparr>j_lease_hash := Some h, j_status := st\<rparr>, a)"
| worked: "j_status r = Running \<Longrightarrow>
    life L (r, a) (r\<lparr>j_status := Completed, j_result := Some e\<rparr>, a)"
| withdrawn: "j_status r = Queued \<Longrightarrow> life L (r, a) (r\<lparr>j_status := Cancelled\<rparr>, a)"
| stopping: "is_active r \<Longrightarrow> life L (r, a) (r\<lparr>j_status := Cancelling\<rparr>, a)"
| stopped: "is_active r \<Longrightarrow> st = (if j_status r = Cancelling then Cancelled else Failed) \<Longrightarrow>
    life L (r, a) (r\<lparr>j_status := st, j_lease_hash := None\<rparr>, a)"
| rejected: "j_status r = Running \<Longrightarrow> j_provider_ref r = None \<Longrightarrow>
    life L (r, None) (r\<lparr>j_status := Failed, j_result := Some e\<rparr>, None)"
| intended: "j_status r = Running \<Longrightarrow> intent_of L r a \<Longrightarrow> new_intent a \<Longrightarrow> a_job a = j_id r \<Longrightarrow>
    life L (r, None) (r, Some a)"
| bound: "is_active r \<Longrightarrow> call_of L a h c \<Longrightarrow> a_handle a \<in> {None, Some h} \<Longrightarrow>
    life L (r, Some a) (r\<lparr>j_provider_ref := Some (mc_call_id c)\<rparr>,
      Some (a\<lparr>a_handle := Some h, a_phase := Submitted\<rparr>))"
| selected: "a_handle a \<noteq> None \<Longrightarrow> receipt_of L a e v \<Longrightarrow>
    j_status r \<in> {Running, Uncertain, SubmissionUnknown} \<Longrightarrow>
    st = (if rc_state v = ''paused'' then Paused else Completed) \<Longrightarrow>
    life L (r, Some a) (r\<lparr>j_status := st, j_result := Some e\<rparr>,
      Some (a\<lparr>a_phase := Settled st, a_receipt := Some e\<rparr>))"
| ended: "a_handle a \<noteq> None \<Longrightarrow> receipt_of L a e v \<Longrightarrow> j_status r = Cancelling \<Longrightarrow>
    life L (r, Some a) (r\<lparr>j_status := Cancelled, j_result := Some (selected_result True v e)\<rparr>,
      Some (a\<lparr>a_phase := Settled Cancelled, a_receipt := Some e\<rparr>))"
| cancel_noted: "j_status r = Cancelling \<Longrightarrow>
    life L (r, a) (r, map_option (\<lambda>a. a\<lparr>a_cancel_state := Some c\<rparr>) a)"

inductive_cases lifeE: "life L (r, a) (r', a')"

lemmas status_simps = terminal_def is_active_def active_statuses_def

text \<open>The columns a job keeps from its intake on.\<close>

definition job_terms :: "job \<Rightarrow> string \<times> string \<times> string \<times> string \<times> int \<times> int \<times> json" where
  "job_terms r = (j_id r, j_request_key r, j_kind r, j_input_id r, j_max_seconds r, j_reserved_units r, j_options r)"

text \<open>The columns an attempt keeps from its intent on; a handle or receipt is never replaced.\<close>

definition same_intent :: "attempt \<Rightarrow> attempt \<Rightarrow> bool" where
  "same_intent a a' \<longleftrightarrow> a_job a' = a_job a \<and> a_attempt_id a' = a_attempt_id a \<and> a_fence a' = a_fence a \<and>
     a_request_id a' = a_request_id a \<and> a_request a' = a_request a \<and> a_target_id a' = a_target_id a \<and>
     a_handle a' \<in> {a_handle a} \<union> (if a_handle a = None then UNIV else {})"

lemma life_terms: "life L (r, a) (r', a') \<Longrightarrow> job_terms r' = job_terms r"
  by (erule lifeE) (simp_all add: job_terms_def)

lemma terminal_idle:
  "terminal (j_status r) \<Longrightarrow> \<not> is_active r \<and> j_status r \<notin> {Queued, Running, Uncertain, SubmissionUnknown, Cancelling}"
  by (auto simp: status_simps)

lemma life_terminal:
  assumes "life L (r, a) (r', a')" and "terminal (j_status r)"
  shows "r' = r \<and> a' = a"
  using assms(1) terminal_idle [OF assms(2)] by (elim lifeE) simp_all

lemma life_activation:
  "life L (r, a) (r', a') \<Longrightarrow> is_active r' \<Longrightarrow> is_active r \<or> j_status r = Queued \<and> j_status r' = Running"
  by (erule lifeE) (auto simp: status_simps)

lemma life_started:
  "life L (r, a) (r', a') \<Longrightarrow> j_status r \<noteq> Queued \<Longrightarrow>
   j_status r' \<noteq> Queued \<and> j_fence r' = j_fence r \<and> j_attempt_id r' = j_attempt_id r \<and> j_deadline r' = j_deadline r"
  by (erule lifeE) auto

lemma life_intent: "life L (r, Some a) (r', a') \<Longrightarrow> \<exists>b. a' = Some b \<and> same_intent a b"
  by (erule lifeE) (auto simp: same_intent_def)

section \<open>The invariant of a job and its attempt\<close>

definition queued_ok :: "job \<Rightarrow> bool" where
  "queued_ok r \<longleftrightarrow> j_fence r = 0 \<and> j_attempt_id r = None \<and> j_lease_hash r = None \<and>
     j_provider_ref r = None \<and> j_result r = None"

definition leased_ok :: "job \<Rightarrow> bool" where
  "leased_ok r \<longleftrightarrow> j_fence r = 1 \<and> j_attempt_id r \<noteq> None \<and>
     (\<exists>lease deadline. j_lease_until r = Some lease \<and> j_deadline r = Some deadline \<and> lease \<le> deadline)"

definition row_ok :: "job \<Rightarrow> bool" where
  "row_ok r \<longleftrightarrow>
     (j_status r = Queued \<longrightarrow> queued_ok r) \<and>
     (is_active r \<or> j_status r \<in> {Completed, Paused, Failed} \<longrightarrow> leased_ok r) \<and>
     (is_active r \<longrightarrow> j_lease_hash r \<noteq> None \<and> j_result r = None) \<and>
     (j_status r = Cancelled \<longrightarrow> leased_ok r \<or> queued_ok r)"

definition phase_ok :: "stdlib \<Rightarrow> job \<Rightarrow> attempt \<Rightarrow> bool" where
  "phase_ok L r a \<longleftrightarrow>
     (case a_phase a of
        Submitting \<Rightarrow> a_handle a = None \<and> a_receipt a = None
      | Submitted \<Rightarrow> a_handle a \<noteq> None \<and> a_receipt a = None
      | Settled st \<Rightarrow> a_handle a \<noteq> None \<and> j_status r = st \<and> st \<in> {Completed, Paused, Cancelled} \<and>
          (\<exists>e v. a_receipt a = Some e \<and> receipt_of L a e v \<and>
             j_result r = Some (selected_result (st = Cancelled) v e) \<and>
             (st \<noteq> Cancelled \<longrightarrow> (st = Paused) = (rc_state v = ''paused''))))"

definition attempt_ok :: "stdlib \<Rightarrow> job \<Rightarrow> attempt \<Rightarrow> bool" where
  "attempt_ok L r a \<longleftrightarrow> a_job a = j_id r \<and> intent_of L r a \<and> j_fence r = 1 \<and> phase_ok L r a \<and>
     (\<forall>h. a_handle a = Some h \<longrightarrow> (\<exists>c. call_of L a h c \<and> j_provider_ref r = Some (mc_call_id c)))"

definition cell_ok :: "stdlib \<Rightarrow> job \<times> attempt option \<Rightarrow> bool" where
  "cell_ok L cell \<longleftrightarrow> row_ok (fst cell) \<and> (case snd cell of None \<Rightarrow> True | Some a \<Rightarrow> attempt_ok L (fst cell) a)"

lemma life_row_ok: "life L (r, a) (r', a') \<Longrightarrow> row_ok r \<Longrightarrow> row_ok r'"
  by (erule lifeE; cases "j_status r";
      force simp: row_ok_def queued_ok_def leased_ok_def status_simps split: if_splits)

text \<open>None of the three bindings reads a column that moves after the claim.\<close>

lemma intent_of_update [simp]:
  "intent_of L (r\<lparr>j_status := st\<rparr>) a = intent_of L r a"
  "intent_of L (r\<lparr>j_lease_hash := h\<rparr>) a = intent_of L r a"
  "intent_of L (r\<lparr>j_lease_until := u\<rparr>) a = intent_of L r a"
  "intent_of L (r\<lparr>j_provider_ref := p\<rparr>) a = intent_of L r a"
  "intent_of L (r\<lparr>j_result := e\<rparr>) a = intent_of L r a"
  "intent_of L r (a\<lparr>a_handle := x\<rparr>) = intent_of L r a"
  "intent_of L r (a\<lparr>a_phase := ph\<rparr>) = intent_of L r a"
  "intent_of L r (a\<lparr>a_receipt := y\<rparr>) = intent_of L r a"
  "intent_of L r (a\<lparr>a_cancel_state := c\<rparr>) = intent_of L r a"
  "intent_of L r (a\<lparr>a_last_error := le\<rparr>) = intent_of L r a"
  by (simp_all add: intent_of_def)

lemma call_of_update [simp]:
  "call_of L (a\<lparr>a_handle := x\<rparr>) h d = call_of L a h d"
  "call_of L (a\<lparr>a_phase := ph\<rparr>) h d = call_of L a h d"
  "call_of L (a\<lparr>a_receipt := y\<rparr>) h d = call_of L a h d"
  "call_of L (a\<lparr>a_cancel_state := c\<rparr>) h d = call_of L a h d"
  "call_of L (a\<lparr>a_last_error := le\<rparr>) h d = call_of L a h d"
  by (simp_all add: call_of_def)

lemma receipt_of_update [simp]:
  "receipt_of L (a\<lparr>a_handle := x\<rparr>) e v = receipt_of L a e v"
  "receipt_of L (a\<lparr>a_phase := ph\<rparr>) e v = receipt_of L a e v"
  "receipt_of L (a\<lparr>a_receipt := y\<rparr>) e v = receipt_of L a e v"
  "receipt_of L (a\<lparr>a_cancel_state := c\<rparr>) e v = receipt_of L a e v"
  "receipt_of L (a\<lparr>a_last_error := le\<rparr>) e v = receipt_of L a e v"
  by (simp_all add: receipt_of_def)

lemma call_of_unique: "call_of L a h c \<Longrightarrow> call_of L a h d \<Longrightarrow> c = d"
  by (simp add: call_of_def)

lemma active_unsettled: "is_active r \<Longrightarrow> phase_ok L r a \<Longrightarrow> a_phase a \<noteq> Settled st"
  by (auto simp: phase_ok_def status_simps)

lemma life_phase_ok:
  assumes "life L (r, Some a) (r', Some b)" and "row_ok r" and "attempt_ok L r a"
  shows "phase_ok L r' b"
  using assms(1)
proof (cases rule: life.cases)
  case (claimed lease deadline t h)
  with assms show ?thesis by (auto simp: row_ok_def queued_ok_def attempt_ok_def)
next
  case (bound h c)
  with assms(3) active_unsettled [of r L a] show ?thesis
    by (cases "a_phase a") (simp_all add: phase_ok_def attempt_ok_def)
next
  case (selected e v st)
  then show ?thesis
    by (cases "rc_state v = ''paused''") (auto simp: phase_ok_def selected_result_def)
next
  case (ended e v)
  then show ?thesis by (auto simp add: phase_ok_def)
qed (use assms(3) in \<open>auto simp: attempt_ok_def phase_ok_def status_simps split: compute_phase.splits\<close>)

lemma life_names_ok:
  assumes "life L (r, Some a) (r', Some b)" and "row_ok r" and "attempt_ok L r a"
  shows "a_job b = j_id r' \<and> intent_of L r' b \<and> j_fence r' = 1"
  using assms(1)
proof (cases rule: life.cases)
  case (claimed lease deadline t h)
  with assms show ?thesis by (auto simp: row_ok_def queued_ok_def attempt_ok_def)
qed (use assms(3) in \<open>auto simp: attempt_ok_def\<close>)

lemma life_handle_ok:
  assumes "life L (r, Some a) (r', Some b)" and "row_ok r" and "attempt_ok L r a"
  shows "\<forall>h. a_handle b = Some h \<longrightarrow> (\<exists>c. call_of L b h c \<and> j_provider_ref r' = Some (mc_call_id c))"
  using assms(1)
proof (cases rule: life.cases)
  case (claimed lease deadline t h)
  with assms show ?thesis by (auto simp: row_ok_def queued_ok_def attempt_ok_def)
next
  case (referenced ref)
  with assms(3) show ?thesis by (fastforce simp: attempt_ok_def)
qed (use assms(3) in \<open>auto simp: attempt_ok_def\<close>)

lemma life_first_attempt:
  assumes "life L (r, None) (r', Some b)" and "row_ok r"
  shows "attempt_ok L r' b"
  using assms(1)
proof (cases rule: life.cases)
  case intended
  with assms(2) show ?thesis
    by (simp add: attempt_ok_def phase_ok_def new_intent_def row_ok_def leased_ok_def status_simps)
qed simp_all

lemma life_attempt_ok:
  assumes "life L (r, Some a) (r', Some b)" and "row_ok r" and "attempt_ok L r a"
  shows "attempt_ok L r' b"
  unfolding attempt_ok_def
  using life_names_ok [OF assms] life_phase_ok [OF assms] life_handle_ok [OF assms] by blast

lemma life_cell_ok:
  assumes "life L (r, a) (r', b)" and "cell_ok L (r, a)"
  shows "cell_ok L (r', b)"
  using assms
  by (cases a; cases b)
    (auto simp: cell_ok_def intro: life_row_ok life_attempt_ok life_first_attempt)

section \<open>Looking up rows after an operation\<close>

lemma job_row_id: "job_row s i = Some r \<Longrightarrow> j_id r = i \<and> r \<in> set (jobs s)"
  by (auto simp: job_row_def dest: find_key_Some)

lemma find_update_where:
  "(\<And>r. key (f r) = key r) \<Longrightarrow>
   find (\<lambda>r. key r = k) (update_where P f rows) =
     map_option (\<lambda>r. if P r then f r else r) (find (\<lambda>r. key r = k) rows)"
  by (induction rows) auto

lemma job_row_touched:
  assumes "\<And>q. j_id (f q) = j_id q" and "jobs s' = update_where (\<lambda>r. j_id r = i) f (jobs s)"
  shows "job_row s' k = (if k = i then map_option f (job_row s i) else job_row s k)"
  using assms by (simp add: job_row_def find_key_update_same find_key_update_other)

lemma attempt_row_touched:
  assumes "\<And>q. a_job (g q) = a_job q" and "attempts s' = update_where (\<lambda>a. a_job a = i) g (attempts s)"
  shows "attempt_row s' k = (if k = i then map_option g (attempt_row s i) else attempt_row s k)"
  using assms by (simp add: attempt_row_def find_key_update_same find_key_update_other)

lemma live_eq_Inr [returned]:
  "live sha s i token now = Inr row \<longleftrightarrow>
     (\<exists>t lease. now = Finite t \<and> job_row s i = Some row \<and> j_status row = Running \<and>
        j_lease_until row = Some lease \<and> t < lease \<and> lease_matches sha row token)"
  by (auto simp: live_def split: pyfloat.splits option.splits if_splits)

lemma compute_fenced_eq_Inr [returned]:
  "compute_fenced sha s i token t fence = Inr row \<longleftrightarrow>
     job_row s i = Some row \<and> j_attempt_id row = Some t \<and> j_fence row = fence \<and> lease_matches sha row token"
  by (auto simp: compute_fenced_def split: option.splits if_splits)

section \<open>Every operation moves each job along its life\<close>

text \<open>
  \<open>advances L s s'\<close>: the jobs of \<open>s'\<close> are those of \<open>s\<close>, in order and on their terms, each
  of them made a move, at most one attempt is new, of a job that had none, and a job that
  turns active does so alone, when no job was.
  \<open>extends s s'\<close>: one queued job is new and nothing else changed.
\<close>

definition activates_alone :: "ops \<Rightarrow> ops \<Rightarrow> bool" where
  "activates_alone s s' \<longleftrightarrow>
     (\<forall>i r r'. job_row s i = Some r \<longrightarrow> job_row s' i = Some r' \<longrightarrow> is_active r' \<longrightarrow> is_active r \<or>
        \<not> list_ex is_active (jobs s) \<and> (\<forall>k. k \<noteq> i \<longrightarrow> job_row s' k = job_row s k))"

definition advances :: "stdlib \<Rightarrow> ops \<Rightarrow> ops \<Rightarrow> bool" where
  "advances L s s' \<longleftrightarrow>
     map job_terms (jobs s') = map job_terms (jobs s) \<and>
     (map a_job (attempts s') = map a_job (attempts s) \<or>
      (\<exists>a r. attempts s' = attempts s @ [a] \<and> attempt_row s (a_job a) = None \<and> job_row s (a_job a) = Some r)) \<and>
     (\<forall>i r. job_row s i = Some r \<longrightarrow>
        (\<exists>r'. job_row s' i = Some r' \<and> life L (r, attempt_row s i) (r', attempt_row s' i))) \<and>
     activates_alone s s'"

definition extends :: "ops \<Rightarrow> ops \<Rightarrow> bool" where
  "extends s s' \<longleftrightarrow>
     (\<exists>row. jobs s' = jobs s @ [row] \<and> attempts s' = attempts s \<and> job_row s (j_id row) = None \<and>
        j_request_key row \<notin> j_request_key ` set (jobs s) \<and> j_status row = Queued \<and> queued_ok row \<and>
        0 < j_reserved_units row)"

lemma advances_same: "jobs s' = jobs s \<Longrightarrow> attempts s' = attempts s \<Longrightarrow> advances L s s'"
  by (simp add: advances_def activates_alone_def job_row_def attempt_row_def life.stutter)

lemma job_terms_id: "job_terms (f q) = job_terms q \<Longrightarrow> j_id (f q) = j_id q"
  by (simp add: job_terms_def)

lemma advances_touch:
  assumes "job_row s i = Some r"
    and "\<And>q. job_terms (f q) = job_terms q" and "\<And>q. a_job (g q) = a_job q"
    and "jobs s' = update_where (\<lambda>r. j_id r = i) f (jobs s)"
    and "attempts s' = update_where (\<lambda>a. a_job a = i) g (attempts s)"
    and move: "life L (r, attempt_row s i) (f r, map_option g (attempt_row s i))"
    and "j_status r = Queued \<Longrightarrow> j_status (f r) = Running \<Longrightarrow> \<not> list_ex is_active (jobs s)"
  shows "advances L s s'"
  unfolding advances_def
proof (intro conjI allI impI)
  show "map job_terms (jobs s') = map job_terms (jobs s)"
    using assms(2) by (simp only: assms(4) map_update_where)
  show "map a_job (attempts s') = map a_job (attempts s) \<or>
      (\<exists>a r. attempts s' = attempts s @ [a] \<and> attempt_row s (a_job a) = None \<and> job_row s (a_job a) = Some r)"
    using assms(3) by (simp add: assms(5) map_update_where)
  fix k q
  assume "job_row s k = Some q"
  moreover have "j_id (f p) = j_id p" for p using assms(2) by (rule job_terms_id)
  ultimately show "\<exists>r'. job_row s' k = Some r' \<and> life L (q, attempt_row s k) (r', attempt_row s' k)"
    using assms job_row_touched [of f s' i s k] attempt_row_touched [OF assms(3,5)]
    by (auto intro: life.stutter)
next
  have "j_id (f p) = j_id p" for p using assms(2) by (rule job_terms_id)
  then show "activates_alone s s'"
    using job_row_touched [of f s' i s] assms(1,4,7) life_activation [OF move]
    by (auto simp: activates_alone_def)
qed

lemma advances_touch_job:
  assumes "job_row s i = Some r" and "\<And>q. job_terms (f q) = job_terms q"
    and "jobs s' = update_where (\<lambda>r. j_id r = i) f (jobs s)" and "attempts s' = attempts s"
    and "life L (r, attempt_row s i) (f r, attempt_row s i)"
    and "j_status r = Queued \<Longrightarrow> j_status (f r) = Running \<Longrightarrow> \<not> list_ex is_active (jobs s)"
  shows "advances L s s'"
  by (rule advances_touch [OF assms(1,2) _ assms(3), where g = "\<lambda>q. q"])
    (use assms in \<open>simp_all add: update_where_def option.map_ident\<close>)

lemma advances_touch_attempt:
  assumes "job_row s i = Some r" and "\<And>q. a_job (g q) = a_job q"
    and "jobs s' = jobs s" and "attempts s' = update_where (\<lambda>a. a_job a = i) g (attempts s)"
    and "life L (r, attempt_row s i) (r, map_option g (attempt_row s i))"
  shows "advances L s s'"
  by (rule advances_touch [OF assms(1) _ assms(2) _ assms(4), where f = "\<lambda>q. q"])
    (use assms in \<open>simp_all add: update_where_def\<close>)

text \<open>No column update of the ledger touches the terms.\<close>

lemma job_terms_update [simp]:
  "job_terms (r\<lparr>j_status := st\<rparr>) = job_terms r"
  "job_terms (r\<lparr>j_lease_hash := h\<rparr>) = job_terms r"
  "job_terms (r\<lparr>j_lease_until := u\<rparr>) = job_terms r"
  "job_terms (r\<lparr>j_provider_ref := p\<rparr>) = job_terms r"
  "job_terms (r\<lparr>j_result := e\<rparr>) = job_terms r"
  "job_terms (take_job sha token t lease deadline r) = job_terms r"
  by (simp_all add: job_terms_def take_job_def)

subsection \<open>The job operations\<close>

lemma enqueue_returned:
  assumes "enqueue fresh clock kind inp key ms ru bl given s = Inr (s', x)"
  obtains (again) old where "s' = s" "x = j_id old" "find (\<lambda>r. j_request_key r = key) (jobs s) = Some old"
  | (added) row where "jobs s' = jobs s @ [row]" "attempts s' = attempts s" "x = fresh" "j_id row = fresh"
      "j_request_key row = key" "job_row s fresh = None" "find (\<lambda>r. j_request_key r = key) (jobs s) = None"
      "j_status row = Queued" "queued_ok row" "ru = JInt (j_reserved_units row)" "0 < j_reserved_units row"
      "reserved_total s + j_reserved_units row \<le> json_int bl"
proof (cases "find (\<lambda>r. j_request_key r = key) (jobs s)")
  case (Some old)
  with assms show thesis
    by (intro again [of old]) (auto simp: enqueue_def Let_def and_then_eq_Inr split: if_splits)
next
  case None
  from assms obtain opts where "\<not> (key = [] \<or> \<not> positive_int ru \<or> \<not> positive_int bl)"
    and body: "(if json_int bl < reserved_total s + json_int ru
      then Inl (BoundaryError ''hub'' ''budget_exhausted'')
      else if job_row s fresh \<noteq> None then Inl IntegrityError
      else Inr (record_event clock ''admin'' ''job_enqueued'' fresh (JObj [(''input_id'', JStr inp)])
              (s\<lparr>jobs := jobs s @ [\<lparr>j_id = fresh, j_request_key = key, j_kind = kind,
                 j_input_id = inp, j_max_seconds = json_int ms, j_reserved_units = json_int ru,
                 j_status = Queued, j_fence = 0, j_attempt_id = None, j_lease_hash = None,
                 j_lease_until = None, j_deadline = None, j_provider_ref = None, j_result = None,
                 j_options = sort_keys (JObj opts)\<rparr>]\<rparr>), fresh)) = (Inr (s', x) :: (ops \<times> string) result)"
    unfolding enqueue_def Let_def and_then_eq_Inr if_raise_eq_Inr None option.case by blast
  moreover from this(1) obtain n where "ru = JInt n" "0 < n"
    by (auto simp: positive_int_def split: json.splits)
  ultimately show thesis
    using None by (intro added) (auto simp: json_int_def queued_ok_def split: if_splits)
qed

lemma enqueue_extends:
  assumes "enqueue fresh clock kind inp key ms ru bl given s = Inr (s', x)"
  shows "s' = s \<or> extends s s' \<and> reserved_total s' \<le> json_int bl"
  using assms
proof (cases rule: enqueue_returned)
  case (added row)
  then have "reserved_total s' = reserved_total s + j_reserved_units row"
    by (simp add: reserved_total_def)
  moreover have "key \<notin> j_request_key ` set (jobs s)"
    using added(7) by (auto simp: find_None_iff)
  ultimately show ?thesis
    using added by (auto simp: extends_def)
qed simp

lemma take_job_sel [simp]:
  "j_id (take_job sha token t lease deadline r) = j_id r"
  "j_status (take_job sha token t lease deadline r) = Running"
  by (simp_all add: take_job_def)

lemma claim_returned:
  assumes "claim sha token t clock owner now ls s = Inr (s', x)"
  obtains (idle) "s' = s" "x = None"
  | (taken) row lease where "setting_paused s = Inr False" "\<not> list_ex is_active (jobs s)"
      "find (\<lambda>r. j_status r = Queued) (jobs s) = Some row" "lease \<le> job_deadline now row"
      "s' = record_event clock owner ''job_claimed'' (j_id row) (JObj [(''attempt_id'', JStr t)])
         (update_job (j_id row) (take_job sha token t lease (job_deadline now row)) s)"
      "x = Some ((take_job sha token t lease (job_deadline now row) row)\<lparr>j_lease_hash := None\<rparr>, token)"
proof -
  have lease: "granted_lease now ls d \<le> d" for d by (simp add: granted_lease_def)
  show thesis
    using assms
    by (cases "setting_paused s"; cases "find (\<lambda>r. j_status r = Queued) (jobs s)")
      (auto simp: claim_def Let_def split: if_splits intro: idle taken [OF _ _ _ lease])
qed

lemma claim_advances:
  assumes "claim sha token t clock owner now ls s = Inr (s', x)" and "distinct (map j_id (jobs s))"
  shows "advances L s s'"
  using assms(1)
proof (cases rule: claim_returned)
  case idle
  then show ?thesis by (simp add: advances_same)
next
  case (taken row lease)
  then have "row \<in> set (jobs s)" and queued: "j_status row = Queued"
    by (auto simp: find_Some_iff)
  with assms(2) have row: "job_row s (j_id row) = Some row"
    by (simp add: job_row_def find_key_distinct)
  have "life L (row, a) (take_job sha token t lease (job_deadline now row) row, a)" for a
    unfolding take_job_def using queued taken(4) by (rule life.claimed)
  then show ?thesis
    by (intro advances_touch_job [OF row, where f = "take_job sha token t lease (job_deadline now row)"])
      (simp_all add: taken(2,5) update_job_def)
qed

lemma heartbeat_advances:
  assumes "heartbeat sha i token now ls s = Inr (s', x)"
  shows "advances L s s'"
proof -
  from assms obtain row deadline where row: "job_row s i = Some row" "j_status row = Running"
      "j_deadline row = Some deadline"
    and s': "s' = update_job i (\<lambda>r. r\<lparr>j_lease_until := Some (granted_lease now ls deadline)\<rparr>) s"
    by (auto simp: heartbeat_def and_then_eq_Inr live_eq_Inr split: if_splits option.splits)
  show ?thesis
    by (rule advances_touch_job
        [OF row(1), where f = "\<lambda>r. r\<lparr>j_lease_until := Some (granted_lease now ls deadline)\<rparr>"])
      (use row s' in \<open>auto simp: update_job_def granted_lease_def intro!: life.renewed\<close>)
qed

lemma submitted_advances:
  assumes "submitted sha i token ref now s = Inr (s', x)"
  shows "advances L s s'"
proof -
  from assms obtain row where row: "job_row s i = Some row" "j_status row = Running"
      "j_provider_ref row \<in> {None, Some ref}"
    and s': "s' = update_job i (\<lambda>r. r\<lparr>j_provider_ref := Some ref\<rparr>) s"
    by (auto simp: submitted_def and_then_eq_Inr live_eq_Inr split: if_splits)
  show ?thesis
    by (rule advances_touch_job [OF row(1), where f = "\<lambda>r. r\<lparr>j_provider_ref := Some ref\<rparr>"])
      (use row s' in \<open>auto simp: update_job_def intro: life.referenced\<close>)
qed

text \<open>A job alone turns doubtful when its attempt, if any, keeps its last error.\<close>

lemma life_doubted: "is_active r \<Longrightarrow> j_status r \<noteq> Cancelling \<Longrightarrow> st \<in> {SubmissionUnknown, Uncertain} \<Longrightarrow>
  life L (r, a) (r\<lparr>j_status := st\<rparr>, a)"
proof (cases a)
  case (Some b)
  assume "is_active r" "j_status r \<noteq> Cancelling" "st \<in> {SubmissionUnknown, Uncertain}"
  from life.doubted [OF this, of L a "a_last_error b"] Some show ?thesis by simp
qed (use life.doubted [of r st L None] in simp)

lemma submission_unknown_advances:
  assumes "submission_unknown sha clock i token now s = Inr (s', x)"
  shows "advances L s s'"
proof -
  from assms obtain row where row: "job_row s i = Some row" "j_status row = Running"
    and s': "jobs s' = update_where (\<lambda>r. j_id r = i) (\<lambda>r. r\<lparr>j_status := SubmissionUnknown\<rparr>) (jobs s)"
      "attempts s' = attempts s"
    by (auto simp: submission_unknown_def and_then_eq_Inr live_eq_Inr update_job_def)
  show ?thesis
    by (rule advances_touch_job [OF row(1) _ s']) (use row(2) in \<open>auto simp: status_simps intro: life_doubted\<close>)
qed

lemma expire_advances:
  assumes "expire now s = Inr (s', n)"
  shows "advances L s s'"
proof -
  from assms obtain t where now: "now = Finite t"
    and s': "s' = s\<lparr>jobs := update_where (lease_expired t) (\<lambda>r. r\<lparr>j_status := Uncertain\<rparr>) (jobs s)\<rparr>"
    by (auto simp: expire_def split: pyfloat.splits)
  have terms: "map job_terms (jobs s') = map job_terms (jobs s)"
    unfolding s' by (simp add: map_update_where)
  have row: "job_row s' i =
      map_option (\<lambda>r. if lease_expired t r then r\<lparr>j_status := Uncertain\<rparr> else r) (job_row s i)" for i
    by (simp add: s' job_row_def find_update_where)
  have moved: "life L (r, a) (if lease_expired t r then r\<lparr>j_status := Uncertain\<rparr> else r, a)" for r a
    by (auto simp: lease_expired_def status_simps intro: life.stutter life_doubted)
  have "attempt_row s' i = attempt_row s i" "attempts s' = attempts s" for i
    by (simp_all add: s' attempt_row_def)
  moreover have "activates_alone s s'"
    by (auto simp: activates_alone_def row lease_expired_def status_simps)
  ultimately show ?thesis using moved terms by (simp only: advances_def row) auto
qed

lemma complete_advances:
  assumes "complete sha clock i token outcome now s = Inr (s', x)"
  shows "advances L s s'"
proof (cases "s' = s")
  case True
  then show ?thesis by (simp add: advances_same)
next
  case False
  with assms obtain row where row: "job_row s i = Some row" "j_status row = Running"
    and s': "jobs s' = update_where (\<lambda>r. j_id r = i)
        (\<lambda>r. r\<lparr>j_status := Completed, j_result := Some (sort_keys outcome)\<rparr>) (jobs s)"
      "attempts s' = attempts s"
    by (auto simp: complete_def Let_def and_then_eq_Inr live_eq_Inr update_job_def split: option.splits if_splits)
  show ?thesis
    by (rule advances_touch_job [OF row(1) _ s']) (use row(2) in \<open>auto intro: life.worked\<close>)
qed

lemma cancel_advances:
  assumes "cancel clock i s = Inr (s', x)"
  shows "advances L s s'"
proof -
  from assms obtain row where row: "job_row s i = Some row"
    and body: "terminal (j_status row) \<and> s' = s \<or> \<not> terminal (j_status row) \<and>
      jobs s' = update_where (\<lambda>r. j_id r = i)
        (\<lambda>r. r\<lparr>j_status := if j_status row = Queued then Cancelled else Cancelling\<rparr>) (jobs s) \<and>
      attempts s' = attempts s"
    by (auto simp: cancel_def update_job_def terminal_def split: option.splits if_splits)
  have move: "\<not> terminal (j_status row) \<Longrightarrow> life L (row, a)
      (row\<lparr>j_status := if j_status row = Queued then Cancelled else Cancelling\<rparr>, a)" for a
    by (cases "j_status row") (auto simp: status_simps intro: life.withdrawn life.stopping)
  from body show ?thesis
  proof (elim disjE conjE)
    assume "\<not> terminal (j_status row)"
      and s': "jobs s' = update_where (\<lambda>r. j_id r = i)
        (\<lambda>r. r\<lparr>j_status := if j_status row = Queued then Cancelled else Cancelling\<rparr>) (jobs s)"
        "attempts s' = attempts s"
    with row move show ?thesis by (intro advances_touch_job [OF row _ s']) auto
  qed (simp add: advances_same)
qed

lemma reconcile_advances:
  assumes "reconcile_stopped clock i evidence requeue s = Inr (s', x)"
  shows "advances L s s'"
proof -
  from assms obtain row where row: "job_row s i = Some row"
      "j_status row \<in> {Uncertain, SubmissionUnknown, Cancelling}"
    and s': "jobs s' = update_where (\<lambda>r. j_id r = i) (\<lambda>r. r\<lparr>j_status :=
        if j_status row = Cancelling then Cancelled else Failed, j_lease_hash := None\<rparr>) (jobs s)"
      "attempts s' = attempts s"
    by (auto simp: reconcile_stopped_def update_job_def Let_def split: option.splits if_splits)
  show ?thesis
    by (rule advances_touch_job [OF row(1) _ s']) (use row(2) in \<open>auto simp: status_simps intro: life.stopped\<close>)
qed

lemma pause_advances: "pause clock flag s = Inr (s', x) \<Longrightarrow> advances L s s'"
  by (auto simp: pause_def Let_def split: if_splits intro: advances_same)

subsection \<open>The compute operations\<close>

lemma recover_advances:
  assumes "recover_compute sha token clock i t fence now s = Inr (s', x)"
  shows "advances L s s'"
proof -
  from assms obtain clock_t row st where row: "job_row s i = Some row" "is_active row"
      "recovered_status row clock_t = Inr st"
    and s': "jobs s' = update_where (\<lambda>r. j_id r = i)
        (\<lambda>r. r\<lparr>j_lease_hash := Some (token_hash sha token), j_status := st\<rparr>) (jobs s)"
      "attempts s' = attempts s"
    by (auto simp: recover_compute_def Let_def and_then_eq_Inr update_job_def
        split: pyfloat.splits option.splits if_splits)
  from row(3) have "st = j_status row \<or> j_status row = Running \<and> st = Uncertain"
    by (auto simp: recovered_status_def split: if_splits option.splits)
  with row(2) show ?thesis
    by (intro advances_touch_job [OF row(1) _ s']) (auto intro: life.handed_over)
qed

lemma prepare_returned:
  assumes "prepare_compute L clock i token request target now s = Inr (s', x)"
  obtains (again) prior where "s' = s" "\<not> x" "attempt_row s i = Some prior"
      "a_request prior = sort_keys request" "a_target_id prior = target"
  | (fresh) q row where "x" "attempt_row s i = None" "job_row s i = Some row" "j_status row = Running"
      "decode_request L request = Inr q" "Some (rq_attempt_id q) = j_attempt_id row"
      "rq_input_id q = j_input_id row" "jobs s' = jobs s"
      "attempts s' = attempts s @ [submission_intent L i q row (sort_keys request) target]"
proof -
  from assms obtain q row named where q: "decode_request L request = Inr q"
    and row: "job_row s i = Some row" "j_status row = Running"
    and named: "request_names_job q row = Inr named" "\<not> \<not> named"
    and body: "(case attempt_row s i of
            Some prior \<Rightarrow>
              if (a_request prior, a_target_id prior, a_fence prior) \<noteq> (sort_keys request, target, j_fence row)
              then Inl (BoundaryError ''hub'' ''compute_request_conflict'')
              else Inr (s, False)
          | None \<Rightarrow>
              Inr (record_event clock ''scheduler'' ''compute_submission_intent'' i
                     (JObj [(''request_id'', JStr (request_id L q)), (''target_id'', JStr target)])
                     (s\<lparr>attempts := attempts s @ [submission_intent L i q row (sort_keys request) target]\<rparr>),
                   True)) = Inr (s', x)"
    unfolding prepare_compute_def Let_def and_then_eq_Inr if_raise_eq_Inr live_eq_Inr by blast
  from named have "Some (rq_attempt_id q) = j_attempt_id row" "rq_input_id q = j_input_id row"
    by (auto simp: request_names_job_def split: if_splits)
  with body q row show thesis
    by (auto split: option.splits if_splits intro: again fresh)
qed

lemma attempt_row_append:
  "attempts s' = attempts s @ [a] \<Longrightarrow> attempt_row s (a_job a) = None \<Longrightarrow>
   attempt_row s' k = (if k = a_job a then Some a else attempt_row s k)"
  by (auto simp: attempt_row_def find_append split: option.splits)

lemma prepare_advances:
  assumes "prepare_compute L clock i token request target now s = Inr (s', x)"
  shows "advances L s s'"
  using assms
proof (cases rule: prepare_returned)
  case again
  then show ?thesis by (simp add: advances_same)
next
  case (fresh q row)
  let ?a = "submission_intent L i q row (sort_keys request) target"
  have a: "a_job ?a = i" by (simp add: submission_intent_def)
  have look: "attempt_row s' k = (if k = i then Some ?a else attempt_row s k)" for k
    using attempt_row_append [of s' s ?a k] fresh a by simp
  have "intent_of L row ?a" "new_intent ?a"
    using fresh by (auto simp: intent_of_def new_intent_def submission_intent_def decode_request_kept)
  then have "life L (row, None) (row, Some ?a)"
    using fresh a job_row_id [OF fresh(3)] by (intro life.intended) auto
  moreover have "job_row s' k = job_row s k" for k by (simp add: job_row_def fresh)
  ultimately show ?thesis
    using fresh by (auto simp: advances_def activates_alone_def look a intro: life.stutter)
qed

lemma bind_advances:
  assumes "bind_compute_handle L clock i token t fence handle s = Inr (s', x)"
    and cells: "\<And>r a. job_row s i = Some r \<Longrightarrow> attempt_row s i = Some a \<Longrightarrow> a_attempt_id a = t"
  shows "advances L s s'"
proof -
  from assms(1) obtain c row a where c: "decode_call L handle = Inr c"
    and row: "job_row s i = Some row" "\<not> \<not> is_active row" and a: "attempt_row s i = Some a"
    and names: "\<not> (a_request_id a \<noteq> request_id L (mc_request c) \<or> a_target_id a \<noteq> mc_target_id c \<or>
        rq_attempt_id (mc_request c) \<noteq> t)" "\<not> a_handle a \<notin> {None, Some (sort_keys handle)}"
    and tables: "Inr (record_event clock ''scheduler'' ''compute_handle_bound'' i
        (JObj [(''request_id'', JStr (request_id L (mc_request c))),
               (''provider_ref'', JStr (mc_call_id c))])
        (update_job i (\<lambda>r. r\<lparr>j_provider_ref := Some (mc_call_id c)\<rparr>)
          (update_attempt i (\<lambda>a. a\<lparr>a_handle := Some (sort_keys handle), a_phase := Submitted\<rparr>) s)),
        ()) = (Inr (s', x) :: (ops \<times> unit) result)"
    unfolding bind_compute_handle_def Let_def and_then_eq_Inr if_raise_eq_Inr option_raise_eq_Inr
      compute_fenced_eq_Inr by blast
  from tables have s': "jobs s' = update_where (\<lambda>r. j_id r = i)
        (\<lambda>r. r\<lparr>j_provider_ref := Some (mc_call_id c)\<rparr>) (jobs s)"
      "attempts s' = update_where (\<lambda>a. a_job a = i)
        (\<lambda>a. a\<lparr>a_handle := Some (sort_keys handle), a_phase := Submitted\<rparr>) (attempts s)"
    by (auto simp: update_job_def update_attempt_def)
  have "call_of L a (sort_keys handle) c"
    using names cells [OF row(1) a] decode_call_kept [OF c] by (simp add: call_of_def)
  with row a names show ?thesis
    by (intro advances_touch [OF row(1) _ _ s']) (auto intro: life.bound)
qed

lemma uncertain_advances:
  assumes "compute_uncertain sha clock i token t fence code s = Inr (s', x)"
  shows "advances L s s'"
proof -
  from assms obtain row where row: "job_row s i = Some row" and act: "is_active row"
    and body: "s' = s \<or>
      jobs s' = update_where (\<lambda>r. j_id r = i)
        (\<lambda>r. r\<lparr>j_status := uncertain_status row (attempt_row s i)\<rparr>) (jobs s) \<and>
      (attempt_row s i = None \<and> attempts s' = attempts s \<or>
       attempts s' = update_where (\<lambda>a. a_job a = i) (\<lambda>a. a\<lparr>a_last_error := Some code\<rparr>) (attempts s))"
    by (auto simp: compute_uncertain_def Let_def and_then_eq_Inr compute_fenced_eq_Inr
        update_job_def update_attempt_def split: option.splits if_splits)
  let ?st = "uncertain_status row (attempt_row s i)"
  have move: "life L (row, a) (row\<lparr>j_status := ?st\<rparr>, map_option (\<lambda>a. a\<lparr>a_last_error := e\<rparr>) a)" for a e
  proof (cases "j_status row = Cancelling")
    case True
    then have "row\<lparr>j_status := ?st\<rparr> = row" by (simp add: uncertain_status_def)
    with act show ?thesis by (simp add: life.reported)
  next
    case False
    with act show ?thesis by (intro life.doubted) (auto simp: uncertain_status_def)
  qed
  from body show ?thesis
  proof (elim disjE conjE)
    assume "attempt_row s i = None" "attempts s' = attempts s"
      "jobs s' = update_where (\<lambda>r. j_id r = i) (\<lambda>r. r\<lparr>j_status := ?st\<rparr>) (jobs s)"
    then show ?thesis
      using move [of None] act
      by (intro advances_touch_job [OF row, where f = "\<lambda>r. r\<lparr>j_status := ?st\<rparr>"])
        (auto simp: status_simps)
  next
    assume "jobs s' = update_where (\<lambda>r. j_id r = i) (\<lambda>r. r\<lparr>j_status := ?st\<rparr>) (jobs s)"
      "attempts s' = update_where (\<lambda>a. a_job a = i) (\<lambda>a. a\<lparr>a_last_error := Some code\<rparr>) (attempts s)"
    then show ?thesis
      using move act by (intro advances_touch [OF row, where f = "\<lambda>r. r\<lparr>j_status := ?st\<rparr>"
          and g = "\<lambda>a. a\<lparr>a_last_error := Some code\<rparr>"])
        (auto simp: status_simps)
  qed (simp add: advances_same)
qed

lemma fail_before_advances:
  assumes "fail_before_compute sha clock i token code now s = Inr (s', x)"
  shows "advances L s s'"
proof -
  from assms obtain row where row: "job_row s i = Some row" "j_status row = Running"
      "j_provider_ref row = None" "attempt_row s i = None"
    and s': "jobs s' = update_where (\<lambda>r. j_id r = i) (\<lambda>r. r\<lparr>j_status := Failed,
        j_result := Some (JObj [(''stage'', JStr ''preflight''), (''code'', JStr code)])\<rparr>) (jobs s)"
      "attempts s' = attempts s"
    by (auto simp: fail_before_compute_def and_then_eq_Inr live_eq_Inr update_job_def split: if_splits)
  from row show ?thesis
    by (intro advances_touch_job [OF row(1) _ s']) (auto intro: life.rejected)
qed

lemma accept_returned:
  assumes "accept_compute L clock i token t fence receipt cancelled s = Inr (s', x)"
  obtains (again) "s' = s"
  | (settled) v row a where "decode_receipt L receipt = Inr v" "job_row s i = Some row"
      "attempt_row s i = Some a" "a_handle a \<noteq> None" "a_attempt_id a = t" "a_fence a = fence"
      "receipt_of L a (sort_keys receipt) v" "acceptable cancelled row"
      "jobs s' = update_where (\<lambda>r. j_id r = i) (\<lambda>r. r\<lparr>j_status := accepted_status cancelled v,
         j_result := Some (selected_result cancelled v (sort_keys receipt))\<rparr>) (jobs s)"
      "attempts s' = update_where (\<lambda>a. a_job a = i) (\<lambda>a. a\<lparr>a_phase :=
         Settled (accepted_status cancelled v), a_receipt := Some (sort_keys receipt)\<rparr>) (attempts s)"
proof -
  let ?put = "\<lambda>v. record_event clock ''scheduler'' (''compute_'' @ status_word (accepted_status cancelled v)) i receipt
    (update_attempt i (\<lambda>a. a\<lparr>a_phase := Settled (accepted_status cancelled v),
       a_receipt := Some (sort_keys receipt)\<rparr>)
      (update_job i (\<lambda>r. r\<lparr>j_status := accepted_status cancelled v,
          j_result := Some (selected_result cancelled v (sort_keys receipt))\<rparr>) s))"
  from assms obtain v row a q u where v: "decode_receipt L receipt = Inr v"
    and row: "job_row s i = Some row" and a: "attempt_row s i = Some a"
      "\<not> (a_handle a = None \<or> a_attempt_id a \<noteq> t \<or> a_fence a \<noteq> fence)"
    and q: "decode_request L (a_request a) = Inr q" "bind_receipt L v q = Inr u"
    and body: "(if j_status row = accepted_status cancelled v \<and> a_receipt a = Some (sort_keys receipt)
      then Inr (s, ()) else if \<not> acceptable cancelled row then Inl stale_attempt
      else Inr (?put v, ())) = Inr (s', x)"
    unfolding accept_compute_def Let_def and_then_eq_Inr option_raise_eq_Inr
      compute_fenced_eq_Inr if_raise_eq_Inr by blast
  show thesis
  proof (cases "j_status row = accepted_status cancelled v \<and> a_receipt a = Some (sort_keys receipt)")
    case True
    with body show thesis by (intro again) simp
  next
    case False
    with body have "acceptable cancelled row" "s' = ?put v"
      by (auto split: if_splits)
    moreover have "receipt_of L a (sort_keys receipt) v"
      using q decode_receipt_kept [OF v] by (auto simp: receipt_of_def)
    ultimately show thesis
      using v row a by (intro settled [of v row a]) (simp_all add: update_job_def update_attempt_def)
  qed
qed

lemma accept_advances:
  assumes "accept_compute L clock i token t fence receipt cancelled s = Inr (s', x)"
  shows "advances L s s'"
  using assms
proof (cases rule: accept_returned)
  case again
  then show ?thesis by (simp add: advances_same)
next
  case (settled v row a)
  show ?thesis
    by (rule advances_touch [OF settled(2) _ _ settled(9,10)])
      (use settled in \<open>auto simp: acceptable_def accepted_status_def selected_result_def
        intro: life.selected life.ended [unfolded selected_result_def, simplified] split: if_splits\<close>)
qed

lemma begin_cancel_returned:
  assumes "begin_compute_cancel sha clock i token t fence s = Inr (s', x)"
  obtains row a where "job_row s i = Some row" "j_status row = Cancelling" "attempt_row s i = Some a"
    "jobs s' = jobs s"
    "x \<and> a_cancel_state a = None \<and>
       attempts s' = update_where (\<lambda>a. a_job a = i) (\<lambda>a. a\<lparr>a_cancel_state := Some Requested\<rparr>) (attempts s) \<or>
     \<not> x \<and> a_cancel_state a \<noteq> None \<and> s' = s"
proof -
  from assms obtain row a where row: "job_row s i = Some row" and a: "attempt_row s i = Some a"
    and cancelling: "\<not> (j_status row \<noteq> Cancelling \<or> a_handle a = None)"
    and body: "(if a_cancel_state a \<noteq> None then Inr (s, False)
      else Inr (record_event clock ''scheduler'' ''compute_cancel_requested'' i (JObj [])
             (update_attempt i (\<lambda>a. a\<lparr>a_cancel_state := Some Requested\<rparr>) s), True)) = (Inr (s', x) :: (ops \<times> bool) result)"
    unfolding begin_compute_cancel_def and_then_eq_Inr compute_fenced_eq_Inr option_raise_eq_Inr
      if_raise_eq_Inr by (elim exE conjE) (rule that)
  with body show thesis
    by (intro that [of row a]) (auto simp: update_attempt_def split: if_splits)
qed

lemma begin_cancel_advances:
  assumes "begin_compute_cancel sha clock i token t fence s = Inr (s', x)"
  shows "advances L s s'"
proof -
  from assms obtain row where row: "job_row s i = Some row" "j_status row = Cancelling"
    and body: "s' = s \<or> jobs s' = jobs s \<and>
      attempts s' = update_where (\<lambda>a. a_job a = i) (\<lambda>a. a\<lparr>a_cancel_state := Some Requested\<rparr>) (attempts s)"
    by (rule begin_cancel_returned) auto
  from body show ?thesis
  proof
    assume "jobs s' = jobs s \<and>
      attempts s' = update_where (\<lambda>a. a_job a = i) (\<lambda>a. a\<lparr>a_cancel_state := Some Requested\<rparr>) (attempts s)"
    with row(2) show ?thesis
      by (intro advances_touch_attempt [OF row(1), where g = "\<lambda>a. a\<lparr>a_cancel_state := Some Requested\<rparr>"])
        (auto intro: life.cancel_noted)
  qed (simp add: advances_same)
qed

lemma record_cancel_advances:
  assumes "record_compute_cancel sha clock i token t fence ack s = Inr (s', x)"
  shows "advances L s s'"
proof -
  from assms obtain row c where row: "job_row s i = Some row" "j_status row = Cancelling"
    and s': "jobs s' = jobs s"
      "attempts s' = update_where (\<lambda>a. a_job a = i) (\<lambda>a. a\<lparr>a_cancel_state := Some c\<rparr>) (attempts s)"
    by (auto simp: record_compute_cancel_def Let_def and_then_eq_Inr compute_fenced_eq_Inr update_attempt_def
        split: if_splits)
  from row show ?thesis
    by (intro advances_touch_attempt [OF row(1) _ s']) (auto intro: life.cancel_noted)
qed

section \<open>Steps and reachable ledgers\<close>

text \<open>
  One committed transaction. \<open>B\<close> bounds the budget limits the administrators pass to
  \<open>enqueue\<close>; \<open>elsewhere\<close> stands for every operation on the other tables, the pause switch
  included.
\<close>

inductive ledger_step :: "stdlib \<Rightarrow> int \<Rightarrow> ops \<Rightarrow> ops \<Rightarrow> bool" for L B where
  enqueued: "enqueue fresh clock kind inp key ms ru bl given s = Inr (s', j) \<Longrightarrow> json_int bl \<le> B \<Longrightarrow>
    ledger_step L B s s'"
| claimed: "claim (sha256 L) token t clock owner now ls s = Inr (s', w) \<Longrightarrow> ledger_step L B s s'"
| renewed: "heartbeat (sha256 L) i token now ls s = Inr (s', u) \<Longrightarrow> ledger_step L B s s'"
| referenced: "submitted (sha256 L) i token ref now s = Inr (s', u) \<Longrightarrow> ledger_step L B s s'"
| lost: "submission_unknown (sha256 L) clock i token now s = Inr (s', u) \<Longrightarrow> ledger_step L B s s'"
| expired: "expire now s = Inr (s', n) \<Longrightarrow> ledger_step L B s s'"
| completed: "complete (sha256 L) clock i token outcome now s = Inr (s', u) \<Longrightarrow> ledger_step L B s s'"
| cancelled: "cancel clock i s = Inr (s', u) \<Longrightarrow> ledger_step L B s s'"
| reconciled: "reconcile_stopped clock i evidence requeue s = Inr (s', u) \<Longrightarrow> ledger_step L B s s'"
| recovered: "recover_compute (sha256 L) token clock i t' fence now s = Inr (s', w') \<Longrightarrow> ledger_step L B s s'"
| prepared: "prepare_compute L clock i token request target now s = Inr (s', b) \<Longrightarrow> ledger_step L B s s'"
| bound: "bind_compute_handle L clock i token t fence handle s = Inr (s', u) \<Longrightarrow> ledger_step L B s s'"
| doubted: "compute_uncertain (sha256 L) clock i token t fence code s = Inr (s', u) \<Longrightarrow> ledger_step L B s s'"
| rejected: "fail_before_compute (sha256 L) clock i token code now s = Inr (s', u) \<Longrightarrow> ledger_step L B s s'"
| accepted: "accept_compute L clock i token t fence receipt c s = Inr (s', u) \<Longrightarrow> ledger_step L B s s'"
| cancelling: "begin_compute_cancel (sha256 L) clock i token t fence s = Inr (s', b) \<Longrightarrow> ledger_step L B s s'"
| noted: "record_compute_cancel (sha256 L) clock i token t fence ack s = Inr (s', u) \<Longrightarrow> ledger_step L B s s'"
| elsewhere: "jobs s' = jobs s \<Longrightarrow> attempts s' = attempts s \<Longrightarrow> ledger_step L B s s'"

definition at_most_one_active :: "ops \<Rightarrow> bool" where
  "at_most_one_active s \<longleftrightarrow>
     (\<forall>i j r q. job_row s i = Some r \<longrightarrow> job_row s j = Some q \<longrightarrow> is_active r \<longrightarrow> is_active q \<longrightarrow> i = j)"

definition ledger_keyed :: "ops \<Rightarrow> bool" where
  "ledger_keyed s \<longleftrightarrow> distinct (map j_id (jobs s)) \<and> distinct (map j_request_key (jobs s)) \<and>
     distinct (map a_job (attempts s))"

definition cells_ok :: "stdlib \<Rightarrow> ops \<Rightarrow> bool" where
  "cells_ok L s \<longleftrightarrow>
     (\<forall>i r. job_row s i = Some r \<longrightarrow> cell_ok L (r, attempt_row s i)) \<and>
     (\<forall>i a. attempt_row s i = Some a \<longrightarrow> job_row s i \<noteq> None)"

definition ledger_ok :: "stdlib \<Rightarrow> int \<Rightarrow> ops \<Rightarrow> bool" where
  "ledger_ok L B s \<longleftrightarrow> ledger_keyed s \<and> at_most_one_active s \<and> cells_ok L s \<and>
     reserved_total s \<le> B \<and> (\<forall>r \<in> set (jobs s). 0 < j_reserved_units r)"

lemma cells_ok_attempt:
  "cells_ok L s \<Longrightarrow> attempt_row s i = Some a \<Longrightarrow> \<exists>r. job_row s i = Some r \<and> attempt_ok L r a"
  by (auto simp: cells_ok_def cell_ok_def) (metis option.simps(5) snd_conv fst_conv not_None_eq)

lemma fenced_attempt_id:
  assumes "cells_ok L s" and "compute_fenced sha s i token t fence = Inr row" and "attempt_row s i = Some a"
  shows "a_attempt_id a = t"
  using cells_ok_attempt [OF assms(1,3)] assms(2)
  by (auto simp: compute_fenced_eq_Inr attempt_ok_def intent_of_def)

text \<open>The refinement: a step extends the queue or moves every job along its life.\<close>

lemma bind_advances_ok:
  assumes "bind_compute_handle L clock i token t fence handle s = Inr (s', x)" and "cells_ok L s"
  shows "advances L s s'"
proof (rule bind_advances [OF assms(1)])
  fix r a
  assume "job_row s i = Some r" and a: "attempt_row s i = Some a"
  from assms(1) obtain row where "compute_fenced (sha256 L) s i token t fence = Inr row"
    unfolding bind_compute_handle_def Let_def and_then_eq_Inr by blast
  then show "a_attempt_id a = t" using a by (rule fenced_attempt_id [OF assms(2)])
qed

lemmas operation_advances =
  claim_advances heartbeat_advances submitted_advances submission_unknown_advances expire_advances
  complete_advances cancel_advances reconcile_advances recover_advances prepare_advances
  bind_advances_ok uncertain_advances fail_before_advances accept_advances begin_cancel_advances
  record_cancel_advances advances_same

lemma ledger_step_cases:
  assumes "ledger_step L B s s'" and "ledger_keyed s" and "cells_ok L s"
  shows "advances L s s' \<or> extends s s' \<and> reserved_total s' \<le> B"
  using assms
proof (cases rule: ledger_step.cases)
  case (enqueued fresh clock kind inp key ms ru bl given j)
  with enqueue_extends [OF enqueued(1)] show ?thesis by (auto intro: advances_same)
qed (auto simp: ledger_keyed_def intro: operation_advances)

section \<open>The invariant along a history\<close>

lemma advances_column:
  assumes "advances L s s'"
  shows "map (\<lambda>r. h (job_terms r)) (jobs s') = map (\<lambda>r. h (job_terms r)) (jobs s)"
proof -
  have "map job_terms (jobs s') = map job_terms (jobs s)" using assms by (simp add: advances_def)
  from arg_cong [OF this, of "map h"] show ?thesis by (simp add: comp_def)
qed

lemma advances_rows:
  assumes "advances L s s'" and "job_row s' i = Some r'"
  shows "\<exists>r. job_row s i = Some r \<and> life L (r, attempt_row s i) (r', attempt_row s' i)"
proof -
  have "map j_id (jobs s') = map j_id (jobs s)"
    using advances_column [OF assms(1), of fst] by (simp add: job_terms_def)
  then obtain r where r: "job_row s i = Some r"
    using assms(2) by (metis find_None_key job_row_def option.distinct(1) option.exhaust)
  with assms(1) obtain q where "job_row s' i = Some q" "life L (r, attempt_row s i) (q, attempt_row s' i)"
    unfolding advances_def by blast
  with r assms(2) show ?thesis by auto
qed

lemma advances_ok:
  assumes "advances L s s'" and "ledger_ok L B s"
  shows "ledger_ok L B s'"
proof -
  note columns = advances_column [OF assms(1)]
  have ids: "map j_id (jobs s') = map j_id (jobs s)"
    using columns [of fst] by (simp add: job_terms_def)
  have keys: "map j_request_key (jobs s') = map j_request_key (jobs s)"
    using columns [of "\<lambda>t. fst (snd t)"] by (simp add: job_terms_def)
  have units: "map j_reserved_units (jobs s') = map j_reserved_units (jobs s)"
    using columns [of "\<lambda>(i, k, kind, inp, ms, units, opts). units"] by (simp add: job_terms_def)
  have attempts': "map a_job (attempts s') = map a_job (attempts s) \<or>
      (\<exists>a r. attempts s' = attempts s @ [a] \<and> attempt_row s (a_job a) = None \<and> job_row s (a_job a) = Some r)"
    using assms(1) by (simp add: advances_def)
  have "ledger_keyed s'"
    using assms(2) attempts' by (auto simp: ledger_ok_def ledger_keyed_def ids keys attempt_row_def find_None_key)
  moreover have "at_most_one_active s'"
    unfolding at_most_one_active_def
  proof (intro allI impI)
    fix i j r' q'
    assume rows': "job_row s' i = Some r'" "job_row s' j = Some q'" and act': "is_active r'" "is_active q'"
    from advances_rows [OF assms(1)] rows' obtain r q where
      rows: "job_row s i = Some r" "job_row s j = Some q" by blast
    have alone: "activates_alone s s'" using assms(1) by (simp add: advances_def)
    have quiet: "\<not> list_ex is_active (jobs s) \<Longrightarrow> job_row s k = Some p \<Longrightarrow> \<not> is_active p" for k p
      by (auto simp: list_ex_iff dest: job_row_id)
    show "i = j"
    proof (cases "is_active r \<and> is_active q")
      case True
      with rows assms(2) show ?thesis by (auto simp: ledger_ok_def at_most_one_active_def)
    next
      case False
      with alone rows rows' act' quiet show ?thesis
        unfolding activates_alone_def by (metis option.inject)
    qed
  qed
  moreover have "cells_ok L s'"
    unfolding cells_ok_def
  proof (intro conjI allI impI)
    fix i r'
    assume "job_row s' i = Some r'"
    from advances_rows [OF assms(1) this] assms(2) show "cell_ok L (r', attempt_row s' i)"
      by (auto simp: ledger_ok_def cells_ok_def intro: life_cell_ok)
  next
    fix i a
    assume a: "attempt_row s' i = Some a"
    have "job_row s i \<noteq> None"
    proof (cases "attempt_row s i")
      case None
      with a attempts' show ?thesis
        by (auto simp: attempt_row_def find_append find_None_key dest!: find_key_Some split: option.splits)
          (metis (no_types) image_eqI list.set_map)
    next
      case (Some b)
      with assms(2) show ?thesis by (auto simp: ledger_ok_def cells_ok_def)
    qed
    with assms(1) show "job_row s' i \<noteq> None" by (auto simp: advances_def)
  qed
  moreover have "reserved_total s' \<le> B" "\<forall>r \<in> set (jobs s'). 0 < j_reserved_units r"
    using assms(2) units
    by (auto simp: ledger_ok_def reserved_total_def) (metis (no_types) image_eqI image_iff list.set_map)
  ultimately show ?thesis by (simp add: ledger_ok_def)
qed

lemma extends_ok:
  assumes "extends s s'" and "ledger_ok L B s" and "reserved_total s' \<le> B"
  shows "ledger_ok L B s'"
proof -
  from assms(1) obtain row where row: "jobs s' = jobs s @ [row]" "attempts s' = attempts s"
      "job_row s (j_id row) = None" "j_request_key row \<notin> j_request_key ` set (jobs s)"
      "j_status row = Queued" "queued_ok row" "0 < j_reserved_units row"
    by (auto simp: extends_def)
  have look: "job_row s' i = (if i = j_id row then Some row else job_row s i)" for i
    using row(3) by (auto simp: job_row_def row(1) find_append split: option.splits)
  have same: "attempt_row s' i = attempt_row s i" for i by (simp add: attempt_row_def row(2))
  have quiet: "\<not> is_active row" using row(5) by (simp add: status_simps)
  have none: "attempt_row s (j_id row) = None"
    using assms(2) row(3) by (cases "attempt_row s (j_id row)") (auto simp: ledger_ok_def cells_ok_def)
  have "row_ok row" using row(5,6) by (simp add: row_ok_def status_simps)
  then have "cells_ok L s'"
    using assms(2) none by (auto simp: ledger_ok_def cells_ok_def look same cell_ok_def)
  moreover have "at_most_one_active s'"
    using assms(2) quiet by (auto simp: ledger_ok_def at_most_one_active_def look)
  moreover have "ledger_keyed s'"
    using assms(2) row by (auto simp: ledger_ok_def ledger_keyed_def job_row_def find_None_iff)
  ultimately show ?thesis using assms(2,3) row by (auto simp: ledger_ok_def)
qed

lemma ledger_step_ok: "ledger_step L B s s' \<Longrightarrow> ledger_ok L B s \<Longrightarrow> ledger_ok L B s'"
  using ledger_step_cases [of L B s s'] advances_ok [of L s s' B] extends_ok [of s s' L B]
  unfolding ledger_ok_def by blast

lemma new_operations_ok: "0 \<le> B \<Longrightarrow> ledger_ok L B new_operations"
  by (simp add: ledger_ok_def ledger_keyed_def at_most_one_active_def cells_ok_def job_row_def
      attempt_row_def new_operations_def reserved_total_def)

lemma ledger_steps_ok: "(ledger_step L B)\<^sup>*\<^sup>* s s' \<Longrightarrow> ledger_ok L B s \<Longrightarrow> ledger_ok L B s'"
  by (induction rule: rtranclp_induct) (auto intro: ledger_step_ok)

text \<open>What one step means for one job, whichever way the step went.\<close>

lemma ledger_step_life:
  assumes "ledger_step L B s s'" and "ledger_ok L B s" and "job_row s i = Some r"
  shows "\<exists>r'. job_row s' i = Some r' \<and> life L (r, attempt_row s i) (r', attempt_row s' i)"
proof -
  have "ledger_keyed s" "cells_ok L s" using assms(2) by (simp_all add: ledger_ok_def)
  with ledger_step_cases [OF assms(1)] have "advances L s s' \<or> extends s s'" by blast
  then show ?thesis
  proof
    assume "advances L s s'"
    with assms(3) show ?thesis unfolding advances_def by blast
  next
    assume "extends s s'"
    with assms(3) have "job_row s' i = Some r" "attempt_row s' i = attempt_row s i"
      by (auto simp: extends_def job_row_def attempt_row_def find_append)
    then show ?thesis by (auto intro: life.stutter)
  qed
qed

text \<open>What every move preserves holds along every history.\<close>

lemma ledger_steps_life:
  assumes "(ledger_step L B)\<^sup>*\<^sup>* s s'" and "ledger_ok L B s" and "job_row s i = Some r"
    and start: "P r (attempt_row s i)"
    and move: "\<And>r a r' a'. life L (r, a) (r', a') \<Longrightarrow> P r a \<Longrightarrow> P r' a'"
  shows "\<exists>r'. job_row s' i = Some r' \<and> P r' (attempt_row s' i)"
  using assms(1)
proof (induction rule: rtranclp_induct)
  case base
  from assms(3) start show ?case by blast
next
  case (step t u)
  from step.IH obtain r' where r': "job_row t i = Some r'" "P r' (attempt_row t i)" by blast
  from ledger_steps_ok [OF step.hyps(1) assms(2)] have "ledger_ok L B t" .
  from ledger_step_life [OF step.hyps(2) this r'(1)] r'(2) show ?case by (blast intro: move)
qed

lemma settled_frozen:
  assumes "(ledger_step L B)\<^sup>*\<^sup>* s s'" and "ledger_ok L B s" and "job_row s i = Some r"
    and "terminal (j_status r)"
  shows "job_row s' i = Some r \<and> attempt_row s' i = attempt_row s i"
  using ledger_steps_life [OF assms(1-3), where P = "\<lambda>q b. q = r \<and> b = attempt_row s i"]
    life_terminal assms(4) by blast

text \<open>
  A cancelling job keeps an empty result until its receipt settles it, and that settlement writes
  the fixed cancellation document, which names the request of the recorded intent.
\<close>

definition cancelled_document :: "string \<Rightarrow> json" where
  "cancelled_document request =
     JObj [(''state'', JStr ''cancelled''), (''request_id'', JStr request), (''terminal_receipt_recorded'', JBool True)]"

definition unselected :: "job \<Rightarrow> attempt option \<Rightarrow> bool" where
  "unselected r a \<longleftrightarrow> j_status r \<in> {Cancelling, Cancelled} \<and>
     (j_result r = None \<or> j_status r = Cancelled \<and> (\<exists>b. a = Some b \<and> a_phase b = Settled Cancelled))"

lemma life_unselected:
  assumes "life L (r, a) (r', a')" and "unselected r a"
  shows "unselected r' a'"
proof (cases "j_status r = Cancelling")
  case True
  with assms(2) have none: "j_result r = None" by (auto simp: unselected_def)
  from assms(1) True none show ?thesis unfolding unselected_def by (elim lifeE) simp_all
next
  case False
  with assms(2) have "terminal (j_status r)" by (auto simp: unselected_def terminal_def)
  from life_terminal [OF assms(1) this] assms(2) show ?thesis by simp
qed

lemma settled_cancelled_result:
  assumes "attempt_ok L r a" and "a_phase a = Settled Cancelled"
  shows "j_result r = Some (cancelled_document (a_request_id a))"
proof -
  from assms obtain e v where v: "receipt_of L a e v" "j_result r = Some (selected_result True v e)"
    by (auto simp: attempt_ok_def phase_ok_def)
  from v(1) assms(1) have "rc_request_id v = a_request_id a"
    by (auto simp: receipt_of_def attempt_ok_def intent_of_def bind_receipt_def split: if_splits)
  with v(2) show ?thesis by (simp add: selected_result_def cancelled_document_def)
qed

lemma cancelling_stays:
  assumes "(ledger_step L B)\<^sup>*\<^sup>* s s'" and "ledger_ok L B s" and "job_row s i = Some r"
    and "j_status r = Cancelling"
  shows "\<exists>r'. job_row s' i = Some r' \<and> j_status r' \<in> {Cancelling, Cancelled} \<and>
    (j_result r' = None \<or>
     j_status r' = Cancelled \<and> (\<exists>a. attempt_row s' i = Some a \<and> j_result r' = Some (cancelled_document (a_request_id a))))"
proof -
  have "row_ok r" using assms(2,3) by (auto simp: ledger_ok_def cells_ok_def cell_ok_def)
  with assms(4) have "unselected r (attempt_row s i)"
    by (auto simp: unselected_def row_ok_def status_simps)
  from ledger_steps_life [OF assms(1-3), where P = unselected, OF this]
  obtain r' where r': "job_row s' i = Some r'" "unselected r' (attempt_row s' i)" using life_unselected by blast
  from ledger_steps_ok [OF assms(1,2)] have "cells_ok L s'" by (simp add: ledger_ok_def)
  with r' settled_cancelled_result show ?thesis
    unfolding unselected_def by (metis cells_ok_attempt option.inject)
qed

lemma started_stays:
  assumes "(ledger_step L B)\<^sup>*\<^sup>* s s'" and "ledger_ok L B s" and "job_row s i = Some r"
    and "j_status r \<noteq> Queued"
  shows "\<exists>r'. job_row s' i = Some r' \<and> j_status r' \<noteq> Queued \<and> j_fence r' = j_fence r \<and>
    j_attempt_id r' = j_attempt_id r \<and> j_deadline r' = j_deadline r"
  by (rule ledger_steps_life [OF assms(1-3), where P = "\<lambda>q b. j_status q \<noteq> Queued \<and>
      j_fence q = j_fence r \<and> j_attempt_id q = j_attempt_id r \<and> j_deadline q = j_deadline r"])
    (use assms(4) life_started in \<open>simp, metis\<close>)

lemma terms_stay:
  assumes "(ledger_step L B)\<^sup>*\<^sup>* s s'" and "ledger_ok L B s" and "job_row s i = Some r"
  shows "\<exists>r'. job_row s' i = Some r' \<and> job_terms r' = job_terms r"
  by (rule ledger_steps_life [OF assms, where P = "\<lambda>q b. job_terms q = job_terms r"])
    (simp_all add: life_terms)

lemma same_intent_trans: "same_intent x y \<Longrightarrow> same_intent y z \<Longrightarrow> same_intent x z"
  by (auto simp: same_intent_def split: if_splits)

lemma intent_stays:
  assumes "(ledger_step L B)\<^sup>*\<^sup>* s s'" and "ledger_ok L B s" and "attempt_row s i = Some a"
  shows "\<exists>b. attempt_row s' i = Some b \<and> same_intent a b"
proof -
  from assms(2,3) obtain r where r: "job_row s i = Some r" by (auto simp: ledger_ok_def cells_ok_def)
  have "\<exists>r'. job_row s' i = Some r' \<and> (\<exists>b. attempt_row s' i = Some b \<and> same_intent a b)"
  proof (rule ledger_steps_life [OF assms(1,2) r, where P = "\<lambda>q x. \<exists>b. x = Some b \<and> same_intent a b"])
    show "\<exists>b. attempt_row s i = Some b \<and> same_intent a b"
      using assms(3) by (simp add: same_intent_def)
  next
    fix q :: job and x q' x'
    assume "life L (q, x) (q', x')" "\<exists>b. x = Some b \<and> same_intent a b"
    then show "\<exists>b. x' = Some b \<and> same_intent a b"
      by (auto dest!: life_intent intro: same_intent_trans)
  qed
  then show ?thesis by blast
qed

section \<open>Four permissions that are granted once\<close>

definition submission_granted :: "stdlib \<Rightarrow> string \<Rightarrow> ops \<Rightarrow> ops \<Rightarrow> bool" where
  "submission_granted L i s s' \<longleftrightarrow>
     (\<exists>clock token request target now. prepare_compute L clock i token request target now s = Inr (s', True))"

definition cancel_granted :: "stdlib \<Rightarrow> string \<Rightarrow> ops \<Rightarrow> ops \<Rightarrow> bool" where
  "cancel_granted L i s s' \<longleftrightarrow>
     (\<exists>clock token t fence. begin_compute_cancel (sha256 L) clock i token t fence s = Inr (s', True))"

definition lease_granted :: "stdlib \<Rightarrow> string \<Rightarrow> ops \<Rightarrow> ops \<Rightarrow> bool" where
  "lease_granted L i s s' \<longleftrightarrow>
     (\<exists>token t clock owner now ls row.
        claim (sha256 L) token t clock owner now ls s = Inr (s', Some (row, token)) \<and> j_id row = i)"

definition charge_granted :: "int \<Rightarrow> string \<Rightarrow> ops \<Rightarrow> ops \<Rightarrow> bool" where
  "charge_granted B key s s' \<longleftrightarrow>
     (\<exists>fresh clock kind inp ms ru bl given j.
        enqueue fresh clock kind inp key ms ru bl given s = Inr (s', j) \<and> json_int bl \<le> B \<and>
        reserved_total s' \<noteq> reserved_total s)"

definition has_attempt :: "ops \<Rightarrow> string \<Rightarrow> bool" where
  "has_attempt s i \<longleftrightarrow> attempt_row s i \<noteq> None"

definition cancel_began :: "ops \<Rightarrow> string \<Rightarrow> bool" where
  "cancel_began s i \<longleftrightarrow> (\<exists>a. attempt_row s i = Some a \<and> a_cancel_state a \<noteq> None)"

definition left_queue :: "ops \<Rightarrow> string \<Rightarrow> bool" where
  "left_queue s i \<longleftrightarrow> (\<exists>r. job_row s i = Some r \<and> j_status r \<noteq> Queued)"

definition key_used :: "ops \<Rightarrow> string \<Rightarrow> bool" where
  "key_used s key \<longleftrightarrow> key \<in> j_request_key ` set (jobs s)"

lemma life_cancel_state:
  "life L (r, Some a) (r', Some b) \<Longrightarrow> a_cancel_state a \<noteq> None \<Longrightarrow> a_cancel_state b \<noteq> None"
  by (erule lifeE) auto

lemma has_attempt_step:
  assumes "ledger_ok L B s" "ledger_step L B s s'" "has_attempt s i"
  shows "has_attempt s' i"
  using intent_stays [OF r_into_rtranclp [of "ledger_step L B", OF assms(2)] assms(1)] assms(3)
  by (auto simp: has_attempt_def)

lemma cancel_began_step:
  assumes "ledger_ok L B s" "ledger_step L B s s'" "cancel_began s i"
  shows "cancel_began s' i"
proof -
  from assms(3) obtain a where a: "attempt_row s i = Some a" "a_cancel_state a \<noteq> None"
    by (auto simp: cancel_began_def)
  with assms(1) obtain r where r: "job_row s i = Some r" by (auto simp: ledger_ok_def cells_ok_def)
  from ledger_step_life [OF assms(2,1) r] a(1) obtain r' where move:
    "life L (r, Some a) (r', attempt_row s' i)" by auto
  from life_intent [OF move] obtain b where b: "attempt_row s' i = Some b" by blast
  with move a(2) have "a_cancel_state b \<noteq> None" by (auto dest: life_cancel_state)
  with b show ?thesis by (auto simp: cancel_began_def)
qed

lemma left_queue_step:
  "ledger_ok L B s \<Longrightarrow> ledger_step L B s s' \<Longrightarrow> left_queue s i \<Longrightarrow> left_queue s' i"
  by (auto simp: left_queue_def dest!: ledger_step_life dest: life_started)

lemma advances_keys: "advances L s s' \<Longrightarrow> map j_request_key (jobs s') = map j_request_key (jobs s)"
  using advances_column [of L s s' "\<lambda>t. fst (snd t)"] by (simp add: job_terms_def)

lemma key_used_step:
  assumes "ledger_ok L B s" "ledger_step L B s s'" "key_used s key"
  shows "key_used s' key"
proof -
  have "advances L s s' \<or> extends s s'"
    using ledger_step_cases [OF assms(2)] assms(1) by (auto simp: ledger_ok_def)
  then show ?thesis
    using assms(3) advances_keys [of L s s']
    by (auto simp: key_used_def extends_def) (metis image_eqI list.set_map image_iff)
qed

lemma lease_granted_queue:
  assumes "ledger_ok L B s" and "lease_granted L i s s'"
  shows "\<not> left_queue s i \<and> left_queue s' i"
proof -
  from assms(2) obtain token t clock owner now ls row where
    claim: "claim (sha256 L) token t clock owner now ls s = Inr (s', Some (row, token))" and i: "j_id row = i"
    by (auto simp: lease_granted_def)
  from claim show ?thesis
  proof (cases rule: claim_returned)
    case (taken q lease)
    then have "q \<in> set (jobs s)" and queued: "j_status q = Queued" and "j_id q = i"
      using i by (auto simp: find_Some_iff)
    with assms(1) have q: "job_row s i = Some q"
      by (auto simp: job_row_def ledger_ok_def ledger_keyed_def find_key_distinct)
    have "job_row s' i = Some (take_job (sha256 L) token t lease (job_deadline now q) q)"
      using job_row_touched [of "take_job (sha256 L) token t lease (job_deadline now q)" s' i s i] taken
        q \<open>j_id q = i\<close> by (simp add: update_job_def)
    with q queued show ?thesis by (auto simp: left_queue_def)
  qed simp
qed

interpretation submissions: grant_ledger "ledger_ok L B" "ledger_step L B" "submission_granted L" has_attempt
  for L B
proof unfold_locales
  fix s s' and i
  assume "submission_granted L i s s'"
  then obtain clock token request target now where
    "prepare_compute L clock i token request target now s = Inr (s', True)"
    by (auto simp: submission_granted_def)
  note prepared = this
  from prepared show "ledger_step L B s s'" by (rule ledger_step.prepared)
  from prepared show "\<not> has_attempt s i" by (cases rule: prepare_returned) (auto simp: has_attempt_def)
  from prepared show "has_attempt s' i"
    by (cases rule: prepare_returned)
      (auto simp: has_attempt_def attempt_row_def find_append submission_intent_def)
qed (auto intro: ledger_step_ok has_attempt_step)

interpretation cancellations: grant_ledger "ledger_ok L B" "ledger_step L B" "cancel_granted L" cancel_began
  for L B
proof unfold_locales
  fix s s' and i
  assume "cancel_granted L i s s'"
  then obtain clock token t fence where
    began: "begin_compute_cancel (sha256 L) clock i token t fence s = Inr (s', True)"
    by (auto simp: cancel_granted_def)
  from began show "ledger_step L B s s'" by (rule ledger_step.cancelling)
  from began show "\<not> cancel_began s i" "cancel_began s' i"
    by (auto elim!: begin_cancel_returned simp: cancel_began_def attempt_row_def find_key_update_same)
qed (auto intro: ledger_step_ok cancel_began_step)

interpretation leases: grant_ledger "ledger_ok L B" "ledger_step L B" "lease_granted L" left_queue
  for L B
proof unfold_locales
  fix s s' and i
  assume "lease_granted L i s s'"
  then show "ledger_step L B s s'" by (auto simp: lease_granted_def intro: ledger_step.claimed)
qed (auto dest: lease_granted_queue intro: ledger_step_ok left_queue_step)

interpretation charges: grant_ledger "ledger_ok L B" "ledger_step L B" "charge_granted B" key_used
  for L B
proof unfold_locales
  fix s s' and key
  assume "charge_granted B key s s'"
  then obtain fresh clock kind inp ms ru bl given j where
    charged: "enqueue fresh clock kind inp key ms ru bl given s = Inr (s', j)" "json_int bl \<le> B"
      "reserved_total s' \<noteq> reserved_total s"
    by (auto simp: charge_granted_def)
  from charged(1,2) show "ledger_step L B s s'" by (rule ledger_step.enqueued)
  from charged(1) show "\<not> key_used s key" "key_used s' key"
    by (cases rule: enqueue_returned; use charged(3) in \<open>auto simp: key_used_def find_None_iff\<close>)+
qed (auto intro: ledger_step_ok key_used_step)

end
