(* ===== verification/Samples.thy ===== *)
theory Samples
  imports Ledger
begin

text \<open>
  A small concrete history of the ledger that the witnesses of the properties evaluate: one
  training job is enqueued, leased, submitted and bound to its call, and then either its
  receipt is accepted or it is cancelled. The library is instantiated with computable
  stand-ins; the stand-in hash keeps a hexadecimal shape.
\<close>

definition sample_sha :: hash where
  "sample_sha t = map (\<lambda>c. ''0123456789abcdef'' ! (of_char c mod 16)) (take 4 t) @ replicate (64 - length (take 4 t)) CHR ''0''"

lemma sample_sha_hex: "length (sample_sha t) = 64" "lower_hex (sample_sha t)"
proof -
  have "''0123456789abcdef'' ! (of_char c mod 16) \<in> set ''0123456789abcdef''" for c :: char
    by (intro nth_mem) simp
  then show "length (sample_sha t) = 64" "lower_hex (sample_sha t)"
    by (auto simp: sample_sha_def lower_hex_def list_all_iff)
qed

definition sample_lib :: stdlib where
  "sample_lib =
     \<lparr>sha256 = sample_sha,
      urlsplit = (\<lambda>t. Inr \<lparr>url_scheme = [], url_username = None, url_password = None,
                           url_query = [], url_fragment = []\<rparr>),
      parse_qsl = (\<lambda>t. []), float_text = (\<lambda>t. t)\<rparr>"

definition sample_producer :: producer where
  "sample_producer = \<lparr>p_repository = ''repo'', p_source_revision = replicate 40 CHR ''1'',
     p_uv_lock_sha256 = replicate 64 CHR ''2''\<rparr>"

definition sample_input :: string where
  "sample_input = replicate 64 CHR ''a''"

definition sample_target :: string where
  "sample_target = replicate 64 CHR ''b''"

definition sample_request :: compute_request where
  "sample_request = \<lparr>rq_kind = ''training'', rq_input_id = sample_input, rq_producer = sample_producer,
     rq_attempt_id = ''at1'', rq_resume = None, rq_stop_after = None\<rparr>"

definition sample_call :: modal_call where
  "sample_call = \<lparr>mc_target_id = sample_target, mc_request = sample_request, mc_call_id = ''fc-1''\<rparr>"

text \<open>The identity of the request: the stand-in hash of its canonical text.\<close>

definition sample_id :: string where
  "sample_id = sample_sha [CHR 0x7B, quote_char, CHR ''a'', CHR ''t'']"

definition sample_receipt :: compute_receipt where
  "sample_receipt = \<lparr>rc_request_id = sample_id, rc_attempt_id = ''at1'',
     rc_kind = ''training'', rc_input_id = sample_input, rc_producer = sample_producer,
     rc_state = ''candidate_prepared'', rc_output_id = Some sample_target, rc_checkpoint_id = None\<rparr>"

text \<open>
  The job and its attempt as each operation leaves them. A state named \<open>ledger\<close> is what the
  operation returned; the state of the next operation has the same jobs and attempts, and an
  empty audit table.
\<close>

definition queued_job :: job where
  "queued_job = \<lparr>j_id = ''j1'', j_request_key = ''k1'', j_kind = ''training'', j_input_id = sample_input,
     j_max_seconds = 60, j_reserved_units = 3, j_status = Queued, j_fence = 0,
     j_attempt_id = None, j_lease_hash = None, j_lease_until = None,
     j_deadline = None, j_provider_ref = None, j_result = None, j_options = JObj []\<rparr>"

definition leased_job :: job where
  "leased_job = queued_job\<lparr>j_status := Running, j_fence := 1, j_attempt_id := Some ''at1'',
     j_lease_hash := Some (sample_sha ''tok''), j_lease_until := Some 130, j_deadline := Some 160\<rparr>"

definition bound_job :: job where
  "bound_job = leased_job\<lparr>j_provider_ref := Some ''fc-1''\<rparr>"

definition intent_attempt :: attempt where
  "intent_attempt = \<lparr>a_job = ''j1'', a_attempt_id = ''at1'', a_fence = 1,
     a_request_id = sample_id, a_request = sort_keys (JObj (request_dict sample_request)),
     a_target_id = sample_target, a_phase = Submitting, a_handle = None,
     a_cancel_state = None, a_last_error = None, a_receipt = None\<rparr>"

definition bound_attempt :: attempt where
  "bound_attempt = intent_attempt\<lparr>a_phase := Submitted, a_handle := Some (sort_keys (JObj (call_dict sample_call)))\<rparr>"

definition sample_queued :: ops where
  "sample_queued = new_operations\<lparr>jobs := [queued_job]\<rparr>"

definition sample_leased :: ops where
  "sample_leased = new_operations\<lparr>jobs := [leased_job]\<rparr>"

definition sample_intent :: ops where
  "sample_intent = new_operations\<lparr>jobs := [leased_job], attempts := [intent_attempt]\<rparr>"

definition sample_bound :: ops where
  "sample_bound = new_operations\<lparr>jobs := [bound_job], attempts := [bound_attempt]\<rparr>"

definition ledger_queued :: ops where
  "ledger_queued = fst (committed (enqueue ''j1'' 0 ''training'' sample_input ''k1''
     (JInt 60) (JInt 3) (JInt 10) None) new_operations)"

definition ledger_leased :: ops where
  "ledger_leased = fst (committed (claim sample_sha ''tok'' ''at1'' 0 ''scheduler'' (Finite 100) (JInt 30))
     sample_queued)"

definition ledger_intent :: ops where
  "ledger_intent = fst (committed (prepare_compute sample_lib 0 ''j1'' ''tok''
     (JObj (request_dict sample_request)) sample_target (Finite 110)) sample_leased)"

definition ledger_bound :: ops where
  "ledger_bound = fst (committed (bind_compute_handle sample_lib 0 ''j1'' ''tok'' ''at1'' 1
     (JObj (call_dict sample_call))) sample_intent)"

definition sample_accepted :: ops where
  "sample_accepted = fst (committed (accept_compute sample_lib 0 ''j1'' ''tok'' ''at1'' 1
     (JObj (receipt_dict sample_receipt)) False) sample_bound)"

definition sample_cancelling :: ops where
  "sample_cancelling = fst (committed (cancel 0 ''j1'') sample_bound)"

section \<open>The operations, evaluated\<close>

lemma committed_returned: "\<not> isl (t s) \<Longrightarrow> t s = Inr (fst (committed t s), snd (projr (t s)))"
  by (cases "t s") (auto simp: committed_def)

lemma committed_view:
  "map_sum f g (t s) = Inr y \<Longrightarrow> \<exists>x. t s = Inr (fst (committed t s), x) \<and> g (fst (committed t s), x) = y"
  by (cases "t s") auto

lemma ledger_value:
  assumes "map_sum (\<lambda>e. ()) (\<lambda>p. (jobs (fst p), attempts (fst p), snd p)) (t s) = Inr (js, as, x)"
  shows "t s = Inr (fst (committed t s), x)" and "jobs (fst (committed t s)) = js"
    and "attempts (fst (committed t s)) = as"
proof -
  from assms obtain s' where "t s = Inr (s', x)" "jobs s' = js" "attempts s' = as"
    by (cases "t s") auto
  then show "t s = Inr (fst (committed t s), x)" "jobs (fst (committed t s)) = js"
    "attempts (fst (committed t s)) = as"
    by simp_all
qed

lemmas queued_value = ledger_value [where t = "enqueue ''j1'' 0 ''training'' sample_input ''k1''
     (JInt 60) (JInt 3) (JInt 10) None" and s = new_operations and js = "[queued_job]" and as = "[]"
     and x = "''j1''", folded ledger_queued_def]

lemmas leased_value = ledger_value [where t = "claim sample_sha ''tok'' ''at1'' 0 ''scheduler'' (Finite 100) (JInt 30)"
     and s = sample_queued and js = "[leased_job]" and as = "[]" and x = "Some (leased_job\<lparr>j_lease_hash := None\<rparr>, ''tok'')",
     folded ledger_leased_def]

lemmas intent_value = ledger_value [where t = "prepare_compute sample_lib 0 ''j1'' ''tok''
     (JObj (request_dict sample_request)) sample_target (Finite 110)" and s = sample_leased
     and js = "[leased_job]" and as = "[intent_attempt]" and x = True, folded ledger_intent_def]

lemmas bound_value = ledger_value [where t = "bind_compute_handle sample_lib 0 ''j1'' ''tok'' ''at1'' 1
     (JObj (call_dict sample_call))" and s = sample_intent and js = "[bound_job]" and as = "[bound_attempt]"
     and x = "()", folded ledger_bound_def]

lemma queued_ran:
  "map_sum (\<lambda>e. ()) (\<lambda>p. (jobs (fst p), attempts (fst p), snd p))
     (enqueue ''j1'' 0 ''training'' sample_input ''k1'' (JInt 60) (JInt 3) (JInt 10) None new_operations) =
   Inr ([queued_job], [], ''j1'')"
  by code_simp

lemma leased_ran:
  "map_sum (\<lambda>e. ()) (\<lambda>p. (jobs (fst p), attempts (fst p), snd p))
     (claim sample_sha ''tok'' ''at1'' 0 ''scheduler'' (Finite 100) (JInt 30) sample_queued) =
   Inr ([leased_job], [], Some (leased_job\<lparr>j_lease_hash := None\<rparr>, ''tok''))"
  by code_simp

lemma intent_ran:
  "map_sum (\<lambda>e. ()) (\<lambda>p. (jobs (fst p), attempts (fst p), snd p))
     (prepare_compute sample_lib 0 ''j1'' ''tok'' (JObj (request_dict sample_request)) sample_target (Finite 110)
       sample_leased) = Inr ([leased_job], [intent_attempt], True)"
  by code_simp

lemma bound_ran:
  "map_sum (\<lambda>e. ()) (\<lambda>p. (jobs (fst p), attempts (fst p), snd p))
     (bind_compute_handle sample_lib 0 ''j1'' ''tok'' ''at1'' 1 (JObj (call_dict sample_call)) sample_intent) =
   Inr ([bound_job], [bound_attempt], ())"
  by code_simp

lemma accepted_ran:
  "map_sum (\<lambda>e. ()) (\<lambda>p. (map (\<lambda>r. (j_id r, j_status r)) (jobs (fst p)), map (\<lambda>a. (a_job a, a_phase a)) (attempts (fst p)), snd p))
     (accept_compute sample_lib 0 ''j1'' ''tok'' ''at1'' 1 (JObj (receipt_dict sample_receipt)) False sample_bound) =
   Inr ([(''j1'', Completed)], [(''j1'', Settled Completed)], ())"
  by code_simp

lemma cancelling_ran:
  "map_sum (\<lambda>e. ()) (\<lambda>p. (map (\<lambda>r. (j_id r, j_status r)) (jobs (fst p)), snd p)) (cancel 0 ''j1'' sample_bound) = Inr ([(''j1'', Cancelling)], ())"
  by code_simp

text \<open>Each sample state is one ledger step after the last.\<close>

lemma sample_steps:
  "ledger_step sample_lib 10 new_operations ledger_queued"
  "ledger_step sample_lib 10 ledger_queued sample_queued"
  "ledger_step sample_lib 10 sample_queued ledger_leased"
  "ledger_step sample_lib 10 ledger_leased sample_leased"
  "ledger_step sample_lib 10 sample_leased ledger_intent"
  "ledger_step sample_lib 10 ledger_intent sample_intent"
  "ledger_step sample_lib 10 sample_intent ledger_bound"
  "ledger_step sample_lib 10 ledger_bound sample_bound"
proof -
  have sha: "sha256 sample_lib = sample_sha" by (simp add: sample_lib_def)
  show "ledger_step sample_lib 10 new_operations ledger_queued"
    by (rule ledger_step.enqueued [OF queued_value(1) [OF queued_ran]]) (simp add: json_int_def)
  show "ledger_step sample_lib 10 sample_queued ledger_leased"
    by (rule ledger_step.claimed [where L = sample_lib, unfolded sha, OF leased_value(1) [OF leased_ran]])
  show "ledger_step sample_lib 10 sample_leased ledger_intent"
    by (rule ledger_step.prepared [OF intent_value(1) [OF intent_ran]])
  show "ledger_step sample_lib 10 sample_intent ledger_bound"
    by (rule ledger_step.bound [OF bound_value(1) [OF bound_ran]])
  note same = queued_value(2,3) [OF queued_ran] leased_value(2,3) [OF leased_ran]
    intent_value(2,3) [OF intent_ran] bound_value(2,3) [OF bound_ran]
  show "ledger_step sample_lib 10 ledger_queued sample_queued" "ledger_step sample_lib 10 ledger_leased sample_leased"
    "ledger_step sample_lib 10 ledger_intent sample_intent" "ledger_step sample_lib 10 ledger_bound sample_bound"
    by (rule ledger_step.elsewhere;
        simp add: same sample_queued_def sample_leased_def sample_intent_def sample_bound_def new_operations_def)+
qed

lemmas accepted_view = committed_view [where t = "accept_compute sample_lib 0 ''j1'' ''tok'' ''at1'' 1
     (JObj (receipt_dict sample_receipt)) False" and s = sample_bound, folded sample_accepted_def, OF accepted_ran]

lemmas cancelling_view = committed_view [where t = "cancel 0 ''j1''" and s = sample_bound,
     folded sample_cancelling_def, OF cancelling_ran]

lemma sample_branches:
  "ledger_step sample_lib 10 sample_bound sample_accepted"
  "ledger_step sample_lib 10 sample_bound sample_cancelling"
  using accepted_view cancelling_view by (blast intro: ledger_step.accepted ledger_step.cancelled)+

lemma sample_states_ok:
  "ledger_ok sample_lib 10 ledger_queued" "ledger_ok sample_lib 10 sample_queued" "ledger_ok sample_lib 10 sample_leased"
  "ledger_ok sample_lib 10 sample_bound" "ledger_ok sample_lib 10 sample_accepted" "ledger_ok sample_lib 10 sample_cancelling"
proof -
  show "ledger_ok sample_lib 10 ledger_queued"
    by (rule ledger_step_ok [OF sample_steps(1) new_operations_ok]) simp
  from ledger_step_ok [OF sample_steps(2) this] show "ledger_ok sample_lib 10 sample_queued" .
  from ledger_step_ok [OF sample_steps(4) ledger_step_ok [OF sample_steps(3) this]] show "ledger_ok sample_lib 10 sample_leased" .
  from ledger_step_ok [OF sample_steps(6) ledger_step_ok [OF sample_steps(5) this]]
  have "ledger_ok sample_lib 10 sample_intent" .
  from ledger_step_ok [OF sample_steps(8) ledger_step_ok [OF sample_steps(7) this]] show ok: "ledger_ok sample_lib 10 sample_bound" .
  show "ledger_ok sample_lib 10 sample_accepted" "ledger_ok sample_lib 10 sample_cancelling"
    using ledger_step_ok [OF sample_branches(1) ok] ledger_step_ok [OF sample_branches(2) ok] by simp_all
qed

lemma sample_reachable: "(ledger_step sample_lib 10)\<^sup>*\<^sup>* new_operations sample_bound"
  using sample_steps by (meson rtranclp.rtrancl_into_rtrancl rtranclp.rtrancl_refl)

lemma accepted_reachable: "(ledger_step sample_lib 10)\<^sup>*\<^sup>* new_operations sample_accepted"
  by (rule rtranclp.rtrancl_into_rtrancl [of "ledger_step sample_lib 10", OF sample_reachable sample_branches(1)])

lemma find_only_row:
  "map (\<lambda>r. (key r, f r)) rows = [(k, x)] \<Longrightarrow> \<exists>r. find (\<lambda>r. key r = k) rows = Some r \<and> f r = x"
  by (cases rows) auto

lemma accepted_row: "\<exists>r. job_row sample_accepted ''j1'' = Some r \<and> j_status r = Completed"
  and accepted_phase: "\<exists>a. attempt_row sample_accepted ''j1'' = Some a \<and> a_phase a = Settled Completed"
proof -
  from accepted_view have "map (\<lambda>r. (j_id r, j_status r)) (jobs sample_accepted) = [(''j1'', Completed)]"
    "map (\<lambda>a. (a_job a, a_phase a)) (attempts sample_accepted) = [(''j1'', Settled Completed)]"
    by (simp_all only: fst_conv prod.inject ex_simps) blast+
  from this [THEN find_only_row]
  show "\<exists>r. job_row sample_accepted ''j1'' = Some r \<and> j_status r = Completed"
    "\<exists>a. attempt_row sample_accepted ''j1'' = Some a \<and> a_phase a = Settled Completed"
    by (simp_all only: job_row_def attempt_row_def)
qed

lemma charge_was_granted: "charge_granted 10 ''k1'' new_operations ledger_queued"
proof -
  have "reserved_total ledger_queued \<noteq> reserved_total new_operations"
    by (simp add: reserved_total_def queued_value(2) [OF queued_ran] queued_job_def new_operations_def)
  moreover have "json_int (JInt 10) \<le> 10" by (simp add: json_int_def)
  ultimately show ?thesis unfolding charge_granted_def using queued_value(1) [OF queued_ran] by blast
qed

lemma lease_was_granted: "lease_granted sample_lib ''j1'' sample_queued ledger_leased"
proof -
  have "j_id (leased_job\<lparr>j_lease_hash := None\<rparr>) = ''j1''" by (simp add: leased_job_def queued_job_def)
  with leased_value(1) [OF leased_ran] show ?thesis unfolding lease_granted_def sample_lib_def by fastforce
qed

lemma recover_ran: "\<not> isl (recover_compute sample_sha ''new'' 0 ''j1'' (Some ''at1'') 1 (Finite 120) sample_bound)"
  by code_simp

end
