(* ===== verification/LedgerClaims.thy ===== *)
theory LedgerClaims
  imports Samples
begin

text \<open>
  The properties of the job ledger, each with its witness on the sample history: one job
  runs at a time, the provider is asked once, settled and cancelled jobs stay so, the budget
  bounds what was reserved, and a rotated owner token is worthless.
\<close>

text \<open>Claim C1. In every reachable database at most one job occupies the provider: among the rows
whose status is running, submission_unknown, uncertain or cancelling there is at most one, whatever
operations of the ledger ran before and with whatever tokens, clocks and provider answers.\<close>

theorem one_active_job:
  assumes "(ledger_step L B)\<^sup>*\<^sup>* new_operations s" and "0 \<le> B"
  shows "length (filter is_active (jobs s)) \<le> 1"
proof -
  from assms have ok: "ledger_ok L B s" by (auto intro: ledger_steps_ok new_operations_ok)
  then have keyed: "distinct (map j_id (jobs s))" by (simp add: ledger_ok_def ledger_keyed_def)
  have "p = q" if "p \<in> set (jobs s)" "q \<in> set (jobs s)" "is_active p" "is_active q" for p q
  proof -
    have "job_row s (j_id p) = Some p" "job_row s (j_id q) = Some q"
      using keyed that(1,2) by (simp_all add: job_row_def find_key_distinct)
    with ok that(3,4) have "j_id p = j_id q"
      unfolding ledger_ok_def at_most_one_active_def by blast
    with keyed that(1,2) show ?thesis by (rule distinct_key_inj)
  qed
  with keyed show ?thesis by (intro length_filter_unique) (auto simp: distinct_map)
qed

theorem one_active_job_witness: "length (filter is_active (jobs sample_bound)) \<le> 1"
  by (rule one_active_job [OF sample_reachable]) simp

text \<open>Claim C2. The provider is asked to run a job at most once: however prepare_compute calls are
interleaved with any other transactions (expiry, recovery by another scheduler, cancellation,
reconciliation, new jobs), it answers True at most once for each job, and never for a job that
already had a compute attempt.\<close>

theorem submission_granted_once:
  assumes "history (ledger_step L B) (submission_granted L) s ks t" and "ledger_ok L B s"
  shows "distinct ks \<and> (\<forall>i \<in> set ks. attempt_row s i = None \<and> attempt_row t i \<noteq> None)"
  using submissions.granted_once [OF assms] submissions.history_held [OF assms]
  by (auto simp: has_attempt_def)

theorem submission_granted_once_witness:
  "attempt_row sample_leased ''j1'' = None \<and> attempt_row ledger_intent ''j1'' \<noteq> None"
proof -
  have "submission_granted sample_lib ''j1'' sample_leased ledger_intent"
    unfolding submission_granted_def by (intro exI) (rule intent_value(1) [OF intent_ran])
  then have "history (ledger_step sample_lib 10) (submission_granted sample_lib) sample_leased [''j1''] ledger_intent"
    using history.granted [OF history.start] by fastforce
  from submission_granted_once [OF this sample_states_ok(3)] show ?thesis by simp
qed

text \<open>Claim C3. A settled job is final: once a job is completed, paused, failed or cancelled, no later
operation changes any column of its row or of its compute attempt, so a result or receipt that was
selected is never replaced.\<close>

theorem settled_job_frozen:
  assumes "(ledger_step L B)\<^sup>*\<^sup>* s t" and "ledger_ok L B s" and "job_row s i = Some r"
    and "j_status r \<in> {Completed, Paused, Failed, Cancelled}"
  shows "job_row t i = Some r \<and> attempt_row t i = attempt_row s i"
  by (rule settled_frozen [OF assms(1-3)]) (use assms(4) in \<open>simp add: terminal_def\<close>)

theorem settled_job_frozen_witness:
  "\<exists>r. j_status r = Completed \<and> job_row (fst (committed (expire (Finite 999)) sample_accepted)) ''j1'' = Some r"
proof -
  from accepted_row obtain r where r: "job_row sample_accepted ''j1'' = Some r" "j_status r = Completed"
    by auto
  have "ledger_step sample_lib 10 sample_accepted (fst (committed (expire (Finite 999)) sample_accepted))"
    by (rule ledger_step.expired [of "Finite 999"]) (simp add: expire_def committed_def)
  from settled_job_frozen [OF r_into_rtranclp [of "ledger_step sample_lib 10", OF this] sample_states_ok(5) r(1)] r(2)
  show ?thesis by auto
qed

text \<open>Claim C4. What a job settles with is its own: when the attempt of a reachable job is settled as
completed or paused, the job has that status, its result is a receipt that decodes and is bound to
the very request recorded before the provider was called (same request id, attempt, kind, input and
producer), and the attempt had a call handle for that request.\<close>

theorem selected_receipt_bound:
  assumes "(ledger_step L B)\<^sup>*\<^sup>* new_operations s" and "0 \<le> B"
    and "attempt_row s i = Some a" and "a_phase a = Settled st" and "st \<noteq> Cancelled"
  shows "\<exists>r e v q h c. job_row s i = Some r \<and> j_status r = st \<and> j_result r = Some e \<and>
    decode_receipt L e = Inr v \<and> decode_request L (a_request a) = Inr q \<and>
    bind_receipt L v q = Inr () \<and> Some (rq_attempt_id q) = j_attempt_id r \<and> rq_input_id q = j_input_id r \<and>
    a_handle a = Some h \<and> decode_call L h = Inr c \<and>
    request_id L (mc_request c) = request_id L q \<and> j_provider_ref r = Some (mc_call_id c)"
proof -
  from assms(1,2) have "ledger_ok L B s" by (auto intro: ledger_steps_ok new_operations_ok)
  with assms(3) obtain r where r: "job_row s i = Some r" "attempt_ok L r a"
    using cells_ok_attempt [of L s i a] by (auto simp: ledger_ok_def)
  from r(2) obtain q where q: "decode_request L (a_request a) = Inr q" "a_request_id a = request_id L q"
      "Some (rq_attempt_id q) = j_attempt_id r" "rq_input_id q = j_input_id r"
    by (auto simp: attempt_ok_def intent_of_def)
  from r(2) assms(4,5) obtain e v where e: "j_status r = st" "j_result r = Some e" "receipt_of L a e v"
      "a_handle a \<noteq> None"
    by (auto simp: attempt_ok_def phase_ok_def selected_result_def)
  from e(4) r(2) obtain h c where "a_handle a = Some h" "call_of L a h c" "j_provider_ref r = Some (mc_call_id c)"
    by (auto simp: attempt_ok_def)
  with r(1) q e show ?thesis by (auto simp: receipt_of_def call_of_def)
qed

theorem selected_receipt_bound_witness:
  "\<exists>r e. job_row sample_accepted ''j1'' = Some r \<and> j_result r = Some e \<and>
     (\<exists>v. decode_receipt sample_lib e = Inr v)"
proof -
  from accepted_phase obtain a where a: "attempt_row sample_accepted ''j1'' = Some a"
    "a_phase a = Settled Completed" by auto
  from selected_receipt_bound [OF accepted_reachable _ a] show ?thesis by auto
qed

text \<open>The sample job while it is cancelling, and its late receipt, accepted by the cancellation path.\<close>

definition sample_stopping :: ops where
  "sample_stopping = new_operations\<lparr>jobs := [bound_job\<lparr>j_status := Cancelling\<rparr>], attempts := [bound_attempt]\<rparr>"

definition late_settlement :: "(ops, unit) tx" where
  "late_settlement = accept_compute sample_lib 0 ''j1'' ''tok'' ''at1'' 1 (JObj (receipt_dict sample_receipt)) True"

definition sample_settled :: ops where "sample_settled = fst (committed late_settlement sample_stopping)"

lemma stopping_ran:
  "map_sum (\<lambda>e. ()) (\<lambda>p. (jobs (fst p), attempts (fst p), snd p)) (cancel 0 ''j1'' sample_bound) =
   Inr ([bound_job\<lparr>j_status := Cancelling\<rparr>], [bound_attempt], ())"
  by code_simp

lemma settled_ran:
  "map_sum (\<lambda>e. ()) (\<lambda>p. (map (\<lambda>r. (j_id r, j_status r, j_result r = None)) (jobs (fst p)),
     map (\<lambda>a. (a_job a, a_request_id a)) (attempts (fst p)))) (late_settlement sample_stopping) =
   Inr ([(''j1'', Cancelled, False)], [(''j1'', sample_id)])"
  by code_simp

lemma stopping_ok: "ledger_ok sample_lib 10 sample_stopping"
proof -
  have "ledger_step sample_lib 10 sample_cancelling sample_stopping"
    using ledger_value(2,3) [where t = "cancel 0 ''j1''" and s = sample_bound, OF stopping_ran]
    by (intro ledger_step.elsewhere) (simp_all add: sample_stopping_def sample_cancelling_def new_operations_def)
  from ledger_step_ok [OF this sample_states_ok(6)] show ?thesis .
qed

lemmas settled_view = committed_view [where t = late_settlement and s = sample_stopping,
     folded sample_settled_def, OF settled_ran]

lemma settled_late:
  "\<exists>r. job_row sample_settled ''j1'' = Some r \<and> (j_status r, j_result r = None) = (Cancelled, False)"
  "\<exists>a. attempt_row sample_settled ''j1'' = Some a \<and> a_request_id a = sample_id"
proof -
  from settled_view have "map (\<lambda>r. (j_id r, j_status r, j_result r = None)) (jobs sample_settled) = [(''j1'', Cancelled, False)]"
    "map (\<lambda>a. (a_job a, a_request_id a)) (attempts sample_settled) = [(''j1'', sample_id)]"
    by (simp_all only: fst_conv prod.inject ex_simps)
  from this [THEN find_only_row]
  show "\<exists>r. job_row sample_settled ''j1'' = Some r \<and> (j_status r, j_result r = None) = (Cancelled, False)"
    "\<exists>a. attempt_row sample_settled ''j1'' = Some a \<and> a_request_id a = sample_id"
    by (simp_all only: job_row_def attempt_row_def)
qed

text \<open>Claim C11. Cancellation is never overtaken and its output is never selected: from the moment a job is
cancelling, every later state has it cancelling or cancelled, and its result is empty or, once a late
receipt settled it, the fixed document that says it is cancelled, names the request of the recorded
intent and that a receipt exists; nothing the provider's receipt reports becomes the job's result.\<close>

theorem cancelling_never_selected:
  assumes "(ledger_step L B)\<^sup>*\<^sup>* s t" and "ledger_ok L B s" and "job_row s i = Some r"
    and "j_status r = Cancelling"
  shows "\<exists>r'. job_row t i = Some r' \<and> j_status r' \<in> {Cancelling, Cancelled} \<and>
    (j_result r' = None \<or>
     j_status r' = Cancelled \<and> (\<exists>a. attempt_row t i = Some a \<and>
       j_result r' = Some (JObj [(''state'', JStr ''cancelled''), (''request_id'', JStr (a_request_id a)),
                                 (''terminal_receipt_recorded'', JBool True)])))"
  using cancelling_stays [OF assms] by (simp add: cancelled_document_def)

theorem cancelling_never_selected_witness:
  "\<exists>r'. job_row sample_settled ''j1'' = Some r' \<and> j_status r' = Cancelled \<and>
     j_result r' = Some (JObj [(''state'', JStr ''cancelled''), (''request_id'', JStr sample_id),
       (''terminal_receipt_recorded'', JBool True)])"
proof -
  have r: "job_row sample_stopping ''j1'' = Some (bound_job\<lparr>j_status := Cancelling\<rparr>)"
    by (simp add: job_row_def sample_stopping_def bound_job_def leased_job_def queued_job_def)
  have "(ledger_step sample_lib 10)\<^sup>*\<^sup>* sample_stopping sample_settled"
    unfolding sample_settled_def
    by (rule committed_cases [of late_settlement sample_stopping]) (auto simp: late_settlement_def intro: ledger_step.accepted)
  from cancelling_never_selected [OF this stopping_ok r] settled_late show ?thesis by force
qed

text \<open>A job is leased at most once in its life: whatever happens in between, claim hands out
each job at most once (there is no requeue), and after that its fence, attempt id and deadline never
change, although the lease and the owner's token may.\<close>

theorem job_leased_once:
  assumes "history (ledger_step L B) (lease_granted L) s ks t" and "ledger_ok L B s"
  shows "distinct ks \<and> (\<forall>i \<in> set ks. \<not> left_queue s i \<and> left_queue t i)"
  using leases.granted_once [OF assms] leases.history_held [OF assms] by auto

theorem job_leased_once_witness:
  "\<not> left_queue sample_queued ''j1'' \<and> left_queue ledger_leased ''j1''"
proof -
  have "lease_granted sample_lib ''j1'' sample_queued ledger_leased" by (rule lease_was_granted)
  then have run: "history (ledger_step sample_lib 10) (lease_granted sample_lib) sample_queued [''j1''] ledger_leased"
    using history.granted [OF history.start] by fastforce
  from job_leased_once [OF run sample_states_ok(2)] show ?thesis by simp
qed

text \<open>Claim C18. The budget holds over the whole history: if no administrator ever enqueues with a budget
limit above B, the units reserved by all jobs, finished ones included, never exceed B, and each
request key is charged at most once.\<close>

theorem budget_never_exceeded:
  assumes "history (ledger_step L B) (charge_granted B) new_operations ks s" and "0 \<le> B"
  shows "reserved_total s \<le> B \<and> distinct ks"
  using charges.granted_once [OF assms(1) new_operations_ok [OF assms(2)]]
    charges.history_ok [OF assms(1) new_operations_ok [OF assms(2)]]
  by (simp add: ledger_ok_def)

theorem budget_never_exceeded_witness: "reserved_total ledger_queued \<le> 10 \<and> distinct [''k1'']"
proof (rule budget_never_exceeded [of sample_lib])
  have "charge_granted 10 ''k1'' new_operations ledger_queued" by (rule charge_was_granted)
  then show "history (ledger_step sample_lib 10) (charge_granted 10) new_operations [''k1''] ledger_queued"
    using history.granted [OF history.start] by fastforce
qed simp

text \<open>enqueue is idempotent: a repetition of a successful call with the same job, at any later
time and with any fresh id, returns the same job id and changes nothing, even when the budget is
exhausted by now.\<close>

theorem enqueue_idempotent:
  assumes "enqueue fresh clock kind inp key ms ru bl given s = Inr (s', j)"
    and "distinct (map j_request_key (jobs s))"
    and "positive_int bl'"
  shows "enqueue fresh' clock' kind inp key ms ru bl' given s' = Inr (s', j)"
proof -
  from assms(1) obtain opts where opts: "check_job_options kind given = Inr opts"
    and good: "\<not> (kind \<notin> {''feature'', ''training''} \<or> \<not> json_int_in ms 1 86400)"
      "\<not> (length inp \<noteq> 64 \<or> \<not> lower_hex inp)" "\<not> (key = [] \<or> \<not> positive_int ru \<or> \<not> positive_int bl)"
    unfolding enqueue_def Let_def and_then_eq_Inr if_raise_eq_Inr by blast
  have "\<exists>row. find (\<lambda>r. j_request_key r = key) (jobs s') = Some row \<and> j_id row = j \<and>
      (j_kind row, j_input_id row, j_max_seconds row, j_reserved_units row, j_options row)
        = (kind, inp, json_int ms, json_int ru, sort_keys (JObj opts))"
    using assms(1) opts
    by (auto simp: enqueue_def Let_def find_append split: option.splits if_splits)
  with opts good assms(3) show ?thesis by (auto simp: enqueue_def Let_def)
qed

theorem enqueue_idempotent_witness:
  "enqueue ''other'' 5 ''training'' sample_input ''k1'' (JInt 60) (JInt 3) (JInt 1) None ledger_queued =
     Inr (ledger_queued, ''j1'')"
  by (rule enqueue_idempotent [OF queued_value(1) [OF queued_ran]]) (simp_all add: new_operations_def positive_int_def)

text \<open>Recovery fences out the previous owner: after recover_compute handed the attempt to a new
token, every fenced operation under another token (one with another hash) raises stale_attempt, and
so does every operation that needs the live lease.\<close>

theorem recovered_owner_exclusive:
  assumes "recover_compute sha token clock i t fence now s = Inr (s', owner)"
    and "sha old \<noteq> sha token"
  shows "compute_fenced sha s' i old t' fence' = Inl stale_attempt \<and> live sha s' i old now' \<noteq> Inr row"
proof -
  from assms(1) obtain clock_t r st where row: "job_row s i = Some r"
    and s': "jobs s' = update_where (\<lambda>r. j_id r = i)
        (\<lambda>r. r\<lparr>j_lease_hash := Some (token_hash sha token), j_status := st\<rparr>) (jobs s)"
    by (auto simp: recover_compute_def Let_def and_then_eq_Inr update_job_def
        split: pyfloat.splits option.splits if_splits)
  have "job_row s' i = Some (r\<lparr>j_lease_hash := Some (token_hash sha token), j_status := st\<rparr>)"
    using job_row_touched [OF _ s', of i] row by simp
  with assms(2) show ?thesis
    by (auto simp: compute_fenced_def live_eq_Inr lease_matches_def token_hash_def)
qed

theorem recovered_owner_exclusive_witness:
  "compute_fenced sample_sha (fst (committed (recover_compute sample_sha ''new'' 0 ''j1'' (Some ''at1'') 1
     (Finite 120)) sample_bound)) ''j1'' ''tok'' ''at1'' 1 = Inl stale_attempt"
proof -
  let ?t = "recover_compute sample_sha ''new'' 0 ''j1'' (Some ''at1'') 1 (Finite 120)"
  have ran: "?t sample_bound = Inr (fst (committed ?t sample_bound), snd (projr (?t sample_bound)))"
    by (rule committed_returned) (rule recover_ran)
  have "sample_sha ''tok'' \<noteq> sample_sha ''new''" by code_simp
  from recovered_owner_exclusive [OF ran this] show ?thesis by blast
qed

text \<open>claim returns a job exactly when it should: on an unpaused hub with no active job and a
valid lease request it leases the oldest queued job, under a lease that ends no later than the job's
deadline, and otherwise it changes nothing.\<close>

theorem claim_oldest_queued:
  assumes "valid_lease ls now" and "settings s ''paused'' = Some p"
  shows "claim sha token t clock owner now ls s =
    (if p = ''1'' \<or> list_ex is_active (jobs s) \<or> (\<forall>r \<in> set (jobs s). j_status r \<noteq> Queued)
     then Inr (s, None)
     else let row = hd (filter (\<lambda>r. j_status r = Queued) (jobs s));
              deadline = job_deadline now row;
              take_row = take_job sha token t (granted_lease now ls deadline) deadline
          in Inr (record_event clock owner ''job_claimed'' (j_id row) (JObj [(''attempt_id'', JStr t)])
                    (update_job (j_id row) take_row s),
                  Some ((take_row row)\<lparr>j_lease_hash := None\<rparr>, token)))"
proof -
  have find_hd: "find P xs = (if \<forall>x \<in> set xs. \<not> P x then None else Some (hd (filter P xs)))" for P and xs :: "job list"
    by (induction xs) auto
  show ?thesis
    using assms by (simp add: claim_def setting_paused_def find_hd Let_def)
qed

theorem claim_oldest_queued_witness:
  "claim sample_sha ''x'' ''y'' 0 ''o'' (Finite 5) (JInt 10) sample_bound = Inr (sample_bound, None)"
  using claim_oldest_queued [of "JInt 10" "Finite 5" sample_bound "''0''" sample_sha "''x''" "''y''" 0 "''o''"]
  by (simp add: valid_lease_def json_int_in_def sample_bound_def new_operations_def bound_job_def leased_job_def
      queued_job_def status_simps)

text \<open>Expiry is exact: at instant t it turns into uncertain precisely the running jobs whose
lease ended at or before t, leaves every other row as it was, and returns their number; a job whose
lease still runs stays running.\<close>

theorem expire_exact:
  "expire (Finite t) s = Inr (s', n) \<longleftrightarrow>
     s' = s\<lparr>jobs := map (\<lambda>r. if j_status r = Running \<and> (\<exists>lease \<le> t. j_lease_until r = Some lease)
                            then r\<lparr>j_status := Uncertain\<rparr> else r) (jobs s)\<rparr> \<and>
     n = length (filter (\<lambda>r. j_status r = Running \<and> (\<exists>lease \<le> t. j_lease_until r = Some lease)) (jobs s))"
proof -
  have "lease_expired t = (\<lambda>r. j_status r = Running \<and> (\<exists>lease \<le> t. j_lease_until r = Some lease))"
    by (auto simp: lease_expired_def fun_eq_iff split: option.splits)
  then show ?thesis by (auto simp: expire_def update_where_def)
qed

end
