(* ===== verification/PyText.thy ===== *)
theory PyText
  imports Json
begin

text \<open>
  The Python text operations the Hub's identities rest on: \<open>str.strip\<close>, \<open>str.casefold\<close>,
  SQLite's \<open>lower\<close>, the shape of an email address, and the default \<open>json.dumps\<close> of an
  array of texts, over the code points up to 255 the model has. \<open>casefold\<close> of the micro sign,
  whose folding lies above them, leaves it as it is here.
\<close>

text \<open>White space of \<open>str.isspace\<close> and of \<open>\\s\<close> in a text pattern.\<close>

definition is_blank_char :: "char \<Rightarrow> bool" where
  "is_blank_char c \<longleftrightarrow> (let n = (of_char c :: nat) in
     n = 32 \<or> (9 \<le> n \<and> n \<le> 13) \<or> (28 \<le> n \<and> n \<le> 31) \<or> n = 133 \<or> n = 160)"

definition strip :: "string \<Rightarrow> string" where
  "strip t = rev (dropWhile is_blank_char (rev (dropWhile is_blank_char t)))"

definition casefold_char :: "char \<Rightarrow> string" where
  "casefold_char c =
     (let n = (of_char c :: nat) in
      if 65 \<le> n \<and> n \<le> 90 \<or> 192 \<le> n \<and> n \<le> 222 \<and> n \<noteq> 215 then [char_of (n + 32)]
      else if n = 223 then ''ss''
      else [c])"

definition casefold :: "string \<Rightarrow> string" where
  "casefold t = concat (map casefold_char t)"

definition sql_lower :: "string \<Rightarrow> string" where
  "sql_lower t = map (\<lambda>c. let n = (of_char c :: nat) in if 65 \<le> n \<and> n \<le> 90 then char_of (n + 32) else c) t"

text \<open>\<open>re.fullmatch(r"[^\\s@]+@[^\\s@]+", t)\<close>.\<close>

definition email_shape :: "string \<Rightarrow> bool" where
  "email_shape t \<longleftrightarrow>
     (let local = takeWhile (\<lambda>c. c \<noteq> CHR ''@'') t; rest = dropWhile (\<lambda>c. c \<noteq> CHR ''@'') t in
      local \<noteq> [] \<and> list_all (\<lambda>c. \<not> is_blank_char c) t \<and>
      (case rest of [] \<Rightarrow> False | at_sign # domain \<Rightarrow> domain \<noteq> [] \<and> CHR ''@'' \<notin> set domain))"

text \<open>\<open>json.dumps([a, ...])\<close> with its defaults: a blank after each comma, ASCII only.\<close>

definition ascii_char :: "char \<Rightarrow> string" where
  "ascii_char c =
     (if 126 < (of_char c :: nat)
      then [backslash, CHR ''u'', CHR ''0'', CHR ''0'', hex_digit (of_char c div 16), hex_digit (of_char c mod 16)]
      else escape_char c)"

definition ascii_string :: "string \<Rightarrow> string" where
  "ascii_string t = quote_char # concat (map ascii_char t) @ [quote_char]"

fun spaced :: "string list \<Rightarrow> string" where
  "spaced [] = []"
| "spaced [x] = x"
| "spaced (x # xs) = x @ '', '' @ spaced xs"

definition dumps_texts :: "string list \<Rightarrow> string" where
  "dumps_texts ts = ''['' @ spaced (map ascii_string ts) @ '']''"

text \<open>The same array with \<open>separators=(",", ":")\<close>.\<close>

definition dumps_compact :: "string list \<Rightarrow> string" where
  "dumps_compact ts = ''['' @ commas (map ascii_string ts) @ '']''"

text \<open>Folded text stays folded.\<close>

lemma casefold_char_again: "concat (map casefold_char (casefold_char c)) = casefold_char c"
proof -
  define n where "n = (of_char c :: nat)"
  have small: "n < 256" by (simp add: n_def)
  have inverse: "(of_char (char_of k :: char) :: nat) = k" if "k < 256" for k
    using that by simp
  consider "65 \<le> n \<and> n \<le> 90 \<or> 192 \<le> n \<and> n \<le> 222 \<and> n \<noteq> 215" | "n = 223"
    | "\<not> (65 \<le> n \<and> n \<le> 90 \<or> 192 \<le> n \<and> n \<le> 222 \<and> n \<noteq> 215)" "n \<noteq> 223" by blast
  then show ?thesis
  proof cases
    case 1
    then have "casefold_char c = [char_of (n + 32)]" by (simp add: casefold_char_def n_def [symmetric])
    moreover have "casefold_char (char_of (n + 32)) = [char_of (n + 32)]"
      using 1 inverse [of "n + 32"] by (auto simp: casefold_char_def Let_def)
    ultimately show ?thesis by simp
  next
    case 2
    then have "casefold_char c = ''ss''" by (simp add: casefold_char_def n_def [symmetric])
    then show ?thesis by (simp add: casefold_char_def Let_def)
  next
    case 3
    then have "casefold_char c = [c]" by (auto simp: casefold_char_def n_def [symmetric])
    then show ?thesis by simp
  qed
qed

lemma casefold_idem [simp]: "casefold (casefold t) = casefold t"
proof (induction t)
  case (Cons c t)
  then show ?case
    using casefold_char_again [of c] by (simp add: casefold_def)
qed (simp add: casefold_def)

end
