(* ===== verification/Curation.thy ===== *)
theory Curation
  imports HubSchema PyText
begin

text \<open>
  The research reservations of python/spireagent/hub/curation.py: the index of verified
  sources, the groups of runs that share a decision, the purpose each dataset reserves its
  runs for, the recorded uses, and the quality annotations. Rows are only ever added. The
  fingerprints and identities that stpd.fullrun computes for a decision record arrive as
  the columns of \<open>indexed\<close>.
\<close>

section \<open>Rows that are inserted once\<close>

definition insert_ignore :: "('r \<Rightarrow> 'k) \<Rightarrow> 'r \<Rightarrow> 'r list \<Rightarrow> 'r list" where
  "insert_ignore key row rows = (if key row \<in> key ` set rows then rows else rows @ [row])"

definition insert_all :: "('r \<Rightarrow> 'k) \<Rightarrow> 'r list \<Rightarrow> 'r list \<Rightarrow> 'r list" where
  "insert_all key new rows = fold (insert_ignore key) new rows"

lemma insert_ignore_set: "key row \<in> key ` set (insert_ignore key row rows)" "set rows \<subseteq> set (insert_ignore key row rows)"
  by (auto simp: insert_ignore_def)

lemma in_insert_ignore: "q \<in> set (insert_ignore key row rows) \<Longrightarrow> q \<in> set rows \<or> q = row"
  by (auto simp: insert_ignore_def split: if_splits)

lemma insert_all_mono: "set rows \<subseteq> set (insert_all key new rows)"
proof (induction new arbitrary: rows)
  case (Cons r new)
  show ?case
    using Cons.IH [of "insert_ignore key r rows"] insert_ignore_set(2) [of rows key r]
    by (auto simp: insert_all_def)
qed (simp add: insert_all_def)

lemma in_insert_all: "q \<in> set (insert_all key new rows) \<Longrightarrow> q \<in> set rows \<or> q \<in> set new"
proof (induction new arbitrary: rows)
  case (Cons r new)
  then show ?case
    using Cons.IH [of "insert_ignore key r rows"] in_insert_ignore [of q key r rows]
    by (auto simp: insert_all_def)
qed (simp add: insert_all_def)

lemma insert_all_keys: "key ` set (insert_all key new rows) = key ` set rows \<union> key ` set new"
  by (induction new arbitrary: rows) (auto simp: insert_all_def insert_ignore_def)

lemma insert_all_distinct: "distinct (map key rows) \<Longrightarrow> distinct (map key (insert_all key new rows))"
  by (induction new arbitrary: rows) (auto simp: insert_all_def insert_ignore_def)

section \<open>Groups of runs\<close>

text \<open>
  \<open>\_groups\<close>: the recursive query, evaluated with a queue. A run is joined to every run that
  shares one of its fingerprints.
\<close>

definition neighbours :: "(string \<times> string) list \<Rightarrow> string \<Rightarrow> string list" where
  "neighbours fps run = map snd (filter (\<lambda>(f, b). (f, run) \<in> set fps) fps)"

lemma neighbours_in: "set (neighbours fps run) \<subseteq> snd ` set fps"
  by (force simp: neighbours_def)

function connected :: "(string \<times> string) list \<Rightarrow> string list \<Rightarrow> string list \<Rightarrow> string list" where
  "connected fps [] found = found"
| "connected fps (run # queue) found =
     (let new = remdups (filter (\<lambda>b. b \<notin> set found) (neighbours fps run))
      in connected fps (queue @ new) (found @ new))"
  by pat_completeness auto
termination
proof (relation "inv_image (less_than <*lex*> less_than)
    (\<lambda>(fps, queue, found). (card (snd ` set fps - set found), length queue))")
  fix fps :: "(string \<times> string) list" and run queue found new
  assume new: "new = remdups (filter (\<lambda>b. b \<notin> set found) (neighbours fps run))"
  show "((fps, queue @ new, found @ new), (fps, run # queue, found)) \<in>
      inv_image (less_than <*lex*> less_than) (\<lambda>(fps, queue, found). (card (snd ` set fps - set found), length queue))"
  proof (cases "new = []")
    case False
    then obtain b where b: "b \<in> set new" by (cases new) auto
    with new have "b \<in> snd ` set fps - set found" using neighbours_in [of fps run] by auto
    moreover have "b \<notin> snd ` set fps - set (found @ new)" using b by simp
    ultimately have "snd ` set fps - set (found @ new) \<subset> snd ` set fps - set found" by auto
    then have "card (snd ` set fps - set (found @ new)) < card (snd ` set fps - set found)"
      by (intro psubset_card_mono) auto
    then show ?thesis by simp
  qed simp
qed (auto intro: wf_inv_image wf_lex_prod)

declare connected.simps(2) [simp del]

definition run_group :: "ops \<Rightarrow> string list \<Rightarrow> string list" where
  "run_group s runs = connected (cur_fingerprints s) (remdups runs) (remdups runs)"

text \<open>What the query means: reachability over shared fingerprints.\<close>

definition shares :: "(string \<times> string) list \<Rightarrow> (string \<times> string) set" where
  "shares fps = {(a, b). \<exists>f. (f, a) \<in> set fps \<and> (f, b) \<in> set fps}"

lemma neighbours_shares: "b \<in> set (neighbours fps a) \<longleftrightarrow> (a, b) \<in> shares fps"
  by (force simp: neighbours_def shares_def)

lemma connected_correct:
  "set queue \<subseteq> set found \<Longrightarrow> set found \<subseteq> (shares fps)\<^sup>* `` S \<Longrightarrow> S \<subseteq> set found \<Longrightarrow>
   (\<forall>a \<in> set found - set queue. \<forall>b. (a, b) \<in> shares fps \<longrightarrow> b \<in> set found) \<Longrightarrow>
   set (connected fps queue found) = (shares fps)\<^sup>* `` S"
proof (induction fps queue found rule: connected.induct)
  case (1 fps found)
  have step: "b \<in> set found" if "a \<in> set found" "(a, b) \<in> shares fps" for a b
    using 1(4) that by simp
  have "b \<in> set found" if "(a, b) \<in> (shares fps)\<^sup>*" "a \<in> set found" for a b
    using that by (induction rule: rtrancl_induct) (blast intro: step)+
  with 1(2,3) show ?case by (auto simp only: connected.simps)
next
  case (2 fps run queue found)
  let ?new = "remdups (filter (\<lambda>b. b \<notin> set found) (neighbours fps run))"
  have run: "run \<in> (shares fps)\<^sup>* `` S" using 2(2,3) by auto
  have "set (connected fps (queue @ ?new) (found @ ?new)) = (shares fps)\<^sup>* `` S"
  proof (rule 2(1) [OF refl])
    show "set (queue @ ?new) \<subseteq> set (found @ ?new)" using 2(2) by auto
    have "b \<in> (shares fps)\<^sup>* `` S" if "(run, b) \<in> shares fps" for b
      using run that by (blast intro: rtrancl_into_rtrancl)
    then show "set (found @ ?new) \<subseteq> (shares fps)\<^sup>* `` S"
      using 2(3) by (auto simp: neighbours_shares)
    show "S \<subseteq> set (found @ ?new)" using 2(4) by auto
    show "\<forall>a \<in> set (found @ ?new) - set (queue @ ?new). \<forall>b. (a, b) \<in> shares fps \<longrightarrow> b \<in> set (found @ ?new)"
    proof (intro ballI allI impI)
      fix a b
      assume a: "a \<in> set (found @ ?new) - set (queue @ ?new)" and b: "(a, b) \<in> shares fps"
      show "b \<in> set (found @ ?new)"
      proof (cases "a = run")
        case True
        with b show ?thesis by (simp add: neighbours_shares)
      next
        case False
        with a have "a \<in> set found - set (run # queue)" by auto
        with 2(5) b have "b \<in> set found" by blast
        then show ?thesis by simp
      qed
    qed
  qed
  then show ?case by (simp only: connected.simps(2) Let_def)
qed

lemma run_group_correct: "set (run_group s runs) = (shares (cur_fingerprints s))\<^sup>* `` set runs"
  unfolding run_group_def by (rule connected_correct) auto

lemma run_group_contains: "set runs \<subseteq> set (run_group s runs)"
  by (auto simp: run_group_correct)

section \<open>Indexing a verified source\<close>

record indexed =
  ix_run :: string
  ix_fingerprint :: string
  ix_occurrence :: string
  ix_decision :: string
  ix_sequence :: int
  ix_family :: string
  ix_surface :: string
  ix_action :: json

definition source_row :: "ops \<Rightarrow> string \<Rightarrow> curation_source option" where
  "source_row s source = find (\<lambda>r. cs_id r = source) (cur_sources s)"

text \<open>
  \<open>index\_source\<close> is a sequence of transactions: the first registers the source or finds it
  complete (False), one per batch of 64 records adds their rows, the last marks the source
  complete. \<open>archive\<close> is the projection's \<open>source\_sha256\<close>.
\<close>

definition index_begin :: "string \<Rightarrow> string \<Rightarrow> string \<Rightarrow> (ops, bool) tx" where
  "index_begin source scope archive s =
     and_then (digest (JStr source) ''curation.source'' 64) (\<lambda>_.
       if scope \<noteq> ''platform_verified''
       then Inl (BoundaryError ''curation'' ''verified_source_required'')
       else
         let added = s\<lparr>cur_sources := insert_ignore cs_id
               \<lparr>cs_id = source, cs_archive = archive, cs_complete = False\<rparr> (cur_sources s)\<rparr>
         in case source_row s source of
              None \<Rightarrow> Inr (added, True)
            | Some previous \<Rightarrow>
                if cs_archive previous \<noteq> archive
                then Inl (BoundaryError ''curation'' ''source_identity_conflict'')
                else if cs_complete previous then Inr (s, False)
                else Inr (added, True))"

definition index_batch :: "string \<Rightarrow> indexed list \<Rightarrow> (ops, unit) tx" where
  "index_batch source items s =
     Inr (s\<lparr>cur_details := insert_all fst
              (map (\<lambda>i. (ix_occurrence i, ix_sequence i, ix_family i, ix_surface i, ix_action i)) items)
              (cur_details s),
            cur_source_runs := insert_all id (map (\<lambda>i. (source, ix_run i)) items) (cur_source_runs s),
            cur_fingerprints := insert_all id (map (\<lambda>i. (ix_fingerprint i, ix_run i)) items)
              (cur_fingerprints s),
            cur_occurrences := insert_all fst
              (map (\<lambda>i. (ix_occurrence i, ix_run i, ix_decision i)) items) (cur_occurrences s)\<rparr>, ())"

definition index_finish :: "string \<Rightarrow> (ops, unit) tx" where
  "index_finish source s =
     Inr (s\<lparr>cur_sources := update_where (\<lambda>r. cs_id r = source) (\<lambda>r. r\<lparr>cs_complete := True\<rparr>)
              (cur_sources s)\<rparr>, ())"

function batches :: "'r list \<Rightarrow> 'r list list" where
  "batches records = (if records = [] then [] else take 64 records # batches (drop 64 records))"
  by pat_completeness auto
termination by (relation "measure length") auto

text \<open>
  The whole call on a projection of \<open>ResearchTransitionV2\<close> records; a record of another
  class makes its batch fail, after the earlier ones are committed (\<open>None\<close> here).
\<close>

fun index_batches :: "string \<Rightarrow> indexed option list list \<Rightarrow> ops \<Rightarrow> ops \<times> unit result" where
  "index_batches source [] s = committed (index_finish source) s"
| "index_batches source (batch # rest) s =
     (if None \<in> set batch then (s, Inl (BoundaryError ''curation'' ''typed_occurrence_required''))
      else index_batches source rest (fst (committed (index_batch source (map the batch)) s)))"

definition index_source :: "string \<Rightarrow> string \<Rightarrow> string \<Rightarrow> indexed option list \<Rightarrow> ops \<Rightarrow> ops \<times> unit result" where
  "index_source source scope archive records s =
     (case index_begin source scope archive s of
        Inl e \<Rightarrow> (s, Inl e)
      | Inr (s1, False) \<Rightarrow> (s1, Inr ())
      | Inr (s1, True) \<Rightarrow> index_batches source (batches records) s1)"

section \<open>Reservations\<close>

definition purposes :: "string list" where
  "purposes = [''training'', ''test'', ''gold'']"

definition claims_of :: "ops \<Rightarrow> string list \<Rightarrow> curation_claim list" where
  "claims_of s runs = filter (\<lambda>c. \<exists>run \<in> set runs. (c_id c, run) \<in> set (cur_claim_runs s)) (cur_claims s)"

definition claim_runs :: "ops \<Rightarrow> string \<Rightarrow> string list" where
  "claim_runs s identity = map snd (filter (\<lambda>cr. fst cr = identity) (cur_claim_runs s))"

definition annotation_revision :: "ops \<Rightarrow> int" where
  "annotation_revision s = fold max (map an_sequence (cur_annotations s)) 0"

definition receipt_evidence :: "upload \<Rightarrow> json" where
  "receipt_evidence u =
     (case u_receipt u of
        Some (JObj kvs) \<Rightarrow> (case map_of kvs ''evidence_id'' of None \<Rightarrow> JNull | Some v \<Rightarrow> v)
      | _ \<Rightarrow> JNull)"

text \<open>A verified upload without a completely indexed source keeps Gold from being sealed.\<close>

definition inventory_pending :: "ops \<Rightarrow> bool" where
  "inventory_pending s =
     list_ex (\<lambda>u. u_status u = Verified \<and>
        \<not> list_ex (\<lambda>c. JStr (cs_id c) = receipt_evidence u \<and> cs_complete c) (cur_sources s)) (uploads s)"

definition purpose_conflict :: "string \<Rightarrow> string list \<Rightarrow> curation_claim \<Rightarrow> unit result" where
  "purpose_conflict purpose gold_parents c =
     (if purpose = ''gold'' then
        (if c_purpose c \<noteq> ''gold'' then Inl (BoundaryError ''curation'' ''gold_already_in_other_dataset'')
         else if \<not> (case c_artifact c of None \<Rightarrow> False | Some a \<Rightarrow> a \<in> set gold_parents)
         then Inl (BoundaryError ''curation'' ''gold_requires_gold_merge'')
         else Inr ())
      else if c_purpose c = ''gold'' then Inl (BoundaryError ''curation'' ''gold_reserved_data'')
      else Inr ())"

definition used_for_training :: "ops \<Rightarrow> string \<Rightarrow> bool" where
  "used_for_training s run \<longleftrightarrow>
     list_ex (\<lambda>(r, kind, reference, t). r = run \<and> kind = ''training'') (cur_uses s) \<or>
     list_ex (\<lambda>(source, kind, reference). kind = ''training'' \<and> (source, run) \<in> set (cur_source_runs s))
       (cur_source_uses s)"

definition gold_parent_claim :: "ops \<Rightarrow> string \<Rightarrow> unit result" where
  "gold_parent_claim s parent =
     (case find (\<lambda>c. c_artifact c = Some parent) (cur_claims s) of
        None \<Rightarrow> Inl (BoundaryError ''curation'' ''gold_merge_requires_only_gold'')
      | Some c \<Rightarrow>
          if c_purpose c \<noteq> ''gold'' then Inl (BoundaryError ''curation'' ''gold_merge_requires_only_gold'')
          else Inr ())"

definition claim_purpose ::
  "real \<Rightarrow> string \<Rightarrow> json \<Rightarrow> string list \<Rightarrow> string list \<Rightarrow> bool \<Rightarrow> int option \<Rightarrow> (ops, unit) tx" where
  "claim_purpose clock identity raw_purpose runs gold_parents require_inventory revision s =
     (case raw_purpose of
        JStr purpose \<Rightarrow>
          if purpose \<notin> set purposes then Inl (BoundaryError ''curation'' ''invalid_dataset_purpose'')
          else if runs = [] then Inl (BoundaryError ''curation'' ''empty_selection'')
          else if revision \<notin> {None, Some (annotation_revision s)}
          then Inl (BoundaryError ''curation'' ''quality_annotations_changed'')
          else if purpose = ''gold'' \<and> require_inventory \<and> inventory_pending s
          then Inl (BoundaryError ''curation'' ''gold_source_inventory_pending'')
          else if (case find (\<lambda>c. c_id c = identity) (cur_claims s) of
                     None \<Rightarrow> False
                   | Some old \<Rightarrow> c_purpose old \<noteq> purpose \<or> set (claim_runs s identity) \<noteq> set runs)
          then Inl (BoundaryError ''curation'' ''reservation_identity_conflict'')
          else
            let related = run_group s runs in
            and_then (each (purpose_conflict purpose gold_parents)
                (filter (\<lambda>c. c_id c \<noteq> identity) (claims_of s related))) (\<lambda>_.
            if gold_parents \<noteq> [] \<and> purpose \<noteq> ''gold''
            then Inl (BoundaryError ''curation'' ''gold_merge_must_remain_gold'')
            else
              and_then (each (gold_parent_claim s) gold_parents) (\<lambda>_.
              if purpose = ''gold'' \<and> list_ex (used_for_training s) related
              then Inl (BoundaryError ''curation'' ''gold_previously_used_for_training'')
              else
                Inr (s\<lparr>cur_claims := insert_ignore c_id
                         \<lparr>c_id = identity, c_purpose = purpose, c_artifact = None, c_created = clock\<rparr>
                         (cur_claims s),
                       cur_claim_runs := insert_all id (map (\<lambda>r. (identity, r)) (sort (remdups runs)))
                         (cur_claim_runs s)\<rparr>, ())))
      | _ \<Rightarrow> Inl (BoundaryError ''curation'' ''invalid_dataset_purpose''))"

definition bind_claim :: "string \<Rightarrow> string \<Rightarrow> (ops, unit) tx" where
  "bind_claim identity artifact s =
     and_then (digest (JStr artifact) ''curation.artifact'' 64) (\<lambda>_.
       case find (\<lambda>c. c_id c = identity) (cur_claims s) of
         None \<Rightarrow> Inl (BoundaryError ''curation'' ''reservation_identity_conflict'')
       | Some old \<Rightarrow>
           if c_artifact old \<notin> {None, Some artifact}
           then Inl (BoundaryError ''curation'' ''reservation_identity_conflict'')
           else Inr (s\<lparr>cur_claims := update_where (\<lambda>c. c_id c = identity)
                         (\<lambda>c. c\<lparr>c_artifact := Some artifact\<rparr>) (cur_claims s)\<rparr>, ()))"

definition dataset :: "string \<Rightarrow> (ops, (string \<times> string list) option) tx" where
  "dataset artifact s =
     (case find (\<lambda>c. c_artifact c = Some artifact) (cur_claims s) of
        None \<Rightarrow> Inr (s, None)
      | Some c \<Rightarrow> Inr (s, Some (c_purpose c, claim_runs s (c_id c))))"

definition overlap :: "string list \<Rightarrow> string list \<Rightarrow> (ops, bool \<times> nat) tx" where
  "overlap left right s =
     (let common = set (run_group s left) \<inter> set (run_group s right)
      in Inr (s, (common \<noteq> {}, card common)))"

section \<open>Uses\<close>

definition gold_among :: "ops \<Rightarrow> string list \<Rightarrow> bool" where
  "gold_among s runs = list_ex (\<lambda>c. c_purpose c = ''gold'') (claims_of s runs)"

definition use_runs :: "real \<Rightarrow> string list \<Rightarrow> string \<Rightarrow> string \<Rightarrow> (ops, unit) tx" where
  "use_runs clock runs kind reference s =
     (if kind \<notin> {''training'', ''download''} then Inl (BoundaryError ''curation'' ''invalid_use'')
      else
        let related = run_group s runs in
        if gold_among s related then Inl (BoundaryError ''curation'' ''gold_reserved_data'')
        else Inr (s\<lparr>cur_uses := insert_all (\<lambda>(r, k, ref, t). (r, k, ref))
                (map (\<lambda>r. (r, kind, reference, clock)) related) (cur_uses s)\<rparr>, ()))"

definition has_gold :: "ops \<Rightarrow> bool" where
  "has_gold s = list_ex (\<lambda>c. c_purpose c = ''gold'') (cur_claims s)"

definition runs_of_source :: "ops \<Rightarrow> string \<Rightarrow> string list" where
  "runs_of_source s source = map snd (filter (\<lambda>sr. fst sr = source) (cur_source_runs s))"

definition source_complete :: "ops \<Rightarrow> string \<Rightarrow> bool" where
  "source_complete s source = (case source_row s source of None \<Rightarrow> False | Some r \<Rightarrow> cs_complete r)"

definition use_source :: "string \<Rightarrow> string \<Rightarrow> string \<Rightarrow> (ops, unit) tx" where
  "use_source source kind reference s =
     (if kind \<notin> {''training'', ''download''} then Inl (BoundaryError ''curation'' ''invalid_use'')
      else if gold_among s (run_group s (runs_of_source s source))
      then Inl (BoundaryError ''curation'' ''gold_reserved_data'')
      else if has_gold s \<and> \<not> source_complete s source
      then Inl (BoundaryError ''curation'' ''source_isolation_index_pending'')
      else Inr (s\<lparr>cur_source_uses := insert_ignore id (source, kind, reference) (cur_source_uses s)\<rparr>, ()))"

definition source_runs :: "string \<Rightarrow> (ops, string list option) tx" where
  "source_runs source s =
     Inr (s, if source_complete s source then Some (runs_of_source s source) else None)"

section \<open>Annotations\<close>

definition annotate :: "real \<Rightarrow> string \<Rightarrow> string \<Rightarrow> json \<Rightarrow> json \<Rightarrow> (ops, int) tx" where
  "annotate clock occurrence actor action reason s =
     and_then (digest (JStr occurrence) ''curation.occurrence'' 64) (\<lambda>_.
       case (action, reason) of
         (JStr act, JStr why) \<Rightarrow>
           if act \<notin> {''flag'', ''exclude'', ''restore''} \<or> strip why = [] \<or> 500 < length (strip why)
           then Inl (BoundaryError ''curation'' ''invalid_annotation'')
           else if occurrence \<notin> fst ` set (cur_occurrences s)
           then Inl (BoundaryError ''curation'' ''occurrence_not_found'')
           else
             let n = annotation_revision s + 1 in
             Inr (s\<lparr>cur_annotations := cur_annotations s @
                    [\<lparr>an_sequence = n, an_occurrence = occurrence, an_actor = actor, an_action = act,
                      an_reason = strip why, an_at = clock\<rparr>]\<rparr>, n)
       | _ \<Rightarrow> Inl (BoundaryError ''curation'' ''invalid_annotation''))"

text \<open>The latest annotation of each occurrence of the given runs, with the revision it was read at.\<close>

definition latest_annotation :: "ops \<Rightarrow> string \<Rightarrow> annotation option" where
  "latest_annotation s occurrence =
     find (\<lambda>a. \<forall>b \<in> set (cur_annotations s). an_occurrence b = occurrence \<longrightarrow> an_sequence b \<le> an_sequence a)
       (filter (\<lambda>a. an_occurrence a = occurrence) (cur_annotations s))"

definition annotations :: "string list \<Rightarrow> (ops, int \<times> (string \<times> annotation) list) tx" where
  "annotations runs s =
     Inr (s, annotation_revision s,
          List.map_filter (\<lambda>(occ, run, decision).
              if run \<in> set runs then map_option (Pair occ) (latest_annotation s occ) else None)
            (cur_occurrences s))"

definition annotation_history :: "string \<Rightarrow> (ops, annotation list) tx" where
  "annotation_history occurrence s =
     and_then (digest (JStr occurrence) ''curation.occurrence'' 64) (\<lambda>_.
       Inr (s, filter (\<lambda>a. an_occurrence a = occurrence) (cur_annotations s)))"

section \<open>Gold stays isolated\<close>

inductive curation_step :: "ops \<Rightarrow> ops \<Rightarrow> bool" where
  began: "index_begin source scope archive s = Inr (s', b) \<Longrightarrow> curation_step s s'"
| indexed: "index_batch source items s = Inr (s', u) \<Longrightarrow> curation_step s s'"
| finished: "index_finish source s = Inr (s', u) \<Longrightarrow> curation_step s s'"
| reserved: "claim_purpose clock identity purpose runs parents inventory revision s = Inr (s', u) \<Longrightarrow>
    curation_step s s'"
| bound: "bind_claim identity artifact s = Inr (s', u) \<Longrightarrow> curation_step s s'"
| used: "use_runs clock runs kind reference s = Inr (s', u) \<Longrightarrow> curation_step s s'"
| source_used: "use_source source kind reference s = Inr (s', u) \<Longrightarrow> curation_step s s'"
| annotated: "annotate clock occurrence actor action reason s = Inr (s', n) \<Longrightarrow> curation_step s s'"
| elsewhere: "cur_fingerprints s' = cur_fingerprints s \<Longrightarrow> cur_claims s' = cur_claims s \<Longrightarrow>
    cur_claim_runs s' = cur_claim_runs s \<Longrightarrow> cur_uses s' = cur_uses s \<Longrightarrow> cur_sources s' = cur_sources s \<Longrightarrow>
    cur_source_runs s' = cur_source_runs s \<Longrightarrow> cur_source_uses s' = cur_source_uses s \<Longrightarrow> curation_step s s'"

definition trained :: "ops \<Rightarrow> string \<Rightarrow> bool" where
  "trained s run \<longleftrightarrow> list_ex (\<lambda>(r, kind, reference, t). r = run \<and> kind = ''training'') (cur_uses s)"

definition reserved_for :: "ops \<Rightarrow> string \<Rightarrow> string \<Rightarrow> bool" where
  "reserved_for s purpose run \<longleftrightarrow>
     (\<exists>c \<in> set (cur_claims s). c_purpose c = purpose \<and> (c_id c, run) \<in> set (cur_claim_runs s))"

text \<open>Nothing the ledger knows is forgotten.\<close>

definition remembers :: "ops \<Rightarrow> ops \<Rightarrow> bool" where
  "remembers s s' \<longleftrightarrow> set (cur_fingerprints s) \<subseteq> set (cur_fingerprints s') \<and>
     (\<forall>run. trained s run \<longrightarrow> trained s' run) \<and>
     (\<forall>purpose run. reserved_for s purpose run \<longrightarrow> reserved_for s' purpose run)"

definition curation_keyed :: "ops \<Rightarrow> bool" where
  "curation_keyed s \<longleftrightarrow> distinct (map c_id (cur_claims s)) \<and>
     fst ` set (cur_claim_runs s) \<subseteq> c_id ` set (cur_claims s)"

lemma claim_purpose_returned:
  assumes "claim_purpose clock identity raw runs parents inventory revision s = Inr (s', u)"
  obtains purpose where "raw = JStr purpose" "purpose \<in> set purposes" "runs \<noteq> []"
    "purpose = ''gold'' \<and> inventory \<longrightarrow> \<not> inventory_pending s"
    "\<And>old. find (\<lambda>c. c_id c = identity) (cur_claims s) = Some old \<Longrightarrow>
       c_purpose old = purpose \<and> set (claim_runs s identity) = set runs"
    "\<And>c run. c \<in> set (cur_claims s) \<Longrightarrow> c_id c \<noteq> identity \<Longrightarrow> run \<in> set (run_group s runs) \<Longrightarrow>
       (c_id c, run) \<in> set (cur_claim_runs s) \<Longrightarrow> (c_purpose c = ''gold'') = (purpose = ''gold'')"
    "purpose = ''gold'' \<longrightarrow> (\<forall>run \<in> set (run_group s runs). \<not> used_for_training s run)"
    "s' = s\<lparr>cur_claims := insert_ignore c_id
         \<lparr>c_id = identity, c_purpose = purpose, c_artifact = None, c_created = clock\<rparr> (cur_claims s),
       cur_claim_runs := insert_all id (map (\<lambda>r. (identity, r)) (sort (remdups runs))) (cur_claim_runs s)\<rparr>"
proof -
  obtain purpose where raw: "raw = JStr purpose"
    using assms by (cases raw) (auto simp: claim_purpose_def)
  from assms obtain us vs where
    checks: "\<not> purpose \<notin> set purposes" "runs \<noteq> []" "\<not> (purpose = ''gold'' \<and> inventory \<and> inventory_pending s)"
      "\<not> (case find (\<lambda>c. c_id c = identity) (cur_claims s) of None \<Rightarrow> False
           | Some old \<Rightarrow> c_purpose old \<noteq> purpose \<or> set (claim_runs s identity) \<noteq> set runs)"
    and others: "each (purpose_conflict purpose parents)
         (filter (\<lambda>c. c_id c \<noteq> identity) (claims_of s (run_group s runs))) = Inr us"
    and unused: "\<not> (purpose = ''gold'' \<and> list_ex (used_for_training s) (run_group s runs))"
    and s': "Inr (s\<lparr>cur_claims := insert_ignore c_id
         \<lparr>c_id = identity, c_purpose = purpose, c_artifact = None, c_created = clock\<rparr> (cur_claims s),
       cur_claim_runs := insert_all id (map (\<lambda>r. (identity, r)) (sort (remdups runs))) (cur_claim_runs s)\<rparr>, ())
       = (Inr (s', u) :: (ops \<times> unit) result)"
    unfolding claim_purpose_def raw json.case Let_def and_then_eq_Inr if_raise_eq_Inr by blast
  have conflict: "(c_purpose c = ''gold'') = (purpose = ''gold'')"
    if c: "c \<in> set (cur_claims s)" "c_id c \<noteq> identity" "run \<in> set (run_group s runs)"
      "(c_id c, run) \<in> set (cur_claim_runs s)" for c run
  proof -
    have "c \<in> set (filter (\<lambda>c. c_id c \<noteq> identity) (claims_of s (run_group s runs)))"
      using c by (auto simp: claims_of_def)
    from each_in_set [OF others this] obtain v where "purpose_conflict purpose parents c = Inr v" by blast
    then show ?thesis by (auto simp: purpose_conflict_def split: if_splits)
  qed
  show thesis
    by (rule that [of purpose])
      (use raw checks unused s' conflict in \<open>auto simp: list_ex_iff\<close>)
qed

lemma reserved_for_claim:
  assumes "claim_purpose clock identity raw runs parents inventory revision s = Inr (s', u)"
    and "curation_keyed s" and "raw = JStr purpose"
  shows "reserved_for s' p run \<longleftrightarrow> reserved_for s p run \<or> p = purpose \<and> run \<in> set runs"
  using assms(1)
proof (cases rule: claim_purpose_returned)
  case (1 purpose')
  with assms(3) have purpose: "purpose' = purpose" by simp
  have runs': "(i, r) \<in> set (cur_claim_runs s') \<longleftrightarrow> (i, r) \<in> set (cur_claim_runs s) \<or> i = identity \<and> r \<in> set runs" for i r
    using insert_all_keys [of id "map (\<lambda>r. (identity, r)) (sort (remdups runs))" "cur_claim_runs s"]
    by (auto simp: 1(8))
  show ?thesis
  proof (cases "find (\<lambda>c. c_id c = identity) (cur_claims s)")
    case (Some old)
    then have old: "old \<in> set (cur_claims s)" "c_id old = identity" by (auto dest: find_key_Some)
    then have "cur_claims s' = cur_claims s" by (auto simp: 1(8) insert_ignore_def)
    moreover have "c_purpose c = purpose" if "c \<in> set (cur_claims s)" "c_id c = identity" for c
      using that assms(2) 1(5) [OF Some] Some purpose
      by (auto simp: curation_keyed_def dest: find_key_unique)
    moreover have "r \<in> set runs \<longleftrightarrow> (identity, r) \<in> set (cur_claim_runs s)" for r
      using 1(5) [OF Some] by (force simp: claim_runs_def)
    ultimately show ?thesis using old by (auto simp: reserved_for_def runs')
  next
    case None
    then have fresh: "identity \<notin> c_id ` set (cur_claims s)" by (auto simp: find_None_iff)
    then have "set (cur_claims s') = insert \<lparr>c_id = identity, c_purpose = purpose, c_artifact = None, c_created = clock\<rparr>
        (set (cur_claims s))"
      by (auto simp: 1(8) insert_ignore_def purpose)
    moreover have "(identity, r) \<notin> set (cur_claim_runs s)" for r
      using fresh assms(2) by (force simp: curation_keyed_def)
    ultimately show ?thesis using fresh by (auto simp: reserved_for_def runs')
  qed
qed

definition purpose_pairs :: "ops \<Rightarrow> (string \<times> string) list" where
  "purpose_pairs s = map (\<lambda>c. (c_id c, c_purpose c)) (cur_claims s)"

lemma reserved_for_pairs:
  "reserved_for s p run \<longleftrightarrow> (\<exists>i. (i, p) \<in> set (purpose_pairs s) \<and> (i, run) \<in> set (cur_claim_runs s))"
  by (auto simp: reserved_for_def purpose_pairs_def)

lemma curation_keyed_pairs:
  "curation_keyed s \<longleftrightarrow> distinct (map fst (purpose_pairs s)) \<and>
     fst ` set (cur_claim_runs s) \<subseteq> fst ` set (purpose_pairs s)"
  by (auto simp: curation_keyed_def purpose_pairs_def comp_def image_image)

lemma bind_claim_pairs:
  assumes "bind_claim identity artifact s = Inr (s', u)"
  shows "purpose_pairs s' = purpose_pairs s \<and> cur_claim_runs s' = cur_claim_runs s \<and>
    cur_uses s' = cur_uses s \<and> cur_fingerprints s' = cur_fingerprints s"
proof -
  let ?f = "\<lambda>c. c\<lparr>c_artifact := Some artifact\<rparr>"
  from assms have "s' = s\<lparr>cur_claims := update_where (\<lambda>c. c_id c = identity) ?f (cur_claims s)\<rparr>"
    by (auto simp: bind_claim_def and_then_eq_Inr split: option.splits if_splits)
  then show ?thesis
    by (simp add: purpose_pairs_def map_update_where)
qed

lemma use_runs_returned:
  assumes "use_runs clock runs kind reference s = Inr (s', u)"
  shows "\<And>run. run \<in> set (run_group s runs) \<Longrightarrow> \<not> reserved_for s ''gold'' run"
    and "trained s' run \<longleftrightarrow> trained s run \<or> kind = ''training'' \<and> run \<in> set (run_group s runs)"
    and "purpose_pairs s' = purpose_pairs s \<and> cur_claim_runs s' = cur_claim_runs s \<and>
      cur_fingerprints s' = cur_fingerprints s"
proof -
  let ?new = "map (\<lambda>r. (r, kind, reference, clock)) (run_group s runs)"
  from assms have quiet: "\<not> gold_among s (run_group s runs)"
    and s': "s' = s\<lparr>cur_uses := insert_all (\<lambda>(r, k, ref, t). (r, k, ref)) ?new (cur_uses s)\<rparr>"
    by (auto simp: use_runs_def Let_def split: if_splits)
  show "\<not> reserved_for s ''gold'' run" if "run \<in> set (run_group s runs)" for run
    using quiet that by (auto simp: gold_among_def list_ex_iff claims_of_def reserved_for_def)
  have image: "(r, k, ref) \<in> (\<lambda>(r, k, ref, t). (r, k, ref)) ` S \<longleftrightarrow> (\<exists>t. (r, k, ref, t) \<in> S)"
    for r k ref :: string and S :: "(string \<times> string \<times> string \<times> real) set"
    by force
  have key: "trained q run \<longleftrightarrow> (\<exists>ref. (run, ''training'', ref) \<in> (\<lambda>(r, k, ref, t). (r, k, ref)) ` set (cur_uses q))" for q
    unfolding image by (auto simp: trained_def list_ex_iff)
  show "trained s' run \<longleftrightarrow> trained s run \<or> kind = ''training'' \<and> run \<in> set (run_group s runs)"
  proof -
    have "(\<lambda>(r, k, ref, t). (r, k, ref)) ` set (cur_uses s') =
        (\<lambda>(r, k, ref, t). (r, k, ref)) ` set (cur_uses s) \<union> (\<lambda>r. (r, kind, reference)) ` set (run_group s runs)"
      by (simp add: s' insert_all_keys image_image)
    then have "(run, ''training'', ref) \<in> (\<lambda>(r, k, ref, t). (r, k, ref)) ` set (cur_uses s') \<longleftrightarrow>
        (run, ''training'', ref) \<in> (\<lambda>(r, k, ref, t). (r, k, ref)) ` set (cur_uses s) \<or>
        kind = ''training'' \<and> ref = reference \<and> run \<in> set (run_group s runs)" for ref
      by (simp only: Un_iff) blast
    then show ?thesis unfolding key by blast
  qed
  show "purpose_pairs s' = purpose_pairs s \<and> cur_claim_runs s' = cur_claim_runs s \<and>
      cur_fingerprints s' = cur_fingerprints s" by (simp add: s' purpose_pairs_def)
qed

lemma trained_used: "trained s run \<Longrightarrow> used_for_training s run"
  by (auto simp: trained_def used_for_training_def)

text \<open>Every transaction but the reservation, the binding and the use leaves those tables alone.\<close>

lemma curation_step_cases:
  assumes "curation_step s s'"
  obtains (reserve) clock identity purpose runs parents inventory revision u where
      "claim_purpose clock identity purpose runs parents inventory revision s = Inr (s', u)"
  | (use) clock runs kind reference u where "use_runs clock runs kind reference s = Inr (s', u)"
  | (other) "purpose_pairs s' = purpose_pairs s" "cur_claim_runs s' = cur_claim_runs s" "cur_uses s' = cur_uses s"
      "set (cur_fingerprints s) \<subseteq> set (cur_fingerprints s')"
  using assms
proof (cases rule: curation_step.cases)
  case (began source scope archive b)
  then show thesis
    by (intro other) (auto simp: index_begin_def Let_def and_then_eq_Inr purpose_pairs_def split: if_splits option.splits)
next
  case (indexed source items u)
  then show thesis
    by (intro other) (auto simp: index_batch_def purpose_pairs_def intro: insert_all_mono [THEN subsetD])
next
  case (finished source u)
  then show thesis by (intro other) (auto simp: index_finish_def purpose_pairs_def)
next
  case (source_used source kind reference u)
  then show thesis by (intro other) (auto simp: use_source_def purpose_pairs_def split: if_splits)
next
  case (annotated clock occurrence actor action reason n)
  then show thesis
    by (intro other) (auto simp: annotate_def Let_def and_then_eq_Inr purpose_pairs_def split: json.splits if_splits)
next
  case (bound identity artifact u)
  from bind_claim_pairs [OF this] show thesis by (intro other) auto
next
  case elsewhere
  then show thesis by (intro other) (auto simp: purpose_pairs_def)
qed (rule that, assumption)+

lemma claim_purpose_keyed:
  assumes "claim_purpose clock identity raw runs parents inventory revision s = Inr (s', u)"
    and "curation_keyed s"
  shows "curation_keyed s'"
  using assms(1)
proof (cases rule: claim_purpose_returned)
  case (1 purpose)
  have ids: "fst ` set (cur_claim_runs s') \<subseteq> insert identity (fst ` set (cur_claim_runs s))"
    using insert_all_keys [of id "map (\<lambda>r. (identity, r)) (sort (remdups runs))" "cur_claim_runs s"]
    by (auto simp: 1(8))
  have "c_id ` set (cur_claims s') = insert identity (c_id ` set (cur_claims s))"
    by (auto simp: 1(8) insert_ignore_def)
  moreover have "fst ` set (cur_claim_runs s) \<subseteq> c_id ` set (cur_claims s)"
    using assms(2) by (simp add: curation_keyed_def)
  note order_trans [OF ids insert_mono [OF this]]
  moreover have "distinct (map c_id (cur_claims s'))"
    using assms(2) by (auto simp: 1(8) insert_ignore_def curation_keyed_def)
  ultimately show ?thesis by (simp add: curation_keyed_def)
qed

lemma curation_step_keyed:
  assumes "curation_step s s'" and "curation_keyed s"
  shows "curation_keyed s'"
  using assms(1)
proof (cases rule: curation_step_cases)
  case (reserve clock identity purpose runs parents inventory revision u)
  then show ?thesis using assms(2) by (rule claim_purpose_keyed)
next
  case (use clock runs kind reference u)
  from use_runs_returned(3) [OF use] assms(2) show ?thesis by (simp add: curation_keyed_pairs)
next
  case other
  with assms(2) show ?thesis by (simp add: curation_keyed_pairs)
qed

text \<open>The tables the isolation rests on, before and after one step.\<close>

lemma curation_step_effect:
  assumes "curation_step s s'" and "curation_keyed s"
  shows "set (cur_fingerprints s) \<subseteq> set (cur_fingerprints s') \<and>
    ((\<exists>purpose runs. set runs \<subseteq> {r. purpose = ''gold'' \<longrightarrow> \<not> trained s r} \<and>
        (\<forall>p r. p \<in> set purposes \<longrightarrow> r \<in> set runs \<longrightarrow> reserved_for s p r \<longrightarrow> (p = ''gold'') = (purpose = ''gold'')) \<and>
        (\<forall>r. trained s' r = trained s r) \<and>
        (\<forall>p r. reserved_for s' p r = (reserved_for s p r \<or> p = purpose \<and> r \<in> set runs))) \<or>
     (\<exists>runs. (\<forall>r \<in> set runs. \<not> reserved_for s ''gold'' r) \<and>
        (\<forall>p r. reserved_for s' p r = reserved_for s p r) \<and>
        (\<forall>r. trained s' r \<longrightarrow> trained s r \<or> r \<in> set runs) \<and> (\<forall>r. trained s r \<longrightarrow> trained s' r)))"
  using assms(1)
proof (cases rule: curation_step_cases)
  case (reserve clock identity raw runs parents inventory revision u)
  from reserve show ?thesis
  proof (cases rule: claim_purpose_returned)
    case (1 purpose)
    have inside: "set runs \<subseteq> set (run_group s runs)" by (rule run_group_contains)
    have "set runs \<subseteq> {r. purpose = ''gold'' \<longrightarrow> \<not> trained s r}"
      using 1(7) inside trained_used by blast
    moreover have "(p = ''gold'') = (purpose = ''gold'')" if "r \<in> set runs" "reserved_for s p r" for p r
    proof -
      from that(2) obtain c where c: "c \<in> set (cur_claims s)" "c_purpose c = p" "(c_id c, r) \<in> set (cur_claim_runs s)"
        by (auto simp: reserved_for_def)
      show ?thesis
      proof (cases "c_id c = identity")
        case True
        with c(1) assms(2) have "find (\<lambda>d. c_id d = identity) (cur_claims s) = Some c"
          by (auto simp: curation_keyed_def find_key_distinct)
        from 1(5) [OF this] c(2) show ?thesis by simp
      next
        case False
        from 1(6) [OF c(1) False _ c(3)] inside that(1) c(2) show ?thesis by blast
      qed
    qed
    moreover have "trained s' r = trained s r" for r by (simp add: 1(8) trained_def)
    moreover note reserved_for_claim [OF reserve assms(2) 1(1)]
    ultimately have "\<exists>purpose runs. set runs \<subseteq> {r. purpose = ''gold'' \<longrightarrow> \<not> trained s r} \<and>
        (\<forall>p r. p \<in> set purposes \<longrightarrow> r \<in> set runs \<longrightarrow> reserved_for s p r \<longrightarrow> (p = ''gold'') = (purpose = ''gold'')) \<and>
        (\<forall>r. trained s' r = trained s r) \<and>
        (\<forall>p r. reserved_for s' p r = (reserved_for s p r \<or> p = purpose \<and> r \<in> set runs))"
      by (intro exI [of _ purpose] exI [of _ runs]) blast
    moreover have "cur_fingerprints s' = cur_fingerprints s" by (simp add: 1(8))
    ultimately show ?thesis by simp
  qed
next
  case (use clock runs kind reference u)
  note use_runs_returned [OF use]
  then show ?thesis
    by (intro conjI disjI2 exI [of _ "run_group s runs"]) (auto simp: reserved_for_pairs)
next
  case other
  then show ?thesis
    by (intro conjI disjI2 exI [of _ "[]"]) (auto simp: reserved_for_pairs trained_def)
qed

lemma curation_step_remembers: "curation_step s s' \<Longrightarrow> curation_keyed s \<Longrightarrow> remembers s s'"
  using curation_step_effect [of s s'] unfolding remembers_def by blast

lemma curation_steps_remember:
  "curation_step\<^sup>*\<^sup>* s s' \<Longrightarrow> curation_keyed s \<Longrightarrow> remembers s s' \<and> curation_keyed s'"
proof (induction rule: rtranclp_induct)
  case base
  then show ?case by (simp add: remembers_def)
next
  case (step t u)
  with curation_step_remembers [OF step.hyps(2)] curation_step_keyed [OF step.hyps(2)]
  show ?case unfolding remembers_def by blast
qed

definition isolated :: "ops \<Rightarrow> bool" where
  "isolated s \<longleftrightarrow> curation_keyed s \<and>
     (\<forall>run. reserved_for s ''gold'' run \<longrightarrow> \<not> trained s run \<and>
        \<not> reserved_for s ''training'' run \<and> \<not> reserved_for s ''test'' run)"

lemma curation_step_isolated:
  assumes "curation_step s s'" and "isolated s"
  shows "isolated s'"
proof -
  have keyed: "curation_keyed s" using assms(2) by (simp add: isolated_def)
  have old: "\<not> trained s r \<and> \<not> reserved_for s ''training'' r \<and> \<not> reserved_for s ''test'' r"
    if "reserved_for s ''gold'' r" for r
    using assms(2) that by (simp add: isolated_def)
  from curation_step_effect [OF assms(1) keyed] consider
    (reserve) purpose runs where "set runs \<subseteq> {r. purpose = ''gold'' \<longrightarrow> \<not> trained s r}"
      "\<forall>p r. p \<in> set purposes \<longrightarrow> r \<in> set runs \<longrightarrow> reserved_for s p r \<longrightarrow> (p = ''gold'') = (purpose = ''gold'')"
      "\<forall>r. trained s' r = trained s r"
      "\<forall>p r. reserved_for s' p r = (reserved_for s p r \<or> p = purpose \<and> r \<in> set runs)"
  | (use) runs where "\<forall>r \<in> set runs. \<not> reserved_for s ''gold'' r"
      "\<forall>p r. reserved_for s' p r = reserved_for s p r" "\<forall>r. trained s' r \<longrightarrow> trained s r \<or> r \<in> set runs"
    by blast
  then have "\<not> trained s' r \<and> \<not> reserved_for s' ''training'' r \<and> \<not> reserved_for s' ''test'' r"
    if gold: "reserved_for s' ''gold'' r" for r
  proof cases
    case reserve
    have "reserved_for s ''gold'' r \<or> ''gold'' = purpose \<and> r \<in> set runs" using reserve(4) gold by simp
    then show ?thesis
    proof
      assume was: "reserved_for s ''gold'' r"
      have "r \<in> set runs \<Longrightarrow> purpose = ''gold''" using reserve(2) was by (auto simp: purposes_def)
      then show ?thesis using old [OF was] reserve(3,4) by auto
    next
      assume now: "''gold'' = purpose \<and> r \<in> set runs"
      with reserve(1) have "\<not> trained s r" by auto
      moreover have "\<not> reserved_for s ''training'' r" "\<not> reserved_for s ''test'' r"
        using reserve(2) now by (auto simp: purposes_def)
      ultimately show ?thesis using now reserve(3,4) by auto
    qed
  next
    case use
    with gold old [of r] show ?thesis by auto
  qed
  with curation_step_keyed [OF assms(1) keyed] show ?thesis by (simp add: isolated_def)
qed

lemma curation_steps_isolated: "curation_step\<^sup>*\<^sup>* s s' \<Longrightarrow> isolated s \<Longrightarrow> isolated s'"
  by (induction rule: rtranclp_induct) (auto intro: curation_step_isolated)

section \<open>Sources that were used before they were indexed\<close>

text \<open>
  A source may be recorded as used while none of its runs is known, so the use of a source alone does
  not keep its runs out of Gold: a run that a later batch adds to it may be reserved by then. What
  rules this out is how the program runs the ledger, \<open>disciplined\<close>: sources that are used are the evidence
  of verified uploads (\<open>source_received\<close>), verified uploads stay verified, the first Gold reservation requires
  the inventory of all of them to be indexed (the only one in the program passes
  \<open>require\_inventory=True\<close>, dataset\_curation.py), and \<open>index\_source\<close> leaves a complete source alone,
  so that its runs are fixed.
\<close>

definition source_received :: "ops \<Rightarrow> string \<Rightarrow> bool" where
  "source_received s source \<longleftrightarrow> (\<exists>u \<in> set (uploads s). u_status u = Verified \<and> receipt_evidence u = JStr source)"

definition disciplined :: "ops \<Rightarrow> ops \<Rightarrow> bool" where
  "disciplined s s' \<longleftrightarrow> curation_step s s' \<and>
     (\<forall>source. source_received s source \<longrightarrow> source_received s' source) \<and>
     (\<forall>(source, kind, reference) \<in> set (cur_source_uses s') - set (cur_source_uses s). source_received s source) \<and>
     (has_gold s' \<longrightarrow> has_gold s \<or> \<not> inventory_pending s) \<and>
     (\<forall>(source, run) \<in> set (cur_source_runs s') - set (cur_source_runs s). \<not> source_complete s source)"

text \<open>Every operation, called as the program calls it, is such a step.\<close>

lemma disciplined_indexing:
  "index_begin source scope archive s = Inr (s', b) \<Longrightarrow> disciplined s s'"
  "index_batch source items s = Inr (s', u) \<Longrightarrow> \<not> source_complete s source \<Longrightarrow> disciplined s s'"
  "index_finish source s = Inr (s', u) \<Longrightarrow> disciplined s s'"
proof -
  assume began: "index_begin source scope archive s = Inr (s', b)"
  then have "uploads s' = uploads s \<and> cur_source_uses s' = cur_source_uses s \<and> cur_claims s' = cur_claims s \<and>
      cur_source_runs s' = cur_source_runs s"
    by (auto simp: index_begin_def Let_def and_then_eq_Inr split: if_splits option.splits)
  with curation_step.began [OF began] show "disciplined s s'" by (simp add: disciplined_def source_received_def has_gold_def)
next
  assume batch: "index_batch source items s = Inr (s', u)" and partial: "\<not> source_complete s source"
  have "k = source" if "(k, run) \<in> set (cur_source_runs s') - set (cur_source_runs s)" for k run
    using that batch in_insert_all [of "(k, run)" id "map (\<lambda>i. (source, ix_run i)) items" "cur_source_runs s"]
    by (auto simp: index_batch_def)
  then have "\<forall>(k, run) \<in> set (cur_source_runs s') - set (cur_source_runs s). \<not> source_complete s k" using partial by auto
  moreover have "uploads s' = uploads s" "cur_source_uses s' = cur_source_uses s" "cur_claims s' = cur_claims s"
    using batch by (auto simp: index_batch_def)
  ultimately show "disciplined s s'" using curation_step.indexed [OF batch]
    unfolding disciplined_def source_received_def has_gold_def by simp
next
  assume finish: "index_finish source s = Inr (s', u)"
  with curation_step.finished [OF finish] show "disciplined s s'"
    by (auto simp: disciplined_def source_received_def has_gold_def index_finish_def)
qed

lemma disciplined_use:
  "use_runs clock runs kind reference s = Inr (s', u) \<Longrightarrow> disciplined s s'"
  "use_source source kind reference s = Inr (s', u) \<Longrightarrow> source_received s source \<Longrightarrow> disciplined s s'"
proof -
  assume use: "use_runs clock runs kind reference s = Inr (s', u)"
  with curation_step.used [OF use] show "disciplined s s'"
    by (auto simp: disciplined_def source_received_def has_gold_def use_runs_def Let_def split: if_splits)
next
  assume use: "use_source source kind reference s = Inr (s', u)" and known: "source_received s source"
  from use have s': "s' = s\<lparr>cur_source_uses := insert_ignore id (source, kind, reference) (cur_source_uses s)\<rparr>"
    by (auto simp: use_source_def split: if_splits)
  have "q = (source, kind, reference)" if "q \<in> set (cur_source_uses s') - set (cur_source_uses s)" for q
    using that in_insert_ignore [of q id "(source, kind, reference)" "cur_source_uses s"] by (auto simp: s')
  then have "\<forall>(source, kind, reference) \<in> set (cur_source_uses s') - set (cur_source_uses s). source_received s source"
    using known by blast
  with curation_step.source_used [OF use] show "disciplined s s'"
    unfolding disciplined_def source_received_def has_gold_def by (simp add: s')
qed

lemma disciplined_reserved:
  assumes "claim_purpose clock identity purpose runs parents inventory revision s = Inr (s', u)"
    and "purpose = JStr ''gold'' \<longrightarrow> inventory"
  shows "disciplined s s'"
  using assms(1)
proof (cases rule: claim_purpose_returned)
  case (1 p)
  have "has_gold s \<or> \<not> inventory_pending s" if "has_gold s'"
    using that 1(1,4) assms(2) by (auto simp: has_gold_def 1(8) list_ex_iff dest!: in_insert_ignore)
  with curation_step.reserved [OF assms(1)] show ?thesis by (auto simp: disciplined_def source_received_def 1(8))
qed

definition sources_settled :: "ops \<Rightarrow> bool" where
  "sources_settled s \<longleftrightarrow> distinct (map cs_id (cur_sources s)) \<and>
     (\<forall>(source, kind, reference) \<in> set (cur_source_uses s). source_received s source \<and> (has_gold s \<longrightarrow> source_complete s source))"

lemma insert_ignore_complete:
  "find (\<lambda>r. cs_id r = source) rows = Some r \<Longrightarrow> find (\<lambda>r. cs_id r = source) (insert_ignore cs_id row rows) = Some r"
  by (auto simp: insert_ignore_def find_append)

lemma curation_step_sources:
  assumes "curation_step s s'"
  shows "(distinct (map cs_id (cur_sources s)) \<longrightarrow> distinct (map cs_id (cur_sources s'))) \<and>
    (\<forall>source. source_complete s source \<longrightarrow> source_complete s' source)"
  using assms
proof (cases rule: curation_step.cases)
  case (began source scope archive b)
  let ?row = "\<lparr>cs_id = source, cs_archive = archive, cs_complete = False\<rparr>"
  from began have "cur_sources s' = cur_sources s \<or> cur_sources s' = insert_ignore cs_id ?row (cur_sources s)"
    by (auto simp: index_begin_def Let_def and_then_eq_Inr split: if_splits option.splits)
  then show ?thesis
  proof
    assume rows: "cur_sources s' = insert_ignore cs_id ?row (cur_sources s)"
    have "source_complete s' k" if "source_complete s k" for k
    proof -
      from that obtain r where r: "find (\<lambda>r. cs_id r = k) (cur_sources s) = Some r" "cs_complete r"
        by (auto simp: source_complete_def source_row_def split: option.splits)
      from insert_ignore_complete [OF r(1), of ?row] r(2) show ?thesis
        by (simp add: source_complete_def source_row_def rows)
    qed
    then show ?thesis by (auto simp: rows insert_ignore_def)
  qed (simp add: source_complete_def source_row_def)
next
  case (finished source u)
  let ?f = "\<lambda>r. r\<lparr>cs_complete := True\<rparr>"
  from finished have rows: "cur_sources s' = update_where (\<lambda>r. cs_id r = source) ?f (cur_sources s)"
    by (auto simp: index_finish_def)
  have "source_row s' k = (if k = source then map_option ?f (source_row s k) else source_row s k)" for k
    by (simp add: source_row_def rows find_key_update_same find_key_update_other)
  then show ?thesis by (auto simp: source_complete_def rows map_update_where split: option.splits)
next
  case (reserved clock identity purpose runs parents inventory revision u)
  then show ?thesis by (cases rule: claim_purpose_returned) (simp add: source_complete_def source_row_def)
next
  case (bound identity artifact u)
  then show ?thesis
    by (auto simp: bind_claim_def and_then_eq_Inr source_complete_def source_row_def split: option.splits if_splits)
next
  case (annotated clock occurrence actor action reason n)
  then show ?thesis
    by (auto simp: annotate_def Let_def and_then_eq_Inr source_complete_def source_row_def split: json.splits if_splits)
qed (auto simp: index_batch_def use_runs_def use_source_def Let_def source_complete_def source_row_def split: if_splits)

text \<open>The source tables of a step that adds a use, and of one that reserves a run for Gold.\<close>

lemma source_use_added:
  assumes "curation_step s s'" and "(source, kind, reference) \<in> set (cur_source_uses s') - set (cur_source_uses s)"
  shows "(\<forall>run. (source, run) \<in> set (cur_source_runs s) \<longrightarrow> \<not> reserved_for s ''gold'' run) \<and>
    (has_gold s \<longrightarrow> source_complete s source) \<and> cur_source_runs s' = cur_source_runs s \<and> purpose_pairs s' = purpose_pairs s \<and>
    cur_claim_runs s' = cur_claim_runs s"
  using assms(1)
proof (cases rule: curation_step.cases)
  case (source_used source' kind' reference' u)
  then have s': "s' = s\<lparr>cur_source_uses := insert_ignore id (source', kind', reference') (cur_source_uses s)\<rparr>"
    and quiet: "\<not> gold_among s (run_group s (runs_of_source s source'))" and ready: "has_gold s \<longrightarrow> source_complete s source'"
    by (auto simp: use_source_def split: if_splits)
  from assms(2) have source': "source' = source" by (auto simp: s' dest: in_insert_ignore)
  have "\<not> reserved_for s ''gold'' run" if "(source, run) \<in> set (cur_source_runs s)" for run
  proof -
    have "run \<in> set (runs_of_source s source)" using that by (force simp: runs_of_source_def)
    with run_group_contains have "run \<in> set (run_group s (runs_of_source s source))" by blast
    with quiet source' show ?thesis
      by (auto simp: gold_among_def list_ex_iff claims_of_def reserved_for_def)
  qed
  with ready source' show ?thesis by (simp add: s' purpose_pairs_def)
next
  case (began source scope archive b)
  then show ?thesis
    using assms(2) by (auto simp: index_begin_def Let_def and_then_eq_Inr split: if_splits option.splits)
next
  case (reserved clock identity purpose runs parents inventory revision u)
  then show ?thesis using assms(2) by (cases rule: claim_purpose_returned) simp
next
  case (bound identity artifact u)
  then show ?thesis using assms(2) by (auto simp: bind_claim_def and_then_eq_Inr split: option.splits if_splits)
next
  case (annotated clock occurrence actor action reason n)
  then show ?thesis using assms(2) by (auto simp: annotate_def Let_def and_then_eq_Inr split: json.splits if_splits)
qed (use assms(2) in \<open>auto simp: index_batch_def index_finish_def use_runs_def Let_def split: if_splits\<close>)

lemma gold_added:
  assumes "curation_step s s'" and "curation_keyed s" and "reserved_for s' ''gold'' run" and "\<not> reserved_for s ''gold'' run"
  shows "\<not> used_for_training s run \<and> cur_source_uses s' = cur_source_uses s \<and> cur_source_runs s' = cur_source_runs s"
  using assms(1)
proof (cases rule: curation_step_cases)
  case (reserve clock identity raw runs parents inventory revision u)
  from reserve show ?thesis
  proof (cases rule: claim_purpose_returned)
    case (1 purpose)
    from reserved_for_claim [OF reserve assms(2) 1(1)] assms(3,4) have "purpose = ''gold''" "run \<in> set runs" by auto
    with 1(7) run_group_contains show ?thesis by (auto simp: 1(8))
  qed
next
  case (use clock runs kind reference u)
  from use_runs_returned(3) [OF use] assms(3,4) show ?thesis by (simp add: reserved_for_pairs)
next
  case other
  with assms(3,4) show ?thesis by (simp add: reserved_for_pairs)
qed

lemma inventory_complete:
  assumes "\<not> inventory_pending s" and "source_received s source" and "distinct (map cs_id (cur_sources s))"
  shows "source_complete s source"
proof -
  from assms(1,2) obtain c where c: "c \<in> set (cur_sources s)" "cs_id c = source" "cs_complete c"
    by (auto simp: inventory_pending_def source_received_def list_ex_iff)
  from find_key_distinct [OF assms(3) c(1)] c(2,3) show ?thesis by (simp add: source_complete_def source_row_def)
qed

definition gold_unused :: "ops \<Rightarrow> bool" where
  "gold_unused s \<longleftrightarrow> isolated s \<and> sources_settled s \<and> (\<forall>run. reserved_for s ''gold'' run \<longrightarrow> \<not> used_for_training s run)"

lemma has_gold_pairs: "has_gold s \<longleftrightarrow> ''gold'' \<in> snd ` set (purpose_pairs s)"
  by (force simp: has_gold_def purpose_pairs_def list_ex_iff)

lemma reserved_has_gold: "reserved_for s ''gold'' run \<Longrightarrow> has_gold s"
  by (auto simp: reserved_for_def has_gold_def list_ex_iff)

lemma used_for_training_cases:
  "used_for_training s run \<longleftrightarrow> trained s run \<or>
     (\<exists>source reference. (source, ''training'', reference) \<in> set (cur_source_uses s) \<and> (source, run) \<in> set (cur_source_runs s))"
  by (fastforce simp: used_for_training_def trained_def list_ex_iff)

lemma disciplined_settled:
  assumes "disciplined s s'" and "sources_settled s"
  shows "sources_settled s'"
proof -
  from assms(1) have step: "curation_step s s'" and kept: "source_received s k \<Longrightarrow> source_received s' k"
    and gold: "has_gold s' \<Longrightarrow> has_gold s \<or> \<not> inventory_pending s" for k
    by (auto simp: disciplined_def)
  from assms(2) have keyed: "distinct (map cs_id (cur_sources s))" by (simp add: sources_settled_def)
  note sources = curation_step_sources [OF step]
  have "source_received s' source \<and> (has_gold s' \<longrightarrow> source_complete s' source)"
    if use: "(source, kind, reference) \<in> set (cur_source_uses s')" for source kind reference
  proof (cases "(source, kind, reference) \<in> set (cur_source_uses s)")
    case True
    with assms(2) have old: "source_received s source" "has_gold s \<longrightarrow> source_complete s source"
      by (auto simp: sources_settled_def)
    with gold inventory_complete [OF _ old(1) keyed] have "has_gold s' \<longrightarrow> source_complete s source" by blast
    with sources kept old(1) show ?thesis by blast
  next
    case False
    with use have new: "(source, kind, reference) \<in> set (cur_source_uses s') - set (cur_source_uses s)" by simp
    with assms(1) have "source_received s source" by (auto simp: disciplined_def)
    moreover note source_use_added [OF step new]
    ultimately show ?thesis using kept sources by (auto simp: has_gold_pairs)
  qed
  with sources keyed show ?thesis by (auto simp: sources_settled_def)
qed

lemma disciplined_unused:
  assumes "disciplined s s'" and "gold_unused s"
  shows "gold_unused s'"
proof -
  from assms(1) have step: "curation_step s s'" by (simp add: disciplined_def)
  from assms(2) have old: "isolated s" "sources_settled s" "\<And>r. reserved_for s ''gold'' r \<Longrightarrow> \<not> used_for_training s r"
    by (auto simp: gold_unused_def)
  note isolated' = curation_step_isolated [OF step old(1)]
  have "\<not> used_for_training s' run" if gold: "reserved_for s' ''gold'' run" for run
  proof
    assume "used_for_training s' run"
    with isolated' gold obtain source reference where use: "(source, ''training'', reference) \<in> set (cur_source_uses s')"
      and run: "(source, run) \<in> set (cur_source_runs s')"
      by (auto simp: used_for_training_cases isolated_def)
    show False
    proof (cases "(source, ''training'', reference) \<in> set (cur_source_uses s)")
      case False
      with source_use_added [OF step, of source "''training''" reference] use run gold show False
        by (auto simp: reserved_for_pairs)
    next
      case True
      show False
      proof (cases "reserved_for s ''gold'' run")
        case was: True
        with old(2) True have "source_complete s source" by (auto simp: sources_settled_def dest: reserved_has_gold)
        with assms(1) run have "(source, run) \<in> set (cur_source_runs s)" by (auto simp: disciplined_def)
        with True old(3) [OF was] show False by (auto simp: used_for_training_cases)
      next
        case False
        from gold_added [OF step _ gold this] old(1) True run show False
          by (auto simp: used_for_training_cases isolated_def)
      qed
    qed
  qed
  with isolated' disciplined_settled [OF assms(1) old(2)] show ?thesis by (simp add: gold_unused_def)
qed

lemma disciplined_steps_unused: "disciplined\<^sup>*\<^sup>* s s' \<Longrightarrow> gold_unused s \<Longrightarrow> gold_unused s'"
  by (induction rule: rtranclp_induct) (auto intro: disciplined_unused)

lemma new_isolated: "isolated new_operations"
  by (simp add: isolated_def curation_keyed_def reserved_for_def new_operations_def)

text \<open>The order of sealing and training does not matter: whichever came first refuses the other.\<close>

lemma shares_mono: "set fps \<subseteq> set fps' \<Longrightarrow> (shares fps)\<^sup>* \<subseteq> (shares fps')\<^sup>*"
  by (intro rtrancl_mono) (auto simp: shares_def)

lemma gold_after_training_refused:
  assumes "use_runs clock runs ''training'' reference s = Inr (s1, u)" and "curation_step\<^sup>*\<^sup>* s1 s2"
    and "curation_keyed s"
    and "claim_purpose clock' identity (JStr ''gold'') sel parents inventory revision s2 = Inr (s3, v)"
  shows "(shares (cur_fingerprints s2))\<^sup>* `` set sel \<inter> set runs = {}"
proof -
  have "curation_keyed s1" using curation_step_keyed [OF curation_step.used [OF assms(1)] assms(3)] .
  with curation_steps_remember [OF assms(2)] have "remembers s1 s2" by blast
  then have "trained s2 r" if "r \<in> set runs" for r
    using use_runs_returned(2) [OF assms(1), of r] run_group_contains [of runs s] that
    by (auto simp: remembers_def)
  moreover have "\<not> trained s2 r" if "r \<in> (shares (cur_fingerprints s2))\<^sup>* `` set sel" for r
    using assms(4)
  proof (cases rule: claim_purpose_returned)
    case (1 purpose)
    then have "\<forall>run \<in> (shares (cur_fingerprints s2))\<^sup>* `` set sel. \<not> used_for_training s2 run"
      by (simp add: run_group_correct)
    with that trained_used show ?thesis by blast
  qed
  ultimately show ?thesis by blast
qed

lemma training_after_gold_refused:
  assumes "claim_purpose clock identity (JStr ''gold'') sel parents inventory revision s = Inr (s1, u)"
    and "curation_step\<^sup>*\<^sup>* s1 s2" and "curation_keyed s"
    and "use_runs clock' runs ''training'' reference s2 = Inr (s3, v)"
  shows "(shares (cur_fingerprints s2))\<^sup>* `` set runs \<inter> set sel = {}"
proof -
  have "curation_keyed s1" using curation_step_keyed [OF curation_step.reserved [OF assms(1)] assms(3)] .
  with curation_steps_remember [OF assms(2)] have "remembers s1 s2" by blast
  then have "reserved_for s2 ''gold'' r" if "r \<in> set sel" for r
    using reserved_for_claim [OF assms(1,3) refl, of "''gold''" r] that by (auto simp: remembers_def)
  with use_runs_returned(1) [OF assms(4)] show ?thesis
    by (auto simp: run_group_correct)
qed

end
