(* ===== verification/Access.thy ===== *)
theory Access
  imports Manifests
begin

text \<open>
  The public artifact policy of python/spireagent/hub/access.py: which artifacts may be
  discovered and downloaded, and the bounded closure of a manifest's lineage that the check
  inspects, so that a sealed artifact cannot be reached through a public one.
\<close>

definition result_kinds :: "string list" where
  "result_kinds = [''model'', ''checkpoint'', ''run_result'', ''offline_evaluation'',
     ''live_evaluation'', ''performance'', ''analysis'']"

definition project_kinds :: "string list" where
  "project_kinds = result_kinds @ [''dataset'', ''training_input'', ''experiment'', ''run'']"

text \<open>\<open>info.get(key)\<close> and \<open>x in \{...\}\<close> with its TypeError for an unhashable value.\<close>

definition info_get :: "(string \<times> json) list \<Rightarrow> string \<Rightarrow> json" where
  "info_get info key = (case map_of info key of None \<Rightarrow> JNull | Some v \<Rightarrow> v)"

definition manifest_info :: "manifest \<Rightarrow> (string \<times> json) list" where
  "manifest_info m = fields_of (mf_parameters m)"

definition sealed_reason :: "manifest \<Rightarrow> string option result" where
  "sealed_reason m =
     (let info = manifest_info m; partition = info_get info ''partition'' in
      if mf_kind m \<in> {''gold_tasks'', ''gold_labels''} then Inr (Some ''sealed_research_artifact'')
      else and_then (in_strings partition [''test'', ''gold_test'']) (\<lambda>held_out.
        if held_out \<or> info_get info ''sealed_test'' = JBool True
        then Inr (Some ''sealed_research_artifact'')
        else if mf_kind m = ''offline_evaluation'' \<and> partition \<noteq> JStr ''dev''
        then Inr (Some ''evaluation_partition_not_public'')
        else Inr None))"

definition discoverable :: "manifest \<Rightarrow> bool result" where
  "discoverable m =
     (if mf_kind m \<notin> set project_kinds then Inr False
      else and_then (sealed_reason m) (\<lambda>r. Inr (r = None)))"

section \<open>The bounded lineage\<close>

text \<open>The parents not yet queued are pushed, in order; the stack is kept with its top first.\<close>

fun push_parents :: "parent list \<Rightarrow> string list \<Rightarrow> string list \<Rightarrow> (string list \<times> string list) result" where
  "push_parents [] pending queued = Inr (pending, queued)"
| "push_parents (p # ps) pending queued =
     (if parent_artifact p \<in> set queued then push_parents ps pending queued
      else if 512 \<le> length queued then Inl (BoundaryError ''sharing'' ''lineage_limit'')
      else push_parents ps (parent_artifact p # pending) (parent_artifact p # queued))"

lemma push_parents_measure:
  "push_parents ps pending queued = Inr (pending', queued') \<Longrightarrow>
   2 * (512 - length queued') + length pending' \<le> 2 * (512 - length queued) + length pending"
  by (induction ps arbitrary: pending queued) (fastforce split: if_splits)+

text \<open>\<open>fetch\<close> is the store's \<open>get\_manifest\<close>; \<open>origin\<close> the manifest the caller holds.\<close>

definition node_of :: "stdlib \<Rightarrow> (string \<Rightarrow> manifest result) \<Rightarrow> manifest \<Rightarrow> string \<Rightarrow> manifest result" where
  "node_of L fetch origin i = (if i = artifact_id L origin then Inr origin else fetch i)"

function lineage_loop ::
  "stdlib \<Rightarrow> (string \<Rightarrow> manifest result) \<Rightarrow> manifest \<Rightarrow> string list \<Rightarrow> string list \<Rightarrow>
   (string \<times> manifest) list \<Rightarrow> (string \<times> manifest) list result" where
  "lineage_loop L fetch origin [] queued found = Inr found"
| "lineage_loop L fetch origin (i # pending) queued found =
     (case node_of L fetch origin i of
        Inl e \<Rightarrow> Inl e
      | Inr node \<Rightarrow>
          (case push_parents (mf_parents node) pending queued of
             Inl e \<Rightarrow> Inl e
           | Inr (pending', queued') \<Rightarrow>
               lineage_loop L fetch origin pending' queued' (found @ [(i, node)])))"
  by pat_completeness auto
termination
  by (relation "measure (\<lambda>(L, fetch, origin, pending, queued, found). 2 * (512 - length queued) + length pending)")
    (auto dest: push_parents_measure)

definition lineage :: "stdlib \<Rightarrow> (string \<Rightarrow> manifest result) \<Rightarrow> manifest \<Rightarrow> manifest list result" where
  "lineage L fetch m =
     and_then (lineage_loop L fetch m [artifact_id L m] [artifact_id L m] []) (\<lambda>found.
       Inr (map snd found))"

text \<open>\<open>any(sealed\_reason(item) for item in nodes)\<close>, which stops at the first sealed one.\<close>

fun any_sealed :: "manifest list \<Rightarrow> bool result" where
  "any_sealed [] = Inr False"
| "any_sealed (m # ms) =
     and_then (sealed_reason m) (\<lambda>r. if r \<noteq> None then Inr True else any_sealed ms)"

definition require_artifact_access ::
  "stdlib \<Rightarrow> manifest \<Rightarrow> bool \<Rightarrow> string option \<Rightarrow> (string \<Rightarrow> manifest result) option \<Rightarrow> manifest list result" where
  "require_artifact_access L m project_member wanted store =
     (if mf_kind m \<notin> set (if project_member then project_kinds else result_kinds)
      then Inl (BoundaryError ''hub'' ''unauthorized'')
      else
        and_then (case store of None \<Rightarrow> Inr [m] | Some fetch \<Rightarrow> lineage L fetch m) (\<lambda>nodes.
        and_then (any_sealed nodes) (\<lambda>sealed.
          if sealed then Inl (BoundaryError ''hub'' ''unauthorized'')
          else
            (case wanted of
               None \<Rightarrow> Inr nodes
             | Some role \<Rightarrow> and_then (manifest_payload m role) (\<lambda>_. Inr nodes)))))"

section \<open>The closure is exact\<close>

inductive ancestor :: "stdlib \<Rightarrow> (string \<Rightarrow> manifest result) \<Rightarrow> manifest \<Rightarrow> manifest \<Rightarrow> bool"
  for L fetch origin where
  itself: "ancestor L fetch origin origin"
| parent: "ancestor L fetch origin m \<Longrightarrow> p \<in> set (mf_parents m) \<Longrightarrow>
    node_of L fetch origin (parent_artifact p) = Inr n \<Longrightarrow> ancestor L fetch origin n"

lemma push_parents_sets:
  "push_parents ps pending queued = Inr (pending', queued') \<Longrightarrow>
   set queued' = set queued \<union> parent_artifact ` set ps \<and>
   set pending' = set pending \<union> (parent_artifact ` set ps - set queued) \<and>
   (length queued \<le> 512 \<longrightarrow> length queued' \<le> 512) \<and> (distinct queued \<longrightarrow> distinct queued')"
proof (induction ps arbitrary: pending queued)
  case (Cons p ps)
  then show ?case
    by (cases "parent_artifact p \<in> set queued") (auto split: if_splits)
qed simp

definition loop_ok ::
  "stdlib \<Rightarrow> (string \<Rightarrow> manifest result) \<Rightarrow> manifest \<Rightarrow> string list \<Rightarrow> string list \<Rightarrow> (string \<times> manifest) list \<Rightarrow> bool" where
  "loop_ok L fetch origin pending queued found \<longleftrightarrow>
     set queued = set pending \<union> fst ` set found \<and>
     (\<forall>i n. (i, n) \<in> set found \<longrightarrow> node_of L fetch origin i = Inr n \<and> ancestor L fetch origin n \<and>
        parent_artifact ` set (mf_parents n) \<subseteq> set queued) \<and>
     (\<forall>i n. i \<in> set pending \<longrightarrow> node_of L fetch origin i = Inr n \<longrightarrow> ancestor L fetch origin n) \<and>
     artifact_id L origin \<in> set queued"

lemma lineage_loop_ok:
  "lineage_loop L fetch origin pending queued found = Inr found' \<Longrightarrow>
   loop_ok L fetch origin pending queued found \<Longrightarrow> \<exists>queued'. loop_ok L fetch origin [] queued' found'"
proof (induction L fetch origin pending queued found rule: lineage_loop.induct)
  case (1 L fetch origin queued found)
  then show ?case by auto
next
  case (2 L fetch origin i pending queued found)
  from 2(2) obtain node pending' queued' where
    node: "node_of L fetch origin i = Inr node"
    and push: "push_parents (mf_parents node) pending queued = Inr (pending', queued')"
    and loop: "lineage_loop L fetch origin pending' queued' (found @ [(i, node)]) = Inr found'"
    by (auto split: sum.splits prod.splits)
  note sets = push_parents_sets [OF push]
  note ok = 2(3) [unfolded loop_ok_def]
  have anc: "ancestor L fetch origin node" using ok node by (meson list.set_intros(1))
  have "set queued' = set pending' \<union> fst ` set (found @ [(i, node)])"
    using conjunct1 [OF ok] sets by auto
  moreover have "node_of L fetch origin j = Inr n \<and> ancestor L fetch origin n \<and>
      parent_artifact ` set (mf_parents n) \<subseteq> set queued'" if "(j, n) \<in> set (found @ [(i, node)])" for j n
  proof (cases "(j, n) \<in> set found")
    case True
    with ok have "node_of L fetch origin j = Inr n \<and> ancestor L fetch origin n \<and>
      parent_artifact ` set (mf_parents n) \<subseteq> set queued" by blast
    with sets show ?thesis by blast
  next
    case False
    with that node anc sets show ?thesis by auto
  qed
  moreover have "ancestor L fetch origin n" if "j \<in> set pending'" "node_of L fetch origin j = Inr n" for j n
  proof (cases "j \<in> set pending")
    case True
    with ok that(2) show ?thesis by (meson list.set_intros(2))
  next
    case False
    with that sets obtain p where "p \<in> set (mf_parents node)" "j = parent_artifact p" by auto
    with that(2) anc show ?thesis by (auto intro: ancestor.parent)
  qed
  moreover have "artifact_id L origin \<in> set queued'" using ok sets by blast
  ultimately have "loop_ok L fetch origin pending' queued' (found @ [(i, node)])"
    unfolding loop_ok_def by blast
  from 2(1) [OF node push refl loop this] show ?case .
qed

lemma lineage_closed:
  assumes "lineage L fetch origin = Inr nodes"
  shows "set nodes = {n. ancestor L fetch origin n}"
    and "ancestor L fetch origin n \<Longrightarrow> p \<in> set (mf_parents n) \<Longrightarrow>
      \<exists>m \<in> set nodes. node_of L fetch origin (parent_artifact p) = Inr m"
proof -
  from assms obtain found where
    loop: "lineage_loop L fetch origin [artifact_id L origin] [artifact_id L origin] [] = Inr found"
    and nodes: "nodes = map snd found"
    by (auto simp: lineage_def and_then_eq_Inr)
  have "loop_ok L fetch origin [artifact_id L origin] [artifact_id L origin] []"
    by (auto simp: loop_ok_def node_of_def intro: ancestor.itself)
  from lineage_loop_ok [OF loop this] obtain queued where
    ok: "loop_ok L fetch origin [] queued found" by blast
  have found: "node_of L fetch origin i = Inr n" "ancestor L fetch origin n"
      "parent_artifact ` set (mf_parents n) \<subseteq> fst ` set found" if "(i, n) \<in> set found" for i n
    using ok that unfolding loop_ok_def by (metis empty_set sup_bot_left)+
  have member: "\<exists>m \<in> set nodes. node_of L fetch origin i = Inr m" if "i \<in> fst ` set found" for i
  proof -
    from that obtain m where m: "(i, m) \<in> set found" by auto
    then have "m \<in> set nodes" unfolding nodes by force
    with found(1) [OF m] show ?thesis by blast
  qed
  have closed: "\<exists>m \<in> set nodes. node_of L fetch origin (parent_artifact p) = Inr m"
    if "n \<in> set nodes" "p \<in> set (mf_parents n)" for n p
  proof -
    from that(1) obtain i where "(i, n) \<in> set found" by (auto simp: nodes)
    from found(3) [OF this] that(2) show ?thesis by (intro member) blast
  qed
  have sub: "n \<in> set nodes" if "ancestor L fetch origin n" for n
    using that
  proof induction
    case itself
    from ok have "artifact_id L origin \<in> fst ` set found" by (auto simp add: loop_ok_def)
    from member [OF this] show ?case by (auto simp: node_of_def)
  next
    case (parent m p n)
    from closed [OF parent.IH parent.hyps(2)] parent.hyps(3) show ?case by auto
  qed
  moreover have "ancestor L fetch origin n" if "n \<in> set nodes" for n
    using found(2) that by (auto simp: nodes)
  ultimately show "set nodes = {n. ancestor L fetch origin n}" by blast
  show "\<exists>m \<in> set nodes. node_of L fetch origin (parent_artifact p) = Inr m"
    if "ancestor L fetch origin n" "p \<in> set (mf_parents n)" for n p
    using closed [OF sub [OF that(1)] that(2)] .
qed

lemma any_sealed_False: "any_sealed ms = Inr False \<Longrightarrow> m \<in> set ms \<Longrightarrow> sealed_reason m = Inr None"
  by (induction ms) (auto simp: and_then_eq_Inr split: if_splits)

lemma access_unsealed:
  assumes "require_artifact_access L origin pm role (Some fetch) = Inr nodes"
    and "ancestor L fetch origin n"
  shows "sealed_reason n = Inr None"
proof -
  from assms(1) have "lineage L fetch origin = Inr nodes" "any_sealed nodes = Inr False"
    by (auto simp: require_artifact_access_def and_then_eq_Inr split: if_splits option.splits)
  with lineage_closed(1) assms(2) show ?thesis by (auto intro: any_sealed_False)
qed

text \<open>The closure is found whenever it is readable and holds at most 512 manifests.\<close>

lemma push_parents_small:
  assumes "finite U" and "card U \<le> 512"
  shows "set queued \<subseteq> U \<Longrightarrow> distinct queued \<Longrightarrow> parent_artifact ` set ps \<subseteq> U \<Longrightarrow>
    \<exists>r. push_parents ps pending queued = Inr r"
proof (induction ps arbitrary: pending queued)
  case (Cons p ps)
  show ?case
  proof (cases "parent_artifact p \<in> set queued")
    case True
    with Cons show ?thesis by auto
  next
    case False
    have "length (parent_artifact p # queued) \<le> card U"
      using Cons.prems False assms(1) distinct_card [of "parent_artifact p # queued"]
        card_mono [of U "set (parent_artifact p # queued)"] by auto
    with assms(2) have "length queued < 512" by simp
    with False Cons show ?thesis by auto
  qed
qed simp

lemma lineage_loop_small:
  assumes U: "finite U" "card U \<le> 512"
  shows "set queued \<subseteq> U \<Longrightarrow> distinct queued \<Longrightarrow> set pending \<subseteq> U \<Longrightarrow>
    (\<And>i. i \<in> U \<Longrightarrow> \<exists>n. node_of L fetch origin i = Inr n \<and> parent_artifact ` set (mf_parents n) \<subseteq> U) \<Longrightarrow>
    \<exists>found'. lineage_loop L fetch origin pending queued found = Inr found'"
proof (induction L fetch origin pending queued found rule: lineage_loop.induct)
  case (2 L fetch origin i pending queued found)
  from 2(4,5) obtain node where node: "node_of L fetch origin i = Inr node"
    "parent_artifact ` set (mf_parents node) \<subseteq> U" by force
  from push_parents_small [OF U 2(2,3) node(2)] obtain pending' queued' where
    push: "push_parents (mf_parents node) pending queued = Inr (pending', queued')" by force
  have "set queued' \<subseteq> U" "distinct queued'" "set pending' \<subseteq> U"
    using push_parents_sets [OF push] 2(2,3,4) node(2) by auto
  from 2(1) [OF node(1) push refl this 2(5)] node push show ?case by simp
qed simp

lemma lineage_complete:
  assumes "finite U" "card U \<le> 512" "artifact_id L origin \<in> U"
    and "\<And>i. i \<in> U \<Longrightarrow> \<exists>n. node_of L fetch origin i = Inr n \<and> parent_artifact ` set (mf_parents n) \<subseteq> U"
  shows "\<exists>nodes. lineage L fetch origin = Inr nodes"
proof -
  have "\<exists>found. lineage_loop L fetch origin [artifact_id L origin] [artifact_id L origin] [] = Inr found"
    by (rule lineage_loop_small [OF assms(1,2)]) (use assms(3,4) in auto)
  then show ?thesis by (auto simp: lineage_def)
qed

end
