(* ===== verification/CurationAccess.thy ===== *)
theory CurationAccess
  imports Curation Access
begin

text \<open>
  python/spireagent/hub/curation\_access.py: before an artifact is downloaded or computed
  on, its lineage is walked down to the received bundles, the runs it discloses are
  collected, and their use is recorded. Each ledger query is its own transaction in the
  code; the walk is modelled on the tables it starts from, and the recording operations check
  the reservations again in the tables they write.
\<close>

definition held_out_error :: "bool \<Rightarrow> py_error" where
  "held_out_error training =
     BoundaryError ''curation'' (if training then ''held_out_data_cannot_train'' else ''gold_reserved_data'')"

definition held_out :: "bool \<Rightarrow> json \<Rightarrow> bool" where
  "held_out training purpose \<longleftrightarrow> purpose = JStr ''gold'' \<or> training \<and> purpose = JStr ''test''"

definition dataset_row :: "ops \<Rightarrow> string \<Rightarrow> curation_claim option" where
  "dataset_row s artifact = find (\<lambda>c. c_artifact c = Some artifact) (cur_claims s)"

datatype node_plan = Finished "string list" "string option" | Parents "string list"

text \<open>
  One node of the walk: the runs it discloses by itself, the received bundle it is, and
  whether its parents are walked too.
\<close>

definition node_step :: "stdlib \<Rightarrow> ops \<Rightarrow> bool \<Rightarrow> manifest \<Rightarrow> node_plan result" where
  "node_step L s training m =
     (let info = manifest_info m; i = artifact_id L m in
      if held_out training (info_get info ''purpose'') then Inl (held_out_error training)
      else
        let selection = dataset_row s i;
            chosen = (case selection of None \<Rightarrow> [] | Some c \<Rightarrow> claim_runs s (c_id c))
        in
        if (case selection of None \<Rightarrow> False | Some c \<Rightarrow> held_out training (JStr (c_purpose c)))
        then Inl (held_out_error training)
        else if selection \<noteq> None \<and> info_get info ''schema'' = JStr ''stpd/curated-decision-dataset-v1''
        then Inr (Finished chosen None)
        else if info_get info ''schema'' = JStr ''stpd/received-bundle-v1''
        then
          (if source_complete s i then Inr (Finished (chosen @ runs_of_source s i) (Some i))
           else if has_gold s then Inl (BoundaryError ''curation'' ''source_isolation_index_pending'')
           else Inr (Finished chosen (Some i)))
        else Inr (Parents chosen))"

text \<open>\<open>nodes\<close> are the manifests the caller already holds; the rest come from the store.\<close>

definition lookup_node ::
  "stdlib \<Rightarrow> manifest list \<Rightarrow> (string \<Rightarrow> manifest result) \<Rightarrow> string \<Rightarrow> manifest result" where
  "lookup_node L nodes fetch i =
     (case find (\<lambda>m. artifact_id L m = i) nodes of None \<Rightarrow> fetch i | Some m \<Rightarrow> Inr m)"

function guarded_walk ::
  "stdlib \<Rightarrow> ops \<Rightarrow> bool \<Rightarrow> (string \<Rightarrow> manifest result) \<Rightarrow> manifest list \<Rightarrow> string list \<Rightarrow>
   string list \<Rightarrow> string list \<Rightarrow> (string list \<times> string list) result" where
  "guarded_walk L s training look [] seen runs sources = Inr (runs, sources)"
| "guarded_walk L s training look (m # pending) seen runs sources =
     (if artifact_id L m \<in> set seen then guarded_walk L s training look pending seen runs sources
      else if 512 < Suc (length seen) then Inl (BoundaryError ''curation'' ''lineage_limit'')
      else
        (case node_step L s training m of
           Inl e \<Rightarrow> Inl e
         | Inr (Finished extra source) \<Rightarrow>
             guarded_walk L s training look pending (artifact_id L m # seen) (runs @ extra)
               (case source of None \<Rightarrow> sources | Some i \<Rightarrow> sources @ [i])
         | Inr (Parents extra) \<Rightarrow>
             (case each (\<lambda>p. look (parent_artifact p)) (mf_parents m) of
                Inl e \<Rightarrow> Inl e
              | Inr parents \<Rightarrow>
                  guarded_walk L s training look (rev parents @ pending) (artifact_id L m # seen)
                    (runs @ extra) sources)))"
  by pat_completeness auto
termination
  by (relation "inv_image (less_than <*lex*> less_than)
      (\<lambda>(L, s, training, look, pending, seen, runs, sources). (513 - length seen, length pending))")
    auto

definition guarded_runs ::
  "stdlib \<Rightarrow> (string \<Rightarrow> manifest result) \<Rightarrow> manifest \<Rightarrow> bool \<Rightarrow> manifest list \<Rightarrow>
   ops \<Rightarrow> (string list \<times> string list) result" where
  "guarded_runs L fetch m training nodes s =
     and_then (guarded_walk L s training (lookup_node L nodes fetch) [m] [] [] []) (\<lambda>(runs, sources).
       if gold_among s (run_group s runs) then Inl (BoundaryError ''curation'' ''gold_reserved_data'')
       else Inr (runs, sources))"

fun record_sources :: "string list \<Rightarrow> string \<Rightarrow> string \<Rightarrow> ops \<Rightarrow> ops \<times> unit result" where
  "record_sources [] kind reference s = (s, Inr ())"
| "record_sources (source # rest) kind reference s =
     (case use_source source kind reference s of
        Inl e \<Rightarrow> (s, Inl e)
      | Inr (s', _) \<Rightarrow> record_sources rest kind reference s')"

definition record_use ::
  "stdlib \<Rightarrow> (string \<Rightarrow> manifest result) \<Rightarrow> real \<Rightarrow> manifest \<Rightarrow> string \<Rightarrow> manifest list \<Rightarrow>
   ops \<Rightarrow> ops \<times> unit result" where
  "record_use L fetch clock m kind nodes s =
     (case guarded_runs L fetch m (kind = ''training'') nodes s of
        Inl e \<Rightarrow> (s, Inl e)
      | Inr (runs, sources) \<Rightarrow>
          (case use_runs clock runs kind (artifact_id L m) s of
             Inl e \<Rightarrow> (s, Inl e)
           | Inr (s1, _) \<Rightarrow> record_sources (remdups sources) kind (artifact_id L m) s1))"

section \<open>The walk misses nothing\<close>

inductive walked ::
  "stdlib \<Rightarrow> ops \<Rightarrow> bool \<Rightarrow> (string \<Rightarrow> manifest result) \<Rightarrow> manifest \<Rightarrow> manifest \<Rightarrow> bool"
  for L s training look origin where
  start: "walked L s training look origin origin"
| above: "walked L s training look origin m \<Longrightarrow> node_step L s training m = Inr (Parents extra) \<Longrightarrow>
    p \<in> set (mf_parents m) \<Longrightarrow> look (parent_artifact p) = Inr n \<Longrightarrow> walked L s training look origin n"

text \<open>The runs a node discloses and the bundle it is are among those collected.\<close>

definition covered :: "stdlib \<Rightarrow> ops \<Rightarrow> bool \<Rightarrow> manifest \<Rightarrow> string list \<Rightarrow> string list \<Rightarrow> bool" where
  "covered L s training m runs sources =
     (case node_step L s training m of
        Inl e \<Rightarrow> False
      | Inr (Finished extra source) \<Rightarrow> set extra \<subseteq> set runs \<and> (\<forall>i. source = Some i \<longrightarrow> i \<in> set sources)
      | Inr (Parents extra) \<Rightarrow> set extra \<subseteq> set runs)"

lemma covered_mono:
  "covered L s training m runs sources \<Longrightarrow> set runs \<subseteq> set runs' \<Longrightarrow> set sources \<subseteq> set sources' \<Longrightarrow>
   covered L s training m runs' sources'"
  by (auto simp: covered_def split: sum.splits node_plan.splits)

lemma guarded_walk_covers:
  "guarded_walk L s training look pending seen runs sources = Inr (runs', sources') \<Longrightarrow>
   \<forall>m \<in> set pending. walked L s training look origin m \<Longrightarrow>
   set runs \<subseteq> set runs' \<and> set sources \<subseteq> set sources' \<and>
   (\<exists>D. (\<forall>m \<in> set pending. artifact_id L m \<in> set seen \<union> artifact_id L ` D) \<and>
     (\<forall>m \<in> D. walked L s training look origin m \<and> covered L s training m runs' sources' \<and>
        (\<forall>extra p n. node_step L s training m = Inr (Parents extra) \<longrightarrow> p \<in> set (mf_parents m) \<longrightarrow>
           look (parent_artifact p) = Inr n \<longrightarrow> artifact_id L n \<in> set seen \<union> artifact_id L ` D)))"
proof (induction L s training look pending seen runs sources rule: guarded_walk.induct)
  case (1 L s training look seen runs sources)
  then show ?case by (intro conjI exI [of _ "{}"]) auto
next
  case (2 L s training look m pending seen runs sources)
  show ?case
  proof (cases "artifact_id L m \<in> set seen")
    case True
    with 2(1,4,5) show ?thesis by auto
  next
    case fresh: False
    with 2(4) have room: "\<not> 512 < Suc (length seen)" by (auto split: if_splits)
    have m: "walked L s training look origin m" and rest: "\<forall>m \<in> set pending. walked L s training look origin m"
      using 2(5) by simp_all
    show ?thesis
    proof (cases "node_step L s training m")
      case (Inl e)
      with fresh room 2(4) show ?thesis by simp
    next
      case (Inr plan)
      show ?thesis
      proof (cases plan)
        case (Finished extra source)
        with Inr fresh room 2(4) have "guarded_walk L s training look pending (artifact_id L m # seen) (runs @ extra)
            (case source of None \<Rightarrow> sources | Some i \<Rightarrow> sources @ [i]) = Inr (runs', sources')"
          by simp
        from 2(2) [OF fresh room Inr Finished this rest] obtain D where
          sub: "set (runs @ extra) \<subseteq> set runs'" "set (case source of None \<Rightarrow> sources | Some i \<Rightarrow> sources @ [i]) \<subseteq> set sources'"
          and D: "\<forall>m' \<in> set pending. artifact_id L m' \<in> set (artifact_id L m # seen) \<union> artifact_id L ` D"
            "\<forall>m' \<in> D. walked L s training look origin m' \<and> covered L s training m' runs' sources' \<and>
               (\<forall>extra p n. node_step L s training m' = Inr (Parents extra) \<longrightarrow> p \<in> set (mf_parents m') \<longrightarrow>
                  look (parent_artifact p) = Inr n \<longrightarrow> artifact_id L n \<in> set (artifact_id L m # seen) \<union> artifact_id L ` D)"
          by blast
        have "covered L s training m runs' sources'"
          using sub by (auto simp: covered_def Inr Finished split: option.splits)
        with D m Inr Finished show ?thesis
          using sub by (intro conjI exI [of _ "insert m D"]) (auto split: option.splits)
      next
        case (Parents extra)
        with Inr fresh room 2(4) obtain parents where
          each: "each (\<lambda>p. look (parent_artifact p)) (mf_parents m) = Inr parents"
          and loop: "guarded_walk L s training look (rev parents @ pending) (artifact_id L m # seen) (runs @ extra) sources = Inr (runs', sources')"
          by (auto split: sum.splits)
        have "walked L s training look origin n" if "n \<in> set parents" for n
          using each_out_set [OF each that] m Inr Parents by (auto intro: walked.above)
        with rest have "\<forall>n \<in> set (rev parents @ pending). walked L s training look origin n" by auto
        from 2(3) [OF fresh room Inr Parents each loop this] obtain D where
          sub: "set (runs @ extra) \<subseteq> set runs'" "set sources \<subseteq> set sources'"
          and D: "\<forall>m' \<in> set (rev parents @ pending). artifact_id L m' \<in> set (artifact_id L m # seen) \<union> artifact_id L ` D"
            "\<forall>m' \<in> D. walked L s training look origin m' \<and> covered L s training m' runs' sources' \<and>
               (\<forall>extra p n. node_step L s training m' = Inr (Parents extra) \<longrightarrow> p \<in> set (mf_parents m') \<longrightarrow>
                  look (parent_artifact p) = Inr n \<longrightarrow> artifact_id L n \<in> set (artifact_id L m # seen) \<union> artifact_id L ` D)"
          by blast
        have up: "n \<in> set parents" if "p \<in> set (mf_parents m)" "look (parent_artifact p) = Inr n" for p n
          using each_in_set [OF each that(1)] that(2) by auto
        have "covered L s training m runs' sources'"
          using sub by (auto simp: covered_def Inr Parents)
        with D m Inr Parents show ?thesis
          using sub up by (intro conjI exI [of _ "insert m D"]) auto
      qed
    qed
  qed
qed

lemma guarded_runs_cover:
  assumes "guarded_runs L fetch m training nodes s = Inr (runs, sources)"
    and distinct_ids: "inj_on (artifact_id L) {n. walked L s training (lookup_node L nodes fetch) m n}"
    and n: "walked L s training (lookup_node L nodes fetch) m n"
  shows "covered L s training n runs sources"
proof -
  let ?look = "lookup_node L nodes fetch"
  from assms(1) have "guarded_walk L s training ?look [m] [] [] [] = Inr (runs, sources)"
    by (auto simp: guarded_runs_def and_then_eq_Inr split: if_splits)
  note walk = guarded_walk_covers [OF this, of m]
  have "\<forall>n \<in> set [m]. walked L s training ?look m n" by (simp add: walked.start)
  from walk [OF this] obtain D where D:
      "\<forall>n \<in> set [m]. artifact_id L n \<in> set [] \<union> artifact_id L ` D"
      "\<forall>n \<in> D. walked L s training ?look m n \<and> covered L s training n runs sources \<and>
         (\<forall>extra p q. node_step L s training n = Inr (Parents extra) \<longrightarrow> p \<in> set (mf_parents n) \<longrightarrow>
            ?look (parent_artifact p) = Inr q \<longrightarrow> artifact_id L q \<in> set [] \<union> artifact_id L ` D)"
    by (elim conjE exE) (rule that)
  have top: "artifact_id L m \<in> artifact_id L ` D" using D(1) by simp
  have closed: "artifact_id L q \<in> artifact_id L ` D" if "n \<in> D" "node_step L s training n = Inr (Parents extra)"
    "p \<in> set (mf_parents n)" "?look (parent_artifact p) = Inr q" for n extra p q
  proof -
    from D(2) that(1) have "artifact_id L q \<in> set [] \<union> artifact_id L ` D" using that(2-4) by blast
    then show ?thesis by simp
  qed
  have same: "q \<in> D" if "walked L s training ?look m q" "artifact_id L q \<in> artifact_id L ` D" for q
  proof -
    from that(2) obtain d where d: "d \<in> D" "artifact_id L q = artifact_id L d" by blast
    with D(2) have "walked L s training ?look m d" by blast
    with inj_onD [OF distinct_ids d(2)] that(1) d(1) show ?thesis by simp
  qed
  have "q \<in> D" if "walked L s training ?look m q" for q
    using that
  proof induction
    case start
    from same [OF walked.start top] show ?case .
  next
    case (above q extra p r)
    from same [OF walked.above [OF above.hyps] closed [OF above.IH above.hyps(2-4)]] show ?case .
  qed
  with D(2) n show ?thesis by blast
qed

section \<open>What a recorded use guarantees\<close>

lemma record_sources_steps: "record_sources sources kind ref s = (s', r) \<Longrightarrow> curation_step\<^sup>*\<^sup>* s s'"
proof (induction sources kind ref s rule: record_sources.induct)
  case (2 source rest kind reference s)
  show ?case
  proof (cases "use_source source kind reference s")
    case (Inr p)
    then obtain s1 u where use: "use_source source kind reference s = Inr (s1, u)" by (cases p) auto
    with 2(2) have "record_sources rest kind reference s1 = (s', r)" by simp
    from 2(1) [OF use refl this] curation_step.source_used [OF use] show ?thesis
      by (rule converse_rtranclp_into_rtranclp [rotated])
  qed (use 2(2) in auto)
qed simp

lemma record_sources_tables:
  "record_sources sources kind ref s = (s', r) \<Longrightarrow>
   cur_uses s' = cur_uses s \<and> cur_claims s' = cur_claims s \<and> cur_claim_runs s' = cur_claim_runs s \<and>
   cur_fingerprints s' = cur_fingerprints s"
proof (induction sources kind ref s rule: record_sources.induct)
  case (2 source rest kind reference s)
  then show ?case
    by (cases "use_source source kind reference s") (force simp: use_source_def split: if_splits)+
qed simp

lemma record_use_steps:
  assumes "record_use L fetch clock m kind nodes s = (s', r)"
  shows "curation_step\<^sup>*\<^sup>* s s'"
proof (cases "guarded_runs L fetch m (kind = ''training'') nodes s")
  case (Inr p)
  obtain runs sources where p: "p = (runs, sources)" by (cases p)
  show ?thesis
  proof (cases "use_runs clock runs kind (artifact_id L m) s")
    case (Inr q)
    obtain s1 u where q: "q = (s1, u)" by (cases q)
    from Inr q have use: "curation_step s s1" by (auto intro: curation_step.used)
    have "record_sources (remdups sources) kind (artifact_id L m) s1 = (s', r)"
      using assms Inr p q \<open>guarded_runs L fetch m (kind = ''training'') nodes s = Inr p\<close>
      by (simp add: record_use_def)
    from record_sources_steps [OF this] use show ?thesis by (rule converse_rtranclp_into_rtranclp [rotated])
  qed (use assms Inr p in \<open>auto simp: record_use_def\<close>)
qed (use assms in \<open>auto simp: record_use_def\<close>)

lemma use_source_recorded:
  "use_source source kind ref s = Inr (s', u) \<Longrightarrow>
   set (cur_source_uses s') = insert (source, kind, ref) (set (cur_source_uses s))"
  by (auto simp: use_source_def insert_ignore_def Let_def split: if_splits)

lemma record_sources_recorded:
  "record_sources sources kind ref s = (s', Inr ()) \<Longrightarrow>
   set (cur_source_uses s') = (\<lambda>source. (source, kind, ref)) ` set sources \<union> set (cur_source_uses s)"
proof (induction sources kind ref s rule: record_sources.induct)
  case (2 source rest kind reference s)
  show ?case
  proof (cases "use_source source kind reference s")
    case (Inr p)
    then obtain s1 u where use: "use_source source kind reference s = Inr (s1, u)" by (cases p) auto
    with 2(2) have "record_sources rest kind reference s1 = (s', Inr ())" by simp
    from 2(1) [OF use refl this] use_source_recorded [OF use] show ?thesis by auto
  qed (use 2(2) in auto)
qed simp

lemma record_use_training:
  assumes "record_use L fetch clock m ''training'' nodes s = (s', Inr ())"
  shows "\<exists>runs sources. guarded_runs L fetch m True nodes s = Inr (runs, sources) \<and>
    (\<forall>run \<in> (shares (cur_fingerprints s))\<^sup>* `` set runs. trained s' run \<and> \<not> reserved_for s' ''gold'' run) \<and>
    (\<forall>source \<in> set sources. (source, ''training'', artifact_id L m) \<in> set (cur_source_uses s'))"
proof -
  from assms obtain runs sources s1 u where guard: "guarded_runs L fetch m True nodes s = Inr (runs, sources)"
    and use: "use_runs clock runs ''training'' (artifact_id L m) s = Inr (s1, u)"
    and rec: "record_sources (remdups sources) ''training'' (artifact_id L m) s1 = (s', Inr ())"
    by (auto simp: record_use_def split: sum.splits)
  note tables = record_sources_tables [OF rec]
  have same: "trained s' run = trained s1 run" "reserved_for s' ''gold'' run = reserved_for s1 ''gold'' run" for run
    using tables by (simp_all add: trained_def reserved_for_def)
  have quiet: "reserved_for s1 ''gold'' run = reserved_for s ''gold'' run" for run
    using use_runs_returned(3) [OF use] by (simp add: reserved_for_pairs)
  have "trained s' run \<and> \<not> reserved_for s' ''gold'' run" if "run \<in> (shares (cur_fingerprints s))\<^sup>* `` set runs" for run
    using use_runs_returned(1,2) [OF use, of run] that by (simp add: same quiet run_group_correct)
  moreover have "(source, ''training'', artifact_id L m) \<in> set (cur_source_uses s')" if "source \<in> set sources" for source
    using record_sources_recorded [OF rec] that by simp
  ultimately show ?thesis using guard by blast
qed

end
