(* ===== verification/Blobs.thy ===== *)
theory Blobs
  imports Boundary
begin

text \<open>
  The bounded immutable blob protocol of python/spireagent/storage/blobs.py and its local
  adapter, storage/local.py. The directory tree of \<open>LocalBlobStore\<close> is the list of its
  objects, key and bytes, in the order of their creation. Links inside the tree, which the
  code refuses, and a key that is a directory of another key, which the file system refuses,
  are not modelled.
\<close>

section \<open>Portable keys\<close>

fun split_on :: "char \<Rightarrow> string \<Rightarrow> string list" where
  "split_on c [] = [[]]"
| "split_on c (x # xs) =
     (if x = c then [] # split_on c xs
      else (case split_on c xs of [] \<Rightarrow> [[x]] | part # parts \<Rightarrow> (x # part) # parts))"

definition key_start :: "char \<Rightarrow> bool" where
  "key_start c \<longleftrightarrow> c \<in> set ''abcdefghijklmnopqrstuvwxyz0123456789''"

definition key_char :: "char \<Rightarrow> bool" where
  "key_char c \<longleftrightarrow> key_start c \<or> c \<in> set ''._/-''"

definition reserved_stems :: "string list" where
  "reserved_stems = [''con'', ''prn'', ''aux'', ''nul''] @
     map (\<lambda>d. ''com'' @ [d]) ''123456789'' @ map (\<lambda>d. ''lpt'' @ [d]) ''123456789''"

definition portable_part :: "string \<Rightarrow> bool" where
  "portable_part part \<longleftrightarrow>
     part \<notin> {[], ''.'', ''..''} \<and> last part \<noteq> CHR ''.'' \<and>
     takeWhile (\<lambda>c. c \<noteq> CHR ''.'') part \<notin> set reserved_stems"

definition safe_key :: "string \<Rightarrow> bool \<Rightarrow> string result" where
  "safe_key key prefix =
     (let candidate = (if prefix \<and> key \<noteq> [] \<and> last key = CHR ''/'' then butlast key else key) in
      if candidate = [] \<or> \<not> key_start (hd candidate) \<or> \<not> list_all key_char candidate
      then Inl (StoreError ''invalid_object_key'')
      else if \<not> list_all portable_part (split_on CHR ''/'' candidate)
      then Inl (StoreError ''nonportable_object_key'')
      else Inr key)"

definition max_blob_bytes :: nat where
  "max_blob_bytes = 16 * 1024 * 1024"

definition bounded :: "string \<Rightarrow> unit result" where
  "bounded data =
     (if max_blob_bytes < length data then Inl (StoreError ''blob_exceeds_bounded_transport'') else Inr ())"

section \<open>The local store\<close>

type_synonym blobs = "(string \<times> string) list"

definition local_get :: "string \<Rightarrow> blobs \<Rightarrow> string result" where
  "local_get key b =
     and_then (safe_key key False) (\<lambda>_.
       case map_of b key of
         None \<Rightarrow> Inl (StoreError ''object_not_found'')
       | Some value \<Rightarrow> and_then (bounded value) (\<lambda>_. Inr value))"

definition local_put :: "string \<Rightarrow> string \<Rightarrow> blobs \<Rightarrow> (blobs \<times> bool) result" where
  "local_put key data b =
     and_then (bounded data) (\<lambda>_.
     and_then (safe_key key False) (\<lambda>_.
       case map_of b key of
         None \<Rightarrow> Inr (b @ [(key, data)], True)
       | Some _ \<Rightarrow>
           and_then (local_get key b) (\<lambda>old.
             if old \<noteq> data then Inl (StoreError ''immutable_key_collision'') else Inr (b, False))))"

definition has_prefix :: "string \<Rightarrow> string \<Rightarrow> bool" where
  "has_prefix p s \<longleftrightarrow> take (length p) s = p"

definition local_keys :: "string \<Rightarrow> blobs \<Rightarrow> string list result" where
  "local_keys prefix b =
     and_then (safe_key prefix True) (\<lambda>_. Inr (sort (filter (has_prefix prefix) (map fst b))))"

section \<open>The contract of an immutable store\<close>

text \<open>
  What \<open>ManifestArtifactStore\<close> relies on: a key that was put reads back the bytes put, no
  later put changes what a key reads, and putting the bytes a key already has is a no-op.
\<close>

locale immutable_blobs =
  fixes put :: "string \<Rightarrow> string \<Rightarrow> 'b \<Rightarrow> ('b \<times> bool) result"
    and get :: "string \<Rightarrow> 'b \<Rightarrow> string result"
  assumes get_put: "put k d b = Inr (b', x) \<Longrightarrow> get k b' = Inr d"
    and get_kept: "put k d b = Inr (b', x) \<Longrightarrow> get j b = Inr v \<Longrightarrow> get j b' = Inr v"
    and put_again: "get k b = Inr d \<Longrightarrow> put k d b = Inr (b, False)"
begin

lemma put_twice: "put k d b = Inr (b', x) \<Longrightarrow> put k d b' = Inr (b', False)"
  by (rule put_again) (rule get_put)

lemma put_conflict: "get k b = Inr d \<Longrightarrow> put k e b = Inr (b', x) \<Longrightarrow> e = d \<and> b' = b \<and> \<not> x"
  using get_put [of k e b b' x] get_kept [of k e b b' x k d] put_again [of k b d] by auto

end

text \<open>Histories of puts, and what they keep.\<close>

inductive grows :: "(string \<Rightarrow> string \<Rightarrow> 'b \<Rightarrow> ('b \<times> bool) result) \<Rightarrow> 'b \<Rightarrow> 'b \<Rightarrow> bool" for put where
  same: "grows put b b"
| more: "grows put b c \<Longrightarrow> put k d c = Inr (c', x) \<Longrightarrow> grows put b c'"

lemma grows_put: "put k d b = Inr (c, x) \<Longrightarrow> grows put b c"
  by (rule grows.more [OF grows.same])

lemma grows_trans: "grows put b c \<Longrightarrow> grows put a b \<Longrightarrow> grows put a c"
  by (induction rule: grows.induct) (auto intro: grows.more)

context immutable_blobs
begin

lemma get_grows: "grows put b c \<Longrightarrow> get k b = Inr v \<Longrightarrow> get k c = Inr v"
  by (induction rule: grows.induct) (auto intro: get_kept)

end

lemma safe_key_returns: "safe_key k p = Inr u \<Longrightarrow> u = k"
  by (auto simp: safe_key_def Let_def split: if_splits)

lemma safe_key_cases:
  obtains (safe) "safe_key k p = Inr k" | (unsafe) e where "safe_key k p = Inl e"
  by (cases "safe_key k p") (auto dest: safe_key_returns)

lemma local_get_eq_Inr [returned]:
  "local_get k b = Inr v \<longleftrightarrow> map_of b k = Some v \<and> length v \<le> max_blob_bytes \<and> safe_key k False = Inr k"
  by (rule safe_key_cases [of k False]; cases "map_of b k"; auto simp: local_get_def bounded_def)

lemma local_put_eq_Inr:
  "local_put k d b = Inr (b', x) \<longleftrightarrow>
     length d \<le> max_blob_bytes \<and> safe_key k False = Inr k \<and>
     (case map_of b k of None \<Rightarrow> b' = b @ [(k, d)] \<and> x | Some old \<Rightarrow> old = d \<and> b' = b \<and> \<not> x)"
  by (rule safe_key_cases [of k False]; cases "map_of b k";
      auto simp: local_put_def local_get_def bounded_def)

lemma local_put_fresh:
  "length d \<le> max_blob_bytes \<Longrightarrow> safe_key k False = Inr k \<Longrightarrow> map_of b k = None \<Longrightarrow>
   local_put k d b = Inr (b @ [(k, d)], True)"
  by (simp add: local_put_eq_Inr)

interpretation local_store: immutable_blobs local_put local_get
proof unfold_locales
  fix k d b b' x
  assume put: "local_put k d b = Inr (b', x)"
  then show "local_get k b' = Inr d"
    by (auto simp: local_put_eq_Inr local_get_eq_Inr map_add_def split: option.splits)
  fix j v
  assume "local_get j b = Inr v"
  with put show "local_get j b' = Inr v"
    by (auto simp: local_put_eq_Inr local_get_eq_Inr map_add_def split: option.splits)
next
  fix k b d
  assume "local_get k b = Inr d"
  then show "local_put k d b = Inr (b, False)"
    by (auto simp: local_put_eq_Inr local_get_eq_Inr)
qed

end
