(* ===== verification/Store.thy ===== *)
theory Store
  imports Blobs Manifests
begin

text \<open>
  \<open>ManifestArtifactStore\<close> of python/spireagent/storage/store.py over any blob store: payloads
  cut into chunks with an index, their verified reading, and manifests published after their
  parents and payloads. The blob store is the pair of its \<open>put\_if\_absent\<close> and \<open>get\<close>; the
  laws it keeps are the locale \<open>immutable\_blobs\<close>. \<open>materialize\<close> is file handling and not
  modelled.
\<close>

section \<open>Writing a payload\<close>

definition chunk_bytes :: nat where
  "chunk_bytes = 8 * 1024 * 1024"

definition payload_schema :: string where
  "payload_schema = ''stpd/payload-index-v1''"

text \<open>
  The source of a payload is the list of the answers its \<open>read\<close> gives, in order; once they
  are used up it answers with no bytes, as a file at its end does.
\<close>

datatype read_answer = Bytes string | NotBytes

fun fill_chunk :: "read_answer list \<Rightarrow> string \<Rightarrow> (string \<times> read_answer list) result" where
  "fill_chunk [] buffered = Inr (buffered, [])"
| "fill_chunk (answer # source) buffered =
     (if chunk_bytes \<le> length buffered then Inr (buffered, answer # source)
      else
        (case answer of
           NotBytes \<Rightarrow> Inl (StoreError ''payload_stream_must_be_binary'')
         | Bytes part \<Rightarrow>
             if chunk_bytes - length buffered < length part
             then Inl (StoreError ''payload_stream_violated_read_bound'')
             else if part = [] then Inr (buffered, source)
             else fill_chunk source (buffered @ part)))"

lemma fill_chunk_shorter:
  "fill_chunk src buf = Inr (buf', rest) \<Longrightarrow> length rest \<le> length src \<and> (buf = [] \<and> buf' \<noteq> [] \<longrightarrow> length rest < length src)"
proof (induction src buf rule: fill_chunk.induct)
  case (2 answer source buffered)
  then show ?case
    by (cases answer) (fastforce split: if_splits)+
qed auto

definition object_key :: "string \<Rightarrow> string" where
  "object_key sha = ''objects/sha256/'' @ sha"

definition index_key :: "string \<Rightarrow> string" where
  "index_key sha = ''payload-indexes/v1/'' @ sha @ ''.json''"

definition manifest_key :: "string \<Rightarrow> string" where
  "manifest_key i = ''manifests/'' @ i @ ''.json''"

text \<open>
  The loop of \<open>put\_payload\<close>. \<open>whole\<close> collects the bytes hashed so far, \<open>chunks\<close> the entries
  of the index. \<open>put\<close> is the blob store's. There is no transaction here: the store returned
  beside an error keeps the chunks already written.
\<close>

function put_chunks ::
  "stdlib \<Rightarrow> (string \<Rightarrow> string \<Rightarrow> 'b \<Rightarrow> ('b \<times> bool) result) \<Rightarrow> read_answer list \<Rightarrow> string \<Rightarrow>
   (string \<times> nat) list \<Rightarrow> 'b \<Rightarrow> 'b \<times> (string \<times> (string \<times> nat) list) result" where
  "put_chunks L put source whole chunks b =
     (case fill_chunk source [] of
        Inl e \<Rightarrow> (b, Inl e)
      | Inr (data, rest) \<Rightarrow>
          if data = [] then (b, Inr (whole, chunks))
          else
            (case put (object_key (sha256 L data)) data b of
               Inl e \<Rightarrow> (b, Inl e)
             | Inr (b', _) \<Rightarrow>
                 put_chunks L put rest (whole @ data) (chunks @ [(sha256 L data, length data)]) b'))"
  by pat_completeness auto
termination
  by (relation "measure (\<lambda>(L, put, source, whole, chunks, b). length source)")
    (auto dest: fill_chunk_shorter)

definition chunk_dict :: "string \<times> nat \<Rightarrow> json" where
  "chunk_dict c = JObj [(''sha256'', JStr (fst c)), (''size'', JInt (int (snd c)))]"

definition index_dict :: "string \<Rightarrow> int \<Rightarrow> (string \<times> nat) list \<Rightarrow> (string \<times> json) list" where
  "index_dict sha n chunks =
     [(''schema'', JStr payload_schema), (''sha256'', JStr sha), (''size'', JInt n),
      (''chunks'', JList (map chunk_dict chunks))]"

definition put_payload ::
  "stdlib \<Rightarrow> (string \<Rightarrow> string \<Rightarrow> 'b \<Rightarrow> ('b \<times> bool) result) \<Rightarrow> string \<Rightarrow> read_answer list \<Rightarrow> string \<Rightarrow>
   'b \<Rightarrow> 'b \<times> payload result" where
  "put_payload L put role source media b =
     (case put_chunks L put source [] [] b of
        (b1, Inl e) \<Rightarrow> (b1, Inl e)
      | (b1, Inr (whole, chunks)) \<Rightarrow>
          (case make_payload (JStr role) (JStr (sha256 L whole)) (JInt (int (length whole))) (JStr media) of
             Inl e \<Rightarrow> (b1, Inl e)
           | Inr payload \<Rightarrow>
               (case put (index_key (payload_sha payload))
                       (json_bytes (JObj (index_dict (payload_sha payload) (int (length whole)) chunks))) b1 of
                  Inl e \<Rightarrow> (b1, Inl e)
                | Inr (b2, _) \<Rightarrow> (b2, Inr payload))))"

section \<open>Reading a payload\<close>

text \<open>
  \<open>==\<close> between a decoded JSON value and an int: a bool is an int in Python, and a float is
  equal when it is integral; below 10\textasciicircum 16 its text is then the digits with \<open>.0\<close>.
\<close>

definition equals_int :: "json \<Rightarrow> int \<Rightarrow> bool" where
  "equals_int v i \<longleftrightarrow>
     (case v of
        JInt j \<Rightarrow> j = i
      | JBool c \<Rightarrow> of_bool c = i
      | JFloat f \<Rightarrow> f = show_int i @ ''.0'' \<or> i = 0 \<and> f = ''-0.0''
      | _ \<Rightarrow> False)"

fun read_chunks ::
  "stdlib \<Rightarrow> (string \<Rightarrow> 'b \<Rightarrow> string result) \<Rightarrow> payload \<Rightarrow> nat \<Rightarrow> json list \<Rightarrow> string \<Rightarrow> 'b \<Rightarrow>
   (string list \<times> string) result" where
  "read_chunks L get payload position [] whole b = Inr ([], whole)"
| "read_chunks L get payload position (entry # entries) whole b =
     and_then (object_fields entry [''sha256'', ''size''] ''payload.chunk'') (\<lambda>chunk.
     and_then (item chunk ''sha256'') (\<lambda>raw_key.
     and_then (digest raw_key ''payload.chunk'' 64) (\<lambda>key.
     and_then (item chunk ''size'') (\<lambda>raw_size.
     and_then (unsigned raw_size ''payload.chunk'') (\<lambda>expected.
       if expected \<noteq> min (int chunk_bytes) (payload_size payload - int position * int chunk_bytes)
       then Inl (StoreError ''invalid_chunk_size'')
       else
         and_then (get (object_key key) b) (\<lambda>data.
           if int (length data) \<noteq> expected \<or> sha256 L data \<noteq> key
           then Inl (StoreError ''payload_chunk_integrity_failure'')
           else if payload_size payload < int (length (whole @ data))
           then Inl (StoreError ''payload_size_overflow'')
           else
             and_then (read_chunks L get payload (Suc position) entries (whole @ data) b)
               (\<lambda>(rest, total). Inr (data # rest, total))))))))"

definition read_payload ::
  "stdlib \<Rightarrow> (string \<Rightarrow> 'b \<Rightarrow> string result) \<Rightarrow> payload \<Rightarrow> 'b \<Rightarrow> string list result" where
  "read_payload L get payload b =
     and_then (get (index_key (payload_sha payload)) b) (\<lambda>raw.
     and_then (decode_json (float_text L) raw) (\<lambda>doc.
     and_then (object_fields doc [''schema'', ''sha256'', ''size'', ''chunks''] ''payload'') (\<lambda>index.
     and_then (item index ''schema'') (\<lambda>schema.
     and_then (item index ''sha256'') (\<lambda>sha.
     and_then (item index ''size'') (\<lambda>raw_size.
       if schema \<noteq> JStr payload_schema \<or> sha \<noteq> JStr (payload_sha payload) \<or>
          \<not> equals_int raw_size (payload_size payload) \<or> raw \<noteq> json_bytes (JObj index)
       then Inl (StoreError ''payload_index_mismatch'')
       else
         and_then (unsigned raw_size ''payload.index_size'') (\<lambda>_.
         and_then (item index ''chunks'') (\<lambda>raw_chunks.
         and_then (array raw_chunks ''payload.chunks'') (\<lambda>entries.
           if int (length entries) \<noteq> (payload_size payload + int chunk_bytes - 1) div int chunk_bytes
           then Inl (StoreError ''payload_integrity_failure'')
           else
             and_then (read_chunks L get payload 0 entries [] b) (\<lambda>(chunks, whole).
               if int (length whole) \<noteq> payload_size payload \<or> sha256 L whole \<noteq> payload_sha payload
               then Inl (StoreError ''payload_integrity_failure'')
               else Inr chunks))))))))))"

definition payload_text ::
  "stdlib \<Rightarrow> (string \<Rightarrow> 'b \<Rightarrow> string result) \<Rightarrow> payload \<Rightarrow> int \<Rightarrow> 'b \<Rightarrow> string result" where
  "payload_text L get payload maximum b =
     (if maximum < payload_size payload then Inl (StoreError ''use_streaming_for_large_payload'')
      else and_then (read_payload L get payload b) (\<lambda>chunks. Inr (concat chunks)))"

section \<open>Manifests\<close>

definition get_manifest ::
  "stdlib \<Rightarrow> (string \<Rightarrow> 'b \<Rightarrow> string result) \<Rightarrow> string \<Rightarrow> 'b \<Rightarrow> manifest result" where
  "get_manifest L get i b =
     and_then (digest (JStr i) ''artifact_id'' 64) (\<lambda>_.
     and_then (get (manifest_key i) b) (\<lambda>raw. manifest_from_bytes L raw (Some i)))"

definition publish ::
  "stdlib \<Rightarrow> (string \<Rightarrow> string \<Rightarrow> 'b \<Rightarrow> ('b \<times> bool) result) \<Rightarrow> (string \<Rightarrow> 'b \<Rightarrow> string result) \<Rightarrow>
   manifest \<Rightarrow> 'b \<Rightarrow> ('b \<times> string) result" where
  "publish L put get m b =
     and_then (each (\<lambda>p. get_manifest L get (parent_artifact p) b) (mf_parents m)) (\<lambda>_.
     and_then (each (\<lambda>p. read_payload L get p b) (mf_payloads m)) (\<lambda>_.
     and_then (put (manifest_key (artifact_id L m)) (manifest_bytes L m) b) (\<lambda>(b', _).
       Inr (b', artifact_id L m))))"

text \<open>\<open>removesuffix\<close> and \<open>removeprefix\<close> strip the ends that \<open>manifest\_key\<close> added.\<close>

definition has_suffix :: "string \<Rightarrow> string \<Rightarrow> bool" where
  "has_suffix p s \<longleftrightarrow> length p \<le> length s \<and> drop (length s - length p) s = p"

definition strip_key :: "string \<Rightarrow> string" where
  "strip_key key =
     (let tail = (if has_prefix ''manifests/'' key then drop 10 key else key)
      in if has_suffix ''.json'' tail then take (length tail - 5) tail else tail)"

definition manifest_ids :: "(string \<Rightarrow> 'b \<Rightarrow> string list result) \<Rightarrow> 'b \<Rightarrow> string list result" where
  "manifest_ids keys b =
     and_then (keys ''manifests/'' b) (\<lambda>ks.
     and_then (each (\<lambda>key.
         if \<not> has_suffix ''.json'' key then Inl (StoreError ''unexpected_manifest_key'')
         else digest (JStr (strip_key key)) ''manifest_key'' 64) ks) (\<lambda>ids. Inr (sort ids)))"

section \<open>A payload reads back\<close>

text \<open>The bytes an end-of-file free source gives, and a source that ends for good.\<close>

fun source_bytes :: "read_answer list \<Rightarrow> string" where
  "source_bytes [] = []"
| "source_bytes (Bytes part # source) = part @ source_bytes source"
| "source_bytes (NotBytes # source) = source_bytes source"

fun ends_once :: "read_answer list \<Rightarrow> bool" where
  "ends_once [] = True"
| "ends_once (Bytes part # source) = (if part = [] then list_all (\<lambda>a. a = Bytes []) source else ends_once source)"
| "ends_once (NotBytes # source) = True"

lemma chunk_bytes_pos [simp]: "0 < chunk_bytes"
  by (simp add: chunk_bytes_def)

lemma fill_chunk_empty_source:
  "list_all (\<lambda>a. a = Bytes []) src \<Longrightarrow> length buf < chunk_bytes \<Longrightarrow>
   \<exists>rest. fill_chunk src buf = Inr (buf, rest) \<and> list_all (\<lambda>a. a = Bytes []) rest"
  by (cases src) auto

lemma source_bytes_empty: "list_all (\<lambda>a. a = Bytes []) src \<Longrightarrow> source_bytes src = []"
  by (induction src) auto

lemma ends_once_empty: "list_all (\<lambda>a. a = Bytes []) src \<Longrightarrow> ends_once src"
  by (cases src) auto

lemma fill_chunk_takes:
  "fill_chunk src buf = Inr (buf', rest) \<Longrightarrow> ends_once src \<Longrightarrow> length buf \<le> chunk_bytes \<Longrightarrow>
   buf' @ source_bytes rest = buf @ source_bytes src \<and> length buf' \<le> chunk_bytes \<and> ends_once rest \<and>
   (length buf' < chunk_bytes \<longrightarrow> list_all (\<lambda>a. a = Bytes []) rest)"
proof (induction src buf rule: fill_chunk.induct)
  case (2 answer source buffered)
  then show ?case
    by (cases answer)
      (auto simp: source_bytes_empty ends_once_empty not_less split: if_splits)
qed auto

text \<open>Full chunks, then one that need not be full.\<close>

fun chunked :: "string list \<Rightarrow> bool" where
  "chunked [] = True"
| "chunked (d # ds) = (d \<noteq> [] \<and> length d \<le> chunk_bytes \<and> (ds \<noteq> [] \<longrightarrow> length d = chunk_bytes) \<and> chunked ds)"

lemma chunked_count:
  "chunked ds \<Longrightarrow> int (length ds) = (int (length (concat ds)) + int chunk_bytes - 1) div int chunk_bytes"
proof (induction ds)
  case (Cons d ds)
  have pos: "0 < int chunk_bytes" by simp
  show ?case
  proof (cases "ds = []")
    case True
    with Cons.prems have "0 < length d" "length d \<le> chunk_bytes" by auto
    then have "(int (length d) - 1 + int chunk_bytes * 1) div int chunk_bytes = 1 + (int (length d) - 1) div int chunk_bytes"
      by (intro div_mult_self2) simp
    moreover have "(int (length d) - 1) div int chunk_bytes = 0"
      using \<open>0 < length d\<close> \<open>length d \<le> chunk_bytes\<close> by (intro div_pos_pos_trivial) auto
    ultimately show ?thesis using True by (simp add: algebra_simps)
  next
    case False
    with Cons.prems have "length d = chunk_bytes" "chunked ds" by auto
    moreover have "(int (length (concat ds)) + int chunk_bytes - 1 + int chunk_bytes * 1) div int chunk_bytes =
        1 + (int (length (concat ds)) + int chunk_bytes - 1) div int chunk_bytes"
      by (intro div_mult_self2) simp
    ultimately show ?thesis using Cons.IH by (simp add: algebra_simps)
  qed
qed (simp add: div_pos_pos_trivial)

definition chunk_entry :: "stdlib \<Rightarrow> string \<Rightarrow> string \<times> nat" where
  "chunk_entry L d = (sha256 L d, length d)"

lemma sort_chunk_dict [simp]: "sort_keys (chunk_dict c) = chunk_dict c"
  by (simp add: chunk_dict_def)

lemma read_chunks_written:
  assumes L: "hex_digests L"
  shows "chunked ds \<Longrightarrow> \<forall>d \<in> set ds. get (object_key (sha256 L d)) b = Inr d \<Longrightarrow>
    payload_size p = int (length (whole @ concat ds)) \<Longrightarrow>
    (ds \<noteq> [] \<longrightarrow> length whole = position * chunk_bytes) \<Longrightarrow>
    read_chunks L get p position (map (\<lambda>d. chunk_dict (chunk_entry L d)) ds) whole b = Inr (ds, whole @ concat ds)"
proof (induction ds arbitrary: position whole)
  case (Cons d ds)
  have size: "int (length d) = min (int chunk_bytes) (payload_size p - int position * int chunk_bytes)"
    using Cons.prems by (cases "ds = []") auto
  have sha: "length (sha256 L d) = 64" "lower_hex (sha256 L d)" using L by (simp_all add: hex_digests_def)
  have "read_chunks L get p (Suc position) (map (\<lambda>d. chunk_dict (chunk_entry L d)) ds) (whole @ d) b =
      Inr (ds, (whole @ d) @ concat ds)"
    using Cons.prems by (intro Cons.IH) auto
  moreover have "\<not> payload_size p < int (length (whole @ d))" using Cons.prems(3) by simp
  ultimately show ?case
    using Cons.prems(2) sha size
    by (simp add: chunk_dict_def chunk_entry_def object_fields_def item_def digest_def unsigned_def)
qed simp

context immutable_blobs
begin

lemma put_chunks_written:
  "put_chunks L put src whole chunks b = (b', Inr (whole', chunks')) \<Longrightarrow> ends_once src \<Longrightarrow>
   grows put b b' \<and> whole' = whole @ source_bytes src \<and>
   (\<exists>ds. chunks' = chunks @ map (chunk_entry L) ds \<and> concat ds = source_bytes src \<and> chunked ds \<and>
      (\<forall>d \<in> set ds. get (object_key (sha256 L d)) b' = Inr d))"
proof (induction "length src" arbitrary: src whole chunks b rule: less_induct)
  case less
  obtain data rest where fill: "fill_chunk src [] = Inr (data, rest)"
    using less.prems(1) by (cases "fill_chunk src []") auto
  from fill_chunk_takes [OF fill less.prems(2)] have
    taken: "data @ source_bytes rest = source_bytes src" "length data \<le> chunk_bytes" "ends_once rest"
      "length data < chunk_bytes \<Longrightarrow> list_all (\<lambda>a. a = Bytes []) rest"
    by auto
  show ?case
  proof (cases "data = []")
    case True
    with fill taken less.prems(1) show ?thesis
      by (auto simp: source_bytes_empty intro: grows.same)
  next
    case False
    with less.prems(1) fill obtain b1 x where put: "put (object_key (sha256 L data)) data b = Inr (b1, x)"
      and loop: "put_chunks L put rest (whole @ data) (chunks @ [chunk_entry L data]) b1 = (b', Inr (whole', chunks'))"
      by (cases "put (object_key (sha256 L data)) data b") (auto simp: chunk_entry_def)
    from fill_chunk_shorter [OF fill] False have "length rest < length src" by simp
    from less.hyps [OF this loop taken(3)] obtain ds where
      ds: "grows put b1 b'" "whole' = (whole @ data) @ source_bytes rest"
        "chunks' = (chunks @ [chunk_entry L data]) @ map (chunk_entry L) ds" "concat ds = source_bytes rest"
        "chunked ds" "\<forall>d \<in> set ds. get (object_key (sha256 L d)) b' = Inr d"
      by blast
    have "length data < chunk_bytes \<Longrightarrow> ds = []"
      using ds(4,5) taken(4) by (cases ds) (auto simp: source_bytes_empty)
    then have "chunked (data # ds)" using False taken(2) ds(5) by fastforce
    moreover have "get (object_key (sha256 L data)) b' = Inr data"
      using get_grows [OF ds(1) get_put [OF put]] .
    moreover have "grows put b b'"
      using grows_trans [OF ds(1) grows_put [of put, OF put]] .
    ultimately show ?thesis
      using ds taken(1) by (intro conjI exI [of _ "data # ds"]) auto
  qed
qed

lemma read_index:
  assumes L: "hex_digests L" and ds: "chunked ds" "\<forall>d \<in> set ds. get (object_key (sha256 L d)) b = Inr d"
    and p: "payload_sha p = sha256 L (concat ds)" "payload_size p = int (length (concat ds))"
    and index: "get (index_key (payload_sha p)) b =
      Inr (json_bytes (JObj (index_dict (payload_sha p) (payload_size p) (map (chunk_entry L) ds))))"
  shows "read_payload L get p b = Inr ds"
proof -
  let ?kvs = "index_dict (payload_sha p) (payload_size p) (map (chunk_entry L) ds)"
  obtain obj where obj: "sort_keys (JObj ?kvs) = JObj obj" "fst ` set obj = fst ` set ?kvs"
    "\<And>key. item obj key = (case map_of ?kvs key of None \<Rightarrow> Inl KeyError | Some v \<Rightarrow> Inr (sort_keys v))"
    by (rule stored_object [of ?kvs]) (rule that)
  have plain: "strict_json (JObj ?kvs)" "printable (float_text L) (JObj ?kvs)"
    by (auto simp: index_dict_def chunk_dict_def list_all_iff)
  have doc: "decode_json (float_text L) (json_bytes (JObj ?kvs)) = Inr (JObj obj)"
    unfolding json_bytes_def canonical_text_def obj(1) [symmetric]
    by (rule decode_print_line) (simp_all only: printable_sort_keys strict_sort_keys plain)
  have again: "json_bytes (JObj obj) = json_bytes (JObj ?kvs)"
    unfolding json_bytes_def canonical_text_def by (simp only: obj(1) [symmetric] sort_keys_idem)
  have names: "fst ` set obj = set [''schema'', ''sha256'', ''size'', ''chunks'']"
    unfolding obj(2) by (auto simp: index_dict_def)
  have items: "item obj ''schema'' = Inr (JStr payload_schema)" "item obj ''sha256'' = Inr (JStr (payload_sha p))"
    "item obj ''size'' = Inr (JInt (payload_size p))"
    "item obj ''chunks'' = Inr (JList (map (\<lambda>d. chunk_dict (chunk_entry L d)) ds))"
    by (simp_all add: obj(3) index_dict_def comp_def)
  have "read_chunks L get p 0 (map (\<lambda>d. chunk_dict (chunk_entry L d)) ds) [] b = Inr (ds, [] @ concat ds)"
    using L ds p(2) by (intro read_chunks_written) auto
  moreover have "\<not> payload_size p < 0" using p(2) by simp
  ultimately show ?thesis
    using items chunked_count [OF ds(1)]
    by (simp add: read_payload_def index doc object_fields_stored [OF names] again unsigned_def array_def
        equals_int_def p [symmetric])
qed

lemma put_payload_reads:
  assumes L: "hex_digests L" and put: "put_payload L put role src media b = (b', Inr p)"
    and ends: "ends_once src" and later: "grows put b' c"
  shows "\<exists>ds. read_payload L get p c = Inr ds \<and> concat ds = source_bytes src \<and> payload_role p = role \<and>
    payload_media p = media \<and> payload_sha p = sha256 L (source_bytes src)"
proof -
  obtain b1 whole chunks x where
    loop: "put_chunks L put src [] [] b = (b1, Inr (whole, chunks))"
    and made: "make_payload (JStr role) (JStr (sha256 L whole)) (JInt (int (length whole))) (JStr media) = Inr p"
    and index: "put (index_key (payload_sha p))
      (json_bytes (JObj (index_dict (payload_sha p) (int (length whole)) chunks))) b1 = Inr (b', x)"
    using put unfolding put_payload_def
    by (cases "put_chunks L put src [] [] b"; cases "snd (put_chunks L put src [] [] b)")
      (force split: sum.splits prod.splits)+
  from put_chunks_written [OF loop ends] obtain ds where
    ds: "whole = source_bytes src" "chunks = map (chunk_entry L) ds" "concat ds = source_bytes src"
      "chunked ds" "\<forall>d \<in> set ds. get (object_key (sha256 L d)) b1 = Inr d"
    by auto
  from made have p: "payload_role p = role" "payload_media p = media" "payload_sha p = sha256 L whole"
      "payload_size p = int (length whole)"
    by (auto simp: make_payload_def and_then_eq_Inr text_value_eq_Inr digest_eq_Inr unsigned_eq_Inr)
  have "\<forall>d \<in> set ds. get (object_key (sha256 L d)) c = Inr d"
    using ds(5) get_kept [OF index] get_grows [OF later] by blast
  moreover have "get (index_key (payload_sha p)) c =
      Inr (json_bytes (JObj (index_dict (payload_sha p) (payload_size p) (map (chunk_entry L) ds))))"
    using get_grows [OF later get_put [OF index]] p(4) ds(2) by simp
  ultimately have "read_payload L get p c = Inr ds"
    using L ds p by (intro read_index) auto
  with ds p show ?thesis by auto
qed

lemma put_payload_grows:
  assumes "put_payload L put role src media b = (b', Inr p)" and ends: "ends_once src"
  shows "grows put b b'"
proof -
  obtain b1 whole chunks x where
    loop: "put_chunks L put src [] [] b = (b1, Inr (whole, chunks))"
    and index: "put (index_key (payload_sha p))
      (json_bytes (JObj (index_dict (payload_sha p) (int (length whole)) chunks))) b1 = Inr (b', x)"
    using assms(1) unfolding put_payload_def
    by (cases "put_chunks L put src [] [] b"; cases "snd (put_chunks L put src [] [] b)")
      (force split: sum.splits prod.splits)+
  from put_chunks_written [OF loop ends] have "grows put b b1" by blast
  then show ?thesis using grows_trans [OF grows_put [of put, OF index]] by blast
qed

lemma publish_grows: "publish L put get m b = Inr (b', i) \<Longrightarrow> grows put b b'"
  by (auto simp: publish_def and_then_eq_Inr intro: grows_put [of put])

lemma publish_reads:
  assumes L: "hex_digests L" and put: "publish L put get m b = Inr (b', i)"
    and m: "manifest_ok L m" "manifest_typed L m" and later: "grows put b' c"
  shows "i = artifact_id L m \<and> get_manifest L get i c = Inr (normal_manifest m)"
proof -
  from put obtain x where i: "i = artifact_id L m"
    and stored: "put (manifest_key i) (manifest_bytes L m) b = Inr (b', x)"
    by (auto simp: publish_def and_then_eq_Inr)
  have "get (manifest_key i) c = Inr (manifest_bytes L m)"
    by (rule get_grows [OF later get_put [OF stored]])
  moreover have "length i = 64" "lower_hex i"
    using L by (simp_all add: i artifact_id_def hex_digests_def)
  ultimately show ?thesis
    using manifest_from_bytes_complete [OF L m] by (simp add: get_manifest_def digest_def i)
qed

text \<open>A published manifest has its parents and its payloads readable, then and ever after.\<close>

lemma read_chunks_grows:
  assumes "grows put b c"
  shows "read_chunks L get p n es whole b = Inr r \<Longrightarrow> read_chunks L get p n es whole c = Inr r"
proof (induction es arbitrary: n whole r)
  case (Cons e es)
  obtain ds total where r: "r = (ds, total)" by (cases r)
  from Cons.prems show ?case
    unfolding r read_chunks.simps and_then_eq_Inr if_raise_eq_Inr case_prod_beta
    using Cons.IH get_grows [OF assms] by blast
qed simp

lemma read_payload_grows:
  assumes "grows put b c" and "read_payload L get p b = Inr ds"
  shows "read_payload L get p c = Inr ds"
  using assms(2) get_grows [OF assms(1)] read_chunks_grows [OF assms(1)]
  unfolding read_payload_def and_then_eq_Inr if_raise_eq_Inr case_prod_beta by blast

lemma get_manifest_grows: "grows put b c \<Longrightarrow> get_manifest L get i b = Inr m \<Longrightarrow> get_manifest L get i c = Inr m"
  using get_grows [of b c] by (auto simp: get_manifest_def and_then_eq_Inr)

lemma publish_closed:
  assumes "publish L put get m b = Inr (b', i)" and later: "grows put b' c"
  shows "(\<forall>p \<in> set (mf_parents m). \<exists>n. get_manifest L get (parent_artifact p) c = Inr n) \<and>
    (\<forall>p \<in> set (mf_payloads m). \<exists>ds. read_payload L get p c = Inr ds)"
proof -
  from assms(1) obtain ms dss x where
    parents: "each (\<lambda>p. get_manifest L get (parent_artifact p) b) (mf_parents m) = Inr ms"
    and payloads: "each (\<lambda>p. read_payload L get p b) (mf_payloads m) = Inr dss"
    and stored: "put (manifest_key (artifact_id L m)) (manifest_bytes L m) b = Inr (b', x)"
    by (auto simp: publish_def and_then_eq_Inr)
  have "grows put b c" using grows_trans [OF later grows_put [of put, OF stored]] .
  then show ?thesis
    using each_in_set [OF parents] each_in_set [OF payloads]
    by (blast intro: get_manifest_grows read_payload_grows)
qed

end

end
