(* ===== verification/HubClaims.thy ===== *)
theory HubClaims
  imports Samples CurationAccess Store
begin

text \<open>
  The properties of the research reservations, of the disclosure guard in front of downloads
  and training, of the artifact store and of the public artifact policy, each with its
  witness on a small concrete ledger and store.
\<close>

section \<open>A concrete ledger and store\<close>

text \<open>The stand-in hash of the manifests reads the text behind \<open>\{"kind":"\<close>.\<close>

definition kind_lib :: stdlib where
  "kind_lib = sample_lib\<lparr>sha256 := (\<lambda>t. sample_sha (drop 9 t))\<rparr>"

definition sample_bundle :: manifest where
  "sample_bundle = \<lparr>mf_kind = ''dataset'', mf_producer = sample_producer, mf_parents = [], mf_payloads = [],
     mf_parameters = JObj [(''schema'', JStr ''stpd/received-bundle-v1'')]\<rparr>"

text \<open>The identities the stand-in hash gives them.\<close>

definition bundle_id :: string where
  "bundle_id = sample_sha ''data''"

definition run_id :: string where
  "run_id = sample_sha [CHR ''r'', CHR ''u'', CHR ''n'', quote_char]"

definition sample_run :: manifest where
  "sample_run = \<lparr>mf_kind = ''run'', mf_producer = sample_producer,
     mf_parents = [Parent ''training_input'' bundle_id],
     mf_payloads = [], mf_parameters = JObj []\<rparr>"

definition sample_fetch :: "string \<Rightarrow> manifest result" where
  "sample_fetch i =
     (if i = bundle_id then Inr sample_bundle
      else Inl (StoreError ''object_not_found''))"

definition sample_index :: "string \<Rightarrow> string \<Rightarrow> string \<Rightarrow> indexed" where
  "sample_index run fingerprint occurrence =
     \<lparr>ix_run = run, ix_fingerprint = fingerprint, ix_occurrence = occurrence, ix_decision = occurrence,
      ix_sequence = 1, ix_family = ''f'', ix_surface = ''s'', ix_action = JNull\<rparr>"

text \<open>The bundle holds the runs r1 and r2, which share a fingerprint, and r3, which shares none.\<close>

definition ledger_indexed :: ops where
  "ledger_indexed = fst (index_source bundle_id ''platform_verified'' ''a''
     [Some (sample_index ''r1'' ''x'' ''o1''), Some (sample_index ''r2'' ''x'' ''o2'')] new_operations)"

text \<open>Its tables; the transactions that follow start from them.\<close>

definition sample_indexed :: ops where
  "sample_indexed = new_operations\<lparr>
     cur_sources := [\<lparr>cs_id = bundle_id, cs_archive = ''a'', cs_complete = True\<rparr>],
     cur_source_runs := [(bundle_id, ''r1''), (bundle_id, ''r2'')],
     cur_fingerprints := [(''x'', ''r1''), (''x'', ''r2'')]\<rparr>"

definition ledger_trained :: ops where
  "ledger_trained = fst (committed (use_runs 5 [''r1''] ''training'' ''job'') sample_indexed)"

definition ledger_sealed :: ops where
  "ledger_sealed = fst (committed (claim_purpose 6 ''c1'' (JStr ''gold'') [''r3''] [] False None) ledger_trained)"

definition ledger_after :: ops where
  "ledger_after = fst (committed (use_runs 7 [''r2''] ''training'' ''job2'') ledger_sealed)"

definition ledger_recorded :: ops where
  "ledger_recorded = fst (record_use kind_lib sample_fetch 5 sample_run ''training'' [] sample_indexed)"

lemma committed_value: "map_sum (\<lambda>e. ()) snd (t s) = Inr x \<Longrightarrow> t s = Inr (fst (committed t s), x)"
  by (cases "t s") auto

lemma three_steps: "r a b \<Longrightarrow> r b c \<Longrightarrow> r c d \<Longrightarrow> r\<^sup>*\<^sup>* a d"
  by (meson rtranclp.rtrancl_into_rtrancl rtranclp.rtrancl_refl)

lemma indexed_steps: "curation_step\<^sup>*\<^sup>* new_operations ledger_indexed"
proof -
  let ?i = bundle_id
  let ?items = "[sample_index ''r1'' ''x'' ''o1'', sample_index ''r2'' ''x'' ''o2'']"
  let ?t1 = "fst (committed (index_begin ?i ''platform_verified'' ''a'') new_operations)"
  let ?t2 = "fst (committed (index_batch ?i ?items) ?t1)"
  have began: "index_begin ?i ''platform_verified'' ''a'' new_operations = Inr (?t1, True)"
    by (rule committed_value) code_simp
  have batched: "index_batch ?i ?items ?t1 = Inr (?t2, ())" by (simp add: committed_def index_batch_def)
  have finished: "index_finish ?i ?t2 = Inr (fst (committed (index_finish ?i) ?t2), ())"
    by (simp add: committed_def index_finish_def)
  have "batches [Some a, Some b] = [[Some a, Some b]]" for a b :: indexed by simp
  then have "ledger_indexed = fst (committed (index_finish ?i) ?t2)"
    unfolding ledger_indexed_def index_source_def began by simp
  moreover have "curation_step\<^sup>*\<^sup>* new_operations (fst (committed (index_finish ?i) ?t2))"
    by (rule three_steps [of curation_step, OF curation_step.began [OF began] curation_step.indexed [OF batched]
          curation_step.finished [OF finished]])
  ultimately show ?thesis by (simp only:)
qed

lemma sample_indexed_steps: "curation_step\<^sup>*\<^sup>* new_operations sample_indexed"
proof (rule rtranclp.rtrancl_into_rtrancl [OF indexed_steps curation_step.elsewhere])
  have "(cur_fingerprints ledger_indexed, cur_claims ledger_indexed, cur_claim_runs ledger_indexed, cur_uses ledger_indexed,
        cur_sources ledger_indexed, cur_source_runs ledger_indexed, cur_source_uses ledger_indexed) =
      ([(''x'', ''r1''), (''x'', ''r2'')], [], [], [], [\<lparr>cs_id = bundle_id, cs_archive = ''a'', cs_complete = True\<rparr>],
        [(bundle_id, ''r1''), (bundle_id, ''r2'')], [])"
    by code_simp
  then show "cur_fingerprints sample_indexed = cur_fingerprints ledger_indexed"
    "cur_claims sample_indexed = cur_claims ledger_indexed"
    "cur_claim_runs sample_indexed = cur_claim_runs ledger_indexed"
    "cur_uses sample_indexed = cur_uses ledger_indexed"
    "cur_sources sample_indexed = cur_sources ledger_indexed"
    "cur_source_runs sample_indexed = cur_source_runs ledger_indexed"
    "cur_source_uses sample_indexed = cur_source_uses ledger_indexed"
    by (simp_all add: sample_indexed_def new_operations_def)
qed

lemma trained_ran: "use_runs 5 [''r1''] ''training'' ''job'' sample_indexed = Inr (ledger_trained, ())"
  unfolding ledger_trained_def by (rule committed_value) code_simp

lemma sealed_ran:
  "claim_purpose 6 ''c1'' (JStr ''gold'') [''r3''] [] False None ledger_trained = Inr (ledger_sealed, ())"
  unfolding ledger_sealed_def by (rule committed_value) code_simp

lemma after_ran: "use_runs 7 [''r2''] ''training'' ''job2'' ledger_sealed = Inr (ledger_after, ())"
  unfolding ledger_after_def by (rule committed_value) code_simp

lemma sealed_steps: "curation_step\<^sup>*\<^sup>* new_operations ledger_sealed"
  by (rule rtranclp.rtrancl_into_rtrancl [OF rtranclp.rtrancl_into_rtrancl [OF sample_indexed_steps
        curation_step.used [OF trained_ran]] curation_step.reserved [OF sealed_ran]])

lemma indexed_keyed: "curation_keyed sample_indexed" "curation_keyed ledger_trained"
proof -
  show "curation_keyed sample_indexed"
    using curation_steps_isolated [OF sample_indexed_steps new_isolated] by (simp add: isolated_def)
  from curation_step_keyed [OF curation_step.used [OF trained_ran] this] show "curation_keyed ledger_trained" .
qed

section \<open>Gold stays isolated\<close>

text \<open>A source that was received, indexed and trained on as a whole, before another run is sealed.\<close>

definition gold_upload :: upload where
  "gold_upload = \<lparr>u_id = ''u1'', u_device = ''d1'', u_content_id = ''c'', u_manifest_sha = ''m'', u_intent = JObj [],
     u_status = Verified, u_receipt = Some (JObj [(''evidence_id'', JStr bundle_id)]),
     u_verify_attempts = 0, u_retry_at = 0, u_last_error = None\<rparr>"

definition source_begun :: ops where
  "source_begun = fst (committed (index_begin bundle_id ''platform_verified'' ''a'') (new_operations\<lparr>uploads := [gold_upload]\<rparr>))"

definition source_filled :: ops where
  "source_filled = fst (committed (index_batch bundle_id [sample_index ''r1'' ''x'' ''o1'']) source_begun)"

definition source_ready :: ops where "source_ready = fst (committed (index_finish bundle_id) source_filled)"

definition source_trained :: ops where
  "source_trained = fst (committed (use_source bundle_id ''training'' ''job'') source_ready)"

definition source_sealed :: ops where
  "source_sealed = fst (committed (claim_purpose 6 ''c1'' (JStr ''gold'') [''r3''] [] True None) source_trained)"

lemma disciplined_sealed: "disciplined\<^sup>*\<^sup>* new_operations source_sealed"
proof -
  let ?start = "new_operations\<lparr>uploads := [gold_upload]\<rparr>"
  have "curation_step new_operations ?start" by (rule curation_step.elsewhere) simp_all
  then have start: "disciplined new_operations ?start"
    by (simp add: disciplined_def source_received_def has_gold_def new_operations_def)
  have "index_begin bundle_id ''platform_verified'' ''a'' ?start = Inr (source_begun, True)"
    unfolding source_begun_def by (rule committed_value) code_simp
  note begun = disciplined_indexing(1) [OF this]
  have "index_batch bundle_id [sample_index ''r1'' ''x'' ''o1''] source_begun = Inr (source_filled, ())"
    by (simp add: source_filled_def committed_def index_batch_def)
  moreover have "\<not> source_complete source_begun bundle_id" by code_simp
  ultimately have filled: "disciplined source_begun source_filled" by (rule disciplined_indexing(2))
  have "index_finish bundle_id source_filled = Inr (source_ready, ())"
    by (simp add: source_ready_def committed_def index_finish_def)
  note ready = disciplined_indexing(3) [OF this]
  have "use_source bundle_id ''training'' ''job'' source_ready = Inr (source_trained, ())"
    unfolding source_trained_def by (rule committed_value) code_simp
  moreover have "source_received source_ready bundle_id" unfolding source_received_def by code_simp
  ultimately have trained: "disciplined source_ready source_trained" by (rule disciplined_use(2))
  have "claim_purpose 6 ''c1'' (JStr ''gold'') [''r3''] [] True None source_trained = Inr (source_sealed, ())"
    unfolding source_sealed_def by (rule committed_value) code_simp
  then have "disciplined source_trained source_sealed" by (rule disciplined_reserved) simp
  with start begun filled ready trained show ?thesis
    by (meson rtranclp.rtrancl_into_rtrancl rtranclp.rtrancl_refl)
qed

lemma disciplined_curation: "disciplined\<^sup>*\<^sup>* s s' \<Longrightarrow> curation_step\<^sup>*\<^sup>* s s'"
  by (rule rtranclp_mono [THEN predicate2D]) (auto simp: disciplined_def)

text \<open>Claim C17. Gold data never meets training. In every state a curation ledger can reach, by any
order of indexing, reservations, bindings, uses and annotations, a run reserved for a gold dataset
has no recorded training use of its own and is reserved for neither a training nor a test dataset.
And where the program's discipline was kept (\<open>disciplined\<close>: used sources are evidence of verified uploads,
the first gold reservation required their complete inventory, and a complete source is not indexed
again), it does not count as used for training at all, as the ledger itself decides it: no source that
contains it was trained on either.\<close>

theorem gold_isolated:
  assumes "curation_step\<^sup>*\<^sup>* new_operations s" and "reserved_for s ''gold'' run"
  shows "\<not> trained s run \<and> \<not> reserved_for s ''training'' run \<and> \<not> reserved_for s ''test'' run \<and>
    (disciplined\<^sup>*\<^sup>* new_operations s \<longrightarrow> \<not> used_for_training s run)"
proof -
  have "gold_unused new_operations"
    using new_isolated
    by (simp add: gold_unused_def sources_settled_def reserved_for_def new_operations_def)
  from disciplined_steps_unused [OF _ this, of s] curation_steps_isolated [OF assms(1) new_isolated] assms(2)
  show ?thesis by (auto simp: isolated_def gold_unused_def)
qed

theorem gold_isolated_witness:
  "reserved_for source_sealed ''gold'' ''r3'' \<and> used_for_training source_sealed ''r1'' \<and>
   \<not> used_for_training source_sealed ''r3'' \<and> \<not> reserved_for source_sealed ''training'' ''r3''"
proof -
  have "reserved_for source_sealed ''gold'' ''r3''" "used_for_training source_sealed ''r1''"
    by code_simp+
  with gold_isolated [OF disciplined_curation [OF disciplined_sealed]] disciplined_sealed show ?thesis by blast
qed

text \<open>A run used for training can no longer be sealed as gold: whatever happens between the
two transactions, a gold reservation that succeeds later names no run whose fingerprint group
contains a run trained before.\<close>

theorem gold_after_training:
  assumes "use_runs clock runs ''training'' reference s = Inr (s1, u)" and "curation_step\<^sup>*\<^sup>* s1 s2"
    and "curation_keyed s"
    and "claim_purpose clock' identity (JStr ''gold'') sel parents inventory revision s2 = Inr (s3, v)"
  shows "(shares (cur_fingerprints s2))\<^sup>* `` set sel \<inter> set runs = {}"
  by (rule gold_after_training_refused [OF assms])

theorem gold_after_training_witness:
  "(shares (cur_fingerprints ledger_trained))\<^sup>* `` set [''r3''] \<inter> set [''r1''] = {}"
  by (rule gold_after_training [OF trained_ran rtranclp.rtrancl_refl indexed_keyed(1) sealed_ran])

text \<open>A sealed gold run can no longer be trained on: a training use that succeeds after a
gold reservation, whatever happens between them, names no run whose fingerprint group contains a
reserved one.\<close>

theorem training_after_gold:
  assumes "claim_purpose clock identity (JStr ''gold'') sel parents inventory revision s = Inr (s1, u)"
    and "curation_step\<^sup>*\<^sup>* s1 s2" and "curation_keyed s"
    and "use_runs clock' runs ''training'' reference s2 = Inr (s3, v)"
  shows "(shares (cur_fingerprints s2))\<^sup>* `` set runs \<inter> set sel = {}"
  by (rule training_after_gold_refused [OF assms])

theorem training_after_gold_witness:
  "(shares (cur_fingerprints ledger_sealed))\<^sup>* `` set [''r2''] \<inter> set [''r3''] = {}"
  by (rule training_after_gold [OF sealed_ran rtranclp.rtrancl_refl indexed_keyed(2) after_ran])

text \<open>Claim C25. The grouping query is exact: the runs it returns are those reachable from the given
ones over shared fingerprints, neither more nor fewer, and its evaluation ends.\<close>

theorem run_group_exact: "set (run_group s runs) = (shares (cur_fingerprints s))\<^sup>* `` set runs"
  by (rule run_group_correct)

section \<open>The disclosure guard\<close>

lemma sample_ids [simp]:
  "artifact_id kind_lib sample_bundle = bundle_id" "artifact_id kind_lib sample_run = run_id"
  by code_simp+

lemma ids_differ: "bundle_id \<noteq> run_id" "run_id \<noteq> bundle_id"
  by code_simp+

lemma sample_nodes:
  "node_step kind_lib sample_indexed True sample_run = Inr (Parents [])"
  "node_step kind_lib sample_indexed True sample_bundle = Inr (Finished [''r1'', ''r2''] (Some bundle_id))"
  unfolding node_step_def Let_def sample_ids by code_simp+

lemma sample_look: "lookup_node kind_lib [] sample_fetch bundle_id = Inr sample_bundle"
  by (simp add: lookup_node_def sample_fetch_def)

lemma recorded_group: "run_group sample_indexed [''r1'', ''r2''] = [''r1'', ''r2'']" "claims_of sample_indexed [''r1'', ''r2''] = []"
  by code_simp+

lemma run_parents: "mf_parents sample_run = [Parent ''training_input'' bundle_id]"
  by (simp add: sample_run_def)

lemma run_payloads: "mf_payloads sample_run = []"
  by (simp add: sample_run_def)

lemma recorded_runs:
  "guarded_runs kind_lib sample_fetch sample_run True [] sample_indexed = Inr ([''r1'', ''r2''], [bundle_id])"
  by (simp add: guarded_runs_def sample_nodes run_parents sample_look ids_differ recorded_group gold_among_def)

lemma recorded_ran:
  "record_use kind_lib sample_fetch 5 sample_run ''training'' [] sample_indexed = (ledger_recorded, Inr ())"
proof -
  have "record_use kind_lib sample_fetch 5 sample_run ''training'' [] sample_indexed =
      (case use_runs 5 [''r1'', ''r2''] ''training'' run_id sample_indexed of
         Inl e \<Rightarrow> (sample_indexed, Inl e)
       | Inr (s1, _) \<Rightarrow> record_sources [bundle_id] ''training'' run_id s1)"
    by (simp add: record_use_def recorded_runs cong: sum.case_cong)
  moreover have "snd (case use_runs 5 [''r1'', ''r2''] ''training'' run_id sample_indexed of
         Inl e \<Rightarrow> (sample_indexed, Inl e)
       | Inr (s1, _) \<Rightarrow> record_sources [bundle_id] ''training'' run_id s1) = Inr ()"
    by code_simp
  ultimately show ?thesis by (simp add: ledger_recorded_def prod_eq_iff)
qed

lemma sample_walked:
  "walked kind_lib sample_indexed True (lookup_node kind_lib [] sample_fetch) sample_run n \<Longrightarrow>
   n \<in> {sample_run, sample_bundle}"
  by (induction rule: walked.induct) (auto simp: sample_nodes run_parents sample_look)

text \<open>Claim C24. Nothing is disclosed uncounted: when the guard lets an artifact through, every manifest
its walk can reach is neither gold nor (for training) test data, and the runs each of them
discloses, by its dataset reservation or by the received bundle it is, are among the runs the guard
returns; the received bundles are among the sources it returns.\<close>

theorem disclosure_covered:
  assumes "guarded_runs L fetch m training nodes s = Inr (runs, sources)"
    and "inj_on (artifact_id L) {n. walked L s training (lookup_node L nodes fetch) m n}"
    and "walked L s training (lookup_node L nodes fetch) m n"
  shows "covered L s training n runs sources"
  by (rule guarded_runs_cover [OF assms])

theorem disclosure_covered_witness:
  "covered kind_lib sample_indexed True sample_bundle [''r1'', ''r2''] [bundle_id]"
proof (rule disclosure_covered [OF recorded_runs])
  show "inj_on (artifact_id kind_lib)
    {n. walked kind_lib sample_indexed True (lookup_node kind_lib [] sample_fetch) sample_run n}"
  proof (rule inj_on_subset [of _ "{sample_run, sample_bundle}"])
    show "inj_on (artifact_id kind_lib) {sample_run, sample_bundle}" using ids_differ by (simp add: inj_on_def)
  qed (use sample_walked in blast)
  show "walked kind_lib sample_indexed True (lookup_node kind_lib [] sample_fetch) sample_run sample_bundle"
    by (rule walked.above [OF walked.start sample_nodes(1), of "Parent ''training_input'' bundle_id"])
      (simp_all add: run_parents sample_look)
qed

text \<open>A recorded training use is binding: once record_use succeeds, every run in the
fingerprint group of the disclosed runs is marked as trained and is not reserved for gold, and every
received bundle on the way is marked as used for training.\<close>

theorem training_use_recorded:
  assumes "record_use L fetch clock m ''training'' nodes s = (s', Inr ())"
    and "guarded_runs L fetch m True nodes s = Inr (runs, sources)"
    and "run \<in> (shares (cur_fingerprints s))\<^sup>* `` set runs"
  shows "trained s' run \<and> \<not> reserved_for s' ''gold'' run \<and>
    (\<lambda>i. (i, ''training'', artifact_id L m)) ` set sources \<subseteq> set (cur_source_uses s')"
  using record_use_training [OF assms(1)] assms(2,3) by auto

theorem training_use_recorded_witness:
  "trained ledger_recorded ''r2'' \<and> \<not> reserved_for ledger_recorded ''gold'' ''r2''"
  using training_use_recorded [OF recorded_ran recorded_runs, of "''r2''"] by auto

section \<open>The artifact store\<close>

lemma sample_digests: "hex_digests sample_lib" "hex_digests kind_lib"
  by (simp_all add: hex_digests_def sample_lib_def kind_lib_def sample_sha_hex)

lemma short_blob: "int (length d) \<le> 1000 \<Longrightarrow> length d \<le> 1000"
  by simp

lemma bounded_blob: "length d \<le> 1000 \<Longrightarrow> length d \<le> max_blob_bytes"
  by (simp add: max_blob_bytes_def)

text \<open>A payload of four bytes, read in two parts, as one chunk and its index.\<close>

definition chunk_sha :: string where
  "chunk_sha = sample_sha ''abcd''"

definition chunk_index :: string where
  "chunk_index = json_bytes (JObj (index_dict chunk_sha 4 [(chunk_sha, 4)]))"

definition store_chunk :: blobs where
  "store_chunk = [(object_key chunk_sha, ''abcd'')]"

definition store_payload :: blobs where
  "store_payload = store_chunk @ [(index_key chunk_sha, chunk_index)]"

lemma chunk_keys:
  "safe_key (object_key chunk_sha) False = Inr (object_key chunk_sha)"
  "safe_key (index_key chunk_sha) False = Inr (index_key chunk_sha)"
  "index_key chunk_sha \<noteq> object_key chunk_sha"
  "length chunk_index \<le> 1000"
  "make_payload (JStr ''weights'') (JStr chunk_sha) (JInt 4) (JStr ''text/plain'') =
     Inr (Payload ''weights'' chunk_sha 4 ''text/plain'')"
      apply code_simp
     apply code_simp
    apply code_simp
   apply (rule short_blob)
   apply code_simp
  apply code_simp
  done

lemma payload_put:
  "put_payload sample_lib local_put ''weights'' [Bytes ''ab'', Bytes ''cd''] ''text/plain'' [] =
     (store_payload, Inr (Payload ''weights'' chunk_sha 4 ''text/plain''))"
proof -
  have fill: "fill_chunk [Bytes ''ab'', Bytes ''cd''] [] = Inr (''abcd'', [])" "fill_chunk [] [] = Inr ([], [])"
    by (simp_all add: chunk_bytes_def)
  have sha: "sha256 sample_lib ''abcd'' = chunk_sha" by (simp add: sample_lib_def chunk_sha_def)
  have chunk: "local_put (object_key chunk_sha) ''abcd'' [] = Inr (store_chunk, True)"
    unfolding store_chunk_def by (subst local_put_fresh) (simp_all add: chunk_keys max_blob_bytes_def)
  have index: "local_put (index_key chunk_sha) chunk_index store_chunk = Inr (store_payload, True)"
    unfolding store_payload_def
    by (rule local_put_fresh) (simp_all add: chunk_keys bounded_blob store_chunk_def)
  have "put_chunks sample_lib local_put [Bytes ''ab'', Bytes ''cd''] [] [] [] =
      (store_chunk, Inr (''abcd'', [(chunk_sha, 4)]))"
    by (simp add: put_chunks.simps [of _ _ "[Bytes ''ab'', Bytes ''cd'']"] fill sha chunk del: fill_chunk.simps)
  with sha index show ?thesis
    by (simp add: put_payload_def chunk_keys chunk_index_def [symmetric])
qed

lemma publish_fresh:
  assumes "each (\<lambda>p. get_manifest L local_get (parent_artifact p) b) (mf_parents m) = Inr ms"
    and "mf_payloads m = []" and "length (manifest_bytes L m) \<le> 1000"
    and "safe_key (manifest_key (artifact_id L m)) False = Inr (manifest_key (artifact_id L m))"
    and "map_of b (manifest_key (artifact_id L m)) = None"
  shows "publish L local_put local_get m b = Inr (b @ [(manifest_key (artifact_id L m), manifest_bytes L m)], artifact_id L m)"
  using assms by (simp add: publish_def local_put_fresh bounded_blob)

definition store_bundle :: blobs where
  "store_bundle = [(manifest_key bundle_id, manifest_bytes kind_lib sample_bundle)]"

definition store_run :: blobs where
  "store_run = store_bundle @ [(manifest_key run_id, manifest_bytes kind_lib sample_run)]"

lemma sample_manifest_keys:
  "safe_key (manifest_key bundle_id) False = Inr (manifest_key bundle_id)"
  "safe_key (manifest_key run_id) False = Inr (manifest_key run_id)"
  "length (manifest_bytes kind_lib sample_bundle) \<le> 1000"
  "length (manifest_bytes kind_lib sample_run) \<le> 1000"
  "manifest_key bundle_id \<noteq> manifest_key run_id"
      apply code_simp
     apply code_simp
    apply (rule short_blob)
    apply code_simp
   apply (rule short_blob)
   apply code_simp
  using ids_differ by (simp add: manifest_key_def)

lemma sample_manifests_ok:
  "manifest_ok kind_lib sample_bundle" "manifest_typed kind_lib sample_bundle"
  "manifest_ok kind_lib sample_run" "manifest_typed kind_lib sample_run"
  by code_simp+

lemma bundle_published:
  "publish kind_lib local_put local_get sample_bundle [] = Inr (store_bundle, bundle_id)"
  unfolding store_bundle_def
  by (subst publish_fresh) (simp_all add: sample_manifest_keys, simp_all add: sample_bundle_def)

lemma bundle_read: "get_manifest kind_lib local_get bundle_id store_bundle = Inr (normal_manifest sample_bundle)"
  using local_store.publish_reads [OF sample_digests(2) bundle_published sample_manifests_ok(1,2) grows.same] by simp

lemma run_published:
  "publish kind_lib local_put local_get sample_run store_bundle = Inr (store_run, run_id)"
proof -
  have "each (\<lambda>p. get_manifest kind_lib local_get (parent_artifact p) store_bundle) (mf_parents sample_run) =
      Inr [normal_manifest sample_bundle]"
    by (simp add: run_parents bundle_read)
  from publish_fresh [OF this] sample_manifest_keys ids_differ show ?thesis
    by (simp add: store_run_def store_bundle_def manifest_key_def run_payloads)
qed

lemma run_kept: "grows local_put store_bundle store_run"
  using run_published by (auto simp: publish_def and_then_eq_Inr intro: grows_put)

text \<open>Claim C19. A payload reads back: the bytes a source gave are exactly the concatenation of the
verified chunks read later through the returned payload, whatever was stored in between, and the
payload names their role, media type and SHA-256.\<close>

theorem payload_round_trip:
  assumes "hex_digests L" and "put_payload L local_put role src media b = (b', Inr p)"
    and "ends_once src" and "grows local_put b' c"
  shows "\<exists>ds. read_payload L local_get p c = Inr ds \<and> concat ds = source_bytes src \<and> payload_role p = role \<and>
    payload_media p = media \<and> payload_sha p = sha256 L (source_bytes src)"
  by (rule local_store.put_payload_reads [OF assms])

theorem payload_round_trip_witness:
  "\<exists>ds. read_payload sample_lib local_get (Payload ''weights'' chunk_sha 4 ''text/plain'') store_payload = Inr ds \<and>
    concat ds = ''abcd''"
  using payload_round_trip [OF sample_digests(1) payload_put _ grows.same] by auto

text \<open>Claim C20. A published manifest is found again: its identity is the content hash, and reading that
identity later, after any further puts, gives the manifest back with its parents and payloads in
their canonical order.\<close>

theorem publish_round_trip:
  assumes "hex_digests L" and "publish L local_put local_get m b = Inr (b', i)"
    and "manifest_ok L m" and "manifest_typed L m" and "grows local_put b' c"
  shows "i = artifact_id L m \<and> get_manifest L local_get i c = Inr (normal_manifest m)"
  by (rule local_store.publish_reads [OF assms])

theorem publish_round_trip_witness:
  "get_manifest kind_lib local_get bundle_id store_run = Inr (normal_manifest sample_bundle)"
  using publish_round_trip [OF sample_digests(2) bundle_published sample_manifests_ok(1,2) run_kept] by simp

text \<open>Publication is closed under lineage: at every time after a manifest was published, each
of its parents is a readable manifest and each of its payloads reads with its integrity verified.\<close>

theorem published_lineage_readable:
  assumes "publish L local_put local_get m b = Inr (b', i)" and "grows local_put b' c"
  shows "list_all (\<lambda>p. \<not> isl (get_manifest L local_get (parent_artifact p) c)) (mf_parents m) \<and>
    list_all (\<lambda>p. \<not> isl (read_payload L local_get p c)) (mf_payloads m)"
  using local_store.publish_closed [OF assms] by (fastforce simp: list_all_iff)

theorem published_lineage_readable_witness:
  "\<not> isl (get_manifest kind_lib local_get bundle_id store_run)"
  using published_lineage_readable [OF run_published grows.same] by (simp add: sample_run_def)

section \<open>The public artifact policy\<close>

definition sample_result :: manifest where
  "sample_result = sample_run\<lparr>mf_kind := ''model''\<rparr>"

definition result_id :: string where
  "result_id = sample_sha ''mode''"

lemma result_identity [simp]: "artifact_id kind_lib sample_result = result_id"
  by code_simp

lemma result_differs: "result_id \<noteq> bundle_id" "bundle_id \<noteq> result_id"
  by code_simp+

lemma result_parents: "mf_parents sample_result = [Parent ''training_input'' bundle_id]" "mf_parents sample_bundle = []"
  by (simp_all add: sample_result_def sample_run_def sample_bundle_def)

lemma result_nodes:
  "node_of kind_lib sample_fetch sample_result result_id = Inr sample_result"
  "node_of kind_lib sample_fetch sample_result bundle_id = Inr sample_bundle"
  by (simp_all add: node_of_def sample_fetch_def result_differs)

lemma result_lineage: "lineage kind_lib sample_fetch sample_result = Inr [sample_result, sample_bundle]"
  by (simp add: lineage_def result_nodes result_parents result_differs)

lemma result_accessible:
  "require_artifact_access kind_lib sample_result False None (Some sample_fetch) = Inr [sample_result, sample_bundle]"
proof -
  have "any_sealed [sample_result, sample_bundle] = Inr False" "mf_kind sample_result \<in> set result_kinds"
    by code_simp+
  then show ?thesis by (simp add: require_artifact_access_def result_lineage)
qed

lemma result_ancestor: "ancestor kind_lib sample_fetch sample_result sample_bundle"
  by (rule ancestor.parent [OF ancestor.itself, of "Parent ''training_input'' bundle_id"])
    (simp_all add: result_parents result_nodes)

text \<open>A public artifact hides no sealed one: when access to an artifact is granted, no manifest in
the whole closure of its parents is a gold or held-out test artifact.\<close>

theorem public_lineage_unsealed:
  assumes "require_artifact_access L origin pm wanted (Some fetch) = Inr nodes"
    and "ancestor L fetch origin n"
  shows "sealed_reason n = Inr None"
  by (rule access_unsealed [OF assms])

theorem public_lineage_unsealed_witness: "sealed_reason sample_bundle = Inr None"
  by (rule public_lineage_unsealed [OF result_accessible result_ancestor])

text \<open>Claim C23. The bounded lineage walk is exact: when it returns, the manifests it returns are the
artifact itself and its ancestors, no more and no fewer.\<close>

theorem lineage_exact:
  assumes "lineage L fetch origin = Inr nodes"
  shows "set nodes = {n. ancestor L fetch origin n}"
  by (rule lineage_closed(1) [OF assms])

theorem lineage_exact_witness: "{n. ancestor kind_lib sample_fetch sample_result n} = {sample_result, sample_bundle}"
  using lineage_exact [OF result_lineage] by simp

text \<open>The walk ends with a result on every readable history of at most 512 manifests, cyclic or
not: if a set of at most 512 identities contains the origin, is closed under parents and is
readable, the lineage is found.\<close>

theorem lineage_found:
  assumes "finite U" and "card U \<le> 512" and "artifact_id L origin \<in> U"
    and "\<And>i. i \<in> U \<Longrightarrow> \<exists>n. node_of L fetch origin i = Inr n \<and> parent_artifact ` set (mf_parents n) \<subseteq> U"
  shows "\<exists>nodes. lineage L fetch origin = Inr nodes"
  by (rule lineage_complete [OF assms])

theorem lineage_found_witness: "\<exists>nodes. lineage kind_lib sample_fetch sample_result = Inr nodes"
proof (rule lineage_found [of "{result_id, bundle_id}"])
  fix i
  assume "i \<in> {result_id, bundle_id}"
  then consider "i = result_id" | "i = bundle_id" by blast
  then show "\<exists>n. node_of kind_lib sample_fetch sample_result i = Inr n \<and>
      parent_artifact ` set (mf_parents n) \<subseteq> {result_id, bundle_id}"
    by cases (simp_all add: result_nodes result_parents)
qed (simp_all add: card_insert_if)

end
