(* ===== verification/CollectionActivity.thy ===== *)
theory CollectionActivity
  imports Artifacts
begin

text \<open>
  python/stpd/collection\_activity.py: the versioned templates of collection activities, the
  consent a member declares and the enrollment document a device receives. A validated template
  is an owned canonical copy: the document decoded from its own canonical bytes.
\<close>

definition template_schema :: string where "template_schema = ''stpd/collection-activity-v1''"
definition collection_settings_schema :: string where "collection_settings_schema = ''stpd/collection-activity-v2''"
definition enrollment_schema :: string where "enrollment_schema = ''stpd/collection-enrollment-v1''"

definition consent_fields :: "string list" where
  "consent_fields = [''human_origin_attested'', ''upload_authorized'', ''project_sharing_authorized'']"

definition slug_start :: "char \<Rightarrow> bool" where
  "slug_start c \<longleftrightarrow> c \<in> set ''abcdefghijklmnopqrstuvwxyz0123456789''"

text \<open>\<open>[a-z0-9][a-z0-9.\_-]*\<close> and \<open>[a-z0-9](?:[a-z0-9.-]*[a-z0-9])?\<close>.\<close>

definition activity_slug :: "string \<Rightarrow> bool" where
  "activity_slug t \<longleftrightarrow> t \<noteq> [] \<and> slug_start (hd t) \<and> list_all (\<lambda>c. slug_start c \<or> c \<in> set ''._-'') t"

definition host_name :: "string \<Rightarrow> bool" where
  "host_name t \<longleftrightarrow> t \<noteq> [] \<and> slug_start (hd t) \<and> slug_start (last t) \<and> list_all (\<lambda>c. slug_start c \<or> c \<in> set ''.-'') t"

text \<open>\<open>[0-9a-f]\{8\}-(?:[0-9a-f]\{4\}-)\{3\}[0-9a-f]\{12\}\<close>.\<close>

definition mvid_shape :: "string \<Rightarrow> bool" where
  "mvid_shape t \<longleftrightarrow> length t = 36 \<and>
     list_all (\<lambda>i. t ! i = CHR ''-'') [8, 13, 18, 23] \<and>
     lower_hex (take 8 t @ take 4 (drop 9 t) @ take 4 (drop 14 t) @ take 4 (drop 19 t) @ drop 24 t)"

definition software_fields :: "string list" where
  "software_fields = [''platform_source_revision'', ''evidence_source_revision'', ''tool_release_id'', ''game'', ''mod'']"

definition settings_fields :: "string list" where
  "settings_fields = [''schema'', ''activity_id'', ''version'', ''name'', ''description'', ''consent_text'',
     ''allowed_upload_hosts'', ''sharing_scope'']"

definition software_identity :: "(string \<times> json) list \<Rightarrow> unit result" where
  "software_identity obj =
     and_then (item obj ''platform_source_revision'') (\<lambda>v.
     and_then (digest v ''campaign.platform_source_revision'' 40) (\<lambda>_.
     and_then (item obj ''evidence_source_revision'') (\<lambda>v.
     and_then (digest v ''campaign.evidence_source_revision'' 40) (\<lambda>_.
     and_then (item obj ''tool_release_id'') (\<lambda>v.
     and_then (digest v ''campaign.tool_release_id'' 64) (\<lambda>_.
     and_then (item obj ''game'') (\<lambda>v.
     and_then (object_fields v [''version'', ''revision'', ''assembly_sha256''] ''campaign.game'') (\<lambda>game.
     and_then (item game ''version'') (\<lambda>v.
     and_then (text_value v ''campaign.game.version'' 80) (\<lambda>_.
     and_then (item game ''revision'') (\<lambda>v.
     and_then (text_value v ''campaign.game.revision'' 80) (\<lambda>_.
     and_then (item game ''assembly_sha256'') (\<lambda>v.
     and_then (digest v ''campaign.game.assembly'' 64) (\<lambda>_.
     and_then (item obj ''mod'') (\<lambda>v.
     and_then (object_fields v [''sha256'', ''mvid''] ''campaign.mod'') (\<lambda>module.
     and_then (item module ''sha256'') (\<lambda>v.
     and_then (digest v ''campaign.mod.sha256'' 64) (\<lambda>_.
     and_then (item module ''mvid'') (\<lambda>v.
       (case v of
          JStr t \<Rightarrow> if mvid_shape t then Inr () else Inl (BoundaryError ''campaign'' ''invalid_mod_mvid'')
        | _ \<Rightarrow> Inl (BoundaryError ''campaign'' ''invalid_mod_mvid'')))))))))))))))))))))"

definition upload_host :: "json \<Rightarrow> bool" where
  "upload_host v = (case v of JStr h \<Rightarrow> length h \<le> 253 \<and> host_name h | _ \<Rightarrow> False)"

definition upload_hosts :: "json \<Rightarrow> bool" where
  "upload_hosts v =
     (case v of
        JList hs \<Rightarrow> 1 \<le> length hs \<and> length hs \<le> 8 \<and> list_all upload_host hs \<and> distinct hs
      | _ \<Rightarrow> False)"

definition flexible_template :: "json \<Rightarrow> bool" where
  "flexible_template value =
     (case value of JObj kvs \<Rightarrow> map_of kvs ''schema'' = Some (JStr collection_settings_schema) | _ \<Rightarrow> False)"

text \<open>The checks of \<open>validate\_template\<close>, before the canonical copy.\<close>

definition check_template :: "json \<Rightarrow> (string \<times> json) list result" where
  "check_template value =
     and_then (object_fields value (settings_fields @ (if flexible_template value then [] else software_fields))
         ''campaign.template'') (\<lambda>obj.
     and_then (item obj ''schema'') (\<lambda>schema.
     and_then (in_strings schema [template_schema, collection_settings_schema]) (\<lambda>known.
     and_then (item obj ''sharing_scope'') (\<lambda>scope.
       if \<not> known \<or> scope \<noteq> JStr ''project_members''
       then Inl (BoundaryError ''campaign'' ''unsupported_template'')
       else
         and_then (item obj ''activity_id'') (\<lambda>v.
         and_then (text_value v ''campaign.activity_id'' 80) (\<lambda>slug.
           if \<not> activity_slug slug then Inl (BoundaryError ''campaign'' ''invalid_activity_id'')
           else
             and_then (item obj ''version'') (\<lambda>v.
               if \<not> (case v of JInt n \<Rightarrow> 1 \<le> n \<and> n \<le> 10000 | _ \<Rightarrow> False)
               then Inl (BoundaryError ''campaign'' ''invalid_template_version'')
               else
                 and_then (item obj ''name'') (\<lambda>v.
                 and_then (text_value v ''campaign.name'' 120) (\<lambda>_.
                 and_then (item obj ''description'') (\<lambda>v.
                 and_then (text_value v ''campaign.description'' 2000) (\<lambda>_.
                 and_then (item obj ''consent_text'') (\<lambda>v.
                 and_then (text_value v ''campaign.consent_text'' 2000) (\<lambda>_.
                 and_then (if flexible_template value then Inr () else software_identity obj) (\<lambda>_.
                 and_then (item obj ''allowed_upload_hosts'') (\<lambda>hosts.
                   if \<not> upload_hosts hosts then Inl (BoundaryError ''campaign'' ''invalid_upload_hosts'')
                   else Inr obj)))))))))))))))"

definition object_value :: "json \<Rightarrow> (string \<times> json) list" where
  "object_value v = (case v of JObj kvs \<Rightarrow> kvs | _ \<Rightarrow> [])"

text \<open>A checked template is an object, so its copy is one: the result is given as its items.\<close>

definition validate_template :: "(string \<Rightarrow> string) \<Rightarrow> json \<Rightarrow> (string \<times> json) list result" where
  "validate_template fr value =
     and_then (check_template value) (\<lambda>obj.
     and_then (decode_json fr (json_bytes (JObj obj))) (\<lambda>copy. Inr (object_value copy)))"

definition validate_consent :: "json \<Rightarrow> (string \<times> json) list result" where
  "validate_consent value =
     and_then (object_fields value consent_fields ''campaign.consent'') (\<lambda>obj.
       if list_ex (\<lambda>key. map_of obj key \<noteq> Some (JBool True)) consent_fields
       then Inl (BoundaryError ''campaign'' ''explicit_campaign_consent_required'')
       else Inr (map (\<lambda>key. (key, JBool True)) (sort consent_fields)))"

text \<open>
  \<open>type(when) not in (int, float) or not math.isfinite(when) or when <= 0\<close>. A float is known
  by its text: it is finite when the decoder accepted it, and positive when it has no sign and
  a nonzero digit before its exponent.
\<close>

definition positive_time :: "json \<Rightarrow> bool" where
  "positive_time v =
     (case v of
        JInt n \<Rightarrow> 0 < n
      | JFloat t \<Rightarrow> \<not> non_finite t \<and> t \<noteq> [] \<and> hd t \<noteq> CHR ''-'' \<and>
          list_ex (\<lambda>c. c \<in> set ''123456789'') (takeWhile (\<lambda>c. c \<noteq> CHR ''e'') t)
      | _ \<Rightarrow> False)"

definition enrollment_fields :: "string list" where
  "enrollment_fields = [''schema'', ''enrollment_id'', ''device_id'', ''template_id'', ''template'', ''consent'',
     ''declared_at'', ''campaign_id'', ''human_origin_verified'']"

definition validate_enrollment :: "hash \<Rightarrow> (string \<Rightarrow> string) \<Rightarrow> json \<Rightarrow> (string \<times> json) list result" where
  "validate_enrollment sha fr value =
     and_then (object_fields value enrollment_fields ''campaign.enrollment'') (\<lambda>obj.
       if map_of obj ''schema'' \<noteq> Some (JStr enrollment_schema) \<or> map_of obj ''human_origin_verified'' \<noteq> Some (JBool False)
       then Inl (BoundaryError ''campaign'' ''unsupported_enrollment'')
       else
         and_then (item obj ''enrollment_id'') (\<lambda>v.
         and_then (digest v ''campaign.enrollment_id'' 32) (\<lambda>identity.
         and_then (item obj ''device_id'') (\<lambda>v.
         and_then (text_value v ''campaign.device_id'' 128) (\<lambda>_.
         and_then (item obj ''template'') (\<lambda>v.
         and_then (validate_template fr v) (\<lambda>template.
           if map_of obj ''template_id'' \<noteq> Some (JStr (sha (json_bytes (JObj template)))) \<or>
              map_of obj ''campaign_id'' \<noteq> Some (JStr (''campaign-'' @ identity))
           then Inl (BoundaryError ''campaign'' ''enrollment_identity_mismatch'')
           else
             and_then (item obj ''consent'') (\<lambda>v.
             and_then (validate_consent v) (\<lambda>_.
             and_then (item obj ''declared_at'') (\<lambda>v.
               if \<not> positive_time v then Inl (BoundaryError ''campaign'' ''invalid_declaration_time'')
               else
                 and_then (decode_json fr (json_bytes (JObj obj))) (\<lambda>copy. Inr (object_value copy))))))))))))"

section \<open>A validated template is canonical\<close>

text \<open>The plain values a template is made of: no floats, and no key twice.\<close>

definition plain_text :: "json \<Rightarrow> bool" where
  "plain_text v \<longleftrightarrow> (\<exists>t. v = JStr t)"

lemma text_value_plain: "text_value v stage n = Inr t \<Longrightarrow> plain_text v"
  by (auto simp: text_value_eq_Inr plain_text_def)

lemma digest_plain: "digest v stage n = Inr t \<Longrightarrow> plain_text v"
  by (auto simp: digest_eq_Inr plain_text_def)

lemma plain_text_sort [simp]: "plain_text v \<Longrightarrow> sort_keys v = v" "plain_text v \<Longrightarrow> printable fr v"
  by (auto simp: plain_text_def)

lemma text_fields_printable:
  assumes "distinct (map fst kvs)" and "\<And>key v. key \<in> fst ` set kvs \<Longrightarrow> item kvs key = Inr v \<Longrightarrow> printable fr v"
  shows "printable fr (JObj kvs)"
proof -
  have "printable fr w" if "(key, w) \<in> set kvs" for key w
    using assms(2) [of key w] map_of_is_SomeI [OF assms(1) that] that by (force simp: item_eq_Inr)
  then show ?thesis by (simp only: printable_JObj) auto
qed

lemma in_strings_JStr: "in_strings v names = Inr True \<Longrightarrow> plain_text v"
  by (auto simp: in_strings_eq_True plain_text_def)

text \<open>What a checked template holds, field by field.\<close>

definition template_fields :: "(string \<times> json) list \<Rightarrow> bool" where
  "template_fields kvs \<longleftrightarrow>
     (\<forall>key \<in> {''schema'', ''sharing_scope'', ''activity_id'', ''name'', ''description'', ''consent_text''}.
        \<exists>v. item kvs key = Inr v \<and> plain_text v) \<and>
     (\<exists>n. item kvs ''version'' = Inr (JInt n)) \<and>
     (\<exists>hs. item kvs ''allowed_upload_hosts'' = Inr (JList hs) \<and> list_all plain_text hs)"

lemma upload_host_plain: "upload_host v \<Longrightarrow> plain_text v"
  by (cases v) (simp_all add: upload_host_def plain_text_def)

lemma upload_hosts_plain: "upload_hosts v \<Longrightarrow> \<exists>hs. v = JList hs \<and> list_all plain_text hs"
  by (cases v) (auto simp: upload_hosts_def list_all_iff intro: upload_host_plain)

lemma check_template_returned:
  assumes "check_template v = Inr obj"
  obtains "v = JObj obj" "fst ` set obj = set (settings_fields @ (if flexible_template v then [] else software_fields))"
    "template_fields obj" "flexible_template v \<or> software_identity obj = Inr ()"
proof -
  from assms obtain schema scope slug version name description consent hosts s1 s2 s3 s4 where
    obj: "object_fields v (settings_fields @ (if flexible_template v then [] else software_fields)) ''campaign.template'' = Inr obj"
    and items: "item obj ''schema'' = Inr schema" "in_strings schema [template_schema, collection_settings_schema] = Inr True"
      "item obj ''sharing_scope'' = Inr scope" "scope = JStr ''project_members''"
      "item obj ''activity_id'' = Inr slug" "text_value slug ''campaign.activity_id'' 80 = Inr s1"
      "item obj ''version'' = Inr version" "(case version of JInt n \<Rightarrow> 1 \<le> n \<and> n \<le> 10000 | _ \<Rightarrow> False)"
      "item obj ''name'' = Inr name" "text_value name ''campaign.name'' 120 = Inr s2"
      "item obj ''description'' = Inr description" "text_value description ''campaign.description'' 2000 = Inr s3"
      "item obj ''consent_text'' = Inr consent" "text_value consent ''campaign.consent_text'' 2000 = Inr s4"
      "item obj ''allowed_upload_hosts'' = Inr hosts" "upload_hosts hosts"
    and soft: "(if flexible_template v then Inr () else software_identity obj) = Inr ()"
    unfolding check_template_def and_then_eq_Inr if_raise_eq_Inr by auto
  have "template_fields obj"
    unfolding template_fields_def
    using items upload_hosts_plain [OF items(16)] in_strings_JStr [OF items(2)]
      text_value_plain [OF items(6)] text_value_plain [OF items(10)] text_value_plain [OF items(12)] text_value_plain [OF items(14)]
    by (cases version) (auto simp: plain_text_def)
  with obj soft show thesis
    by (intro that) (auto simp: object_fields_eq_Inr split: if_splits)
qed

lemma item_key: "item kvs key = Inr w \<Longrightarrow> key \<in> fst ` set kvs"
  by (metis item_eq_Inr map_of_eq_None_iff option.distinct(1))

lemma object_fields_sorted:
  assumes "object_fields v names stage = Inr kvs" and "\<forall>key w. item kvs key = Inr w \<longrightarrow> plain_text w"
    and "sort_keys v = JObj obj"
  shows "object_fields (JObj obj) names stage = Inr obj" and "item kvs key = Inr w \<Longrightarrow> item obj key = Inr w"
proof -
  obtain obj' where o: "sort_keys v = JObj obj'" "fst ` set obj' = set names"
    "\<And>key w. item kvs key = Inr w \<Longrightarrow> item obj' key = Inr (sort_keys w)"
    by (rule stored_items [OF assms(1)]) (rule that)
  with assms(3) have same: "obj' = obj" by simp
  with o(2) show "object_fields (JObj obj) names stage = Inr obj" by (simp add: object_fields_eq_Inr)
  show "item kvs key = Inr w \<Longrightarrow> item obj key = Inr w"
    using o(3) [of key w] assms(2) same by simp
qed

lemma software_identity_sorted:
  assumes soft: "software_identity kvs = Inr ()"
    and items: "\<And>key w. item kvs key = Inr w \<Longrightarrow> item obj key = Inr (sort_keys w)"
  shows "software_identity obj = Inr ()"
    and "\<And>key. key \<in> set software_fields \<Longrightarrow> distinct (map fst kvs) \<Longrightarrow> strict_json (JObj kvs) \<Longrightarrow>
      \<exists>w. item kvs key = Inr w \<and> printable fr w"
proof -
  from soft obtain v1 d1 v2 d2 v3 d3 v4 game v5 d5 v6 d6 v7 d7 v8 module v9 d9 v10 where
    f: "item kvs ''platform_source_revision'' = Inr v1" "digest v1 ''campaign.platform_source_revision'' 40 = Inr d1"
      "item kvs ''evidence_source_revision'' = Inr v2" "digest v2 ''campaign.evidence_source_revision'' 40 = Inr d2"
      "item kvs ''tool_release_id'' = Inr v3" "digest v3 ''campaign.tool_release_id'' 64 = Inr d3"
      "item kvs ''game'' = Inr v4" "item kvs ''mod'' = Inr v8"
    and g: "object_fields v4 [''version'', ''revision'', ''assembly_sha256''] ''campaign.game'' = Inr game"
      "item game ''version'' = Inr v5" "text_value v5 ''campaign.game.version'' 80 = Inr d5"
      "item game ''revision'' = Inr v6" "text_value v6 ''campaign.game.revision'' 80 = Inr d6"
      "item game ''assembly_sha256'' = Inr v7" "digest v7 ''campaign.game.assembly'' 64 = Inr d7"
    and m: "object_fields v8 [''sha256'', ''mvid''] ''campaign.mod'' = Inr module"
      "item module ''sha256'' = Inr v9" "digest v9 ''campaign.mod.sha256'' 64 = Inr d9"
      "item module ''mvid'' = Inr v10"
      "(case v10 of
          JStr t \<Rightarrow> if mvid_shape t then Inr () else Inl (BoundaryError ''campaign'' ''invalid_mod_mvid'')
        | _ \<Rightarrow> Inl (BoundaryError ''campaign'' ''invalid_mod_mvid'')) = Inr ()"
    unfolding software_identity_def and_then_eq_Inr by (elim exE conjE) (rule that, assumption+)
  then obtain mvid where mvid: "v10 = JStr mvid" "mvid_shape mvid" by (cases v10) (auto split: if_splits)
  have plain: "plain_text v1" "plain_text v2" "plain_text v3" "plain_text v5" "plain_text v6" "plain_text v7"
      "plain_text v9" "plain_text v10"
    using mvid digest_plain [OF f(2)] digest_plain [OF f(4)] digest_plain [OF f(6)] text_value_plain [OF g(3)]
      text_value_plain [OF g(5)] digest_plain [OF g(7)] digest_plain [OF m(3)] by (simp_all add: plain_text_def)
  have game_plain: "plain_text w" if "item game key = Inr w" for key w
  proof -
    have "key \<in> {''version'', ''revision'', ''assembly_sha256''}"
      using item_key [OF that] g(1) by (simp add: object_fields_eq_Inr)
    then consider "key = ''version''" | "key = ''revision''" | "key = ''assembly_sha256''" by blast
    then show ?thesis using that g plain by cases simp_all
  qed
  have mod_plain: "plain_text w" if "item module key = Inr w" for key w
  proof -
    have "key \<in> {''sha256'', ''mvid''}"
      using item_key [OF that] m(1) by (simp add: object_fields_eq_Inr)
    then consider "key = ''sha256''" | "key = ''mvid''" by blast
    then show ?thesis using that m plain by cases simp_all
  qed
  obtain game' where game': "sort_keys v4 = JObj game'" by (rule stored_items [OF g(1)])
  obtain module' where mod': "sort_keys v8 = JObj module'" by (rule stored_items [OF m(1)])
  have all_plain: "\<forall>key w. item game key = Inr w \<longrightarrow> plain_text w" "\<forall>key w. item module key = Inr w \<longrightarrow> plain_text w"
    using game_plain mod_plain by blast+
  note gs = object_fields_sorted [OF g(1) all_plain(1) game']
  note ms = object_fields_sorted [OF m(1) all_plain(2) mod']
  show "software_identity obj = Inr ()"
  proof -
    have o: "item obj ''platform_source_revision'' = Inr v1" "item obj ''evidence_source_revision'' = Inr v2"
      "item obj ''tool_release_id'' = Inr v3" "item obj ''game'' = Inr (JObj game')" "item obj ''mod'' = Inr (JObj module')"
      using items [OF f(1)] items [OF f(3)] items [OF f(5)] items [OF f(7)] items [OF f(8)] plain(1-3)
      by (simp_all only: plain_text_sort game' mod')
    show ?thesis
      unfolding software_identity_def
      by (simp only: o f(2,4,6) gs(1) gs(2) [OF g(2)] g(3) gs(2) [OF g(4)] g(5) gs(2) [OF g(6)] g(7)
          ms(1) ms(2) [OF m(2)] m(3) ms(2) [OF m(4)] mvid and_then_simps json.case if_True)
  qed
  fix key
  assume key: "key \<in> set software_fields" and strict: "strict_json (JObj kvs)"
  have strict_item: "strict_json w" if "item kvs k = Inr w" for k w
  proof -
    from that have "(k, w) \<in> set kvs" by (simp add: item_eq_Inr map_of_SomeD)
    with strict show ?thesis by (auto simp: list_all_iff)
  qed
  have objects: "v4 = JObj game" "v8 = JObj module" using g(1) m(1) by (simp_all add: object_fields_eq_Inr)
  have game_ok: "printable fr (JObj game)"
    using strict_item [OF f(7)] game_plain by (intro text_fields_printable) (simp_all add: objects)
  have mod_ok: "printable fr (JObj module)"
    using strict_item [OF f(8)] mod_plain by (intro text_fields_printable) (simp_all add: objects)
  from key consider "key = ''platform_source_revision''" | "key = ''evidence_source_revision''"
    | "key = ''tool_release_id''" | "key = ''game''" | "key = ''mod''"
    unfolding software_fields_def by auto
  then show "\<exists>w. item kvs key = Inr w \<and> printable fr w"
  proof cases
    case 1
    then show ?thesis using f(1) plain(1) by simp
  next
    case 2
    then show ?thesis using f(3) plain(2) by simp
  next
    case 3
    then show ?thesis using f(5) plain(3) by simp
  next
    case 4
    then show ?thesis using f(7) game_ok objects(1) by (simp del: printable_JObj printable.simps(7))
  next
    case 5
    then show ?thesis using f(8) mod_ok objects(2) by (simp del: printable_JObj printable.simps(7))
  qed
qed

lemma settings_keys:
  "key \<in> set settings_fields \<Longrightarrow>
   key \<in> {''schema'', ''sharing_scope'', ''activity_id'', ''name'', ''description'', ''consent_text''} \<or>
   key = ''version'' \<or> key = ''allowed_upload_hosts''"
  by (simp add: settings_fields_def) metis

lemma check_template_printable:
  assumes check: "check_template v = Inr obj" and strict: "strict_json v"
  shows "printable fr v"
proof -
  have v: "v = JObj obj" and keys: "fst ` set obj = set (settings_fields @ (if flexible_template v then [] else software_fields))"
    and fields: "template_fields obj" and soft: "flexible_template v \<or> software_identity obj = Inr ()"
    using check by (rule check_template_returned; simp)+
  have distinct: "distinct (map fst obj)" using strict v by simp
  show ?thesis
    unfolding v
  proof (rule text_fields_printable [OF distinct])
    fix key w
    assume key: "key \<in> fst ` set obj" and w: "item obj key = Inr w"
    show "printable fr w"
    proof (cases "key \<in> set software_fields \<and> \<not> flexible_template v")
      case True
      with soft have soft: "software_identity obj = Inr ()" by simp
      have whole: "object_fields v (map fst obj) ''x'' = Inr obj" by (simp add: v object_fields_eq_Inr)
      obtain obj' where "\<And>k u. item obj k = Inr u \<Longrightarrow> item obj' k = Inr (sort_keys u)"
        by (rule stored_items [OF whole]) (rule that)
      from software_identity_sorted(2) [OF soft this, of key fr] True distinct strict v
      obtain u where "item obj key = Inr u" "printable fr u" by blast
      with w show ?thesis by simp
    next
      case False
      with key keys have "key \<in> set settings_fields" by (auto split: if_splits)
      from settings_keys [OF this] show ?thesis
      proof (elim disjE)
        assume "key \<in> {''schema'', ''sharing_scope'', ''activity_id'', ''name'', ''description'', ''consent_text''}"
        with conjunct1 [OF fields [unfolded template_fields_def]]
        have "\<exists>u. item obj key = Inr u \<and> plain_text u" by (rule bspec)
        then obtain u where "item obj key = Inr u" "plain_text u" by blast
        with w show ?thesis by simp
      next
        assume version: "key = ''version''"
        obtain n where "item obj ''version'' = Inr (JInt n)"
          using conjunct1 [OF conjunct2 [OF fields [unfolded template_fields_def]]] by (elim exE) (rule that)
        with version w have "w = JInt n" by simp
        then show ?thesis by simp
      next
        assume hosts: "key = ''allowed_upload_hosts''"
        obtain hs where "item obj ''allowed_upload_hosts'' = Inr (JList hs)" "list_all plain_text hs"
          using conjunct2 [OF conjunct2 [OF fields [unfolded template_fields_def]]] by (elim exE conjE) (rule that)
        with hosts w have "w = JList hs" by simp
        with \<open>list_all plain_text hs\<close> show ?thesis by (simp add: list_all_iff)
      qed
    qed
  qed
qed

text \<open>Sorting the keys of a checked template changes nothing the checks see.\<close>

lemma check_template_sorted:
  assumes check: "check_template v = Inr obj" and obj': "sort_keys v = JObj obj'"
  shows "check_template (JObj obj') = Inr obj'"
proof -
  from check obtain schema scope slug version name description consent hosts s1 s2 s3 s4 where
    fields: "object_fields v (settings_fields @ (if flexible_template v then [] else software_fields)) ''campaign.template'' = Inr obj"
    and items: "item obj ''schema'' = Inr schema" "in_strings schema [template_schema, collection_settings_schema] = Inr True"
      "item obj ''sharing_scope'' = Inr scope" "scope = JStr ''project_members''"
      "item obj ''activity_id'' = Inr slug" "text_value slug ''campaign.activity_id'' 80 = Inr s1" "activity_slug s1"
      "item obj ''version'' = Inr version" "(case version of JInt n \<Rightarrow> 1 \<le> n \<and> n \<le> 10000 | _ \<Rightarrow> False)"
      "item obj ''name'' = Inr name" "text_value name ''campaign.name'' 120 = Inr s2"
      "item obj ''description'' = Inr description" "text_value description ''campaign.description'' 2000 = Inr s3"
      "item obj ''consent_text'' = Inr consent" "text_value consent ''campaign.consent_text'' 2000 = Inr s4"
      "item obj ''allowed_upload_hosts'' = Inr hosts" "upload_hosts hosts"
    and soft: "(if flexible_template v then Inr () else software_identity obj) = Inr ()"
    unfolding check_template_def and_then_eq_Inr if_raise_eq_Inr by auto
  from fields have v: "v = JObj obj" by (simp add: object_fields_eq_Inr)
  obtain o' where o: "sort_keys v = JObj o'"
    "fst ` set o' = set (settings_fields @ (if flexible_template v then [] else software_fields))"
    and sorted: "\<And>key w. item obj key = Inr w \<Longrightarrow> item o' key = Inr (sort_keys w)"
    by (rule stored_items [OF fields]) (rule that)
  from o(1) obj' have same: "o' = obj'" by simp
  have plain: "sort_keys schema = schema" "sort_keys scope = scope" "sort_keys slug = slug" "sort_keys version = version"
    "sort_keys name = name" "sort_keys description = description" "sort_keys consent = consent"
    using in_strings_JStr [OF items(2)] items(4) text_value_plain [OF items(6)] text_value_plain [OF items(11)]
      text_value_plain [OF items(13)] text_value_plain [OF items(15)] items(9)
    by (simp_all add: plain_text_def) (cases version; simp)+
  from upload_hosts_plain [OF items(17)] obtain hs where hs: "hosts = JList hs" "list_all plain_text hs" by blast
  have "map sort_keys hs = hs" using hs(2) by (intro map_idI) (simp add: list_all_iff)
  with hs(1) have host_list: "sort_keys hosts = hosts" by simp
  note moved = sorted [OF items(1)] sorted [OF items(3)] sorted [OF items(5)] sorted [OF items(8)] sorted [OF items(10)]
    sorted [OF items(12)] sorted [OF items(14)] sorted [OF items(16)]
  note moved = moved [unfolded plain host_list same]
  have flexible: "flexible_template (JObj obj') = flexible_template v"
    using moved(1) items(1) by (simp add: v flexible_template_def item_eq_Inr)
  have fields': "object_fields (JObj obj') (settings_fields @ (if flexible_template v then [] else software_fields))
      ''campaign.template'' = Inr obj'"
    using o(2) same by (simp add: object_fields_eq_Inr)
  have soft': "(if flexible_template v then Inr () else software_identity obj') = Inr ()"
    using soft software_identity_sorted(1) [of obj obj'] sorted [unfolded same] by auto
  have scope_ok: "(False \<or> scope \<noteq> JStr ''project_members'') = False" using items(4) by simp
  show ?thesis
    unfolding check_template_def flexible
    by (simp only: fields' moved items(2,6,7,9,11,13,15,17) soft' scope_ok and_then_simps if_True if_False not_True_eq_False)
qed

lemma validate_template_canonical:
  assumes valid: "validate_template fr v = Inr t" and strict: "strict_json v"
  shows "JObj t = sort_keys v \<and> validate_template fr (JObj t) = Inr t"
proof -
  from valid obtain obj copy where check: "check_template v = Inr obj"
    and decoded: "decode_json fr (json_bytes (JObj obj)) = Inr copy" and t: "t = object_value copy"
    by (auto simp: validate_template_def and_then_eq_Inr)
  have v: "v = JObj obj" using check by (rule check_template_returned; simp)
  have bytes: "decode_json fr (json_bytes w) = Inr (sort_keys w)" if "printable fr w" "strict_json w" for w
    using decode_print_line [of fr "sort_keys w"] that by (simp add: json_bytes_def canonical_text_def)
  obtain obj' where obj': "sort_keys v = JObj obj'" by (rule stored_object [of obj]) (use v in auto)
  from bytes [OF check_template_printable [OF check strict] strict] decoded v have "copy = sort_keys v" by simp
  with obj' t have JObj: "JObj t = sort_keys v" by (simp add: object_value_def)
  with obj' have "t = obj'" by simp
  have "check_template (JObj t) = Inr t"
    using check_template_sorted [OF check obj'] \<open>t = obj'\<close> by simp
  moreover have "decode_json fr (json_bytes (JObj t)) = Inr (JObj t)"
    using bytes [of "JObj t"] check_template_printable [OF check strict] strict by (simp add: JObj)
  ultimately have "validate_template fr (JObj t) = Inr t" by (simp add: validate_template_def object_value_def)
  with JObj show ?thesis by blast
qed

end
