(* ===== verification/Principals.thy ===== *)
theory Principals
  imports HubSchema PyText
begin

text \<open>
  python/spireagent/hub/console\_auth.py: the principal a request acts as, the identity a
  verified Cloudflare Access token establishes, the bounded key cache of the verifier, and the
  one-time codec of the legacy allowlist. PyJWT and the key download are parameters. A key's
  type is \<open>'k\<close>. \<open>load\_legacy\_allowlist\<close> reads and decodes a file and is not modelled.
\<close>

section \<open>Principals\<close>

record principal =
  pr_role :: string
  pr_devices :: "string list"
  pr_subject :: string
  pr_email :: string
  pr_issuer :: string
  pr_access_subject :: string
  pr_expires_at :: real
  pr_session_binding :: string
  pr_enroll_devices :: bool
  pr_device_quota :: int
  pr_owned_devices :: "string list"
  pr_claim_devices :: "string list"
  pr_member_id :: string
  pr_membership_status :: string
  pr_data_device :: "string option"

text \<open>A principal with the defaults of the dataclass.\<close>

definition new_principal :: "string \<Rightarrow> string list \<Rightarrow> principal" where
  "new_principal role_name device_ids =
     \<lparr>pr_role = role_name, pr_devices = device_ids, pr_subject = ''device'', pr_email = [], pr_issuer = [],
      pr_access_subject = [], pr_expires_at = 0, pr_session_binding = [], pr_enroll_devices = False,
      pr_device_quota = 0, pr_owned_devices = [], pr_claim_devices = [], pr_member_id = [],
      pr_membership_status = [], pr_data_device = None\<rparr>"

definition project_shared :: "principal \<Rightarrow> bool" where
  "project_shared p \<longleftrightarrow> pr_role p \<in> {''member'', ''admin''}"

definition research :: "principal \<Rightarrow> bool" where
  "research p \<longleftrightarrow> pr_role p \<in> {''member'', ''admin''}"

definition json_texts :: "string list \<Rightarrow> json" where
  "json_texts ts = JList (map JStr ts)"

definition public_principal :: "principal \<Rightarrow> (string \<times> json) list" where
  "public_principal p =
     [(''role'', JStr (pr_role p)),
      (''device_ids'', json_texts (pr_devices p)),
      (''research_metadata'', JBool (research p)),
      (''project_shared'', JBool (project_shared p)),
      (''member_actions'', JBool (project_shared p)),
      (''admin_browser_actions'', JBool (pr_role p = ''admin'' \<and> pr_session_binding p \<noteq> [])),
      (''subject'', JStr (pr_subject p)),
      (''email'', JStr (pr_email p)),
      (''enroll_devices'', JBool (pr_enroll_devices p)),
      (''device_quota'', JInt (pr_device_quota p)),
      (''owned_device_ids'', json_texts (pr_owned_devices p)),
      (''member_id'', JStr (pr_member_id p)),
      (''membership_status'', JStr (pr_membership_status p))]"

section \<open>Verified identities\<close>

definition stable_subject :: "hash \<Rightarrow> string \<Rightarrow> string \<Rightarrow> string" where
  "stable_subject sha issuer subject = sha (dumps_texts [issuer, subject])"

definition verified_identity :: "hash \<Rightarrow> string \<Rightarrow> string \<Rightarrow> string \<Rightarrow> principal result" where
  "verified_identity sha issuer subject email =
     (if \<not> email_shape email \<or> 254 < length email then Inl (BoundaryError ''console'' ''unauthorized'')
      else Inr ((new_principal ''authenticated'' [])
        \<lparr>pr_subject := stable_subject sha issuer subject, pr_issuer := issuer,
         pr_access_subject := subject, pr_email := casefold email\<rparr>))"

section \<open>The access verifier\<close>

definition issuer_prefix :: string where "issuer_prefix = ''https://''"
definition issuer_suffix :: string where "issuer_suffix = ''.cloudflareaccess.com''"

text \<open>\<open>re.fullmatch(r"https://[a-z0-9-]+\.cloudflareaccess\.com", issuer)\<close>.\<close>

definition access_issuer :: "string \<Rightarrow> bool" where
  "access_issuer issuer \<longleftrightarrow>
     (let team = drop (length issuer_prefix) (take (length issuer - length issuer_suffix) issuer) in
      issuer = issuer_prefix @ team @ issuer_suffix \<and> team \<noteq> [] \<and>
      list_all (\<lambda>c. c \<in> set ''abcdefghijklmnopqrstuvwxyz0123456789-'') team)"

record 'k verifier =
  av_issuer :: string
  av_audience :: string
  av_keys :: "(string \<times> 'k) list"
  av_refresh_at :: real

definition new_verifier :: "string \<Rightarrow> string \<Rightarrow> 'k verifier result" where
  "new_verifier issuer audience =
     (if \<not> access_issuer issuer then Inl (BoundaryError ''console'' ''invalid_access_issuer'')
      else if \<not> (length audience = 64 \<and> lower_hex audience)
      then Inl (BoundaryError ''console'' ''invalid_access_audience'')
      else Inr \<lparr>av_issuer = issuer, av_audience = audience, av_keys = [], av_refresh_at = 0\<rparr>)"

text \<open>A key of a downloaded key set, as PyJWT presents it.\<close>

record 'k jwk =
  jk_id :: "string option"
  jk_type :: string
  jk_use :: "string option"
  jk_key :: 'k

text \<open>A dictionary comprehension: a later key replaces an earlier one of the same id.\<close>

definition usable_keys :: "'k jwk list \<Rightarrow> (string \<times> 'k) list" where
  "usable_keys ks = rev (map (\<lambda>j. (the (jk_id j), jk_key j))
     (filter (\<lambda>j. jk_id j \<noteq> None \<and> jk_type j = ''RSA'' \<and> jk_use j \<in> {None, Some ''sig''}) ks))"

text \<open>The claims of a decoded token; PyJWT requires them to be present.\<close>

record claims =
  cl_type :: json
  cl_email :: json
  cl_sub :: json
  cl_exp :: "real result"

text \<open>
  What \<open>authenticate\<close> takes from outside: the unverified header of a token, the key set a
  download answers with, and \<open>jwt.decode\<close> with its algorithms, issuer, audience and required
  claims.
\<close>

record 'k access_env =
  ae_header :: "string \<Rightarrow> (string \<times> json) list result"
  ae_fetch :: "'k jwk list result"
  ae_decode :: "string \<Rightarrow> 'k \<Rightarrow> string \<Rightarrow> string \<Rightarrow> claims result"

text \<open>The cache lookup under the lock: at most one download per minute, also when it fails.\<close>

definition refresh_keys :: "'k access_env \<Rightarrow> real \<Rightarrow> 'k verifier \<Rightarrow> 'k verifier \<times> unit result" where
  "refresh_keys E now V =
     (if av_refresh_at V \<le> now then
        (let V' = V\<lparr>av_refresh_at := now + 60, av_keys := []\<rparr> in
         case ae_fetch E of
           Inl e \<Rightarrow> (V', Inl e)
         | Inr ks \<Rightarrow> (V'\<lparr>av_keys := usable_keys ks\<rparr>, Inr ()))
      else (V, Inr ()))"

definition token_identity :: "hash \<Rightarrow> 'k access_env \<Rightarrow> string \<Rightarrow> string \<Rightarrow> 'k verifier \<Rightarrow> principal result" where
  "token_identity sha E token kid V =
     (case map_of (av_keys V) kid of
        None \<Rightarrow> Inl (ValueError ''unknown key'')
      | Some key \<Rightarrow>
          and_then (ae_decode E token key (av_issuer V) (av_audience V)) (\<lambda>c.
            case (cl_email c, cl_sub c) of
              (JStr email, JStr sub) \<Rightarrow>
                if cl_type c \<noteq> JStr ''app'' \<or> sub = [] \<or> 512 < length sub
                then Inl (ValueError ''invalid application token'')
                else
                  and_then (verified_identity sha (av_issuer V) sub email) (\<lambda>p.
                  and_then (cl_exp c) (\<lambda>expiry.
                    Inr (p\<lparr>pr_expires_at := expiry, pr_session_binding := sha token\<rparr>)))
            | _ \<Rightarrow> Inl (ValueError ''invalid application token'')))"

text \<open>Every failure, of whatever kind, is the same \<open>unauthorized\<close>.\<close>

definition access_authenticate ::
  "hash \<Rightarrow> 'k access_env \<Rightarrow> real \<Rightarrow> string \<Rightarrow> 'k verifier \<Rightarrow> 'k verifier \<times> principal result" where
  "access_authenticate sha E now token V =
     (let unauthorized = Inl (BoundaryError ''console'' ''unauthorized'');
          hide = (\<lambda>r. case r of Inl e \<Rightarrow> unauthorized | Inr p \<Rightarrow> Inr p)
      in if token = [] \<or> 16384 < length token then (V, unauthorized)
      else
        (case ae_header E token of
           Inl e \<Rightarrow> (V, unauthorized)
         | Inr header \<Rightarrow>
             (case (map_of header ''alg'', map_of header ''kid'') of
                (Some (JStr alg), Some (JStr kid)) \<Rightarrow>
                  if alg \<noteq> ''RS256'' then (V, unauthorized)
                  else
                    (case refresh_keys E now V of
                       (V', Inl e) \<Rightarrow> (V', unauthorized)
                     | (V', Inr _) \<Rightarrow> (V', hide (token_identity sha E token kid V')))
              | _ \<Rightarrow> (V, unauthorized))))"

text \<open>\<open>environment.get\<close> of the three variables.\<close>

definition configured_access :: "(string \<Rightarrow> string option) \<Rightarrow> 'k verifier option result" where
  "configured_access environment =
     (let get = (\<lambda>name. case environment name of None \<Rightarrow> [] | Some v \<Rightarrow> v);
          issuer = get ''STPD_ACCESS_ISSUER''; audience = get ''STPD_ACCESS_AUDIENCE''
      in if environment ''STPD_ACCESS_ALLOWLIST'' \<noteq> None
         then Inl (BoundaryError ''console'' ''legacy_allowlist_requires_explicit_membership_import'')
         else if issuer = [] \<and> audience = [] then Inr None
         else if issuer = [] \<or> audience = []
         then Inl (BoundaryError ''console'' ''access_configuration_incomplete'')
         else and_then (new_verifier issuer audience) (\<lambda>v. Inr (Some v)))"

section \<open>The legacy allowlist\<close>

record legacy =
  lg_email :: string
  lg_subject :: "string option"
  lg_devices :: "string list"
  lg_enroll :: "bool option"

definition legacy_device :: "json \<Rightarrow> string option" where
  "legacy_device v =
     (case v of JStr d \<Rightarrow> if d = [] \<or> 128 < length d \<or> d = ''*'' then None else Some d | _ \<Rightarrow> None)"

definition legacy_subject :: "json option \<Rightarrow> string option option" where
  "legacy_subject v =
     (case v of
        None \<Rightarrow> Some None
      | Some JNull \<Rightarrow> Some None
      | Some (JStr s) \<Rightarrow> if 1 \<le> length s \<and> length s \<le> 512 then Some (Some s) else None
      | _ \<Rightarrow> None)"

definition legacy_enroll :: "json option \<Rightarrow> bool option option" where
  "legacy_enroll v =
     (case v of None \<Rightarrow> Some None | Some (JBool b) \<Rightarrow> Some (Some b) | _ \<Rightarrow> None)"

text \<open>One entry; \<open>seen\<close> holds the folded addresses before it.\<close>

definition legacy_entry :: "string list \<Rightarrow> json \<Rightarrow> legacy option" where
  "legacy_entry seen entry =
     (case entry of
        JObj kvs \<Rightarrow>
          (case (map_of kvs ''email'', legacy_subject (map_of kvs ''subject''), map_of kvs ''role'',
                 map_of kvs ''devices'', legacy_enroll (map_of kvs ''enroll_devices'')) of
             (Some (JStr email), Some subject, Some (JStr role_name), Some (JList ds), Some enroll) \<Rightarrow>
               if fst ` set kvs \<subseteq> {''email'', ''subject'', ''role'', ''devices'', ''enroll_devices''} \<and>
                  email_shape email \<and> length email \<le> 254 \<and> casefold email \<notin> set seen \<and>
                  role_name \<in> {''collector'', ''reviewer'', ''operator''} \<and> length ds \<le> 128 \<and>
                  list_all (\<lambda>d. legacy_device d \<noteq> None) ds \<and>
                  distinct (map (\<lambda>d. the (legacy_device d)) ds)
               then Some \<lparr>lg_email = email, lg_subject = subject,
                          lg_devices = map (\<lambda>d. the (legacy_device d)) ds, lg_enroll = enroll\<rparr>
               else None
           | _ \<Rightarrow> None)
      | _ \<Rightarrow> None)"

fun legacy_entries :: "string list \<Rightarrow> json list \<Rightarrow> legacy list option" where
  "legacy_entries seen [] = Some []"
| "legacy_entries seen (entry # items) =
     (case legacy_entry seen entry of
        None \<Rightarrow> None
      | Some e \<Rightarrow> map_option ((#) e) (legacy_entries (casefold (lg_email e) # seen) items))"

definition validate_legacy_principals :: "json \<Rightarrow> legacy list result" where
  "validate_legacy_principals principals =
     (let invalid = Inl (BoundaryError ''console'' ''invalid_access_allowlist'') in
      case principals of
        JList items \<Rightarrow>
          if items = [] \<or> 50 < length items then invalid
          else (case legacy_entries [] items of None \<Rightarrow> invalid | Some es \<Rightarrow> Inr es)
      | _ \<Rightarrow> invalid)"

section \<open>What a verified identity is\<close>

lemma verified_identity_eq_Inr [returned]:
  "verified_identity sha issuer subject email = Inr p \<longleftrightarrow>
     email_shape email \<and> length email \<le> 254 \<and>
     p = (new_principal ''authenticated'' [])
        \<lparr>pr_subject := stable_subject sha issuer subject, pr_issuer := issuer,
         pr_access_subject := subject, pr_email := casefold email\<rparr>"
  by (auto simp: verified_identity_def)

lemma verified_identity_fields:
  "verified_identity sha issuer subject email = Inr p \<Longrightarrow>
   pr_role p = ''authenticated'' \<and> pr_devices p = [] \<and> pr_subject p = stable_subject sha issuer subject \<and>
   pr_issuer p = issuer \<and> pr_access_subject p = subject \<and> pr_email p = casefold email \<and>
   \<not> project_shared p \<and> pr_session_binding p = []"
  by (auto simp: verified_identity_eq_Inr new_principal_def project_shared_def)

text \<open>
  A token never authorizes by itself: what \<open>authenticate\<close> returns carries no role of the project,
  belongs to the configured issuer, and was decoded with a key of the cache.
\<close>

lemma access_authenticate_returned:
  assumes "access_authenticate sha E now token V = (V', Inr p)"
  shows "\<exists>kid key c. map_of (av_keys V') kid = Some key \<and>
      ae_decode E token key (av_issuer V) (av_audience V) = Inr c \<and> cl_type c = JStr ''app'' \<and>
      cl_sub c = JStr (pr_access_subject p) \<and> pr_role p = ''authenticated'' \<and> pr_issuer p = av_issuer V \<and>
      pr_subject p = stable_subject sha (av_issuer V) (pr_access_subject p) \<and> pr_session_binding p = sha token"
proof -
  from assms obtain kid W where refresh: "refresh_keys E now V = (V', W)"
    and id: "token_identity sha E token kid V' = Inr p"
    by (auto simp: access_authenticate_def Let_def split: if_splits sum.splits option.splits json.splits prod.splits)
  have same: "av_issuer V' = av_issuer V" "av_audience V' = av_audience V"
    using refresh by (auto simp: refresh_keys_def Let_def split: if_splits sum.splits)
  from id obtain key c where key: "map_of (av_keys V') kid = Some key"
    and c: "ae_decode E token key (av_issuer V') (av_audience V') = Inr c"
    and rest: "(case (cl_email c, cl_sub c) of
        (JStr email, JStr sub) \<Rightarrow>
          if cl_type c \<noteq> JStr ''app'' \<or> sub = [] \<or> 512 < length sub
          then Inl (ValueError ''invalid application token'')
          else
            and_then (verified_identity sha (av_issuer V') sub email) (\<lambda>p.
            and_then (cl_exp c) (\<lambda>expiry.
              Inr (p\<lparr>pr_expires_at := expiry, pr_session_binding := sha token\<rparr>)))
      | _ \<Rightarrow> Inl (ValueError ''invalid application token'')) = Inr p"
    unfolding token_identity_def and_then_eq_Inr option_raise_eq_Inr by blast
  from rest obtain email sub where texts: "cl_email c = JStr email" "cl_sub c = JStr sub"
    by (cases "cl_email c"; cases "cl_sub c") auto
  with rest obtain q expiry where app: "cl_type c = JStr ''app''"
    and q: "verified_identity sha (av_issuer V') sub email = Inr q"
    and p: "p = q\<lparr>pr_expires_at := expiry, pr_session_binding := sha token\<rparr>"
    by (auto simp: and_then_eq_Inr split: if_splits)
  from verified_identity_fields [OF q] key c texts app p same show ?thesis by auto
qed

text \<open>The download is bounded: between two downloads lies at least a minute.\<close>

lemma refresh_keys_bounded:
  "refresh_keys E now V = (V', r) \<Longrightarrow> now < av_refresh_at V \<Longrightarrow> V' = V \<and> r = Inr ()"
  "refresh_keys E now V = (V', r) \<Longrightarrow> av_refresh_at V \<le> now \<Longrightarrow> av_refresh_at V' = now + 60"
  by (auto simp: refresh_keys_def Let_def split: sum.splits if_splits)

end
