(* ===== verification/Authority.thy ===== *)
theory Authority
  imports Principals Devices
begin

text \<open>
  What the other services of the Hub may rely on when they ask whether a principal is a member
  (\<open>MemberAuthority\<close> of python/spireagent/hub/campaigns.py): \<open>authorize\<close> and \<open>admin\<close> read the
  database, change nothing, keep the principal's subject, and succeed only for an active member.
\<close>

locale member_authority =
  fixes authorize :: "principal \<Rightarrow> (ops, principal) tx"
    and admin :: "principal \<Rightarrow> (ops, principal) tx"
  assumes authorize_reads: "authorize p s = Inr (s', q) \<Longrightarrow> s' = s \<and> pr_subject q = pr_subject p"
    and authorize_active: "authorize p s = Inr (s', q) \<Longrightarrow> active_owner s (pr_subject p)"
    and admin_authorized: "admin p s = Inr (s', q) \<Longrightarrow> authorize p s = Inr (s', q) \<and> pr_role q = ''admin''"
begin

lemma admin_reads: "admin p s = Inr (s', q) \<Longrightarrow> s' = s \<and> pr_subject q = pr_subject p \<and> pr_role q = ''admin''"
  using admin_authorized [of p s s' q] authorize_reads [of p s s' q] by simp

lemma admin_active: "admin p s = Inr (s', q) \<Longrightarrow> active_owner s (pr_subject p)"
  using admin_authorized [of p s s' q] authorize_active [of p s s' q] by simp

lemma authorized_owner:
  "authorize p s = Inr (s', q) \<Longrightarrow> d \<in> set (devices s) \<Longrightarrow> d_active d \<Longrightarrow> d_owner d = Some (pr_subject p) \<Longrightarrow>
   device_authorized s (d_id d)"
  using authorize_active [of p s s' q] by (force simp: device_authorized_def list_ex_iff)

end

end
