(* ===== verification/Membership.thy ===== *)
theory Membership
  imports Authority
begin

text \<open>
  python/spireagent/hub/membership.py: the durable membership that alone grants project access.
  Every operation is one transaction of the operational database; \<open>clock\<close> is the time it reads,
  \<open>fresh\<close> the identities its \<open>secrets.token\_hex\<close> calls give, \<open>stamp\<close> the ISO text of an instant.
\<close>

section \<open>Requests\<close>

definition role_text :: "role \<Rightarrow> string" where
  "role_text r = (case r of Member \<Rightarrow> ''member'' | Admin \<Rightarrow> ''admin'')"

definition status_text :: "member_status \<Rightarrow> string" where
  "status_text st = (case st of Invited \<Rightarrow> ''invited'' | Active \<Rightarrow> ''active'' | Disabled \<Rightarrow> ''disabled'')"

definition member_email :: "json \<Rightarrow> string result" where
  "member_email value =
     (case value of
        JStr t \<Rightarrow>
          if 254 < length t \<or> \<not> email_shape t then Inl (BoundaryError ''membership'' ''invalid_member_email'')
          else Inr (casefold t)
      | _ \<Rightarrow> Inl (BoundaryError ''membership'' ''invalid_member_email''))"

text \<open>\<open>d[key] = v\<close> and \<open>d.setdefault(key, v)\<close>.\<close>

definition put_key :: "string \<Rightarrow> json \<Rightarrow> (string \<times> json) list \<Rightarrow> (string \<times> json) list" where
  "put_key key v kvs =
     (if key \<in> fst ` set kvs then map (\<lambda>(k, w). (k, if k = key then v else w)) kvs else kvs @ [(key, v)])"

definition set_default :: "string \<Rightarrow> json \<Rightarrow> (string \<times> json) list \<Rightarrow> (string \<times> json) list" where
  "set_default key v kvs = (if key \<in> fst ` set kvs then kvs else kvs @ [(key, v)])"

definition good_setting :: "string \<times> json \<Rightarrow> bool" where
  "good_setting kv =
     (let (key, v) = kv in
      (key = ''role'' \<longrightarrow> v \<in> {JStr ''member'', JStr ''admin''}) \<and>
      (key = ''status'' \<longrightarrow> v \<in> {JStr ''active'', JStr ''disabled''}) \<and>
      (key = ''enroll_devices'' \<longrightarrow> (case v of JBool b \<Rightarrow> True | _ \<Rightarrow> False)) \<and>
      (key = ''device_quota'' \<longrightarrow> (case v of JInt i \<Rightarrow> 0 \<le> i \<and> i \<le> 128 | _ \<Rightarrow> False)))"

definition member_settings :: "json \<Rightarrow> bool \<Rightarrow> (string \<times> json) list result" where
  "member_settings value invite =
     (let invalid = Inl (BoundaryError ''membership'' ''invalid_member_request'');
          allowed = [''role'', ''enroll_devices'', ''device_quota''] @ (if invite then [''email''] else [''status''])
      in case value of
        JObj kvs \<Rightarrow>
          if kvs = [] \<or> \<not> fst ` set kvs \<subseteq> set allowed then invalid
          else
            and_then
              (if invite then
                 and_then (member_email (case map_of kvs ''email'' of None \<Rightarrow> JNull | Some v \<Rightarrow> v)) (\<lambda>address.
                   Inr (set_default ''device_quota'' (JInt 3) (set_default ''enroll_devices'' (JBool True)
                     (set_default ''role'' (JStr ''member'') (put_key ''email'' (JStr address) kvs)))))
               else Inr kvs)
              (\<lambda>result. if \<not> list_all good_setting result then invalid else Inr result)
      | _ \<Rightarrow> invalid)"

text \<open>The typed columns of checked settings; \<open>None\<close> where the key is absent.\<close>

definition setting_role :: "(string \<times> json) list \<Rightarrow> role option" where
  "setting_role kvs =
     (case map_of kvs ''role'' of None \<Rightarrow> None | Some v \<Rightarrow> Some (if v = JStr ''admin'' then Admin else Member))"

definition setting_status :: "(string \<times> json) list \<Rightarrow> member_status option" where
  "setting_status kvs =
     (case map_of kvs ''status'' of None \<Rightarrow> None | Some v \<Rightarrow> Some (if v = JStr ''disabled'' then Disabled else Active))"

definition setting_enroll :: "(string \<times> json) list \<Rightarrow> bool option" where
  "setting_enroll kvs = (case map_of kvs ''enroll_devices'' of Some (JBool b) \<Rightarrow> Some b | _ \<Rightarrow> None)"

definition setting_quota :: "(string \<times> json) list \<Rightarrow> int option" where
  "setting_quota kvs = (case map_of kvs ''device_quota'' of Some (JInt i) \<Rightarrow> Some i | _ \<Rightarrow> None)"

definition setting_email :: "(string \<times> json) list \<Rightarrow> string" where
  "setting_email kvs = (case map_of kvs ''email'' of Some (JStr t) \<Rightarrow> t | _ \<Rightarrow> [])"

section \<open>Rows\<close>

definition initialized :: "ops \<Rightarrow> bool" where
  "initialized s \<longleftrightarrow> settings s ''membership_initialized'' = Some ''1''"

definition member_row :: "ops \<Rightarrow> string \<Rightarrow> member option" where
  "member_row s i = find (\<lambda>m. m_id m = i) (members s)"

definition get_member :: "ops \<Rightarrow> string \<Rightarrow> member result" where
  "get_member s i =
     (case member_row s i of
        None \<Rightarrow> Inl (BoundaryError ''membership'' ''member_not_found'')
      | Some m \<Rightarrow> Inr m)"

text \<open>INSERT INTO identity\_members: id, email and subject are UNIQUE.\<close>

definition insert_member_row :: "member \<Rightarrow> ops \<Rightarrow> ops result" where
  "insert_member_row m s =
     (if list_ex (\<lambda>n. m_id n = m_id m \<or> m_email n = m_email m \<or> (m_subject m \<noteq> None \<and> m_subject n = m_subject m)) (members s)
      then Inl IntegrityError
      else Inr (s\<lparr>members := members s @ [m]\<rparr>))"

definition insert_member ::
  "string \<Rightarrow> real \<Rightarrow> string \<Rightarrow> role \<Rightarrow> bool \<Rightarrow> int \<Rightarrow> string \<Rightarrow> user option \<Rightarrow> string option \<Rightarrow> ops \<Rightarrow> ops result" where
  "insert_member i clock email r enroll quota issuer profile access_subject s =
     insert_member_row
       \<lparr>m_id = i, m_email = email, m_issuer = issuer,
        m_access_subject = (case profile of None \<Rightarrow> access_subject | Some u \<Rightarrow> Some (us_access_subject u)),
        m_subject = map_option us_subject profile, m_role = r,
        m_status = (if profile = None then Invited else Active), m_enroll_devices = enroll,
        m_device_quota = quota, m_created_at = clock, m_updated_at = clock\<rparr> s"

section \<open>Bootstrap\<close>

text \<open>The entries by folded address, a later one replacing an earlier; the administrator is added last.\<close>

definition bootstrap_entries :: "string \<Rightarrow> legacy list \<Rightarrow> (string \<times> legacy) list" where
  "bootstrap_entries administrator legacies =
     (let by_email = map (\<lambda>l. (casefold (lg_email l), l)) legacies in
      if administrator \<in> fst ` set by_email then by_email
      else by_email @ [(administrator, \<lparr>lg_email = administrator, lg_subject = None, lg_devices = [], lg_enroll = None\<rparr>)])"

fun insert_scopes :: "string \<Rightarrow> string list \<Rightarrow> ops \<Rightarrow> ops result" where
  "insert_scopes i [] s = Inr s"
| "insert_scopes i (device # rest) s =
     (if (i, device) \<in> set (claim_scopes s) then Inl IntegrityError
      else insert_scopes i rest (s\<lparr>claim_scopes := claim_scopes s @ [(i, device)]\<rparr>))"

definition legacy_profile :: "hash \<Rightarrow> string \<Rightarrow> string \<Rightarrow> legacy \<Rightarrow> ops \<Rightarrow> user option result" where
  "legacy_profile sha issuer email l s =
     (let rows = filter (\<lambda>u. us_issuer u = issuer \<and> sql_lower (us_email u) = email) (users s) in
      if 1 < length rows \<or>
         (rows \<noteq> [] \<and> lg_subject l \<noteq> None \<and> lg_subject l \<noteq> Some [] \<and> Some (us_access_subject (hd rows)) \<noteq> lg_subject l)
      then Inl (BoundaryError ''membership'' ''legacy_identity_ambiguous'')
      else
        (case rows of
           [] \<Rightarrow> Inr None
         | u # _ \<Rightarrow>
             and_then (verified_identity sha issuer (us_access_subject u) email) (\<lambda>p.
               if pr_subject p \<noteq> us_subject u
               then Inl (BoundaryError ''membership'' ''legacy_identity_inconsistent'')
               else Inr (Some u))))"

text \<open>One entry becomes one member; the second result is the invited administrator's id.\<close>

fun bootstrap_members ::
  "hash \<Rightarrow> real \<Rightarrow> (nat \<Rightarrow> string) \<Rightarrow> string \<Rightarrow> string \<Rightarrow> (string \<times> legacy) list \<Rightarrow> nat \<Rightarrow> string option \<Rightarrow>
   ops \<Rightarrow> (ops \<times> string option) result" where
  "bootstrap_members sha clock fresh issuer administrator [] n pending s = Inr (s, pending)"
| "bootstrap_members sha clock fresh issuer administrator ((email, l) # rest) n pending s =
     and_then (legacy_profile sha issuer email l s) (\<lambda>profile.
     and_then (insert_member (fresh n) clock email (if email = administrator then Admin else Member)
         (case lg_enroll l of None \<Rightarrow> True | Some b \<Rightarrow> b) 3 issuer profile (lg_subject l) s) (\<lambda>s1.
     and_then (insert_scopes (fresh n) (lg_devices l) s1) (\<lambda>s2.
       bootstrap_members sha clock fresh issuer administrator rest (Suc n)
         (if email = administrator \<and> profile = None then Some (fresh n) else pending) s2)))"

text \<open>INSERT INTO settings: the key is the primary key.\<close>

definition insert_setting :: "string \<Rightarrow> string \<Rightarrow> ops \<Rightarrow> ops result" where
  "insert_setting key v s =
     (if settings s key \<noteq> None then Inl IntegrityError else Inr (s\<lparr>settings := (settings s)(key \<mapsto> v)\<rparr>))"

definition bootstrap ::
  "hash \<Rightarrow> real \<Rightarrow> (nat \<Rightarrow> string) \<Rightarrow> string \<Rightarrow> json \<Rightarrow> json \<Rightarrow> (ops, nat) tx" where
  "bootstrap sha clock fresh issuer admin_email legacy_principals s =
     (if \<not> access_issuer issuer then Inl (BoundaryError ''membership'' ''invalid_access_issuer'')
      else
        and_then (member_email admin_email) (\<lambda>administrator.
        and_then (if legacy_principals \<in> {JNull, JList []} then Inr [] else validate_legacy_principals legacy_principals) (\<lambda>legacies.
        let entries = bootstrap_entries administrator legacies;
            fresh_database = (users s = [] \<and> devices s = [] \<and> sessions s = [])
        in
          if initialized s \<or> members s \<noteq> []
          then Inl (BoundaryError ''membership'' ''membership_already_initialized'')
          else
            and_then (bootstrap_members sha clock fresh issuer administrator entries 0 None s) (\<lambda>(s1, pending).
            and_then (insert_setting ''membership_initialized'' ''1'' s1) (\<lambda>s2.
            and_then
              (case pending of
                 Some i \<Rightarrow>
                   if fresh_database \<and> i \<noteq> [] \<and> length entries = 1
                   then insert_setting ''membership_bootstrap_pending_admin'' i s2 else Inr s2
               | None \<Rightarrow> Inr s2) (\<lambda>s3.
              Inr (record_event clock ''operator'' ''membership_bootstrapped'' ''project''
                     (JObj [(''members'', JInt (int (length entries)))]) s3, length entries)))))))"

section \<open>Authorization\<close>

text \<open>The upsert of identity\_users: subject is the key, (issuer, access\_subject) is UNIQUE too.\<close>

definition upsert_user :: "principal \<Rightarrow> ops \<Rightarrow> ops result" where
  "upsert_user p s =
     (if list_ex (\<lambda>u. us_subject u = pr_subject p) (users s)
      then Inr (s\<lparr>users := update_where (\<lambda>u. us_subject u = pr_subject p) (\<lambda>u. u\<lparr>us_email := pr_email p\<rparr>) (users s)\<rparr>)
      else if list_ex (\<lambda>u. us_issuer u = pr_issuer p \<and> us_access_subject u = pr_access_subject p) (users s)
      then Inl IntegrityError
      else Inr (s\<lparr>users := users s @
             [\<lparr>us_subject = pr_subject p, us_issuer = pr_issuer p, us_access_subject = pr_access_subject p,
               us_email = pr_email p\<rparr>]\<rparr>))"

definition activated :: "real \<Rightarrow> principal \<Rightarrow> member \<Rightarrow> member" where
  "activated clock p m =
     m\<lparr>m_subject := Some (pr_subject p), m_access_subject := Some (pr_access_subject p),
       m_status := Active, m_updated_at := clock\<rparr>"

definition member_of :: "ops \<Rightarrow> string \<Rightarrow> member option" where
  "member_of s subject = find (\<lambda>m. m_subject m = Some subject) (members s)"

text \<open>
  The invitation that a first sign-in with the invited address takes up. No member has the
  subject yet, so its UNIQUE constraint cannot fail.
\<close>

definition take_invitation :: "real \<Rightarrow> principal \<Rightarrow> ops \<Rightarrow> (ops \<times> member option) result" where
  "take_invitation clock p s =
     and_then (member_email (JStr (pr_email p))) (\<lambda>address.
       case find (\<lambda>m. m_email m = address \<and> m_issuer m = pr_issuer p \<and> m_subject m = None \<and> m_status m = Invited)
              (members s) of
         None \<Rightarrow> Inr (s, None)
       | Some m \<Rightarrow>
           if m_access_subject m \<notin> {None, Some (pr_access_subject p)} then Inr (s, None)
           else
             and_then (upsert_user p s) (\<lambda>s1.
             let s2 = record_event clock (pr_subject p) ''membership_activated'' (m_id m) (JObj [])
                   (s1\<lparr>members := update_where (\<lambda>n. m_id n = m_id m) (activated clock p) (members s1)\<rparr>);
                 s3 = (if settings s2 ''membership_bootstrap_pending_admin'' = Some (m_id m)
                       then s2\<lparr>settings := (settings s2)(''membership_bootstrap_pending_admin'' := None)\<rparr> else s2)
             in and_then (get_member s3 (m_id m)) (\<lambda>row. Inr (s3, Some row))))"

definition owned_ids :: "ops \<Rightarrow> string \<Rightarrow> string list" where
  "owned_ids s subject = sort (map d_id (filter (\<lambda>d. d_owner d = Some subject) (devices s)))"

definition claimed_ids :: "ops \<Rightarrow> string \<Rightarrow> string list" where
  "claimed_ids s i = sort (map snd (filter (\<lambda>c. fst c = i) (claim_scopes s)))"

definition member_principal :: "ops \<Rightarrow> principal \<Rightarrow> member \<Rightarrow> principal" where
  "member_principal s p m =
     (let owned = owned_ids s (pr_subject p); claims = claimed_ids s (m_id m) in
      p\<lparr>pr_role := role_text (m_role m), pr_member_id := m_id m, pr_membership_status := status_text (m_status m),
        pr_devices := sort (remdups (owned @ claims)), pr_owned_devices := owned, pr_claim_devices := claims,
        pr_enroll_devices := m_enroll_devices m, pr_device_quota := m_device_quota m\<rparr>)"

definition authorize :: "real \<Rightarrow> bool \<Rightarrow> principal \<Rightarrow> (ops, principal) tx" where
  "authorize clock activate p s =
     (if \<not> initialized s then Inl (BoundaryError ''membership'' ''membership_not_initialized'')
      else
        and_then
          (case member_of s (pr_subject p) of
             Some m \<Rightarrow> Inr (s, Some m)
           | None \<Rightarrow> if activate then take_invitation clock p s else Inr (s, None))
          (\<lambda>(s', row).
            case row of
              None \<Rightarrow> Inl (BoundaryError ''membership'' ''membership_not_authorized'')
            | Some m \<Rightarrow>
                if m_status m \<noteq> Active \<or> m_issuer m \<noteq> pr_issuer p \<or>
                   m_access_subject m \<noteq> Some (pr_access_subject p) \<or> m_subject m \<noteq> Some (pr_subject p)
                then Inl (BoundaryError ''membership'' ''membership_not_authorized'')
                else Inr (s', member_principal s' p m)))"

definition admin :: "real \<Rightarrow> principal \<Rightarrow> (ops, principal) tx" where
  "admin clock p s =
     and_then (authorize clock False p s) (\<lambda>(s', current).
       if pr_role current \<noteq> ''admin'' \<or> pr_session_binding current = [] \<or> pr_expires_at current \<le> clock
       then Inl (BoundaryError ''membership'' ''admin_browser_required'')
       else Inr (s', current))"

section \<open>Views\<close>

definition json_opt :: "string option \<Rightarrow> json" where
  "json_opt x = (case x of None \<Rightarrow> JNull | Some t \<Rightarrow> JStr t)"

definition public_member :: "(real \<Rightarrow> string) \<Rightarrow> ops \<Rightarrow> member \<Rightarrow> (string \<times> json) list" where
  "public_member stamp s m =
     (let owned = filter (\<lambda>d. m_subject m \<noteq> None \<and> d_owner d = m_subject m) (devices s) in
      [(''member_id'', JStr (m_id m)),
       (''email'', JStr (m_email m)),
       (''role'', JStr (role_text (m_role m))),
       (''status'', JStr (status_text (m_status m))),
       (''subject'', json_opt (m_subject m)),
       (''enroll_devices'', JBool (m_enroll_devices m)),
       (''device_quota'', JInt (m_device_quota m)),
       (''owned_device_count'', JInt (int (length owned))),
       (''active_device_count'', JInt (int (length (filter d_active owned)))),
       (''created_at'', JStr (stamp (m_created_at m))),
       (''updated_at'', JStr (stamp (m_updated_at m)))])"

definition in_range :: "json \<Rightarrow> int \<Rightarrow> int \<Rightarrow> int option" where
  "in_range v low high = (case v of JInt i \<Rightarrow> if low \<le> i \<and> i \<le> high then Some i else None | _ \<Rightarrow> None)"

definition list_members ::
  "(real \<Rightarrow> string) \<Rightarrow> real \<Rightarrow> principal \<Rightarrow> json \<Rightarrow> json \<Rightarrow> (ops, (string \<times> json) list) tx" where
  "list_members stamp clock p limit offset s =
     (case (in_range limit 1 100, in_range offset 0 100000) of
        (Some n, Some k) \<Rightarrow>
          and_then (admin clock p s) (\<lambda>(s', _).
            let rows = take (nat n) (drop (nat k) (sort_key m_created_at (sort_key m_id (members s'))))
            in Inr (s',
              [(''items'', JList (map (\<lambda>m. JObj (public_member stamp s' m)) rows)),
               (''total'', JInt (int (length (members s')))),
               (''limit'', JInt n), (''offset'', JInt k), (''observed_at'', JStr (stamp clock))]))
      | _ \<Rightarrow> Inl (BoundaryError ''membership'' ''invalid_member_pagination''))"

section \<open>Changes\<close>

definition invite ::
  "(real \<Rightarrow> string) \<Rightarrow> real \<Rightarrow> string \<Rightarrow> principal \<Rightarrow> json \<Rightarrow> (ops, (string \<times> json) list) tx" where
  "invite stamp clock fresh p raw s =
     and_then (member_settings raw True) (\<lambda>value.
     and_then (admin clock p s) (\<lambda>(s0, current).
       if list_ex (\<lambda>m. m_email m = setting_email value) (members s0)
       then Inl (BoundaryError ''membership'' ''member_already_exists'')
       else if 1000 \<le> length (members s0) then Inl (BoundaryError ''membership'' ''member_capacity'')
       else
         and_then (insert_member fresh clock (setting_email value) (the (setting_role value))
             (the (setting_enroll value)) (the (setting_quota value)) (pr_issuer current) None None s0) (\<lambda>s1.
         let s2 = record_event clock (pr_subject current) ''member_invited'' fresh
               (JObj [(''role'', JStr (role_text (the (setting_role value))))]) s1
         in and_then (get_member s2 fresh) (\<lambda>row. Inr (s2, public_member stamp s2 row)))))"

text \<open>All sessions of the subject end and its approved but unused connections are denied.\<close>

definition clear_sessions :: "string \<Rightarrow> ops \<Rightarrow> ops" where
  "clear_sessions subject s =
     s\<lparr>sessions := filter (\<lambda>r. s_subject r \<noteq> subject) (sessions s),
       flows := update_where (\<lambda>f. f_subject f = Some subject \<and> f_status f = FlowApproved)
         (\<lambda>f. f\<lparr>f_status := FlowDenied\<rparr>) (flows s)\<rparr>"

definition new_status :: "member \<Rightarrow> (string \<times> json) list \<Rightarrow> member_status" where
  "new_status m changes =
     (let status = (case setting_status changes of None \<Rightarrow> m_status m | Some st \<Rightarrow> st)
      in if status = Active \<and> m_subject m = None then Invited else status)"

definition new_role :: "member \<Rightarrow> (string \<times> json) list \<Rightarrow> role" where
  "new_role m changes = (case setting_role changes of None \<Rightarrow> m_role m | Some r \<Rightarrow> r)"

definition active_admin :: "member \<Rightarrow> bool" where
  "active_admin m \<longleftrightarrow> m_role m = Admin \<and> m_status m = Active"

definition changed_member :: "real \<Rightarrow> role \<Rightarrow> member_status \<Rightarrow> (string \<times> json) list \<Rightarrow> member \<Rightarrow> member" where
  "changed_member clock r status changes m =
     m\<lparr>m_role := r, m_status := status,
       m_enroll_devices := (case setting_enroll changes of None \<Rightarrow> m_enroll_devices m | Some b \<Rightarrow> b),
       m_device_quota := (case setting_quota changes of None \<Rightarrow> m_device_quota m | Some q \<Rightarrow> q),
       m_updated_at := clock\<rparr>"

definition disable_devices :: "string \<Rightarrow> ops \<Rightarrow> ops" where
  "disable_devices subject s =
     s\<lparr>devices := update_where (\<lambda>d. d_owner d = Some subject) (\<lambda>d. d\<lparr>d_active := False\<rparr>) (devices s)\<rparr>"

definition update_member ::
  "(real \<Rightarrow> string) \<Rightarrow> real \<Rightarrow> principal \<Rightarrow> string \<Rightarrow> json \<Rightarrow> (ops, (string \<times> json) list) tx" where
  "update_member stamp clock p i raw s =
     and_then (member_settings raw False) (\<lambda>changes.
     and_then (admin clock p s) (\<lambda>(s0, current).
     and_then (get_member s0 i) (\<lambda>m.
       let r = new_role m changes; status = new_status m changes;
           removing_admin = (active_admin m \<and> (r \<noteq> Admin \<or> status \<noteq> Active))
       in
         if removing_admin \<and> length (filter active_admin (members s0)) \<le> 1
         then Inl (BoundaryError ''membership'' ''last_admin_required'')
         else
           let s1 = s0\<lparr>members := update_where (\<lambda>n. m_id n = i) (changed_member clock r status changes) (members s0)\<rparr>;
               s2 = (case m_subject m of
                       Some subject \<Rightarrow>
                         if status = Disabled \<and> subject \<noteq> [] then disable_devices subject (clear_sessions subject s1) else s1
                     | None \<Rightarrow> s1);
               s3 = record_event clock (pr_subject current) ''member_updated'' i
                 (JObj [(''fields'', json_texts (sort (map fst changes))), (''role'', JStr (role_text r)),
                        (''status'', JStr (status_text status))]) s2
           in and_then (get_member s3 i) (\<lambda>row. Inr (s3, public_member stamp s3 row)))))"

definition revoke_sessions :: "real \<Rightarrow> principal \<Rightarrow> string \<Rightarrow> (ops, unit) tx" where
  "revoke_sessions clock p i s =
     and_then (admin clock p s) (\<lambda>(s0, current).
     and_then (get_member s0 i) (\<lambda>m.
       let s1 = (case m_subject m of
                   Some subject \<Rightarrow> if subject \<noteq> [] then clear_sessions subject s0 else s0
                 | None \<Rightarrow> s0)
       in Inr (record_event clock (pr_subject current) ''member_sessions_revoked'' i (JObj []) s1, ())))"

definition revoke_device :: "real \<Rightarrow> principal \<Rightarrow> string \<Rightarrow> (ops, unit) tx" where
  "revoke_device clock p device s =
     and_then (authorize clock False p s) (\<lambda>(s0, current).
       if pr_session_binding current = [] \<or> pr_expires_at current \<le> clock
       then Inl (BoundaryError ''membership'' ''browser_identity_required'')
       else
         (case device_row s0 device of
            None \<Rightarrow> Inl (BoundaryError ''membership'' ''identity_device_not_authorized'')
          | Some row \<Rightarrow>
              if pr_role current \<noteq> ''admin'' \<and> d_owner row \<noteq> Some (pr_subject current)
              then Inl (BoundaryError ''membership'' ''identity_device_not_authorized'')
              else Inr (record_event clock (pr_subject current) ''device_revoked'' device (JObj [])
                (s0\<lparr>devices := update_where (\<lambda>d. d_id d = device) (\<lambda>d. d\<lparr>d_active := False\<rparr>) (devices s0)\<rparr>), ())))"

section \<open>Authorization rests on an active membership\<close>

lemma member_of_Some: "member_of s subject = Some m \<Longrightarrow> m \<in> set (members s) \<and> m_subject m = Some subject"
  by (auto simp: member_of_def find_Some_iff)

lemma get_member_eq_Inr [returned]: "get_member s i = Inr m \<longleftrightarrow> member_row s i = Some m"
  by (auto simp: get_member_def split: option.splits)

lemma member_row_Some: "member_row s i = Some m \<Longrightarrow> m \<in> set (members s) \<and> m_id m = i"
  by (auto simp: member_row_def find_Some_iff)

lemma upsert_user_members: "upsert_user p s = Inr s' \<Longrightarrow>
    members s' = members s \<and> settings s' = settings s \<and> devices s' = devices s \<and> sessions s' = sessions s \<and>
    flows s' = flows s \<and> claim_scopes s' = claim_scopes s"
  by (auto simp: upsert_user_def split: if_splits)

text \<open>What taking up an invitation does to the tables that other operations read.\<close>

lemma take_invitation_returned:
  assumes "take_invitation clock p s = Inr (s', Some m)"
  shows "\<exists>n. n \<in> set (members s) \<and> m_status n = Invited \<and> m_subject n = None \<and>
      m_issuer n = pr_issuer p \<and> m_access_subject n \<in> {None, Some (pr_access_subject p)} \<and>
      members s' = update_where (\<lambda>k. m_id k = m_id n) (activated clock p) (members s) \<and>
      devices s' = devices s \<and> sessions s' = sessions s \<and> flows s' = flows s \<and>
      member_row s' (m_id n) = Some m \<and> (initialized s \<longrightarrow> initialized s')"
proof -
  from assms obtain address where address: "member_email (JStr (pr_email p)) = Inr address"
    and rest: "(case find (\<lambda>m. m_email m = address \<and> m_issuer m = pr_issuer p \<and> m_subject m = None \<and> m_status m = Invited)
              (members s) of
         None \<Rightarrow> Inr (s, None)
       | Some m \<Rightarrow>
           if m_access_subject m \<notin> {None, Some (pr_access_subject p)} then Inr (s, None)
           else
             and_then (upsert_user p s) (\<lambda>s1.
             let s2 = record_event clock (pr_subject p) ''membership_activated'' (m_id m) (JObj [])
                   (s1\<lparr>members := update_where (\<lambda>n. m_id n = m_id m) (activated clock p) (members s1)\<rparr>);
                 s3 = (if settings s2 ''membership_bootstrap_pending_admin'' = Some (m_id m)
                       then s2\<lparr>settings := (settings s2)(''membership_bootstrap_pending_admin'' := None)\<rparr> else s2)
             in and_then (get_member s3 (m_id m)) (\<lambda>row. Inr (s3, Some row)))) = Inr (s', Some m)"
    unfolding take_invitation_def and_then_eq_Inr by blast
  from rest obtain n where n: "find (\<lambda>m. m_email m = address \<and> m_issuer m = pr_issuer p \<and> m_subject m = None \<and>
      m_status m = Invited) (members s) = Some n"
    by (cases "find (\<lambda>m. m_email m = address \<and> m_issuer m = pr_issuer p \<and> m_subject m = None \<and>
      m_status m = Invited) (members s)") auto
  with rest obtain s1 where access: "m_access_subject n \<in> {None, Some (pr_access_subject p)}"
    and up: "upsert_user p s = Inr s1"
    by (auto simp: and_then_eq_Inr split: if_splits)
  note tables = upsert_user_members [OF up]
  from n have "n \<in> set (members s) \<and> m_status n = Invited \<and> m_subject n = None \<and> m_issuer n = pr_issuer p"
    by (auto simp: find_Some_iff)
  moreover have "members s' = update_where (\<lambda>k. m_id k = m_id n) (activated clock p) (members s) \<and>
      devices s' = devices s \<and> sessions s' = sessions s \<and> flows s' = flows s \<and>
      member_row s' (m_id n) = Some m \<and> (initialized s \<longrightarrow> initialized s')"
    using rest n access up tables
    by (auto simp: Let_def and_then_eq_Inr get_member_eq_Inr initialized_def split: if_splits)
  ultimately show ?thesis using access by blast
qed

lemma authorize_returned:
  assumes "authorize clock activate p s = Inr (s', q)"
  obtains m where "initialized s" "m \<in> set (members s')" "m_subject m = Some (pr_subject p)" "m_status m = Active"
    "m_issuer m = pr_issuer p" "m_access_subject m = Some (pr_access_subject p)" "q = member_principal s' p m"
    "s' = s \<and> member_of s (pr_subject p) = Some m \<or>
     activate \<and> member_of s (pr_subject p) = None \<and> take_invitation clock p s = Inr (s', Some m)"
proof -
  from assms obtain row where init: "initialized s"
    and row: "(case member_of s (pr_subject p) of
             Some m \<Rightarrow> Inr (s, Some m)
           | None \<Rightarrow> if activate then take_invitation clock p s else Inr (s, None)) = (Inr (s', row) :: (ops \<times> member option) result)"
    and check: "(case row of
              None \<Rightarrow> Inl (BoundaryError ''membership'' ''membership_not_authorized'')
            | Some m \<Rightarrow>
                if m_status m \<noteq> Active \<or> m_issuer m \<noteq> pr_issuer p \<or>
                   m_access_subject m \<noteq> Some (pr_access_subject p) \<or> m_subject m \<noteq> Some (pr_subject p)
                then Inl (BoundaryError ''membership'' ''membership_not_authorized'')
                else Inr (s', member_principal s' p m)) = Inr (s', q)"
    unfolding authorize_def if_raise_eq_Inr and_then_eq_Inr by (auto split: option.splits if_splits)
  from check obtain m where m: "row = Some m" "m_status m = Active" "m_issuer m = pr_issuer p"
      "m_access_subject m = Some (pr_access_subject p)" "m_subject m = Some (pr_subject p)" "q = member_principal s' p m"
    by (cases row) (auto split: if_splits)
  show thesis
  proof (cases "member_of s (pr_subject p)")
    case (Some n)
    with row m have "s' = s \<and> member_of s (pr_subject p) = Some m" by simp
    with member_of_Some [of s "pr_subject p" m] init m show thesis by (intro that [of m]) auto
  next
    case None
    with row m have act: "activate" and take: "take_invitation clock p s = Inr (s', Some m)"
      by (auto split: if_splits)
    from take_invitation_returned [OF take] member_row_Some have "m \<in> set (members s')" by blast
    with None act take init m show thesis by (intro that [of m]) auto
  qed
qed

lemma member_principal_fields [simp]:
  "pr_subject (member_principal s p m) = pr_subject p"
  "pr_role (member_principal s p m) = role_text (m_role m)"
  "pr_session_binding (member_principal s p m) = pr_session_binding p"
  "pr_expires_at (member_principal s p m) = pr_expires_at p"
  "pr_member_id (member_principal s p m) = m_id m"
  "pr_owned_devices (member_principal s p m) = owned_ids s (pr_subject p)"
  "pr_claim_devices (member_principal s p m) = claimed_ids s (m_id m)"
  "pr_device_quota (member_principal s p m) = m_device_quota m"
  "pr_enroll_devices (member_principal s p m) = m_enroll_devices m"
  by (simp_all add: member_principal_def Let_def)

lemma authorize_reading: "authorize clock False p s = Inr (s', q) \<Longrightarrow> s' = s \<and> pr_subject q = pr_subject p"
  by (erule authorize_returned) auto

lemma authorize_owner: "authorize clock False p s = Inr (s', q) \<Longrightarrow> active_owner s (pr_subject p)"
  by (erule authorize_returned) (auto simp: active_owner_def list_ex_iff)

lemma admin_eq_Inr [returned]:
  "admin clock p s = Inr (s', q) \<longleftrightarrow>
     authorize clock False p s = Inr (s', q) \<and> pr_role q = ''admin'' \<and> pr_session_binding q \<noteq> [] \<and> clock < pr_expires_at q"
  by (auto simp: admin_def and_then_eq_Inr not_le split: if_splits)

interpretation hub_members: member_authority "authorize clock False" "admin clock" for clock
proof unfold_locales
  fix p s s' q
  assume "authorize clock False p s = Inr (s', q)"
  then show "s' = s \<and> pr_subject q = pr_subject p" "active_owner s (pr_subject p)"
    by (rule authorize_reading authorize_owner)+
next
  fix p s s' q
  assume "admin clock p s = Inr (s', q)"
  then show "authorize clock False p s = Inr (s', q) \<and> pr_role q = ''admin''"
    by (simp add: admin_eq_Inr)
qed

section \<open>The membership invariant\<close>

definition state_ok :: "member \<Rightarrow> bool" where
  "state_ok m \<longleftrightarrow> (m_status m = Active \<longrightarrow> m_subject m \<noteq> None) \<and> (m_status m = Invited \<longrightarrow> m_subject m = None)"

definition subjects_unique :: "member set \<Rightarrow> bool" where
  "subjects_unique S \<longleftrightarrow>
     (\<forall>m \<in> S. \<forall>n \<in> S. m_subject m \<noteq> None \<longrightarrow> m_subject m = m_subject n \<longrightarrow> m_id m = m_id n)"

definition members_ok :: "ops \<Rightarrow> bool" where
  "members_ok s \<longleftrightarrow> distinct (map m_id (members s)) \<and> distinct (map m_email (members s)) \<and>
     subjects_unique (set (members s)) \<and> (\<forall>m \<in> set (members s). state_ok m)"

lemma subjects_unique_insert:
  "subjects_unique S \<Longrightarrow> (\<And>n. n \<in> S \<Longrightarrow> m_subject x \<noteq> None \<Longrightarrow> m_subject x = m_subject n \<Longrightarrow> m_id x = m_id n) \<Longrightarrow>
   subjects_unique (insert x S)"
  unfolding subjects_unique_def by (metis insert_iff)

lemma subjects_unique_subset: "subjects_unique S \<Longrightarrow> T \<subseteq> S \<Longrightarrow> subjects_unique T"
  unfolding subjects_unique_def by blast

lemma insert_member_row_eq_Inr [returned]:
  "insert_member_row m s = Inr s' \<longleftrightarrow>
     (\<forall>n \<in> set (members s). m_id n \<noteq> m_id m \<and> m_email n \<noteq> m_email m \<and> (m_subject m \<noteq> None \<longrightarrow> m_subject n \<noteq> m_subject m)) \<and>
     s' = s\<lparr>members := members s @ [m]\<rparr>"
  by (auto simp: insert_member_row_def list_ex_iff)

lemma insert_member_ok:
  assumes "insert_member i clock email r enroll quota issuer profile access s = Inr s'" and "members_ok s"
  shows "members_ok s'"
proof -
  let ?m = "\<lparr>m_id = i, m_email = email, m_issuer = issuer,
        m_access_subject = (case profile of None \<Rightarrow> access | Some u \<Rightarrow> Some (us_access_subject u)),
        m_subject = map_option us_subject profile, m_role = r,
        m_status = (if profile = None then Invited else Active), m_enroll_devices = enroll,
        m_device_quota = quota, m_created_at = clock, m_updated_at = clock\<rparr>"
  from assms(1) have s': "s' = s\<lparr>members := members s @ [?m]\<rparr>"
    and new: "\<forall>n \<in> set (members s). m_id n \<noteq> i \<and> m_email n \<noteq> email \<and> (profile \<noteq> None \<longrightarrow> m_subject n \<noteq> map_option us_subject profile)"
    by (simp_all add: insert_member_def insert_member_row_eq_Inr)
  have rows: "set (members s') = insert ?m (set (members s))" by (auto simp: s')
  have "subjects_unique (set (members s'))"
    unfolding rows
  proof (rule subjects_unique_insert)
    fix n
    assume "n \<in> set (members s)" "m_subject ?m \<noteq> None" "m_subject ?m = m_subject n"
    with new show "m_id ?m = m_id n" by (auto dest: bspec [of _ _ n])
  qed (use assms(2) in \<open>simp add: members_ok_def\<close>)
  moreover have "distinct (map m_id (members s'))" "distinct (map m_email (members s'))"
    using assms(2) new by (auto simp: s' members_ok_def)
  moreover have "state_ok ?m" by (cases profile) (simp_all add: state_ok_def)
  ultimately show ?thesis using assms(2) by (simp add: members_ok_def rows)
qed

lemma insert_scopes_members: "insert_scopes i ds s = Inr s' \<Longrightarrow>
    members s' = members s \<and> settings s' = settings s \<and> devices s' = devices s \<and> sessions s' = sessions s"
  by (induction i ds s rule: insert_scopes.induct) (auto split: if_splits)

lemma insert_setting_members: "insert_setting k v s = Inr s' \<Longrightarrow>
    members s' = members s \<and> settings s' = (settings s)(k \<mapsto> v) \<and> settings s k = None"
  by (auto simp: insert_setting_def split: if_splits)

lemma members_ok_cong: "members s' = members s \<Longrightarrow> members_ok s' = members_ok s"
  by (simp add: members_ok_def)

lemma bootstrap_members_ok:
  "bootstrap_members sha clock fresh issuer a es n pending s = Inr (s', pending') \<Longrightarrow> members_ok s \<Longrightarrow> members_ok s'"
proof (induction sha clock fresh issuer a es n pending s rule: bootstrap_members.induct)
  case (2 sha clock fresh issuer a email l rest n pending s)
  from "2.prems"(1) obtain profile s1 s2 where
    profile: "legacy_profile sha issuer email l s = Inr profile"
    and ins: "insert_member (fresh n) clock email (if email = a then Admin else Member)
       (case lg_enroll l of None \<Rightarrow> True | Some b \<Rightarrow> b) 3 issuer profile (lg_subject l) s = Inr s1"
    and scopes: "insert_scopes (fresh n) (lg_devices l) s1 = Inr s2"
    and rest: "bootstrap_members sha clock fresh issuer a rest (Suc n)
         (if email = a \<and> profile = None then Some (fresh n) else pending) s2 = Inr (s', pending')"
    by (auto simp: and_then_eq_Inr)
  have "members_ok s2"
    using insert_member_ok [OF ins "2.prems"(2)] insert_scopes_members [OF scopes] members_ok_cong by blast
  from "2.IH" [OF profile ins scopes rest this] show ?case .
qed simp

lemma update_where_row:
  assumes "distinct (map m_id rows)" and "n \<in> set rows"
  shows "set (update_where (\<lambda>k. m_id k = m_id n) f rows) = insert (f n) (set rows - {n})"
proof -
  have "m_id k = m_id n \<longleftrightarrow> k = n" if "k \<in> set rows" for k
    using distinct_key_inj [OF assms(1) that assms(2)] by auto
  with assms(2) show ?thesis by (auto simp: in_update_where)
qed

text \<open>Replacing one row by another with its id and address.\<close>

lemma members_ok_replace:
  assumes ok: "members_ok s" and n: "n \<in> set (members s)"
    and s': "members s' = update_where (\<lambda>k. m_id k = m_id n) f (members s)"
    and f: "\<And>m. m_id (f m) = m_id m" "\<And>m. m_email (f m) = m_email m"
    and subject: "m_subject (f n) = m_subject n \<or> (\<forall>k \<in> set (members s). m_subject k \<noteq> m_subject (f n))"
    and status: "state_ok (f n)"
  shows "members_ok s'"
proof -
  have keyed: "distinct (map m_id (members s))" and emails: "distinct (map m_email (members s))"
    and unique: "subjects_unique (set (members s))" and states: "\<forall>m \<in> set (members s). state_ok m"
    using ok by (simp_all add: members_ok_def)
  have rows: "set (members s') = insert (f n) (set (members s) - {n})"
    unfolding s' by (rule update_where_row [OF keyed n])
  have "subjects_unique (set (members s'))"
    unfolding rows
  proof (rule subjects_unique_insert)
    show "subjects_unique (set (members s) - {n})" by (rule subjects_unique_subset [OF unique]) blast
    fix k
    assume k: "k \<in> set (members s) - {n}" "m_subject (f n) \<noteq> None" "m_subject (f n) = m_subject k"
    from subject show "m_id (f n) = m_id k"
    proof
      assume same: "m_subject (f n) = m_subject n"
      have "m_subject n \<noteq> None \<longrightarrow> m_subject n = m_subject k \<longrightarrow> m_id n = m_id k"
        using unique n k(1) unfolding subjects_unique_def by blast
      with k(2,3) f(1) show ?thesis by (simp only: same simp_thms)
    next
      assume "\<forall>k \<in> set (members s). m_subject k \<noteq> m_subject (f n)"
      then have "m_subject k \<noteq> m_subject (f n)" using k(1) by blast
      with k(3) show ?thesis by simp
    qed
  qed
  moreover have "distinct (map m_id (members s'))" "distinct (map m_email (members s'))"
    using keyed emails by (simp_all add: s' map_update_where f)
  moreover have "\<forall>m \<in> set (members s'). state_ok m" using states status by (simp add: rows)
  ultimately show ?thesis unfolding members_ok_def by blast
qed

section \<open>Histories of membership\<close>

inductive member_step :: "hash \<Rightarrow> ops \<Rightarrow> ops \<Rightarrow> bool" for sha where
  bootstrapped: "bootstrap sha clock fresh issuer email legacy_value s = Inr (s', n) \<Longrightarrow> member_step sha s s'"
| signed_in: "authorize clock activate p s = Inr (s', q) \<Longrightarrow> member_step sha s s'"
| invited: "invite stamp clock fresh p raw s = Inr (s', v) \<Longrightarrow> member_step sha s s'"
| updated: "update_member stamp clock p i raw s = Inr (s', v) \<Longrightarrow> member_step sha s s'"
| sessions_revoked: "revoke_sessions clock p i s = Inr (s', u) \<Longrightarrow> member_step sha s s'"
| device_revoked: "revoke_device clock p device s = Inr (s', u) \<Longrightarrow> member_step sha s s'"
| elsewhere: "members s' = members s \<Longrightarrow>
    settings s' ''membership_initialized'' = settings s ''membership_initialized'' \<Longrightarrow> member_step sha s s'"

lemma clear_sessions_sel [simp]:
  "members (clear_sessions t s) = members s" "settings (clear_sessions t s) = settings s"
  "devices (clear_sessions t s) = devices s" "events (clear_sessions t s) = events s"
  by (simp_all add: clear_sessions_def)

lemma disable_devices_sel [simp]:
  "members (disable_devices t s) = members s" "settings (disable_devices t s) = settings s"
  "sessions (disable_devices t s) = sessions s" "flows (disable_devices t s) = flows s"
  by (simp_all add: disable_devices_def)

lemma bootstrap_returned:
  assumes "bootstrap sha clock fresh issuer email legacy_value s = Inr (s', n)"
  obtains a es s1 pending where "\<not> initialized s" "members s = []"
    "bootstrap_members sha clock fresh issuer a es 0 None s = Inr (s1, pending)"
    "members s' = members s1" "initialized s'"
proof -
  from assms obtain a legacies s1 s2 s3 pending where "\<not> (initialized s \<or> members s \<noteq> [])"
    and "bootstrap_members sha clock fresh issuer a (bootstrap_entries a legacies) 0 None s = Inr (s1, pending)"
    and one: "insert_setting ''membership_initialized'' ''1'' s1 = Inr s2"
    and two: "(case pending of
                 Some i \<Rightarrow>
                   if (users s = [] \<and> devices s = [] \<and> sessions s = []) \<and> i \<noteq> [] \<and> length (bootstrap_entries a legacies) = 1
                   then insert_setting ''membership_bootstrap_pending_admin'' i s2 else Inr s2
               | None \<Rightarrow> Inr s2) = Inr s3"
    and s': "s' = record_event clock ''operator'' ''membership_bootstrapped'' ''project''
                     (JObj [(''members'', JInt (int (length (bootstrap_entries a legacies))))]) s3"
    unfolding bootstrap_def Let_def and_then_eq_Inr if_raise_eq_Inr case_prod_beta by auto
  note set1 = insert_setting_members [OF one]
  have "members s3 = members s2 \<and> settings s3 ''membership_initialized'' = settings s2 ''membership_initialized''"
    using two by (auto dest!: insert_setting_members split: option.splits if_splits)
  with set1 have "members s' = members s1" "initialized s'" by (simp_all add: s' initialized_def)
  with that show thesis using \<open>\<not> (initialized s \<or> members s \<noteq> [])\<close>
    \<open>bootstrap_members sha clock fresh issuer a (bootstrap_entries a legacies) 0 None s = Inr (s1, pending)\<close> by blast
qed

lemma invite_returned:
  assumes "invite stamp clock fresh p raw s = Inr (s', v)"
  obtains email r enroll quota issuer s1 q where "admin clock p s = Inr (s, q)"
    "insert_member fresh clock email r enroll quota issuer None None s = Inr s1" "members s' = members s1"
    "settings s' = settings s" "devices s' = devices s"
proof -
  from assms obtain kvs s0 q s1 where adm: "admin clock p s = Inr (s0, q)"
    and ins: "insert_member fresh clock (setting_email kvs) (the (setting_role kvs))
             (the (setting_enroll kvs)) (the (setting_quota kvs)) (pr_issuer q) None None s0 = Inr s1"
    and s': "s' = record_event clock (pr_subject q) ''member_invited'' fresh
               (JObj [(''role'', JStr (role_text (the (setting_role kvs))))]) s1"
    unfolding invite_def Let_def and_then_eq_Inr case_prod_beta if_raise_eq_Inr by auto
  have s0: "s0 = s" using hub_members.admin_reads [OF adm] by simp
  have "settings s1 = settings s0 \<and> devices s1 = devices s0"
    using ins by (auto simp: insert_member_def insert_member_row_eq_Inr)
  with that [of q] adm ins s' s0 show thesis by simp
qed

lemma update_member_returned:
  assumes "update_member stamp clock p i raw s = Inr (s', v)"
  obtains changes m q where "admin clock p s = Inr (s, q)" "member_row s i = Some m"
    "active_admin m \<and> \<not> active_admin (changed_member clock (new_role m changes) (new_status m changes) changes m) \<longrightarrow>
       1 < length (filter active_admin (members s))"
    "members s' = update_where (\<lambda>n. m_id n = m_id m) (changed_member clock (new_role m changes) (new_status m changes) changes) (members s)"
    "settings s' = settings s"
    "new_status m changes = Disabled \<longrightarrow> (\<forall>t. m_subject m = Some t \<longrightarrow> t \<noteq> [] \<longrightarrow>
       devices s' = devices (disable_devices t s) \<and> sessions s' = sessions (clear_sessions t s) \<and>
       flows s' = flows (clear_sessions t s))"
proof -
  from assms obtain changes w m where adm: "admin clock p s = Inr w" and m: "get_member (fst w) i = Inr m"
    and guard: "\<not> ((active_admin m \<and> (new_role m changes \<noteq> Admin \<or> new_status m changes \<noteq> Active)) \<and>
        length (filter active_admin (members (fst w))) \<le> 1)"
    and s': "s' = record_event clock (pr_subject (snd w)) ''member_updated'' i
         (JObj [(''fields'', json_texts (sort (map fst changes))), (''role'', JStr (role_text (new_role m changes))),
                (''status'', JStr (status_text (new_status m changes)))])
         (case m_subject m of
            Some subject \<Rightarrow>
              if new_status m changes = Disabled \<and> subject \<noteq> [] then disable_devices subject (clear_sessions subject
                ((fst w)\<lparr>members := update_where (\<lambda>n. m_id n = i) (changed_member clock (new_role m changes) (new_status m changes) changes) (members (fst w))\<rparr>))
              else (fst w)\<lparr>members := update_where (\<lambda>n. m_id n = i) (changed_member clock (new_role m changes) (new_status m changes) changes) (members (fst w))\<rparr>
          | None \<Rightarrow> (fst w)\<lparr>members := update_where (\<lambda>n. m_id n = i) (changed_member clock (new_role m changes) (new_status m changes) changes) (members (fst w))\<rparr>)"
    unfolding update_member_def Let_def and_then_eq_Inr case_prod_beta if_raise_eq_Inr prod.inject sum.inject
    by (elim exE conjE) (rule that, assumption+, rule sym)
  obtain q where w: "w = (s, q)" using hub_members.admin_reads [of clock p s "fst w" "snd w"] adm by (cases w) auto
  have row: "member_row s i = Some m" using m w by (simp add: get_member_eq_Inr)
  then have i: "i = m_id m" using member_row_Some by blast
  show thesis
  proof (rule that [of q m changes])
    show "active_admin m \<and> \<not> active_admin (changed_member clock (new_role m changes) (new_status m changes) changes m) \<longrightarrow>
       1 < length (filter active_admin (members s))"
      using guard w by (auto simp: active_admin_def changed_member_def)
  qed (use adm row w s' i in \<open>auto simp: disable_devices_def clear_sessions_def split: option.splits\<close>)
qed

lemma revoked_members:
  "revoke_sessions clock p i s = Inr (s', u) \<Longrightarrow> members s' = members s \<and> settings s' = settings s"
  "revoke_device clock p device s = Inr (s', u) \<Longrightarrow> members s' = members s \<and> settings s' = settings s"
proof -
  assume "revoke_sessions clock p i s = Inr (s', u)"
  then obtain w m where adm: "admin clock p s = Inr w" and "get_member (fst w) i = Inr m" and "s' = record_event clock (pr_subject (snd w))
      ''member_sessions_revoked'' i (JObj [])
      (case m_subject m of Some subject \<Rightarrow> if subject \<noteq> [] then clear_sessions subject (fst w) else fst w | None \<Rightarrow> fst w)"
    unfolding revoke_sessions_def Let_def and_then_eq_Inr case_prod_beta sum.inject prod.inject
    by (elim exE conjE) (rule that, assumption+, rule sym)
  moreover have "fst w = s" using hub_members.admin_reads [of clock p s "fst w" "snd w"] adm by simp
  ultimately show "members s' = members s \<and> settings s' = settings s" by (auto split: option.splits)
next
  assume "revoke_device clock p device s = Inr (s', u)"
  then obtain w where auth: "authorize clock False p s = Inr w" and "members s' = members (fst w)" "settings s' = settings (fst w)"
    unfolding revoke_device_def and_then_eq_Inr case_prod_beta by (auto split: if_splits option.splits)
  moreover have "fst w = s" using authorize_reading [of clock p s "fst w" "snd w"] auth by simp
  ultimately show "members s' = members s \<and> settings s' = settings s" by simp
qed

text \<open>What a step may do to the members: nothing, add rows, or replace one row.\<close>

lemma member_step_cases:
  assumes "member_step sha s s'"
  obtains (same) "members s' = members s"
  | (founded) clock fresh issuer a es s1 pending where "\<not> initialized s" "members s = []"
      "bootstrap_members sha clock fresh issuer a es 0 None s = Inr (s1, pending)" "members s' = members s1"
  | (joined) clock fresh email r enroll quota issuer s1 where
      "insert_member fresh clock email r enroll quota issuer None None s = Inr s1" "members s' = members s1"
  | (signed) clock p n where "n \<in> set (members s)" "m_status n = Invited" "m_subject n = None"
      "members s' = update_where (\<lambda>k. m_id k = m_id n) (activated clock p) (members s)"
      "member_of s (pr_subject p) = None"
  | (changed) clock changes m where "m \<in> set (members s)"
      "active_admin m \<and> \<not> active_admin (changed_member clock (new_role m changes) (new_status m changes) changes m) \<longrightarrow>
         1 < length (filter active_admin (members s))"
      "members s' = update_where (\<lambda>n. m_id n = m_id m) (changed_member clock (new_role m changes) (new_status m changes) changes) (members s)"
  using assms
proof (cases rule: member_step.cases)
  case (bootstrapped clock fresh issuer email legacy_value n)
  then show thesis by (rule bootstrap_returned) (rule founded)
next
  case (signed_in clock activate p q)
  then show thesis
  proof (cases rule: authorize_returned)
    case (1 m)
    from 1(8) show thesis
    proof
      assume "s' = s \<and> member_of s (pr_subject p) = Some m"
      then show thesis by (intro same) simp
    next
      assume take: "activate \<and> member_of s (pr_subject p) = None \<and> take_invitation clock p s = Inr (s', Some m)"
      then have "take_invitation clock p s = Inr (s', Some m)" by simp
      from take_invitation_returned [OF this] take show thesis by (elim exE conjE) (rule signed)
    qed
  qed
next
  case (invited stamp clock fresh p raw v)
  then show thesis by (rule invite_returned) (rule joined)
next
  case (updated stamp clock p i raw v)
  then show thesis
  proof (cases rule: update_member_returned)
    case (1 changes m q)
    with member_row_Some [OF 1(2)] show thesis by (intro changed [of m clock changes]) auto
  qed
next
  case (sessions_revoked clock p i u)
  with revoked_members(1) show thesis by (intro same) blast
next
  case (device_revoked clock p device u)
  with revoked_members(2) show thesis by (intro same) blast
qed (rule same)

lemma changed_status_ok: "state_ok m \<Longrightarrow> state_ok (changed_member clock (new_role m changes) (new_status m changes) changes m)"
  by (auto simp: state_ok_def changed_member_def new_status_def setting_status_def Let_def split: option.splits if_splits)

lemma member_step_ok:
  assumes "member_step sha s s'" and ok: "members_ok s"
  shows "members_ok s'"
  using assms(1)
proof (cases rule: member_step_cases)
  case same
  with ok members_ok_cong show ?thesis by blast
next
  case founded
  from bootstrap_members_ok [OF founded(3) ok] members_ok_cong [OF founded(4)] show ?thesis by simp
next
  case joined
  from insert_member_ok [OF joined(1) ok] members_ok_cong [OF joined(2)] show ?thesis by simp
next
  case (signed clock p n)
  have "m_subject k \<noteq> Some (pr_subject p)" if "k \<in> set (members s)" for k
    using signed(5) that by (auto simp: member_of_def find_None_iff)
  then show ?thesis
    by (intro members_ok_replace [OF ok signed(1,4)]) (simp_all add: activated_def state_ok_def)
next
  case (changed clock changes m)
  from ok changed(1) have "state_ok m" by (simp add: members_ok_def)
  from changed_status_ok [OF this] show ?thesis
    by (intro members_ok_replace [OF ok changed(1,3)]) (simp_all add: changed_member_def)
qed

lemma active_admin_counted: "distinct (map m_id rows) \<Longrightarrow> m \<in> set rows \<Longrightarrow> 1 < length (filter active_admin rows) \<Longrightarrow>
    \<exists>n \<in> set rows. n \<noteq> m \<and> active_admin n"
proof (rule ccontr)
  assume d: "distinct (map m_id rows)" and m: "m \<in> set rows" and l: "1 < length (filter active_admin rows)"
    and "\<not> (\<exists>n \<in> set rows. n \<noteq> m \<and> active_admin n)"
  then have "x \<in> set rows \<Longrightarrow> active_admin x \<Longrightarrow> x = m" for x by blast
  moreover from d have "distinct rows" by (simp add: distinct_map)
  ultimately have "length (filter active_admin rows) \<le> 1" by (intro length_filter_unique) blast+
  with l show False by simp
qed

text \<open>The last active administrator can neither be demoted nor disabled.\<close>

definition governed :: "ops \<Rightarrow> bool" where
  "governed s \<longleftrightarrow> list_ex active_admin (members s)"

lemma member_step_governed:
  assumes "member_step sha s s'" and ok: "members_ok s" and "governed s"
  shows "governed s'"
proof -
  from assms(3) obtain a where a: "a \<in> set (members s)" "active_admin a" by (auto simp: governed_def list_ex_iff)
  have "\<exists>b \<in> set (members s'). active_admin b"
    using assms(1)
  proof (cases rule: member_step_cases)
    case same
    with a show ?thesis by auto
  next
    case founded
    with a show ?thesis by simp
  next
    case joined
    with a show ?thesis by (auto simp: insert_member_def insert_member_row_eq_Inr)
  next
    case (signed clock p n)
    have "active_admin (if m_id a = m_id n then activated clock p a else a)"
      using a(2) by (simp add: active_admin_def activated_def)
    with update_where_image [OF a(1), of "\<lambda>k. m_id k = m_id n" "activated clock p"] signed(4) show ?thesis by auto
  next
    case (changed clock changes m)
    let ?f = "changed_member clock (new_role m changes) (new_status m changes) changes"
    have keyed: "distinct (map m_id (members s))" using ok by (simp add: members_ok_def)
    have rows: "set (members s') = insert (?f m) (set (members s) - {m})"
      unfolding changed(3) by (rule update_where_row [OF keyed changed(1)])
    show ?thesis
    proof (cases "active_admin (?f m)")
      case True
      with rows show ?thesis by blast
    next
      case False
      show ?thesis
      proof (cases "a = m")
        case True
        with a False changed(2) have "1 < length (filter active_admin (members s))" by blast
        from active_admin_counted [OF keyed changed(1) this] rows show ?thesis by blast
      next
        case other: False
        with a rows show ?thesis by blast
      qed
    qed
  qed
  then show ?thesis by (auto simp: governed_def list_ex_iff)
qed

lemma member_steps_governed:
  "(member_step sha)\<^sup>*\<^sup>* s s' \<Longrightarrow> members_ok s \<Longrightarrow> members_ok s' \<and> (governed s \<longrightarrow> governed s')"
  by (induction rule: rtranclp_induct) (auto intro: member_step_ok member_step_governed)

lemma new_members_ok: "members_ok new_operations"
  by (simp add: members_ok_def new_operations_def subjects_unique_def)

section \<open>A disabled member is cut off\<close>

lemma disabled_cut_off:
  assumes "update_member stamp clock p i raw s = Inr (s', v)" and "member_row s i = Some m"
    and "m_subject m = Some t" and "t \<noteq> []" and "member_row s' i = Some m'" and "m_status m' = Disabled"
    and ok: "members_ok s"
  shows "\<And>r. r \<in> set (sessions s') \<Longrightarrow> s_subject r \<noteq> t"
    and "\<And>d. d \<in> set (devices s') \<Longrightarrow> d_owner d = Some t \<Longrightarrow> \<not> d_active d"
    and "\<And>f. f \<in> set (flows s') \<Longrightarrow> f_subject f = Some t \<Longrightarrow> f_status f \<noteq> FlowApproved"
    and "\<not> active_owner s' t"
proof -
  from assms(1) obtain changes where
    rows: "members s' = update_where (\<lambda>n. m_id n = m_id m) (changed_member clock (new_role m changes) (new_status m changes) changes) (members s)"
    and gone: "new_status m changes = Disabled \<longrightarrow> (\<forall>t. m_subject m = Some t \<longrightarrow> t \<noteq> [] \<longrightarrow>
       devices s' = devices (disable_devices t s) \<and> sessions s' = sessions (clear_sessions t s) \<and>
       flows s' = flows (clear_sessions t s))"
    by (rule update_member_returned) (use assms(2) in auto)
  let ?f = "changed_member clock (new_role m changes) (new_status m changes) changes"
  have m: "m \<in> set (members s)" "m_id m = i" using member_row_Some [OF assms(2)] by auto
  have "member_row s' i = map_option ?f (member_row s i)"
    unfolding member_row_def rows m(2) by (rule find_key_update_same) (simp add: changed_member_def)
  with assms(2,5) have m': "m' = ?f m" by simp
  with assms(6) have off: "new_status m changes = Disabled" by (simp add: changed_member_def)
  with gone assms(3,4) have tables: "devices s' = devices (disable_devices t s)" "sessions s' = sessions (clear_sessions t s)"
    "flows s' = flows (clear_sessions t s)" by blast+
  show "\<And>r. r \<in> set (sessions s') \<Longrightarrow> s_subject r \<noteq> t" by (auto simp: tables clear_sessions_def)
  show "\<And>d. d \<in> set (devices s') \<Longrightarrow> d_owner d = Some t \<Longrightarrow> \<not> d_active d"
    by (auto simp: tables disable_devices_def in_update_where)
  show "\<And>f. f \<in> set (flows s') \<Longrightarrow> f_subject f = Some t \<Longrightarrow> f_status f \<noteq> FlowApproved"
    by (auto simp: tables clear_sessions_def in_update_where)
  have keyed: "distinct (map m_id (members s))" and unique: "subjects_unique (set (members s))"
    using ok by (simp_all add: members_ok_def)
  have set_rows: "set (members s') = insert (?f m) (set (members s) - {m})"
    unfolding rows by (rule update_where_row [OF keyed m(1)])
  have "m_subject n \<noteq> Some t" if "n \<in> set (members s) - {m}" for n
  proof
    assume "m_subject n = Some t"
    have "m_subject n \<noteq> None \<longrightarrow> m_subject n = m_subject m \<longrightarrow> m_id n = m_id m"
      using unique that m(1) unfolding subjects_unique_def by blast
    with \<open>m_subject n = Some t\<close> assms(3) have "m_id n = m_id m" by simp
    with distinct_key_inj [OF keyed, of n m] that m(1) show False by auto
  qed
  moreover have "m_status (?f m) \<noteq> Active" using off by (simp add: changed_member_def)
  ultimately show "\<not> active_owner s' t" by (auto simp: active_owner_def list_ex_iff set_rows)
qed

end
