(* ===== verification/Campaigns.thy ===== *)
theory Campaigns
  imports CollectionActivity Membership
begin

text \<open>
  python/spireagent/hub/campaigns.py: immutable, consecutively versioned collection activities
  and the consent members declare for their own active devices. Every operation asks the
  \<open>MemberAuthority\<close> it was built with: \<open>authorize\<close> and \<open>admin\<close> are arguments, and what is proved
  of the operations is proved for every authority that keeps the laws of \<open>member\_authority\<close>.
\<close>

type_synonym authority = "principal \<Rightarrow> (ops, principal) tx"

section \<open>Activities\<close>

definition activity_row :: "ops \<Rightarrow> string \<Rightarrow> activity option" where
  "activity_row s i = find (\<lambda>a. ac_id a = i) (activities s)"

definition template_text :: "(string \<times> json) list \<Rightarrow> string \<Rightarrow> string" where
  "template_text t key = (case map_of t key of Some (JStr v) \<Rightarrow> v | _ \<Rightarrow> [])"

definition template_version :: "(string \<times> json) list \<Rightarrow> int" where
  "template_version t = (case map_of t ''version'' of Some (JInt n) \<Rightarrow> n | _ \<Rightarrow> 0)"

text \<open>\<open>COALESCE(MAX(version),0)\<close> of one activity.\<close>

definition latest_version :: "ops \<Rightarrow> string \<Rightarrow> int" where
  "latest_version s name = fold max (map ac_version (filter (\<lambda>a. ac_activity_id a = name) (activities s))) 0"

definition template_reply :: "activity \<Rightarrow> string \<times> json" where
  "template_reply a = (ac_id a, ac_template a)"

text \<open>INSERT INTO collection\_activities: id and (activity\_id, version) are UNIQUE.\<close>

definition insert_activity :: "activity \<Rightarrow> ops \<Rightarrow> ops result" where
  "insert_activity a s =
     (if list_ex (\<lambda>b. ac_id b = ac_id a \<or> (ac_activity_id b = ac_activity_id a \<and> ac_version b = ac_version a)) (activities s)
      then Inl IntegrityError
      else Inr (s\<lparr>activities := activities s @ [a]\<rparr>))"

definition create_activity ::
  "stdlib \<Rightarrow> authority \<Rightarrow> real \<Rightarrow> principal \<Rightarrow> json \<Rightarrow> (ops, string \<times> json) tx" where
  "create_activity L adm clock p value s =
     and_then (validate_template (float_text L) value) (\<lambda>template.
     let identity = sha256 L (json_bytes (JObj template));
         name = template_text template ''activity_id''; version = template_version template
     in
       and_then (adm p s) (\<lambda>(s0, current).
         case find (\<lambda>a. ac_activity_id a = name \<and> ac_version a = version) (activities s0) of
           Some old \<Rightarrow>
             if ac_id old \<noteq> identity then Inl (BoundaryError ''campaign'' ''immutable_template_conflict'')
             else Inr (s0, template_reply old)
         | None \<Rightarrow>
             if 256 \<le> length (activities s0) then Inl (BoundaryError ''campaign'' ''activity_capacity_reached'')
             else if version \<noteq> latest_version s0 name + 1
             then Inl (BoundaryError ''campaign'' ''next_template_version_required'')
             else
               and_then (insert_activity
                   \<lparr>ac_id = identity, ac_activity_id = name, ac_version = version, ac_template = JObj template,
                    ac_created_at = clock, ac_created_by = pr_subject current\<rparr> s0) (\<lambda>s1.
                 Inr (record_event clock (pr_subject current) ''collection_activity_created'' identity (JObj []) s1,
                      (identity, JObj template)))))"

text \<open>ORDER BY created\_at DESC, id.\<close>

definition list_activities ::
  "authority \<Rightarrow> principal \<Rightarrow> json \<Rightarrow> json \<Rightarrow> (ops, (string \<times> json) list \<times> int \<times> int option) tx" where
  "list_activities auth p limit offset s =
     (case (limit, offset) of
        (JInt n, JInt k) \<Rightarrow>
          if n < 1 \<or> 100 < n \<or> k < 0 then Inl (BoundaryError ''campaign'' ''invalid_pagination'')
          else
            and_then (auth p s) (\<lambda>(s', _).
              let total = int (length (activities s'));
                  rows = take (nat n) (drop (nat k)
                    (sort_key (\<lambda>a. - ac_created_at a) (sort_key ac_id (activities s'))))
              in Inr (s', (map template_reply rows, total, if k + n < total then Some (k + n) else None)))
      | _ \<Rightarrow> Inl (BoundaryError ''campaign'' ''invalid_pagination''))"

definition default_key :: string where
  "default_key = ''default_collection_template''"

definition default_activity :: "authority \<Rightarrow> principal \<Rightarrow> (ops, (string \<times> json) option) tx" where
  "default_activity auth p s =
     and_then (auth p s) (\<lambda>(s', _).
       Inr (s', (case settings s' default_key of
                   None \<Rightarrow> None
                 | Some i \<Rightarrow> map_option template_reply (activity_row s' i))))"

definition set_default_activity ::
  "authority \<Rightarrow> real \<Rightarrow> principal \<Rightarrow> string \<Rightarrow> (ops, string \<times> json) tx" where
  "set_default_activity adm clock p template_id s =
     and_then (digest (JStr template_id) ''collection.default_template'' 64) (\<lambda>_.
     and_then (adm p s) (\<lambda>(s0, current).
       case activity_row s0 template_id of
         None \<Rightarrow> Inl (BoundaryError ''campaign'' ''activity_not_found'')
       | Some row \<Rightarrow>
           Inr (if settings s0 default_key = Some template_id then s0
                else record_event clock (pr_subject current) ''default_collection_changed'' template_id (JObj [])
                  (s0\<lparr>settings := (settings s0)(default_key \<mapsto> template_id)\<rparr>),
                template_reply row)))"

section \<open>Publishing the recommended settings\<close>

text \<open>ORDER BY version DESC LIMIT 1.\<close>

definition latest_activity :: "ops \<Rightarrow> string \<Rightarrow> activity option" where
  "latest_activity s name =
     (let rows = filter (\<lambda>a. ac_activity_id a = name) (activities s)
      in find (\<lambda>a. ac_version a = latest_version s name) rows)"

definition default_document :: "(string \<times> json) list \<Rightarrow> int \<Rightarrow> string list \<Rightarrow> json" where
  "default_document chosen version hosts =
     JObj ([(''schema'', JStr collection_settings_schema), (''activity_id'', JStr ''project-default''), (''version'', JInt version)]
       @ chosen @ [(''allowed_upload_hosts'', JList (map JStr hosts)), (''sharing_scope'', JStr ''project_members'')])"

definition default_template ::
  "stdlib \<Rightarrow> (string \<times> json) list \<Rightarrow> string list \<Rightarrow> activity option \<Rightarrow> (string \<times> json) list result" where
  "default_template L chosen hosts row =
     (let latest = map_option ac_template row;
          version = (case latest of None \<Rightarrow> 1 | Some v \<Rightarrow> template_version (object_value v))
      in and_then (validate_template (float_text L) (default_document chosen version hosts)) (\<lambda>template.
           Inr (if latest \<noteq> None \<and> Some (JObj template) \<noteq> latest
                then put_key ''version'' (JInt (template_version template + 1)) template else template)))"

text \<open>Three transactions: the latest version is read, the template created, the default moved.\<close>

definition publish_default ::
  "stdlib \<Rightarrow> authority \<Rightarrow> real \<Rightarrow> principal \<Rightarrow> json \<Rightarrow> string list \<Rightarrow> ops \<Rightarrow> ops \<times> (string \<times> json) result" where
  "publish_default L adm clock p value hosts s =
     (case object_fields value [''name'', ''description'', ''consent_text''] ''collection.default'' of
        Inl e \<Rightarrow> (s, Inl e)
      | Inr chosen \<Rightarrow>
          (case adm p s of
             Inl e \<Rightarrow> (s, Inl e)
           | Inr (s0, _) \<Rightarrow>
               (case default_template L chosen hosts (latest_activity s0 ''project-default'') of
                  Inl e \<Rightarrow> (s0, Inl e)
                | Inr template \<Rightarrow>
                    (case create_activity L adm clock p (JObj template) s0 of
                       Inl e \<Rightarrow> (s0, Inl e)
                     | Inr (s1, (template_id, _)) \<Rightarrow>
                         committed (set_default_activity adm clock p template_id) s1))))"

section \<open>Enrollment\<close>

definition enrollment_row :: "ops \<Rightarrow> string \<Rightarrow> string \<Rightarrow> string \<Rightarrow> enrollment option" where
  "enrollment_row s template_id device subject =
     find (\<lambda>e. en_template_id e = template_id \<and> en_device_id e = device \<and> en_subject e = subject) (enrollments s)"

text \<open>The document handed to the device; \<open>declared\_at\<close> is the creation time of the row.\<close>

record enrollment_reply =
  er_enrollment :: enrollment
  er_template_id :: string
  er_template :: json
  er_campaign :: string
  er_human_origin_verified :: bool

definition reply_of :: "activity \<Rightarrow> enrollment \<Rightarrow> enrollment_reply" where
  "reply_of a e = \<lparr>er_enrollment = e, er_template_id = ac_id a, er_template = ac_template a,
     er_campaign = ''campaign-'' @ en_id e, er_human_origin_verified = False\<rparr>"

definition enroll ::
  "authority \<Rightarrow> real \<Rightarrow> string \<Rightarrow> principal \<Rightarrow> string \<Rightarrow> string \<Rightarrow> json \<Rightarrow> (ops, enrollment_reply) tx" where
  "enroll auth clock fresh p template_id device consent s =
     and_then (digest (JStr template_id) ''campaign.template_id'' 64) (\<lambda>_.
     and_then (text_value (JStr device) ''campaign.device_id'' 128) (\<lambda>_.
     and_then (validate_consent consent) (\<lambda>given.
     and_then (auth p s) (\<lambda>(s0, current).
       case device_row s0 device of
         None \<Rightarrow> Inl (BoundaryError ''campaign'' ''owned_active_device_required'')
       | Some d \<Rightarrow>
           if \<not> d_active d \<or> d_owner d \<noteq> Some (pr_subject current)
           then Inl (BoundaryError ''campaign'' ''owned_active_device_required'')
           else
             (case activity_row s0 template_id of
                None \<Rightarrow> Inl (BoundaryError ''campaign'' ''activity_not_found'')
              | Some row \<Rightarrow>
                  (case enrollment_row s0 template_id device (pr_subject current) of
                     Some e \<Rightarrow> Inr (s0, reply_of row e)
                   | None \<Rightarrow>
                       let e = \<lparr>en_id = fresh, en_template_id = template_id, en_device_id = device,
                                en_subject = pr_subject current, en_consent = JObj given, en_created_at = clock\<rparr>
                       in if list_ex (\<lambda>f. en_id f = fresh) (enrollments s0) then Inl IntegrityError
                          else Inr (record_event clock (pr_subject current) ''collection_consent_declared'' fresh
                                 (JObj [(''template_id'', JStr template_id), (''device_id'', JStr device),
                                        (''declaration'', JObj given), (''human_origin_verified'', JBool False)])
                                 (s0\<lparr>enrollments := enrollments s0 @ [e]\<rparr>), reply_of row e)))))))"

section \<open>Histories of campaigns\<close>

inductive campaign_step :: "stdlib \<Rightarrow> authority \<Rightarrow> authority \<Rightarrow> ops \<Rightarrow> ops \<Rightarrow> bool" for L auth adm where
  created: "create_activity L adm clock p value s = Inr (s', r) \<Longrightarrow> campaign_step L auth adm s s'"
| recommended: "set_default_activity adm clock p template_id s = Inr (s', r) \<Longrightarrow> campaign_step L auth adm s s'"
| enrolled: "enroll auth clock fresh p template_id device consent s = Inr (s', r) \<Longrightarrow> campaign_step L auth adm s s'"
| elsewhere: "activities s' = activities s \<Longrightarrow> enrollments s' = enrollments s \<Longrightarrow> campaign_step L auth adm s s'"

definition versions_of :: "ops \<Rightarrow> string \<Rightarrow> int list" where
  "versions_of s name = map ac_version (filter (\<lambda>a. ac_activity_id a = name) (activities s))"

text \<open>The rows a stored activity may have: its identity is the hash of its canonical template.\<close>

definition activity_ok :: "stdlib \<Rightarrow> activity \<Rightarrow> bool" where
  "activity_ok L a \<longleftrightarrow>
     (\<exists>t. ac_template a = JObj t \<and> ac_id a = sha256 L (json_bytes (JObj t)) \<and>
        ac_activity_id a = template_text t ''activity_id'' \<and> ac_version a = template_version t)"

definition consent_given :: "json \<Rightarrow> bool" where
  "consent_given v \<longleftrightarrow> v = JObj (map (\<lambda>key. (key, JBool True)) (sort consent_fields))"

definition campaigns_ok :: "stdlib \<Rightarrow> ops \<Rightarrow> bool" where
  "campaigns_ok L s \<longleftrightarrow> distinct (map ac_id (activities s)) \<and> (\<forall>a \<in> set (activities s). activity_ok L a) \<and>
     (\<forall>name. versions_of s name = [1..latest_version s name]) \<and>
     distinct (map en_id (enrollments s)) \<and>
     distinct (map (\<lambda>e. (en_template_id e, en_device_id e, en_subject e)) (enrollments s)) \<and>
     (\<forall>e \<in> set (enrollments s). consent_given (en_consent e))"

lemma fold_max_upto: "0 \<le> k \<Longrightarrow> fold max [1..k] (0::int) = k"
proof (induction k rule: int_ge_induct)
  case (step i)
  then show ?case by (simp add: upto_rec2)
qed simp

lemma fold_max_ge: "(x::int) \<le> fold max xs x"
proof (induction xs arbitrary: x)
  case (Cons y xs)
  from Cons [of "max y x"] show ?case by simp
qed simp

lemma latest_version_nonneg: "0 \<le> latest_version s name"
  by (simp add: latest_version_def fold_max_ge)

lemma validate_consent_eq_Inr:
  "validate_consent value = Inr d \<Longrightarrow> consent_given (JObj d)"
  by (auto simp: validate_consent_def and_then_eq_Inr consent_given_def split: if_splits)

lemma insert_activity_eq_Inr [returned]:
  "insert_activity a s = Inr s' \<longleftrightarrow>
     (\<forall>b \<in> set (activities s). ac_id b \<noteq> ac_id a \<and> (ac_activity_id b = ac_activity_id a \<longrightarrow> ac_version b \<noteq> ac_version a)) \<and>
     s' = s\<lparr>activities := activities s @ [a]\<rparr>"
  by (auto simp: insert_activity_def list_ex_iff)

lemma new_campaigns_ok: "campaigns_ok L new_operations"
  by (simp add: campaigns_ok_def new_operations_def versions_of_def latest_version_def)

section \<open>What every authority makes of them\<close>

context member_authority
begin

lemma create_activity_cases:
  assumes "create_activity L admin clock p value s = Inr (s', r)"
  obtains (stored) t old q where "validate_template (float_text L) value = Inr t" "admin p s = Inr (s, q)" "s' = s"
      "find (\<lambda>a. ac_activity_id a = template_text t ''activity_id'' \<and> ac_version a = template_version t) (activities s) = Some old"
      "ac_id old = sha256 L (json_bytes (JObj t))" "r = template_reply old"
  | (new) t a q where "validate_template (float_text L) value = Inr t" "admin p s = Inr (s, q)"
      "find (\<lambda>a. ac_activity_id a = template_text t ''activity_id'' \<and> ac_version a = template_version t) (activities s) = None"
      "a = \<lparr>ac_id = sha256 L (json_bytes (JObj t)), ac_activity_id = template_text t ''activity_id'',
            ac_version = template_version t, ac_template = JObj t, ac_created_at = clock, ac_created_by = pr_subject p\<rparr>"
      "template_version t = latest_version s (template_text t ''activity_id'') + 1" "length (activities s) < 256"
      "\<forall>b \<in> set (activities s). ac_id b \<noteq> ac_id a" "activities s' = activities s @ [a]" "enrollments s' = enrollments s"
      "settings s' = settings s" "r = template_reply a"
proof -
  from assms obtain t w where t: "validate_template (float_text L) value = Inr t" and w: "admin p s = Inr w"
    and rest: "(case find (\<lambda>a. ac_activity_id a = template_text t ''activity_id'' \<and> ac_version a = template_version t) (activities (fst w)) of
           Some old \<Rightarrow>
             if ac_id old \<noteq> sha256 L (json_bytes (JObj t)) then Inl (BoundaryError ''campaign'' ''immutable_template_conflict'')
             else Inr (fst w, template_reply old)
         | None \<Rightarrow>
             if 256 \<le> length (activities (fst w)) then Inl (BoundaryError ''campaign'' ''activity_capacity_reached'')
             else if template_version t \<noteq> latest_version (fst w) (template_text t ''activity_id'') + 1
             then Inl (BoundaryError ''campaign'' ''next_template_version_required'')
             else
               and_then (insert_activity
                   \<lparr>ac_id = sha256 L (json_bytes (JObj t)), ac_activity_id = template_text t ''activity_id'',
                    ac_version = template_version t, ac_template = JObj t,
                    ac_created_at = clock, ac_created_by = pr_subject (snd w)\<rparr> (fst w)) (\<lambda>s1.
                 Inr (record_event clock (pr_subject (snd w)) ''collection_activity_created'' (sha256 L (json_bytes (JObj t))) (JObj []) s1,
                      (sha256 L (json_bytes (JObj t)), JObj t)))) = Inr (s', r)"
    unfolding create_activity_def Let_def and_then_eq_Inr case_prod_beta by blast
  obtain q where q: "w = (s, q)" "pr_subject q = pr_subject p"
    using admin_reads [of p s "fst w" "snd w"] w by (cases w) auto
  show thesis
  proof (cases "find (\<lambda>a. ac_activity_id a = template_text t ''activity_id'' \<and> ac_version a = template_version t) (activities s)")
    case (Some old)
    with rest q have "ac_id old = sha256 L (json_bytes (JObj t))" "s' = s" "r = template_reply old"
      by (auto split: if_splits)
    with stored t w q Some show thesis by blast
  next
    case None
    with rest q show thesis
      by (intro new [OF t _ None refl])
        (auto simp: w and_then_eq_Inr insert_activity_eq_Inr template_reply_def split: if_splits)
  qed
qed

lemma set_default_tables:
  "set_default_activity admin clock p template_id s = Inr (s', r) \<Longrightarrow>
   activities s' = activities s \<and> enrollments s' = enrollments s \<and> settings s' default_key = Some template_id \<and>
   (\<exists>row. activity_row s template_id = Some row \<and> r = template_reply row)"
proof -
  assume "set_default_activity admin clock p template_id s = Inr (s', r)"
  then obtain w row where w: "admin p s = Inr w" and row: "activity_row (fst w) template_id = Some row"
    and s': "s' = (if settings (fst w) default_key = Some template_id then fst w
                else record_event clock (pr_subject (snd w)) ''default_collection_changed'' template_id (JObj [])
                  ((fst w)\<lparr>settings := (settings (fst w))(default_key \<mapsto> template_id)\<rparr>))"
    and r: "r = template_reply row"
    unfolding set_default_activity_def and_then_eq_Inr case_prod_beta option_raise_eq_Inr by auto
  have "fst w = s" using admin_reads [of p s "fst w" "snd w"] w by simp
  with row s' r show ?thesis by auto
qed

text \<open>An enrollment is declared by an active member for an active device that member owns.\<close>

lemma enroll_cases:
  assumes "enroll authorize clock fresh p template_id device consent s = Inr (s', r)"
  obtains d row where "active_owner s (pr_subject p)" "device_row s device = Some d" "d_active d"
    "d_owner d = Some (pr_subject p)" "activity_row s template_id = Some row"
    "(\<exists>e. enrollment_row s template_id device (pr_subject p) = Some e \<and> s' = s \<and> r = reply_of row e) \<or>
     (\<exists>e. enrollment_row s template_id device (pr_subject p) = None \<and> consent_given (en_consent e) \<and>
        (\<forall>f \<in> set (enrollments s). en_id f \<noteq> en_id e) \<and> en_template_id e = template_id \<and> en_device_id e = device \<and>
        en_subject e = pr_subject p \<and> activities s' = activities s \<and> enrollments s' = enrollments s @ [e] \<and>
        r = reply_of row e)"
proof -
  from assms obtain given w d row where given: "validate_consent consent = Inr given"
    and w: "authorize p s = Inr w" and d: "device_row (fst w) device = Some d"
      "\<not> (\<not> d_active d \<or> d_owner d \<noteq> Some (pr_subject (snd w)))"
    and row: "activity_row (fst w) template_id = Some row"
    and rest: "(case enrollment_row (fst w) template_id device (pr_subject (snd w)) of
                     Some e \<Rightarrow> Inr (fst w, reply_of row e)
                   | None \<Rightarrow>
                       if list_ex (\<lambda>f. en_id f = fresh) (enrollments (fst w)) then Inl IntegrityError
                          else Inr (record_event clock (pr_subject (snd w)) ''collection_consent_declared'' fresh
                                 (JObj [(''template_id'', JStr template_id), (''device_id'', JStr device),
                                        (''declaration'', JObj given), (''human_origin_verified'', JBool False)])
                                 ((fst w)\<lparr>enrollments := enrollments (fst w) @ [\<lparr>en_id = fresh, en_template_id = template_id, en_device_id = device,
                                en_subject = pr_subject (snd w), en_consent = JObj given, en_created_at = clock\<rparr>]\<rparr>),
                          reply_of row \<lparr>en_id = fresh, en_template_id = template_id, en_device_id = device,
                                en_subject = pr_subject (snd w), en_consent = JObj given, en_created_at = clock\<rparr>)) = Inr (s', r)"
    unfolding enroll_def Let_def and_then_eq_Inr case_prod_beta option_raise_eq_Inr if_raise_eq_Inr by blast
  obtain q where q: "w = (s, q)" "pr_subject q = pr_subject p"
    using authorize_reads [of p s "fst w" "snd w"] w by (cases w) auto
  have active: "active_owner s (pr_subject p)" using authorize_active [of p s s q] w q by simp
  show thesis
  proof (cases "enrollment_row s template_id device (pr_subject p)")
    case (Some e)
    with rest q have "s' = s" "r = reply_of row e" by auto
    with Some d row q active show thesis by (intro that [of d row]) auto
  next
    case None
    let ?e = "\<lparr>en_id = fresh, en_template_id = template_id, en_device_id = device, en_subject = pr_subject p,
        en_consent = JObj given, en_created_at = clock\<rparr>"
    from None rest q have "\<forall>f \<in> set (enrollments s). en_id f \<noteq> fresh" "activities s' = activities s"
      "enrollments s' = enrollments s @ [?e]" "r = reply_of row ?e"
      by (auto simp: list_ex_iff split: if_splits)
    with None d row q active validate_consent_eq_Inr [OF given] show thesis
      by (intro that [of d row] disjI2 exI [of _ ?e]) auto
  qed
qed

text \<open>Publishing again changes nothing, whoever is the administrator then.\<close>

lemma create_activity_again:
  assumes "create_activity L admin clock p value s = Inr (s', r)" and "admin p' s' = Inr (s', q')"
  shows "\<exists>r'. create_activity L admin clock' p' value s' = Inr (s', r') \<and> fst r' = fst r"
  using assms(1)
proof (cases rule: create_activity_cases)
  case (stored t old q)
  with assms(2) show ?thesis by (auto simp: create_activity_def Let_def)
next
  case (new t a q)
  have "find (\<lambda>a. ac_activity_id a = template_text t ''activity_id'' \<and> ac_version a = template_version t) (activities s') = Some a"
    using new(3,4,8) by (simp add: find_append)
  with assms(2) new(1,4,11) show ?thesis by (simp add: create_activity_def Let_def template_reply_def)
qed

lemma campaign_step_ok:
  assumes "campaign_step L authorize admin s s'" and ok: "campaigns_ok L s"
  shows "campaigns_ok L s'"
  using assms(1)
proof (cases rule: campaign_step.cases)
  case (created clock p v r)
  then show ?thesis
  proof (cases rule: create_activity_cases)
    case stored
    with ok show ?thesis by simp
  next
    case (new t a q)
    let ?name = "template_text t ''activity_id''"
    have a: "ac_activity_id a = ?name" "ac_version a = latest_version s ?name + 1" "activity_ok L a"
      using new(4,5) by (auto simp: activity_ok_def)
    have versions: "versions_of s name = [1..latest_version s name]" for name using ok by (simp add: campaigns_ok_def)
    have "versions_of s' name = [1..latest_version s' name]" for name
    proof (cases "name = ?name")
      case True
      have "versions_of s' name = [1..latest_version s name + 1]"
        using a new(8) versions [of name] latest_version_nonneg [of s name]
        by (simp add: versions_of_def True upto_rec2 [of 1 "latest_version s ?name + 1"])
      moreover from this have "latest_version s' name = latest_version s name + 1"
        using fold_max_upto [of "latest_version s name + 1"] latest_version_nonneg [of s name]
        by (simp add: latest_version_def versions_of_def)
      ultimately show ?thesis by simp
    next
      case False
      with a(1) new(8) have "versions_of s' name = versions_of s name" "latest_version s' name = latest_version s name"
        by (simp_all add: versions_of_def latest_version_def)
      with versions [of name] show ?thesis by simp
    qed
    with ok new(7,8,9) a(3) show ?thesis by (auto simp: campaigns_ok_def)
  qed
next
  case (recommended clock p template_id r)
  from set_default_tables [OF this] ok show ?thesis by (simp add: campaigns_ok_def versions_of_def latest_version_def)
next
  case (enrolled clock fresh p template_id device consent r)
  then show ?thesis
  proof (cases rule: enroll_cases)
    case (1 d row)
    from 1(6) show ?thesis
    proof (elim disjE exE conjE)
      fix e
      assume "s' = s"
      with ok show ?thesis by simp
    next
      fix e
      assume e: "enrollment_row s template_id device (pr_subject p) = None" "consent_given (en_consent e)"
        "\<forall>f \<in> set (enrollments s). en_id f \<noteq> en_id e" "en_template_id e = template_id" "en_device_id e = device"
        "en_subject e = pr_subject p" "activities s' = activities s" "enrollments s' = enrollments s @ [e]"
      from e(1) have "(template_id, device, pr_subject p) \<notin>
          (\<lambda>e. (en_template_id e, en_device_id e, en_subject e)) ` set (enrollments s)"
        by (auto simp: enrollment_row_def find_None_iff)
      with e ok show ?thesis by (auto simp: campaigns_ok_def versions_of_def latest_version_def)
    qed
  qed
next
  case elsewhere
  with ok show ?thesis by (simp add: campaigns_ok_def versions_of_def latest_version_def)
qed

lemma campaign_steps_ok: "(campaign_step L authorize admin)\<^sup>*\<^sup>* s s' \<Longrightarrow> campaigns_ok L s \<Longrightarrow> campaigns_ok L s'"
  by (induction rule: rtranclp_induct) (auto intro: campaign_step_ok)

text \<open>Activities and enrollments are only ever added.\<close>

lemma campaign_step_appends:
  assumes "campaign_step L authorize admin s s'"
  shows "(\<exists>xs. activities s' = activities s @ xs) \<and> (\<exists>ys. enrollments s' = enrollments s @ ys)"
  using assms
proof (cases rule: campaign_step.cases)
  case (created clock p v r)
  then show ?thesis by (cases rule: create_activity_cases) auto
next
  case (recommended clock p template_id r)
  from set_default_tables [OF this] show ?thesis by simp
next
  case (enrolled clock fresh p template_id device consent r)
  then show ?thesis by (rule enroll_cases) auto
qed simp

lemma campaign_steps_append:
  "(campaign_step L authorize admin)\<^sup>*\<^sup>* s s' \<Longrightarrow>
   (\<exists>xs. activities s' = activities s @ xs) \<and> (\<exists>ys. enrollments s' = enrollments s @ ys)"
proof (induction rule: rtranclp_induct)
  case (step t u)
  with campaign_step_appends [OF step.hyps(2)] show ?case by force
qed simp

end

end
