(* ===== verification/Identity.thy ===== *)
theory Identity
  imports Membership CollectionActivity Blobs
begin

text \<open>
  python/spireagent/hub/identity.py: human-approved device connections and the personal read
  sessions they grant. A flow is created by an anonymous client, decided by a signed-in member in
  a browser, and polled by the client that holds its secret. \<open>V\<close> is the \<open>IdentityService\<close>; its
  keyed hash and the library functions it calls are fields of it. \<open>clock\<close> is the time an operation
  reads; the texts that \<open>secrets\<close> draws are arguments.
\<close>

section \<open>The service\<close>

text \<open>What the constructor looks at in \<open>urlsplit(public\_origin)\<close>; \<open>None\<close> where an attribute is None.\<close>

record origin_parts =
  og_scheme :: string
  og_hostname :: "string option"
  og_username :: "string option"
  og_password :: "string option"
  og_query :: string
  og_fragment :: string
  og_path :: string

record identity_service =
  is_access :: bool
  is_sha :: hash
  is_hmac :: "string \<Rightarrow> string"
  is_origin :: string
  is_stamp :: "real \<Rightarrow> string"
  is_parse_query :: "string \<Rightarrow> (string \<times> string) list result"
  is_urlencode :: "(string \<times> string) list \<Rightarrow> string"

definition truthy :: "string option \<Rightarrow> bool" where
  "truthy x \<longleftrightarrow> x \<noteq> None \<and> x \<noteq> Some []"

definition rstrip_slash :: "string \<Rightarrow> string" where
  "rstrip_slash t = rev (dropWhile (\<lambda>c. c = CHR ''/'') (rev t))"

text \<open>\<open>self.origin\<close>; \<open>split\<close> is \<open>urlsplit\<close>.\<close>

definition service_origin :: "(string \<Rightarrow> origin_parts) \<Rightarrow> string \<Rightarrow> string" where
  "service_origin split public_origin =
     (if public_origin = [] then []
      else
        let parsed = split public_origin in
        if og_scheme parsed = ''https'' \<and> truthy (og_hostname parsed) \<and> \<not> truthy (og_username parsed) \<and>
           \<not> truthy (og_password parsed) \<and> og_query parsed = [] \<and> og_fragment parsed = [] \<and>
           og_path parsed \<in> {[], ''/''}
        then rstrip_slash public_origin else [])"

definition mac :: "identity_service \<Rightarrow> string list \<Rightarrow> string" where
  "mac V parts = is_hmac V (dumps_compact parts)"

definition key_id :: "identity_service \<Rightarrow> string" where
  "key_id V = mac V [''key-id'']"

definition required_access :: "identity_service \<Rightarrow> unit result" where
  "required_access V =
     (if \<not> is_access V then Inl (BoundaryError ''identity'' ''browser_access_not_configured'') else Inr ())"

section \<open>Requests\<close>

definition identity_fields :: "json \<Rightarrow> string list \<Rightarrow> string list \<Rightarrow> (string \<times> json) list result" where
  "identity_fields value required optional =
     (case value of
        JObj kvs \<Rightarrow>
          if \<not> set required \<subseteq> fst ` set kvs \<or> \<not> fst ` set kvs \<subseteq> set required \<union> set optional
          then Inl (BoundaryError ''identity'' ''invalid_identity_request'') else Inr kvs
      | _ \<Rightarrow> Inl (BoundaryError ''identity'' ''invalid_identity_request''))"

definition identity_text :: "json \<Rightarrow> nat \<Rightarrow> string result" where
  "identity_text value maximum =
     (case value of
        JStr t \<Rightarrow>
          if t = [] \<or> maximum < length t \<or> strip t \<noteq> t \<or> list_ex (\<lambda>c. (of_char c :: nat) < 32) t
          then Inl (BoundaryError ''identity'' ''invalid_identity_request'') else Inr t
      | _ \<Rightarrow> Inl (BoundaryError ''identity'' ''invalid_identity_request''))"

definition secret_char :: "char \<Rightarrow> bool" where
  "secret_char c \<longleftrightarrow>
     (let n = (of_char c :: nat) in
      48 \<le> n \<and> n \<le> 57 \<or> 65 \<le> n \<and> n \<le> 90 \<or> 97 \<le> n \<and> n \<le> 122 \<or> c = CHR ''_'' \<or> c = CHR ''-'')"

definition client_hash :: "hash \<Rightarrow> json \<Rightarrow> string result" where
  "client_hash sha value =
     (case value of
        JStr t \<Rightarrow>
          if 32 \<le> length t \<and> length t \<le> 128 \<and> list_all secret_char t then Inr (token_hash sha t)
          else Inl (BoundaryError ''identity'' ''invalid_identity_request'')
      | _ \<Rightarrow> Inl (BoundaryError ''identity'' ''invalid_identity_request''))"

text \<open>\<open>body.get(key)\<close>: an absent key and a null are both None.\<close>

definition body_get :: "(string \<times> json) list \<Rightarrow> string \<Rightarrow> json" where
  "body_get kvs key = (case map_of kvs key of None \<Rightarrow> JNull | Some v \<Rightarrow> v)"

text \<open>\<open>secrets.compare\_digest\<close> of two texts refuses characters outside ASCII.\<close>

definition ascii_text :: "string \<Rightarrow> bool" where
  "ascii_text t \<longleftrightarrow> list_all (\<lambda>c. (of_char c :: nat) < 128) t"

definition compare_digest :: "string \<Rightarrow> string \<Rightarrow> bool result" where
  "compare_digest a b = (if ascii_text a \<and> ascii_text b then Inr (a = b) else Inl TypeError)"

section \<open>Rate limit\<close>

definition rate_row :: "ops \<Rightarrow> string \<Rightarrow> int \<Rightarrow> rate option" where
  "rate_row s source bucket = find (\<lambda>r. r_source r = source \<and> r_bucket r = bucket) (rates s)"

definition rate :: "identity_service \<Rightarrow> real \<Rightarrow> string \<Rightarrow> string \<Rightarrow> int \<Rightarrow> (ops, unit) tx" where
  "rate V clock source operation limit s =
     (let bucket = \<lfloor>clock / 60\<rfloor>;
          identity = mac V [''source'', operation, source];
          s0 = s\<lparr>rates := filter (\<lambda>r. \<not> r_bucket r < bucket) (rates s)\<rparr>;
          row = rate_row s0 identity bucket
      in if (case row of Some r \<Rightarrow> limit \<le> r_count r | None \<Rightarrow> False)
         then Inl (BoundaryError ''identity'' ''identity_rate_limited'')
         else if row = None \<and> 2048 \<le> length (rates s0)
         then Inl (BoundaryError ''identity'' ''identity_rate_limited'')
         else
           Inr (case row of
                  None \<Rightarrow> s0\<lparr>rates := rates s0 @ [\<lparr>r_source = identity, r_bucket = bucket, r_count = 1\<rparr>]\<rparr>
                | Some _ \<Rightarrow>
                    s0\<lparr>rates := update_where (\<lambda>r. r_source r = identity \<and> r_bucket r = bucket)
                      (\<lambda>r. r\<lparr>r_count := r_count r + 1\<rparr>) (rates s0)\<rparr>, ()))"

section \<open>The signed-in member\<close>

definition identity_principal :: "real \<Rightarrow> principal \<Rightarrow> (ops, principal) tx" where
  "identity_principal clock p = authorize clock (pr_session_binding p \<noteq> []) p"

text \<open>\<open>timestamp(x) if x else None\<close>, and \<open>row["name"] or row["id"]\<close>.\<close>

definition stamp_opt :: "(real \<Rightarrow> string) \<Rightarrow> real option \<Rightarrow> json" where
  "stamp_opt stamp x = (case x of None \<Rightarrow> JNull | Some t \<Rightarrow> if t = 0 then JNull else JStr (stamp t))"

definition shown_name :: "device \<Rightarrow> string" where
  "shown_name d = (case d_name d of None \<Rightarrow> d_id d | Some n \<Rightarrow> if n = [] then d_id d else n)"

definition device_view :: "(real \<Rightarrow> string) \<Rightarrow> principal \<Rightarrow> ops \<Rightarrow> string \<Rightarrow> (string \<times> json) list" where
  "device_view stamp p s i =
     (case device_row s i of
        None \<Rightarrow>
          [(''device_id'', JStr i), (''name'', JStr i), (''active'', JNull), (''last_seen'', JNull),
           (''presence'', JStr ''not_observed''), (''can_revoke'', JBool False), (''ownership'', JStr ''not_registered'')]
      | Some d \<Rightarrow>
          [(''device_id'', JStr i),
           (''name'', JStr (shown_name d)),
           (''active'', JBool (d_active d)),
           (''last_seen'', stamp_opt stamp (d_last_seen d)),
           (''presence'', JStr ''not_observed''),
           (''can_revoke'', JBool (d_active d \<and> (pr_role p = ''admin'' \<or> d_owner d = Some (pr_subject p)))),
           (''ownership'', JStr (if d_owner d = Some (pr_subject p) then ''owned_by_you''
                                 else if truthy (d_owner d) then ''shared'' else ''unclaimed''))])"

definition identity_devices :: "identity_service \<Rightarrow> real \<Rightarrow> principal \<Rightarrow> (ops, (string \<times> json) list list) tx" where
  "identity_devices V clock p s =
     and_then (authorize clock False p s) (\<lambda>(s', q).
       let identities = (if project_shared q then sort (map d_id (devices s')) else pr_devices q)
       in Inr (s', map (device_view (is_stamp V) q s') identities))"

text \<open>The text of the CSRF token: a deadline and its signature for this browser session.\<close>

definition csrf_mac :: "identity_service \<Rightarrow> principal \<Rightarrow> string \<Rightarrow> string" where
  "csrf_mac V p deadline = mac V [''csrf'', pr_subject p, pr_session_binding p, deadline]"

definition int_of_float :: "real \<Rightarrow> int" where
  "int_of_float x = (if 0 \<le> x then \<lfloor>x\<rfloor> else \<lceil>x\<rceil>)"

definition csrf_token :: "identity_service \<Rightarrow> real \<Rightarrow> principal \<Rightarrow> string" where
  "csrf_token V clock p =
     (let deadline = show_int (int_of_float (min (clock + 600) (pr_expires_at p)))
      in deadline @ ''.'' @ csrf_mac V p deadline)"

text \<open>
  \<open>me\<close>: two transactions. The first may take up an invitation and is kept even when the second fails.
\<close>

definition me ::
  "identity_service \<Rightarrow> real \<Rightarrow> principal \<Rightarrow> bool \<Rightarrow> ops \<Rightarrow> ops \<times> (string \<times> json) list result" where
  "me V clock p browser s =
     (case committed (identity_principal clock p) s of
        (s1, Inl e) \<Rightarrow> (s1, Inl e)
      | (s1, Inr q) \<Rightarrow>
          (case committed (identity_devices V clock q) s1 of
             (s2, Inl e) \<Rightarrow> (s2, Inl e)
           | (s2, Inr rows) \<Rightarrow>
               (s2, Inr ([(''principal'', JObj (public_principal q)), (''devices'', JList (map JObj rows)),
                          (''observed_at'', JStr (is_stamp V clock))]
                 @ (if browser then [(''csrf_token'', JStr (csrf_token V clock q))] else [])))))"

text \<open>\<open>int(t)\<close>: white space around, a sign, and digits that single underscores may separate.\<close>

definition py_int :: "string \<Rightarrow> int option" where
  "py_int t =
     (let u = strip t;
          body = (case u of c # cs \<Rightarrow> if c = CHR ''-'' \<or> c = CHR ''+'' then cs else u | [] \<Rightarrow> []);
          groups = split_on CHR ''_'' body
      in if list_all (\<lambda>g. g \<noteq> [] \<and> list_all is_digit g) groups
         then Some ((if u \<noteq> [] \<and> hd u = CHR ''-'' then - 1 else 1) * int (digits_value 0 (concat groups)))
         else None)"

definition csrf_ok :: "identity_service \<Rightarrow> real \<Rightarrow> principal \<Rightarrow> json \<Rightarrow> bool" where
  "csrf_ok V clock p csrf \<longleftrightarrow>
     (case identity_text csrf 100 of
        Inl _ \<Rightarrow> False
      | Inr t \<Rightarrow>
          (case split_on CHR ''.'' t of
             [deadline, signature] \<Rightarrow>
               (case py_int deadline of
                  None \<Rightarrow> False
                | Some expiry \<Rightarrow>
                    clock < of_int expiry \<and> of_int expiry \<le> pr_expires_at p \<and>
                    compare_digest signature (csrf_mac V p deadline) = Inr True)
           | _ \<Rightarrow> False))"

definition check_browser_write ::
  "identity_service \<Rightarrow> real \<Rightarrow> principal \<Rightarrow> string \<Rightarrow> json \<Rightarrow> unit result" where
  "check_browser_write V clock p origin csrf =
     (if pr_session_binding p = [] \<or> pr_expires_at p \<le> clock
      then Inl (BoundaryError ''identity'' ''browser_identity_required'')
      else if is_origin V = [] \<or> origin \<noteq> is_origin V
      then Inl (BoundaryError ''identity'' ''identity_origin_rejected'')
      else if \<not> csrf_ok V clock p csrf then Inl (BoundaryError ''identity'' ''identity_csrf_rejected'')
      else Inr ())"

section \<open>Devices by token\<close>

definition personal_prefix :: string where "personal_prefix = ''stpd_personal_''"

definition starts_with :: "string \<Rightarrow> string \<Rightarrow> bool" where
  "starts_with prefix t \<longleftrightarrow> take (length prefix) t = prefix"

definition identity_device ::
  "identity_service \<Rightarrow> real \<Rightarrow> string \<Rightarrow> bool \<Rightarrow> (ops, (string \<times> json) list) tx" where
  "identity_device V clock token beat s =
     (if starts_with personal_prefix token then Inl (BoundaryError ''identity'' ''unauthorized'')
      else
        and_then (authenticated_device (is_sha V) s token) (\<lambda>row.
        let seen = (if beat then Some clock else d_last_seen row);
            s' = (if beat
                  then s\<lparr>devices := update_where (\<lambda>d. d_id d = d_id row) (\<lambda>d. d\<lparr>d_last_seen := seen\<rparr>) (devices s)\<rparr>
                  else s)
        in Inr (s',
             [(''device_id'', JStr (d_id row)), (''name'', JStr (shown_name row)), (''active'', JBool True),
              (''last_seen'', stamp_opt (is_stamp V) seen), (''presence'', JStr ''not_observed'')])))"

section \<open>Connection flows\<close>

definition flow_row :: "ops \<Rightarrow> string \<Rightarrow> flow option" where
  "flow_row s i = find (\<lambda>f. f_id f = i) (flows s)"

text \<open>The device a client says it already is, proved by that device's own token.\<close>

definition existing_device ::
  "identity_service \<Rightarrow> real \<Rightarrow> (string \<times> json) list \<Rightarrow> ops \<Rightarrow> (string \<times> string) option result" where
  "existing_device V clock body s =
     (let identity = body_get body ''device_id''; proof = body_get body ''device_token'' in
      if (identity = JNull) \<noteq> (proof = JNull)
      then Inl (BoundaryError ''identity'' ''existing_device_proof_required'')
      else if identity = JNull then Inr None
      else
        and_then (identity_text identity 128) (\<lambda>i.
        and_then (identity_text proof 4096) (\<lambda>token.
        and_then (identity_device V clock token False s) (\<lambda>(s', view).
          if map_of view ''device_id'' \<noteq> Some (JStr i) then Inl (BoundaryError ''identity'' ''unauthorized'')
          else Inr (Some (i, token))))))"

definition create_flow ::
  "identity_service \<Rightarrow> real \<Rightarrow> string \<Rightarrow> string \<Rightarrow> json \<Rightarrow> (ops, (string \<times> json) list) tx" where
  "create_flow V clock fresh code value s =
     and_then (required_access V) (\<lambda>_.
     and_then (identity_fields value [''client_secret'', ''device_name''] [''device_id'', ''device_token'']) (\<lambda>body.
     and_then (client_hash (is_sha V) (body_get body ''client_secret'')) (\<lambda>secret_hash.
     and_then (identity_text (body_get body ''device_name'') 100) (\<lambda>name.
     and_then (existing_device V clock body s) (\<lambda>claimed.
     let s0 = s\<lparr>flows := filter (\<lambda>f. \<not> f_expires_at f \<le> clock) (flows s),
                sessions := filter (\<lambda>r. \<not> s_expires_at r \<le> clock) (sessions s)\<rparr>;
         f = \<lparr>f_id = fresh, f_client_hash = secret_hash, f_device_name = name,
              f_device_id = map_option fst claimed,
              f_device_proof_hash = map_option (\<lambda>c. token_hash (is_sha V) (snd c)) claimed,
              f_user_code = code, f_created_at = clock, f_expires_at = clock + 600, f_status = FlowPending,
              f_key_id = key_id V, f_subject = None, f_session_hash = None, f_session_expires_at = None,
              f_new_device = False\<rparr>
     in
       if 1000 \<le> length (flows s0) then Inl (BoundaryError ''identity'' ''identity_flow_capacity'')
       else if flow_row s0 fresh \<noteq> None then Inl IntegrityError
       else Inr (s0\<lparr>flows := flows s0 @ [f]\<rparr>,
         [(''flow_id'', JStr fresh), (''approval_path'', JStr (''/app/?view=connect&flow='' @ fresh)),
          (''expires_at'', JStr (is_stamp V (clock + 600))), (''user_code'', JStr code),
          (''poll_interval_seconds'', JInt 3)]))))))"

definition get_flow :: "ops \<Rightarrow> string \<Rightarrow> flow result" where
  "get_flow s i =
     (case flow_row s i of
        None \<Rightarrow> Inl (BoundaryError ''identity'' ''identity_flow_not_found'')
      | Some f \<Rightarrow> Inr f)"

text \<open>One decision for presentation and approval: why the connection is refused, or None.\<close>

definition eligibility_block_reason :: "ops \<Rightarrow> flow \<Rightarrow> principal \<Rightarrow> string option" where
  "eligibility_block_reason s f p =
     (let active_owned = int (length (filter (\<lambda>d. d_owner d = Some (pr_subject p) \<and> d_active d) (devices s)));
          quota = (if pr_device_quota p \<le> active_owned then Some ''device_quota_reached'' else None)
      in case f_device_proof_hash f of
           None \<Rightarrow> if \<not> pr_enroll_devices p then Some ''enrollment_disabled'' else quota
         | Some proof \<Rightarrow>
             (case (case f_device_id f of None \<Rightarrow> None | Some i \<Rightarrow> device_row s i) of
                None \<Rightarrow> Some ''device_unavailable''
              | Some d \<Rightarrow>
                  if d_owner d \<notin> {None, Some (pr_subject p)} then Some ''different_account''
                  else if \<not> device_authorized s (d_id d) then Some ''device_disabled''
                  else if d_token_hash d \<noteq> proof then Some ''proof_changed''
                  else if d_owner d = Some (pr_subject p) then None
                  else if d_id d \<notin> set (pr_claim_devices p) then Some ''device_claim_not_allowed''
                  else quota))"

definition eligible :: "ops \<Rightarrow> flow \<Rightarrow> principal \<Rightarrow> bool" where
  "eligible s f p \<longleftrightarrow> eligibility_block_reason s f p = None"

definition flow_status_text :: "flow_status \<Rightarrow> string" where
  "flow_status_text st =
     (case st of FlowPending \<Rightarrow> ''pending'' | FlowApproved \<Rightarrow> ''approved'' | FlowDenied \<Rightarrow> ''denied''
      | FlowAcknowledged \<Rightarrow> ''acknowledged'')"

definition flow_view ::
  "identity_service \<Rightarrow> real \<Rightarrow> string \<Rightarrow> principal \<Rightarrow> (ops, (string \<times> json) list) tx" where
  "flow_view V clock i p s =
     and_then (authorize clock False p s) (\<lambda>(s', q).
     and_then (get_flow s' i) (\<lambda>f.
     let state = (if f_expires_at f \<le> clock then ''expired'' else flow_status_text (f_status f));
         blocked = (if state = ''expired'' then Some ''expired''
                    else if state \<noteq> ''pending'' then Some ''flow_not_pending''
                    else if f_key_id f \<noteq> key_id V then Some ''flow_invalidated''
                    else eligibility_block_reason s' f q)
     in Inr (s',
          [(''flow_id'', JStr i), (''device_name'', JStr (f_device_name f)), (''device_id'', json_opt (f_device_id f)),
           (''user_code'', JStr (f_user_code f)),
           (''purpose'', JStr (if truthy (f_device_proof_hash f) then ''connect_existing_device'' else ''enroll_device'')),
           (''expires_at'', JStr (is_stamp V (f_expires_at f))), (''status'', JStr state),
           (''approval_allowed'', JBool (blocked = None)), (''approval_block_reason'', json_opt blocked),
           (''recording_consent'', JStr ''not_granted_by_connection'')])))"

section \<open>Decisions\<close>

definition flow_token :: "identity_service \<Rightarrow> string \<Rightarrow> flow \<Rightarrow> string" where
  "flow_token V purpose f = ''stpd_'' @ purpose @ ''_'' @ mac V [purpose, f_id f, f_client_hash f]"

text \<open>INSERT INTO identity\_sessions: the token hash is the primary key.\<close>

definition insert_session :: "session_row \<Rightarrow> ops \<Rightarrow> ops result" where
  "insert_session r s =
     (if list_ex (\<lambda>q. s_token_hash q = s_token_hash r) (sessions s) then Inl IntegrityError
      else Inr (s\<lparr>sessions := sessions s @ [r]\<rparr>))"

definition update_flow :: "string \<Rightarrow> (flow \<Rightarrow> flow) \<Rightarrow> ops \<Rightarrow> ops" where
  "update_flow i f s = s\<lparr>flows := update_where (\<lambda>r. f_id r = i) f (flows s)\<rparr>"

text \<open>The device of an approved flow: a new one, or the existing one now owned and perhaps named.\<close>

definition connect_device ::
  "identity_service \<Rightarrow> real \<Rightarrow> string \<Rightarrow> principal \<Rightarrow> flow \<Rightarrow> ops \<Rightarrow> (ops \<times> string) result" where
  "connect_device V clock fresh p f s =
     (case f_device_id f of
        None \<Rightarrow>
          (let i = ''device-'' @ fresh in
           and_then (insert_device
               \<lparr>d_id = i, d_token_hash = token_hash (is_sha V) (flow_token V ''device'' f), d_active = True,
                d_name = Some (f_device_name f), d_owner = Some (pr_subject p), d_last_seen = None\<rparr> s) (\<lambda>s'.
             Inr (record_event clock (pr_subject p) ''device_registered'' i
                    (JObj [(''via'', JStr ''human_approved_connection'')]) s', i)))
      | Some i \<Rightarrow>
          Inr (s\<lparr>devices := update_where (\<lambda>d. d_id d = i)
             (\<lambda>d. d\<lparr>d_owner := Some (pr_subject p),
                     d_name := (case d_name d of None \<Rightarrow> Some (f_device_name f) | Some n \<Rightarrow> Some n)\<rparr>) (devices s)\<rparr>, i))"

definition approve_flow ::
  "identity_service \<Rightarrow> real \<Rightarrow> string \<Rightarrow> principal \<Rightarrow> flow \<Rightarrow> (ops, string) tx" where
  "approve_flow V clock fresh p f s =
     (let expiry = min (clock + 86400) (pr_expires_at p) in
      if \<not> eligible s f p then Inl (BoundaryError ''identity'' ''identity_device_not_authorized'')
      else if expiry \<le> clock then Inl (BoundaryError ''identity'' ''unauthorized'')
      else
        let s0 = s\<lparr>sessions := filter (\<lambda>r. \<not> s_expires_at r \<le> clock) (sessions s)\<rparr> in
        if 32 \<le> length (filter (\<lambda>r. s_subject r = pr_subject p) (sessions s0))
        then Inl (BoundaryError ''identity'' ''identity_session_capacity'')
        else
          and_then (connect_device V clock fresh p f s0) (\<lambda>(s1, device).
          let session_hash = token_hash (is_sha V) (flow_token V ''personal'' f) in
          and_then (insert_session
              \<lparr>s_token_hash = session_hash, s_subject = pr_subject p, s_expires_at = expiry, s_created_at = clock\<rparr> s1) (\<lambda>s2.
          let s3 = update_flow (f_id f) (\<lambda>r. r\<lparr>f_status := FlowApproved, f_subject := Some (pr_subject p),
                     f_session_hash := Some session_hash, f_session_expires_at := Some expiry,
                     f_device_id := Some device, f_new_device := (f_device_id f = None)\<rparr>) s2
          in Inr (record_event clock (pr_subject p) ''identity_connection_approved'' (f_id f)
                 (JObj [(''device_id'', JStr device), (''new_device'', JBool (f_device_id f = None))]) s3,
               ''approved''))))"

definition decide ::
  "identity_service \<Rightarrow> real \<Rightarrow> string \<Rightarrow> string \<Rightarrow> json \<Rightarrow> principal \<Rightarrow> bool \<Rightarrow> (ops, string) tx" where
  "decide V clock fresh i value p deny s =
     and_then (identity_fields value [''csrf_token'', ''user_code''] []) (\<lambda>body.
     and_then (identity_text (body_get body ''user_code'') 8) (\<lambda>code.
     and_then (authorize clock False p s) (\<lambda>(s0, q).
     and_then (get_flow s0 i) (\<lambda>f.
       if f_status f \<noteq> FlowPending \<or> f_expires_at f \<le> clock \<or> f_key_id f \<noteq> key_id V
       then Inl (BoundaryError ''identity'' ''identity_flow_not_pending'')
       else
         and_then (compare_digest (f_user_code f) code) (\<lambda>same.
           if \<not> same then Inl (BoundaryError ''identity'' ''identity_code_rejected'')
           else if deny
           then Inr (record_event clock (pr_subject q) ''identity_connection_denied'' i (JObj [])
                  (update_flow i (\<lambda>r. r\<lparr>f_status := FlowDenied\<rparr>) s0), ''denied'')
           else approve_flow V clock fresh q f s0)))))"

section \<open>Personal sessions\<close>

text \<open>\<open>re.fullmatch(PERSONAL\_PREFIX + r"[a-f0-9]\{64\}", token)\<close>.\<close>

definition personal_shape :: "string \<Rightarrow> bool" where
  "personal_shape token \<longleftrightarrow> starts_with personal_prefix token \<and>
     length (drop (length personal_prefix) token) = 64 \<and> lower_hex (drop (length personal_prefix) token)"

definition session_user :: "identity_service \<Rightarrow> real \<Rightarrow> string \<Rightarrow> ops \<Rightarrow> (session_row \<times> user) option" where
  "session_user V clock token s =
     (case find (\<lambda>r. s_token_hash r = token_hash (is_sha V) token \<and> clock < s_expires_at r) (sessions s) of
        None \<Rightarrow> None
      | Some r \<Rightarrow> map_option (Pair r) (find (\<lambda>u. us_subject u = s_subject r) (users s)))"

definition personal :: "identity_service \<Rightarrow> real \<Rightarrow> string \<Rightarrow> (ops, principal) tx" where
  "personal V clock token s =
     and_then (required_access V) (\<lambda>_.
       if \<not> personal_shape token then Inl (BoundaryError ''identity'' ''unauthorized'')
       else
         (case session_user V clock token s of
            None \<Rightarrow> Inl (BoundaryError ''identity'' ''unauthorized'')
          | Some (r, u) \<Rightarrow>
              and_then (verified_identity (is_sha V) (us_issuer u) (us_access_subject u) (us_email u)) (\<lambda>p.
                authorize clock False (p\<lparr>pr_expires_at := s_expires_at r\<rparr>) s)))"

text \<open>
  What the first transaction of \<open>poll\<close> comes to: a final answer, or the credentials of an approved
  flow, which are only handed out when \<open>personal\<close> still accepts the session.
\<close>

datatype poll_answer =
    PollStatus string
  | PollGrant flow string "string option"

definition device_secret :: "identity_service \<Rightarrow> ops \<Rightarrow> flow \<Rightarrow> string option result" where
  "device_secret V s f =
     (if \<not> f_new_device f then Inr None
      else
        let secret = flow_token V ''device'' f in
        (case (case f_device_id f of None \<Rightarrow> None | Some i \<Rightarrow> device_row s i) of
           None \<Rightarrow> Inl (BoundaryError ''identity'' ''identity_device_not_authorized'')
         | Some d \<Rightarrow>
             if \<not> d_active d \<or> d_token_hash d \<noteq> token_hash (is_sha V) secret
             then Inl (BoundaryError ''identity'' ''identity_device_not_authorized'')
             else Inr (Some secret)))"

definition poll_flow ::
  "identity_service \<Rightarrow> real \<Rightarrow> string \<Rightarrow> string \<Rightarrow> bool \<Rightarrow> (ops, poll_answer) tx" where
  "poll_flow V clock i proof acknowledge s =
     (case flow_row s i of
        None \<Rightarrow> Inr (s, PollStatus ''expired'')
      | Some f \<Rightarrow>
          and_then (compare_digest (f_client_hash f) proof) (\<lambda>same.
            if \<not> same then Inl (BoundaryError ''identity'' ''unauthorized'')
            else if f_expires_at f \<le> clock then Inr (s, PollStatus ''expired'')
            else if f_status f = FlowAcknowledged \<and> acknowledge then Inr (s, PollStatus ''acknowledged'')
            else if f_status f \<in> {FlowDenied, FlowAcknowledged} then Inr (s, PollStatus ''denied'')
            else if f_key_id f \<noteq> key_id V then Inl (BoundaryError ''identity'' ''identity_flow_key_changed'')
            else if f_status f \<noteq> FlowApproved then
              (if acknowledge then Inl (BoundaryError ''identity'' ''identity_flow_not_approved'')
               else Inr (s, PollStatus ''pending''))
            else if acknowledge then
              Inr (update_flow i (\<lambda>r. r\<lparr>f_status := FlowAcknowledged\<rparr>) s, PollStatus ''acknowledged'')
            else
              and_then (device_secret V s f) (\<lambda>secret.
                Inr (s, PollGrant f (flow_token V ''personal'' f) secret))))"

text \<open>The answer handed to the client; \<open>later\<close> is the time the second transaction reads.\<close>

record grant =
  gr_session_token :: string
  gr_expires_at :: json
  gr_principal :: principal
  gr_device_id :: "string option"
  gr_device_name :: string
  gr_device_token :: "string option"

definition poll ::
  "identity_service \<Rightarrow> real \<Rightarrow> real \<Rightarrow> string \<Rightarrow> json \<Rightarrow> bool \<Rightarrow> ops \<Rightarrow> ops \<times> (string + grant) result" where
  "poll V clock later i value acknowledge s =
     (case and_then (identity_fields value [''client_secret''] []) (\<lambda>body.
             client_hash (is_sha V) (body_get body ''client_secret'')) of
        Inl e \<Rightarrow> (s, Inl e)
      | Inr proof \<Rightarrow>
          (case committed (poll_flow V clock i proof acknowledge) s of
             (s1, Inl e) \<Rightarrow> (s1, Inl e)
           | (s1, Inr (PollStatus status)) \<Rightarrow> (s1, Inr (Inl status))
           | (s1, Inr (PollGrant f token secret)) \<Rightarrow>
               (case committed (personal V later token) s1 of
                  (s2, Inl e) \<Rightarrow> (s2, Inl e)
                | (s2, Inr p) \<Rightarrow>
                    (s2, Inr (Inr
                      \<lparr>gr_session_token = token,
                       gr_expires_at = JStr (is_stamp V (case f_session_expires_at f of None \<Rightarrow> later | Some t \<Rightarrow> t)),
                       gr_principal = p, gr_device_id = f_device_id f, gr_device_name = f_device_name f,
                       gr_device_token = secret\<rparr>)))))"

definition logout :: "identity_service \<Rightarrow> real \<Rightarrow> string \<Rightarrow> (ops, string) tx" where
  "logout V clock token s =
     (if \<not> personal_shape token then Inl (BoundaryError ''identity'' ''unauthorized'')
      else
        let h = token_hash (is_sha V) token;
            row = find (\<lambda>r. s_token_hash r = h) (sessions s);
            s' = s\<lparr>sessions := filter (\<lambda>r. s_token_hash r \<noteq> h) (sessions s)\<rparr>
        in Inr (case row of
                  None \<Rightarrow> s'
                | Some r \<Rightarrow> record_event clock (s_subject r) ''personal_session_logged_out'' ''self'' (JObj []) s',
                ''logged_out''))"

text \<open>
  A \<open>device\<close> parameter narrows what the request reads; every refusal, that of \<open>authorize\<close>
  included, is the same error.
\<close>

definition scoped_query :: "identity_service \<Rightarrow> real \<Rightarrow> principal \<Rightarrow> string \<Rightarrow> (ops, principal \<times> string) tx" where
  "scoped_query V clock p query s =
     (let refused = Inl (BoundaryError ''identity'' ''identity_device_not_authorized'') in
      case is_parse_query V query of
        Inl _ \<Rightarrow> refused
      | Inr values \<Rightarrow>
          let chosen = map snd (filter (\<lambda>kv. fst kv = ''device'') values);
              rest = is_urlencode V (filter (\<lambda>kv. fst kv \<noteq> ''device'') values)
          in (case chosen of
                [] \<Rightarrow> Inr (s, (p, rest))
              | [d] \<Rightarrow>
                  (case authorize clock False p s of
                     Inl _ \<Rightarrow> refused
                   | Inr (s', q) \<Rightarrow>
                       if \<not> project_shared q \<or> device_row s' d = None then refused
                       else Inr (s', (q\<lparr>pr_data_device := Some d\<rparr>, rest)))
              | _ \<Rightarrow> refused))"

section \<open>Bounds of the identity tables\<close>

text \<open>
  Every transaction of the service, with whatever principal and time, and what else may happen to
  its tables: the sessions of a subject are cleared, or they are left alone.
\<close>

inductive identity_step :: "identity_service \<Rightarrow> ops \<Rightarrow> ops \<Rightarrow> bool" for V where
  counted: "rate V clock source operation limit s = Inr (s', u) \<Longrightarrow> identity_step V s s'"
| beaten: "identity_device V clock token beat s = Inr (s', view) \<Longrightarrow> identity_step V s s'"
| created: "create_flow V clock fresh code v s = Inr (s', view) \<Longrightarrow> identity_step V s s'"
| decided: "decide V clock fresh i v p deny s = Inr (s', status) \<Longrightarrow> identity_step V s s'"
| polled: "poll_flow V clock i proof acknowledge s = Inr (s', answer) \<Longrightarrow> identity_step V s s'"
| logged_out: "logout V clock token s = Inr (s', status) \<Longrightarrow> identity_step V s s'"
| cleared: "s' = clear_sessions t s \<Longrightarrow> identity_step V s s'"
| elsewhere: "flows s' = flows s \<Longrightarrow> sessions s' = sessions s \<Longrightarrow> rates s' = rates s \<Longrightarrow> identity_step V s s'"

definition sessions_of :: "ops \<Rightarrow> string \<Rightarrow> session_row list" where
  "sessions_of s subject = filter (\<lambda>r. s_subject r = subject) (sessions s)"

definition identity_bounded :: "ops \<Rightarrow> bool" where
  "identity_bounded s \<longleftrightarrow> length (flows s) \<le> 1000 \<and> length (rates s) \<le> 2048 \<and>
     (\<forall>subject. length (sessions_of s subject) \<le> 32) \<and>
     distinct (map f_id (flows s)) \<and> distinct (map s_token_hash (sessions s)) \<and>
     distinct (map (\<lambda>r. (r_source r, r_bucket r)) (rates s))"

lemma identity_bounded_new: "identity_bounded new_operations"
  by (simp add: identity_bounded_def new_operations_def sessions_of_def)

lemma distinct_map_filter': "distinct (map f xs) \<Longrightarrow> distinct (map f (filter P xs))"
  by (induction xs) auto

lemma sessions_filter_bounded:
  "identity_bounded s \<Longrightarrow> length (filter (\<lambda>r. s_subject r = t) (filter P (sessions s))) \<le> 32"
proof -
  assume "identity_bounded s"
  then have "length (sessions_of s t) \<le> 32" by (simp add: identity_bounded_def)
  moreover have "filter (\<lambda>r. s_subject r = t) (filter P (sessions s)) = filter P (sessions_of s t)"
    by (simp add: sessions_of_def conj_commute)
  ultimately show ?thesis by (metis length_filter_le order.trans)
qed

text \<open>What each group of tables may do in a step without leaving its bounds.\<close>

lemma identity_bounded_tables:
  assumes ok: "identity_bounded s"
    and flows: "(\<exists>P. flows s' = filter P (flows s)) \<or>
      (\<exists>P f. flows s' = update_where P f (flows s) \<and> (\<forall>x. f_id (f x) = f_id x)) \<or>
      (\<exists>P f. flows s' = filter P (flows s) @ [f] \<and> length (filter P (flows s)) < 1000 \<and> f_id f \<notin> f_id ` set (filter P (flows s)))"
    and sessions: "(\<exists>P. sessions s' = filter P (sessions s)) \<or>
      (\<exists>P r. sessions s' = filter P (sessions s) @ [r] \<and>
         length (filter (\<lambda>q. s_subject q = s_subject r) (filter P (sessions s))) < 32 \<and>
         s_token_hash r \<notin> s_token_hash ` set (filter P (sessions s)))"
    and rates: "rates s' = rates s"
  shows "identity_bounded s'"
proof -
  have f: "length (flows s) \<le> 1000" "distinct (map f_id (flows s))"
    and r: "distinct (map s_token_hash (sessions s))" using ok by (simp_all add: identity_bounded_def)
  have "length (flows s') \<le> 1000 \<and> distinct (map f_id (flows s'))"
    using flows f by (elim disjE exE conjE) (auto simp: map_update_where distinct_map_filter' order.trans [OF length_filter_le])
  moreover have "length (sessions_of s' t) \<le> 32" for t
    using sessions sessions_filter_bounded [OF ok, of t] by (elim disjE exE conjE) (auto simp: sessions_of_def)
  moreover have "distinct (map s_token_hash (sessions s'))"
    using sessions r by (elim disjE exE conjE) (auto simp: distinct_map_filter')
  ultimately show ?thesis using ok rates by (simp add: identity_bounded_def)
qed

lemma filter_all: "\<exists>P. xs = filter P xs"
  by (rule exI [of _ "\<lambda>_. True"]) simp

lemma find_row_None: "find (\<lambda>r. a r = x \<and> b r = y) rows = None \<longleftrightarrow> (x, y) \<notin> (\<lambda>r. (a r, b r)) ` set rows"
  by (auto simp: find_None_iff)

lemma rate_bounded:
  assumes "rate V clock source operation limit s = Inr (s', u)" and ok: "identity_bounded s"
  shows "identity_bounded s'"
proof -
  define bucket where "bucket = \<lfloor>clock / 60\<rfloor>"
  define identity where "identity = mac V [''source'', operation, source]"
  define kept where "kept = filter (\<lambda>r. \<not> r_bucket r < bucket) (rates s)"
  have kept: "length kept \<le> 2048" "distinct (map (\<lambda>r. (r_source r, r_bucket r)) kept)"
    using ok by (auto simp: kept_def identity_bounded_def distinct_map_filter' intro: order.trans [OF length_filter_le])
  have row: "rate_row (s\<lparr>rates := kept\<rparr>) identity bucket = find (\<lambda>r. r_source r = identity \<and> r_bucket r = bucket) kept"
    by (simp add: rate_row_def)
  have tables: "flows s' = flows s \<and> sessions s' = sessions s \<and>
      ((find (\<lambda>r. r_source r = identity \<and> r_bucket r = bucket) kept = None \<and> length kept < 2048 \<and>
        rates s' = kept @ [\<lparr>r_source = identity, r_bucket = bucket, r_count = 1\<rparr>]) \<or>
       rates s' = update_where (\<lambda>r. r_source r = identity \<and> r_bucket r = bucket) (\<lambda>r. r\<lparr>r_count := r_count r + 1\<rparr>) kept)"
    using assms(1) unfolding rate_def Let_def bucket_def [symmetric] identity_def [symmetric] kept_def [symmetric] row
    by (auto split: if_splits option.splits)
  from tables have "length (rates s') \<le> 2048 \<and> distinct (map (\<lambda>r. (r_source r, r_bucket r)) (rates s'))"
    using kept by (auto simp: find_row_None map_update_where)
  with ok tables show ?thesis by (simp add: identity_bounded_def sessions_of_def)
qed

lemma create_flow_tables:
  assumes "create_flow V clock fresh code v s = Inr (s', view)"
  obtains f where "f_id f = fresh" "f_status f = FlowPending"
    "flows s' = filter (\<lambda>f. \<not> f_expires_at f \<le> clock) (flows s) @ [f]"
    "length (filter (\<lambda>f. \<not> f_expires_at f \<le> clock) (flows s)) < 1000"
    "fresh \<notin> f_id ` set (filter (\<lambda>f. \<not> f_expires_at f \<le> clock) (flows s))"
    "sessions s' = filter (\<lambda>r. \<not> s_expires_at r \<le> clock) (sessions s)" "rates s' = rates s"
    "devices s' = devices s" "members s' = members s"
proof -
  from assms obtain body h name claimed where
    room: "\<not> 1000 \<le> length (flows (s\<lparr>flows := filter (\<lambda>f. \<not> f_expires_at f \<le> clock) (flows s),
                sessions := filter (\<lambda>r. \<not> s_expires_at r \<le> clock) (sessions s)\<rparr>))"
    and new: "\<not> flow_row (s\<lparr>flows := filter (\<lambda>f. \<not> f_expires_at f \<le> clock) (flows s),
                sessions := filter (\<lambda>r. \<not> s_expires_at r \<le> clock) (sessions s)\<rparr>) fresh \<noteq> None"
    and s': "s' = s\<lparr>flows := filter (\<lambda>f. \<not> f_expires_at f \<le> clock) (flows s),
                sessions := filter (\<lambda>r. \<not> s_expires_at r \<le> clock) (sessions s)\<rparr>\<lparr>flows :=
        flows (s\<lparr>flows := filter (\<lambda>f. \<not> f_expires_at f \<le> clock) (flows s),
                sessions := filter (\<lambda>r. \<not> s_expires_at r \<le> clock) (sessions s)\<rparr>) @
        [\<lparr>f_id = fresh, f_client_hash = h, f_device_name = name,
              f_device_id = map_option fst claimed,
              f_device_proof_hash = map_option (\<lambda>c. token_hash (is_sha V) (snd c)) claimed,
              f_user_code = code, f_created_at = clock, f_expires_at = clock + 600, f_status = FlowPending,
              f_key_id = key_id V, f_subject = None, f_session_hash = None, f_session_expires_at = None,
              f_new_device = False\<rparr>]\<rparr>"
    unfolding create_flow_def Let_def and_then_eq_Inr if_raise_eq_Inr sum.inject prod.inject
    by (elim exE conjE) (rule that, assumption+, rule sym)
  show thesis
    by (rule that [OF _ _ _ _ _ _ _ _ _]) (use room new in \<open>auto simp: s' flow_row_def find_None_iff\<close>)
qed

lemma insert_session_eq_Inr [returned]:
  "insert_session r s = Inr s' \<longleftrightarrow>
     (\<forall>q \<in> set (sessions s). s_token_hash q \<noteq> s_token_hash r) \<and> s' = s\<lparr>sessions := sessions s @ [r]\<rparr>"
  by (auto simp: insert_session_def list_ex_iff)

lemma record_event_rates [simp]: "rates (record_event clock a op x d s) = rates s"
  by (simp add: record_event_def)

lemma connect_device_tables:
  "connect_device V clock fresh p f s = Inr (s', i) \<Longrightarrow>
   flows s' = flows s \<and> sessions s' = sessions s \<and> rates s' = rates s \<and> members s' = members s"
  by (auto simp: connect_device_def insert_device_def and_then_eq_Inr Let_def split: option.splits if_splits)

text \<open>What an approval comes to.\<close>

lemma approve_flow_returned:
  assumes "approve_flow V clock fresh p f s = Inr (s', status)"
  obtains s1 device r where "eligible s f p" "clock < min (clock + 86400) (pr_expires_at p)"
    "length (filter (\<lambda>q. s_subject q = pr_subject p) (filter (\<lambda>r. \<not> s_expires_at r \<le> clock) (sessions s))) < 32"
    "connect_device V clock fresh p f (s\<lparr>sessions := filter (\<lambda>r. \<not> s_expires_at r \<le> clock) (sessions s)\<rparr>) = Inr (s1, device)"
    "r = \<lparr>s_token_hash = token_hash (is_sha V) (flow_token V ''personal'' f), s_subject = pr_subject p,
          s_expires_at = min (clock + 86400) (pr_expires_at p), s_created_at = clock\<rparr>"
    "\<forall>q \<in> set (filter (\<lambda>r. \<not> s_expires_at r \<le> clock) (sessions s)). s_token_hash q \<noteq> s_token_hash r"
    "sessions s' = filter (\<lambda>r. \<not> s_expires_at r \<le> clock) (sessions s) @ [r]"
    "flows s' = update_where (\<lambda>r. f_id r = f_id f) (\<lambda>x. x\<lparr>f_status := FlowApproved, f_subject := Some (pr_subject p),
        f_session_hash := Some (s_token_hash r), f_session_expires_at := Some (s_expires_at r),
        f_device_id := Some device, f_new_device := (f_device_id f = None)\<rparr>) (flows s)"
    "rates s' = rates s" "devices s' = devices s1" "members s' = members s"
proof -
  define live where "live = s\<lparr>sessions := filter (\<lambda>r. \<not> s_expires_at r \<le> clock) (sessions s)\<rparr>"
  from assms obtain w s2 where "eligible s f p" "\<not> min (clock + 86400) (pr_expires_at p) \<le> clock"
    and room: "\<not> 32 \<le> length (filter (\<lambda>r. s_subject r = pr_subject p) (sessions live))"
    and w: "connect_device V clock fresh p f live = Inr w"
    and s2: "insert_session \<lparr>s_token_hash = token_hash (is_sha V) (flow_token V ''personal'' f), s_subject = pr_subject p,
          s_expires_at = min (clock + 86400) (pr_expires_at p), s_created_at = clock\<rparr> (fst w) = Inr s2"
    and s': "s' = record_event clock (pr_subject p) ''identity_connection_approved'' (f_id f)
                 (JObj [(''device_id'', JStr (snd w)), (''new_device'', JBool (f_device_id f = None))])
                 (update_flow (f_id f) (\<lambda>r. r\<lparr>f_status := FlowApproved, f_subject := Some (pr_subject p),
                     f_session_hash := Some (token_hash (is_sha V) (flow_token V ''personal'' f)),
                     f_session_expires_at := Some (min (clock + 86400) (pr_expires_at p)),
                     f_device_id := Some (snd w), f_new_device := (f_device_id f = None)\<rparr>) s2)"
    unfolding approve_flow_def Let_def and_then_eq_Inr if_raise_eq_Inr case_prod_beta not_not
      live_def [symmetric] sum.inject prod.inject by (elim exE conjE) (rule that, assumption+, rule sym)
  note tables = connect_device_tables [of V clock fresh p f live "fst w" "snd w"]
  from w tables have kept: "flows (fst w) = flows s" "sessions (fst w) = sessions live" "rates (fst w) = rates s" "members (fst w) = members s"
    by (auto simp: live_def)
  show thesis
    by (rule that [of "fst w" "snd w", OF \<open>eligible s f p\<close> _ _ _ refl])
      (use \<open>\<not> min (clock + 86400) (pr_expires_at p) \<le> clock\<close> room w s2 kept in
        \<open>auto simp: live_def [symmetric] s' insert_session_eq_Inr update_flow_def\<close>, auto simp: live_def)
qed

lemma decide_returned:
  assumes "decide V clock fresh i v p deny s = Inr (s', status)"
  obtains q f code where "authorize clock False p s = Inr (s, q)" "flow_row s i = Some f"
    "f_status f = FlowPending" "clock < f_expires_at f" "f_key_id f = key_id V" "f_user_code f = code"
    "body_get (object_value v) ''user_code'' = JStr code"
    "deny \<and> status = ''denied'' \<and> s' = record_event clock (pr_subject q) ''identity_connection_denied'' i (JObj [])
        (update_flow i (\<lambda>r. r\<lparr>f_status := FlowDenied\<rparr>) s) \<or>
     \<not> deny \<and> approve_flow V clock fresh q f s = Inr (s', status)"
proof -
  from assms obtain body code w f where body: "identity_fields v [''csrf_token'', ''user_code''] [] = Inr body"
    and code: "identity_text (body_get body ''user_code'') 8 = Inr code"
    and w: "authorize clock False p s = Inr w" and f: "get_flow (fst w) i = Inr f"
    and live: "\<not> (f_status f \<noteq> FlowPending \<or> f_expires_at f \<le> clock \<or> f_key_id f \<noteq> key_id V)"
    and same: "compare_digest (f_user_code f) code = Inr True"
    and rest: "(if deny
           then Inr (record_event clock (pr_subject (snd w)) ''identity_connection_denied'' i (JObj [])
                  (update_flow i (\<lambda>r. r\<lparr>f_status := FlowDenied\<rparr>) (fst w)), ''denied'')
           else approve_flow V clock fresh (snd w) f (fst w)) = Inr (s', status)"
    unfolding decide_def and_then_eq_Inr case_prod_beta if_raise_eq_Inr by auto
  obtain q where q: "w = (s, q)" using authorize_reading [of clock p s "fst w" "snd w"] w by (cases w) auto
  have "v = JObj body" using body by (cases v) (auto simp: identity_fields_def split: if_splits)
  moreover have "body_get body ''user_code'' = JStr code"
    using code by (cases "body_get body ''user_code''") (auto simp: identity_text_def split: if_splits)
  moreover have "flow_row s i = Some f" using f q by (auto simp: get_flow_def split: option.splits)
  moreover have "f_user_code f = code" using same by (auto simp: compare_digest_def split: if_splits)
  ultimately show thesis
    by (intro that [of q f code]) (use w q live rest in \<open>auto simp: object_value_def split: if_splits\<close>)
qed

lemma identity_step_bounded:
  assumes "identity_step V s s'" and ok: "identity_bounded s"
  shows "identity_bounded s'"
  using assms(1)
proof (cases rule: identity_step.cases)
  case counted
  with rate_bounded ok show ?thesis by blast
next
  case beaten
  then have "flows s' = flows s \<and> sessions s' = sessions s \<and> rates s' = rates s"
    by (auto simp: identity_device_def and_then_eq_Inr Let_def split: if_splits)
  with ok show ?thesis by (simp add: identity_bounded_def sessions_of_def)
next
  case created
  then show ?thesis
  proof (cases rule: create_flow_tables)
    case (1 f)
    have "\<exists>P g. flows s' = filter P (flows s) @ [g] \<and> length (filter P (flows s)) < 1000 \<and> f_id g \<notin> f_id ` set (filter P (flows s))"
      using 1(1,3,4,5) by blast
    moreover have "\<exists>P. sessions s' = filter P (sessions s)" using 1(6) by blast
    ultimately show ?thesis using 1(7) by (intro identity_bounded_tables [OF ok]) simp_all
  qed
next
  case (decided clock fresh i v p deny status)
  then show ?thesis
  proof (cases rule: decide_returned)
    case (1 q f code)
    from 1(8) show ?thesis
    proof (elim disjE conjE)
      assume s': "s' = record_event clock (pr_subject q) ''identity_connection_denied'' i (JObj [])
        (update_flow i (\<lambda>r. r\<lparr>f_status := FlowDenied\<rparr>) s)"
      then have "flows s' = update_where (\<lambda>r. f_id r = i) (\<lambda>r. r\<lparr>f_status := FlowDenied\<rparr>) (flows s)"
        by (simp add: update_flow_def)
      then have "\<exists>P f. flows s' = update_where P f (flows s) \<and> (\<forall>x. f_id (f x) = f_id x)"
        by (intro exI conjI) (assumption, simp)
      with s' filter_all [of "sessions s"] show ?thesis
        by (intro identity_bounded_tables [OF ok]) (simp_all add: update_flow_def)
    next
      assume "approve_flow V clock fresh q f s = Inr (s', status)"
      then show ?thesis
      proof (cases rule: approve_flow_returned)
        case (1 s1 device r)
        have "\<exists>P f. flows s' = update_where P f (flows s) \<and> (\<forall>x. f_id (f x) = f_id x)"
          by (intro exI conjI) (rule 1(8), simp)
        moreover have "\<exists>P r. sessions s' = filter P (sessions s) @ [r] \<and>
            length (filter (\<lambda>q. s_subject q = s_subject r) (filter P (sessions s))) < 32 \<and>
            s_token_hash r \<notin> s_token_hash ` set (filter P (sessions s))"
          by (rule exI [of _ "\<lambda>r. \<not> s_expires_at r \<le> clock"], rule exI [of _ r])
            (use 1(3,5,6,7) in \<open>auto simp: image_iff\<close>)
        ultimately show ?thesis using 1(9) by (intro identity_bounded_tables [OF ok]) simp_all
      qed
    qed
  qed
next
  case (polled clock i secret acknowledge answer)
  then have "s' = s \<or> s' = update_flow i (\<lambda>r. r\<lparr>f_status := FlowAcknowledged\<rparr>) s"
    by (auto simp: poll_flow_def and_then_eq_Inr split: option.splits if_splits)
  then have "(\<exists>P f. flows s' = update_where P f (flows s) \<and> (\<forall>x. f_id (f x) = f_id x)) \<and> sessions s' = sessions s \<and> rates s' = rates s"
  proof
    assume "s' = s"
    then have "flows s' = update_where (\<lambda>_. False) id (flows s)" by (simp add: update_where_none)
    then show ?thesis using \<open>s' = s\<close> by (metis id_apply)
  next
    assume "s' = update_flow i (\<lambda>r. r\<lparr>f_status := FlowAcknowledged\<rparr>) s"
    then have "flows s' = update_where (\<lambda>r. f_id r = i) (\<lambda>r. r\<lparr>f_status := FlowAcknowledged\<rparr>) (flows s) \<and>
        sessions s' = sessions s \<and> rates s' = rates s" by (simp add: update_flow_def)
    moreover have "\<forall>x. f_id (x\<lparr>f_status := FlowAcknowledged\<rparr>) = f_id x" by simp
    ultimately show ?thesis by blast
  qed
  with filter_all [of "sessions s"] show ?thesis by (intro identity_bounded_tables [OF ok]) simp_all
next
  case (logged_out clock token status)
  then have "sessions s' = filter (\<lambda>r. s_token_hash r \<noteq> token_hash (is_sha V) token) (sessions s) \<and> flows s' = flows s \<and> rates s' = rates s"
    by (auto simp: logout_def Let_def split: if_splits option.splits)
  then show ?thesis using filter_all [of "flows s"] by (intro identity_bounded_tables [OF ok]) auto
next
  case (cleared t)
  then have "flows s' = update_where (\<lambda>f. f_subject f = Some t \<and> f_status f = FlowApproved) (\<lambda>f. f\<lparr>f_status := FlowDenied\<rparr>) (flows s) \<and>
      sessions s' = filter (\<lambda>r. s_subject r \<noteq> t) (sessions s) \<and> rates s' = rates s"
    by (simp add: clear_sessions_def)
  moreover have "\<forall>x. f_id (x\<lparr>f_status := FlowDenied\<rparr>) = f_id x" by simp
  ultimately show ?thesis by (intro identity_bounded_tables [OF ok]) blast+
next
  case elsewhere
  with ok show ?thesis by (simp add: identity_bounded_def sessions_of_def)
qed

lemma identity_steps_bounded: "(identity_step V)\<^sup>*\<^sup>* s s' \<Longrightarrow> identity_bounded s \<Longrightarrow> identity_bounded s'"
  by (induction rule: rtranclp_induct) (auto intro: identity_step_bounded)

end
