(* ===== verification/Sessions.thy ===== *)
theory Sessions
  imports Identity
begin

text \<open>
  What the identity service guarantees: a connection respects the member's device quota, a personal
  token is as good as the live session and the active membership behind it, credentials leave the
  Hub only for an approved flow, and the CSRF token of a page is accepted until its deadline.
\<close>

section \<open>Device quota\<close>

definition owned_active :: "ops \<Rightarrow> string \<Rightarrow> nat" where
  "owned_active s subject = length (filter (\<lambda>d. d_owner d = Some subject \<and> d_active d) (devices s))"

lemma filter_update_one:
  assumes "distinct (map key rows)" and "\<And>r. key (f r) = key r"
  shows "length (filter P (update_where (\<lambda>r. key r = k) f rows)) \<le> Suc (length (filter P rows))"
  using assms(1)
proof (induction rows)
  case (Cons r rows)
  show ?case
  proof (cases "key r = k")
    case True
    with Cons.prems have "update_where (\<lambda>r. key r = k) f rows = rows" by (intro update_where_none) (auto simp: image_iff)
    with True show ?thesis by simp
  next
    case False
    with Cons show ?thesis by simp
  qed
qed simp

lemma filter_update_same:
  "(\<And>r. r \<in> set rows \<Longrightarrow> key r = k \<Longrightarrow> P (f r) = P r) \<Longrightarrow>
   length (filter P (update_where (\<lambda>r. key r = k) f rows)) = length (filter P rows)"
  by (induction rows) auto

lemma eligible_quota:
  assumes "eligible s f p"
  shows "int (owned_active s (pr_subject p)) < pr_device_quota p \<or>
    (\<exists>i d. f_device_id f = Some i \<and> device_row s i = Some d \<and> d_owner d = Some (pr_subject p))"
  using assms
  by (auto simp: eligible_def eligibility_block_reason_def Let_def owned_active_def not_le split: option.splits if_splits)

lemma eligible_tables:
  assumes "devices s' = devices s" and "members s' = members s"
  shows "eligible s' f p = eligible s f p"
proof -
  have owner: "active_owner s' = active_owner s" by (rule ext) (simp add: active_owner_def assms)
  have "device_row s' = device_row s" "device_authorized s' = device_authorized s"
    unfolding fun_eq_iff device_row_def device_authorized_def assms owner by simp_all
  then show ?thesis by (simp only: eligible_def eligibility_block_reason_def assms)
qed

lemma connect_device_quota:
  assumes "connect_device V clock fresh p f s = Inr (s', i)" and keyed: "devices_keyed s" and ok: "eligible s f p"
  shows "int (owned_active s' (pr_subject p)) \<le> max (int (owned_active s (pr_subject p))) (pr_device_quota p)"
proof (cases "f_device_id f")
  case None
  then have "owned_active s' (pr_subject p) = Suc (owned_active s (pr_subject p))"
    using assms(1) by (auto simp: connect_device_def insert_device_def and_then_eq_Inr Let_def owned_active_def split: if_splits)
  moreover have "int (owned_active s (pr_subject p)) < pr_device_quota p" using eligible_quota [OF ok] None by auto
  ultimately show ?thesis by simp
next
  case (Some j)
  let ?f = "\<lambda>d. d\<lparr>d_owner := Some (pr_subject p),
     d_name := (case d_name d of None \<Rightarrow> Some (f_device_name f) | Some n \<Rightarrow> Some n)\<rparr>"
  let ?P = "\<lambda>d. d_owner d = Some (pr_subject p) \<and> d_active d"
  have rows: "devices s' = update_where (\<lambda>d. d_id d = j) ?f (devices s)"
    using assms(1) Some by (auto simp: connect_device_def)
  have ids: "distinct (map d_id (devices s))" using keyed by (simp add: devices_keyed_def)
  from eligible_quota [OF ok] show ?thesis
  proof
    assume "int (owned_active s (pr_subject p)) < pr_device_quota p"
    moreover have "owned_active s' (pr_subject p) \<le> Suc (owned_active s (pr_subject p))"
      unfolding owned_active_def rows by (rule filter_update_one [OF ids]) simp
    ultimately show ?thesis by simp
  next
    assume "\<exists>i d. f_device_id f = Some i \<and> device_row s i = Some d \<and> d_owner d = Some (pr_subject p)"
    then obtain d where d: "device_row s j = Some d" "d_owner d = Some (pr_subject p)" using Some by auto
    have "d_owner r = Some (pr_subject p)" if "r \<in> set (devices s)" "d_id r = j" for r
      using find_key_unique [OF ids d(1) [unfolded device_row_def] that] d(2) by simp
    then have "owned_active s' (pr_subject p) = owned_active s (pr_subject p)"
      unfolding owned_active_def rows by (intro filter_update_same) auto
    then show ?thesis by simp
  qed
qed

lemma decide_quota:
  assumes "decide V clock fresh i v p deny s = Inr (s', status)" and keyed: "devices_keyed s"
  shows "\<exists>m. member_of s (pr_subject p) = Some m \<and> m_status m = Active \<and>
     int (owned_active s' (pr_subject p)) \<le> max (int (owned_active s (pr_subject p))) (m_device_quota m)"
  using assms(1)
proof (cases rule: decide_returned)
  case (1 q f code)
  from 1(1) obtain m where m: "member_of s (pr_subject p) = Some m" "m_status m = Active" "q = member_principal s p m"
    by (rule authorize_returned) auto
  from 1(8) have "int (owned_active s' (pr_subject p)) \<le> max (int (owned_active s (pr_subject p))) (m_device_quota m)"
  proof (elim disjE conjE)
    assume "s' = record_event clock (pr_subject q) ''identity_connection_denied'' i (JObj [])
        (update_flow i (\<lambda>r. r\<lparr>f_status := FlowDenied\<rparr>) s)"
    then show ?thesis by (simp add: owned_active_def update_flow_def)
  next
    assume "approve_flow V clock fresh q f s = Inr (s', status)"
    then show ?thesis
    proof (cases rule: approve_flow_returned)
      case (1 s1 device r)
      let ?live = "s\<lparr>sessions := filter (\<lambda>r. \<not> s_expires_at r \<le> clock) (sessions s)\<rparr>"
      have "devices_keyed ?live" using keyed by (simp add: devices_keyed_def)
      moreover have "eligible ?live f q" using 1(1) eligible_tables [of ?live s] by simp
      ultimately show ?thesis using connect_device_quota [OF 1(4)] 1(10) m(3)
        by (simp add: owned_active_def)
    qed
  qed
  with m show ?thesis by blast
qed

section \<open>Personal tokens and polls\<close>

lemma personal_returned:
  assumes "personal V clock token s = Inr (s', q)"
  obtains r where "s' = s" "is_access V" "personal_shape token" "r \<in> set (sessions s)"
    "s_token_hash r = token_hash (is_sha V) token" "clock < s_expires_at r" "pr_expires_at q = s_expires_at r"
    "active_owner s (pr_subject q)"
proof -
  from assms obtain r u p where access: "is_access V" and shape: "personal_shape token"
    and user: "session_user V clock token s = Some (r, u)"
    and auth: "authorize clock False (p\<lparr>pr_expires_at := s_expires_at r\<rparr>) s = Inr (s', q)"
    unfolding personal_def by (auto simp: and_then_eq_Inr required_access_def split: if_splits option.splits)
  from user have "find (\<lambda>r. s_token_hash r = token_hash (is_sha V) token \<and> clock < s_expires_at r) (sessions s) = Some r"
    by (auto simp: session_user_def split: option.splits)
  then have r: "r \<in> set (sessions s)" "s_token_hash r = token_hash (is_sha V) token" "clock < s_expires_at r"
    by (auto simp: find_Some_iff)
  have "pr_expires_at q = s_expires_at r" using auth by (rule authorize_returned) simp
  moreover have "s' = s" "active_owner s (pr_subject q)"
    using authorize_reading [OF auth] authorize_owner [OF auth] by simp_all
  ultimately show thesis using that access shape r by blast
qed

lemma poll_granted:
  assumes "poll V clock later i v acknowledge s = (s', Inr (Inr g))"
  obtains f r where "s' = s" "\<not> acknowledge" "flow_row s i = Some f" "f_status f = FlowApproved" "clock < f_expires_at f"
    "client_hash (is_sha V) (body_get (object_value v) ''client_secret'') = Inr (f_client_hash f)"
    "f_key_id f = key_id V" "gr_session_token g = flow_token V ''personal'' f"
    "r \<in> set (sessions s)" "s_token_hash r = token_hash (is_sha V) (gr_session_token g)" "later < s_expires_at r"
    "active_owner s (pr_subject (gr_principal g))" "device_secret V s f = Inr (gr_device_token g)"
    "gr_device_id g = f_device_id f"
proof -
  from assms obtain body h where body: "identity_fields v [''client_secret''] [] = Inr body"
    and h: "client_hash (is_sha V) (body_get body ''client_secret'') = Inr h"
    by (auto simp: poll_def and_then_def split: sum.splits)
  have step: "(case committed (poll_flow V clock i h acknowledge) s of
             (s1, Inl e) \<Rightarrow> (s1, Inl e)
           | (s1, Inr (PollStatus status)) \<Rightarrow> (s1, Inr (Inl status))
           | (s1, Inr (PollGrant f token secret)) \<Rightarrow>
               (case committed (personal V later token) s1 of
                  (s2, Inl e) \<Rightarrow> (s2, Inl e)
                | (s2, Inr p) \<Rightarrow>
                    (s2, Inr (Inr
                      \<lparr>gr_session_token = token,
                       gr_expires_at = JStr (is_stamp V (case f_session_expires_at f of None \<Rightarrow> later | Some t \<Rightarrow> t)),
                       gr_principal = p, gr_device_id = f_device_id f, gr_device_name = f_device_name f,
                       gr_device_token = secret\<rparr>)))) = (s', Inr (Inr g))"
    using assms unfolding poll_def by (simp add: body h)
  then obtain s1 f token secret where flow: "poll_flow V clock i h acknowledge s = Inr (s1, PollGrant f token secret)"
    by (auto simp: committed_def split: sum.splits prod.splits poll_answer.splits)
  with step obtain s2 p where per: "personal V later token s1 = Inr (s2, p)" "s' = s2"
    "gr_session_token g = token" "gr_principal g = p" "gr_device_id g = f_device_id f" "gr_device_token g = secret"
    by (auto simp: committed_def split: sum.splits prod.splits)
  from flow have f: "flow_row s i = Some f" "s1 = s" "\<not> acknowledge" "f_status f = FlowApproved" "clock < f_expires_at f"
    "f_client_hash f = h" "f_key_id f = key_id V" "token = flow_token V ''personal'' f" "device_secret V s f = Inr secret"
    by (auto simp: poll_flow_def and_then_eq_Inr compare_digest_def split: option.splits if_splits)
  have "v = JObj body" using body by (cases v) (auto simp: identity_fields_def split: if_splits)
  from per(1) show thesis
    by (rule personal_returned) (rule that [of f], use per f h \<open>v = JObj body\<close> in \<open>auto simp: object_value_def\<close>)
qed

text \<open>A device token that is handed out authenticates, while the owner is an active member.\<close>

lemma device_secret_authenticates:
  assumes "device_secret V s f = Inr (Some token)" and keyed: "devices_keyed s"
    and "\<And>d t. d \<in> set (devices s) \<Longrightarrow> f_device_id f = Some (d_id d) \<Longrightarrow> d_owner d = Some t \<Longrightarrow> active_owner s t"
  shows "\<exists>d. authenticated_device (is_sha V) s token = Inr d \<and> f_device_id f = Some (d_id d)"
proof -
  from assms(1) obtain i d where d: "f_device_id f = Some i" "device_row s i = Some d" "d_active d"
    "d_token_hash d = token_hash (is_sha V) token"
    by (auto simp: device_secret_def Let_def split: if_splits option.splits)
  then have row: "d \<in> set (devices s)" "d_id d = i" using find_key_Some unfolding device_row_def by fast+
  with d assms(3) [of d] have "authenticated_device (is_sha V) s token = Inr d"
    by (auto simp: authenticated_device_eq_Inr [OF keyed] split: option.splits)
  with d row show ?thesis by auto
qed

section \<open>The CSRF token\<close>

lemma split_on_none: "c \<notin> set a \<Longrightarrow> split_on c a = [a]"
  by (induction a) auto

lemma split_on_at: "c \<notin> set a \<Longrightarrow> split_on c (a @ c # b) = a # split_on c b"
  by (induction a) auto

lemma strip_id: "t \<noteq> [] \<Longrightarrow> \<not> is_blank_char (hd t) \<Longrightarrow> \<not> is_blank_char (last t) \<Longrightarrow> strip t = t"
proof -
  assume t: "t \<noteq> []" "\<not> is_blank_char (hd t)" "\<not> is_blank_char (last t)"
  then have "dropWhile is_blank_char t = t" by (cases t) auto
  moreover have "dropWhile is_blank_char (rev t) = rev t" using t by (cases t rule: rev_cases) auto
  ultimately show ?thesis by (simp add: strip_def)
qed

lemma digit_facts: "is_digit c \<Longrightarrow> \<not> is_blank_char c \<and> 32 \<le> (of_char c :: nat) \<and> c \<noteq> CHR ''.'' \<and> c \<noteq> CHR ''_'' \<and> c \<noteq> CHR ''-'' \<and> c \<noteq> CHR ''+''"
  by (auto simp: is_digit_def is_blank_char_def Let_def)

lemma show_nat_length: "0 < k \<Longrightarrow> n < 10 ^ k \<Longrightarrow> length (show_nat n) \<le> k"
proof (induction k arbitrary: n)
  case (Suc k)
  show ?case
  proof (cases "n < 10")
    case True
    then show ?thesis by (simp add: show_nat_small)
  next
    case False
    with Suc.prems have "0 < k" by (cases k) simp_all
    moreover have "n div 10 < 10 ^ k" using Suc.prems by (simp add: less_mult_imp_div_less mult.commute)
    ultimately have "length (show_nat (n div 10)) \<le> k" by (rule Suc.IH)
    with False show ?thesis by (simp add: show_nat.simps [of n])
  qed
qed simp

lemma show_nat_nonempty: "show_nat n \<noteq> []"
  by (subst show_nat.simps) simp

lemma show_nat_digit: "c \<in> set (show_nat n) \<Longrightarrow> is_digit c"
  using show_nat_digits [of n] by (simp add: list_all_iff)

lemma show_nat_sep: "CHR ''.'' \<notin> set (show_nat n)" "CHR ''_'' \<notin> set (show_nat n)"
  using show_nat_digit digit_facts by blast+

lemma py_int_show: "0 \<le> n \<Longrightarrow> py_int (show_int n) = Some n"
proof -
  assume n: "0 \<le> n"
  let ?t = "show_nat (nat n)"
  have "?t \<noteq> []" "is_digit (hd ?t)" "is_digit (last ?t)" 
    by (simp_all add: show_nat_nonempty show_nat_digit [of _ "nat n"])
  then have strip: "strip ?t = ?t" using digit_facts by (intro strip_id) auto
  have sign: "hd ?t \<noteq> CHR ''-''" "hd ?t \<noteq> CHR ''+''" using digit_facts [OF \<open>is_digit (hd ?t)\<close>] by simp_all
  have "(case ?t of c # cs \<Rightarrow> if c = CHR ''-'' \<or> c = CHR ''+'' then cs else ?t | [] \<Rightarrow> []) = ?t"
    using \<open>?t \<noteq> []\<close> sign by (cases ?t) auto
  then show ?thesis
    using n strip sign \<open>?t \<noteq> []\<close> show_nat_digits [of "nat n"]
    by (simp add: py_int_def show_int_def Let_def split_on_none [OF show_nat_sep(2)] digits_value_show_nat)
qed

text \<open>\<open>hmac.hexdigest()\<close> of SHA-256.\<close>

definition hex_macs :: "identity_service \<Rightarrow> bool" where
  "hex_macs V \<longleftrightarrow> (\<forall>t. length (is_hmac V t) = 64 \<and> lower_hex (is_hmac V t))"

definition csrf_deadline :: "real \<Rightarrow> principal \<Rightarrow> int" where
  "csrf_deadline clock p = \<lfloor>min (clock + 600) (pr_expires_at p)\<rfloor>"

lemma csrf_ok_iff:
  assumes macs: "hex_macs V" and time: "0 \<le> clock" "clock + 600 \<le> 10 ^ 30" "0 \<le> pr_expires_at p"
  shows "csrf_ok V later p (JStr (csrf_token V clock p)) \<longleftrightarrow> later < of_int (csrf_deadline clock p)"
proof -
  let ?n = "csrf_deadline clock p"
  let ?d = "show_int ?n" let ?m = "csrf_mac V p ?d"
  have n: "0 \<le> ?n" "of_int ?n \<le> pr_expires_at p" "of_int ?n \<le> clock + 600"
    using time unfolding csrf_deadline_def by (simp, linarith, linarith)
  have token: "csrf_token V clock p = ?d @ CHR ''.'' # ?m"
    using time by (simp add: csrf_token_def int_of_float_def csrf_deadline_def Let_def)
  have d: "?d = show_nat (nat ?n)" using n(1) by (simp add: show_int_def)
  have m: "length ?m = 64" "lower_hex ?m" using macs by (simp_all add: hex_macs_def csrf_mac_def mac_def)
  then have hex: "c \<in> set ''0123456789abcdef''" if "c \<in> set ?m" for c using that by (simp add: lower_hex_def list_all_iff)
  then have dotless: "CHR ''.'' \<notin> set ?m" by fastforce
  have "of_int ?n \<le> (10 ^ 30 :: real)" using n(3) time(2) by simp
  then have "?n \<le> 10 ^ 30" by (metis of_int_le_iff of_int_numeral of_int_power)
  then have "nat ?n < 10 ^ 31" by (simp add: nat_less_iff)
  then have "length ?d \<le> 31" unfolding d by (intro show_nat_length) simp_all
  moreover have "list_all (\<lambda>c. 32 \<le> (of_char c :: nat)) (csrf_token V clock p)"
    using show_nat_digit digit_facts hex by (fastforce simp: token d list_all_iff)
  moreover have "strip (csrf_token V clock p) = csrf_token V clock p"
  proof (rule strip_id)
    have "?m \<noteq> []" using m(1) by auto
    then have "last ?m \<in> set ?m" by simp
    then have "last ?m \<in> set ''0123456789abcdef''" by (rule hex)
    then show "\<not> is_blank_char (last (csrf_token V clock p))"
      using \<open>?m \<noteq> []\<close> by (auto simp: token is_blank_char_def)
    show "\<not> is_blank_char (hd (csrf_token V clock p))"
      using show_nat_digit [of "hd ?d" "nat ?n"] show_nat_nonempty digit_facts by (simp add: token d)
  qed (simp add: token)
  ultimately have shape: "identity_text (JStr (csrf_token V clock p)) 100 = Inr (csrf_token V clock p)"
    using m(1) by (simp add: identity_text_def token list_ex_iff list_all_iff not_less)
  have parts: "split_on CHR ''.'' (csrf_token V clock p) = [?d, ?m]"
    unfolding token using split_on_at [of "CHR ''.''" ?d ?m] split_on_none [OF dotless] show_nat_sep(1) by (simp add: d)
  have "ascii_text ?m" using hex by (fastforce simp: ascii_text_def list_all_iff)
  with shape parts py_int_show [OF n(1)] n(2) show ?thesis
    by (simp add: csrf_ok_def compare_digest_def)
qed

end
