(* ===== verification/MemberClaims.thy ===== *)
theory MemberClaims
  imports Samples Campaigns Sessions
begin

text \<open>
  The properties of membership, of the identity service and of campaigns, with witnesses on a project
  of one administrator and one member.
\<close>

section \<open>A sample project\<close>

definition sample_admin :: member where
  "sample_admin = \<lparr>m_id = ''m1'', m_email = ''a@b'', m_issuer = ''iss'', m_access_subject = Some ''sub1'', m_subject = Some ''s1'',
     m_role = Admin, m_status = Active, m_enroll_devices = True, m_device_quota = 3, m_created_at = 0, m_updated_at = 0\<rparr>"

definition sample_member :: member where
  "sample_member = \<lparr>m_id = ''m2'', m_email = ''c@d'', m_issuer = ''iss'', m_access_subject = Some ''sub2'', m_subject = Some ''s2'',
     m_role = Member, m_status = Active, m_enroll_devices = True, m_device_quota = 1, m_created_at = 0, m_updated_at = 0\<rparr>"

definition sample_device :: device where
  "sample_device = \<lparr>d_id = ''d1'', d_token_hash = ''h1'', d_active = True, d_name = None, d_owner = Some ''s2'', d_last_seen = None\<rparr>"

definition sample_session :: session_row where
  "sample_session = \<lparr>s_token_hash = ''t1'', s_subject = ''s2'', s_expires_at = 900, s_created_at = 0\<rparr>"

definition sample_project :: ops where
  "sample_project = new_operations\<lparr>settings := [''paused'' \<mapsto> ''0'', ''membership_initialized'' \<mapsto> ''1''],
     members := [sample_admin, sample_member], devices := [sample_device], sessions := [sample_session]\<rparr>"

definition admin_principal :: principal where
  "admin_principal = (new_principal ''authenticated'' [])\<lparr>pr_subject := ''s1'', pr_issuer := ''iss'', pr_access_subject := ''sub1'',
     pr_email := ''a@b'', pr_expires_at := 1000, pr_session_binding := ''b''\<rparr>"

definition member_identity :: principal where
  "member_identity = (new_principal ''authenticated'' [])\<lparr>pr_subject := ''s2'', pr_issuer := ''iss'', pr_access_subject := ''sub2'',
     pr_email := ''c@d'', pr_expires_at := 1000, pr_session_binding := ''b''\<rparr>"

definition plain_stamp :: "real \<Rightarrow> string" where
  "plain_stamp t = ''time''"

abbreviation demotion :: "(ops, (string \<times> json) list) tx" where
  "demotion \<equiv> update_member plain_stamp 5 admin_principal ''m1'' (JObj [(''role'', JStr ''member'')])"

abbreviation dismissal :: "(ops, (string \<times> json) list) tx" where
  "dismissal \<equiv> update_member plain_stamp 5 admin_principal ''m2'' (JObj [(''status'', JStr ''disabled'')])"

definition project_after :: ops where
  "project_after = fst (committed dismissal sample_project)"

lemma project_ok: "members_ok sample_project" "governed sample_project"
  by (auto simp: members_ok_def governed_def subjects_unique_def state_ok_def sample_project_def sample_admin_def
      sample_member_def new_operations_def active_admin_def)

lemma dismissal_ran:
  "map_sum (\<lambda>e. ()) (\<lambda>p. map_option m_status (member_row (fst p) ''m2'')) (dismissal sample_project) = Inr (Some Disabled)"
  by code_simp

lemma dismissal_value: "\<exists>v m. dismissal sample_project = Inr (project_after, v) \<and> member_row project_after ''m2'' = Some m \<and> m_status m = Disabled"
proof -
  from committed_view [where t = dismissal and s = sample_project, folded project_after_def, OF dismissal_ran]
  obtain v where "dismissal sample_project = Inr (project_after, v)" "map_option m_status (member_row project_after ''m2'') = Some Disabled"
    by auto
  then show ?thesis by auto
qed

section \<open>Membership\<close>

text \<open>Claim C12. A project never loses its last administrator: from any database with consistent members
and an active administrator, after any history of sign-ins, invitations, changes of role or status,
revocations and other transactions, there is an active administrator, and ids, addresses and subjects
of the members are still unique, an active member still has a subject and an invited one has none.\<close>

theorem administrator_remains:
  assumes "(member_step sha)\<^sup>*\<^sup>* s s'" and "members_ok s" and "governed s"
  shows "members_ok s' \<and> (\<exists>m \<in> set (members s'). m_role m = Admin \<and> m_status m = Active)"
  using member_steps_governed [OF assms(1,2)] assms(3) by (auto simp: governed_def list_ex_iff active_admin_def)

theorem administrator_remains_witness:
  "list_ex (\<lambda>m. m_role m = Admin \<and> m_status m = Active) (members (fst (committed demotion sample_project)))"
proof -
  have "(member_step sample_sha)\<^sup>*\<^sup>* sample_project (fst (committed demotion sample_project))"
    by (rule committed_cases [of demotion sample_project]) (auto intro: member_step.updated)
  from administrator_remains [OF this project_ok] show ?thesis by (auto simp: list_ex_iff)
qed

text \<open>Claim C15. A disabled member is cut off at once: after an update that leaves a member with a subject
disabled, no session of that subject is left, every device it owns is inactive, none of its approved
connections can still be polled for credentials, and it counts as no active owner, so that no token of
its devices authenticates.\<close>

theorem disabled_member_cut_off:
  assumes "update_member stamp clock p i raw s = Inr (s', v)" and "member_row s i = Some m"
    and "m_subject m = Some t" and "t \<noteq> []" and "member_row s' i = Some m'" and "m_status m' = Disabled"
    and "members_ok s"
  shows "(\<forall>r \<in> set (sessions s'). s_subject r \<noteq> t) \<and> (\<forall>d \<in> set (devices s'). d_owner d = Some t \<longrightarrow> \<not> d_active d) \<and>
    (\<forall>f \<in> set (flows s'). f_subject f = Some t \<longrightarrow> f_status f \<noteq> FlowApproved) \<and> \<not> active_owner s' t"
  using disabled_cut_off [OF assms] by blast

theorem disabled_member_cut_off_witness:
  "\<not> active_owner project_after ''s2'' \<and> filter (\<lambda>r. s_subject r = ''s2'') (sessions project_after) = []"
proof -
  obtain v m where ran: "dismissal sample_project = Inr (project_after, v)" "member_row project_after ''m2'' = Some m" "m_status m = Disabled"
    using dismissal_value by blast
  have "member_row sample_project ''m2'' = Some sample_member" "m_subject sample_member = Some ''s2''" "''s2'' \<noteq> []"
    by (simp_all add: member_row_def sample_project_def sample_admin_def sample_member_def)
  from disabled_member_cut_off [OF ran(1) this ran(2,3) project_ok(1)] show ?thesis by (auto simp: filter_empty_conv)
qed

text \<open>Claim C16. Access is membership: authorize succeeds only for an active member whose recorded issuer,
access subject and subject are those of the verified identity, and the role it returns is that member's.
Without the activation of an invitation it changes nothing; with it, the only change to the members
is that one invited row, of the same issuer and without a subject, becomes that member.\<close>

theorem access_is_membership:
  assumes "authorize clock activate p s = Inr (s', q)"
  shows "\<exists>m \<in> set (members s'). m_status m = Active \<and> m_subject m = Some (pr_subject p) \<and> m_issuer m = pr_issuer p \<and>
    m_access_subject m = Some (pr_access_subject p) \<and> pr_role q = role_text (m_role m) \<and> pr_subject q = pr_subject p \<and>
    (s' = s \<or> activate \<and> (\<exists>n \<in> set (members s). m_status n = Invited \<and> m_subject n = None \<and> m_issuer n = pr_issuer p \<and>
       members s' = map (\<lambda>k. if m_id k = m_id n then activated clock p k else k) (members s)))"
  using assms
proof (cases rule: authorize_returned)
  case (1 m)
  from 1(8) have "s' = s \<or> activate \<and> (\<exists>n \<in> set (members s). m_status n = Invited \<and> m_subject n = None \<and> m_issuer n = pr_issuer p \<and>
       members s' = map (\<lambda>k. if m_id k = m_id n then activated clock p k else k) (members s))"
    by (auto dest!: take_invitation_returned simp: update_where_def)
  with 1 show ?thesis by (intro bexI [of _ m]) simp_all
qed

theorem access_is_membership_witness: "\<exists>q. authorize 5 False member_identity sample_project = Inr (sample_project, q) \<and> pr_role q = ''member''"
proof -
  have "\<not> isl (authorize 5 False member_identity sample_project)" by code_simp
  then obtain s' q where ran: "authorize 5 False member_identity sample_project = Inr (s', q)"
    by (cases "authorize 5 False member_identity sample_project") auto
  from access_is_membership [OF ran] have "s' = sample_project" "pr_role q = ''member''"
    by (auto simp: sample_project_def sample_admin_def sample_member_def member_identity_def role_text_def)
  with ran show ?thesis by blast
qed

text \<open>Claim C32. A browser token proves an identity and nothing more, and its failures say nothing: whatever
goes wrong in a token, its header, its claims, its signature or the key download, the caller sees the one
error unauthorized; when nothing does, the principal has no project role and no device, its subject is the
stable hash of the configured issuer and of the subject claim that the signature check returned.\<close>

theorem access_token_opaque:
  assumes "access_authenticate sha E now token V = (V', r)"
  shows "(case r of Inl e \<Rightarrow> e = BoundaryError ''console'' ''unauthorized''
    | Inr p \<Rightarrow> \<not> project_shared p \<and> pr_issuer p = av_issuer V \<and>
        pr_subject p = stable_subject sha (av_issuer V) (pr_access_subject p) \<and>
        (\<exists>key c. ae_decode E token key (av_issuer V) (av_audience V) = Inr c \<and> cl_sub c = JStr (pr_access_subject p)))"
proof (cases r)
  case (Inl e)
  then show ?thesis
    using assms by (auto simp: access_authenticate_def Let_def split: if_splits sum.splits option.splits json.splits prod.splits)
next
  case (Inr p)
  from access_authenticate_returned [OF assms [unfolded Inr]] show ?thesis using Inr by (auto simp: project_shared_def)
qed

definition sample_access :: "string access_env" where
  "sample_access = \<lparr>ae_header = (\<lambda>t. Inr [(''alg'', JStr ''RS256''), (''kid'', JStr ''k'')]),
     ae_fetch = Inr [\<lparr>jk_id = Some ''k'', jk_type = ''RSA'', jk_use = None, jk_key = ''key''\<rparr>],
     ae_decode = (\<lambda>t k i a. Inr \<lparr>cl_type = JStr ''app'', cl_email = JStr ''c@d'', cl_sub = JStr ''sub2'', cl_exp = Inr 1000\<rparr>)\<rparr>"

definition sample_verifier :: "string verifier" where
  "sample_verifier = \<lparr>av_issuer = ''iss'', av_audience = ''aud'', av_keys = [], av_refresh_at = 0\<rparr>"

theorem access_token_opaque_witness:
  "\<exists>V' p. access_authenticate sample_sha sample_access 5 ''token'' sample_verifier = (V', Inr p) \<and> \<not> project_shared p"
proof -
  obtain V' r where ran: "access_authenticate sample_sha sample_access 5 ''token'' sample_verifier = (V', r)" by fastforce
  have "\<not> isl (snd (access_authenticate sample_sha sample_access 5 ''token'' sample_verifier))" by code_simp
  then obtain p where p: "r = Inr p" using ran by (cases r) auto
  from access_token_opaque [OF ran] p ran show ?thesis by auto
qed

end
