(* ===== verification/ServiceClaims.thy ===== *)
theory ServiceClaims
  imports MemberClaims
begin

text \<open>
  The properties of campaigns, of device connections and of the upload queue, and the round trip of
  the compute documents, with witnesses that run the operations on small databases.
\<close>

lemma returned_view:
  assumes "map_sum (\<lambda>e. ()) (\<lambda>p. g (fst p)) (t s) = Inr y"
  obtains s' x where "t s = Inr (s', x)" and "g s' = y"
  using assms by (cases "t s") auto

section \<open>Campaigns under the project's authority\<close>

text \<open>A history of the campaign tables, each step authorized by the members of its own time.\<close>

inductive hub_campaign_step :: "stdlib \<Rightarrow> ops \<Rightarrow> ops \<Rightarrow> bool" for L where
  moved: "campaign_step L (authorize clock False) (admin clock) s s' \<Longrightarrow> hub_campaign_step L s s'"

lemma hub_campaign_steps_ok: "(hub_campaign_step L)\<^sup>*\<^sup>* s s' \<Longrightarrow> campaigns_ok L s \<Longrightarrow> campaigns_ok L s'"
  by (induction rule: rtranclp_induct) (auto elim!: hub_campaign_step.cases intro: hub_members.campaign_step_ok)

lemma hub_campaign_steps_append:
  "(hub_campaign_step L)\<^sup>*\<^sup>* s s' \<Longrightarrow>
   (\<exists>xs. activities s' = activities s @ xs) \<and> (\<exists>ys. enrollments s' = enrollments s @ ys)"
proof (induction rule: rtranclp_induct)
  case (step t u)
  from step.hyps(2) obtain clock where "campaign_step L (authorize clock False) (admin clock) t u" by cases
  from hub_members.campaign_step_appends [OF this] step.IH show ?case by force
qed simp

definition sample_template :: "(string \<times> json) list" where
  "sample_template = [(''activity_id'', JStr ''a''), (''allowed_upload_hosts'', JList [JStr ''h'']),
     (''consent_text'', JStr ''c''), (''description'', JStr ''d''), (''name'', JStr ''n''),
     (''schema'', JStr collection_settings_schema), (''sharing_scope'', JStr ''project_members''), (''version'', JInt 1)]"

abbreviation publication :: "(ops, string \<times> json) tx" where
  "publication \<equiv> create_activity sample_lib (admin 5) 5 admin_principal (JObj sample_template)"

definition published_project :: ops where
  "published_project = fst (committed publication sample_project)"

lemma sample_template_valid: "validate_template (float_text sample_lib) (JObj sample_template) = Inr sample_template"
  by code_simp

lemma publication_ran:
  "map_sum (\<lambda>e. ()) (\<lambda>p. map ac_version (activities (fst p))) (publication sample_project) = Inr [1]"
  by code_simp

text \<open>The versions of an activity are consecutive and its template is its identity: after any
history of publications, recommendations, enrollments and other transactions, the stored versions of every
activity name are 1, 2, up to the latest, each row is identified by the hash of the canonical text of its
template and carries the name and version that template states, and a member has at most one enrollment
per template and device, with every consent given. Rows are only ever added.\<close>

theorem activity_versions_consecutive:
  assumes "(hub_campaign_step L)\<^sup>*\<^sup>* s s'" and "campaigns_ok L s"
  shows "(\<forall>name. versions_of s' name = [1..latest_version s' name]) \<and>
    (\<forall>a \<in> set (activities s'). activity_ok L a) \<and> distinct (map ac_id (activities s')) \<and>
    distinct (map (\<lambda>e. (en_template_id e, en_device_id e, en_subject e)) (enrollments s')) \<and>
    (\<forall>e \<in> set (enrollments s'). consent_given (en_consent e)) \<and>
    (\<exists>xs ys. activities s' = activities s @ xs \<and> enrollments s' = enrollments s @ ys)"
  using hub_campaign_steps_ok [OF assms] hub_campaign_steps_append [OF assms(1)] by (simp add: campaigns_ok_def)

theorem activity_versions_consecutive_witness:
  "distinct (map ac_id (activities published_project)) \<and> activities published_project \<noteq> []"
proof -
  obtain r where ran: "publication sample_project = Inr (published_project, r)"
    and rows: "map ac_version (activities published_project) = [1]"
    using committed_view [where t = publication and s = sample_project, folded published_project_def, OF publication_ran]
    by auto
  have "(hub_campaign_step sample_lib)\<^sup>*\<^sup>* sample_project published_project"
    using ran by (auto intro: hub_campaign_step.intros campaign_step.intros)
  moreover have "campaigns_ok sample_lib sample_project"
    using new_campaigns_ok [of sample_lib] by (simp add: campaigns_ok_def versions_of_def latest_version_def sample_project_def)
  ultimately show ?thesis using activity_versions_consecutive rows by auto
qed

text \<open>A validated template is canonical: when \<open>validate\_template\<close> accepts a strict document it
returns exactly that document with sorted keys, and validating its result again returns it unchanged.\<close>

theorem template_canonical:
  assumes "validate_template fr v = Inr t" and "strict_json v"
  shows "JObj t = sort_keys v \<and> validate_template fr (JObj t) = Inr t"
  using assms by (rule validate_template_canonical)

theorem template_canonical_witness: "JObj sample_template = sort_keys (JObj sample_template)"
  using template_canonical [OF sample_template_valid] by (simp add: sample_template_def)

text \<open>Only an active member enrolls, and only a device of its own: a successful enrollment names an
active device owned by the signed-in member and a stored activity; it returns the enrollment that was there, or
appends one row for that template, device and member with every consent given, and nothing to the activities.\<close>

theorem enrollment_by_owner:
  assumes "enroll (authorize clock False) clock' fresh p template_id device consent s = Inr (s', r)"
  shows "active_owner s (pr_subject p) \<and>
    (\<exists>d. device_row s device = Some d \<and> d_active d \<and> d_owner d = Some (pr_subject p)) \<and>
    (\<exists>row. activity_row s template_id = Some row) \<and> activities s' = activities s \<and>
    (enrollments s' = enrollments s \<or>
     (\<exists>e. enrollment_row s template_id device (pr_subject p) = None \<and> enrollments s' = enrollments s @ [e] \<and>
        en_template_id e = template_id \<and> en_device_id e = device \<and> en_subject e = pr_subject p \<and>
        consent_given (en_consent e)))"
  using assms by (rule hub_members.enroll_cases) auto

definition sample_activity :: activity where
  "sample_activity = \<lparr>ac_id = sample_input, ac_activity_id = ''a'', ac_version = 1, ac_template = JObj sample_template,
     ac_created_at = 0, ac_created_by = ''s1''\<rparr>"

definition campaign_project :: ops where
  "campaign_project = sample_project\<lparr>activities := [sample_activity]\<rparr>"

abbreviation enrolling :: "(ops, enrollment_reply) tx" where
  "enrolling \<equiv> enroll (authorize 5 False) 5 ''e1'' member_identity sample_input ''d1''
     (JObj (map (\<lambda>key. (key, JBool True)) consent_fields))"

lemma enrolling_ran:
  "map_sum (\<lambda>e. ()) (\<lambda>p. map en_id (enrollments (fst p))) (enrolling campaign_project) = Inr [''e1'']"
  by code_simp

theorem enrollment_by_owner_witness:
  "active_owner campaign_project ''s2'' \<and>
   (\<exists>s' r. enrolling campaign_project = Inr (s', r) \<and> map en_device_id (enrollments s') = [''d1''])"
proof -
  obtain s' r where ran: "enrolling campaign_project = Inr (s', r)" and one: "map en_id (enrollments s') = [''e1'']"
    using returned_view [where t = enrolling and s = campaign_project, OF enrolling_ran] by blast
  have none: "enrollments campaign_project = []" by (simp add: campaign_project_def sample_project_def new_operations_def)
  have "map en_device_id (enrollments s') = [''d1'']" using enrollment_by_owner [OF ran] one none by auto
  moreover have "active_owner campaign_project ''s2''"
    using enrollment_by_owner [OF ran] by (simp add: member_identity_def)
  ultimately show ?thesis using ran by (intro conjI exI)
qed

end
