(* ===== verification/SessionClaims.thy ===== *)
theory SessionClaims
  imports MemberClaims Contracts
begin

text \<open>
  The properties of device connections and personal sessions, of the upload queue, and the round trip
  of the compute documents, with witnesses that run the operations on small databases.
\<close>

section \<open>Device connections\<close>

definition sample_service :: identity_service where
  "sample_service = \<lparr>is_access = True, is_sha = sample_sha, is_hmac = sample_sha, is_origin = ''https://h'',
     is_stamp = plain_stamp, is_parse_query = (\<lambda>t. Inr []), is_urlencode = (\<lambda>kvs. [])\<rparr>"

definition client_secret :: string where
  "client_secret = replicate 32 CHR ''k''"

definition sample_flow :: flow where
  "sample_flow = \<lparr>f_id = ''f1'', f_client_hash = sample_sha client_secret, f_device_name = ''pc'', f_device_id = None,
     f_device_proof_hash = None, f_user_code = ''CODE'', f_created_at = 0, f_expires_at = 600, f_status = FlowPending,
     f_key_id = key_id sample_service, f_subject = None, f_session_hash = None, f_session_expires_at = None,
     f_new_device = False\<rparr>"

definition connecting_project :: ops where
  "connecting_project = sample_project\<lparr>flows := [sample_flow]\<rparr>"

abbreviation approval :: "(ops, string) tx" where
  "approval \<equiv> decide sample_service 5 ''x1'' ''f1'' (JObj [(''csrf_token'', JStr ''t''), (''user_code'', JStr ''CODE'')])
     admin_principal False"

lemma approval_ran: "isl (approval connecting_project) = False"
  by code_simp

text \<open>A connection stays within the device quota: whoever decides a flow is an active member, and
approving or denying it never takes the number of that member's active devices above the larger of what it was and
the member's own quota.\<close>

theorem device_quota_kept:
  assumes "decide V clock fresh i v p deny s = Inr (s', status)" and "devices_keyed s"
  shows "\<exists>m. member_of s (pr_subject p) = Some m \<and> m_status m = Active \<and>
     int (owned_active s' (pr_subject p)) \<le> max (int (owned_active s (pr_subject p))) (m_device_quota m)"
  using assms by (rule decide_quota)

theorem device_quota_kept_witness: "owned_active (fst (committed approval connecting_project)) ''s1'' \<le> 3"
proof -
  obtain s' status where ran: "approval connecting_project = Inr (s', status)"
    using approval_ran by (cases "approval connecting_project") auto
  have "devices_keyed connecting_project"
    by (simp add: devices_keyed_def connecting_project_def sample_project_def sample_device_def)
  moreover have "member_of connecting_project ''s1'' = Some sample_admin" "owned_active connecting_project ''s1'' = 0"
    by (simp_all add: member_of_def connecting_project_def sample_project_def sample_admin_def sample_member_def
        owned_active_def sample_device_def)
  ultimately show ?thesis
    using device_quota_kept [OF ran] ran by (auto simp: admin_principal_def sample_admin_def committed_def)
qed

text \<open>Claim C31. Credentials leave the Hub only for an approved connection: when a poll hands out a grant it changed
nothing, the flow is approved, unexpired, under the current key, and bound to the hash of the secret the client sent; the
personal token is the flow's own and stands for a live session whose member is active; and a device token is only included
when its hash is that of the flow's device, which is active.\<close>

theorem credentials_need_approval:
  assumes "poll V clock later i v acknowledge s = (s', Inr (Inr g))"
  shows "s' = s \<and> \<not> acknowledge \<and>
    (\<exists>f. flow_row s i = Some f \<and> f_status f = FlowApproved \<and> clock < f_expires_at f \<and> f_key_id f = key_id V \<and>
       client_hash (is_sha V) (body_get (object_value v) ''client_secret'') = Inr (f_client_hash f) \<and>
       gr_session_token g = flow_token V ''personal'' f \<and> gr_device_id g = f_device_id f) \<and>
    (\<exists>r \<in> set (sessions s). s_token_hash r = token_hash (is_sha V) (gr_session_token g) \<and> later < s_expires_at r) \<and>
    active_owner s (pr_subject (gr_principal g)) \<and>
    (case gr_device_token g of None \<Rightarrow> True
     | Some t \<Rightarrow> \<exists>d. (case gr_device_id g of None \<Rightarrow> None | Some j \<Rightarrow> device_row s j) = Some d \<and> d_active d \<and>
         d_token_hash d = token_hash (is_sha V) t)"
  using assms
proof (cases rule: poll_granted)
  case (1 f r)
  from 1(13,14) have "case gr_device_token g of None \<Rightarrow> True
     | Some t \<Rightarrow> \<exists>d. (case gr_device_id g of None \<Rightarrow> None | Some j \<Rightarrow> device_row s j) = Some d \<and> d_active d \<and>
         d_token_hash d = token_hash (is_sha V) t"
    by (auto simp: device_secret_def Let_def split: if_splits option.splits)
  with 1 show ?thesis by blast
qed

definition online_member :: member where
  "online_member = sample_member\<lparr>m_subject := Some (stable_subject sample_sha ''iss'' ''sub2'')\<rparr>"

definition approved_flow :: flow where
  "approved_flow = sample_flow\<lparr>f_status := FlowApproved\<rparr>"

definition approved_project :: ops where
  "approved_project = sample_project\<lparr>members := [sample_admin, online_member], flows := [approved_flow],
     users := [\<lparr>us_subject = ''u2'', us_issuer = ''iss'', us_access_subject = ''sub2'', us_email = ''c@d''\<rparr>],
     sessions := [\<lparr>s_token_hash = sample_sha (flow_token sample_service ''personal'' approved_flow), s_subject = ''u2'',
                  s_expires_at = 900, s_created_at = 0\<rparr>]\<rparr>"

abbreviation polled :: "ops \<times> (string + grant) result" where
  "polled \<equiv> poll sample_service 5 6 ''f1'' (JObj [(''client_secret'', JStr client_secret)]) False approved_project"

lemma polled_parts:
  "isl (personal sample_service 6 (flow_token sample_service ''personal'' approved_flow) approved_project) = False"
  "compare_digest (f_client_hash approved_flow) (sample_sha client_secret) = Inr True"
  "and_then (identity_fields (JObj [(''client_secret'', JStr client_secret)]) [''client_secret''] []) (\<lambda>body.
     client_hash sample_sha (body_get body ''client_secret'')) = Inr (sample_sha client_secret)"
  by code_simp+

lemma polled_flow:
  "poll_flow sample_service 5 ''f1'' (sample_sha client_secret) False approved_project =
     Inr (approved_project, PollGrant approved_flow (flow_token sample_service ''personal'' approved_flow) None)"
proof -
  have "flow_row approved_project ''f1'' = Some approved_flow"
    by (simp add: flow_row_def approved_project_def approved_flow_def sample_flow_def)
  then show ?thesis
    using polled_parts(2) by (simp add: poll_flow_def approved_flow_def sample_flow_def device_secret_def)
qed

lemma polled_ran: "\<exists>g. polled = (approved_project, Inr (Inr g))"
proof -
  obtain s2 q where ran: "personal sample_service 6 (flow_token sample_service ''personal'' approved_flow) approved_project = Inr (s2, q)"
    using polled_parts(1) by (cases "personal sample_service 6 (flow_token sample_service ''personal'' approved_flow) approved_project") auto
  then have "s2 = approved_project" by (rule personal_returned)
  moreover have "is_sha sample_service = sample_sha" by (simp add: sample_service_def)
  ultimately show ?thesis using ran by (simp add: poll_def polled_parts(3) polled_flow committed_def)
qed

theorem credentials_need_approval_witness: "list_ex (\<lambda>r. 6 < s_expires_at r) (sessions approved_project) \<and> fst polled = approved_project"
proof -
  obtain g where ran: "polled = (approved_project, Inr (Inr g))" using polled_ran by blast
  from credentials_need_approval [OF ran] have "list_ex (\<lambda>r. 6 < s_expires_at r) (sessions approved_project)"
    unfolding list_ex_iff by blast
  then show ?thesis unfolding ran by simp
qed

text \<open>A page's token works exactly until its deadline: a browser write with the token the Hub issued to
the same identity, from the configured origin, is accepted at every moment before the deadline, ten minutes after it
was issued or the end of the identity, whichever is first, rounded down to a second; from then on it is refused, and from
any other origin it always is.\<close>

theorem browser_token_until_deadline:
  assumes "hex_macs V" and "0 \<le> clock" and "clock + 600 \<le> 10 ^ 30" and "0 \<le> pr_expires_at p"
    and "pr_session_binding p \<noteq> []" and "later < pr_expires_at p" and "is_origin V \<noteq> []"
  shows "check_browser_write V later p origin (JStr (csrf_token V clock p)) =
    (if origin \<noteq> is_origin V then Inl (BoundaryError ''identity'' ''identity_origin_rejected'')
     else if later < of_int \<lfloor>min (clock + 600) (pr_expires_at p)\<rfloor> then Inr ()
     else Inl (BoundaryError ''identity'' ''identity_csrf_rejected''))"
  using csrf_ok_iff [OF assms(1-4), of later] assms(5-7) by (simp add: check_browser_write_def csrf_deadline_def)

theorem browser_token_until_deadline_witness:
  "check_browser_write sample_service 604 admin_principal ''https://h'' (JStr (csrf_token sample_service 5 admin_principal)) = Inr () \<and>
   isl (check_browser_write sample_service 605 admin_principal ''https://h'' (JStr (csrf_token sample_service 5 admin_principal)))"
proof -
  have "hex_macs sample_service" using sample_sha_hex by (simp add: hex_macs_def sample_service_def)
  note at_time = browser_token_until_deadline [OF this, of 5 admin_principal _ "''https://h''"]
  from at_time [of 604] at_time [of 605] show ?thesis
    by (simp add: admin_principal_def sample_service_def)
qed

text \<open>The identity tables stay within their bounds under any history of requests: at most 1,000 pending
connections, 2,048 rate counters and 32 sessions per member, with unique connection ids, token hashes and counters.\<close>

theorem identity_tables_bounded:
  assumes "(identity_step V)\<^sup>*\<^sup>* new_operations s"
  shows "length (flows s) \<le> 1000 \<and> length (rates s) \<le> 2048 \<and>
    (\<forall>subject. length (filter (\<lambda>r. s_subject r = subject) (sessions s)) \<le> 32) \<and>
    distinct (map f_id (flows s)) \<and> distinct (map s_token_hash (sessions s)) \<and>
    distinct (map (\<lambda>r. (r_source r, r_bucket r)) (rates s))"
  using identity_steps_bounded [OF assms identity_bounded_new] by (simp add: identity_bounded_def sessions_of_def)

theorem identity_tables_bounded_witness:
  "length (rates (fst (committed (rate sample_service 5 ''ip'' ''poll'' 2) new_operations))) \<le> 2048"
proof -
  have "(identity_step sample_service)\<^sup>*\<^sup>* new_operations (fst (committed (rate sample_service 5 ''ip'' ''poll'' 2) new_operations))"
    by (rule committed_cases [of "rate sample_service 5 ''ip'' ''poll'' 2" new_operations]) (auto intro: identity_step.counted)
  from identity_tables_bounded [OF this] show ?thesis by simp
qed

section \<open>The upload queue\<close>

definition sample_receive :: "(string \<times> json) list" where
  "sample_receive = [(''status'', JStr ''verified''), (''content_id'', JStr ''c1''), (''manifest_sha256'', JStr ''m1'')]"

abbreviation offering :: "(ops, upload) tx" where
  "offering \<equiv> create_upload ''u1'' 5 ''d1'' ''c1'' ''m1'' (JObj [])"

definition offered :: ops where "offered = fst (committed offering new_operations)"

abbreviation receiving :: "(ops, unit) tx" where
  "receiving \<equiv> finish_upload 6 ''u1'' sample_receive"

definition received :: ops where "received = fst (committed receiving offered)"

lemma receiving_ran:
  "isl (offering new_operations) = False" "isl (receiving offered) = False"
  "map (\<lambda>u. (u_id u, u_status u)) (uploads offered) = [(''u1'', AwaitingUpload)]"
  "map (\<lambda>u. (u_id u, u_status u, u_receipt u \<noteq> None)) (uploads received) = [(''u1'', Verified, True)]"
  by code_simp+

lemma received_steps: "upload_step new_operations offered" "upload_step offered received"
proof -
  obtain row where "offering new_operations = Inr (offered, row)"
    using receiving_ran(1) by (cases "offering new_operations") (auto simp: offered_def committed_def)
  then show "upload_step new_operations offered" by (rule upload_step.created)
  obtain u where "receiving offered = Inr (received, u)"
    using receiving_ran(2) by (cases "receiving offered") (auto simp: received_def committed_def)
  then show "upload_step offered received" by (rule upload_step.finished)
qed

text \<open>Claim C33. The rows of the upload queue are well formed after any history: ids are unique, a device offers a content
once, no row is verified more than five times, a row without a receipt is still on its way or has failed five
times, and a row with a receipt is settled exactly as that receipt says, for the content and manifest it was
created for.\<close>

theorem upload_rows_typed:
  assumes "upload_step\<^sup>*\<^sup>* new_operations s"
  shows "distinct (map u_id (uploads s)) \<and> distinct (map (\<lambda>u. (u_device u, u_content_id u)) (uploads s)) \<and>
    list_all upload_wf (uploads s)"
proof -
  have "uploads_ok new_operations" by (simp add: uploads_ok_def new_operations_def)
  with upload_steps_wf [OF assms] show ?thesis by (simp add: uploads_ok_def list_all_iff)
qed

theorem upload_rows_typed_witness: "list_all upload_wf (uploads received) \<and> uploads received \<noteq> []"
proof -
  have "upload_step\<^sup>*\<^sup>* new_operations received" using received_steps by auto
  from upload_rows_typed [OF this] show ?thesis using receiving_ran(4) by auto
qed

text \<open>A receipt is final: once a row of a well-formed queue carries a receipt, it keeps that receipt, its
status, content and manifest through every later operation on the queue.\<close>

theorem receipt_final:
  assumes "upload_step\<^sup>*\<^sup>* s s'" and "uploads_ok s" and "u \<in> set (uploads s)" and "u_receipt u \<noteq> None"
  shows "\<exists>v \<in> set (uploads s'). u_id v = u_id u \<and> u_device v = u_device u \<and> u_content_id v = u_content_id u \<and>
    u_manifest_sha v = u_manifest_sha u \<and> u_receipt v = u_receipt u \<and> u_status v = u_status u"
  using upload_steps_settled [OF assms] by (auto simp: same_settlement_def)

theorem receipt_final_witness:
  "list_ex (\<lambda>v. u_status v = Verified) (uploads (fst (committed (request_verification 7 ''u1'') received)))"
proof -
  obtain u where u: "u \<in> set (uploads received)" "u_status u = Verified" "u_receipt u \<noteq> None"
    using receiving_ran(4) by (auto simp: map_eq_Cons_conv)
  have "uploads_ok new_operations" by (simp add: uploads_ok_def new_operations_def)
  then have ok: "uploads_ok received" using received_steps by (auto intro: upload_step_wf)
  have "upload_step\<^sup>*\<^sup>* received (fst (committed (request_verification 7 ''u1'') received))"
    by (rule committed_cases [of "request_verification 7 ''u1''" received]) (auto intro: upload_step.requested)
  from receipt_final [OF this ok u(1,3)] u(2) show ?thesis unfolding list_ex_iff by auto
qed

section \<open>Stored compute documents\<close>

text \<open>Compute documents survive storage: a request, a receipt or a provider call that decodes is printed to
canonical text that parses and decodes to the same value again, whatever the rest of the database does.\<close>

theorem compute_documents_reload:
  "(decode_request L v = Inr q \<longrightarrow>
      and_then (decode_json fr (canonical_text (JObj (request_dict q)))) (decode_request L) = Inr q) \<and>
   (decode_receipt L v = Inr r \<longrightarrow>
      and_then (decode_json fr (canonical_text (JObj (receipt_dict r)))) (decode_receipt L) = Inr r) \<and>
   (decode_call L v = Inr c \<longrightarrow>
      and_then (decode_json fr (canonical_text (JObj (call_dict c)))) (decode_call L) = Inr c)"
  by (intro conjI impI request_codec.text_reload receipt_codec.text_reload call_codec.text_reload
      decode_request_valid decode_receipt_valid decode_call_valid)

lemma sample_call_decodes: "decode_call sample_lib (JObj (call_dict sample_call)) = Inr sample_call"
  by code_simp

theorem compute_documents_reload_witness:
  "and_then (decode_json id (canonical_text (JObj (call_dict sample_call)))) (decode_call sample_lib) = Inr sample_call"
  using compute_documents_reload [of sample_lib "JObj (call_dict sample_call)" _ id _ sample_call] sample_call_decodes by blast

end
