(* ===== verification/Scheduler.thy ===== *)
theory Scheduler
  imports Ledger CurationAccess
begin

text \<open>
  python/spireagent/hub/scheduler.py: the one loop that leases jobs, asks the provider to run them
  and selects what it returns. A tick is a sequence of committed transactions of the operations
  database and of calls to the provider; an exception in between leaves what was committed. The
  state is the database, the lease tokens the scheduler remembers, and the calls the provider has
  received. \<open>V\<close> holds one tick's surroundings: the clock and the fresh tokens, the provider's
  answers, and the loaders and validators of other modules, which only pass or raise here.
\<close>

section \<open>State and surroundings\<close>

datatype provider_call = SubmitCall string compute_request | CancelCall string

record hub_state =
  hs_ops :: ops
  hs_tokens :: "string \<rightharpoonup> string"
  hs_closed :: bool
  hs_calls :: "provider_call list"

text \<open>\<open>ComputeHandle\<close> of python/spireagent/compute.py; \<open>ch\_dict\<close> is its \<open>to\_dict()\<close>.\<close>

record compute_handle =
  ch_call_id :: string
  ch_target_id :: string
  ch_request :: compute_request
  ch_dict :: json

record scheduler_env =
  sv_lib :: stdlib
  sv_clock :: real
  sv_token :: string
  sv_attempt :: string
  sv_budget :: int
  sv_producer :: producer
  sv_timeout :: int
  sv_target_id :: string
  sv_submit :: "compute_request \<Rightarrow> compute_handle result"
  sv_restore :: "json \<Rightarrow> compute_handle result"
  sv_poll :: "compute_handle \<Rightarrow> compute_receipt option result"
  sv_cancel :: "compute_handle \<Rightarrow> unit result"
  sv_fetch :: "string \<Rightarrow> manifest result"
  sv_feature_job :: "string \<Rightarrow> producer \<Rightarrow> unit result"
  sv_training_input :: "string \<Rightarrow> producer \<Rightarrow> unit result"
  sv_validate :: "compute_request \<Rightarrow> compute_receipt \<Rightarrow> unit result"
  sv_index :: "compute_receipt \<Rightarrow> bool"

abbreviation sv_sha :: "scheduler_env \<Rightarrow> hash" where
  "sv_sha V \<equiv> sha256 (sv_lib V)"

section \<open>Actions\<close>

text \<open>A piece of a tick: a new state, and a value or the exception that escaped.\<close>

type_synonym 'a act = "hub_state \<Rightarrow> hub_state \<times> 'a result"

definition answer :: "'a result \<Rightarrow> 'a act" where
  "answer r S = (S, r)"

definition bind_act :: "'a act \<Rightarrow> ('a \<Rightarrow> 'b act) \<Rightarrow> 'b act" where
  "bind_act m f S = (case m S of (S', Inl e) \<Rightarrow> (S', Inl e) | (S', Inr x) \<Rightarrow> f x S')"

definition lift_run :: "(ops \<Rightarrow> ops \<times> 'a result) \<Rightarrow> 'a act" where
  "lift_run m S = (case m (hs_ops S) of (s', r) \<Rightarrow> (S\<lparr>hs_ops := s'\<rparr>, r))"

text \<open>One transaction: committed, or rolled back with its exception.\<close>

definition on_ops :: "(ops, 'a) tx \<Rightarrow> 'a act" where
  "on_ops t = lift_run (committed t)"

text \<open>\<open>except (BoundaryError, OSError, ValueError)\<close>, subclasses included.\<close>

definition caught :: "py_error \<Rightarrow> bool" where
  "caught e =
     (case e of BoundaryError _ _ \<Rightarrow> True | ContractError _ \<Rightarrow> True | CanonicalizationError _ \<Rightarrow> True
      | ValueError _ \<Rightarrow> True | OSError \<Rightarrow> True | _ \<Rightarrow> False)"

definition rescue :: "'a act \<Rightarrow> (py_error \<Rightarrow> 'a act) \<Rightarrow> 'a act" where
  "rescue m h S = (case m S of (S', Inl e) \<Rightarrow> if caught e then h e S' else (S', Inl e) | (S', Inr x) \<Rightarrow> (S', Inr x))"

definition error_code :: "py_error \<Rightarrow> string \<Rightarrow> string" where
  "error_code e otherwise = (case e of BoundaryError stage code \<Rightarrow> code | _ \<Rightarrow> otherwise)"

definition note_call :: "provider_call \<Rightarrow> hub_state \<Rightarrow> hub_state" where
  "note_call c S = S\<lparr>hs_calls := hs_calls S @ [c]\<rparr>"

record tick_answer =
  rp_state :: string
  rp_job :: "string option"
  rp_detail :: "(string \<times> json) list"

definition tick_reply :: "string \<Rightarrow> string option \<Rightarrow> (string \<times> json) list \<Rightarrow> tick_answer act" where
  "tick_reply state job detail = answer (Inr \<lparr>rp_state = state, rp_job = job, rp_detail = detail\<rparr>)"

text \<open>
  The constructor. \<open>locked\<close> says whether another process holds the lifetime lock of this database.
\<close>

definition new_scheduler :: "json \<Rightarrow> bool \<Rightarrow> ops \<Rightarrow> hub_state result" where
  "new_scheduler budget locked s =
     (if \<not> (case budget of JInt n \<Rightarrow> 0 \<le> n | _ \<Rightarrow> False)
      then Inl (BoundaryError ''scheduler'' ''invalid_budget'')
      else if locked then Inl (BoundaryError ''scheduler'' ''another_scheduler_owns_database'')
      else Inr \<lparr>hs_ops = s, hs_tokens = Map.empty, hs_closed = False, hs_calls = []\<rparr>)"

definition close_scheduler :: "hub_state \<Rightarrow> hub_state" where
  "close_scheduler S = (if hs_closed S then S else S\<lparr>hs_closed := True, hs_tokens := Map.empty\<rparr>)"

section \<open>Submission\<close>

text \<open>The attempt of a leased row; the ledger invariant gives every active row one.\<close>

definition row_attempt :: "job \<Rightarrow> string" where
  "row_attempt row = (case j_attempt_id row of None \<Rightarrow> [] | Some t \<Rightarrow> t)"

definition token_of :: "scheduler_env \<Rightarrow> job \<Rightarrow> pyfloat \<Rightarrow> string act" where
  "token_of V row now S =
     (case hs_tokens S (j_id row) of
        Some token \<Rightarrow> (S, Inr token)
      | None \<Rightarrow>
          bind_act (on_ops (recover_compute (sv_sha V) (sv_token V) (sv_clock V) (j_id row) (j_attempt_id row) (j_fence row) now))
            (\<lambda>(recovered, token) S'. (S'\<lparr>hs_tokens := (hs_tokens S')(j_id row \<mapsto> token)\<rparr>, Inr token)) S)"

definition job_inputs :: "scheduler_env \<Rightarrow> compute_request \<Rightarrow> unit result" where
  "job_inputs V q =
     (if rq_kind q = ''features'' then sv_feature_job V (rq_input_id q) (sv_producer V)
      else
        and_then (sv_fetch V (rq_input_id q)) (\<lambda>run.
          if mf_kind run \<noteq> ''run'' \<or> mf_producer run \<noteq> sv_producer V
          then Inl (BoundaryError ''scheduler'' ''run_source_or_kind_mismatch'')
          else and_then (manifest_parent run ''training_input'') (\<lambda>i. sv_training_input V i (sv_producer V))))"

definition job_request :: "scheduler_env \<Rightarrow> job \<Rightarrow> compute_request result" where
  "job_request V row =
     (case (if j_kind row = ''feature'' then Some ''features'' else if j_kind row = ''training'' then Some ''training'' else None) of
        None \<Rightarrow> Inl (BoundaryError ''scheduler'' ''unsupported_job_kind'')
      | Some kind \<Rightarrow>
          if j_max_seconds row < sv_timeout V
          then Inl (BoundaryError ''scheduler'' ''provider_timeout_exceeds_job_budget'')
          else
            and_then (row_options row) (\<lambda>options.
            and_then (make_request (JStr kind) (JStr (j_input_id row)) (sv_producer V) (optional_string (j_attempt_id row))
              (option_value options ''resume'') (option_value options ''stop_after'')) (\<lambda>request.
            and_then (job_inputs V request) (\<lambda>_. Inr request))))"

definition preflight :: "scheduler_env \<Rightarrow> job \<Rightarrow> compute_request act" where
  "preflight V row =
     bind_act (answer (job_request V row)) (\<lambda>request.
     bind_act (answer (sv_fetch V (rq_input_id request))) (\<lambda>m.
     bind_act (lift_run (record_use (sv_lib V) (sv_fetch V) (sv_clock V) m ''training'' [])) (\<lambda>_.
       answer (Inr request))))"

text \<open>
  After the durable intent the provider is called, at most once: an answer that is lost, and an
  exception of any kind, is recorded as unknown and never repeated.
\<close>

definition ask_provider :: "scheduler_env \<Rightarrow> job \<Rightarrow> string \<Rightarrow> compute_request \<Rightarrow> tick_answer act" where
  "ask_provider V row token request S =
     (let job = j_id row; S' = note_call (SubmitCall job request) S in
      case sv_submit V request of
        Inl e \<Rightarrow>
          bind_act (on_ops (compute_uncertain (sv_sha V) (sv_clock V) job token (row_attempt row) (j_fence row) ''submission_unknown''))
            (\<lambda>_. tick_reply ''submission_unknown'' (Some job) []) S'
      | Inr handle \<Rightarrow>
          bind_act (on_ops (bind_compute_handle (sv_lib V) (sv_clock V) job token (row_attempt row) (j_fence row) (ch_dict handle)))
            (\<lambda>_. tick_reply ''submitted'' (Some job) [(''request_id'', JStr (request_id (sv_lib V) request))]) S')"

definition submit_job :: "scheduler_env \<Rightarrow> job \<Rightarrow> string \<Rightarrow> pyfloat \<Rightarrow> tick_answer act" where
  "submit_job V row token now S =
     (let job = j_id row; S0 = S\<lparr>hs_tokens := (hs_tokens S)(job \<mapsto> token)\<rparr> in
      case preflight V row S0 of
        (S1, Inl e) \<Rightarrow>
          if caught e then
            (let code = error_code e ''input_unavailable'' in
             bind_act (on_ops (fail_before_compute (sv_sha V) (sv_clock V) job token code now))
               (\<lambda>_. tick_reply ''preflight_failed'' (Some job) [(''code'', JStr code)]) S1)
          else (S1, Inl e)
      | (S1, Inr request) \<Rightarrow>
          bind_act (on_ops (prepare_compute (sv_lib V) (sv_clock V) job token (JObj (request_dict request)) (sv_target_id V) now))
            (\<lambda>granted. if granted then ask_provider V row token request
                       else tick_reply ''already_prepared_no_resubmit'' (Some job) []) S1)"

section \<open>Cancellation and polling\<close>

definition cancel_job :: "scheduler_env \<Rightarrow> job \<Rightarrow> string \<Rightarrow> compute_handle \<Rightarrow> unit act" where
  "cancel_job V row token handle =
     (let job = j_id row; noted = (\<lambda>ok. on_ops (record_compute_cancel (sv_sha V) (sv_clock V) job token (row_attempt row) (j_fence row) ok)) in
      bind_act (if j_status row \<noteq> Cancelling then on_ops (cancel (sv_clock V) job) else answer (Inr ())) (\<lambda>_.
      bind_act (on_ops (begin_compute_cancel (sv_sha V) (sv_clock V) job token (row_attempt row) (j_fence row))) (\<lambda>began.
        if \<not> began then answer (Inr ())
        else (\<lambda>S. noted (case sv_cancel V handle of Inl _ \<Rightarrow> False | Inr _ \<Rightarrow> True) (note_call (CancelCall job) S)))))"

text \<open>The event that says the disposable console index failed; its own failure is ignored.\<close>

definition index_result :: "scheduler_env \<Rightarrow> compute_receipt \<Rightarrow> bool act" where
  "index_result V receipt =
     (if sv_index V receipt then answer (Inr True)
      else bind_act (on_ops (\<lambda>s. Inr (record_event (sv_clock V) ''console'' ''artifact_index_unavailable'' (rc_request_id receipt) (JObj []) s, ())))
        (\<lambda>_. answer (Inr False)))"

text \<open>The body of the \<open>try\<close>: None when the provider has nothing to return yet.\<close>

definition observe :: "scheduler_env \<Rightarrow> job \<Rightarrow> string \<Rightarrow> compute_request \<Rightarrow> compute_handle \<Rightarrow> tick_answer option act" where
  "observe V row token request handle =
     (let job = j_id row;
          accept = (\<lambda>receipt ended. on_ops (accept_compute (sv_lib V) (sv_clock V) job token (row_attempt row) (j_fence row)
                     (JObj (receipt_dict receipt)) ended));
          done_with = (\<lambda>state detail. bind_act (tick_reply state (Some job) detail) (\<lambda>r. answer (Inr (Some r))))
      in
      bind_act (answer (sv_poll V handle)) (\<lambda>returned.
        case returned of
          None \<Rightarrow> answer (Inr None)
        | Some receipt \<Rightarrow>
            bind_act (answer (bind_receipt (sv_lib V) receipt request)) (\<lambda>_.
              if j_status row = Cancelling then bind_act (accept receipt True) (\<lambda>_. done_with ''cancelled'' [])
              else
                bind_act (answer (sv_validate V request receipt)) (\<lambda>_.
                bind_act (accept receipt False) (\<lambda>_.
                bind_act (index_result V receipt) (\<lambda>indexed.
                  done_with (if rc_state receipt = ''paused'' then ''paused'' else ''completed'')
                    [(''request_id'', JStr (request_id (sv_lib V) request)),
                     (''console_index_status'', JStr (if indexed then ''available'' else ''unavailable''))]))))))"

definition doubt :: "scheduler_env \<Rightarrow> job \<Rightarrow> string \<Rightarrow> string \<Rightarrow> unit act" where
  "doubt V row token code =
     on_ops (compute_uncertain (sv_sha V) (sv_clock V) (j_id row) token (row_attempt row) (j_fence row) code)"

definition handle_mismatch :: "scheduler_env \<Rightarrow> job \<Rightarrow> attempt \<Rightarrow> compute_request \<Rightarrow> compute_handle \<Rightarrow> bool" where
  "handle_mismatch V row saved request handle \<longleftrightarrow>
     a_target_id saved \<noteq> sv_target_id V \<or> ch_target_id handle \<noteq> a_target_id saved \<or> ch_request handle \<noteq> request \<or>
     j_provider_ref row \<noteq> Some (ch_call_id handle) \<or> Some (a_attempt_id saved) \<noteq> j_attempt_id row \<or> a_fence saved \<noteq> j_fence row"

definition watch_job ::
  "scheduler_env \<Rightarrow> job \<Rightarrow> pyfloat \<Rightarrow> string \<Rightarrow> compute_request \<Rightarrow> compute_handle \<Rightarrow> real \<Rightarrow> tick_answer act" where
  "watch_job V row now token request handle deadline =
     (let job = j_id row; cancelling = (j_status row = Cancelling); overdue = (deadline \<le> instant now \<and> \<not> cancelling);
          stop = (\<lambda>b. if b then cancel_job V row token handle else answer (Inr ()))
      in
      bind_act (stop cancelling) (\<lambda>_.
      bind_act
        (rescue (observe V row token request handle) (\<lambda>e.
          let code = error_code e ''result_unavailable'' in
          bind_act (stop overdue) (\<lambda>_.
          bind_act (doubt V row token code) (\<lambda>_.
          bind_act (tick_reply ''result_uncertain'' (Some job) [(''code'', JStr code)]) (\<lambda>r. answer (Inr (Some r))))))) (\<lambda>returned.
        case returned of
          Some r \<Rightarrow> answer (Inr r)
        | None \<Rightarrow>
            bind_act (stop overdue) (\<lambda>_.
              if overdue \<or> cancelling
              then tick_reply ''cancelling'' (Some job) [(''recovery'', JStr ''await_exact_provider_terminal_evidence'')]
              else
                bind_act (if j_status row = Running then on_ops (heartbeat (sv_sha V) job token now (JInt 120)) else answer (Inr ())) (\<lambda>_.
                  tick_reply ''pending'' (Some job) [])))))"

definition poll_job :: "scheduler_env \<Rightarrow> job \<Rightarrow> pyfloat \<Rightarrow> tick_answer act" where
  "poll_job V row now =
     (let job = j_id row in
      bind_act (token_of V row now) (\<lambda>token.
      bind_act (on_ops (compute_state job)) (\<lambda>saved.
        case (case saved of None \<Rightarrow> None | Some a \<Rightarrow> map_option (Pair a) (a_handle a)) of
          None \<Rightarrow>
            bind_act (doubt V row token ''handle_not_recorded'') (\<lambda>_.
              tick_reply ''submission_unknown'' (Some job) [(''recovery'', JStr ''provider_reconciliation_required'')])
        | Some (a, h) \<Rightarrow>
            bind_act (answer (decode_request (sv_lib V) (a_request a))) (\<lambda>request.
            bind_act (answer (sv_restore V h)) (\<lambda>handle.
              if handle_mismatch V row a request handle
              then bind_act (doubt V row token ''saved_handle_mismatch'') (\<lambda>_. tick_reply ''target_or_handle_mismatch'' (Some job) [])
              else
                (case j_deadline row of
                   None \<Rightarrow> answer (Inl TypeError)
                 | Some deadline \<Rightarrow> watch_job V row now token request handle deadline))))))"

section \<open>The tick\<close>

definition known_tokens :: "job list \<Rightarrow> (string \<rightharpoonup> string) \<Rightarrow> (string \<rightharpoonup> string)" where
  "known_tokens active tokens = (\<lambda>i. if i \<in> set (map j_id active) then tokens i else None)"

definition launch :: "scheduler_env \<Rightarrow> job list \<Rightarrow> pyfloat \<Rightarrow> tick_answer act" where
  "launch V rows now =
     (if sv_budget V = 0 then tick_reply ''launch_disabled'' None []
      else if sv_budget V < sum_list (map j_reserved_units rows) then tick_reply ''budget_blocked'' None []
      else
        bind_act (on_ops (claim (sv_sha V) (sv_token V) (sv_attempt V) (sv_clock V) ''scheduler'' now (JInt 120))) (\<lambda>claimed.
          case claimed of
            None \<Rightarrow> tick_reply ''idle'' None []
          | Some (row, token) \<Rightarrow> submit_job V row token now))"

definition tick :: "scheduler_env \<Rightarrow> pyfloat \<Rightarrow> tick_answer act" where
  "tick V now S =
     (if \<not> isfinite now then (S, Inl (BoundaryError ''scheduler'' ''invalid_clock''))
      else if hs_closed S then (S, Inl (BoundaryError ''scheduler'' ''scheduler_closed''))
      else
        bind_act (on_ops paused) (\<lambda>is_paused.
          if is_paused then tick_reply ''paused_by_operator'' None []
          else
            bind_act (on_ops (expire now)) (\<lambda>_ S1.
              let rows = jobs (hs_ops S1); active = filter is_active rows;
                  S2 = S1\<lparr>hs_tokens := known_tokens active (hs_tokens S1)\<rparr>
              in case active of
                   [] \<Rightarrow> launch V rows now S2
                 | [row] \<Rightarrow> poll_job V row now S2
                 | _ \<Rightarrow> (S2, Inl (BoundaryError ''scheduler'' ''multiple_active_jobs'')))) S)"

end
