(* ===== verification/SchedulerRuns.thy ===== *)
theory SchedulerRuns
  imports Scheduler
begin

text \<open>
  The scheduler refines the ledger: whatever the provider answers and wherever an exception cuts a
  tick short, a tick is a sequence of committed ledger transactions in which the provider is only
  called with a permission the ledger grants once.
\<close>

section \<open>The abstract machine\<close>

inductive hub_move :: "stdlib \<Rightarrow> int \<Rightarrow> hub_state \<Rightarrow> hub_state \<Rightarrow> bool" for L B where
  internal: "ledger_step L B (hs_ops S) (hs_ops S') \<Longrightarrow> hs_calls S' = hs_calls S \<Longrightarrow> hub_move L B S S'"
| asked: "submission_granted L i (hs_ops S) (hs_ops S') \<Longrightarrow> hs_calls S' = hs_calls S @ [SubmitCall i q] \<Longrightarrow>
    hub_move L B S S'"
| stopped: "cancel_granted L i (hs_ops S) (hs_ops S') \<Longrightarrow> hs_calls S' = hs_calls S @ [CancelCall i] \<Longrightarrow>
    hub_move L B S S'"

definition hub_runs :: "stdlib \<Rightarrow> int \<Rightarrow> 'a act \<Rightarrow> bool" where
  "hub_runs L B m \<longleftrightarrow> (\<forall>S. (hub_move L B)\<^sup>*\<^sup>* S (fst (m S)))"

lemma hub_runsD: "hub_runs L B m \<Longrightarrow> (hub_move L B)\<^sup>*\<^sup>* S (fst (m S))"
  by (simp add: hub_runs_def)

named_theorems runs "actions that refine the ledger"

lemma hub_move_ops: "hs_ops S' = hs_ops S \<Longrightarrow> hs_calls S' = hs_calls S \<Longrightarrow> hub_move L B S S'"
  by (intro hub_move.internal ledger_step.elsewhere) simp_all

lemma runs_answer [runs]: "hub_runs L B (answer r)"
  by (simp add: hub_runs_def answer_def)

lemma runs_reply [runs]: "hub_runs L B (tick_reply state job detail)"
  by (simp add: tick_reply_def runs_answer)

lemma runs_bind:
  assumes "hub_runs L B m" and "\<And>x. hub_runs L B (f x)"
  shows "hub_runs L B (bind_act m f)"
  unfolding hub_runs_def
proof
  fix S :: hub_state
  show "(hub_move L B)\<^sup>*\<^sup>* S (fst (bind_act m f S))"
  proof (cases "snd (m S)")
    case (Inl e)
    with hub_runsD [OF assms(1), of S] show ?thesis by (simp add: bind_act_def case_prod_beta)
  next
    case (Inr x)
    with hub_runsD [OF assms(1), of S] hub_runsD [OF assms(2) [of x], of "fst (m S)"] show ?thesis
      by (simp add: bind_act_def case_prod_beta)
  qed
qed

lemma runs_rescue:
  assumes "hub_runs L B m" and "\<And>e. hub_runs L B (h e)"
  shows "hub_runs L B (rescue m h)"
  unfolding hub_runs_def
proof
  fix S :: hub_state
  show "(hub_move L B)\<^sup>*\<^sup>* S (fst (rescue m h S))"
  proof (cases "snd (m S)")
    case (Inl e)
    with hub_runsD [OF assms(1), of S] hub_runsD [OF assms(2) [of e], of "fst (m S)"] show ?thesis
      by (auto simp: rescue_def case_prod_beta)
  next
    case (Inr x)
    with hub_runsD [OF assms(1), of S] show ?thesis by (simp add: rescue_def case_prod_beta)
  qed
qed

lemma runs_if: "(b \<Longrightarrow> hub_runs L B m) \<Longrightarrow> (\<not> b \<Longrightarrow> hub_runs L B n) \<Longrightarrow> hub_runs L B (if b then m else n)"
  by simp

lemma runs_option: "hub_runs L B m \<Longrightarrow> (\<And>x. hub_runs L B (f x)) \<Longrightarrow> hub_runs L B (case v of None \<Rightarrow> m | Some x \<Rightarrow> f x)"
  by (cases v) simp_all

lemma runs_lift:
  assumes "\<And>s. ledger_step L B s (fst (m s))"
  shows "hub_runs L B (lift_run m)"
  unfolding hub_runs_def lift_run_def case_prod_beta
  using assms by (auto intro!: r_into_rtranclp hub_move.internal)

lemma runs_on_ops:
  assumes "\<And>s s' x. t s = Inr (s', x) \<Longrightarrow> ledger_step L B s s'"
  shows "hub_runs L B (on_ops t)"
  unfolding on_ops_def
proof (rule runs_lift)
  fix s
  show "ledger_step L B s (fst (committed t s))"
  proof (cases rule: committed_cases [of t s])
    case (1 e)
    then show ?thesis by (simp add: ledger_step.elsewhere)
  next
    case (2 s' x)
    with assms show ?thesis by simp
  qed
qed

text \<open>The transactions a tick is made of.\<close>

lemma runs_transactions [runs]:
  "hub_runs L B (on_ops (expire now))"
  "hub_runs L B (on_ops (claim (sha256 L) token t clock owner now ls))"
  "hub_runs L B (on_ops (heartbeat (sha256 L) i token now ls))"
  "hub_runs L B (on_ops (recover_compute (sha256 L) token clock i t' fence now))"
  "hub_runs L B (on_ops (prepare_compute L clock i token request target now))"
  "hub_runs L B (on_ops (bind_compute_handle L clock i token t fence handle))"
  "hub_runs L B (on_ops (compute_uncertain (sha256 L) clock i token t fence code))"
  "hub_runs L B (on_ops (fail_before_compute (sha256 L) clock i token code now))"
  "hub_runs L B (on_ops (accept_compute L clock i token t fence receipt c))"
  "hub_runs L B (on_ops (begin_compute_cancel (sha256 L) clock i token t fence))"
  "hub_runs L B (on_ops (record_compute_cancel (sha256 L) clock i token t fence ack))"
  "hub_runs L B (on_ops (cancel clock i))"
  by (rule runs_on_ops, erule ledger_step.intros)+

lemma runs_reading [runs]: "hub_runs L B (on_ops paused)" "hub_runs L B (on_ops (compute_state i))"
  by (rule runs_on_ops, auto simp: paused_def compute_state_def and_then_eq_Inr intro: ledger_step.elsewhere)+

lemma record_sources_ledger: "jobs (fst (record_sources xs kind ref s)) = jobs s \<and> attempts (fst (record_sources xs kind ref s)) = attempts s"
proof (induction xs kind ref s rule: record_sources.induct)
  case (2 source rest kind ref s)
  show ?case
  proof (cases "use_source source kind ref s")
    case (Inr w)
    moreover from this have "jobs (fst w) = jobs s \<and> attempts (fst w) = attempts s"
      by (cases w) (auto simp: use_source_def split: if_splits)
    ultimately show ?thesis using 2 by (cases w) simp
  qed simp
qed simp

lemma runs_record_use [runs]: "hub_runs L B (lift_run (record_use L fetch clock m kind nodes))"
proof (rule runs_lift, rule ledger_step.elsewhere)
  fix s
  have "jobs (fst (record_use L fetch clock m kind nodes s)) = jobs s \<and> attempts (fst (record_use L fetch clock m kind nodes s)) = attempts s"
  proof (cases "guarded_runs L fetch m (kind = ''training'') nodes s")
    case guarded: (Inr g)
    show ?thesis
    proof (cases "use_runs clock (fst g) kind (artifact_id L m) s")
      case (Inr w)
      moreover from this have "jobs (fst w) = jobs s \<and> attempts (fst w) = attempts s"
        by (cases w) (auto simp: use_runs_def Let_def split: if_splits)
      ultimately show ?thesis using guarded record_sources_ledger
        by (simp add: record_use_def case_prod_beta)
    qed (use guarded in \<open>simp add: record_use_def case_prod_beta\<close>)
  qed (simp add: record_use_def)
  then show "jobs (fst (record_use L fetch clock m kind nodes s)) = jobs s"
    "attempts (fst (record_use L fetch clock m kind nodes s)) = attempts s" by simp_all
qed

section \<open>The pieces of a tick\<close>

lemma runs_preflight [runs]: "hub_runs (sv_lib V) B (preflight V row)"
  unfolding preflight_def by (intro runs_bind runs)

lemma runs_index [runs]: "hub_runs L B (index_result V receipt)"
  unfolding index_result_def
  by (intro runs_bind runs_if runs runs_on_ops ledger_step.elsewhere) auto

lemma runs_token [runs]: "hub_runs (sv_lib V) B (token_of V row now)"
proof -
  let ?recover = "bind_act (on_ops (recover_compute (sv_sha V) (sv_token V) (sv_clock V) (j_id row) (j_attempt_id row) (j_fence row) now))
            (\<lambda>(recovered, token) S'. (S'\<lparr>hs_tokens := (hs_tokens S')(j_id row \<mapsto> token)\<rparr>, Inr token))"
  have "hub_runs (sv_lib V) B ?recover"
    by (intro runs_bind runs) (auto simp: hub_runs_def intro!: r_into_rtranclp hub_move_ops split: prod.splits)
  from hub_runsD [OF this] show ?thesis by (auto simp: hub_runs_def token_of_def split: option.split)
qed

lemma runs_doubt [runs]: "hub_runs (sv_lib V) B (doubt V row token code)"
  unfolding doubt_def by (rule runs)

lemma runs_observe [runs]: "hub_runs (sv_lib V) B (observe V row token request handle)"
  unfolding observe_def Let_def by (intro runs_bind runs_option runs_if runs)

text \<open>A granted permission and the call that uses it are one move of the abstract machine.\<close>

lemma granted_call:
  assumes "on_ops t S = (S1, Inr True)"
    and "\<And>s s'. t s = Inr (s', True) \<Longrightarrow> hs_ops S = s \<Longrightarrow> hub_move L B S (note_call c (S\<lparr>hs_ops := s'\<rparr>))"
  shows "hub_move L B S (note_call c S1)"
  using assms by (cases rule: committed_cases [of t "hs_ops S"]) (auto simp: on_ops_def lift_run_def)

lemma runs_cancel [runs]: "hub_runs (sv_lib V) B (cancel_job V row token handle)"
proof -
  let ?L = "sv_lib V"
  let ?opening = "begin_compute_cancel (sv_sha V) (sv_clock V) (j_id row) token (row_attempt row) (j_fence row)"
  let ?noted = "\<lambda>ok. on_ops (record_compute_cancel (sv_sha V) (sv_clock V) (j_id row) token (row_attempt row) (j_fence row) ok)"
  let ?call = "\<lambda>S. ?noted (case sv_cancel V handle of Inl _ \<Rightarrow> False | Inr _ \<Rightarrow> True) (note_call (CancelCall (j_id row)) S)"
  have "hub_runs ?L B (bind_act (on_ops ?opening) (\<lambda>began. if \<not> began then answer (Inr ()) else ?call))"
    unfolding hub_runs_def
  proof
    fix S :: hub_state
    obtain S1 r where run: "on_ops ?opening S = (S1, r)" by (cases "on_ops ?opening S")
    have "hub_runs ?L B (on_ops ?opening)" by (rule runs)
    from hub_runsD [OF this, of S] have moved: "(hub_move ?L B)\<^sup>*\<^sup>* S S1" by (simp add: run)
    show "(hub_move ?L B)\<^sup>*\<^sup>* S (fst (bind_act (on_ops ?opening) (\<lambda>began. if \<not> began then answer (Inr ()) else ?call) S))"
    proof (cases "r = Inr True")
      case True
      have "hub_move ?L B S (note_call (CancelCall (j_id row)) S1)"
        by (rule granted_call [OF run [unfolded True]])
          (rule hub_move.stopped [of _ "j_id row"], auto simp: note_call_def cancel_granted_def)
      moreover have "(hub_move ?L B)\<^sup>*\<^sup>* (note_call (CancelCall (j_id row)) S1) (fst (?call S1))"
        by (rule hub_runsD) (rule runs)
      ultimately show ?thesis using True by (simp add: bind_act_def run converse_rtranclp_into_rtranclp)
    next
      case False
      with moved show ?thesis by (cases r) (simp_all add: bind_act_def run answer_def)
    qed
  qed
  note called = runs_bind [OF _ this]
  show ?thesis unfolding cancel_job_def Let_def by (rule called) (intro runs_if runs)
qed

lemma runs_watch [runs]: "hub_runs (sv_lib V) B (watch_job V row now token request handle deadline)"
  unfolding watch_job_def Let_def by (intro runs_bind runs_rescue runs_option runs_if runs)

lemma runs_poll [runs]: "hub_runs (sv_lib V) B (poll_job V row now)"
  unfolding poll_job_def Let_def
  by (intro runs_bind runs_option runs) (auto intro!: runs_bind runs_option runs_if runs split: prod.splits)

lemma ask_provider_moves:
  "(hub_move (sv_lib V) B)\<^sup>*\<^sup>* (note_call (SubmitCall (j_id row) request) S) (fst (ask_provider V row token request S))"
proof -
  let ?S = "note_call (SubmitCall (j_id row) request) S"
  have "(hub_move (sv_lib V) B)\<^sup>*\<^sup>* ?S (fst (bind_act (on_ops t) (\<lambda>_. tick_reply a b c) ?S))"
    if "hub_runs (sv_lib V) B (on_ops t)" for t :: "(ops, unit) tx" and a b c
    by (rule hub_runsD) (intro runs_bind that runs)
  then show ?thesis unfolding ask_provider_def Let_def
    by (cases "sv_submit V request") (auto intro!: runs)
qed

lemma runs_submit [runs]: "hub_runs (sv_lib V) B (submit_job V row token now)"
  unfolding hub_runs_def
proof
  fix S :: hub_state
  let ?L = "sv_lib V" and ?job = "j_id row"
  let ?S0 = "S\<lparr>hs_tokens := (hs_tokens S)(?job \<mapsto> token)\<rparr>"
  obtain S1 r where pre: "preflight V row ?S0 = (S1, r)" by (cases "preflight V row ?S0")
  have "hub_move ?L B S ?S0" by (rule hub_move_ops) simp_all
  moreover have "(hub_move ?L B)\<^sup>*\<^sup>* ?S0 S1" using hub_runsD [OF runs_preflight [of V B row], of ?S0] by (simp add: pre)
  ultimately have moved: "(hub_move ?L B)\<^sup>*\<^sup>* S S1" by (rule converse_rtranclp_into_rtranclp)
  show "(hub_move ?L B)\<^sup>*\<^sup>* S (fst (submit_job V row token now S))"
  proof (cases r)
    case (Inl e)
    let ?fail = "bind_act (on_ops (fail_before_compute (sv_sha V) (sv_clock V) ?job token (error_code e ''input_unavailable'') now))
       (\<lambda>_. tick_reply ''preflight_failed'' (Some ?job) [(''code'', JStr (error_code e ''input_unavailable''))])"
    have "(hub_move ?L B)\<^sup>*\<^sup>* S1 (fst (?fail S1))" by (rule hub_runsD) (intro runs_bind runs)
    with moved have "(hub_move ?L B)\<^sup>*\<^sup>* S (fst (?fail S1))" by (rule rtranclp_trans)
    with moved show ?thesis by (simp add: submit_job_def Let_def pre Inl)
  next
    case (Inr request)
    let ?prepare = "prepare_compute ?L (sv_clock V) ?job token (JObj (request_dict request)) (sv_target_id V) now"
    obtain S2 b where run: "on_ops ?prepare S1 = (S2, b)" by (cases "on_ops ?prepare S1")
    have "hub_runs ?L B (on_ops ?prepare)" by (rule runs)
    from hub_runsD [OF this, of S1] have prepared: "(hub_move ?L B)\<^sup>*\<^sup>* S1 S2" by (simp add: run)
    have whole: "fst (submit_job V row token now S) =
        (case b of Inl e \<Rightarrow> S2 | Inr granted \<Rightarrow> if granted then fst (ask_provider V row token request S2) else S2)"
      by (simp add: submit_job_def Let_def pre Inr bind_act_def run tick_reply_def answer_def split: sum.splits)
    show ?thesis
    proof (cases "b = Inr True")
      case True
      have "hub_move ?L B S1 (note_call (SubmitCall ?job request) S2)"
      proof (rule granted_call [OF run [unfolded True]])
        fix s s'
        assume "?prepare s = Inr (s', True)" "hs_ops S1 = s"
        then have "submission_granted ?L ?job (hs_ops S1) s'" unfolding submission_granted_def by blast
        then show "hub_move ?L B S1 (note_call (SubmitCall ?job request) (S1\<lparr>hs_ops := s'\<rparr>))"
          by - (rule hub_move.asked [where i = ?job and q = request], simp_all add: note_call_def)
      qed
      with moved ask_provider_moves [of V B row request S2 token] True show ?thesis
        by (simp add: whole)
    next
      case False
      with whole have "fst (submit_job V row token now S) = S2" by (auto split: sum.splits)
      with moved prepared show ?thesis by simp
    qed
  qed
qed

lemma runs_launch [runs]: "hub_runs (sv_lib V) B (launch V rows now)"
  unfolding launch_def by (auto intro!: runs_bind runs_if runs_option runs split: prod.splits)

lemma tick_moves: "(hub_move (sv_lib V) B)\<^sup>*\<^sup>* S (fst (tick V now S))"
proof -
  have forget: "hub_runs (sv_lib V) B (\<lambda>S1. f (S1\<lparr>hs_tokens := g S1\<rparr>))" if "hub_runs (sv_lib V) B f"
    for f :: "tick_answer act" and g
    unfolding hub_runs_def
  proof
    fix S1 :: hub_state
    have "hub_move (sv_lib V) B S1 (S1\<lparr>hs_tokens := g S1\<rparr>)" by (rule hub_move_ops) simp_all
    then show "(hub_move (sv_lib V) B)\<^sup>*\<^sup>* S1 (fst (f (S1\<lparr>hs_tokens := g S1\<rparr>)))"
      using hub_runsD [OF that] by (rule converse_rtranclp_into_rtranclp)
  qed
  have body: "hub_runs (sv_lib V) B (\<lambda>S1. let rows = jobs (hs_ops S1); active = filter is_active rows;
                  S2 = S1\<lparr>hs_tokens := known_tokens active (hs_tokens S1)\<rparr>
              in case active of
                   [] \<Rightarrow> launch V rows now S2
                 | [row] \<Rightarrow> poll_job V row now S2
                 | _ \<Rightarrow> (S2, Inl (BoundaryError ''scheduler'' ''multiple_active_jobs'')))"
    unfolding hub_runs_def Let_def
  proof
    fix S1 :: hub_state
    let ?g = "\<lambda>S. known_tokens (filter is_active (jobs (hs_ops S))) (hs_tokens S)"
    let ?S2 = "S1\<lparr>hs_tokens := ?g S1\<rparr>"
    have none: "(hub_move (sv_lib V) B)\<^sup>*\<^sup>* S1 ?S2" by (intro r_into_rtranclp hub_move_ops) simp_all
    show "(hub_move (sv_lib V) B)\<^sup>*\<^sup>* S1 (fst (case filter is_active (jobs (hs_ops S1)) of
                   [] \<Rightarrow> launch V (jobs (hs_ops S1)) now ?S2
                 | [row] \<Rightarrow> poll_job V row now ?S2
                 | _ \<Rightarrow> (?S2, Inl (BoundaryError ''scheduler'' ''multiple_active_jobs''))))"
      using hub_runsD [OF forget [where g = ?g, OF runs_launch], where S = S1]
        hub_runsD [OF forget [where g = ?g, OF runs_poll], where S = S1] none
      by (auto split: list.split)
  qed
  have "hub_runs (sv_lib V) B (bind_act (on_ops paused) (\<lambda>is_paused.
          if is_paused then tick_reply ''paused_by_operator'' None []
          else bind_act (on_ops (expire now)) (\<lambda>_ S1.
              let rows = jobs (hs_ops S1); active = filter is_active rows;
                  S2 = S1\<lparr>hs_tokens := known_tokens active (hs_tokens S1)\<rparr>
              in case active of
                   [] \<Rightarrow> launch V rows now S2
                 | [row] \<Rightarrow> poll_job V row now S2
                 | _ \<Rightarrow> (S2, Inl (BoundaryError ''scheduler'' ''multiple_active_jobs'')))))"
    by (intro runs_bind runs_if runs body)
  from hub_runsD [OF this, of S] show ?thesis by (simp add: tick_def)
qed

section \<open>Histories of the hub\<close>

text \<open>
  Ticks with any surroundings, interleaved with every other transaction, the end of a scheduler and
  the start of the next one on the same database.
\<close>

inductive hub_step :: "stdlib \<Rightarrow> int \<Rightarrow> hub_state \<Rightarrow> hub_state \<Rightarrow> bool" for L B where
  ticked: "sv_lib V = L \<Longrightarrow> hub_step L B S (fst (tick V now S))"
| other: "ledger_step L B (hs_ops S) s' \<Longrightarrow> hub_step L B S (S\<lparr>hs_ops := s'\<rparr>)"
| ended: "hub_step L B S (close_scheduler S)"
| restarted: "hub_step L B S (S\<lparr>hs_tokens := Map.empty, hs_closed := False\<rparr>)"

fun submit_jobs :: "provider_call list \<Rightarrow> string list" where
  "submit_jobs [] = []"
| "submit_jobs (SubmitCall i q # cs) = i # submit_jobs cs"
| "submit_jobs (CancelCall i # cs) = submit_jobs cs"

fun cancel_jobs :: "provider_call list \<Rightarrow> string list" where
  "cancel_jobs [] = []"
| "cancel_jobs (SubmitCall i q # cs) = cancel_jobs cs"
| "cancel_jobs (CancelCall i # cs) = i # cancel_jobs cs"

lemma submit_jobs_append [simp]: "submit_jobs (xs @ ys) = submit_jobs xs @ submit_jobs ys"
  by (induction xs rule: submit_jobs.induct) simp_all

lemma cancel_jobs_append [simp]: "cancel_jobs (xs @ ys) = cancel_jobs xs @ cancel_jobs ys"
  by (induction xs rule: cancel_jobs.induct) simp_all

definition hub_ok :: "stdlib \<Rightarrow> int \<Rightarrow> hub_state \<Rightarrow> bool" where
  "hub_ok L B S \<longleftrightarrow> ledger_ok L B (hs_ops S) \<and>
     distinct (submit_jobs (hs_calls S)) \<and> (\<forall>i \<in> set (submit_jobs (hs_calls S)). has_attempt (hs_ops S) i) \<and>
     distinct (cancel_jobs (hs_calls S)) \<and> (\<forall>i \<in> set (cancel_jobs (hs_calls S)). cancel_began (hs_ops S) i)"

lemma hub_ok_move:
  assumes "hub_move L B S S'" and ok: "hub_ok L B S"
  shows "hub_ok L B S'"
proof -
  have ledger: "ledger_ok L B (hs_ops S)" using ok by (simp add: hub_ok_def)
  have keep: "ledger_step L B (hs_ops S) s' \<Longrightarrow> ledger_ok L B s' \<and>
      (\<forall>i. has_attempt (hs_ops S) i \<longrightarrow> has_attempt s' i) \<and> (\<forall>i. cancel_began (hs_ops S) i \<longrightarrow> cancel_began s' i)" for s'
    using submissions.ok_step [OF ledger] submissions.held_step [OF ledger] cancellations.held_step [OF ledger] by blast
  show ?thesis
    using assms(1)
  proof (cases rule: hub_move.cases)
    case internal
    with ok keep [OF internal(1)] show ?thesis by (auto simp: hub_ok_def)
  next
    case (asked i q)
    note k = keep [OF submissions.grant_step [OF ledger asked(1)]]
    from k ok asked(2) submissions.grant_fresh [OF ledger asked(1)] submissions.grant_held [OF ledger asked(1)]
    show ?thesis by (auto simp: hub_ok_def)
  next
    case (stopped i)
    note k = keep [OF cancellations.grant_step [OF ledger stopped(1)]]
    from k ok stopped(2) cancellations.grant_fresh [OF ledger stopped(1)] cancellations.grant_held [OF ledger stopped(1)]
    show ?thesis by (auto simp: hub_ok_def)
  qed
qed

lemma hub_ok_moves: "(hub_move L B)\<^sup>*\<^sup>* S S' \<Longrightarrow> hub_ok L B S \<Longrightarrow> hub_ok L B S'"
  by (induction rule: rtranclp_induct) (auto intro: hub_ok_move)

lemma hub_ok_step:
  assumes "hub_step L B S S'" and ok: "hub_ok L B S"
  shows "hub_ok L B S'"
  using assms(1)
proof (cases rule: hub_step.cases)
  case (ticked V now)
  with hub_ok_moves [OF tick_moves [of V B S now]] ok show ?thesis by simp
next
  case (other s')
  then have "hub_move L B S S'" by (intro hub_move.internal) simp_all
  then show ?thesis using ok by (rule hub_ok_move)
qed (use ok in \<open>auto simp: close_scheduler_def hub_ok_def\<close>)

lemma hub_ok_steps: "(hub_step L B)\<^sup>*\<^sup>* S S' \<Longrightarrow> hub_ok L B S \<Longrightarrow> hub_ok L B S'"
  by (induction rule: rtranclp_induct) (auto intro: hub_ok_step)

lemma new_hub_ok: "new_scheduler budget locked s = Inr S \<Longrightarrow> ledger_ok L B s \<Longrightarrow> hub_ok L B S"
  by (auto simp: new_scheduler_def hub_ok_def split: if_splits)

section \<open>Terminal evidence settles a job\<close>

text \<open>What the provider's answers must be for the attempt of a row.\<close>

definition answers_for :: "scheduler_env \<Rightarrow> job \<Rightarrow> attempt \<Rightarrow> compute_request \<Rightarrow> compute_handle \<Rightarrow> compute_receipt \<Rightarrow> bool" where
  "answers_for V r a q h v \<longleftrightarrow>
     decode_request (sv_lib V) (a_request a) = Inr q \<and> (\<exists>w. a_handle a = Some w \<and> sv_restore V w = Inr h) \<and>
     \<not> handle_mismatch V r a q h \<and> sv_poll V h = Inr (Some v) \<and> bind_receipt (sv_lib V) v q = Inr () \<and>
     sv_validate V q v = Inr () \<and> decode_receipt (sv_lib V) (JObj (receipt_dict v)) = Inr v"

lemma on_ops_Inr: "t (hs_ops S) = Inr (s', x) \<Longrightarrow> on_ops t S = (S\<lparr>hs_ops := s'\<rparr>, Inr x)"
  by (simp add: on_ops_def lift_run_def committed_def)

lemma accept_selects:
  assumes "decode_receipt L receipt = Inr v" and "job_row s i = Some r" and "attempt_row s i = Some a"
    and "lease_matches (sha256 L) r token" and "j_status r \<in> {Running, Uncertain, SubmissionUnknown}"
    and "a_handle a \<noteq> None" and "decode_request L (a_request a) = Inr q" and "bind_receipt L v q = Inr ()"
    and "j_attempt_id r = Some (a_attempt_id a)" and "a_fence a = j_fence r"
  shows "\<exists>s'. accept_compute L clock i token (a_attempt_id a) (j_fence r) receipt False s = Inr (s', ()) \<and>
    job_row s' i = Some (r\<lparr>j_status := accepted_status False v, j_result := Some (sort_keys receipt)\<rparr>)"
proof -
  have fenced: "compute_fenced (sha256 L) s i token (a_attempt_id a) (j_fence r) = Inr r"
    using assms(2,4,9) by (simp add: compute_fenced_def)
  have live: "\<not> (j_status r = accepted_status False v \<and> a_receipt a = Some (sort_keys receipt))" "acceptable False r"
    using assms(5) by (auto simp: accepted_status_def acceptable_def)
  have id: "j_id r = i" using assms(2) job_row_id by blast
  have "job_row (update_job i (\<lambda>r. r\<lparr>j_status := accepted_status False v, j_result := Some (selected_result False v (sort_keys receipt))\<rparr>) s) i =
      Some (r\<lparr>j_status := accepted_status False v, j_result := Some (sort_keys receipt)\<rparr>)"
    using assms(2) by (simp add: job_row_def update_job_def find_key_update_same selected_result_def)
  then have "job_row (record_event clock ''scheduler'' (''compute_'' @ status_word (accepted_status False v)) i receipt
       (update_attempt i (\<lambda>a. a\<lparr>a_phase := Settled (accepted_status False v), a_receipt := Some (sort_keys receipt)\<rparr>)
         (update_job i (\<lambda>r. r\<lparr>j_status := accepted_status False v, j_result := Some (selected_result False v (sort_keys receipt))\<rparr>) s))) i =
      Some (r\<lparr>j_status := accepted_status False v, j_result := Some (sort_keys receipt)\<rparr>)"
    by (simp add: job_row_def update_attempt_def)
  then show ?thesis
    using assms(1,3,6-10) fenced live by (auto simp: accept_compute_def Let_def)
qed

lemma only_active:
  assumes "ledger_ok L B s" and "job_row s i = Some r" and "is_active r"
  shows "filter is_active (jobs s) = [r]"
proof -
  have keyed: "distinct (map j_id (jobs s))" using assms(1) by (simp add: ledger_ok_def ledger_keyed_def)
  have r: "r \<in> set (jobs s)" "j_id r = i" using job_row_id [OF assms(2)] by simp_all
  have "is_active p \<longleftrightarrow> j_id p = j_id r" if "p \<in> set (jobs s)" for p
  proof
    assume "is_active p"
    moreover have "job_row s (j_id p) = Some p" using keyed that by (simp add: job_row_def find_key_distinct)
    ultimately show "j_id p = j_id r" using assms r(2) by (auto simp: ledger_ok_def at_most_one_active_def)
  next
    assume "j_id p = j_id r"
    with distinct_key_inj [OF keyed that r(1)] assms(3) show "is_active p" by simp
  qed
  then have "filter is_active (jobs s) = filter (\<lambda>p. j_id p = j_id r) (jobs s)" by (intro filter_cong) simp_all
  then show ?thesis using filter_unique_key [OF keyed r(1)] by simp
qed

lemma expire_row:
  assumes "job_row s i = Some r"
  shows "\<exists>n s1 r1. expire (Finite t) s = Inr (s1, n) \<and> job_row s1 i = Some r1 \<and> attempts s1 = attempts s \<and>
     (r1 = r \<or> j_status r = Running \<and> r1 = r\<lparr>j_status := Uncertain\<rparr>)"
proof -
  let ?f = "\<lambda>r. r\<lparr>j_status := Uncertain\<rparr>"
  have "find (\<lambda>q. j_id q = i) (update_where (lease_expired t) ?f rows) = Some (if lease_expired t r then ?f r else r)"
    if "find (\<lambda>q. j_id q = i) rows = Some r" for rows
    using that by (induction rows) (auto split: if_splits)
  with assms show ?thesis by (auto simp: expire_def job_row_def lease_expired_def)
qed

lemma token_granted:
  assumes row: "job_row (hs_ops S) i = Some r" and active: "is_active r" and ok: "row_ok r"
    and token: "hs_tokens S i = None \<or> (\<exists>token. hs_tokens S i = Some token \<and> lease_matches (sv_sha V) r token)"
  shows "\<exists>S' token r'. token_of V r (Finite t) S = (S', Inr token) \<and> job_row (hs_ops S') i = Some r' \<and>
     lease_matches (sv_sha V) r' token \<and> attempts (hs_ops S') = attempts (hs_ops S) \<and>
     j_attempt_id r' = j_attempt_id r \<and> j_fence r' = j_fence r \<and>
     (j_status r' = j_status r \<or> j_status r = Running \<and> j_status r' = Uncertain)"
proof (cases "hs_tokens S i")
  case (Some token')
  with token row show ?thesis using job_row_id [OF row] by (auto simp: token_of_def)
next
  case None
  have id: "j_id r = i" using job_row_id [OF row] by simp
  have "leased_ok r" using active ok by (simp add: row_ok_def)
  then obtain lease where lease: "j_lease_until r = Some lease" by (auto simp: leased_ok_def)
  define st where "st = (if j_status r = Running \<and> lease \<le> t then Uncertain else j_status r)"
  have st: "recovered_status r t = Inr st" by (auto simp: recovered_status_def st_def lease)
  let ?f = "\<lambda>r. r\<lparr>j_lease_hash := Some (token_hash (sv_sha V) (sv_token V)), j_status := st\<rparr>"
  let ?s = "record_event (sv_clock V) ''scheduler'' ''attempt_owner_recovered'' i
     (JObj [(''attempt_id'', optional_string (j_attempt_id r)), (''fence'', JInt (j_fence r))]) (update_job i ?f (hs_ops S))"
  have "recover_compute (sv_sha V) (sv_token V) (sv_clock V) i (j_attempt_id r) (j_fence r) (Finite t) (hs_ops S) =
      Inr (?s, (?f r)\<lparr>j_lease_hash := None\<rparr>, sv_token V)"
    using row active st by (simp add: recover_compute_def Let_def)
  note run = on_ops_Inr [where S = S and t = "recover_compute (sv_sha V) (sv_token V) (sv_clock V) i (j_attempt_id r) (j_fence r) (Finite t)", OF this]
  have "token_of V r (Finite t) S =
      (S\<lparr>hs_ops := ?s, hs_tokens := (hs_tokens S)(i \<mapsto> sv_token V)\<rparr>, Inr (sv_token V))"
    using None id run by (simp add: token_of_def bind_act_def)
  moreover have "job_row ?s i = Some (?f r)"
    using row by (simp add: job_row_def update_job_def find_key_update_same)
  ultimately show ?thesis
    by (intro exI [of _ "S\<lparr>hs_ops := ?s, hs_tokens := (hs_tokens S)(i \<mapsto> sv_token V)\<rparr>"] exI [of _ "sv_token V"] exI [of _ "?f r"])
      (simp add: lease_matches_def update_job_def st_def)
qed

lemma index_result_keeps:
  "\<exists>S' b. index_result V v S = (S', Inr b) \<and> jobs (hs_ops S') = jobs (hs_ops S)"
  by (auto simp: index_result_def answer_def bind_act_def on_ops_Inr)

lemma observe_settles:
  assumes "answers_for V row a q h v" and "j_id row = i" and "j_status row \<noteq> Cancelling"
    and "job_row (hs_ops S) i = Some r" and "attempt_row (hs_ops S) i = Some a" and "lease_matches (sv_sha V) r token"
    and "j_status r \<in> {Running, Uncertain, SubmissionUnknown}"
    and "j_attempt_id r = j_attempt_id row" and "j_fence r = j_fence row"
  shows "\<exists>S' detail r'. observe V row token q h S =
      (S', Inr (Some \<lparr>rp_state = (if rc_state v = ''paused'' then ''paused'' else ''completed''), rp_job = Some i, rp_detail = detail\<rparr>)) \<and>
      job_row (hs_ops S') i = Some r' \<and> j_status r' = accepted_status False v \<and> j_result r' = Some (sort_keys (JObj (receipt_dict v)))"
proof -
  from assms(1) have ans: "decode_request (sv_lib V) (a_request a) = Inr q" "a_handle a \<noteq> None" "sv_poll V h = Inr (Some v)"
    "bind_receipt (sv_lib V) v q = Inr ()" "sv_validate V q v = Inr ()"
    "decode_receipt (sv_lib V) (JObj (receipt_dict v)) = Inr v" "j_attempt_id row = Some (a_attempt_id a)" "a_fence a = j_fence row"
    by (auto simp: answers_for_def handle_mismatch_def)
  from accept_selects [OF ans(6) assms(4,5,6,7) ans(2,1,4), of "sv_clock V"] ans(7,8) assms(8,9)
  obtain s' where s': "accept_compute (sv_lib V) (sv_clock V) i token (a_attempt_id a) (j_fence row) (JObj (receipt_dict v)) False (hs_ops S) = Inr (s', ())"
    and row: "job_row s' i = Some (r\<lparr>j_status := accepted_status False v, j_result := Some (sort_keys (JObj (receipt_dict v)))\<rparr>)"
    by auto
  obtain S' b where S': "index_result V v (S\<lparr>hs_ops := s'\<rparr>) = (S', Inr b)" "jobs (hs_ops S') = jobs s'"
    using index_result_keeps [of V v "S\<lparr>hs_ops := s'\<rparr>"] by auto
  have "row_attempt row = a_attempt_id a" using ans(7) by (simp add: row_attempt_def)
  then show ?thesis
    using ans assms(2,3) on_ops_Inr [where S = S and t = "accept_compute (sv_lib V) (sv_clock V) i token (a_attempt_id a) (j_fence row) (JObj (receipt_dict v)) False", OF s'] S' row
    by (simp add: observe_def Let_def bind_act_def answer_def tick_reply_def job_row_def)
qed

lemma tick_settles:
  assumes ok: "ledger_ok (sv_lib V) B (hs_ops S)" and closed: "\<not> hs_closed S" and awake: "settings (hs_ops S) ''paused'' = Some ''0''"
    and row: "job_row (hs_ops S) i = Some r" and status: "j_status r \<in> {Running, Uncertain, SubmissionUnknown}"
    and attempt: "attempt_row (hs_ops S) i = Some a" and answers: "answers_for V r a q h v"
    and token: "hs_tokens S i = None \<or> (\<exists>token. hs_tokens S i = Some token \<and> lease_matches (sv_sha V) r token)"
  shows "\<exists>S' detail r'. tick V (Finite t) S =
      (S', Inr \<lparr>rp_state = (if rc_state v = ''paused'' then ''paused'' else ''completed''), rp_job = Some i, rp_detail = detail\<rparr>) \<and>
      job_row (hs_ops S') i = Some r' \<and> j_status r' = accepted_status False v \<and> j_result r' = Some (sort_keys (JObj (receipt_dict v)))"
proof -
  obtain n s1 r1 where expired: "expire (Finite t) (hs_ops S) = Inr (s1, n)" and r1: "job_row s1 i = Some r1"
    and same: "attempts s1 = attempts (hs_ops S)" "r1 = r \<or> j_status r = Running \<and> r1 = r\<lparr>j_status := Uncertain\<rparr>"
    using expire_row [OF row] by blast
  have ok1: "ledger_ok (sv_lib V) B s1" by (rule ledger_step_ok [OF ledger_step.expired [OF expired] ok])
  have active: "is_active r1" using same(2) status by (auto simp: status_simps)
  have good: "row_ok r1" using ok1 r1 by (auto simp: ledger_ok_def cells_ok_def cell_ok_def)
  then have "leased_ok r1" using active by (simp add: row_ok_def)
  then obtain deadline where deadline: "j_deadline r1 = Some deadline" by (auto simp: leased_ok_def)
  have id: "j_id r1 = i" using job_row_id [OF r1] by simp
  let ?S2 = "S\<lparr>hs_ops := s1, hs_tokens := known_tokens [r1] (hs_tokens S)\<rparr>"
  have tokens: "hs_tokens ?S2 i = None \<or> (\<exists>token. hs_tokens ?S2 i = Some token \<and> lease_matches (sv_sha V) r1 token)"
    using token same(2) id by (auto simp: known_tokens_def lease_matches_def)
  have "job_row (hs_ops ?S2) i = Some r1" using r1 by simp
  from token_granted [OF this active good tokens, of t] obtain S3 token r3
    where given: "token_of V r1 (Finite t) ?S2 = (S3, Inr token)" and r3: "job_row (hs_ops S3) i = Some r3"
      "lease_matches (sv_sha V) r3 token" "attempts (hs_ops S3) = attempts s1" "j_attempt_id r3 = j_attempt_id r1"
      "j_fence r3 = j_fence r1" "j_status r3 = j_status r1 \<or> j_status r1 = Running \<and> j_status r3 = Uncertain"
    by auto
  have attempt3: "attempt_row (hs_ops S3) i = Some a" using attempt r3(3) same(1) by (simp add: attempt_row_def)
  have answers1: "answers_for V r1 a q h v" using answers same(2) by (auto simp: answers_for_def handle_mismatch_def)
  have calm: "j_status r1 \<noteq> Cancelling" "j_status r3 \<in> {Running, Uncertain, SubmissionUnknown}"
    using same(2) status r3(6) by auto
  from observe_settles [OF answers1 id calm(1) r3(1) attempt3 r3(2) calm(2) r3(4,5)] obtain S' detail r'
    where seen: "observe V r1 token q h S3 = (S', Inr (Some \<lparr>rp_state = (if rc_state v = ''paused'' then ''paused'' else ''completed''),
        rp_job = Some i, rp_detail = detail\<rparr>))"
      and r': "job_row (hs_ops S') i = Some r'" "j_status r' = accepted_status False v"
        "j_result r' = Some (sort_keys (JObj (receipt_dict v)))" by blast
  have watched: "watch_job V r1 (Finite t) token q h deadline S3 = (S', Inr \<lparr>rp_state = (if rc_state v = ''paused'' then ''paused'' else ''completed''),
        rp_job = Some i, rp_detail = detail\<rparr>)"
    using calm(1) by (simp add: watch_job_def Let_def bind_act_def answer_def rescue_def seen)
  obtain w where w: "a_handle a = Some w" "sv_restore V w = Inr h" "decode_request (sv_lib V) (a_request a) = Inr q"
    "\<not> handle_mismatch V r1 a q h" using answers1 by (auto simp: answers_for_def)
  have state: "on_ops (compute_state i) S3 = (S3, Inr (Some a))"
    using on_ops_Inr [of "compute_state i" S3 "hs_ops S3" "Some a"] attempt3 by (simp add: compute_state_def)
  have "poll_job V r1 (Finite t) ?S2 = (S', Inr \<lparr>rp_state = (if rc_state v = ''paused'' then ''paused'' else ''completed''),
        rp_job = Some i, rp_detail = detail\<rparr>)"
    using given state w deadline watched by (simp add: poll_job_def Let_def bind_act_def answer_def id)
  moreover have "on_ops paused S = (S, Inr False)"
    using on_ops_Inr [of paused S "hs_ops S" False] awake by (simp add: paused_def setting_paused_def)
  ultimately have "tick V (Finite t) S = (S', Inr \<lparr>rp_state = (if rc_state v = ''paused'' then ''paused'' else ''completed''),
        rp_job = Some i, rp_detail = detail\<rparr>)"
    using closed on_ops_Inr [where S = S and t = "expire (Finite t)", OF expired] only_active [OF ok1 r1 active]
    by (simp add: tick_def bind_act_def Let_def)
  with r' show ?thesis by blast
qed

end
