(* ===== verification/SchedulerClaims.thy ===== *)
theory SchedulerClaims
  imports Samples SchedulerRuns
begin

text \<open>
  The properties of the scheduler, with witnesses on a sample hub: a queued job is submitted by one
  tick, and the job of the ledger sample, already bound to its call, is settled by another.
\<close>

section \<open>A sample hub\<close>

definition run_manifest :: manifest where
  "run_manifest = \<lparr>mf_kind = ''run'', mf_producer = sample_producer,
     mf_parents = [Parent ''training_input'' sample_target], mf_payloads = [], mf_parameters = JObj []\<rparr>"

definition sample_handle :: compute_handle where
  "sample_handle = \<lparr>ch_call_id = ''fc-1'', ch_target_id = sample_target, ch_request = sample_request,
     ch_dict = JObj (call_dict sample_call)\<rparr>"

definition sample_env :: scheduler_env where
  "sample_env = \<lparr>sv_lib = sample_lib, sv_clock = 0, sv_token = ''tok'', sv_attempt = ''at1'', sv_budget = 10,
     sv_producer = sample_producer, sv_timeout = 60, sv_target_id = sample_target,
     sv_submit = (\<lambda>q. Inr sample_handle), sv_restore = (\<lambda>h. Inr sample_handle),
     sv_poll = (\<lambda>h. Inr (Some sample_receipt)), sv_cancel = (\<lambda>h. Inr ()), sv_fetch = (\<lambda>i. Inr run_manifest),
     sv_feature_job = (\<lambda>i p. Inr ()), sv_training_input = (\<lambda>i p. Inr ()), sv_validate = (\<lambda>q v. Inr ()),
     sv_index = (\<lambda>v. True)\<rparr>"

definition hub_queued :: hub_state where
  "hub_queued = \<lparr>hs_ops = sample_queued, hs_tokens = Map.empty, hs_closed = False, hs_calls = []\<rparr>"

definition hub_bound :: hub_state where
  "hub_bound = \<lparr>hs_ops = sample_bound, hs_tokens = Map.empty, hs_closed = False, hs_calls = []\<rparr>"

lemma submit_ran:
  "(case tick sample_env (Finite 100) hub_queued of (S', r) \<Rightarrow>
      (submit_jobs (hs_calls S'), map (\<lambda>r. (j_id r, j_status r, j_provider_ref r)) (jobs (hs_ops S')),
       map_sum id rp_state r)) =
   ([''j1''], [(''j1'', Running, Some ''fc-1'')], Inr ''submitted'')"
  by code_simp



lemma hub_queued_ok: "new_scheduler (JInt 10) False sample_queued = Inr hub_queued"
  by (simp add: new_scheduler_def hub_queued_def)

lemma bound_answers: "answers_for sample_env bound_job bound_attempt sample_request sample_handle sample_receipt"
proof -
  have "decode_request sample_lib (a_request bound_attempt) = Inr sample_request"
    "bind_receipt sample_lib sample_receipt sample_request = Inr ()"
    "decode_receipt sample_lib (JObj (receipt_dict sample_receipt)) = Inr sample_receipt" by code_simp+
  then show ?thesis
    by (simp add: answers_for_def handle_mismatch_def sample_env_def bound_attempt_def intent_attempt_def
        bound_job_def leased_job_def sample_handle_def)
qed

section \<open>The properties\<close>


text \<open>Claim C9. The provider is asked to run a job, and to cancel it, at most once: in any history of
ticks under any surroundings, interleaved with any other transactions and with schedulers that end and
are started again on the same database, the submissions the provider received name each job at most
once, and so do the cancellations. A submission whose answer was lost is never repeated.\<close>

theorem provider_asked_once:
  assumes "(hub_step L B)\<^sup>*\<^sup>* S S'" and "new_scheduler budget locked s = Inr S" and "ledger_ok L B s"
  shows "distinct (submit_jobs (hs_calls S')) \<and> distinct (cancel_jobs (hs_calls S')) \<and>
    (\<forall>i \<in> set (submit_jobs (hs_calls S')). attempt_row (hs_ops S') i \<noteq> None)"
  using hub_ok_steps [OF assms(1) new_hub_ok [OF assms(2,3)]] by (auto simp: hub_ok_def has_attempt_def)

theorem provider_asked_once_witness:
  "submit_jobs (hs_calls (fst (tick sample_env (Finite 100) hub_queued))) = [''j1''] \<and>
   attempt_row (hs_ops (fst (tick sample_env (Finite 100) hub_queued))) ''j1'' \<noteq> None"
proof -
  have "hub_step sample_lib 10 hub_queued (fst (tick sample_env (Finite 100) hub_queued))"
    by (rule hub_step.ticked) (simp add: sample_env_def)
  then have "(hub_step sample_lib 10)\<^sup>*\<^sup>* hub_queued (fst (tick sample_env (Finite 100) hub_queued))" by (rule r_into_rtranclp)
  from provider_asked_once [OF this hub_queued_ok sample_states_ok(2)] submit_ran show ?thesis
    by (auto simp: case_prod_beta)
qed

text \<open>Claim C10. Terminal evidence settles a job, at the next tick and whoever asked: when an unpaused
hub has an active job with a recorded call that is not being cancelled, and the provider returns a
receipt bound to the recorded request that validates, then one tick selects it. The job is completed, or
paused when the receipt says so, with that receipt as its result; a scheduler that lost its token by a
restart recovers the attempt in the same tick, and an expired lease does not stand in the way.\<close>

theorem terminal_evidence_settles:
  assumes "ledger_ok (sv_lib V) B (hs_ops S)" and "\<not> hs_closed S" and "settings (hs_ops S) ''paused'' = Some ''0''"
    and "job_row (hs_ops S) i = Some r" and "j_status r \<in> {Running, Uncertain, SubmissionUnknown}"
    and "attempt_row (hs_ops S) i = Some a" and "answers_for V r a q h v"
    and "hs_tokens S i = None \<or> (\<exists>token. hs_tokens S i = Some token \<and> lease_matches (sv_sha V) r token)"
  shows "\<exists>S' detail r'. tick V (Finite t) S =
      (S', Inr \<lparr>rp_state = (if rc_state v = ''paused'' then ''paused'' else ''completed''), rp_job = Some i, rp_detail = detail\<rparr>) \<and>
      job_row (hs_ops S') i = Some r' \<and> j_status r' = (if rc_state v = ''paused'' then Paused else Completed) \<and>
      j_result r' = Some (sort_keys (JObj (receipt_dict v)))"
  using tick_settles [OF assms] by (simp add: accepted_status_def)

theorem terminal_evidence_settles_witness:
  "\<exists>S' detail r'. tick sample_env (Finite 500) hub_bound =
      (S', Inr \<lparr>rp_state = ''completed'', rp_job = Some ''j1'', rp_detail = detail\<rparr>) \<and>
      job_row (hs_ops S') ''j1'' = Some r' \<and> j_status r' = Completed"
proof -
  have "job_row (hs_ops hub_bound) ''j1'' = Some bound_job" "attempt_row (hs_ops hub_bound) ''j1'' = Some bound_attempt"
    "ledger_ok (sv_lib sample_env) 10 (hs_ops hub_bound)" "settings (hs_ops hub_bound) ''paused'' = Some ''0''"
    using sample_states_ok(4)
    by (simp_all add: hub_bound_def sample_bound_def job_row_def attempt_row_def bound_job_def leased_job_def queued_job_def
        bound_attempt_def intent_attempt_def sample_env_def new_operations_def)
  moreover have "j_status bound_job \<in> {Running, Uncertain, SubmissionUnknown}" "\<not> hs_closed hub_bound" "hs_tokens hub_bound ''j1'' = None"
    by (simp_all add: bound_job_def leased_job_def hub_bound_def)
  moreover have "rc_state sample_receipt \<noteq> ''paused''" by (simp add: sample_receipt_def)
  ultimately show ?thesis
    using terminal_evidence_settles [OF _ _ _ _ _ _ bound_answers, of 10 hub_bound "''j1''" 500] by auto
qed

end
