(* ===== verification/Sharing.thy ===== *)
theory Sharing
  imports CollectionActivity CurationAccess Store Principals
begin

text \<open>
  python/spireagent/hub/collections.py: what a project member may read of the received
  collections. Verified data is shared with the project unless its sharing was withdrawn; an
  explicit decision is never overruled by the automatic association of an enrolled device.
\<close>

definition require_member :: "principal \<Rightarrow> unit result" where
  "require_member p = (if \<not> project_shared p then Inl (BoundaryError ''hub'' ''unauthorized'') else Inr ())"

definition sharing_upload_id :: "json \<Rightarrow> string result" where
  "sharing_upload_id value =
     (case value of
        JStr t \<Rightarrow> if length t = 32 \<and> lower_hex t then Inr t else Inl (BoundaryError ''sharing'' ''invalid_upload_id'')
      | _ \<Rightarrow> Inl (BoundaryError ''sharing'' ''invalid_upload_id''))"

definition sharing_row :: "ops \<Rightarrow> string \<Rightarrow> sharing option" where
  "sharing_row s i = find (\<lambda>r. sh_upload r = i) (shared s)"

text \<open>The \<open>approved\<close> column of the LEFT JOIN: None is NULL.\<close>

definition approval_of :: "ops \<Rightarrow> string \<Rightarrow> bool option" where
  "approval_of s i = map_option sh_approved (sharing_row s i)"

section \<open>Decisions of the owner\<close>

text \<open>INSERT ... ON CONFLICT(upload\_id) DO UPDATE: a known row keeps its place.\<close>

definition upsert_sharing :: "sharing \<Rightarrow> ops \<Rightarrow> ops" where
  "upsert_sharing r s =
     s\<lparr>shared := (if sharing_row s (sh_upload r) = None then shared s @ [r]
                 else update_where (\<lambda>q. sh_upload q = sh_upload r) (\<lambda>q. r) (shared s))\<rparr>"

definition set_collection_access ::
  "real \<Rightarrow> json \<Rightarrow> json \<Rightarrow> json \<Rightarrow> string \<Rightarrow> (ops, unit) tx" where
  "set_collection_access clock upload approved evidence actor s =
     and_then (sharing_upload_id upload) (\<lambda>i.
     and_then (digest evidence ''sharing.evidence_ref'' 64) (\<lambda>ref.
       case approved of
         JBool ok \<Rightarrow>
           if actor = [] \<or> 256 < length actor then Inl (BoundaryError ''sharing'' ''invalid_approval'')
           else if \<not> list_ex (\<lambda>u. u_id u = i) (uploads s)
           then Inl (BoundaryError ''sharing'' ''collection_not_found'')
           else if (case sharing_row s i of None \<Rightarrow> False | Some r \<Rightarrow> sh_approved r = ok \<and> sh_evidence r = ref)
           then Inr (s, ())
           else
             Inr (record_event clock actor ''collection_sharing_changed'' i
                    (JObj [(''approved'', JBool ok), (''evidence_ref'', JStr ref)])
                    (upsert_sharing \<lparr>sh_upload = i, sh_approved = ok, sh_evidence = ref, sh_changed_at = clock\<rparr> s), ())
       | _ \<Rightarrow> Inl (BoundaryError ''sharing'' ''invalid_approval'')))"

section \<open>The automatic association\<close>

text \<open>What the association reads of a verified bundle; \<open>vb\_current\<close> is \<open>isinstance(bundle, HumanSessionBundleV3)\<close>.\<close>

record verified_bundle =
  vb_current :: bool
  vb_content_id :: string
  vb_sha256 :: string
  vb_campaign_id :: string
  vb_worker_id :: string

definition campaign_prefix :: string where "campaign_prefix = ''campaign-''"

definition campaign_enrollment :: "string \<Rightarrow> string option" where
  "campaign_enrollment t =
     (let n = length campaign_prefix in
      if take n t = campaign_prefix \<and> length (drop n t) = 32 \<and> lower_hex (drop n t) then Some (drop n t) else None)"

definition not_granted :: "string \<Rightarrow> (string \<times> json) list" where
  "not_granted reason = [(''availability'', JStr ''not_granted''), (''reason'', JStr reason)]"

definition receipt_fields :: "json \<Rightarrow> (string \<times> json) list" where
  "receipt_fields v = (case v of JObj kvs \<Rightarrow> kvs | _ \<Rightarrow> [])"

text \<open>
  The inner joins need the activity and the device; the left join may find no member. \<open>repr\<close> is
  \<open>float.\_\_repr\_\_\<close> of the declaration time.
\<close>

definition enrollment_found :: "ops \<Rightarrow> string \<Rightarrow> (enrollment \<times> activity \<times> device) option" where
  "enrollment_found s i =
     (case find (\<lambda>e. en_id e = i) (enrollments s) of
        None \<Rightarrow> None
      | Some e \<Rightarrow>
          (case (find (\<lambda>a. ac_id a = en_template_id e) (activities s), find (\<lambda>d. d_id d = en_device_id e) (devices s)) of
             (Some a, Some d) \<Rightarrow> Some (e, a, d)
           | _ \<Rightarrow> None))"

definition active_subject :: "ops \<Rightarrow> string \<Rightarrow> bool" where
  "active_subject s subject \<longleftrightarrow>
     (case find (\<lambda>m. m_subject m = Some subject) (members s) of None \<Rightarrow> False | Some m \<Rightarrow> m_status m = Active)"

definition declaration_of :: "(real \<Rightarrow> string) \<Rightarrow> enrollment \<Rightarrow> activity \<Rightarrow> string \<Rightarrow> json" where
  "declaration_of repr e a campaign =
     JObj [(''schema'', JStr enrollment_schema), (''enrollment_id'', JStr (en_id e)),
           (''template_id'', JStr (en_template_id e)), (''template'', ac_template a),
           (''device_id'', JStr (en_device_id e)), (''campaign_id'', JStr campaign),
           (''consent'', en_consent e), (''declared_at'', JFloat (repr (en_created_at e))),
           (''human_origin_verified'', JBool False)]"

definition sharing_binding :: "hash \<Rightarrow> (string \<times> json) list \<Rightarrow> enrollment \<Rightarrow> upload \<Rightarrow> verified_bundle \<Rightarrow> string \<Rightarrow> json" where
  "sharing_binding sha declaration e row bundle received =
     JObj [(''schema'', JStr ''stpd/enrolled-bundle-sharing-v1''),
           (''enrollment_sha256'', JStr (sha (json_bytes (JObj declaration)))),
           (''enrollment_id'', JStr (en_id e)), (''template_id'', JStr (en_template_id e)),
           (''upload_id'', JStr (u_id row)), (''device_id'', JStr (u_device row)),
           (''bundle_content_id'', JStr (vb_content_id bundle)),
           (''bundle_checksums_sha256'', JStr (vb_sha256 bundle)), (''received_artifact_id'', JStr received)]"

definition verified_receipt :: "upload \<Rightarrow> (string \<times> json) list option" where
  "verified_receipt row = (if u_status row \<noteq> Verified then None else map_option receipt_fields (u_receipt row))"

definition bundle_matches :: "upload \<Rightarrow> (string \<times> json) list \<Rightarrow> verified_bundle \<Rightarrow> bool" where
  "bundle_matches row receipt bundle \<longleftrightarrow>
     u_content_id row = vb_content_id bundle \<and>
     map_of receipt ''content_id'' = Some (JStr (vb_content_id bundle)) \<and>
     map_of receipt ''status'' = Some (JStr ''verified'') \<and> u_device row = vb_worker_id bundle"

definition enrolled_owner :: "ops \<Rightarrow> upload \<Rightarrow> enrollment \<Rightarrow> device \<Rightarrow> bool" where
  "enrolled_owner s row e d \<longleftrightarrow>
     en_device_id e = u_device row \<and> d_owner d = Some (en_subject e) \<and> d_active d \<and> active_subject s (en_subject e)"

definition associate_enrolled ::
  "stdlib \<Rightarrow> (real \<Rightarrow> string) \<Rightarrow> real \<Rightarrow> upload \<Rightarrow> (string \<times> json) list \<Rightarrow> verified_bundle \<Rightarrow> enrollment \<Rightarrow> activity \<Rightarrow>
   (ops, (string \<times> json) list) tx" where
  "associate_enrolled L repr clock row receipt bundle e a s =
     and_then (validate_enrollment (sha256 L) (float_text L) (declaration_of repr e a (vb_campaign_id bundle))) (\<lambda>declaration.
     and_then (digest (case map_of receipt ''evidence_id'' of None \<Rightarrow> JNull | Some v \<Rightarrow> v) ''sharing.received_id'' 64) (\<lambda>received.
     let binding = sharing_binding (sha256 L) declaration e row bundle received;
         ref = sha256 L (json_bytes binding)
     in Inr (record_event clock (en_subject e) ''collection_sharing_associated'' (u_id row)
               (JObj [(''evidence_ref'', JStr ref), (''binding'', binding), (''human_origin_verified'', JBool False)])
               (s\<lparr>shared := shared s @ [\<lparr>sh_upload = u_id row, sh_approved = True, sh_evidence = ref, sh_changed_at = clock\<rparr>]\<rparr>),
             [(''availability'', JStr ''available''), (''scope'', JStr ''project_members'')])))"

definition associate_verified_collection ::
  "stdlib \<Rightarrow> (real \<Rightarrow> string) \<Rightarrow> real \<Rightarrow> string \<Rightarrow> verified_bundle \<Rightarrow> (ops, (string \<times> json) list) tx" where
  "associate_verified_collection L repr clock upload bundle s =
     and_then (sharing_upload_id (JStr upload)) (\<lambda>_.
       if \<not> vb_current bundle then Inr (s, not_granted ''current_verified_bundle_required'')
       else
         (case campaign_enrollment (vb_campaign_id bundle) of
            None \<Rightarrow> Inr (s, not_granted ''no_enrollment_identity'')
          | Some campaign \<Rightarrow>
              (case find (\<lambda>u. u_id u = upload) (uploads s) of
                 None \<Rightarrow> Inl (BoundaryError ''sharing'' ''collection_not_verified'')
               | Some row \<Rightarrow>
                   (case verified_receipt row of
                      None \<Rightarrow> Inl (BoundaryError ''sharing'' ''collection_not_verified'')
                    | Some receipt \<Rightarrow>
                        if \<not> bundle_matches row receipt bundle
                        then Inl (BoundaryError ''sharing'' ''verified_bundle_identity_mismatch'')
                        else
                          (case approval_of s upload of
                             Some ok \<Rightarrow>
                               Inr (s, [(''availability'', JStr (if ok then ''available'' else ''not_granted'')),
                                        (''reason'', JStr ''existing_owner_decision_preserved'')])
                           | None \<Rightarrow>
                               (case enrollment_found s campaign of
                                  None \<Rightarrow> Inr (s, not_granted ''enrollment_not_found'')
                                | Some (e, a, d) \<Rightarrow>
                                    if \<not> enrolled_owner s row e d
                                    then Inl (BoundaryError ''sharing'' ''active_enrolled_device_owner_required'')
                                    else associate_enrolled L repr clock row receipt bundle e a s))))))"

section \<open>What a member reads\<close>

definition availability :: "ops \<Rightarrow> string \<Rightarrow> string" where
  "availability s i =
     (case find (\<lambda>u. u_id u = i) (uploads s) of
        None \<Rightarrow> ''not_granted''
      | Some u \<Rightarrow>
          if approval_of s i = Some True \<or> (approval_of s i = None \<and> u_status u = Verified)
          then (if u_status u \<in> {Verified, Quarantined} then ''available'' else ''not_received'')
          else ''not_granted'')"

definition collection_access :: "json list \<Rightarrow> ops \<Rightarrow> (string \<times> string) list result" where
  "collection_access ids s =
     (if 100 < length ids then Inl (BoundaryError ''sharing'' ''selection_limit'')
      else and_then (each sharing_upload_id ids) (\<lambda>names. Inr (map (\<lambda>i. (i, availability s i)) names)))"

text \<open>\<open>receipt["evidence\_id"]\<close> is looked up in the store; \<open>fetch\<close> is its \<open>get\_manifest\<close>.\<close>

definition manifest_of_receipt :: "(string \<Rightarrow> manifest result) \<Rightarrow> (string \<times> json) list \<Rightarrow> manifest result" where
  "manifest_of_receipt fetch receipt =
     and_then (item receipt ''evidence_id'') (\<lambda>v.
       case v of JStr i \<Rightarrow> fetch i | _ \<Rightarrow> Inl (BoundaryError ''artifact_id'' ''invalid_digest''))"

definition status_named :: "upload_status \<Rightarrow> json" where
  "status_named st = JStr (case st of Verified \<Rightarrow> ''verified'' | Quarantined \<Rightarrow> ''quarantined'' | AwaitingUpload \<Rightarrow> ''awaiting_upload''
     | VerificationPending \<Rightarrow> ''verification_pending'' | TransferFailed \<Rightarrow> ''transfer_failed'')"

definition received_identity :: "manifest \<Rightarrow> payload \<Rightarrow> upload \<Rightarrow> (string \<times> json) list \<Rightarrow> (string \<times> json) list \<Rightarrow> bool" where
  "received_identity m archive row receipt intent \<longleftrightarrow>
     mf_kind m = ''evidence'' \<and>
     map_of (manifest_info m) ''schema'' = Some (JStr ''stpd/received-bundle-v1'') \<and>
     map_of (manifest_info m) ''content_id'' = Some (JStr (u_content_id row)) \<and>
     map_of receipt ''content_id'' = Some (JStr (u_content_id row)) \<and>
     map_of (manifest_info m) ''disposition'' = Some (status_named (u_status row)) \<and>
     map_of receipt ''status'' = Some (status_named (u_status row)) \<and>
     map_of intent ''archive_sha256'' = Some (JStr (payload_sha archive)) \<and>
     (case map_of intent ''archive_bytes'' of None \<Rightarrow> False | Some v \<Rightarrow> equals_int v (payload_size archive))"

definition collection :: "(string \<Rightarrow> manifest result) \<Rightarrow> json \<Rightarrow> ops \<Rightarrow> manifest result" where
  "collection fetch upload s =
     and_then (sharing_upload_id upload) (\<lambda>i.
       case find (\<lambda>u. u_id u = i) (uploads s) of
         None \<Rightarrow> Inl (BoundaryError ''sharing'' ''collection_not_shared'')
       | Some row \<Rightarrow>
           if approval_of s i = Some False \<or> (approval_of s i = None \<and> u_status row \<noteq> Verified)
           then Inl (BoundaryError ''sharing'' ''collection_not_shared'')
           else
             (case (u_status row \<in> {Verified, Quarantined}, u_receipt row) of
                (True, Some stored) \<Rightarrow>
                  (let receipt = receipt_fields stored; intent = receipt_fields (u_intent row) in
                   and_then (manifest_of_receipt fetch receipt) (\<lambda>m.
                   and_then (manifest_payload m ''archive'') (\<lambda>archive.
                     if received_identity m archive row receipt intent then Inr m
                     else Inl (BoundaryError ''sharing'' ''collection_identity_mismatch''))))
              | _ \<Rightarrow> Inl (BoundaryError ''sharing'' ''collection_not_received'')))"

text \<open>The uploads whose receipt names an artifact as their evidence, and whether one of them is withdrawn.\<close>

definition receipt_evidence :: "upload \<Rightarrow> json option" where
  "receipt_evidence u = (case u_receipt u of None \<Rightarrow> None | Some r \<Rightarrow> map_of (receipt_fields r) ''evidence_id'')"

definition withdrawn :: "ops \<Rightarrow> string \<Rightarrow> bool" where
  "withdrawn s i \<longleftrightarrow> list_ex (\<lambda>u. receipt_evidence u = Some (JStr i) \<and> approval_of s (u_id u) = Some False) (uploads s)"

definition withdrawn_ancestor :: "stdlib \<Rightarrow> ops \<Rightarrow> manifest list \<Rightarrow> bool" where
  "withdrawn_ancestor L s nodes \<longleftrightarrow>
     list_ex (\<lambda>m. map_of (manifest_info m) ''schema'' = Some (JStr ''stpd/received-bundle-v1'') \<and> withdrawn s (artifact_id L m)) nodes"

text \<open>
  \<open>artifact\<close>: the reader's decision about a published artifact. Recording a use is a transaction of
  its own and stays when the last check refuses.
\<close>

definition artifact ::
  "stdlib \<Rightarrow> (string \<Rightarrow> manifest result) \<Rightarrow> real \<Rightarrow> json \<Rightarrow> string option \<Rightarrow> ops \<Rightarrow> ops \<times> manifest result" where
  "artifact L fetch clock wanted purpose s =
     (case and_then (digest wanted ''export.artifact_id'' 64) (\<lambda>i.
            and_then (fetch i) (\<lambda>m.
            and_then (require_artifact_access L m True None (Some fetch)) (\<lambda>checked. Inr (m, checked)))) of
        Inl e \<Rightarrow> (s, Inl e)
      | Inr (m, checked) \<Rightarrow>
          (case (case purpose of
                   None \<Rightarrow> (s, and_then (guarded_runs L fetch m False checked s) (\<lambda>_. Inr ()))
                 | Some kind \<Rightarrow> record_use L fetch clock m kind checked s) of
             (s1, Inl e) \<Rightarrow> (s1, Inl e)
           | (s1, Inr _) \<Rightarrow>
               if mf_kind m = ''dataset'' \<and> withdrawn_ancestor L s1 checked
               then (s1, Inl (BoundaryError ''sharing'' ''source_sharing_not_established''))
               else (s1, Inr m)))"

end
