(* ===== verification/Selection.thy ===== *)
theory Selection
  imports Artifacts Curation
begin

text \<open>
  The requests of a dataset job: \<open>SelectionRules\<close> of python/stpd/fullrun/decision\_dataset.py and
  \<open>specification\<close> of python/spireagent/hub/dataset\_curation.py, decoded from untyped values.
\<close>

section \<open>Selection rules\<close>

definition rule_schema :: string where
  "rule_schema = ''stpd/decision-selection-v1''"

definition filter_names :: "string list" where
  "filter_names = [''character'', ''difficulty'', ''environment_identity'', ''game_version'', ''connector_version'',
     ''annotator_version'', ''family'', ''surface'', ''decision_kind'']"

text \<open>\<open>sr\_filters\<close> is the frozen object of the filters.\<close>

record selection_rules =
  sr_complete_only :: bool
  sr_wins_only :: bool
  sr_filters :: json
  sr_seed :: int
  sr_no_failures_only :: bool

definition check_filter_value :: "string \<Rightarrow> json \<Rightarrow> unit result" where
  "check_filter_value name v =
     (if name = ''difficulty'' then and_then (unsigned v ''decision_selection.difficulty'') (\<lambda>_. Inr ())
      else
        (case v of
           JStr t \<Rightarrow>
             if 1 \<le> length t \<and> length t \<le> 256 then Inr ()
             else Inl (BoundaryError ''decision_selection'' ''invalid_filter_value'')
         | _ \<Rightarrow> Inl (BoundaryError ''decision_selection'' ''invalid_filter_value'')))"

definition check_filter :: "string \<times> json \<Rightarrow> unit result" where
  "check_filter kv =
     (case snd kv of
        JList vs \<Rightarrow>
          if fst kv \<notin> set filter_names \<or> \<not> (1 \<le> length vs \<and> length vs \<le> 50)
          then Inl (BoundaryError ''decision_selection'' ''invalid_filter'')
          else and_then (each (check_filter_value (fst kv)) vs) (\<lambda>_. Inr ())
      | _ \<Rightarrow> Inl (BoundaryError ''decision_selection'' ''invalid_filter''))"

text \<open>The dataclass and its \<open>\_\_post\_init\_\_\<close>; the filters arrive as the object \<open>FrozenObject.of\<close> froze.\<close>

definition make_rules :: "json \<Rightarrow> json \<Rightarrow> json \<Rightarrow> json \<Rightarrow> json \<Rightarrow> selection_rules result" where
  "make_rules whole wins filters seed no_failures =
     (case (whole, wins, no_failures) of
        (JBool c, JBool w, JBool n) \<Rightarrow>
          and_then (unsigned seed ''decision_selection.seed'') (\<lambda>k.
          and_then (each check_filter (fields_of filters)) (\<lambda>_.
            Inr \<lparr>sr_complete_only = c, sr_wins_only = w, sr_filters = filters, sr_seed = k, sr_no_failures_only = n\<rparr>))
      | _ \<Rightarrow> Inl (BoundaryError ''decision_selection'' ''invalid_boolean''))"

definition default_rules :: selection_rules where
  "default_rules = \<lparr>sr_complete_only = False, sr_wins_only = False, sr_filters = JObj [], sr_seed = 0, sr_no_failures_only = False\<rparr>"

definition rules_dict :: "selection_rules \<Rightarrow> json" where
  "rules_dict r =
     JObj [(''schema'', JStr rule_schema), (''complete_only'', JBool (sr_complete_only r)),
           (''wins_only'', JBool (sr_wins_only r)), (''no_failures_only'', JBool (sr_no_failures_only r)),
           (''filters'', sr_filters r), (''seed'', JInt (sr_seed r))]"

definition rule_fields :: "string list" where
  "rule_fields = [''schema'', ''complete_only'', ''wins_only'', ''no_failures_only'', ''filters'', ''seed'']"

definition decode_rules :: "json \<Rightarrow> selection_rules result" where
  "decode_rules value =
     and_then (object_fields value rule_fields ''decision_selection'') (\<lambda>obj.
     and_then (item obj ''schema'') (\<lambda>schema.
     and_then (item obj ''filters'') (\<lambda>raw.
       case raw of
         JObj filters \<Rightarrow>
           if schema \<noteq> JStr rule_schema then Inl (BoundaryError ''decision_selection'' ''unsupported_schema'')
           else
             and_then (item obj ''complete_only'') (\<lambda>whole.
             and_then (item obj ''wins_only'') (\<lambda>wins.
             and_then (freeze filters) (\<lambda>frozen.
             and_then (item obj ''seed'') (\<lambda>seed.
             and_then (item obj ''no_failures_only'') (\<lambda>no_failures.
               make_rules whole wins frozen seed no_failures)))))
       | _ \<Rightarrow> Inl (BoundaryError ''decision_selection'' ''unsupported_schema''))))"

section \<open>The purpose of a dataset\<close>

definition dataset_specification :: "json \<Rightarrow> (string \<times> json) list result" where
  "dataset_specification value =
     and_then (object_fields value [''purpose'', ''paired_training''] ''curation'') (\<lambda>obj.
     and_then (item obj ''purpose'') (\<lambda>purpose.
     and_then (item obj ''paired_training'') (\<lambda>paired.
       case purpose of
         JStr t \<Rightarrow>
           if t \<notin> set purposes then Inl (BoundaryError ''curation'' ''invalid_dataset_purpose'')
           else if paired = JNull then Inr obj
           else
             and_then (digest paired ''curation.paired_training'' 64) (\<lambda>_.
               if t = ''training'' then Inl (BoundaryError ''curation'' ''training_cannot_pair_itself'') else Inr obj)
       | _ \<Rightarrow> Inl (BoundaryError ''curation'' ''invalid_dataset_purpose''))))"

section \<open>Stored rules decode again\<close>

lemma make_rules_eq_Inr:
  "make_rules c w f s n = Inr r \<Longrightarrow>
   c = JBool (sr_complete_only r) \<and> w = JBool (sr_wins_only r) \<and> f = sr_filters r \<and> s = JInt (sr_seed r) \<and>
   n = JBool (sr_no_failures_only r)"
  by (auto simp: make_rules_def and_then_eq_Inr unsigned_eq_Inr split: json.splits)

lemma decode_rules_again: "decode_rules v = Inr r \<Longrightarrow> decode_rules (rules_dict r) = Inr r"
proof -
  assume "decode_rules v = Inr r"
  then obtain filters frozen c w s n where frozen: "freeze filters = Inr frozen" and made: "make_rules c w frozen s n = Inr r"
    unfolding decode_rules_def and_then_eq_Inr json_object_eq_Inr if_raise_eq_Inr by blast
  from make_rules_eq_Inr [OF made] made
  have again: "make_rules (JBool (sr_complete_only r)) (JBool (sr_wins_only r)) frozen (JInt (sr_seed r)) (JBool (sr_no_failures_only r)) = Inr r"
    and f: "sr_filters r = frozen" by auto
  obtain kvs where kvs: "frozen = JObj kvs" using frozen by (auto simp: freeze_def split: if_splits)
  with freeze_again [OF frozen] have "freeze kvs = Inr frozen" by (simp add: fields_of_def)
  with again f kvs show ?thesis
    by (simp add: decode_rules_def rules_dict_def object_fields_def rule_fields_def item_def)
qed

end
