(* ===== verification/Decisions.thy ===== *)
theory Decisions
  imports Sharing Membership Selection
begin

text \<open>
  The durable queue of dataset jobs of python/spireagent/hub/decision\_jobs.py: what the HTTP surface
  creates, reads, lists, retries, cancels and archives, and the transactions of the background worker,
  fenced by the attempt counter of \<open>decision\_job\_execution\<close>. \<open>request\<close> and \<open>result\<close> columns hold the
  JSON value that their text stands for.
\<close>

section \<open>Rows\<close>

definition field :: "json \<Rightarrow> string \<Rightarrow> json option" where
  "field v key = (case v of JObj kvs \<Rightarrow> map_of kvs key | _ \<Rightarrow> None)"

definition decision_row :: "ops \<Rightarrow> string \<Rightarrow> decision option" where
  "decision_row s i = find (\<lambda>j. dj_id j = i) (decisions s)"

definition is_open :: "decision \<Rightarrow> bool" where
  "is_open j \<longleftrightarrow> dj_state j \<in> {DPending, DRunning}"

definition open_decisions :: "ops \<Rightarrow> nat" where
  "open_decisions s = length (filter is_open (decisions s))"

definition update_decision :: "string \<Rightarrow> (decision \<Rightarrow> decision) \<Rightarrow> ops \<Rightarrow> ops" where
  "update_decision i f s = s\<lparr>decisions := update_where (\<lambda>j. dj_id j = i) f (decisions s)\<rparr>"

definition insert_decision :: "decision \<Rightarrow> ops \<Rightarrow> ops result" where
  "insert_decision j s =
     (if decision_row s (dj_id j) \<noteq> None then Inl IntegrityError else Inr (s\<lparr>decisions := decisions s @ [j]\<rparr>))"

definition new_decision :: "string \<Rightarrow> string \<Rightarrow> json \<Rightarrow> real \<Rightarrow> decision" where
  "new_decision i owner request clock =
     \<lparr>dj_id = i, dj_owner = owner, dj_request = request, dj_state = DPending, dj_result = None, dj_error = None,
      dj_created = clock, dj_updated = clock\<rparr>"

text \<open>The attempt of a job, when it was ever started.\<close>

definition attempt_of :: "ops \<Rightarrow> string \<Rightarrow> int option" where
  "attempt_of s i = map_of (decision_attempts s) i"

definition decision_error :: "string \<Rightarrow> py_error" where
  "decision_error code = BoundaryError ''decision_job'' code"

definition decision_id :: "json \<Rightarrow> string result" where
  "decision_id v = digest v ''decision_job.id'' 32"

section \<open>Archiving\<close>

definition archivable :: "ops \<Rightarrow> string \<Rightarrow> string \<Rightarrow> unit result" where
  "archivable s subject i =
     (case decision_row s i of
        None \<Rightarrow> Inl (decision_error ''not_found'')
      | Some j \<Rightarrow>
          if dj_owner j \<noteq> subject then Inl (decision_error ''not_found'')
          else if dj_state j \<notin> {DCompleted, DFailed, DCancelled}
          then Inl (decision_error ''active_job_cannot_be_archived'')
          else Inr ())"

text \<open>INSERT OR REPLACE with its audit event.\<close>

definition hide_decision :: "real \<Rightarrow> string \<Rightarrow> bool \<Rightarrow> string \<Rightarrow> ops \<Rightarrow> ops" where
  "hide_decision clock subject archived i s =
     record_event clock subject ''decision_job_visibility'' i (JObj [(''archived'', JBool archived)])
       (s\<lparr>decision_hidden := filter (\<lambda>h. \<not> (fst h = i \<and> fst (snd h) = subject)) (decision_hidden s) @ [(i, subject, archived)]\<rparr>)"

definition set_archived :: "real \<Rightarrow> principal \<Rightarrow> json \<Rightarrow> (ops, json) tx" where
  "set_archived clock p body s =
     and_then (require_member p) (\<lambda>_.
     and_then (object_fields body [''ids'', ''archived''] ''decision_job.visibility'') (\<lambda>obj.
     and_then (item obj ''ids'') (\<lambda>raw.
     and_then (item obj ''archived'') (\<lambda>flag.
       case (raw, flag) of
         (JList ids, JBool archived) \<Rightarrow>
           if \<not> (1 \<le> length ids \<and> length ids \<le> 100) then Inl (decision_error ''invalid_visibility_request'')
           else
             and_then (each decision_id ids) (\<lambda>names.
             and_then (each (archivable s (pr_subject p)) names) (\<lambda>_.
               Inr (fold (hide_decision clock (pr_subject p) archived) names s,
                    JObj [(''ids'', raw), (''archived'', flag)])))
       | _ \<Rightarrow> Inl (decision_error ''invalid_visibility_request'')))))"

section \<open>Current access to the inputs\<close>

text \<open>The recursive query: the artifact and everything above it in the indexed lineage.\<close>

definition parents_step :: "(string \<times> string) list \<Rightarrow> string list \<Rightarrow> string list" where
  "parents_step edges ids = remdups (ids @ map snd (filter (\<lambda>e. fst e \<in> set ids) edges))"

definition indexed_ancestors :: "ops \<Rightarrow> string \<Rightarrow> string list" where
  "indexed_ancestors s i = (parents_step (console_lineage s) ^^ length (console_lineage s)) [i]"

definition withdrawn_above :: "ops \<Rightarrow> string \<Rightarrow> bool" where
  "withdrawn_above s i \<longleftrightarrow>
     list_ex (\<lambda>u. approval_of s (u_id u) = Some False \<and>
       (case receipt_evidence u of Some (JStr e) \<Rightarrow> e \<in> set (indexed_ancestors s i) | _ \<Rightarrow> False)) (uploads s)"

definition dataset_schemas :: "string list" where
  "dataset_schemas = [''stpd/decision-dataset-v1'', ''stpd/decision-union-v1'', ''stpd/curated-decision-dataset-v1'']"

definition check_upload_input :: "ops \<Rightarrow> string \<Rightarrow> unit result" where
  "check_upload_input s i =
     (case find (\<lambda>u. u_id u = i) (uploads s) of
        None \<Rightarrow> Inl (BoundaryError ''sharing'' ''collection_not_shared'')
      | Some u \<Rightarrow>
          if approval_of s i = Some False then Inl (BoundaryError ''sharing'' ''collection_not_shared'')
          else if u_status u \<noteq> Verified \<or> u_receipt u = None then Inl (decision_error ''source_not_verified'')
          else Inr ())"

definition check_dataset_input :: "ops \<Rightarrow> string \<Rightarrow> unit result" where
  "check_dataset_input s i =
     (case map_of (console_artifacts s) i of
        None \<Rightarrow> Inl (decision_error ''dataset_not_available'')
      | Some (kind, summary_json) \<Rightarrow>
          if kind \<noteq> ''dataset'' then Inl (decision_error ''dataset_not_available'')
          else
            (case field summary_json ''metadata'' of
               None \<Rightarrow> Inl KeyError
             | Some metadata \<Rightarrow>
                 and_then (in_strings (case field metadata ''schema'' of None \<Rightarrow> JNull | Some v \<Rightarrow> v) dataset_schemas) (\<lambda>known.
                   if \<not> known then Inl (decision_error ''unsupported_dataset_schema'')
                   else if withdrawn_above s i then Inl (BoundaryError ''sharing'' ''source_sharing_not_established'')
                   else Inr ())))"

definition merging :: "(string \<times> json) list \<Rightarrow> bool" where
  "merging request \<longleftrightarrow> ''datasets'' \<in> fst ` set request"

definition source_key :: "(string \<times> json) list \<Rightarrow> string" where
  "source_key request = (if merging request then ''datasets'' else ''uploads'')"

definition check_inputs :: "(string \<times> json) list \<Rightarrow> ops \<Rightarrow> string list result" where
  "check_inputs request s =
     and_then (item request (source_key request)) (\<lambda>v.
       case v of
         JList selections \<Rightarrow>
           if \<not> (1 \<le> length selections \<and> length selections \<le> 100) then Inl (decision_error ''selection_limit'')
           else
             and_then (each (\<lambda>w. digest w ''decision_job.selection'' (if merging request then 64 else 32)) selections) (\<lambda>names.
               if \<not> distinct names then Inl (decision_error ''duplicate_selection'')
               else and_then (each (if merging request then check_dataset_input s else check_upload_input s) names) (\<lambda>_.
                 Inr names))
       | _ \<Rightarrow> Inl (decision_error ''selection_limit''))"

section \<open>Reading a job\<close>

definition run_summary :: "json \<Rightarrow> json result" where
  "run_summary run =
     (case run of
        JObj kvs \<Rightarrow>
          and_then (case map_of kvs ''journal_refs'' of
              None \<Rightarrow> Inr (case map_of kvs ''journal_ref_count'' of None \<Rightarrow> JNull | Some v \<Rightarrow> v)
            | Some (JList refs) \<Rightarrow> Inr (JInt (int (length refs)))
            | Some (JObj refs) \<Rightarrow> Inr (JInt (int (length refs)))
            | Some (JStr refs) \<Rightarrow> Inr (JInt (int (length refs)))
            | Some _ \<Rightarrow> Inl TypeError) (\<lambda>count.
            Inr (JObj (put_key ''journal_ref_count'' count (filter (\<lambda>kv. fst kv \<noteq> ''journal_refs'') kvs))))
      | _ \<Rightarrow> Inl TypeError)"

record decision_view =
  dv_id :: string
  dv_state :: decision_state
  dv_request :: "(string \<times> json) list"
  dv_result :: "(string \<times> json) list option"
  dv_progress :: json
  dv_created_at :: real
  dv_updated_at :: real
  dv_explicit_retry :: bool
  dv_error :: "string option"

definition state_word :: "decision_state \<Rightarrow> string" where
  "state_word st =
     (case st of DPending \<Rightarrow> ''pending'' | DRunning \<Rightarrow> ''running'' | DCompleted \<Rightarrow> ''completed''
      | DFailed \<Rightarrow> ''failed'' | DCancelled \<Rightarrow> ''cancelled'')"

text \<open>A result is an object; \<open>runs\<close> of it are summarised when they are a list.\<close>

definition summarised :: "(string \<times> json) list \<Rightarrow> (string \<times> json) list result" where
  "summarised result =
     (case map_of result ''runs'' of
        Some (JList runs) \<Rightarrow>
          and_then (each run_summary runs) (\<lambda>rs. Inr (put_key ''runs'' (JList rs) result))
      | _ \<Rightarrow> Inr result)"

definition job_result :: "decision \<Rightarrow> (string \<times> json) list option" where
  "job_result j = (case dj_result j of Some (JObj kvs) \<Rightarrow> Some kvs | _ \<Rightarrow> None)"

definition progress_of :: "decision \<Rightarrow> json" where
  "progress_of j =
     (case job_result j of
        Some (kv # kvs) \<Rightarrow> (case map_of (kv # kvs) ''progress'' of None \<Rightarrow> JNull | Some v \<Rightarrow> v)
      | _ \<Rightarrow> JObj [(''phase'', JStr (state_word (dj_state j)))])"

definition readable :: "principal \<Rightarrow> decision \<Rightarrow> bool" where
  "readable p j \<longleftrightarrow> dj_owner j \<in> {pr_subject p, ''receiver''} \<or> pr_role p = ''admin''"

definition decision_view_of :: "decision \<Rightarrow> (string \<times> json) list \<Rightarrow> (string \<times> json) list option \<Rightarrow> decision_view" where
  "decision_view_of j request result =
     \<lparr>dv_id = dj_id j, dv_state = dj_state j, dv_request = request,
      dv_result = (if dj_state j = DCompleted then result else None), dv_progress = progress_of j,
      dv_created_at = dj_created j, dv_updated_at = dj_updated j, dv_explicit_retry = (dj_state j = DFailed),
      dv_error = dj_error j\<rparr>"

definition read_decision :: "principal \<Rightarrow> json \<Rightarrow> ops \<Rightarrow> decision_view result" where
  "read_decision p identity s =
     and_then (require_member p) (\<lambda>_.
     and_then (decision_id identity) (\<lambda>i.
       case decision_row s i of
         None \<Rightarrow> Inl (decision_error ''not_found'')
       | Some j \<Rightarrow>
           if \<not> readable p j then Inl (decision_error ''not_found'')
           else
             (let request = receipt_fields (dj_request j) in
              and_then (check_inputs request s) (\<lambda>_.
              and_then (case job_result j of None \<Rightarrow> Inr None | Some r \<Rightarrow> and_then (summarised r) (\<lambda>x. Inr (Some x))) (\<lambda>result.
                Inr (decision_view_of j request result))))))"

section \<open>Creating a job\<close>

definition default_curation :: json where
  "default_curation = JObj [(''purpose'', JStr ''training''), (''paired_training'', JNull)]"

definition created_fields :: "json \<Rightarrow> string list" where
  "created_fields body =
     (case body of
        JObj kvs \<Rightarrow> [source_key kvs, ''rules'', ''preview_id'', ''name''] @
          (if ''curation'' \<in> fst ` set kvs then [''curation''] else [])
      | _ \<Rightarrow> [''uploads'', ''rules'', ''preview_id'', ''name''])"

text \<open>\<open>!=\<close> of two decoded values: the order of the keys of an object plays no part.\<close>

definition differs :: "json option \<Rightarrow> json option \<Rightarrow> bool" where
  "differs v w \<longleftrightarrow> map_option sort_keys v \<noteq> map_option sort_keys w"

text \<open>The preview a publication refers to is a completed preview of the same selection.\<close>

definition expected_of :: "principal \<Rightarrow> (string \<times> json) list \<Rightarrow> selection_rules \<Rightarrow> ops \<Rightarrow> json result" where
  "expected_of p obj rules s =
     and_then (item obj ''preview_id'') (\<lambda>preview.
       if preview = JNull then Inr JNull
       else
         and_then (read_decision p preview s) (\<lambda>previous.
           if dv_state previous \<noteq> DCompleted then Inl (decision_error ''preview_mismatch'')
           else
             and_then (item (dv_request previous) ''preview_id'') (\<lambda>above.
               if above \<noteq> JNull \<or> differs (map_of (dv_request previous) (source_key obj)) (map_of obj (source_key obj))
               then Inl (decision_error ''preview_mismatch'')
               else
                 and_then (item (dv_request previous) ''rules'') (\<lambda>old_rules.
                   if differs (Some old_rules) (Some (rules_dict rules)) \<or>
                      differs (map_of (dv_request previous) ''curation'') (map_of obj ''curation'')
                   then Inl (decision_error ''preview_mismatch'')
                   else
                     (case dv_result previous of
                        None \<Rightarrow> Inl TypeError
                      | Some result \<Rightarrow> item result ''logical_id'')))))"

definition valid_name :: "json \<Rightarrow> bool" where
  "valid_name v = (case v of JStr t \<Rightarrow> 1 \<le> length t \<and> length t \<le> 100 | _ \<Rightarrow> False)"

definition checked_creation :: "principal \<Rightarrow> json \<Rightarrow> ops \<Rightarrow> (string \<times> json) list result" where
  "checked_creation p body s =
     and_then (require_member p) (\<lambda>_.
     and_then (object_fields body (created_fields body) ''decision_job'') (\<lambda>raw.
     and_then (dataset_specification (case map_of raw ''curation'' of None \<Rightarrow> default_curation | Some v \<Rightarrow> v)) (\<lambda>spec.
     let obj = put_key ''curation'' (JObj spec) raw in
     and_then (check_inputs obj s) (\<lambda>_.
     and_then (item obj ''rules'') (\<lambda>v.
     and_then (decode_rules v) (\<lambda>rules.
     and_then (item obj ''name'') (\<lambda>given_name.
       if \<not> valid_name given_name then Inl (decision_error ''invalid_name'')
       else
         and_then (expected_of p obj rules s) (\<lambda>expected.
           Inr (put_key ''expected'' expected (put_key ''rules'' (rules_dict rules) obj))))))))))"

definition queue_decision :: "decision \<Rightarrow> (ops, string) tx" where
  "queue_decision j s =
     (if 10 \<le> open_decisions s then Inl (decision_error ''queue_full'')
      else and_then (insert_decision j s) (\<lambda>s'. Inr (s', dj_id j)))"

text \<open>The checks read the database before the transaction of the insert.\<close>

definition create_decision :: "real \<Rightarrow> string \<Rightarrow> principal \<Rightarrow> json \<Rightarrow> (ops, string) tx" where
  "create_decision clock fresh p body s =
     and_then (checked_creation p body s) (\<lambda>request.
       queue_decision (new_decision fresh (pr_subject p) (JObj request) clock) s)"

section \<open>Download of a curated dataset\<close>

text \<open>The display name is outside the modelled alphabet; a fixed name stands for it.\<close>

definition materialization_request :: "stdlib \<Rightarrow> manifest \<Rightarrow> json \<Rightarrow> json" where
  "materialization_request L source rules =
     JObj [(''datasets'', JList [JStr (artifact_id L source)]), (''rules'', rules), (''preview_id'', JNull),
           (''name'', JStr ''materialize''), (''expected'', JNull), (''materialize'', JStr (artifact_id L source))]"

text \<open>ORDER BY created DESC LIMIT 1 among the owner's jobs for this dataset.\<close>

definition previous_materialization :: "ops \<Rightarrow> string \<Rightarrow> string \<Rightarrow> decision option" where
  "previous_materialization s owner i =
     (case sort_key (\<lambda>j. - dj_created j)
         (filter (\<lambda>j. dj_owner j = owner \<and> field (dj_request j) ''materialize'' = Some (JStr i)) (decisions s)) of
        [] \<Rightarrow> None
      | j # _ \<Rightarrow> Some j)"

definition materialize_decision ::
  "stdlib \<Rightarrow> (string \<Rightarrow> manifest result) \<Rightarrow> real \<Rightarrow> string \<Rightarrow> principal \<Rightarrow> json \<Rightarrow> (ops, string \<times> decision_state) tx" where
  "materialize_decision L fetch clock fresh p body s =
     and_then (require_member p) (\<lambda>_.
     and_then (object_fields body [''dataset_id''] ''dataset.materialize'') (\<lambda>obj.
     and_then (item obj ''dataset_id'') (\<lambda>v.
     and_then (digest v ''dataset.id'' 64) (\<lambda>i.
     and_then (snd (artifact L fetch clock (JStr i) None s)) (\<lambda>source.
       if map_of (manifest_info source) ''schema'' \<noteq> Some (JStr ''stpd/curated-decision-dataset-v1'')
       then Inl (BoundaryError ''dataset'' ''materialization_not_required'')
       else
         (case previous_materialization s (pr_subject p) (artifact_id L source) of
            Some j \<Rightarrow> Inr (s, (dj_id j, dj_state j))
          | None \<Rightarrow>
              if 10 \<le> open_decisions s then Inl (decision_error ''queue_full'')
              else
                and_then (item (manifest_info source) ''rules'') (\<lambda>rules.
                and_then (queue_decision (new_decision fresh (pr_subject p) (materialization_request L source rules) clock) s)
                  (\<lambda>(s', i). Inr (s', (i, DPending))))))))))"

end
