(* ===== verification/DecisionQueue.thy ===== *)
theory DecisionQueue
  imports Decisions
begin

text \<open>
  The rest of \<open>DecisionJobs\<close>: listing, explicit retry, cancellation, the automatic profile of a tick,
  failures, and the transactions of an execution of a job. An execution holds the attempt number its
  start wrote; every later write asks that the job is still running under it.
\<close>

section \<open>Listing\<close>

definition hidden_flag :: "ops \<Rightarrow> decision \<Rightarrow> bool" where
  "hidden_flag s j = (case find (\<lambda>h. fst h = dj_id j \<and> fst (snd h) = dj_owner j) (decision_hidden s) of
     None \<Rightarrow> False | Some h \<Rightarrow> snd (snd h))"

definition listed_decisions :: "principal \<Rightarrow> bool \<Rightarrow> ops \<Rightarrow> decision list" where
  "listed_decisions p archived s =
     sort_key (\<lambda>j. - dj_created j) (sort_key dj_id
       (filter (\<lambda>j. dj_owner j = pr_subject p \<and> hidden_flag s j = archived) (decisions s)))"

text \<open>A job whose input was withdrawn is left out of the page; any other error is raised.\<close>

definition withdrawn_code :: "py_error \<Rightarrow> bool" where
  "withdrawn_code e = (case e of BoundaryError stage code \<Rightarrow> code \<in> {''collection_not_shared'', ''source_sharing_not_established''} | _ \<Rightarrow> False)"

fun page_items :: "principal \<Rightarrow> ops \<Rightarrow> decision list \<Rightarrow> decision_view list result" where
  "page_items p s [] = Inr []"
| "page_items p s (j # js) =
     (case read_decision p (JStr (dj_id j)) s of
        Inl e \<Rightarrow> if withdrawn_code e then page_items p s js else Inl e
      | Inr view \<Rightarrow> and_then (page_items p s js) (\<lambda>views. Inr (view # views)))"

definition list_decisions :: "principal \<Rightarrow> bool \<Rightarrow> nat \<Rightarrow> nat \<Rightarrow> ops \<Rightarrow> (decision_view list \<times> nat \<times> nat option) result" where
  "list_decisions p archived limit offset s =
     and_then (require_member p) (\<lambda>_.
       let rows = listed_decisions p archived s; total = length rows in
       and_then (page_items p s (take limit (drop offset rows))) (\<lambda>items.
         Inr (items, total, if offset + limit < total then Some (offset + limit) else None)))"

section \<open>Retry and cancellation\<close>

definition retry_decision :: "(real \<Rightarrow> string) \<Rightarrow> real \<Rightarrow> principal \<Rightarrow> json \<Rightarrow> json \<Rightarrow> (ops, string) tx" where
  "retry_decision repr clock p identity body s =
     (if body \<noteq> JObj [] then Inl (decision_error ''unexpected_retry_fields'')
      else
        and_then (read_decision p identity s) (\<lambda>prior.
          if dv_state prior \<notin> {DFailed, DCancelled} then Inl (decision_error ''retry_requires_failed_job'')
          else if 10 \<le> open_decisions s then Inl (decision_error ''queue_full'')
          else if \<not> list_ex (\<lambda>j. dj_id j = dv_id prior \<and> dj_state j \<in> {DFailed, DCancelled}) (decisions s)
          then Inl (decision_error ''retry_requires_failed_job'')
          else
            Inr (record_event clock (pr_subject p) ''decision_job_retry'' (dv_id prior)
                   (JObj [(''previous_state'', JStr (state_word (dv_state prior))),
                          (''previous_error'', json_opt (dv_error prior)),
                          (''previous_updated_at'', JFloat (repr (dv_updated_at prior))), (''progress'', dv_progress prior)])
                   (s\<lparr>decisions := update_where (\<lambda>j. dj_id j = dv_id prior \<and> dj_state j \<in> {DFailed, DCancelled})
                      (\<lambda>j. j\<lparr>dj_state := DPending, dj_error := None, dj_updated := clock\<rparr>) (decisions s)\<rparr>), dv_id prior)))"

text \<open>\<open>json.loads(row["result"] or "\{\}").get("progress", \{\})\<close>.\<close>

definition stored_progress :: "decision \<Rightarrow> json" where
  "stored_progress j =
     (case job_result j of
        None \<Rightarrow> JObj []
      | Some kvs \<Rightarrow> (case map_of kvs ''progress'' of None \<Rightarrow> JObj [] | Some v \<Rightarrow> v))"

definition bump_attempt :: "string \<Rightarrow> ops \<Rightarrow> ops" where
  "bump_attempt i s = s\<lparr>decision_attempts := update_where (\<lambda>e. fst e = i) (\<lambda>e. (fst e, snd e + 1)) (decision_attempts s)\<rparr>"

definition cancel_decision :: "real \<Rightarrow> principal \<Rightarrow> json \<Rightarrow> json \<Rightarrow> (ops, string) tx" where
  "cancel_decision clock p identity body s =
     (if body \<noteq> JObj [] then Inl (decision_error ''unexpected_cancel_fields'')
      else
        and_then (read_decision p identity s) (\<lambda>view.
          case decision_row s (dv_id view) of
            None \<Rightarrow> Inl TypeError
          | Some j \<Rightarrow>
              if \<not> is_open j then Inl (decision_error ''cancel_requires_active_job'')
              else if dj_state j = DRunning \<and> field (stored_progress j) ''phase'' = Some (JStr ''publishing_dataset'')
              then Inl (decision_error ''publication_already_started'')
              else
                Inr (record_event clock (pr_subject p) ''decision_job_cancel'' (dv_id view) (JObj [])
                       (bump_attempt (dv_id view)
                         (update_decision (dv_id view) (\<lambda>j. j\<lparr>dj_state := DCancelled, dj_updated := clock\<rparr>) s)), dv_id view)))"

definition next_attempt :: "ops \<Rightarrow> string \<Rightarrow> int" where
  "next_attempt s i = (case attempt_of s i of None \<Rightarrow> 1 | Some n \<Rightarrow> n + 1)"

definition should_stop :: "ops \<Rightarrow> string \<Rightarrow> int \<Rightarrow> bool" where
  "should_stop s i attempt \<longleftrightarrow>
     (case decision_row s i of
        None \<Rightarrow> True
      | Some j \<Rightarrow> dj_state j = DCancelled \<or> (case attempt_of s i of None \<Rightarrow> False | Some n \<Rightarrow> attempt < n))"

section \<open>The tick\<close>

definition profile_schema :: string where "profile_schema = ''stpd/run-coverage-v1''"

definition first_upload :: "json \<Rightarrow> json option" where
  "first_upload request = (case field request ''uploads'' of Some (JList (v # vs)) \<Rightarrow> Some v | _ \<Rightarrow> None)"

definition profiled :: "ops \<Rightarrow> string \<Rightarrow> bool" where
  "profiled s i \<longleftrightarrow>
     list_ex (\<lambda>j. dj_owner j = ''receiver'' \<and> first_upload (dj_request j) = Some (JStr i) \<and>
       (field (dj_request j) ''profile_schema'' = Some (JStr profile_schema) \<or>
        (case dj_result j of None \<Rightarrow> False | Some r \<Rightarrow> (case field r ''run_coverage'' of Some (JList rs) \<Rightarrow> True | _ \<Rightarrow> False))))
       (decisions s)"

text \<open>The verified, not withdrawn upload without a profile whose id is least.\<close>

definition next_profile :: "ops \<Rightarrow> string option" where
  "next_profile s =
     (case sort (map u_id (filter (\<lambda>u. u_status u = Verified \<and> approval_of s (u_id u) \<noteq> Some False \<and> \<not> profiled s (u_id u))
        (uploads s))) of
        [] \<Rightarrow> None
      | i # _ \<Rightarrow> Some i)"

text \<open>The display name is outside the modelled alphabet; a fixed name stands for it.\<close>

definition profile_request :: "string \<Rightarrow> json" where
  "profile_request i =
     JObj [(''uploads'', JList [JStr i]), (''rules'', rules_dict default_rules), (''preview_id'', JNull),
           (''name'', JStr ''profile''), (''profile_schema'', JStr profile_schema), (''expected'', JNull)]"

definition interrupt_stale :: "real \<Rightarrow> ops \<Rightarrow> ops" where
  "interrupt_stale clock s =
     s\<lparr>decisions := update_where (\<lambda>j. dj_state j = DRunning \<and> dj_updated j < clock - 180)
        (\<lambda>j. j\<lparr>dj_state := DFailed, dj_error := Some ''worker_interrupted''\<rparr>) (decisions s)\<rparr>"

text \<open>ORDER BY (owner='receiver'), created, id.\<close>

definition next_pending :: "ops \<Rightarrow> string option" where
  "next_pending s =
     (case sort_key (\<lambda>j. dj_owner j = ''receiver'') (sort_key dj_created (sort_key dj_id
        (filter (\<lambda>j. dj_state j = DPending) (decisions s)))) of
        [] \<Rightarrow> None
      | j # _ \<Rightarrow> Some (dj_id j))"

definition pending_decision :: "real \<Rightarrow> string \<Rightarrow> (ops, string option) tx" where
  "pending_decision clock fresh s =
     (let s1 = interrupt_stale clock s in
      and_then (case next_profile s1 of
          Some i \<Rightarrow>
            if open_decisions s1 < 10 then insert_decision (new_decision fresh ''receiver'' (profile_request i) clock) s1
            else Inr s1
        | None \<Rightarrow> Inr s1) (\<lambda>s2. Inr (s2, next_pending s2)))"

section \<open>Fenced writes\<close>

definition fenced :: "ops \<Rightarrow> string \<Rightarrow> int \<Rightarrow> decision \<Rightarrow> bool" where
  "fenced s i attempt j \<longleftrightarrow> dj_id j = i \<and> dj_state j = DRunning \<and> attempt_of s i = Some attempt"

definition fenced_update :: "string \<Rightarrow> int \<Rightarrow> (decision \<Rightarrow> decision) \<Rightarrow> ops \<Rightarrow> ops" where
  "fenced_update i attempt f s = s\<lparr>decisions := update_where (fenced s i attempt) f (decisions s)\<rparr>"

text \<open>\<open>fail\<close>: an attempt may also fail a pending job it was about to start.\<close>

definition may_fail :: "ops \<Rightarrow> string \<Rightarrow> int option \<Rightarrow> decision \<Rightarrow> bool" where
  "may_fail s i attempt j \<longleftrightarrow> dj_id j = i \<and> is_open j \<and>
     (case attempt of
        None \<Rightarrow> True
      | Some n \<Rightarrow> attempt_of s i = Some n \<or>
          (dj_state j = DPending \<and> (case attempt_of s i of None \<Rightarrow> 0 | Some k \<Rightarrow> k) = n - 1))"

definition fail_decision :: "real \<Rightarrow> string \<Rightarrow> string \<Rightarrow> int option \<Rightarrow> ops \<Rightarrow> ops" where
  "fail_decision clock i reason attempt s =
     s\<lparr>decisions := update_where (may_fail s i attempt)
        (\<lambda>j. j\<lparr>dj_state := DFailed, dj_error := Some reason, dj_updated := clock\<rparr>) (decisions s)\<rparr>"

text \<open>The start of an execution: the row, its attempt, or nothing when the job is not pending.\<close>

definition count_attempt :: "string \<Rightarrow> ops \<Rightarrow> ops" where
  "count_attempt i s =
     (if attempt_of s i = None then s\<lparr>decision_attempts := decision_attempts s @ [(i, 1)]\<rparr> else bump_attempt i s)"

definition start_decision :: "real \<Rightarrow> string \<Rightarrow> (ops, (decision \<times> int) option) tx" where
  "start_decision clock i s =
     (if \<not> list_ex (\<lambda>j. dj_id j = i \<and> dj_state j = DPending) (decisions s) then Inr (s, None)
      else
        let s1 = count_attempt i (s\<lparr>decisions := update_where (\<lambda>j. dj_id j = i \<and> dj_state j = DPending)
                   (\<lambda>j. j\<lparr>dj_state := DRunning, dj_updated := clock\<rparr>) (decisions s)\<rparr>)
        in (case (decision_row s1 i, attempt_of s1 i) of
              (Some j, Some n) \<Rightarrow> Inr (s1, Some (j, n))
            | _ \<Rightarrow> Inl TypeError))"

text \<open>\<open>progress\<close>: \<open>value\<close> is the progress document of the call. \<open>heartbeat\<close> writes the time alone.\<close>

definition report_progress :: "real \<Rightarrow> string \<Rightarrow> int \<Rightarrow> json \<Rightarrow> (ops, unit) tx" where
  "report_progress clock i attempt value s =
     (if \<not> list_ex (fenced s i attempt) (decisions s) then Inl (decision_error ''job_cancelled_or_superseded'')
      else Inr (fenced_update i attempt
             (\<lambda>j. j\<lparr>dj_result := Some (JObj [(''progress'', value)]), dj_updated := clock\<rparr>) s, ()))"

definition beat :: "real \<Rightarrow> string \<Rightarrow> int \<Rightarrow> ops \<Rightarrow> ops" where
  "beat clock i attempt = fenced_update i attempt (\<lambda>j. j\<lparr>dj_updated := clock\<rparr>)"

definition requeue_decision :: "real \<Rightarrow> string \<Rightarrow> int \<Rightarrow> ops \<Rightarrow> ops" where
  "requeue_decision clock i attempt = fenced_update i attempt (\<lambda>j. j\<lparr>dj_state := DPending, dj_updated := clock\<rparr>)"

definition active_member :: "ops \<Rightarrow> string \<Rightarrow> bool" where
  "active_member s subject \<longleftrightarrow> list_ex (\<lambda>m. m_subject m = Some subject \<and> m_status m = Active) (members s)"

definition check_owner :: "string \<Rightarrow> ops \<Rightarrow> unit result" where
  "check_owner owner s =
     (if \<not> active_member s owner \<and> owner \<noteq> ''receiver'' then Inl (decision_error ''membership_not_authorized'') else Inr ())"

definition complete_decision :: "real \<Rightarrow> string \<Rightarrow> int \<Rightarrow> string \<Rightarrow> json \<Rightarrow> (ops, unit) tx" where
  "complete_decision clock i attempt owner result s =
     and_then (check_owner owner s) (\<lambda>_.
       Inr (fenced_update i attempt (\<lambda>j. j\<lparr>dj_state := DCompleted, dj_result := Some result, dj_updated := clock\<rparr>) s, ()))"

section \<open>Histories of the queue\<close>

text \<open>Every transaction on the queue, in any order, by anyone, with any attempt number.\<close>

inductive decision_step :: "ops \<Rightarrow> ops \<Rightarrow> bool" where
  created: "create_decision clock fresh p body s = Inr (s', i) \<Longrightarrow> decision_step s s'"
| materialized: "materialize_decision L fetch clock fresh p body s = Inr (s', r) \<Longrightarrow> decision_step s s'"
| archived: "set_archived clock p body s = Inr (s', v) \<Longrightarrow> decision_step s s'"
| retried: "retry_decision repr clock p identity body s = Inr (s', i) \<Longrightarrow> decision_step s s'"
| cancelled: "cancel_decision clock p identity body s = Inr (s', i) \<Longrightarrow> decision_step s s'"
| ticked: "pending_decision clock fresh s = Inr (s', r) \<Longrightarrow> decision_step s s'"
| failed: "s' = fail_decision clock i reason attempt s \<Longrightarrow> decision_step s s'"
| started: "start_decision clock i s = Inr (s', r) \<Longrightarrow> decision_step s s'"
| reported: "report_progress clock i attempt value s = Inr (s', u) \<Longrightarrow> decision_step s s'"
| beaten: "s' = beat clock i attempt s \<Longrightarrow> decision_step s s'"
| requeued: "s' = requeue_decision clock i attempt s \<Longrightarrow> decision_step s s'"
| completed: "complete_decision clock i attempt owner result s = Inr (s', u) \<Longrightarrow> decision_step s s'"
| elsewhere: "decisions s' = decisions s \<Longrightarrow> decision_attempts s' = decision_attempts s \<Longrightarrow> decision_step s s'"

text \<open>
  What any of them does to the two tables: the rows there were keep their identity, a completed row
  is not touched at all, at most one row is added, and attempts only grow.
\<close>

definition row_kept :: "decision \<Rightarrow> decision \<Rightarrow> bool" where
  "row_kept j j' \<longleftrightarrow> dj_id j' = dj_id j \<and> dj_owner j' = dj_owner j \<and> dj_request j' = dj_request j \<and>
     dj_created j' = dj_created j \<and> (dj_state j = DCompleted \<longrightarrow> j' = j)"

definition attempts_grow :: "ops \<Rightarrow> ops \<Rightarrow> bool" where
  "attempts_grow s s' \<longleftrightarrow> (\<forall>i n. attempt_of s i = Some n \<longrightarrow> (\<exists>m. attempt_of s' i = Some m \<and> n \<le> m))"

definition queue_ok :: "ops \<Rightarrow> bool" where
  "queue_ok s \<longleftrightarrow> distinct (map dj_id (decisions s)) \<and> open_decisions s \<le> 10"

definition queue_move :: "ops \<Rightarrow> ops \<Rightarrow> bool" where
  "queue_move s s' \<longleftrightarrow> queue_ok s' \<and> attempts_grow s s' \<and>
     (\<exists>js added. decisions s' = js @ added \<and> list_all2 row_kept (decisions s) js)"

lemma row_kept_refl [simp]: "row_kept j j"
  by (simp add: row_kept_def)

lemma update_rows_kept:
  "(\<And>j. j \<in> set js \<Longrightarrow> P j \<Longrightarrow> row_kept j (f j)) \<Longrightarrow> list_all2 row_kept js (update_where P f js)"
  by (induction js) auto

lemma rows_kept_refl [simp]: "list_all2 row_kept js js"
  by (simp add: list_all2_refl)

lemma rows_kept_ids: "list_all2 row_kept js js' \<Longrightarrow> map dj_id js' = map dj_id js"
  by (induction rule: list_all2_induct) (auto simp: row_kept_def)

lemma update_open_le:
  "(\<And>j. j \<in> set js \<Longrightarrow> P j \<Longrightarrow> is_open (f j) \<Longrightarrow> is_open j) \<Longrightarrow>
   length (filter is_open (update_where P f js)) \<le> length (filter is_open js)"
  by (induction js) (auto simp: le_SucI)

lemma update_open_one:
  assumes "distinct (map dj_id js)" and "\<And>j. P j \<Longrightarrow> dj_id j = i"
  shows "length (filter is_open (update_where P f js)) \<le> Suc (length (filter is_open js))"
  using assms(1)
proof (induction js)
  case (Cons j js)
  show ?case
  proof (cases "P j")
    case True
    with Cons.prems assms(2) have "update_where P f js = js" by (intro update_where_none) (force simp: image_iff)
    with True show ?thesis by simp
  next
    case False
    with Cons show ?thesis by simp
  qed
qed simp

lemma attempts_grow_refl [simp]: "decision_attempts s' = decision_attempts s \<Longrightarrow> attempts_grow s s'"
  by (simp add: attempts_grow_def attempt_of_def)

lemma attempt_of_bump: "attempt_of (bump_attempt i s) k = map_option (\<lambda>n. if k = i then n + 1 else n) (attempt_of s k)"
proof -
  have "map_of (update_where (\<lambda>e. fst e = i) (\<lambda>e. (fst e, snd e + (1::int))) es) k =
      map_option (\<lambda>n. if k = i then n + 1 else n) (map_of es k)" for es
    by (induction es) auto
  then show ?thesis by (simp add: attempt_of_def bump_attempt_def)
qed

lemma bump_decisions [simp]: "decisions (bump_attempt i s) = decisions s"
  by (simp add: bump_attempt_def)

lemma count_decisions [simp]: "decisions (count_attempt i s) = decisions s"
  by (simp add: count_attempt_def)

lemma attempts_grow_bump: "attempts_grow s (bump_attempt i s)"
  by (simp add: attempts_grow_def attempt_of_bump)

lemma attempt_of_count:
  "attempt_of (count_attempt i s) k =
     (if k = i then Some (case attempt_of s i of None \<Rightarrow> 1 | Some n \<Rightarrow> n + 1) else attempt_of s k)"
proof (cases "attempt_of s i")
  case None
  then show ?thesis by (auto simp: count_attempt_def attempt_of_def map_add_def split: option.splits)
next
  case (Some n)
  then show ?thesis by (cases "k = i") (auto simp: count_attempt_def attempt_of_bump option.map_id0 id_def option.map_ident)
qed

lemma attempts_grow_count: "attempts_grow s (count_attempt i s)"
  by (auto simp: attempts_grow_def attempt_of_count split: option.splits)

text \<open>The shapes every operation has: an update of rows, or an appended row.\<close>

lemma queue_moveI:
  "queue_ok s' \<Longrightarrow> attempts_grow s s' \<Longrightarrow> decisions s' = js @ added \<Longrightarrow> list_all2 row_kept (decisions s) js \<Longrightarrow> queue_move s s'"
  unfolding queue_move_def by blast

lemma update_move:
  assumes "queue_ok s" and "decisions s' = update_where P f (decisions s)" and "attempts_grow s s'"
    and kept: "\<And>j. j \<in> set (decisions s) \<Longrightarrow> P j \<Longrightarrow> row_kept j (f j)"
    and few: "length (filter is_open (update_where P f (decisions s))) \<le> 10"
  shows "queue_move s s'"
proof -
  have rows: "list_all2 row_kept (decisions s) (decisions s')" unfolding assms(2) by (rule update_rows_kept) (rule kept)
  with rows_kept_ids [OF rows] assms(1) few have "queue_ok s'"
    by (simp add: queue_ok_def open_decisions_def assms(2))
  with rows assms(3) show ?thesis by (intro queue_moveI [where js = "decisions s'" and added = "[]"]) simp_all
qed

lemma closing_move:
  assumes "queue_ok s" and "decisions s' = update_where P f (decisions s)" and "attempts_grow s s'"
    and kept: "\<And>j. j \<in> set (decisions s) \<Longrightarrow> P j \<Longrightarrow> row_kept j (f j)"
    and closing: "\<And>j. j \<in> set (decisions s) \<Longrightarrow> P j \<Longrightarrow> is_open j"
  shows "queue_move s s'"
  using assms(1-4)
proof (rule update_move)
  have "length (filter is_open (update_where P f (decisions s))) \<le> length (filter is_open (decisions s))"
    by (rule update_open_le) (rule closing)
  then show "length (filter is_open (update_where P f (decisions s))) \<le> 10"
    using assms(1) by (simp add: queue_ok_def open_decisions_def)
qed

lemma append_move:
  assumes "queue_ok s" and "insert_decision j s = Inr s'" and "open_decisions s < 10"
  shows "queue_move s s'"
proof -
  from assms(2) have new: "decisions s' = decisions s @ [j]" "decision_row s (dj_id j) = None" "decision_attempts s' = decision_attempts s"
    by (auto simp: insert_decision_def split: if_splits)
  then have "dj_id j \<notin> set (map dj_id (decisions s))" unfolding decision_row_def find_None_key by simp
  with assms new have "queue_ok s'" by (auto simp: queue_ok_def open_decisions_def)
  with new show ?thesis by (intro queue_moveI [where js = "decisions s" and added = "[j]"]) simp_all
qed

lemma same_move:
  assumes "queue_ok s" and "decisions s' = decisions s" and "decision_attempts s' = decision_attempts s"
  shows "queue_move s s'"
  using assms by (intro queue_moveI [where js = "decisions s" and added = "[]"]) (simp_all add: queue_ok_def open_decisions_def)

lemma queue_decision_move: "queue_decision j s = Inr (s', i) \<Longrightarrow> queue_ok s \<Longrightarrow> queue_move s s'"
  by (auto simp: queue_decision_def and_then_eq_Inr split: if_splits intro: append_move)

lemma fenced_open: "fenced s i attempt j \<Longrightarrow> is_open j"
  by (simp add: fenced_def is_open_def)

lemma fenced_update_move:
  assumes "queue_ok s" and "\<And>j. dj_state j = DRunning \<Longrightarrow> row_kept j (f j)"
  shows "queue_move s (fenced_update i attempt f s)"
  using assms(1)
  by (rule closing_move [where P = "fenced s i attempt" and f = f])
    (auto simp: fenced_update_def fenced_open intro: assms(2) simp: fenced_def is_open_def)

lemma hide_decisions [simp]:
  "decisions (fold (hide_decision clock p a) is s) = decisions s"
  "decision_attempts (fold (hide_decision clock p a) is s) = decision_attempts s"
  by (induction "is" arbitrary: s) (simp_all add: hide_decision_def)

lemma start_decision_move:
  assumes "start_decision clock i s = Inr (s', r)" and "queue_ok s"
  shows "queue_move s s'"
proof (cases "list_ex (\<lambda>j. dj_id j = i \<and> dj_state j = DPending) (decisions s)")
  case True
  let ?rows = "update_where (\<lambda>j. dj_id j = i \<and> dj_state j = DPending) (\<lambda>j. j\<lparr>dj_state := DRunning, dj_updated := clock\<rparr>) (decisions s)"
  have s': "s' = count_attempt i (s\<lparr>decisions := ?rows\<rparr>)"
    using assms(1) True by (auto simp: start_decision_def Let_def split: option.splits)
  have "attempts_grow s s'"
    using attempts_grow_count [of "s\<lparr>decisions := ?rows\<rparr>" i] unfolding s' by (simp add: attempts_grow_def attempt_of_def)
  with assms(2) show ?thesis
    by (intro closing_move [where P = "\<lambda>j. dj_id j = i \<and> dj_state j = DPending" and f = "\<lambda>j. j\<lparr>dj_state := DRunning, dj_updated := clock\<rparr>"])
      (auto simp: s' row_kept_def is_open_def)
qed (use assms in \<open>auto simp: start_decision_def same_move\<close>)

lemma row_kept_trans: "row_kept j k \<Longrightarrow> row_kept k l \<Longrightarrow> row_kept j l"
  by (auto simp: row_kept_def)

lemma attempts_grow_trans: "attempts_grow s t \<Longrightarrow> attempts_grow t u \<Longrightarrow> attempts_grow s u"
  unfolding attempts_grow_def by (meson order_trans)

lemma queue_move_trans:
  assumes "queue_move s t" and "queue_move t u"
  shows "queue_move s u"
proof -
  from assms obtain js xs ks ys where t: "decisions t = js @ xs" "list_all2 row_kept (decisions s) js"
    and u: "decisions u = ks @ ys" "list_all2 row_kept (decisions t) ks"
    unfolding queue_move_def by blast
  from u(2) [unfolded t(1) list_all2_append1] obtain us vs where ks: "ks = us @ vs" "list_all2 row_kept js us" by blast
  have "list_all2 row_kept (decisions s) us"
    using list_all2_trans [of row_kept row_kept row_kept, OF row_kept_trans t(2) ks(2)] .
  moreover have "decisions u = us @ (vs @ ys)" using u(1) ks(1) by simp
  moreover have "attempts_grow s u" using assms attempts_grow_trans unfolding queue_move_def by blast
  ultimately show ?thesis using assms(2) unfolding queue_move_def by blast
qed

lemma retry_decision_move:
  assumes "retry_decision repr clock p identity body s = Inr (s', i)" and ok: "queue_ok s"
  shows "queue_move s s'"
proof -
  let ?f = "\<lambda>j. j\<lparr>dj_state := DPending, dj_error := None, dj_updated := clock\<rparr>"
  from assms(1) obtain view :: decision_view and d where full: "\<not> 10 \<le> open_decisions s"
    and s': "s' = record_event clock (pr_subject p) ''decision_job_retry'' (dv_id view) d
      (s\<lparr>decisions := update_where (\<lambda>j. dj_id j = dv_id view \<and> dj_state j \<in> {DFailed, DCancelled}) ?f (decisions s)\<rparr>)"
    unfolding retry_decision_def and_then_eq_Inr if_raise_eq_Inr sum.inject prod.inject
    by (elim exE conjE) (rule that, assumption, erule sym)
  then have open_few: "open_decisions s < 10"
    and rows: "decisions s' = update_where (\<lambda>j. dj_id j = dv_id view \<and> dj_state j \<in> {DFailed, DCancelled}) ?f (decisions s)"
    and "decision_attempts s' = decision_attempts s" by simp_all
  have "length (filter is_open (update_where (\<lambda>j. dj_id j = dv_id view \<and> dj_state j \<in> {DFailed, DCancelled}) ?f (decisions s)))
      \<le> Suc (open_decisions s)"
    unfolding open_decisions_def using ok by (intro update_open_one [where i = "dv_id view"]) (auto simp: queue_ok_def)
  with open_few show ?thesis
    using ok rows \<open>decision_attempts s' = decision_attempts s\<close>
    by (intro update_move [where P = "\<lambda>j. dj_id j = dv_id view \<and> dj_state j \<in> {DFailed, DCancelled}" and f = ?f])
      (auto simp: row_kept_def)
qed

lemma cancel_decision_move:
  assumes "cancel_decision clock p identity body s = Inr (s', i)" and ok: "queue_ok s"
  shows "queue_move s s'"
proof -
  let ?f = "\<lambda>j. j\<lparr>dj_state := DCancelled, dj_updated := clock\<rparr>"
  from assms(1) obtain view :: decision_view and j where j: "decision_row s (dv_id view) = Some j" "is_open j"
    and s': "s' = record_event clock (pr_subject p) ''decision_job_cancel'' (dv_id view) (JObj [])
      (bump_attempt (dv_id view) (update_decision (dv_id view) ?f s))"
    unfolding cancel_decision_def and_then_eq_Inr if_raise_eq_Inr option_raise_eq_Inr sum.inject prod.inject not_not
    by (elim exE conjE) (rule that, assumption, assumption, erule sym)
  have "\<forall>k \<in> set (decisions s). dj_id k = dv_id view \<longrightarrow> is_open k"
    using find_key_unique [of dj_id "decisions s" "dv_id view" j] j ok by (auto simp: queue_ok_def decision_row_def)
  moreover have "attempts_grow s s'"
    using attempts_grow_bump [of "update_decision (dv_id view) ?f s" "dv_id view"]
    unfolding s' by (simp add: attempts_grow_def attempt_of_def update_decision_def)
  ultimately show ?thesis
    using ok by (intro closing_move [where P = "\<lambda>k. dj_id k = dv_id view" and f = ?f])
      (force simp: s' update_decision_def row_kept_def is_open_def)+
qed

lemma interrupt_move: "queue_ok s \<Longrightarrow> queue_move s (interrupt_stale clock s)"
  by (rule closing_move [where P = "\<lambda>j. dj_state j = DRunning \<and> dj_updated j < clock - 180"
        and f = "\<lambda>j. j\<lparr>dj_state := DFailed, dj_error := Some ''worker_interrupted''\<rparr>"])
    (auto simp: interrupt_stale_def row_kept_def is_open_def)

lemma pending_decision_move:
  assumes "pending_decision clock fresh s = Inr (s', r)" and ok: "queue_ok s"
  shows "queue_move s s'"
proof -
  let ?t = "interrupt_stale clock s"
  have t: "queue_move s ?t" using ok by (rule interrupt_move)
  then have ok': "queue_ok ?t" by (simp add: queue_move_def)
  from assms(1) have "s' = ?t \<or> (\<exists>j. insert_decision j ?t = Inr s' \<and> open_decisions ?t < 10)"
    by (auto simp: pending_decision_def Let_def and_then_eq_Inr split: option.splits if_splits)
  then have "queue_move ?t s'" using ok' by (auto intro: same_move append_move)
  with t show ?thesis by (rule queue_move_trans)
qed

lemma fail_decision_move: "queue_ok s \<Longrightarrow> queue_move s (fail_decision clock i reason attempt s)"
  by (rule closing_move [where P = "may_fail s i attempt" and f = "\<lambda>j. j\<lparr>dj_state := DFailed, dj_error := Some reason, dj_updated := clock\<rparr>"])
    (auto simp: fail_decision_def may_fail_def row_kept_def is_open_def)

lemma fenced_moves:
  assumes "queue_ok s"
  shows "queue_move s (beat clock i attempt s)" "queue_move s (requeue_decision clock i attempt s)"
    "report_progress clock i attempt value s = Inr (s', u) \<Longrightarrow> queue_move s s'"
    "complete_decision clock i attempt owner result s = Inr (s', u) \<Longrightarrow> queue_move s s'"
  using assms fenced_update_move
  by (auto simp: beat_def requeue_decision_def report_progress_def complete_decision_def and_then_eq_Inr row_kept_def
      split: if_splits)

lemma set_archived_tables:
  assumes "set_archived clock p body s = Inr (s', v)"
  shows "decisions s' = decisions s \<and> decision_attempts s' = decision_attempts s"
proof -
  from assms obtain raw flag where
    "(case (raw, flag) of
        (JList ids, JBool archived) \<Rightarrow>
          if \<not> (1 \<le> length ids \<and> length ids \<le> 100) then Inl (decision_error ''invalid_visibility_request'')
          else
            and_then (each decision_id ids) (\<lambda>names.
            and_then (each (archivable s (pr_subject p)) names) (\<lambda>_.
              Inr (fold (hide_decision clock (pr_subject p) archived) names s, JObj [(''ids'', raw), (''archived'', flag)])))
      | _ \<Rightarrow> Inl (decision_error ''invalid_visibility_request'')) = Inr (s', v)"
    unfolding set_archived_def and_then_eq_Inr by blast
  then obtain subject a names where "s' = fold (hide_decision clock subject a) names s"
    by (cases raw; cases flag) (auto simp: and_then_eq_Inr split: if_splits)
  then show ?thesis by simp
qed

lemma decision_step_move:
  assumes "decision_step s s'" and ok: "queue_ok s"
  shows "queue_move s s'"
  using assms(1)
proof (cases rule: decision_step.cases)
  case (created clock fresh p body i)
  with ok show ?thesis by (auto simp: create_decision_def and_then_eq_Inr intro: queue_decision_move)
next
  case (materialized L fetch clock fresh p body r)
  then have "s' = s \<or> (\<exists>j i. queue_decision j s = Inr (s', i))"
    unfolding materialize_decision_def by (auto simp: and_then_eq_Inr split: option.splits if_splits)
  with ok show ?thesis by (auto intro: same_move queue_decision_move)
next
  case (archived clock p body v)
  then have "decisions s' = decisions s \<and> decision_attempts s' = decision_attempts s"
    by (rule set_archived_tables)
  with ok show ?thesis by (auto intro: same_move)
next
  case (failed clock i reason attempt)
  with ok show ?thesis by (auto intro: fail_decision_move)
next
  case (beaten clock i attempt)
  with ok show ?thesis by (auto intro: fenced_moves)
next
  case (requeued clock i attempt)
  with ok show ?thesis by (auto intro: fenced_moves)
qed (use ok in \<open>blast intro: retry_decision_move cancel_decision_move pending_decision_move start_decision_move fenced_moves same_move\<close>)+

lemma decision_steps_move: "decision_step\<^sup>*\<^sup>* s s' \<Longrightarrow> queue_ok s \<Longrightarrow> queue_move s s'"
proof (induction rule: rtranclp_induct)
  case (step t u)
  then have "queue_move s t" by blast
  moreover from this have "queue_move t u" using step.hyps(2) by (intro decision_step_move) (simp_all add: queue_move_def)
  ultimately show ?case by (rule queue_move_trans)
qed (rule same_move, simp_all)

section \<open>What the history keeps\<close>

lemma completed_stays:
  assumes "queue_move s s'" and "j \<in> set (decisions s)" and "dj_state j = DCompleted"
  shows "j \<in> set (decisions s')"
proof -
  from assms(1) obtain js added where js: "decisions s' = js @ added" "list_all2 row_kept (decisions s) js"
    by (auto simp: queue_move_def)
  from assms(2) obtain n where n: "n < length (decisions s)" "decisions s ! n = j" by (auto simp: in_set_conv_nth)
  with js(2) have "row_kept j (js ! n)" "n < length js" by (auto simp: list_all2_conv_all_nth)
  with assms(3) have "js ! n = j" by (simp add: row_kept_def)
  with \<open>n < length js\<close> js(1) show ?thesis by (auto simp: in_set_conv_nth nth_append)
qed

text \<open>An execution whose attempt was passed writes nothing more.\<close>

definition superseded :: "ops \<Rightarrow> string \<Rightarrow> int \<Rightarrow> bool" where
  "superseded s i n \<longleftrightarrow> (\<exists>m. attempt_of s i = Some m \<and> n < m)"

lemma superseded_stays: "attempts_grow s s' \<Longrightarrow> superseded s i n \<Longrightarrow> superseded s' i n"
  unfolding superseded_def attempts_grow_def by (meson less_le_trans)

lemma superseded_fenced: "superseded s i n \<Longrightarrow> \<not> fenced s i n j"
  by (auto simp: superseded_def fenced_def)

lemma superseded_update [simp]: "superseded s i n \<Longrightarrow> fenced_update i n f s = s"
  by (simp add: fenced_update_def superseded_fenced update_where_none)

lemma superseded_silent:
  assumes "superseded s i n"
  shows "report_progress clock i n value s = Inl (decision_error ''job_cancelled_or_superseded'')"
    and "beat clock i n s = s" and "requeue_decision clock i n s = s" and "fail_decision clock i reason (Some n) s = s"
    and "complete_decision clock i n owner result s \<in> {Inr (s, ()), Inl (decision_error ''membership_not_authorized'')}"
proof -
  have "\<not> may_fail s i (Some n) j" for j using assms by (auto simp: may_fail_def superseded_def)
  then show "fail_decision clock i reason (Some n) s = s" by (simp add: fail_decision_def update_where_none)
  show "report_progress clock i n value s = Inl (decision_error ''job_cancelled_or_superseded'')"
    using assms by (simp add: report_progress_def superseded_fenced list_ex_iff)
  show "complete_decision clock i n owner result s \<in> {Inr (s, ()), Inl (decision_error ''membership_not_authorized'')}"
    using assms by (simp add: complete_decision_def check_owner_def)
qed (use assms in \<open>simp_all add: beat_def requeue_decision_def\<close>)

end
