(* ===== verification/DecisionRuns.thy ===== *)
theory DecisionRuns
  imports DecisionQueue
begin

text \<open>
  One execution of a dataset job by the background worker, with the immutable checks of its inputs
  before and after the processing, and the list of games that members read from the automatic profiles
  (\<open>\_sources\<close>, \<open>\_inputs\<close>, \<open>run\<close> and \<open>games\<close> of python/spireagent/hub/decision\_jobs.py).
\<close>

section \<open>The inputs of a job\<close>

definition text_names :: "json list \<Rightarrow> string list option" where
  "text_names vs = those (map (\<lambda>v. case v of JStr t \<Rightarrow> Some t | _ \<Rightarrow> None) vs)"

definition job_sources :: "(string \<Rightarrow> manifest result) \<Rightarrow> json \<Rightarrow> ops \<Rightarrow> manifest list result" where
  "job_sources fetch selections s =
     (case selections of
        JList vs \<Rightarrow>
          if \<not> (1 \<le> length vs \<and> length vs \<le> 100) then Inl (decision_error ''selection_limit'')
          else
            (case text_names vs of
               None \<Rightarrow> Inl (decision_error ''invalid_selection'')
             | Some names \<Rightarrow>
                 if \<not> distinct names then Inl (decision_error ''duplicate_selection'')
                 else
                   and_then (each (\<lambda>v. collection fetch v s) vs) (\<lambda>sources.
                   and_then (each (\<lambda>m. item (manifest_info m) ''disposition'') sources) (\<lambda>found.
                     if list_ex (\<lambda>v. v \<noteq> JStr ''verified'') found
                     then Inl (decision_error ''source_not_verified'') else Inr sources)))
      | _ \<Rightarrow> Inl (decision_error ''selection_limit''))"

text \<open>\<open>request.get("curation", \{\}).get("purpose") == "gold"\<close>.\<close>

definition gold_request :: "(string \<times> json) list \<Rightarrow> bool" where
  "gold_request request \<longleftrightarrow>
     (case map_of request ''curation'' of None \<Rightarrow> False | Some v \<Rightarrow> field v ''purpose'' = Some (JStr ''gold''))"

definition dataset_parents ::
  "stdlib \<Rightarrow> (string \<Rightarrow> manifest result) \<Rightarrow> real \<Rightarrow> (string \<times> json) list \<Rightarrow> string list \<Rightarrow> ops \<Rightarrow> manifest list result" where
  "dataset_parents L fetch clock request names s =
     (if gold_request request then
        and_then (each fetch names) (\<lambda>parents.
          if list_ex (\<lambda>m. map_of (manifest_info m) ''purpose'' \<noteq> Some (JStr ''gold'')) parents
          then Inl (BoundaryError ''curation'' ''gold_merge_requires_only_gold'') else Inr parents)
      else each (\<lambda>i. snd (artifact L fetch clock (JStr i) None s)) names)"

fun known_datasets :: "manifest list \<Rightarrow> bool result" where
  "known_datasets [] = Inr True"
| "known_datasets (m # ms) =
     (if mf_kind m \<noteq> ''dataset'' then Inr False
      else
        and_then (in_strings (case map_of (manifest_info m) ''schema'' of None \<Rightarrow> JNull | Some v \<Rightarrow> v) dataset_schemas) (\<lambda>known.
          if known then known_datasets ms else Inr False))"

definition job_inputs ::
  "stdlib \<Rightarrow> (string \<Rightarrow> manifest result) \<Rightarrow> real \<Rightarrow> (string \<times> json) list \<Rightarrow> bool \<Rightarrow> ops \<Rightarrow> manifest list result" where
  "job_inputs L fetch clock request receiver_profile s =
     (if \<not> merging request then
        and_then (item request ''uploads'') (\<lambda>selections.
        and_then (job_sources fetch selections s) (\<lambda>sources.
          if ''curation'' \<in> fst ` set request \<or> receiver_profile then Inr sources
          else and_then (each (\<lambda>m. guarded_runs L fetch m False [] s) sources) (\<lambda>_. Inr sources)))
      else
        and_then (item request ''datasets'') (\<lambda>selections.
          case selections of
            JList vs \<Rightarrow>
              (case text_names vs of
                 None \<Rightarrow> Inl (decision_error ''invalid_dataset_selection'')
               | Some names \<Rightarrow>
                   if \<not> (1 \<le> length vs \<and> length vs \<le> 100) \<or> \<not> distinct names
                   then Inl (decision_error ''invalid_dataset_selection'')
                   else
                     and_then (dataset_parents L fetch clock request names s) (\<lambda>parents.
                     and_then (known_datasets parents) (\<lambda>known.
                       if \<not> known then Inl (decision_error ''unsupported_dataset_schema'') else Inr parents)))
          | _ \<Rightarrow> Inl (decision_error ''invalid_dataset_selection'')))"

definition profiling :: "string \<Rightarrow> (string \<times> json) list \<Rightarrow> bool result" where
  "profiling owner request =
     (if owner = ''receiver'' \<and> map_of request ''profile_schema'' = Some (JStr profile_schema)
      then and_then (item request ''expected'') (\<lambda>v. Inr (v = JNull \<and> \<not> merging request))
      else Inr False)"

section \<open>One execution\<close>

text \<open>
  The processing between the transactions reads the archives of its inputs and publishes artifacts; the
  queue only sees the progress it reports and how it ends. \<open>others n\<close> is whatever else happens to the
  database before the n-th step of the execution (the curation index the processing fills
  included), and \<open>fetch n\<close> is what the artifact store answers then.
\<close>

datatype work_end = Requeue | Finished json | Raised py_error | OutOfMemory

fun report_all ::
  "(nat \<Rightarrow> ops \<Rightarrow> ops) \<Rightarrow> nat \<Rightarrow> real \<Rightarrow> string \<Rightarrow> int \<Rightarrow> json list \<Rightarrow> ops \<Rightarrow> ops \<times> nat \<times> py_error option" where
  "report_all others n clock i attempt [] s = (s, n, None)"
| "report_all others n clock i attempt (value # rest) s =
     (case committed (report_progress clock i attempt value) (others n s) of
        (s', Inl e) \<Rightarrow> (s', Suc n, Some e)
      | (s', Inr _) \<Rightarrow> report_all others (Suc n) clock i attempt rest s')"

definition fail_run :: "real \<Rightarrow> string \<Rightarrow> int \<Rightarrow> py_error \<Rightarrow> ops \<Rightarrow> ops \<times> unit result" where
  "fail_run clock i attempt e s =
     (if value_error e \<or> e = OSError
      then (fail_decision clock i (case e of BoundaryError stage code \<Rightarrow> code | _ \<Rightarrow> ''processing_failed'') (Some attempt) s, Inr ())
      else (s, Inl e))"

definition end_run ::
  "real \<Rightarrow> (ops \<Rightarrow> nat \<Rightarrow> manifest list result) \<Rightarrow> string \<Rightarrow> int \<Rightarrow> string \<Rightarrow> work_end \<Rightarrow> (nat \<Rightarrow> ops \<Rightarrow> ops) \<Rightarrow> nat \<Rightarrow>
   ops \<Rightarrow> ops \<times> unit result" where
  "end_run clock inputs i attempt owner ending others n s =
     (case ending of
        Requeue \<Rightarrow> (requeue_decision clock i attempt (others n s), Inr ())
      | Finished result \<Rightarrow>
          let s1 = others n s in
          (case inputs s1 n of
             Inl e \<Rightarrow> fail_run clock i attempt e (others (Suc n) s1)
           | Inr _ \<Rightarrow>
               (case committed (complete_decision clock i attempt owner result) (others (Suc n) s1) of
                  (s', Inl e) \<Rightarrow> fail_run clock i attempt e (others (Suc (Suc n)) s')
                | (s', Inr _) \<Rightarrow> (s', Inr ())))
      | Raised e \<Rightarrow> fail_run clock i attempt e (others n s)
      | OutOfMemory \<Rightarrow> (fail_decision clock i ''worker_memory_limit'' (Some attempt) (others n s), Inr ()))"

definition checking_access :: json where
  "checking_access = JObj [(''phase'', JStr ''checking_access''), (''completed'', JInt 0), (''total'', JInt 1)]"

definition execute ::
  "stdlib \<Rightarrow> (nat \<Rightarrow> string \<Rightarrow> manifest result) \<Rightarrow> real \<Rightarrow> (decision \<Rightarrow> int \<Rightarrow> manifest list \<Rightarrow> json list \<times> work_end) \<Rightarrow>
   (nat \<Rightarrow> ops \<Rightarrow> ops) \<Rightarrow> decision \<Rightarrow> int \<Rightarrow> ops \<Rightarrow> ops \<times> unit result" where
  "execute L fetch clock work others row attempt s =
     (let i = dj_id row; request = receipt_fields (dj_request row);
          inputs = (\<lambda>t n. and_then (profiling (dj_owner row) request) (\<lambda>profile. job_inputs L (fetch n) clock request profile t)) in
      case report_all others 1 clock i attempt [checking_access] s of
        (s1, n, Some e) \<Rightarrow> fail_run clock i attempt e (others n s1)
      | (s1, n, None) \<Rightarrow>
          let s2 = others n s1 in
          (case and_then (check_owner (dj_owner row) s2) (\<lambda>_. inputs s2 n) of
             Inl e \<Rightarrow> fail_run clock i attempt e (others (Suc n) s2)
           | Inr sources \<Rightarrow>
               let (steps, ending) = work row attempt sources in
               (case report_all others (Suc n) clock i attempt steps s2 of
                  (s3, m, Some e) \<Rightarrow> fail_run clock i attempt e (others m s3)
                | (s3, m, None) \<Rightarrow> end_run clock inputs i attempt (dj_owner row) ending others m s3)))"

definition run_decision ::
  "stdlib \<Rightarrow> (nat \<Rightarrow> string \<Rightarrow> manifest result) \<Rightarrow> real \<Rightarrow> (decision \<Rightarrow> int \<Rightarrow> manifest list \<Rightarrow> json list \<times> work_end) \<Rightarrow>
   (nat \<Rightarrow> ops \<Rightarrow> ops) \<Rightarrow> string \<Rightarrow> ops \<Rightarrow> ops \<times> unit result" where
  "run_decision L fetch clock work others i s =
     (case decision_id (JStr i) of
        Inl e \<Rightarrow> (s, Inl e)
      | Inr _ \<Rightarrow>
          (case committed (start_decision clock i) (others 0 s) of
             (s1, Inl e) \<Rightarrow> (s1, Inl e)
           | (s1, Inr None) \<Rightarrow> (s1, Inr ())
           | (s1, Inr (Some (row, attempt))) \<Rightarrow> execute L fetch clock work others row attempt s1))"

section \<open>The games of the profiles\<close>

definition profile_kept :: "ops \<Rightarrow> decision \<Rightarrow> bool" where
  "profile_kept s j \<longleftrightarrow> dj_owner j = ''receiver'' \<and>
     (case first_upload (dj_request j) of Some (JStr i) \<Rightarrow> approval_of s i \<noteq> Some False | _ \<Rightarrow> True)"

definition newest_first :: "decision list \<Rightarrow> decision list" where
  "newest_first js = sort_key (\<lambda>j. - dj_created j) js"

definition completed_profiles :: "ops \<Rightarrow> decision list" where
  "completed_profiles s = newest_first (filter (\<lambda>j. dj_state j = DCompleted \<and> profile_kept s j) (decisions s))"

text \<open>A failure no later completed profile of the same upload answers; SQL equality is false on NULL.\<close>

definition answered :: "ops \<Rightarrow> decision \<Rightarrow> bool" where
  "answered s j \<longleftrightarrow>
     list_ex (\<lambda>k. dj_owner k = ''receiver'' \<and> dj_state k = DCompleted \<and> dj_updated j < dj_updated k \<and>
       first_upload (dj_request k) \<noteq> None \<and> first_upload (dj_request k) = first_upload (dj_request j)) (decisions s)"

definition failed_profiles :: "ops \<Rightarrow> decision list" where
  "failed_profiles s =
     newest_first (filter (\<lambda>j. dj_state j = DFailed \<and> profile_kept s j \<and> \<not> answered s j) (decisions s))"

text \<open>\<open>failed.setdefault\<close> keeps the first row of each upload.\<close>

fun first_failures :: "decision list \<Rightarrow> (json option \<times> decision) list \<Rightarrow> (json option \<times> decision) list" where
  "first_failures [] acc = acc"
| "first_failures (j # js) acc =
     first_failures js (if first_upload (dj_request j) \<in> fst ` set acc then acc else acc @ [(first_upload (dj_request j), j)])"

definition object_of :: "json \<Rightarrow> (string \<times> json) list result" where
  "object_of v = (case v of JObj kvs \<Rightarrow> Inr kvs | _ \<Rightarrow> Inl TypeError)"

definition list_of :: "json \<Rightarrow> json list result" where
  "list_of v = (case v of JList vs \<Rightarrow> Inr vs | _ \<Rightarrow> Inl TypeError)"

definition profile_coverage :: "(string \<times> json) list \<Rightarrow> (json \<times> json) list result" where
  "profile_coverage result =
     and_then (case map_of result ''run_coverage'' of None \<Rightarrow> Inr [] | Some v \<Rightarrow> list_of v)
       (each (\<lambda>r. and_then (object_of r) (\<lambda>kvs. and_then (item kvs ''run_id'') (\<lambda>k. Inr (k, r)))))"

type_synonym game_table = "(json \<times> (string \<times> json) list) list"

fun any_differs :: "string list \<Rightarrow> (string \<times> json) list \<Rightarrow> (string \<times> json) list \<Rightarrow> bool result" where
  "any_differs [] previous run = Inr False"
| "any_differs (key # keys) previous run =
     and_then (item previous key) (\<lambda>v.
     and_then (item run key) (\<lambda>w.
       if differs (Some v) (Some w) then Inr True else any_differs keys previous run))"

definition add_upload :: "json \<Rightarrow> (string \<times> json) list \<Rightarrow> (string \<times> json) list" where
  "add_upload upload previous =
     put_key ''uploads'' (JList ((case map_of previous ''uploads'' of Some (JList us) \<Rightarrow> us | _ \<Rightarrow> []) @ [upload])) previous"

definition add_game :: "json \<Rightarrow> (json \<times> json) list \<Rightarrow> json \<Rightarrow> game_table \<Rightarrow> game_table result" where
  "add_game upload coverage raw games =
     and_then (object_of raw) (\<lambda>run.
     and_then (run_summary raw) (\<lambda>shown.
     and_then (item run ''run_id'') (\<lambda>k.
     let found = (case map_of (rev coverage) k of None \<Rightarrow> JNull | Some r \<Rightarrow> r);
         displayed = put_key ''coverage'' found (receipt_fields shown);
         known = (if k \<in> fst ` set games then games else games @ [(k, put_key ''uploads'' (JList []) displayed)]);
         previous = add_upload upload (the (map_of known k))
     in
       and_then (any_differs [''complete'', ''outcome'', ''canonical''] previous run) (\<lambda>differing.
         Inr (update_where (\<lambda>g. fst g = k) (\<lambda>g. (k,
           if differing then put_key ''coverage_status'' (JStr ''overlapping_exports_differ'') previous else previous)) known)))))"

fun add_all_games :: "json \<Rightarrow> (json \<times> json) list \<Rightarrow> json list \<Rightarrow> game_table \<Rightarrow> game_table result" where
  "add_all_games upload coverage [] games = Inr games"
| "add_all_games upload coverage (raw # runs) games =
     and_then (add_game upload coverage raw games) (add_all_games upload coverage runs)"

text \<open>\<open>json.loads(row["request"])["uploads"][0]\<close>.\<close>

definition profiled_upload :: "decision \<Rightarrow> json result" where
  "profiled_upload j =
     and_then (item (receipt_fields (dj_request j)) ''uploads'') (\<lambda>v.
     and_then (list_of v) (\<lambda>vs. case vs of [] \<Rightarrow> Inl IndexError | u # us \<Rightarrow> Inr u))"

definition profile_games :: "decision \<Rightarrow> json \<Rightarrow> game_table \<Rightarrow> game_table result" where
  "profile_games j upload games =
     (case job_result j of
        None \<Rightarrow> Inl TypeError
      | Some result \<Rightarrow>
          and_then (profile_coverage result) (\<lambda>coverage.
          and_then (item result ''runs'') (\<lambda>raw.
          and_then (list_of raw) (\<lambda>runs. add_all_games upload coverage runs games))))"

fun walk_profiles :: "decision list \<Rightarrow> json list \<Rightarrow> game_table \<Rightarrow> (json list \<times> game_table) result" where
  "walk_profiles [] seen games = Inr (seen, games)"
| "walk_profiles (j # js) seen games =
     and_then (profiled_upload j) (\<lambda>upload.
       if upload \<in> set seen then walk_profiles js seen games
       else and_then (profile_games j upload games) (walk_profiles js (seen @ [upload])))"

record game_list =
  gl_items :: "(string \<times> json) list list"
  gl_shared :: nat
  gl_profiled :: nat
  gl_missing :: nat
  gl_partial :: bool
  gl_pending :: nat
  gl_failed :: nat
  gl_failures :: "(string \<times> string option \<times> json option) list"

definition shared_recordings :: "ops \<Rightarrow> nat" where
  "shared_recordings s = length (filter (\<lambda>u. u_status u = Verified \<and> approval_of s (u_id u) \<noteq> Some False) (uploads s))"

definition games :: "principal \<Rightarrow> ops \<Rightarrow> game_list result" where
  "games p s =
     and_then (require_member p) (\<lambda>_.
     and_then (walk_profiles (completed_profiles s) [] []) (\<lambda>(seen, found).
     let failed = first_failures (failed_profiles s) []; shared = shared_recordings s in
       Inr \<lparr>gl_items = map snd found, gl_shared = shared, gl_profiled = length seen,
            gl_missing = shared - length seen, gl_partial = (shared \<noteq> length seen),
            gl_pending = length (filter (\<lambda>j. is_open j \<and> profile_kept s j) (decisions s)), gl_failed = length failed,
            gl_failures = map (\<lambda>(u, j). (dj_id j, dj_error j, u)) (take 100 failed)\<rparr>))"

end
