(* ===== verification/DecisionClaims.thy ===== *)
theory DecisionClaims
  imports DecisionRuns Samples
begin

text \<open>
  The properties of the dataset job queue: its bound and the permanence of completed jobs in every
  history, the silence of a superseded worker, and what one execution of a worker may write, whatever
  its processing does and whoever else writes between its transactions.
\<close>

section \<open>What a worker writes\<close>

text \<open>
  \<open>own\_write i n\<close> is what the worker of the n-th attempt of job i may do to the database: nothing at
  all, or, while n is the job's current attempt, an update of the open row of that job that keeps its
  identity, owner and request. \<open>worker\_run\<close> is an execution made of such writes and of what \<open>others\<close> do
  in between; the worker has no other way to reach the database.
\<close>

abbreviation (input) steps :: "ops \<Rightarrow> ops \<Rightarrow> bool" where
  "steps \<equiv> decision_step\<^sup>*\<^sup>*"

definition own_row :: "string \<Rightarrow> decision \<Rightarrow> decision \<Rightarrow> bool" where
  "own_row i j j' \<longleftrightarrow> j' = j \<or> dj_id j = i \<and> is_open j \<and> row_kept j j'"

definition own_write :: "string \<Rightarrow> int \<Rightarrow> ops \<Rightarrow> ops \<Rightarrow> bool" where
  "own_write i n t u \<longleftrightarrow> u = t \<or>
     attempt_of t i = Some n \<and> (\<exists>rows. u = t\<lparr>decisions := rows\<rparr> \<and> list_all2 (own_row i) (decisions t) rows)"

inductive worker_run :: "(nat \<Rightarrow> ops \<Rightarrow> ops) \<Rightarrow> string \<Rightarrow> int \<Rightarrow> ops \<Rightarrow> ops \<Rightarrow> bool" for others i n s where
  begun: "worker_run others i n s s"
| interrupted: "worker_run others i n s t \<Longrightarrow> worker_run others i n s (others k t)"
| wrote: "worker_run others i n s t \<Longrightarrow> own_write i n t u \<Longrightarrow> worker_run others i n s u"

definition interference :: "(nat \<Rightarrow> ops \<Rightarrow> ops) \<Rightarrow> bool" where
  "interference others \<longleftrightarrow> (\<forall>n s. steps s (others n s))"

text \<open>Such a run keeps the queue, and the attempt it began with is never taken back.\<close>

definition working :: "(nat \<Rightarrow> ops \<Rightarrow> ops) \<Rightarrow> string \<Rightarrow> int \<Rightarrow> ops \<Rightarrow> ops \<Rightarrow> bool" where
  "working others i n s t \<longleftrightarrow> worker_run others i n s t \<and> queue_move s t \<and> (\<exists>m. attempt_of t i = Some m \<and> n \<le> m)"

lemma own_write_refl [simp]: "own_write i n t t"
  by (simp add: own_write_def)

lemma own_rows_open: "list_all2 (own_row i) js rows \<Longrightarrow> length (filter is_open rows) \<le> length (filter is_open js)"
  by (induction rule: list_all2_induct) (auto simp: own_row_def)

lemma own_write_move:
  assumes "own_write i n t u" and "queue_ok t"
  shows "queue_move t u" and "attempt_of u k = attempt_of t k"
proof -
  have "queue_move t u \<and> attempt_of u k = attempt_of t k"
  proof (cases "u = t")
    case False
    with assms(1) obtain rows where u: "u = t\<lparr>decisions := rows\<rparr>" and rows: "list_all2 (own_row i) (decisions t) rows"
      by (auto simp: own_write_def)
    have kept: "list_all2 row_kept (decisions t) rows" using rows by (rule list_all2_mono) (auto simp: own_row_def)
    with rows_kept_ids [OF kept] own_rows_open [OF rows] assms(2) have "queue_ok u"
      by (simp add: u queue_ok_def open_decisions_def)
    then have "queue_move t u" by (rule queue_moveI [where js = rows and added = "[]"]) (simp_all add: u kept)
    then show ?thesis by (simp add: u attempt_of_def)
  qed (use assms(2) in \<open>simp add: same_move\<close>)
  then show "queue_move t u" "attempt_of u k = attempt_of t k" by simp_all
qed

lemma working_wrote: "working others i n s t \<Longrightarrow> own_write i n t u \<Longrightarrow> working others i n s u"
  using own_write_move [of i n t u] queue_move_trans [of s t u]
  by (auto simp: working_def queue_move_def intro: worker_run.wrote)

lemma working_interrupted:
  assumes "interference others" and "working others i n s t"
  shows "working others i n s (others k t)"
proof -
  from assms(2) have t: "worker_run others i n s t" "queue_move s t" "queue_ok t" by (auto simp: working_def queue_move_def)
  from assms(1) have "queue_move t (others k t)" by (intro decision_steps_move t) (simp add: interference_def)
  with t queue_move_trans [OF t(2) this] assms(2) show ?thesis
    unfolding working_def queue_move_def attempts_grow_def by (meson worker_run.interrupted order_trans)
qed

lemma fenced_own: "(\<And>j. dj_state j = DRunning \<Longrightarrow> row_kept j (f j)) \<Longrightarrow> own_write i n t (fenced_update i n f t)"
proof (cases "attempt_of t i = Some n")
  case True
  assume kept: "\<And>j. dj_state j = DRunning \<Longrightarrow> row_kept j (f j)"
  have "list_all2 (own_row i) js (update_where (fenced t i n) f js)" for js
    by (induction js) (auto simp: own_row_def fenced_def is_open_def kept)
  with True show ?thesis by (auto simp: own_write_def fenced_update_def)
next
  case False
  then show ?thesis by (simp add: own_write_def fenced_update_def fenced_def update_where_none)
qed

lemma fail_own:
  assumes "attempt_of t i = Some m" and "n \<le> m"
  shows "own_write i n t (fail_decision clock i reason (Some n) t)"
proof -
  let ?f = "\<lambda>j. j\<lparr>dj_state := DFailed, dj_error := Some reason, dj_updated := clock\<rparr>"
  from assms have may: "may_fail t i (Some n) j \<longleftrightarrow> dj_id j = i \<and> is_open j \<and> m = n" for j
    by (auto simp: may_fail_def)
  show ?thesis
  proof (cases "m = n")
    case True
    have "list_all2 (own_row i) js (update_where (may_fail t i (Some n)) ?f js)" for js
      by (induction js) (auto simp: own_row_def may row_kept_def is_open_def)
    with assms(1) True show ?thesis by (auto simp: own_write_def fail_decision_def)
  qed (simp add: own_write_def fail_decision_def may update_where_none)
qed

lemma report_own:
  "committed (report_progress clock i n value) t = (u, r) \<Longrightarrow> own_write i n t u"
proof -
  assume "committed (report_progress clock i n value) t = (u, r)"
  then have "u = t \<or> u = fenced_update i n (\<lambda>j. j\<lparr>dj_result := Some (JObj [(''progress'', value)]), dj_updated := clock\<rparr>) t"
    by (auto simp: committed_def report_progress_def split: if_splits)
  then show ?thesis by (elim disjE) (simp_all add: fenced_own row_kept_def)
qed

lemma complete_own:
  "committed (complete_decision clock i n owner result) t = (u, r) \<Longrightarrow> own_write i n t u"
proof -
  assume "committed (complete_decision clock i n owner result) t = (u, r)"
  then have "u = t \<or> u = fenced_update i n (\<lambda>j. j\<lparr>dj_state := DCompleted, dj_result := Some result, dj_updated := clock\<rparr>) t"
    by (auto simp: committed_def complete_decision_def and_then_def split: sum.splits)
  then show ?thesis by (elim disjE) (simp_all add: fenced_own row_kept_def)
qed

section \<open>An execution, write by write\<close>

lemma report_all_works:
  "report_all others k clock i n values t = (t', m, e) \<Longrightarrow> interference others \<Longrightarrow> working others i n s t \<Longrightarrow>
   working others i n s t'"
proof (induction others k clock i n "values" t rule: report_all.induct)
  case (2 others k clock i n "value" rest t)
  obtain u r where u: "committed (report_progress clock i n value) (others k t) = (u, r)" by fastforce
  from working_wrote [OF working_interrupted [OF 2(3,4)] report_own [OF u]] have "working others i n s u" .
  with u 2 show ?case by (cases r) auto
qed simp

text \<open>A run that returns normally leaves no row running at its attempt.\<close>

definition attempt_over :: "ops \<Rightarrow> string \<Rightarrow> int \<Rightarrow> bool" where
  "attempt_over t i n \<longleftrightarrow> (\<forall>j \<in> set (decisions t). \<not> fenced t i n j)"

lemma fenced_over: "(\<And>j. dj_state (f j) \<noteq> DRunning) \<Longrightarrow> attempt_over (fenced_update i n f t) i n"
  by (auto simp: attempt_over_def fenced_update_def in_update_where fenced_def attempt_of_def)

lemma fail_works:
  assumes "working others i n s t"
  shows "working others i n s (fail_decision clock i reason (Some n) t)"
    and "attempt_over (fail_decision clock i reason (Some n) t) i n"
proof -
  from assms obtain m where "attempt_of t i = Some m" "n \<le> m" by (auto simp: working_def)
  from working_wrote [OF assms fail_own [OF this]] show "working others i n s (fail_decision clock i reason (Some n) t)" .
  let ?f = "\<lambda>j. j\<lparr>dj_state := DFailed, dj_error := Some reason, dj_updated := clock\<rparr>" and ?P = "may_fail t i (Some n)"
  have "?P j" if "fenced t i n j" for j
    using that by (simp add: fenced_def may_fail_def is_open_def)
  then have "\<not> fenced t i n j" if "j \<in> set (update_where ?P ?f js)" for j js
    using that by (induction js) (auto simp: fenced_def split: if_splits)
  moreover have "fenced (fail_decision clock i reason (Some n) t) i n j = fenced t i n j" for j
    by (simp add: fenced_def fail_decision_def attempt_of_def)
  ultimately show "attempt_over (fail_decision clock i reason (Some n) t) i n"
    by (simp add: attempt_over_def fail_decision_def)
qed

lemma fail_run_works:
  "fail_run clock i n e t = (t', r) \<Longrightarrow> working others i n s t \<Longrightarrow>
   working others i n s t' \<and> (r = Inr () \<longrightarrow> attempt_over t' i n)"
  by (auto simp: fail_run_def fail_works split: if_splits)

lemma end_run_works:
  assumes run: "end_run clock inputs i n owner ending others k t = (t', r)"
    and ok: "interference others" and t: "working others i n s t"
  shows "working others i n s t' \<and> (r = Inr () \<longrightarrow> attempt_over t' i n)"
proof (cases ending)
  case Requeue
  let ?f = "\<lambda>j. j\<lparr>dj_state := DPending, dj_updated := clock\<rparr>"
  from run Requeue have "t' = fenced_update i n ?f (others k t)"
    by (auto simp: end_run_def requeue_decision_def)
  moreover have "own_write i n (others k t) (fenced_update i n ?f (others k t))" by (rule fenced_own) (simp add: row_kept_def)
  ultimately show ?thesis using working_wrote [OF working_interrupted [OF ok t]] fenced_over [of ?f] by simp
next
  case (Finished result)
  let ?t1 = "others k t" and ?t2 = "others (Suc k) (others k t)"
  have t2: "working others i n s ?t2" by (intro working_interrupted ok t)
  show ?thesis
  proof (cases "inputs ?t1 k")
    case (Inl e)
    with run Finished have "fail_run clock i n e ?t2 = (t', r)" by (simp add: end_run_def Let_def)
    from fail_run_works [OF this t2] show ?thesis .
  next
    case (Inr us)
    obtain u v where u: "committed (complete_decision clock i n owner result) ?t2 = (u, v)" by fastforce
    note wrote = working_wrote [OF t2 complete_own [OF u]]
    show ?thesis
    proof (cases v)
      case (Inl e)
      with run Finished Inr u have "fail_run clock i n e (others (Suc (Suc k)) u) = (t', r)" by (simp add: end_run_def Let_def)
      from fail_run_works [OF this working_interrupted [OF ok wrote]] show ?thesis .
    next
      case (Inr x)
      let ?f = "\<lambda>j. j\<lparr>dj_state := DCompleted, dj_result := Some result, dj_updated := clock\<rparr>"
      from u Inr have "u = fenced_update i n ?f ?t2"
        by (auto simp: committed_def complete_decision_def and_then_def split: sum.splits)
      with fenced_over [of ?f i n ?t2] have "attempt_over u i n" by simp
      moreover from run Finished \<open>inputs ?t1 k = Inr us\<close> u Inr have "t' = u" by (simp add: end_run_def Let_def)
      ultimately show ?thesis using wrote by simp
    qed
  qed
next
  case (Raised e)
  with run have "fail_run clock i n e (others k t) = (t', r)" by (simp add: end_run_def)
  from fail_run_works [OF this working_interrupted [OF ok t]] show ?thesis .
next
  case OutOfMemory
  with run fail_works [OF working_interrupted [OF ok t]] show ?thesis by (auto simp: end_run_def)
qed

lemma execute_works:
  assumes run: "execute L fetch clock work others row n t = (t', r)"
    and ok: "interference others" and t: "working others (dj_id row) n s t"
  shows "working others (dj_id row) n s t' \<and> (r = Inr () \<longrightarrow> attempt_over t' (dj_id row) n)"
proof -
  let ?i = "dj_id row" and ?request = "receipt_fields (dj_request row)"
  let ?inputs = "\<lambda>t n. and_then (profiling (dj_owner row) ?request) (\<lambda>profile. job_inputs L (fetch n) clock ?request profile t)"
  obtain t1 k e where first: "report_all others 1 clock ?i n [checking_access] t = (t1, k, e)"
    by (cases "report_all others 1 clock ?i n [checking_access] t") auto
  note t2 = working_interrupted [OF ok report_all_works [OF first ok t]]
  show ?thesis
  proof (cases e)
    case (Some x)
    with run first have "fail_run clock ?i n x (others k t1) = (t', r)" by (simp add: execute_def Let_def)
    from fail_run_works [OF this t2] show ?thesis .
  next
    case None
    show ?thesis
    proof (cases "and_then (check_owner (dj_owner row) (others k t1)) (\<lambda>_. ?inputs (others k t1) k)")
      case (Inl x)
      with run first None have "fail_run clock ?i n x (others (Suc k) (others k t1)) = (t', r)"
        by (simp add: execute_def Let_def)
      from fail_run_works [OF this working_interrupted [OF ok t2]] show ?thesis .
    next
      case (Inr sources)
      obtain moves ending where work: "work row n sources = (moves, ending)" by fastforce
      obtain t3 m e3 where second: "report_all others (Suc k) clock ?i n moves (others k t1) = (t3, m, e3)"
        by (cases "report_all others (Suc k) clock ?i n moves (others k t1)") auto
      note t3 = report_all_works [OF second ok t2]
      note so_far = run first None Inr work second
      show ?thesis
      proof (cases e3)
        case (Some x)
        with so_far have "fail_run clock ?i n x (others m t3) = (t', r)" by (simp add: execute_def Let_def)
        from fail_run_works [OF this working_interrupted [OF ok t3]] show ?thesis .
      next
        case None
        with so_far have "end_run clock ?inputs ?i n (dj_owner row) ending others m t3 = (t', r)"
          by (simp add: execute_def Let_def)
        from end_run_works [OF this ok t3] show ?thesis .
      qed
    qed
  qed
qed

section \<open>Attempts\<close>

lemma started_attempt:
  assumes "start_decision clock i s = Inr (s', Some (j, n))"
  shows "attempt_of s' i = Some n \<and> (\<forall>m. attempt_of s i = Some m \<longrightarrow> m < n)"
proof -
  let ?t = "s\<lparr>decisions := update_where (\<lambda>j. dj_id j = i \<and> dj_state j = DPending)
      (\<lambda>j. j\<lparr>dj_state := DRunning, dj_updated := clock\<rparr>) (decisions s)\<rparr>"
  from assms have "s' = count_attempt i ?t" "attempt_of s' i = Some n"
    by (auto simp: start_decision_def Let_def split: if_splits option.splits)
  moreover have "attempt_of ?t i = attempt_of s i" by (simp add: attempt_of_def)
  ultimately show ?thesis using attempt_of_count [of i ?t i] by (auto split: option.splits)
qed

lemma run_decision_works:
  assumes run: "run_decision L fetch clock work others i s = (s', r)" and ok: "interference others" and queue: "queue_ok s"
  shows "s' \<in> {s, others 0 s} \<or>
    (\<exists>j n s1. start_decision clock i (others 0 s) = Inr (s1, Some (j, n)) \<and> working others i n s1 s' \<and>
       (r = Inr () \<longrightarrow> attempt_over s' i n))"
proof (cases "decision_id (JStr i)")
  case (Inl e)
  with run show ?thesis by (simp add: run_decision_def)
next
  case (Inr named)
  show ?thesis
  proof (cases "\<exists>s1 j n. start_decision clock i (others 0 s) = Inr (s1, Some (j, n))")
    case True
    then obtain s1 j n where start: "start_decision clock i (others 0 s) = Inr (s1, Some (j, n))" by blast
    then have "decision_row s1 i = Some j" by (auto simp: start_decision_def Let_def split: if_splits option.splits)
    then have j: "dj_id j = i" by (auto simp: decision_row_def dest: find_key_Some)
    from ok queue have "queue_ok (others 0 s)"
      using decision_steps_move [of s "others 0 s"] by (simp add: interference_def queue_move_def)
    with start_decision_move [OF start] have "queue_ok s1" by (simp add: queue_move_def)
    with started_attempt [OF start] have "working others (dj_id j) n s1 s1"
      by (simp add: working_def worker_run.begun same_move j)
    moreover from run start Inr have "execute L fetch clock work others j n s1 = (s', r)" by (simp add: run_decision_def)
    ultimately show ?thesis using execute_works [OF _ ok, of L fetch clock work j n s1 s' r s1] start j by blast
  next
    case False
    with run Inr show ?thesis
      by (auto simp: run_decision_def committed_def start_decision_def Let_def split: if_splits option.splits)
  qed
qed

lemma later_start_supersedes:
  assumes "start_decision c1 i s = Inr (s1, Some (j, n))" and "steps s1 s2" and "queue_ok s"
    and "start_decision c2 i s2 = Inr (s3, Some (k, m))"
  shows "n < m \<and> superseded s3 i n \<and> queue_ok s2"
proof -
  from start_decision_move [OF assms(1,3)] have "queue_ok s1" by (simp add: queue_move_def)
  from decision_steps_move [OF assms(2) this] have grown: "attempts_grow s1 s2" "queue_ok s2" by (simp_all add: queue_move_def)
  from started_attempt [OF assms(1)] have "attempt_of s1 i = Some n" by simp
  with grown(1) obtain q where "attempt_of s2 i = Some q" "n \<le> q" by (auto simp: attempts_grow_def)
  with started_attempt [OF assms(4)] have "n < m" "attempt_of s3 i = Some m" by auto
  with grown(2) show ?thesis by (auto simp: superseded_def)
qed

section \<open>The properties\<close>

definition finished_job :: decision where
  "finished_job = \<lparr>dj_id = ''d1'', dj_owner = ''receiver'', dj_request = JObj [], dj_state = DCompleted,
     dj_result = Some (JObj [(''dataset_id'', JStr ''a1'')]), dj_error = None, dj_created = 1, dj_updated = 2\<rparr>"

definition waiting_job :: decision where
  "waiting_job = new_decision ''d2'' ''receiver'' (JObj []) 3"

definition sample_queue :: ops where
  "sample_queue = new_operations\<lparr>decisions := [finished_job, waiting_job]\<rparr>"

lemma sample_queue_ok: "queue_ok sample_queue"
  by (simp add: queue_ok_def sample_queue_def open_decisions_def finished_job_def waiting_job_def new_decision_def is_open_def
      new_operations_def)

text \<open>Claim C27. A completed dataset job is final and the queue stays bounded: after any history of queue
operations, by users, the tick and workers with any attempt number, every completed row is still
there unchanged, job identities are distinct and at most ten jobs are pending or running.\<close>

theorem completed_job_final:
  assumes "decision_step\<^sup>*\<^sup>* s s'" and "queue_ok s" and "j \<in> set (decisions s)" and "dj_state j = DCompleted"
  shows "j \<in> set (decisions s') \<and> distinct (map dj_id (decisions s')) \<and> open_decisions s' \<le> 10"
  using completed_stays [OF decision_steps_move [OF assms(1,2)] assms(3,4)] decision_steps_move [OF assms(1,2)]
  by (simp add: queue_move_def queue_ok_def)

theorem completed_job_final_witness:
  "finished_job \<in> set (decisions (fail_decision 9 ''d1'' ''late'' None sample_queue))"
  using completed_job_final [of sample_queue "fail_decision 9 ''d1'' ''late'' None sample_queue" finished_job]
  by (simp add: sample_queue_ok decision_step.failed r_into_rtranclp) (simp add: sample_queue_def finished_job_def)

text \<open>Claim C28. A superseded worker is silent: once a job was started again, whatever happened in between
and happens later, the earlier execution's progress report is refused, its heartbeat, requeue and
failure change nothing, and its completion changes nothing.\<close>

theorem superseded_worker_silent:
  assumes "start_decision c1 i s = Inr (s1, Some (j, n))" and "decision_step\<^sup>*\<^sup>* s1 s2" and "queue_ok s"
    and "start_decision c2 i s2 = Inr (s3, Some (k, m))" and "decision_step\<^sup>*\<^sup>* s3 s4"
  shows "report_progress clock i n value s4 = Inl (decision_error ''job_cancelled_or_superseded'') \<and>
    beat clock i n s4 = s4 \<and> requeue_decision clock i n s4 = s4 \<and> fail_decision clock i reason (Some n) s4 = s4 \<and>
    complete_decision clock i n owner result s4 \<in> {Inr (s4, ()), Inl (decision_error ''membership_not_authorized'')}"
proof -
  note later = later_start_supersedes [OF assms(1-4)]
  from start_decision_move [OF assms(4)] later have "queue_ok s3" by (simp add: queue_move_def)
  from decision_steps_move [OF assms(5) this] have "attempts_grow s3 s4" by (simp add: queue_move_def)
  with later have "superseded s4 i n" by (blast intro: superseded_stays)
  from superseded_silent [OF this] show ?thesis by blast
qed

text \<open>The second job is started, its worker dies, it is requeued by its attempt and started again.\<close>

definition sample_started :: ops where "sample_started = fst (committed (start_decision 4 ''d2'') sample_queue)"
definition sample_requeued :: ops where "sample_requeued = requeue_decision 5 ''d2'' 1 sample_started"
definition sample_again :: ops where "sample_again = fst (committed (start_decision 6 ''d2'') sample_requeued)"

lemma sample_starts:
  "\<exists>j. start_decision 4 ''d2'' sample_queue = Inr (sample_started, Some (j, 1))"
  "\<exists>j. start_decision 6 ''d2'' sample_requeued = Inr (sample_again, Some (j, 2))"
proof -
  have "map_sum (\<lambda>e. ()) (\<lambda>p. map_option snd (snd p)) (start_decision 4 ''d2'' sample_queue) = Inr (Some 1)"
    "map_sum (\<lambda>e. ()) (\<lambda>p. map_option snd (snd p)) (start_decision 6 ''d2'' sample_requeued) = Inr (Some 2)"
    by code_simp+
  then show "\<exists>j. start_decision 4 ''d2'' sample_queue = Inr (sample_started, Some (j, 1))"
    "\<exists>j. start_decision 6 ''d2'' sample_requeued = Inr (sample_again, Some (j, 2))"
    unfolding sample_started_def sample_again_def
    by (cases "start_decision 4 ''d2'' sample_queue"; cases "start_decision 6 ''d2'' sample_requeued"; force)+
qed

theorem superseded_worker_silent_witness:
  "complete_decision 7 ''d2'' 1 ''receiver'' (JObj []) sample_again = Inr (sample_again, ())"
proof -
  have requeued: "decision_step\<^sup>*\<^sup>* sample_started sample_requeued"
    by (auto simp: sample_requeued_def intro: decision_step.requeued)
  from sample_starts obtain j k where "start_decision 4 ''d2'' sample_queue = Inr (sample_started, Some (j, 1))"
    "start_decision 6 ''d2'' sample_requeued = Inr (sample_again, Some (k, 2))" by blast
  from superseded_worker_silent [OF this(1) requeued sample_queue_ok this(2) rtranclp.rtrancl_refl,
      of 7 JNull "''late''" "''receiver''" "JObj []"]
  show ?thesis by (auto simp: complete_decision_def check_owner_def)
qed

text \<open>A job that merges gold datasets, and a second worker that takes it over in the middle of the first.\<close>

definition merge_id :: string where "merge_id = replicate 32 CHR ''a''"

definition merge_queue :: ops where
  "merge_queue = new_operations\<lparr>decisions := [new_decision merge_id ''receiver''
     (JObj [(''datasets'', JList [JStr ''g'']), (''curation'', JObj [(''purpose'', JStr ''gold'')])]) 3]\<rparr>"

definition gold_dataset :: manifest where
  "gold_dataset = \<lparr>mf_kind = ''dataset'', mf_producer = sample_producer, mf_parents = [], mf_payloads = [],
     mf_parameters = JObj [(''purpose'', JStr ''gold''), (''schema'', JStr (hd dataset_schemas))]\<rparr>"

definition merge_run :: "(nat \<Rightarrow> ops \<Rightarrow> ops) \<Rightarrow> ops \<times> unit result" where
  "merge_run others = run_decision sample_lib (\<lambda>n i. Inr gold_dataset) 9
     (\<lambda>j n sources. ([JInt 1, JInt 2], Finished (JObj [(''dataset_id'', JStr ''a1'')]))) others merge_id merge_queue"

definition taken_over :: "nat \<Rightarrow> ops \<Rightarrow> ops" where
  "taken_over k t = (if k = 4 then fst (committed (start_decision 8 merge_id) (requeue_decision 8 merge_id 1 t)) else t)"

lemma merge_ran:
  "(map dj_state (decisions (fst (merge_run (\<lambda>k t. t)))), snd (merge_run (\<lambda>k t. t))) = ([DCompleted], Inr ())"
  "(map (\<lambda>j. (dj_state j, dj_error j)) (decisions (fst (merge_run taken_over))), attempt_of (fst (merge_run taken_over)) merge_id,
     snd (merge_run taken_over)) = ([(DRunning, None)], Some 2, Inr ())"
  by code_simp+

lemma taken_over_steps: "steps t (taken_over k t)"
proof (cases "k = 4")
  case True
  let ?u = "requeue_decision 8 merge_id 1 t"
  have "decision_step t ?u" by (rule decision_step.requeued) simp
  moreover have "steps ?u (fst (committed (start_decision 8 merge_id) ?u))"
    by (rule committed_cases [of "start_decision 8 merge_id" ?u]) (auto intro: decision_step.started)
  ultimately show ?thesis using True by (simp add: taken_over_def converse_rtranclp_into_rtranclp)
qed (simp add: taken_over_def)

text \<open>Claim C29. A worker writes only its own job, and only while its attempt is current. One execution,
whatever its processing reports and however it ends, and whatever queue steps others take before each of
its transactions, either starts nothing and changes nothing, or starts attempt n of its job; from then on
the database moves only by the others' steps and by writes that touch the open row of that job alone,
keep its identity, owner and request, and happen only while n is its current attempt. When it returns
normally, no row is left running at its attempt.\<close>

theorem worker_writes_fenced:
  assumes "run_decision L fetch clock work others i s = (s', r)" and "\<And>k t. decision_step\<^sup>*\<^sup>* t (others k t)" and "queue_ok s"
  shows "s' \<in> {s, others 0 s} \<or>
    (\<exists>j n s1. start_decision clock i (others 0 s) = Inr (s1, Some (j, n)) \<and> worker_run others i n s1 s' \<and>
       (r = Inr () \<longrightarrow> (\<forall>q \<in> set (decisions s'). \<not> (dj_id q = i \<and> dj_state q = DRunning \<and> attempt_of s' i = Some n))))"
proof -
  have "interference others" using assms(2) by (simp add: interference_def)
  from run_decision_works [OF assms(1) this assms(3)] show ?thesis
    unfolding working_def attempt_over_def fenced_def by blast
qed

theorem worker_writes_fenced_witness:
  "map dj_state (decisions (fst (merge_run (\<lambda>k t. t)))) = [DCompleted] \<and>
   map dj_state (decisions (fst (merge_run taken_over))) = [DRunning] \<and>
   (\<exists>j n s1. start_decision 9 merge_id merge_queue = Inr (s1, Some (j, n)) \<and> worker_run taken_over merge_id n s1 (fst (merge_run taken_over)))"
proof -
  let ?last = "fst (merge_run taken_over)"
  have "queue_ok merge_queue"
    by (simp add: queue_ok_def merge_queue_def open_decisions_def new_decision_def new_operations_def)
  then have "?last \<in> {merge_queue, taken_over 0 merge_queue} \<or>
    (\<exists>j n s1. start_decision 9 merge_id (taken_over 0 merge_queue) = Inr (s1, Some (j, n)) \<and> worker_run taken_over merge_id n s1 ?last)"
    using worker_writes_fenced [where others = taken_over and s = merge_queue and s' = ?last and r = "snd (merge_run taken_over)"
        and i = merge_id and clock = 9, OF _ taken_over_steps] by (fastforce simp: merge_run_def)
  moreover have states: "map dj_state (decisions ?last) = [DRunning]" "map dj_state (decisions (fst (merge_run (\<lambda>k t. t)))) = [DCompleted]"
    using merge_ran by (auto simp: map_eq_Cons_conv)
  moreover have "taken_over 0 merge_queue = merge_queue" "map dj_state (decisions merge_queue) = [DPending]"
    by (simp_all add: taken_over_def merge_queue_def new_decision_def)
  ultimately show ?thesis by auto
qed

end
