(* ===== verification/DirectoryTransfer.thy ===== *)
theory DirectoryTransfer
  imports Blobs Artifacts
begin

text \<open>
  components/evidence/sts2\_platform\_evidence/transfer.py: the checksummed inventory of a directory
  and the receiver that promotes a directory into the content-addressed store only when it is
  exactly what the inventory declares. A directory is the list of its entries below it with their
  POSIX relative paths; \<open>Link\<close> is a symbolic link, with the bytes of the regular file it leads to, if any.
\<close>

section \<open>Inventories\<close>

record transfer_file =
  tf_path :: string
  tf_bytes :: int
  tf_sha256 :: string

record transfer =
  tr_content_id :: string
  tr_artifact_type :: string
  tr_files :: "transfer_file list"

definition transfer_schema :: string where
  "transfer_schema = ''sts2.evidence/directory-transfer-1''"

definition transfer_file_dict :: "transfer_file \<Rightarrow> json" where
  "transfer_file_dict f =
     JObj [(''path'', JStr (tf_path f)), (''bytes'', JInt (tf_bytes f)), (''sha256'', JStr (tf_sha256 f))]"

definition transfer_dict :: "transfer \<Rightarrow> json" where
  "transfer_dict t =
     JObj [(''schema'', JStr transfer_schema), (''content_id'', JStr (tr_content_id t)),
           (''artifact_type'', JStr (tr_artifact_type t)), (''files'', JList (map transfer_file_dict (tr_files t)))]"

definition transfer_sha256 :: "hash \<Rightarrow> transfer \<Rightarrow> string" where
  "transfer_sha256 sha t = sha (canonical_text (transfer_dict t))"

section \<open>Reading an inventory\<close>

definition transfer_error :: py_error where
  "transfer_error = ValueError ''transfer''"

definition transfer_text :: "(string \<times> json) list \<Rightarrow> string \<Rightarrow> string result" where
  "transfer_text kvs key =
     (case map_of kvs key of Some (JStr t) \<Rightarrow> if t = [] then Inl transfer_error else Inr t | _ \<Rightarrow> Inl transfer_error)"

definition transfer_int :: "(string \<times> json) list \<Rightarrow> string \<Rightarrow> bool \<Rightarrow> int result" where
  "transfer_int kvs key allow_zero =
     (case map_of kvs key of
        Some (JInt i) \<Rightarrow> if (if allow_zero then i < 0 else i \<le> 0) then Inl transfer_error else Inr i
      | _ \<Rightarrow> Inl transfer_error)"

definition transfer_digest :: "(string \<times> json) list \<Rightarrow> string \<Rightarrow> string result" where
  "transfer_digest kvs key =
     and_then (transfer_text kvs key) (\<lambda>t.
       if length t \<noteq> 64 \<or> \<not> lower_hex t then Inl transfer_error else Inr t)"

text \<open>\<open>Path(value)\<close> on a POSIX system: its parts, without the empty ones and the dots, joined again.\<close>

definition path_parts :: "string \<Rightarrow> string list" where
  "path_parts t = filter (\<lambda>p. p \<noteq> [] \<and> p \<noteq> ''.'') (split_on CHR ''/'' t)"

fun join_parts :: "string list \<Rightarrow> string" where
  "join_parts [] = ''.''"
| "join_parts [p] = p"
| "join_parts (p # ps) = p @ CHR ''/'' # join_parts ps"

definition safe_relative :: "string \<Rightarrow> string result" where
  "safe_relative value =
     (if has_prefix ''/'' value \<or> ''..'' \<in> set (path_parts value) \<or> value = [] \<or> backslash \<in> set value
      then Inl transfer_error else Inr (join_parts (path_parts value)))"

definition read_file_entry :: "(string \<times> json) list \<Rightarrow> transfer_file result" where
  "read_file_entry kvs =
     and_then (transfer_text kvs ''path'') (\<lambda>raw.
     and_then (safe_relative raw) (\<lambda>path.
     and_then (transfer_int kvs ''bytes'' True) (\<lambda>n.
     and_then (transfer_digest kvs ''sha256'') (\<lambda>sha.
       Inr \<lparr>tf_path = path, tf_bytes = n, tf_sha256 = sha\<rparr>))))"

definition transfer_validate :: "transfer \<Rightarrow> unit result" where
  "transfer_validate t =
     (if length (tr_content_id t) \<noteq> 64 \<or> \<not> lower_hex (tr_content_id t) then Inl transfer_error
      else if tr_artifact_type t = [] then Inl transfer_error
      else if \<not> distinct (map tf_path (tr_files t)) then Inl transfer_error
      else if map tf_path (tr_files t) \<noteq> sort (map tf_path (tr_files t)) then Inl transfer_error
      else Inr ())"

text \<open>The value \<open>json.loads\<close> gave. An entry that is no object is skipped and then missed by the count.\<close>

definition object_entries :: "json list \<Rightarrow> (string \<times> json) list list" where
  "object_entries raw = concat (map (\<lambda>v. case v of JObj kvs \<Rightarrow> [kvs] | _ \<Rightarrow> []) raw)"

definition read_transfer :: "json \<Rightarrow> transfer result" where
  "read_transfer value =
     (case value of
        JObj kvs \<Rightarrow>
          if map_of kvs ''schema'' \<noteq> Some (JStr transfer_schema) then Inl transfer_error
          else
            (case map_of kvs ''files'' of
               Some (JList raw) \<Rightarrow>
                 and_then (transfer_text kvs ''content_id'') (\<lambda>content.
                 and_then (transfer_text kvs ''artifact_type'') (\<lambda>kind.
                 and_then (each read_file_entry (object_entries raw)) (\<lambda>files.
                 let t = \<lparr>tr_content_id = content, tr_artifact_type = kind, tr_files = files\<rparr> in
                   if length files \<noteq> length raw then Inl transfer_error
                   else and_then (transfer_validate t) (\<lambda>_. Inr t))))
             | _ \<Rightarrow> Inl transfer_error)
      | _ \<Rightarrow> Inl transfer_error)"

section \<open>Directories\<close>

datatype entry = Regular string | Folder | Link "string option"

type_synonym tree = "(string \<times> entry) list"

text \<open>\<open>path.is\_file()\<close> follows a link.\<close>

definition file_bytes :: "entry \<Rightarrow> string option" where
  "file_bytes e = (case e of Regular b \<Rightarrow> Some b | Folder \<Rightarrow> None | Link b \<Rightarrow> b)"

text \<open>\<open>sorted(directory.rglob("*"))\<close>: paths compare part by part.\<close>

definition listed :: "tree \<Rightarrow> tree" where
  "listed d = sort_key (\<lambda>pe. split_on CHR ''/'' (fst pe)) d"

definition is_link :: "entry \<Rightarrow> bool" where
  "is_link e = (case e of Link _ \<Rightarrow> True | _ \<Rightarrow> False)"

definition plain_files :: "tree \<Rightarrow> (string \<times> string) list" where
  "plain_files d = concat (map (\<lambda>(p, e). case file_bytes e of Some b \<Rightarrow> [(p, b)] | None \<Rightarrow> []) d)"

definition inventory :: "hash \<Rightarrow> tree option \<Rightarrow> (string \<times> int \<times> string) list result" where
  "inventory sha d =
     (case d of
        None \<Rightarrow> Inl transfer_error
      | Some t \<Rightarrow>
          if list_ex (\<lambda>(p, e). is_link e) t then Inl transfer_error
          else Inr (map (\<lambda>(p, b). (p, int (length b), sha b)) (plain_files (listed t))))"

definition from_directory :: "hash \<Rightarrow> tree option \<Rightarrow> string \<Rightarrow> string \<Rightarrow> transfer result" where
  "from_directory sha d content kind =
     and_then (inventory sha d) (\<lambda>files.
     let t = \<lparr>tr_content_id = content, tr_artifact_type = kind,
              tr_files = map (\<lambda>(p, n, h). \<lparr>tf_path = p, tf_bytes = n, tf_sha256 = h\<rparr>) files\<rparr>
     in and_then (transfer_validate t) (\<lambda>_. Inr t))"

text \<open>\<open>\_copy\_directory\<close>: the copy of a directory without links; anything else in it raises.\<close>

definition copy_directory :: "tree option \<Rightarrow> tree result" where
  "copy_directory d =
     (case d of
        None \<Rightarrow> Inr []
      | Some t \<Rightarrow> if list_ex (\<lambda>(p, e). is_link e) t then Inl transfer_error else Inr (listed t))"

text \<open>\<open>actual\<close> is a dict, and so are the expected files: of equal paths the last counts.\<close>

definition validate_source :: "hash \<Rightarrow> tree option \<Rightarrow> transfer \<Rightarrow> unit result" where
  "validate_source sha d t =
     (case d of
        None \<Rightarrow> Inl transfer_error
      | Some entries \<Rightarrow>
          let actual = map_of (rev (plain_files entries));
              expected = map_of (rev (map (\<lambda>f. (tf_path f, f)) (tr_files t)))
          in
            if fst ` set (plain_files entries) \<noteq> tf_path ` set (tr_files t) then Inl transfer_error
            else if list_ex (\<lambda>f. case (actual (tf_path f), expected (tf_path f)) of
                     (Some b, Some g) \<Rightarrow> int (length b) \<noteq> tf_bytes g \<or> sha b \<noteq> tf_sha256 g
                   | _ \<Rightarrow> False) (tr_files t)
            then Inl transfer_error
            else Inr ())"

section \<open>The receiver\<close>

text \<open>
  The object directory and the quarantine of a \<open>DirectoryReceiver\<close>, by name. \<open>except (OSError,
  TypeError, ValueError)\<close> catches the subclasses of \<open>ValueError\<close> too; the inner handler does not
  catch a \<open>TypeError\<close>.
\<close>

record receiver =
  rv_objects :: "(string \<times> tree) list"
  rv_quarantine :: "(string \<times> tree) list"

record receipt =
  rt_status :: string
  rt_content_id :: string
  rt_artifact_type :: string
  rt_manifest_sha256 :: string
  rt_directory :: "string option"
  rt_quarantine :: "string option"
  rt_findings :: "py_error list"

definition quarantine :: "tree option \<Rightarrow> string \<Rightarrow> string \<Rightarrow> receiver \<Rightarrow> receiver \<times> string option" where
  "quarantine source reason fresh S =
     (case source of
        None \<Rightarrow> (S, None)
      | Some _ \<Rightarrow>
          (case copy_directory source of
             Inl _ \<Rightarrow> (S, None)
           | Inr d \<Rightarrow>
               let name = reason @ ''-'' @ fresh
               in (S\<lparr>rv_quarantine := rv_quarantine S @ [(name, d)]\<rparr>, Some name)))"

definition receipt_for :: "hash \<Rightarrow> transfer \<Rightarrow> string \<Rightarrow> string option \<Rightarrow> string option \<Rightarrow> py_error list \<Rightarrow> receipt" where
  "receipt_for sha t status directory kept findings =
     \<lparr>rt_status = status, rt_content_id = tr_content_id t, rt_artifact_type = tr_artifact_type t,
      rt_manifest_sha256 = transfer_sha256 sha t, rt_directory = directory, rt_quarantine = kept, rt_findings = findings\<rparr>"

definition refuse ::
  "hash \<Rightarrow> tree option \<Rightarrow> string \<Rightarrow> transfer \<Rightarrow> string \<Rightarrow> string \<Rightarrow> py_error \<Rightarrow> receiver \<Rightarrow> receiver \<times> receipt result" where
  "refuse sha source fresh t status reason e S =
     (let (S', kept) = quarantine source reason fresh S in (S', Inr (receipt_for sha t status None kept [e])))"

text \<open>A manifest held in memory, or what reading it from a path gave.\<close>

datatype given_manifest = Held transfer | Read "transfer result"

definition unknown_manifest :: transfer where
  "unknown_manifest = \<lparr>tr_content_id = replicate 64 CHR ''0'', tr_artifact_type = ''unknown'', tr_files = []\<rparr>"

definition given_transfer :: "given_manifest \<Rightarrow> transfer result" where
  "given_transfer g = (case g of Held t \<Rightarrow> Inr t | Read r \<Rightarrow> r)"

definition checked_transfer :: "hash \<Rightarrow> tree option \<Rightarrow> given_manifest \<Rightarrow> transfer result" where
  "checked_transfer sha source g =
     and_then (given_transfer g) (\<lambda>t.
     and_then (transfer_validate t) (\<lambda>_.
     and_then (validate_source sha source t) (\<lambda>_. Inr t)))"

text \<open>
  \<open>verify\<close> is the promotion verifier; without one it is the check that never raises. A copy that
  raises leaves no staging directory behind.
\<close>

definition receive_existing ::
  "hash \<Rightarrow> (tree \<Rightarrow> transfer \<Rightarrow> unit result) \<Rightarrow> tree option \<Rightarrow> string \<Rightarrow> transfer \<Rightarrow> tree \<Rightarrow> receiver \<Rightarrow> receiver \<times> receipt result" where
  "receive_existing sha verify source fresh t destination S =
     (case and_then (inventory sha (Some destination)) (\<lambda>old.
            and_then (inventory sha source) (\<lambda>new.
              if old \<noteq> new then Inr False
              else and_then (verify destination t) (\<lambda>_. Inr True))) of
        Inl e \<Rightarrow>
          if e = OSError \<or> value_error e then refuse sha source fresh t ''quarantined'' ''duplicate-integrity'' e S
          else (S, Inl e)
      | Inr same \<Rightarrow>
          if same then (S, Inr (receipt_for sha t ''reused'' (Some (tr_content_id t)) None []))
          else refuse sha source fresh t ''collision'' ''content-collision'' transfer_error S)"

definition receive ::
  "hash \<Rightarrow> (tree \<Rightarrow> transfer \<Rightarrow> unit result) \<Rightarrow> string \<Rightarrow> tree option \<Rightarrow> given_manifest \<Rightarrow> receiver \<Rightarrow> receiver \<times> receipt result" where
  "receive sha verify fresh source g S =
     (case checked_transfer sha source g of
        Inl e \<Rightarrow>
          if e = OSError \<or> e = TypeError \<or> value_error e
          then refuse sha source fresh (case g of Held t \<Rightarrow> t | Read _ \<Rightarrow> unknown_manifest) ''quarantined'' ''invalid-transfer'' e S
          else (S, Inl e)
      | Inr t \<Rightarrow>
          (case map_of (rv_objects S) (tr_content_id t) of
             Some destination \<Rightarrow> receive_existing sha verify source fresh t destination S
           | None \<Rightarrow>
               (case and_then (copy_directory source) (\<lambda>staging.
                      and_then (validate_source sha (Some staging) t) (\<lambda>_.
                      and_then (verify staging t) (\<lambda>_. Inr staging))) of
                  Inl e \<Rightarrow>
                    if e = OSError \<or> e = TypeError \<or> value_error e
                    then refuse sha source fresh t ''quarantined'' ''promote-failed'' e S
                    else (S, Inl e)
                | Inr staging \<Rightarrow>
                    (S\<lparr>rv_objects := rv_objects S @ [(tr_content_id t, staging)]\<rparr>,
                     Inr (receipt_for sha t ''promoted'' (Some (tr_content_id t)) None [])))))"

section \<open>What is promoted\<close>

text \<open>A directory that is exactly its inventory: no links, the declared files and no others.\<close>

definition exact_copy :: "hash \<Rightarrow> transfer \<Rightarrow> tree \<Rightarrow> bool" where
  "exact_copy sha t d \<longleftrightarrow>
     list_all (\<lambda>(p, e). \<not> is_link e) d \<and>
     fst ` set (plain_files d) = tf_path ` set (tr_files t) \<and>
     (\<forall>f \<in> set (tr_files t). \<exists>b. map_of (rev (plain_files d)) (tf_path f) = Some b \<and>
        int (length b) = tf_bytes f \<and> sha b = tf_sha256 f)"

lemma validate_source_exact:
  assumes "validate_source sha (Some d) t = Inr u" and "distinct (map tf_path (tr_files t))"
  shows "fst ` set (plain_files d) = tf_path ` set (tr_files t) \<and>
     (\<forall>f \<in> set (tr_files t). \<exists>b. map_of (rev (plain_files d)) (tf_path f) = Some b \<and>
        int (length b) = tf_bytes f \<and> sha b = tf_sha256 f)"
proof -
  have keys: "fst ` set (plain_files d) = tf_path ` set (tr_files t)"
    and each_file: "\<And>f. f \<in> set (tr_files t) \<Longrightarrow>
      \<not> (case (map_of (rev (plain_files d)) (tf_path f), map_of (rev (map (\<lambda>f. (tf_path f, f)) (tr_files t))) (tf_path f)) of
           (Some b, Some g) \<Rightarrow> int (length b) \<noteq> tf_bytes g \<or> sha b \<noteq> tf_sha256 g | _ \<Rightarrow> False)"
    using assms(1) by (auto simp: validate_source_def Let_def list_ex_iff split: if_splits)
  have "\<exists>b. map_of (rev (plain_files d)) (tf_path f) = Some b \<and> int (length b) = tf_bytes f \<and> sha b = tf_sha256 f"
    if f: "f \<in> set (tr_files t)" for f
  proof -
    have "tf_path f \<in> fst ` set (rev (plain_files d))" using f keys by auto
    then obtain b where b: "map_of (rev (plain_files d)) (tf_path f) = Some b"
      by (metis map_of_eq_None_iff not_None_eq)
    have "map fst (rev (map (\<lambda>f. (tf_path f, f)) (tr_files t))) = rev (map tf_path (tr_files t))"
      by (simp add: rev_map o_def)
    with assms(2) have "distinct (map fst (rev (map (\<lambda>f. (tf_path f, f)) (tr_files t))))" by (simp only: distinct_rev)
    then have "map_of (rev (map (\<lambda>f. (tf_path f, f)) (tr_files t))) (tf_path f) = Some f"
      using f by (intro map_of_is_SomeI) auto
    with each_file [OF f] b show ?thesis by simp
  qed
  with keys show ?thesis by blast
qed

lemma checked_transfer_valid: "checked_transfer sha source g = Inr t \<Longrightarrow> transfer_validate t = Inr ()"
  by (auto simp: checked_transfer_def and_then_eq_Inr)

lemma transfer_validate_distinct: "transfer_validate t = Inr () \<Longrightarrow> distinct (map tf_path (tr_files t))"
  by (auto simp: transfer_validate_def split: if_splits)

lemma copy_directory_plain: "copy_directory source = Inr d \<Longrightarrow> list_all (\<lambda>(p, e). \<not> is_link e) d"
  by (auto simp: copy_directory_def listed_def list_ex_iff list_all_iff split: option.splits if_splits)

lemma refuse_objects: "refuse sha source fresh t status reason e S = (S', r) \<Longrightarrow> rv_objects S' = rv_objects S"
  by (auto simp: refuse_def quarantine_def Let_def split: option.splits sum.splits)

lemma receive_cases:
  assumes "receive sha verify fresh source g S = (S', r)"
  obtains (kept) "rv_objects S' = rv_objects S"
  | (promoted) t d where "rv_objects S' = rv_objects S @ [(tr_content_id t, d)]"
      "map_of (rv_objects S) (tr_content_id t) = None" "exact_copy sha t d" "verify d t = Inr ()"
      "r = Inr (receipt_for sha t ''promoted'' (Some (tr_content_id t)) None [])"
proof (cases "checked_transfer sha source g")
  case (Inl e)
  with assms show thesis by (intro kept) (auto simp: receive_def dest: refuse_objects split: if_splits)
next
  case (Inr t)
  show thesis
  proof (cases "map_of (rv_objects S) (tr_content_id t)")
    case (Some d)
    with Inr assms have "receive_existing sha verify source fresh t d S = (S', r)" by (simp add: receive_def)
    then show thesis
      by (intro kept) (auto simp: receive_existing_def dest: refuse_objects split: if_splits sum.splits)
  next
    case None
    let ?run = "and_then (copy_directory source) (\<lambda>staging.
      and_then (validate_source sha (Some staging) t) (\<lambda>_. and_then (verify staging t) (\<lambda>_. Inr staging)))"
    show thesis
    proof (cases ?run)
      case (Inl e)
      with Inr None assms show thesis
        by (intro kept) (auto simp: receive_def dest: refuse_objects split: if_splits)
    next
      case run: (Inr d)
      then have copy: "copy_directory source = Inr d" "validate_source sha (Some d) t = Inr ()" "verify d t = Inr ()"
        by (auto simp: and_then_eq_Inr)
      have "distinct (map tf_path (tr_files t))"
        using checked_transfer_valid [OF Inr] by (rule transfer_validate_distinct)
      with copy have "exact_copy sha t d"
        using validate_source_exact [OF copy(2)] copy_directory_plain [OF copy(1)] by (simp add: exact_copy_def)
      with Inr None run assms copy(3) show thesis by (intro promoted [of t d]) (auto simp: receive_def)
    qed
  qed
qed

text \<open>Histories of receptions, whatever is received and whatever the verifier says.\<close>

inductive receives :: "hash \<Rightarrow> (tree \<Rightarrow> transfer \<Rightarrow> unit result) \<Rightarrow> receiver \<Rightarrow> receiver \<Rightarrow> bool" for sha verify where
  received: "receive sha verify fresh source g S = (S', r) \<Longrightarrow> receives sha verify S S'"

definition objects_exact :: "hash \<Rightarrow> (tree \<Rightarrow> transfer \<Rightarrow> unit result) \<Rightarrow> receiver \<Rightarrow> bool" where
  "objects_exact sha verify S \<longleftrightarrow>
     distinct (map fst (rv_objects S)) \<and>
     (\<forall>(i, d) \<in> set (rv_objects S). \<exists>t. tr_content_id t = i \<and> exact_copy sha t d \<and> verify d t = Inr ())"

lemma receives_keeps:
  assumes "receives sha verify S S'" and "objects_exact sha verify S"
  shows "objects_exact sha verify S' \<and> (\<exists>xs. rv_objects S' = rv_objects S @ xs)"
proof -
  from assms(1) obtain fresh source g r where "receive sha verify fresh source g S = (S', r)" by cases
  then show ?thesis
  proof (cases rule: receive_cases)
    case (promoted t d)
    then have "tr_content_id t \<notin> fst ` set (rv_objects S)" by (simp add: map_of_eq_None_iff)
    with promoted assms(2) show ?thesis by (auto simp: objects_exact_def)
  qed (use assms(2) in \<open>simp add: objects_exact_def\<close>)
qed

lemma receives_history:
  "(receives sha verify)\<^sup>*\<^sup>* S S' \<Longrightarrow> objects_exact sha verify S \<Longrightarrow>
   objects_exact sha verify S' \<and> (\<exists>xs. rv_objects S' = rv_objects S @ xs)"
proof (induction rule: rtranclp_induct)
  case (step T U)
  then obtain xs where "objects_exact sha verify T" "rv_objects T = rv_objects S @ xs" by blast
  with receives_keeps [OF step.hyps(2)] show ?case by force
qed simp

end
