(* ===== verification/Ingress.thy ===== *)
theory Ingress
  imports Sharing DirectoryTransfer Uploads Access
begin

text \<open>
  python/spireagent/hub/uploads.py: the untrusted upload is downloaded at exactly its declared size,
  expanded within a bound, extracted member by member against its inventory, verified, and published
  with a receipt. The gzip and tar readers, the staging transport, the bundle verifier, the console
  index and the clock are parameters.
\<close>

definition max_archive :: int where "max_archive = 512 * 1024 * 1024"
definition max_expanded :: int where "max_expanded = 2 * 1024 * 1024 * 1024"
definition max_files :: int where "max_files = 50000"

section \<open>Copies of a declared size\<close>

text \<open>The answers of \<open>source.read\<close>, in order; when they are used up it answers with no bytes.\<close>

fun copy_exact :: "string list \<Rightarrow> int \<Rightarrow> string \<Rightarrow> string result" where
  "copy_exact [] remaining written =
     (if remaining = 0 then Inr written else Inl (BoundaryError ''upload'' ''truncated_archive''))"
| "copy_exact (chunk # source) remaining written =
     (if remaining = 0
      then (if chunk = [] then Inr written else Inl (BoundaryError ''upload'' ''archive_size_mismatch''))
      else if chunk = [] then Inl (BoundaryError ''upload'' ''truncated_archive'')
      else copy_exact source (remaining - int (length chunk)) (written @ chunk))"

fun take_body :: "string list \<Rightarrow> int \<Rightarrow> string \<Rightarrow> string result" where
  "take_body [] remaining written =
     (if remaining = 0 then Inr written else Inl (BoundaryError ''upload'' ''truncated_body''))"
| "take_body (chunk # source) remaining written =
     (if remaining = 0 then Inr written
      else if chunk = [] then Inl (BoundaryError ''upload'' ''truncated_body'')
      else take_body source (remaining - int (length chunk)) (written @ chunk))"

lemma copy_exact_length: "copy_exact source n w = Inr data \<Longrightarrow> int (length data) = int (length w) + n"
  by (induction source n w rule: copy_exact.induct) (auto split: if_splits)

lemma take_body_length: "take_body source n w = Inr data \<Longrightarrow> int (length data) = int (length w) + n"
  by (induction source n w rule: take_body.induct) (auto split: if_splits)

text \<open>\<open>LocalStaging\<close>: the files of its directory by upload id, and the reads of a file of that size.\<close>

definition local_stage :: "hash \<Rightarrow> string \<Rightarrow> string list \<Rightarrow> int \<Rightarrow> (string \<times> string) list \<Rightarrow> (string \<times> string) list result" where
  "local_stage sha i body n files =
     and_then (take_body body n []) (\<lambda>data.
       case map_of files i of
         None \<Rightarrow> Inr (files @ [(i, data)])
       | Some old \<Rightarrow> if sha data \<noteq> sha old then Inl (BoundaryError ''upload'' ''staging_collision'') else Inr files)"

definition file_reads :: "string \<Rightarrow> int \<Rightarrow> string list" where
  "file_reads d n = filter (\<lambda>c. c \<noteq> []) [take (nat n) d, take 1 (drop (nat n) d)]"

definition local_unstage :: "string \<Rightarrow> int \<Rightarrow> (string \<times> string) list \<Rightarrow> string result" where
  "local_unstage i n files =
     (case map_of files i of None \<Rightarrow> Inl OSError | Some d \<Rightarrow> copy_exact (file_reads d n) n [])"

text \<open>\<open>S3Staging.download\<close>: the response's length field, None when absent, and its body.\<close>

definition s3_unstage :: "(int option \<times> string list) result \<Rightarrow> int \<Rightarrow> string result" where
  "s3_unstage response n =
     and_then response (\<lambda>(content_length, body).
       if content_length \<noteq> Some n then Inl (BoundaryError ''upload'' ''archive_size_mismatch'')
       else copy_exact body n [])"

section \<open>The declared inventory\<close>

definition transfer_from_json :: "(string \<Rightarrow> string) \<Rightarrow> json \<Rightarrow> transfer result" where
  "transfer_from_json fr value =
     and_then (decode_json fr (json_bytes value)) (\<lambda>v.
     and_then (read_transfer v) (\<lambda>t.
       if tr_artifact_type t \<noteq> ''human-session-bundle'' \<or> tr_files t = [] \<or> max_files < int (length (tr_files t))
       then Inl (BoundaryError ''upload'' ''unsupported_inventory'')
       else if max_expanded < sum_list (map tf_bytes (tr_files t))
       then Inl (BoundaryError ''upload'' ''expanded_size_limit'')
       else Inr t))"

section \<open>Extraction\<close>

text \<open>The reads of the gzip stream: chunks, or the exception that ends it.\<close>

fun expand :: "string result list \<Rightarrow> string \<Rightarrow> string result" where
  "expand [] buffered = Inr buffered"
| "expand (Inl e # rest) buffered = Inl e"
| "expand (Inr chunk # rest) buffered =
     (if chunk = [] then Inr buffered
      else if max_expanded < int (length (buffered @ chunk))
      then Inl (BoundaryError ''upload'' ''expanded_stream_size_limit'')
      else expand rest (buffered @ chunk))"

text \<open>A member of the tar stream; \<open>te\_data\<close> is None when \<open>extractfile\<close> gives nothing to read.\<close>

record tar_entry =
  te_name :: string
  te_file :: bool
  te_size :: int
  te_data :: "string result option"

definition proper_prefixes :: "'a list \<Rightarrow> 'a list list" where
  "proper_prefixes xs = map (\<lambda>n. take n xs) [0..<length xs]"

text \<open>\<open>mkdir(parents=True)\<close> fails below a file; \<open>open("xb")\<close> fails on what exists, the directory itself included.\<close>

definition below_file :: "string \<Rightarrow> tree \<Rightarrow> bool" where
  "below_file name d \<longleftrightarrow> list_ex (\<lambda>pe. path_parts (fst pe) \<in> set (proper_prefixes (path_parts name))) d"

definition name_exists :: "string \<Rightarrow> tree \<Rightarrow> bool" where
  "name_exists name d \<longleftrightarrow>
     path_parts name = [] \<or>
     list_ex (\<lambda>pe. path_parts name = path_parts (fst pe) \<or> path_parts name \<in> set (proper_prefixes (path_parts (fst pe)))) d"

definition member_refused :: "transfer_file list \<Rightarrow> string list \<Rightarrow> tar_entry \<Rightarrow> bool" where
  "member_refused expected seen e \<longleftrightarrow>
     \<not> te_file e \<or> te_name e \<notin> tf_path ` set expected \<or> te_name e \<in> set seen \<or>
     has_prefix ''/'' (te_name e) \<or> ''..'' \<in> set (path_parts (te_name e)) \<or> backslash \<in> set (te_name e) \<or>
     te_name e \<noteq> join_parts (path_parts (te_name e))"

definition extract_member :: "hash \<Rightarrow> transfer_file list \<Rightarrow> string list \<Rightarrow> tar_entry \<Rightarrow> tree \<Rightarrow> tree result" where
  "extract_member sha expected seen e d =
     (if member_refused expected seen e then Inl (BoundaryError ''upload'' ''archive_inventory_mismatch'')
      else
        (case find (\<lambda>f. tf_path f = te_name e) expected of
           None \<Rightarrow> Inl (BoundaryError ''upload'' ''archive_inventory_mismatch'')
         | Some declared \<Rightarrow>
             if te_size e \<noteq> tf_bytes declared then Inl (BoundaryError ''upload'' ''archive_entry_size_mismatch'')
             else if below_file (te_name e) d then Inl OSError
             else
               (case te_data e of
                  None \<Rightarrow> Inl (BoundaryError ''upload'' ''archive_member_missing'')
                | Some source \<Rightarrow>
                    if name_exists (te_name e) d then Inl OSError
                    else
                      and_then source (\<lambda>data.
                        if sha data \<noteq> tf_sha256 declared then Inl (BoundaryError ''upload'' ''member_hash_mismatch'')
                        else Inr (d @ [(te_name e, Regular data)])))))"

fun unpack_tar :: "hash \<Rightarrow> transfer_file list \<Rightarrow> tar_entry result list \<Rightarrow> string list \<Rightarrow> tree \<Rightarrow> tree result" where
  "unpack_tar sha expected [] seen d =
     (if set seen \<noteq> tf_path ` set expected then Inl (BoundaryError ''upload'' ''missing_archive_members'') else Inr d)"
| "unpack_tar sha expected (Inl e # rest) seen d = Inl e"
| "unpack_tar sha expected (Inr e # rest) seen d =
     and_then (extract_member sha expected seen e d) (unpack_tar sha expected rest (seen @ [te_name e]))"

definition unpack ::
  "hash \<Rightarrow> (string \<Rightarrow> string result list) \<Rightarrow> (string \<Rightarrow> tar_entry result list) \<Rightarrow> string \<Rightarrow> transfer \<Rightarrow> tree result" where
  "unpack sha gunzip tar archive t =
     and_then (expand (gunzip archive) []) (\<lambda>expanded. unpack_tar sha (tr_files t) (tar expanded) [] [])"

section \<open>Extraction is exact\<close>

lemma extract_member_Inr:
  assumes "extract_member sha expected seen e d = Inr d'"
  obtains f data where "f \<in> set expected" "tf_path f = te_name e" "te_size e = tf_bytes f" "te_data e = Some (Inr data)"
    "sha data = tf_sha256 f" "d' = d @ [(te_name e, Regular data)]" "\<not> member_refused expected seen e" "path_parts (te_name e) \<noteq> []"
proof -
  from assms obtain f data where found: "find (\<lambda>f. tf_path f = te_name e) expected = Some f"
    and rest: "\<not> member_refused expected seen e" "te_size e = tf_bytes f" "te_data e = Some (Inr data)"
      "\<not> name_exists (te_name e) d" "sha data = tf_sha256 f" "d' = d @ [(te_name e, Regular data)]"
    by (auto simp: extract_member_def and_then_eq_Inr split: if_splits option.splits)
  from find_key_Some [OF found] rest show thesis by (intro that [of f data]) (auto simp: name_exists_def)
qed

text \<open>What the members seen so far come to.\<close>

definition extracted :: "hash \<Rightarrow> transfer_file list \<Rightarrow> string list \<Rightarrow> tree \<Rightarrow> bool" where
  "extracted sha expected seen d \<longleftrightarrow>
     map fst d = seen \<and> distinct seen \<and>
     (\<forall>(p, e) \<in> set d. \<exists>f \<in> set expected. tf_path f = p \<and> (\<exists>data. e = Regular data \<and> sha data = tf_sha256 f) \<and>
        path_parts p \<noteq> [] \<and> ''..'' \<notin> set (path_parts p) \<and> \<not> has_prefix ''/'' p \<and> p = join_parts (path_parts p))"

lemma unpack_tar_extracted:
  "unpack_tar sha expected items seen d = Inr d' \<Longrightarrow> extracted sha expected seen d \<Longrightarrow>
   extracted sha expected (map fst d') d' \<and> fst ` set d' = tf_path ` set expected"
proof (induction sha expected items seen d rule: unpack_tar.induct)
  case (1 sha expected seen d)
  then have "d' = d" "set seen = tf_path ` set expected" by (auto split: if_splits)
  with 1(2) show ?case by (auto simp: extracted_def)
next
  case (3 sha expected e rest seen d)
  from 3(2) obtain d1 where d1: "extract_member sha expected seen e d = Inr d1"
    and rest: "unpack_tar sha expected rest (seen @ [te_name e]) d1 = Inr d'"
    by (auto simp: and_then_eq_Inr)
  from d1 have "extracted sha expected (seen @ [te_name e]) d1"
  proof (rule extract_member_Inr)
    fix f data
    assume "f \<in> set expected" "tf_path f = te_name e" "te_size e = tf_bytes f" "te_data e = Some (Inr data)"
      "sha data = tf_sha256 f" "d1 = d @ [(te_name e, Regular data)]" "\<not> member_refused expected seen e" "path_parts (te_name e) \<noteq> []"
    with 3(3) show ?thesis by (auto simp: extracted_def member_refused_def)
  qed
  with 3(1) [OF d1] rest show ?case by blast
qed simp

end
