(* ===== verification/Receiving.thy ===== *)
theory Receiving
  imports Ingress
begin

text \<open>
  \<open>UploadService\<close> of python/spireagent/hub/uploads.py: the transfer intent, the bounded verification
  loop, and \<open>verify\<close>, which publishes an archive with its inventory, its intent and a receipt before the
  database records the outcome. The state is the database beside the artifact store. The console index
  is derived data whose failures are suppressed: it is a parameter that changes the database.
\<close>

record verification =
  vf_passed :: bool
  vf_findings :: "string list"
  vf_bundle :: "verified_bundle option"

record 'b receiving =
  re_lib :: stdlib
  re_repr :: "real \<Rightarrow> string"
  re_producer :: producer
  re_version :: string
  re_put :: "string \<Rightarrow> string \<Rightarrow> 'b \<Rightarrow> ('b \<times> bool) result"
  re_get :: "string \<Rightarrow> 'b \<Rightarrow> string result"
  re_authorize :: "string \<Rightarrow> int \<Rightarrow> (string \<times> json) result"
  re_download :: "string \<Rightarrow> int \<Rightarrow> string result"
  re_gunzip :: "string \<Rightarrow> string result list"
  re_tar :: "string \<Rightarrow> tar_entry result list"
  re_verify :: "tree \<Rightarrow> verification result"
  re_index_status :: "string \<Rightarrow> json \<Rightarrow> string \<Rightarrow> ops \<Rightarrow> ops"
  re_index_bundle :: "upload \<Rightarrow> verified_bundle \<Rightarrow> (ops, unit) tx"

section \<open>The intent\<close>

definition intent_fields :: "json \<Rightarrow> string list" where
  "intent_fields value =
     [''schema'', ''transfer_manifest'', ''archive_sha256'', ''archive_bytes''] @
     (case value of JObj kvs \<Rightarrow> if ''delivery_metadata'' \<in> fst ` set kvs then [''delivery_metadata''] else [] | _ \<Rightarrow> [])"

definition check_intent :: "(string \<Rightarrow> string) \<Rightarrow> json \<Rightarrow> ((string \<times> json) list \<times> int \<times> transfer) result" where
  "check_intent fr value =
     and_then (object_fields value (intent_fields value) ''upload'') (\<lambda>intent.
     and_then (item intent ''schema'') (\<lambda>schema.
       if schema \<noteq> JStr ''stpd/upload-intent-v1'' then Inl (BoundaryError ''upload'' ''unsupported_intent'')
       else
         and_then (item intent ''archive_sha256'') (\<lambda>v.
         and_then (digest v ''upload.archive'' 64) (\<lambda>_.
         and_then (item intent ''archive_bytes'') (\<lambda>n.
           if \<not> json_int_in n 1 max_archive then Inl (BoundaryError ''upload'' ''archive_size_limit'')
           else
             and_then (item intent ''transfer_manifest'') (\<lambda>v.
             and_then (transfer_from_json fr v) (\<lambda>t. Inr (intent, json_int n, t))))))))"

definition intent_reply :: "upload \<Rightarrow> string \<Rightarrow> json \<Rightarrow> (string \<times> json) list" where
  "intent_reply row url headers =
     [(''upload_id'', JStr (u_id row)), (''upload_url'', JStr url), (''upload_method'', JStr ''PUT''),
      (''upload_headers'', headers), (''status'', JStr (upload_status_name (u_status row)))]"

definition upload_intent ::
  "'b receiving \<Rightarrow> real \<Rightarrow> string \<Rightarrow> string \<Rightarrow> json \<Rightarrow> ops \<Rightarrow> ops \<times> (string \<times> json) list result" where
  "upload_intent V clock fresh device value s =
     (case check_intent (float_text (re_lib V)) value of
        Inl e \<Rightarrow> (s, Inl e)
      | Inr (intent, nbytes, t) \<Rightarrow>
          (case committed (create_upload fresh clock device (tr_content_id t) (transfer_sha256 (sha256 (re_lib V)) t) (JObj intent)) s of
             (s1, Inl e) \<Rightarrow> (s1, Inl e)
           | (s1, Inr row) \<Rightarrow>
               let s2 = (if u_status row = AwaitingUpload then re_index_status V (u_id row) (JInt nbytes) ''not_indexed'' s1 else s1)
               in (s2, and_then (re_authorize V (u_id row) nbytes) (\<lambda>(url, headers). Inr (intent_reply row url headers)))))"

section \<open>The check of an archive\<close>

definition archive_bundle ::
  "'b receiving \<Rightarrow> (string \<times> json) list \<Rightarrow> transfer \<Rightarrow> string \<Rightarrow> (string list \<times> verified_bundle option) result" where
  "archive_bundle V intent t archive =
     and_then (item intent ''archive_sha256'') (\<lambda>declared.
       if JStr (sha256 (re_lib V) archive) \<noteq> declared then Inl (BoundaryError ''upload'' ''archive_hash_mismatch'')
       else
         and_then (unpack (sha256 (re_lib V)) (re_gunzip V) (re_tar V) archive t) (\<lambda>d.
         and_then (re_verify V d) (\<lambda>found.
           if \<not> vf_passed found
           then Inr (if vf_findings found = [] then [''platform_verification_failed''] else vf_findings found, None)
           else
             (case vf_bundle found of
                None \<Rightarrow> Inl (ValueError ''verification did not pass'')
              | Some bundle \<Rightarrow>
                  if vb_content_id bundle \<noteq> tr_content_id t
                  then Inl (BoundaryError ''upload'' ''bundle_content_identity_mismatch'')
                  else Inr ([], Some bundle)))))"

text \<open>What the handler turns into a finding; an operating system error is not one of them.\<close>

definition archive_findings ::
  "'b receiving \<Rightarrow> (string \<times> json) list \<Rightarrow> transfer \<Rightarrow> string \<Rightarrow> (string list \<times> verified_bundle option) result" where
  "archive_findings V intent t archive =
     (case archive_bundle V intent t archive of
        Inl e \<Rightarrow>
          if value_error e \<or> e = ArchiveError
          then Inr ([case e of BoundaryError stage code \<Rightarrow> code | _ \<Rightarrow> ''platform_verification_failed''], None)
          else Inl e
      | Inr found \<Rightarrow> Inr found)"

section \<open>Publication\<close>

definition receive_receipt :: "'b receiving \<Rightarrow> upload \<Rightarrow> transfer \<Rightarrow> string list \<Rightarrow> (string \<times> json) list" where
  "receive_receipt V row t findings =
     [(''schema'', JStr ''stpd/receive-receipt-v1''), (''receipt_id'', JStr (u_id row)),
      (''content_id'', JStr (tr_content_id t)), (''manifest_sha256'', JStr (transfer_sha256 (sha256 (re_lib V)) t)),
      (''status'', JStr (if findings \<noteq> [] then ''quarantined'' else ''verified'')), (''findings'', json_texts findings),
      (''verifier'', JObj [(''package'', JStr ''rsgcsg-sts2-platform-evidence''), (''version'', JStr (re_version V)),
         (''entrypoint'', JStr ''verify_human_session_bundle''),
         (''source_lock'', JStr (p_uv_lock_sha256 (re_producer V)))])]"

text \<open>A source that gives all its bytes; \<open>put\_payload\<close> reads at most a chunk at a time.\<close>

fun read_answers :: "string \<Rightarrow> nat \<Rightarrow> read_answer list" where
  "read_answers data 0 = []"
| "read_answers data (Suc n) =
     (if data = [] then [] else Bytes (take chunk_bytes data) # read_answers (drop chunk_bytes data) n)"

definition data_source :: "string \<Rightarrow> read_answer list" where
  "data_source data = read_answers data (length data)"

definition put_data ::
  "'b receiving \<Rightarrow> string \<Rightarrow> string \<Rightarrow> string \<Rightarrow> 'b \<Rightarrow> 'b \<times> payload result" where
  "put_data V role data media b = put_payload (re_lib V) (re_put V) role (data_source data) media b"

fun put_all :: "'b receiving \<Rightarrow> (string \<times> string \<times> string) list \<Rightarrow> 'b \<Rightarrow> 'b \<times> payload list result" where
  "put_all V [] b = (b, Inr [])"
| "put_all V ((role, data, media) # rest) b =
     (case put_data V role data media b of
        (b1, Inl e) \<Rightarrow> (b1, Inl e)
      | (b1, Inr payload) \<Rightarrow>
          (case put_all V rest b1 of
             (b2, Inl e) \<Rightarrow> (b2, Inl e)
           | (b2, Inr payloads) \<Rightarrow> (b2, Inr (payload # payloads))))"

definition received_parameters :: "transfer \<Rightarrow> string list \<Rightarrow> (string \<times> json) list" where
  "received_parameters t findings =
     [(''schema'', JStr ''stpd/received-bundle-v1''), (''content_id'', JStr (tr_content_id t)),
      (''disposition'', JStr (if findings \<noteq> [] then ''quarantined'' else ''verified'')),
      (''research_admission'', JStr ''not_evaluated'')]"

text \<open>The manifest names its payloads in the order archive, transfer, receipt, intent.\<close>

definition publish_evidence ::
  "'b receiving \<Rightarrow> upload \<Rightarrow> (string \<times> json) list \<Rightarrow> transfer \<Rightarrow> string list \<Rightarrow> string \<Rightarrow> 'b \<Rightarrow> 'b \<times> string result" where
  "publish_evidence V row intent t findings archive b =
     (case put_all V
          [(''archive'', archive, ''application/gzip''),
           (''transfer'', json_bytes (transfer_dict t), ''application/json''),
           (''intent'', json_bytes (JObj intent), ''application/json''),
           (''receipt'', json_bytes (JObj (receive_receipt V row t findings)), ''application/json'')] b of
        (b1, Inr [archived, inventory_payload, intent_payload, receipt_payload]) \<Rightarrow>
          (case and_then (freeze (received_parameters t findings)) (\<lambda>parameters.
                make_manifest (re_lib V) (JStr ''evidence'') (re_producer V) []
                  [archived, inventory_payload, receipt_payload, intent_payload] parameters) of
             Inl e \<Rightarrow> (b1, Inl e)
           | Inr m \<Rightarrow>
               (case publish (re_lib V) (re_put V) (re_get V) m b1 of
                  Inl e \<Rightarrow> (b1, Inl e)
                | Inr (b2, i) \<Rightarrow> (b2, Inr i)))
      | (b1, Inr _) \<Rightarrow> (b1, Inl AssertionError)
      | (b1, Inl e) \<Rightarrow> (b1, Inl e))"

section \<open>After the receipt\<close>

definition sharing_unavailable :: "real \<Rightarrow> upload \<Rightarrow> py_error \<Rightarrow> ops \<Rightarrow> ops" where
  "sharing_unavailable clock row e s =
     record_event clock ''verifier'' ''collection_sharing_unavailable'' (u_id row)
       (JObj [(''reason'', JStr (case e of BoundaryError stage code \<Rightarrow> code | _ \<Rightarrow> ''association_unavailable''))]) s"

text \<open>Neither a failing index nor a failing association touches the receipt.\<close>

definition present_bundle :: "'b receiving \<Rightarrow> real \<Rightarrow> upload \<Rightarrow> json \<Rightarrow> verified_bundle \<Rightarrow> ops \<Rightarrow> ops" where
  "present_bundle V clock row nbytes bundle s =
     (let s1 = (case re_index_bundle V row bundle s of
                  Inl e \<Rightarrow> re_index_status V (u_id row) nbytes ''unavailable'' s
                | Inr (s', _) \<Rightarrow> s')
      in (case associate_verified_collection (re_lib V) (re_repr V) clock (u_id row) bundle s1 of
            Inl e \<Rightarrow> sharing_unavailable clock row e s1
          | Inr (s2, _) \<Rightarrow> s2))"

definition after_receipt ::
  "'b receiving \<Rightarrow> real \<Rightarrow> upload \<Rightarrow> json \<Rightarrow> string list \<times> verified_bundle option \<Rightarrow> ops \<Rightarrow> ops" where
  "after_receipt V clock row nbytes found s =
     (case found of
        ([], Some bundle) \<Rightarrow> present_bundle V clock row nbytes bundle s
      | _ \<Rightarrow> re_index_status V (u_id row) nbytes ''quarantined'' s)"

definition verify_upload ::
  "'b receiving \<Rightarrow> real \<Rightarrow> upload \<Rightarrow> ops \<times> 'b \<Rightarrow> (ops \<times> 'b) \<times> (string \<times> json) list result" where
  "verify_upload V clock row st =
     (let (s, b) = st; intent = receipt_fields (u_intent row) in
      case and_then (item intent ''transfer_manifest'') (\<lambda>v.
           and_then (transfer_from_json (float_text (re_lib V)) v) (\<lambda>t.
           and_then (item intent ''archive_bytes'') (\<lambda>nbytes.
           and_then (re_download V (u_id row) (json_int nbytes)) (\<lambda>archive.
           and_then (archive_findings V intent t archive) (\<lambda>found. Inr (t, nbytes, archive, found)))))) of
        Inl e \<Rightarrow> (st, Inl e)
      | Inr (t, nbytes, archive, found) \<Rightarrow>
          (case publish_evidence V row intent t (fst found) archive b of
             (b1, Inl e) \<Rightarrow> ((s, b1), Inl e)
           | (b1, Inr evidence) \<Rightarrow>
               let receipt = receive_receipt V row t (fst found) @ [(''evidence_id'', JStr evidence)] in
               (case finish_upload clock (u_id row) receipt s of
                  Inl e \<Rightarrow> ((s, b1), Inl e)
                | Inr (s1, _) \<Rightarrow> ((after_receipt V clock row nbytes found s1, b1), Inr receipt))))"

section \<open>The verification loop\<close>

definition failure_code :: "py_error \<Rightarrow> string" where
  "failure_code e = (case e of BoundaryError stage code \<Rightarrow> code | _ \<Rightarrow> ''transport_or_storage_unavailable'')"

definition verify_row :: "'b receiving \<Rightarrow> real \<Rightarrow> upload \<Rightarrow> ops \<times> 'b \<Rightarrow> ops \<times> 'b" where
  "verify_row V clock row st =
     (case verify_upload V clock row st of
        (st1, Inr _) \<Rightarrow> st1
      | ((s1, b1), Inl e) \<Rightarrow> (fst (committed (verification_failure clock (u_id row) (failure_code e) clock) s1), b1))"

text \<open>The next row: the one asked for, or the due row with the least retry time. None ends the loop.\<close>

definition next_row :: "string option \<Rightarrow> real \<Rightarrow> ops \<Rightarrow> upload option result" where
  "next_row wanted clock s =
     and_then (case wanted of
         Some i \<Rightarrow> and_then (get_upload i None s) (\<lambda>u. Inr (Some (u_id u, u_status u, u_retry_at u)))
       | None \<Rightarrow> and_then (pending_upload (Finite clock) s) (\<lambda>found.
           Inr (map_option (\<lambda>r. (su_id r, su_status r, su_retry_at r)) found))) (\<lambda>metadata.
       case metadata of
         None \<Rightarrow> Inr None
       | Some (i, status, retry_at) \<Rightarrow>
           if status \<noteq> VerificationPending \<or> clock < retry_at then Inr None
           else and_then (get_upload i None s) (\<lambda>row. Inr (Some row)))"

fun verify_rows :: "'b receiving \<Rightarrow> string option \<Rightarrow> real \<Rightarrow> nat \<Rightarrow> ops \<times> 'b \<Rightarrow> nat \<Rightarrow> (ops \<times> 'b) \<times> nat result" where
  "verify_rows V wanted clock 0 st count = (st, Inr count)"
| "verify_rows V wanted clock (Suc n) st count =
     (case next_row wanted clock (fst st) of
        Inl e \<Rightarrow> (st, Inl e)
      | Inr None \<Rightarrow> (st, Inr count)
      | Inr (Some row) \<Rightarrow> verify_rows V wanted clock n (verify_row V clock row st) (Suc count))"

definition verify_pending :: "'b receiving \<Rightarrow> string option \<Rightarrow> real \<Rightarrow> ops \<times> 'b \<Rightarrow> (ops \<times> 'b) \<times> nat result" where
  "verify_pending V wanted clock st = verify_rows V wanted clock (if wanted = None then 16 else 1) st 0"

section \<open>What a receipt stands for\<close>

lemma chunk_bytes_nonzero: "(chunk_bytes = 0) = False"
  by (simp add: chunk_bytes_def)

lemma read_answers_bytes: "length data \<le> n \<Longrightarrow> source_bytes (read_answers data n) = data \<and> ends_once (read_answers data n)"
proof (induction data n rule: read_answers.induct)
  case (2 data n)
  show ?case
  proof (cases "data = []")
    case False
    have "length (drop chunk_bytes data) < length data" using False chunk_bytes_pos by simp
    then have "length (drop chunk_bytes data) \<le> n" using 2(2) by linarith
    then have "source_bytes (read_answers (drop chunk_bytes data) n) = drop chunk_bytes data"
      "ends_once (read_answers (drop chunk_bytes data) n)" using 2(1) [OF False] by blast+
    with False show ?thesis by (simp add: chunk_bytes_nonzero)
  qed simp
qed simp

lemma data_source_bytes [simp]: "source_bytes (data_source data) = data" "ends_once (data_source data)"
  using read_answers_bytes [of data "length data"] by (simp_all add: data_source_def)

text \<open>A payload that reads back as its bytes at every later time.\<close>

definition holds ::
  "(string \<Rightarrow> string \<Rightarrow> 'b \<Rightarrow> ('b \<times> bool) result) \<Rightarrow> (string \<Rightarrow> 'b \<Rightarrow> string result) \<Rightarrow> stdlib \<Rightarrow> 'b \<Rightarrow>
   string \<times> string \<times> string \<Rightarrow> payload \<Rightarrow> bool" where
  "holds put get L b entry p \<longleftrightarrow>
     (case entry of (role, data, media) \<Rightarrow>
        payload_role p = role \<and> payload_sha p = sha256 L data \<and> valid_payload p \<and>
        (\<forall>c. grows put b c \<longrightarrow> (\<exists>ds. read_payload L get p c = Inr ds \<and> concat ds = data)))"

lemma holds_grows: "holds put get L b entry p \<Longrightarrow> grows put b c \<Longrightarrow> holds put get L c entry p"
  by (auto simp: holds_def intro: grows_trans)

lemma make_payload_valid: "make_payload r h n m = Inr p \<Longrightarrow> valid_payload p"
  unfolding valid_payload_def make_payload_def and_then_eq_Inr text_value_eq_Inr digest_eq_Inr unsigned_eq_Inr by auto

lemma put_payload_valid:
  assumes "put_payload L put role src media b = (b', Inr p)"
  shows "valid_payload p"
proof -
  from assms obtain h n where "make_payload (JStr role) h n (JStr media) = Inr p"
    unfolding put_payload_def by (auto split: prod.splits sum.splits)
  then show ?thesis by (rule make_payload_valid)
qed

context immutable_blobs
begin

lemma put_data_holds:
  assumes "re_put V = put" and "hex_digests (re_lib V)" and run: "put_data V role data media b = (b', Inr p)"
  shows "grows put b b' \<and> holds put get (re_lib V) b' (role, data, media) p"
proof -
  from run have put: "put_payload (re_lib V) put role (data_source data) media b = (b', Inr p)"
    by (simp add: put_data_def assms(1))
  have "\<exists>ds. read_payload (re_lib V) get p c = Inr ds \<and> concat ds = data \<and> payload_role p = role \<and>
      payload_media p = media \<and> payload_sha p = sha256 (re_lib V) data" if "grows put b' c" for c
    using put_payload_reads [OF assms(2) put data_source_bytes(2) that] by simp
  moreover from this [OF grows.same] have "payload_role p = role" "payload_sha p = sha256 (re_lib V) data" by auto
  ultimately have "holds put get (re_lib V) b' (role, data, media) p"
    using put_payload_valid [OF put] by (auto simp: holds_def)
  then show ?thesis using put_payload_grows [OF put data_source_bytes(2)] by simp
qed

lemma put_all_holds:
  assumes V: "re_put V = put" "hex_digests (re_lib V)"
  shows "put_all V entries b = (b', Inr ps) \<Longrightarrow> grows put b b' \<and> list_all2 (holds put get (re_lib V) b') entries ps"
proof (induction entries arbitrary: b ps)
  case Nil
  then show ?case by (auto intro: grows.same)
next
  case (Cons entry entries)
  obtain role data media where entry: "entry = (role, data, media)" by (cases entry)
  from Cons.prems obtain b1 p qs where first: "put_data V role data media b = (b1, Inr p)"
    and rest: "put_all V entries b1 = (b', Inr qs)" and ps: "ps = p # qs"
    by (auto simp: entry split: prod.splits sum.splits)
  from put_data_holds [OF V first] have one: "grows put b b1" "holds put get (re_lib V) b1 entry p" by (simp_all add: entry)
  from Cons.IH [OF rest] have more: "grows put b1 b'" "list_all2 (holds put get (re_lib V) b') entries qs" by blast+
  from grows_trans [OF more(1) one(1)] holds_grows [OF one(2) more(1)] more(2) show ?case by (simp add: ps)
qed

lemma publish_evidence_holds:
  assumes V: "re_put V = put" "re_get V = get" "hex_digests (re_lib V)" "valid_producer (re_lib V) (re_producer V)"
    and run: "publish_evidence V row intent t findings data b = (b', Inr i)" and later: "grows put b' c"
  shows "\<exists>m p ds. get_manifest (re_lib V) get i c = Inr m \<and> mf_kind m = ''evidence'' \<and>
    Inr (mf_parameters m) = freeze (received_parameters t findings) \<and>
    manifest_payload m ''archive'' = Inr p \<and> payload_sha p = sha256 (re_lib V) data \<and>
    read_payload (re_lib V) get p c = Inr ds \<and> concat ds = data"
proof -
  let ?L = "re_lib V"
  let ?entries = "[(''archive'', data, ''application/gzip''), (''transfer'', json_bytes (transfer_dict t), ''application/json''),
     (''intent'', json_bytes (JObj intent), ''application/json''),
     (''receipt'', json_bytes (JObj (receive_receipt V row t findings)), ''application/json'')]"
  from run obtain b1 p q r u frozen m where puts: "put_all V ?entries b = (b1, Inr [p, q, r, u])"
    and frozen: "freeze (received_parameters t findings) = Inr frozen"
    and made: "make_manifest ?L (JStr ''evidence'') (re_producer V) [] [p, q, u, r] frozen = Inr m"
    and pub: "publish ?L put get m b1 = Inr (b', i)"
    unfolding publish_evidence_def V(1,2)
    by (auto simp: and_then_eq_Inr split: prod.splits sum.splits list.splits)
  from put_all_holds [OF V(1,3) puts] have kept: "list_all2 (holds put get ?L b1) ?entries [p, q, r, u]" by blast
  from made have m: "mf_kind m = ''evidence''" "mf_producer m = re_producer V" "mf_parents m = []" "mf_payloads m = [p, q, u, r]"
    "mf_parameters m = frozen" "manifest_ok ?L m"
    by (auto simp: make_manifest_eq_Inr)
  have "valid_parameters ?L frozen"
    using freeze_again [OF frozen] frozen
    by (auto simp: valid_parameters_def freeze_def received_parameters_def split: if_splits)
  with kept m V(4) have "manifest_typed ?L m" by (simp add: manifest_typed_def holds_def)
  from publish_reads [OF V(3) pub m(6) this later] have found: "get_manifest ?L get i c = Inr (normal_manifest m)" by blast
  have "distinct (map payload_role (mf_payloads (normal_manifest m)))"
    using m(6) by (simp add: normal_manifest_def manifest_ok_def distinct_map_sort_key)
  moreover have "p \<in> set (mf_payloads (normal_manifest m))" using m(4) by (simp add: normal_manifest_def)
  ultimately have "manifest_payload (normal_manifest m) (payload_role p) = Inr p" by (rule manifest_payload_unique)
  then have "manifest_payload (normal_manifest m) ''archive'' = Inr p" using kept by (simp add: holds_def)
  moreover from grows_trans [OF later publish_grows [OF pub]] kept obtain ds where
    "read_payload ?L get p c = Inr ds" "concat ds = data" "payload_sha p = sha256 ?L data"
    by (auto simp: holds_def)
  ultimately show ?thesis using found m(1,5) frozen by (intro exI [of _ "normal_manifest m"] exI [of _ p] exI [of _ ds])
      (simp add: normal_manifest_def)
qed

end

text \<open>What the receipt of a verified bundle says of the archive.\<close>

lemma archive_findings_clean:
  assumes "archive_findings V intent t data = Inr ([], bundle)"
  shows "map_of intent ''archive_sha256'' = Some (JStr (sha256 (re_lib V) data)) \<and>
    (\<exists>d found v. unpack (sha256 (re_lib V)) (re_gunzip V) (re_tar V) data t = Inr d \<and> re_verify V d = Inr found \<and>
       vf_passed found \<and> vf_bundle found = Some v \<and> bundle = Some v \<and> vb_content_id v = tr_content_id t)"
proof -
  from assms have "archive_bundle V intent t data = Inr ([], bundle)"
    by (auto simp: archive_findings_def split: sum.splits if_splits)
  then show ?thesis
    unfolding archive_bundle_def by (auto simp: and_then_eq_Inr item_eq_Inr split: if_splits option.splits)
qed

lemma unpack_exact:
  assumes "unpack sha gunzip tar data t = Inr d"
  shows "distinct (map fst d) \<and> fst ` set d = tf_path ` set (tr_files t) \<and>
    (\<forall>(p, e) \<in> set d. ''..'' \<notin> set (path_parts p) \<and> \<not> has_prefix ''/'' p \<and>
       (\<exists>f \<in> set (tr_files t). tf_path f = p \<and> (\<exists>b. e = Regular b \<and> sha b = tf_sha256 f)))"
proof -
  from assms obtain x where "unpack_tar sha (tr_files t) (tar x) [] [] = Inr d" by (auto simp: unpack_def and_then_eq_Inr)
  from unpack_tar_extracted [OF this] show ?thesis by (fastforce simp: extracted_def)
qed

lemma verify_upload_returned:
  assumes "verify_upload V clock row (s, b) = ((s', b'), Inr receipt)"
  obtains t data found i s1 where
    "and_then (item (receipt_fields (u_intent row)) ''transfer_manifest'') (transfer_from_json (float_text (re_lib V))) = Inr t"
    "\<exists>n. map_of (receipt_fields (u_intent row)) ''archive_bytes'' = Some n \<and> re_download V (u_id row) (json_int n) = Inr data"
    "archive_findings V (receipt_fields (u_intent row)) t data = Inr found"
    "publish_evidence V row (receipt_fields (u_intent row)) t (fst found) data b = (b', Inr i)"
    "receipt = receive_receipt V row t (fst found) @ [(''evidence_id'', JStr i)]"
    "finish_upload clock (u_id row) receipt s = Inr (s1, ())"
    "\<exists>n. s' = after_receipt V clock row n found s1"
proof -
  let ?intent = "receipt_fields (u_intent row)"
  let ?checks = "and_then (item ?intent ''transfer_manifest'') (\<lambda>v.
     and_then (transfer_from_json (float_text (re_lib V)) v) (\<lambda>t.
     and_then (item ?intent ''archive_bytes'') (\<lambda>nbytes.
     and_then (re_download V (u_id row) (json_int nbytes)) (\<lambda>archive.
     and_then (archive_findings V ?intent t archive) (\<lambda>found. Inr (t, nbytes, archive, found))))))"
  obtain t n data found where checks: "?checks = Inr (t, n, data, found)"
    using assms by (cases ?checks) (auto simp: verify_upload_def Let_def)
  then have pure: "and_then (item ?intent ''transfer_manifest'') (transfer_from_json (float_text (re_lib V))) = Inr t"
      "item ?intent ''archive_bytes'' = Inr n" "re_download V (u_id row) (json_int n) = Inr data"
      "archive_findings V ?intent t data = Inr found"
    unfolding and_then_eq_Inr sum.inject prod.inject by blast+
  obtain b1 published where pub: "publish_evidence V row ?intent t (fst found) data b = (b1, published)" by fastforce
  from assms checks obtain i where i: "published = Inr i"
    by (cases published) (simp_all add: verify_upload_def Let_def pub)
  let ?receipt = "receive_receipt V row t (fst found) @ [(''evidence_id'', JStr i)]"
  from assms checks obtain s1 where finish: "finish_upload clock (u_id row) ?receipt s = Inr (s1, ())"
    by (cases "finish_upload clock (u_id row) ?receipt s") (auto simp: verify_upload_def Let_def pub i)
  from assms checks pub i finish have "publish_evidence V row ?intent t (fst found) data b = (b', Inr i)" "receipt = ?receipt"
    "finish_upload clock (u_id row) receipt s = Inr (s1, ())" "s' = after_receipt V clock row n found s1"
    by (simp_all add: verify_upload_def Let_def)
  with pure show thesis by (intro that [of t data found i s1]) (auto simp: item_eq_Inr)
qed

end
