(* ===== verification/ReceivingClaims.thy ===== *)
theory ReceivingClaims
  imports Receiving
begin

text \<open>
  The properties of the ingress: what a verified receipt guarantees of the evidence in the store, what
  extraction writes, and what a directory receiver keeps. The concrete upload the witnesses receive is
  one file in an archive; the stand-in hash depends on the end of its text.
\<close>

section \<open>Putting short payloads\<close>

text \<open>The payloads that puts of short, fresh data give, when every name is a valid key.\<close>

definition put_plan ::
  "stdlib \<Rightarrow> string list \<Rightarrow> string \<Rightarrow> string \<Rightarrow> string \<Rightarrow> payload option" where
  "put_plan L keys role data media =
     (let h = sha256 L data; index = json_bytes (JObj (index_dict h (int (length data)) [(h, length data)])) in
      case make_payload (JStr role) (JStr h) (JInt (int (length data))) (JStr media) of
        Inl e \<Rightarrow> None
      | Inr p \<Rightarrow>
          if data \<noteq> [] \<and> int (length data) \<le> 5000 \<and> int (length index) \<le> 5000 \<and> payload_sha p = h \<and>
             safe_key (object_key h) False = Inr (object_key h) \<and> safe_key (index_key h) False = Inr (index_key h) \<and>
             object_key h \<notin> set keys \<and> index_key h \<notin> set (keys @ [object_key h])
          then Some p else None)"

definition added_keys :: "stdlib \<Rightarrow> string \<Rightarrow> string list" where
  "added_keys L data = [object_key (sha256 L data), index_key (sha256 L data)]"

fun put_plans :: "stdlib \<Rightarrow> string list \<Rightarrow> (string \<times> string \<times> string) list \<Rightarrow> payload list option" where
  "put_plans L keys [] = Some []"
| "put_plans L keys ((role, data, media) # rest) =
     (case put_plan L keys role data media of
        None \<Rightarrow> None
      | Some p \<Rightarrow> map_option ((#) p) (put_plans L (keys @ added_keys L data) rest))"

lemma short_answers:
  assumes "data \<noteq> []" and "length data \<le> 5000"
  shows "data_source data = [Bytes data]" and "fill_chunk [Bytes data] [] = Inr (data, [])"
proof -
  have few: "length data \<le> chunk_bytes" using assms(2) by (simp add: chunk_bytes_def)
  then have "take chunk_bytes data = data" "drop chunk_bytes data = []" by simp_all
  moreover obtain n where "length data = Suc n" using assms(1) by (cases data) auto
  moreover have "read_answers [] n = []" by (cases n) simp_all
  ultimately show "data_source data = [Bytes data]" using assms(1) by (simp add: data_source_def)
  show "fill_chunk [Bytes data] [] = Inr (data, [])" using assms(1) few by (simp add: chunk_bytes_nonzero)
qed

lemma put_short:
  assumes V: "re_put V = local_put" and plan: "put_plan (re_lib V) (map fst b) role data media = Some p"
  shows "\<exists>b'. put_data V role data media b = (b', Inr p) \<and> map fst b' = map fst b @ added_keys (re_lib V) data"
proof -
  let ?L = "re_lib V" and ?h = "sha256 (re_lib V) data"
  let ?index = "json_bytes (JObj (index_dict ?h (int (length data)) [(?h, length data)]))"
  from plan have p: "make_payload (JStr role) (JStr ?h) (JInt (int (length data))) (JStr media) = Inr p"
    "data \<noteq> []" "length data \<le> 5000" "length ?index \<le> 5000" "payload_sha p = ?h"
    "safe_key (object_key ?h) False = Inr (object_key ?h)" "safe_key (index_key ?h) False = Inr (index_key ?h)"
    "map_of b (object_key ?h) = None" "map_of (b @ [(object_key ?h, data)]) (index_key ?h) = None"
    by (auto simp: put_plan_def Let_def map_of_eq_None_iff split: sum.splits if_splits)
  have small: "length data \<le> max_blob_bytes" "length ?index \<le> max_blob_bytes" using p(3,4) by (simp_all add: max_blob_bytes_def)
  have chunk: "local_put (object_key ?h) data b = Inr (b @ [(object_key ?h, data)], True)"
    using small p by (intro local_put_fresh)
  have index: "local_put (index_key ?h) ?index (b @ [(object_key ?h, data)]) =
      Inr ((b @ [(object_key ?h, data)]) @ [(index_key ?h, ?index)], True)"
    using small p(7,9) by (intro local_put_fresh)
  have no_more: "fill_chunk [] [] = Inr ([], [])" by simp
  have "put_chunks ?L local_put [Bytes data] [] [] b = (b @ [(object_key ?h, data)], Inr (data, [(?h, length data)]))"
    using p(2) by (simp add: put_chunks.simps [of _ _ "[Bytes data]"] put_chunks.simps [of _ _ "[]"] no_more
        short_answers(2) [OF p(2,3)] chunk del: fill_chunk.simps)
  with p(1,5) index show ?thesis
    by (simp add: put_data_def V short_answers(1) [OF p(2,3)] put_payload_def added_keys_def)
qed

lemma put_shorts:
  assumes V: "re_put V = local_put"
  shows "put_plans (re_lib V) (map fst b) entries = Some ps \<Longrightarrow>
    \<exists>b'. put_all V entries b = (b', Inr ps) \<and>
      map fst b' = map fst b @ concat (map (\<lambda>(role, data, media). added_keys (re_lib V) data) entries)"
proof (induction "re_lib V" "map fst b" entries arbitrary: b ps rule: put_plans.induct)
  case (2 role data media rest)
  then obtain p qs where p: "put_plan (re_lib V) (map fst b) role data media = Some p"
    "put_plans (re_lib V) (map fst b @ added_keys (re_lib V) data) rest = Some qs" "ps = p # qs"
    by (auto split: option.splits)
  from put_short [OF V p(1)] obtain b1 where b1: "put_data V role data media b = (b1, Inr p)"
    "map fst b1 = map fst b @ added_keys (re_lib V) data" by blast
  from 2(1) [of p b1 qs] p b1 obtain b2 where "put_all V rest b1 = (b2, Inr qs)"
    "map fst b2 = map fst b1 @ concat (map (\<lambda>(role, data, media). added_keys (re_lib V) data) rest)" by auto
  with b1 p(3) show ?case by simp
qed simp

abbreviation (input) evidence_entries ::
  "'b receiving \<Rightarrow> upload \<Rightarrow> (string \<times> json) list \<Rightarrow> transfer \<Rightarrow> string list \<Rightarrow> string \<Rightarrow> (string \<times> string \<times> string) list" where
  "evidence_entries V row intent t findings data \<equiv>
     [(''archive'', data, ''application/gzip''), (''transfer'', json_bytes (transfer_dict t), ''application/json''),
      (''intent'', json_bytes (JObj intent), ''application/json''),
      (''receipt'', json_bytes (JObj (receive_receipt V row t findings)), ''application/json'')]"

lemma evidence_published:
  assumes V: "re_put V = local_put" "re_get V = local_get" "hex_digests (re_lib V)"
    and plans: "put_plans (re_lib V) [] (evidence_entries V row intent t findings data) = Some [p, q, r, u]"
    and made: "and_then (freeze (received_parameters t findings)) (\<lambda>parameters.
      make_manifest (re_lib V) (JStr ''evidence'') (re_producer V) [] [p, q, u, r] parameters) = Inr m"
    and key: "safe_key (manifest_key (artifact_id (re_lib V) m)) False = Inr (manifest_key (artifact_id (re_lib V) m))"
      "manifest_key (artifact_id (re_lib V) m) \<notin>
         set (concat (map (\<lambda>(role, data, media). added_keys (re_lib V) data) (evidence_entries V row intent t findings data)))"
    and small: "int (length (manifest_bytes (re_lib V) m)) \<le> 5000"
  shows "\<exists>b'. publish_evidence V row intent t findings data [] = (b', Inr (artifact_id (re_lib V) m))"
proof -
  let ?entries = "evidence_entries V row intent t findings data"
  from put_shorts [of V "[]" ?entries, OF V(1)] plans obtain b1 where b1: "put_all V ?entries [] = (b1, Inr [p, q, r, u])"
    "map fst b1 = concat (map (\<lambda>(role, data, media). added_keys (re_lib V) data) ?entries)" by auto
  from local_store.put_all_holds [OF V(1,3) b1(1)] have "list_all2 (holds local_put local_get (re_lib V) b1) ?entries [p, q, r, u]" ..
  then have "list_all (\<lambda>p. \<exists>ds. read_payload (re_lib V) local_get p b1 = Inr ds) [p, q, u, r]"
    by (auto simp: holds_def intro: grows.same)
  then have reads: "\<exists>x. each (\<lambda>p. read_payload (re_lib V) local_get p b1) [p, q, u, r] = Inr x" by auto
  from made have m: "mf_parents m = []" "mf_payloads m = [p, q, u, r]" by (auto simp: and_then_eq_Inr make_manifest_eq_Inr)
  have "map_of b1 (manifest_key (artifact_id (re_lib V) m)) = None"
    using key(2) unfolding map_of_eq_None_iff b1(2) [symmetric] by auto
  with small key(1) have "local_put (manifest_key (artifact_id (re_lib V) m)) (manifest_bytes (re_lib V) m) b1 =
      Inr (b1 @ [(manifest_key (artifact_id (re_lib V) m), manifest_bytes (re_lib V) m)], True)"
    by (intro local_put_fresh) (simp_all add: max_blob_bytes_def)
  with reads m have "\<exists>b'. publish (re_lib V) local_put local_get m b1 = Inr (b', artifact_id (re_lib V) m)"
    by (auto simp: publish_def)
  with b1(1) made show ?thesis by (auto simp: publish_evidence_def V)
qed

text \<open>The manifest that publication makes of short, fresh evidence.\<close>

definition evidence_plan ::
  "'b receiving \<Rightarrow> upload \<Rightarrow> (string \<times> json) list \<Rightarrow> transfer \<Rightarrow> string list \<Rightarrow> string \<Rightarrow> manifest option" where
  "evidence_plan V row intent t findings data =
     (let L = re_lib V; entries = evidence_entries V row intent t findings data in
      case put_plans L [] entries of
        Some [p, q, r, u] \<Rightarrow>
          (case and_then (freeze (received_parameters t findings)) (\<lambda>parameters.
                make_manifest L (JStr ''evidence'') (re_producer V) [] [p, q, u, r] parameters) of
             Inl e \<Rightarrow> None
           | Inr m \<Rightarrow>
               let key = manifest_key (artifact_id L m) in
               if safe_key key False = Inr key \<and> int (length (manifest_bytes L m)) \<le> 5000 \<and>
                  key \<notin> set (concat (map (\<lambda>(role, data, media). added_keys L data) entries))
               then Some m else None)
      | _ \<Rightarrow> None)"

lemma planned_published:
  assumes "re_put V = local_put" "re_get V = local_get" "hex_digests (re_lib V)"
    and "evidence_plan V row intent t findings data = Some m"
  shows "\<exists>b'. publish_evidence V row intent t findings data [] = (b', Inr (artifact_id (re_lib V) m))"
proof -
  from assms(4) obtain p q r u where "put_plans (re_lib V) [] (evidence_entries V row intent t findings data) = Some [p, q, r, u]"
    "and_then (freeze (received_parameters t findings)) (\<lambda>parameters.
      make_manifest (re_lib V) (JStr ''evidence'') (re_producer V) [] [p, q, u, r] parameters) = Inr m"
    "safe_key (manifest_key (artifact_id (re_lib V) m)) False = Inr (manifest_key (artifact_id (re_lib V) m))"
    "manifest_key (artifact_id (re_lib V) m) \<notin>
       set (concat (map (\<lambda>(role, data, media). added_keys (re_lib V) data) (evidence_entries V row intent t findings data)))"
    "int (length (manifest_bytes (re_lib V) m)) \<le> 5000"
    unfolding evidence_plan_def Let_def by (auto split: option.splits list.splits sum.splits if_splits)
  from evidence_published [OF assms(1-3) this] show ?thesis .
qed

section \<open>A concrete upload\<close>

definition tail_digit :: "char \<Rightarrow> char" where
  "tail_digit c = ''0123456789abcdef'' ! (of_char c mod 16)"

definition tail_sha :: hash where
  "tail_sha t = (let d = map tail_digit (take 16 (rev t)) in d @ replicate (64 - length d) CHR ''0'')"

lemma tail_sha_hex: "length (tail_sha t) = 64" "lower_hex (tail_sha t)"
proof -
  have "tail_digit c \<in> set ''0123456789abcdef''" for c unfolding tail_digit_def by (intro nth_mem) simp
  then show "length (tail_sha t) = 64" "lower_hex (tail_sha t)"
    by (auto simp: tail_sha_def lower_hex_def list_all_iff Let_def)
qed

definition receive_lib :: stdlib where
  "receive_lib = \<lparr>sha256 = tail_sha,
      urlsplit = (\<lambda>t. Inr \<lparr>url_scheme = [], url_username = None, url_password = None, url_query = [], url_fragment = []\<rparr>),
      parse_qsl = (\<lambda>t. []), float_text = (\<lambda>t. t)\<rparr>"

definition sent_transfer :: transfer where
  "sent_transfer = \<lparr>tr_content_id = replicate 64 CHR ''c'', tr_artifact_type = ''human-session-bundle'',
     tr_files = [\<lparr>tf_path = ''a.txt'', tf_bytes = 2, tf_sha256 = tail_sha ''hi''\<rparr>]\<rparr>"

definition sent_intent :: "(string \<times> json) list" where
  "sent_intent = [(''archive_bytes'', JInt 5), (''archive_sha256'', JStr (tail_sha ''tarts'')),
     (''schema'', JStr ''stpd/upload-intent-v1''), (''transfer_manifest'', transfer_dict sent_transfer)]"

definition sent_upload :: upload where
  "sent_upload = \<lparr>u_id = ''u1'', u_device = ''d1'', u_content_id = replicate 64 CHR ''c'',
     u_manifest_sha = transfer_sha256 tail_sha sent_transfer, u_intent = JObj sent_intent,
     u_status = VerificationPending, u_receipt = None, u_verify_attempts = 0, u_retry_at = 0, u_last_error = None\<rparr>"

definition sent_bundle :: verified_bundle where
  "sent_bundle = \<lparr>vb_current = True, vb_content_id = replicate 64 CHR ''c'', vb_sha256 = tail_sha ''hi'',
     vb_campaign_id = ''c1'', vb_worker_id = ''w1''\<rparr>"

definition sample_receiving :: "blobs receiving" where
  "sample_receiving = \<lparr>re_lib = receive_lib, re_repr = (\<lambda>x. ''0''),
     re_producer = \<lparr>p_repository = ''repo'', p_source_revision = replicate 40 CHR ''1'', p_uv_lock_sha256 = replicate 64 CHR ''2''\<rparr>,
     re_version = ''1.0'', re_put = local_put, re_get = local_get, re_authorize = (\<lambda>i n. Inr (''url'', JObj [])),
     re_download = (\<lambda>i n. Inr ''tarts''), re_gunzip = (\<lambda>t. [Inr t, Inr []]),
     re_tar = (\<lambda>t. [Inr \<lparr>te_name = ''a.txt'', te_file = True, te_size = 2, te_data = Some (Inr ''hi'')\<rparr>]),
     re_verify = (\<lambda>d. Inr \<lparr>vf_passed = True, vf_findings = [], vf_bundle = Some sent_bundle\<rparr>),
     re_index_status = (\<lambda>i n status s. s), re_index_bundle = (\<lambda>u b s. Inr (s, ()))\<rparr>"

definition sent_state :: ops where
  "sent_state = new_operations\<lparr>uploads := [sent_upload]\<rparr>"

lemma sample_receiving_simps:
  "re_put sample_receiving = local_put" "re_get sample_receiving = local_get" "re_lib sample_receiving = receive_lib"
  by (simp_all add: sample_receiving_def)

lemma receive_digests: "hex_digests receive_lib"
  by (simp add: hex_digests_def receive_lib_def tail_sha_hex)

lemma sent_found: "archive_findings sample_receiving sent_intent sent_transfer ''tarts'' = Inr ([], Some sent_bundle)"
  by code_simp

lemma sent_planned:
  "map_option (\<lambda>m. ()) (evidence_plan sample_receiving sent_upload sent_intent sent_transfer [] ''tarts'') = Some ()"
  by code_simp

lemma sent_published:
  obtains b' i where "publish_evidence sample_receiving sent_upload sent_intent sent_transfer [] ''tarts'' [] = (b', Inr i)"
proof -
  from sent_planned obtain m where "evidence_plan sample_receiving sent_upload sent_intent sent_transfer [] ''tarts'' = Some m" by auto
  from planned_published [OF sample_receiving_simps(1,2) _ this] show thesis
    using that receive_digests by (auto simp: sample_receiving_simps(3))
qed

lemma sent_checked:
  "and_then (item sent_intent ''transfer_manifest'') (transfer_from_json (\<lambda>t. t)) = Inr sent_transfer"
  by code_simp

lemma sent_finishes:
  assumes "receipt = receive_receipt sample_receiving sent_upload sent_transfer [] @ [(''evidence_id'', JStr i)]"
  shows "\<exists>s'. finish_upload 0 ''u1'' receipt sent_state = Inr (s', ())"
proof -
  have "map_of receipt ''status'' = Some (JStr ''verified'')" "map_of receipt ''receipt_id'' = Some (JStr ''u1'')"
    "map_of receipt ''content_id'' = Some (JStr (u_content_id sent_upload))"
    "map_of receipt ''manifest_sha256'' = Some (JStr (u_manifest_sha sent_upload))"
    by (simp_all add: assms receive_receipt_def sent_upload_def sample_receiving_def receive_lib_def sent_transfer_def)
  then show ?thesis
    by (simp add: finish_upload_def receipt_status_def receipt_names_def in_strings_def upload_row_def sent_state_def
        new_operations_def sent_upload_def)
qed

lemma sent_verified:
  obtains s' b' receipt where "verify_upload sample_receiving 0 sent_upload (sent_state, []) = ((s', b'), Inr receipt)"
    "map_of receipt ''status'' = Some (JStr ''verified'')"
proof -
  from sent_published obtain b' i where pub:
    "publish_evidence sample_receiving sent_upload sent_intent sent_transfer [] ''tarts'' [] = (b', Inr i)" .
  let ?receipt = "receive_receipt sample_receiving sent_upload sent_transfer [] @ [(''evidence_id'', JStr i)]"
  from sent_finishes [OF refl] obtain s' where fin: "finish_upload 0 ''u1'' ?receipt sent_state = Inr (s', ())" by blast
  from sent_checked have item: "and_then (item sent_intent ''transfer_manifest'') (\<lambda>v. and_then (transfer_from_json (\<lambda>t. t) v) f) =
      f sent_transfer" for f :: "transfer \<Rightarrow> 'a result"
    by (cases "item sent_intent ''transfer_manifest''") auto
  have intent: "receipt_fields (u_intent sent_upload) = sent_intent" "u_id sent_upload = ''u1''"
    by (simp_all add: receipt_fields_def sent_upload_def)
  have bytes: "item sent_intent ''archive_bytes'' = Inr (JInt 5)" by (simp add: sent_intent_def item_def)
  have "re_download sample_receiving ''u1'' n = Inr ''tarts''" "float_text (re_lib sample_receiving) = (\<lambda>t. t)" for n
    by (simp_all add: sample_receiving_def receive_lib_def)
  note parts = this intent item bytes sent_found pub fin
  have "verify_upload sample_receiving 0 sent_upload (sent_state, []) =
      ((after_receipt sample_receiving 0 sent_upload (JInt 5) ([], Some sent_bundle) s', b'), Inr ?receipt)"
    by (simp add: verify_upload_def parts Let_def)
  then show thesis by (rule that) (simp add: receive_receipt_def)
qed

section \<open>The properties\<close>

text \<open>Claim C21. A verified receipt stands for its evidence: when a verification returns a receipt with status
verified, then at every later time the store holds, under the evidence identity the receipt names, an
evidence manifest whose archive payload reads back as bytes with the SHA-256 the intent declared; those
bytes unpack to the declared inventory, the bundle verifier passed on the unpacked files, and it
named the content identity that the inventory declares.\<close>

theorem verified_evidence:
  assumes "re_put V = local_put" and "re_get V = local_get" and "hex_digests (re_lib V)"
    and "valid_producer (re_lib V) (re_producer V)"
    and "verify_upload V clock row (s, b) = ((s', b'), Inr receipt)"
    and "map_of receipt ''status'' = Some (JStr ''verified'')" and "grows local_put b' c"
  shows "\<exists>i m p ds t d found v.
    map_of receipt ''evidence_id'' = Some (JStr i) \<and> get_manifest (re_lib V) local_get i c = Inr m \<and> mf_kind m = ''evidence'' \<and>
    manifest_payload m ''archive'' = Inr p \<and> read_payload (re_lib V) local_get p c = Inr ds \<and>
    map_of (receipt_fields (u_intent row)) ''archive_sha256'' = Some (JStr (sha256 (re_lib V) (concat ds))) \<and>
    map_of receipt ''content_id'' = Some (JStr (tr_content_id t)) \<and>
    unpack (sha256 (re_lib V)) (re_gunzip V) (re_tar V) (concat ds) t = Inr d \<and>
    re_verify V d = Inr found \<and> vf_passed found \<and> vf_bundle found = Some v \<and> vb_content_id v = tr_content_id t"
  using assms(5)
proof (rule verify_upload_returned)
  fix t data found i s1
  let ?intent = "receipt_fields (u_intent row)"
  assume found: "archive_findings V ?intent t data = Inr found"
    and pub: "publish_evidence V row ?intent t (fst found) data b = (b', Inr i)"
    and receipt: "receipt = receive_receipt V row t (fst found) @ [(''evidence_id'', JStr i)]"
  have "fst found = []" using assms(6) by (auto simp: receipt receive_receipt_def split: if_splits)
  then have "archive_findings V ?intent t data = Inr ([], snd found)" using found by (cases found) simp
  note clean = archive_findings_clean [OF this]
  from local_store.publish_evidence_holds [OF assms(1-4) pub assms(7)] obtain m p ds where
    "get_manifest (re_lib V) local_get i c = Inr m" "mf_kind m = ''evidence''" "manifest_payload m ''archive'' = Inr p"
    "read_payload (re_lib V) local_get p c = Inr ds" "concat ds = data" by blast
  moreover have "map_of receipt ''evidence_id'' = Some (JStr i)" "map_of receipt ''content_id'' = Some (JStr (tr_content_id t))"
    by (simp_all add: receipt receive_receipt_def)
  ultimately show ?thesis using clean by blast
qed

theorem verified_evidence_witness:
  "\<exists>i m p ds c. get_manifest receive_lib local_get i c = Inr m \<and> manifest_payload m ''archive'' = Inr p \<and>
     read_payload receive_lib local_get p c = Inr ds \<and> tail_sha (concat ds) = tail_sha ''tarts''"
proof -
  have valid: "valid_producer receive_lib (re_producer sample_receiving)" by code_simp
  obtain s' b' receipt where run: "verify_upload sample_receiving 0 sent_upload (sent_state, []) = ((s', b'), Inr receipt)"
    "map_of receipt ''status'' = Some (JStr ''verified'')" by (rule sent_verified)
  from verified_evidence [OF sample_receiving_simps(1,2), unfolded sample_receiving_simps(3), OF receive_digests valid run grows.same]
  obtain i m p ds where "get_manifest receive_lib local_get i b' = Inr m" "manifest_payload m ''archive'' = Inr p"
    "read_payload receive_lib local_get p b' = Inr ds"
    "map_of (receipt_fields (u_intent sent_upload)) ''archive_sha256'' = Some (JStr (sha256 receive_lib (concat ds)))" by blast
  moreover have "map_of (receipt_fields (u_intent sent_upload)) ''archive_sha256'' = Some (JStr (tail_sha ''tarts''))"
    "sha256 receive_lib = tail_sha"
    by (simp_all add: receipt_fields_def sent_upload_def sent_intent_def receive_lib_def)
  ultimately show ?thesis by (intro exI conjI) auto
qed

text \<open>Claim C22. Extraction writes exactly the declared inventory: whatever the gzip and tar readers give, an
archive that unpacks gives each declared path once and nothing else, no path is absolute or climbs
with a parent component, and each file's bytes have the declared SHA-256.\<close>

theorem extraction_exact:
  assumes "unpack sha gunzip tar archive t = Inr d"
  shows "distinct (map fst d) \<and> fst ` set d = tf_path ` set (tr_files t) \<and>
    (\<forall>(p, e) \<in> set d. ''..'' \<notin> set (path_parts p) \<and> \<not> has_prefix ''/'' p \<and>
       (\<exists>f \<in> set (tr_files t). tf_path f = p \<and> (\<exists>b. e = Regular b \<and> sha b = tf_sha256 f)))"
  by (rule unpack_exact [OF assms])

theorem extraction_exact_witness:
  "''..'' \<notin> set (path_parts ''a.txt'')"
proof -
  have "unpack tail_sha (re_gunzip sample_receiving) (re_tar sample_receiving) ''tarts'' sent_transfer = Inr [(''a.txt'', Regular ''hi'')]"
    by code_simp
  from extraction_exact [OF this] show ?thesis by simp
qed

text \<open>Claim C26. Received objects are exact and permanent: in every history of receptions, of any sources with
any inventories and whatever the promotion verifier says, the stored objects only gain members,
each identity is stored once, and each stored directory is exactly the files of a validated inventory
with their sizes and hashes, without links, and passed the verifier.\<close>

theorem received_objects_exact:
  assumes "(receives sha verify)\<^sup>*\<^sup>* S S'" and "objects_exact sha verify S"
  shows "objects_exact sha verify S' \<and> (\<exists>xs. rv_objects S' = rv_objects S @ xs)"
  by (rule receives_history [OF assms])

definition sent_tree :: tree where "sent_tree = [(''a.txt'', Regular ''hi'')]"
definition no_objects :: receiver where "no_objects = \<lparr>rv_objects = [], rv_quarantine = []\<rparr>"

theorem received_objects_exact_witness:
  "objects_exact tail_sha (\<lambda>d t. Inr ()) (fst (receive tail_sha (\<lambda>d t. Inr ()) ''q'' (Some sent_tree) (Held sent_transfer) no_objects)) \<and>
   rv_objects (fst (receive tail_sha (\<lambda>d t. Inr ()) ''q'' (Some sent_tree) (Held sent_transfer) no_objects)) =
     [(replicate 64 CHR ''c'', sent_tree)]"
proof
  let ?run = "receive tail_sha (\<lambda>d t. Inr ()) ''q'' (Some sent_tree) (Held sent_transfer) no_objects"
  have "receives tail_sha (\<lambda>d t. Inr ()) no_objects (fst ?run)" by (rule receives.received) (rule surjective_pairing)
  moreover have "objects_exact tail_sha (\<lambda>d t. Inr ()) no_objects" by (simp add: objects_exact_def no_objects_def)
  ultimately show "objects_exact tail_sha (\<lambda>d t. Inr ()) (fst ?run)"
    using received_objects_exact [of tail_sha "\<lambda>d t. Inr ()" no_objects "fst ?run"] by blast
  show "rv_objects (fst ?run) = [(replicate 64 CHR ''c'', sent_tree)]" by code_simp
qed

end
