(* ===== verification/SharingClaims.thy ===== *)
theory SharingClaims
  imports ServiceClaims Sharing
begin

text \<open>
  The property of the sharing table: an automatic association adds an approval only for an undecided
  upload of an active enrolled owner, so an owner's withdrawal stands against any later associations.
\<close>

section \<open>What an association writes\<close>

lemma association_cases:
  assumes "associate_verified_collection L repr clock i bundle s = Inr (s', reply)"
  obtains (kept) "s' = s"
  | (added) row receipt campaign e a d r where "find (\<lambda>u. u_id u = i) (uploads s) = Some row" "verified_receipt row = Some receipt"
      "bundle_matches row receipt bundle" "approval_of s i = None" "campaign_enrollment (vb_campaign_id bundle) = Some campaign"
      "enrollment_found s campaign = Some (e, a, d)" "enrolled_owner s row e d" "shared s' = shared s @ [r]"
      "sh_upload r = i" "sh_approved r" "uploads s' = uploads s" "vb_current bundle"
proof (cases "vb_current bundle")
  case False
  with assms show thesis by (intro kept) (auto simp: associate_verified_collection_def and_then_eq_Inr)
next
  case True
  from assms obtain checked where rest: "(case campaign_enrollment (vb_campaign_id bundle) of
      None \<Rightarrow> Inr (s, not_granted ''no_enrollment_identity'')
    | Some campaign \<Rightarrow>
        (case find (\<lambda>u. u_id u = i) (uploads s) of
           None \<Rightarrow> Inl (BoundaryError ''sharing'' ''collection_not_verified'')
         | Some row \<Rightarrow>
             (case verified_receipt row of
                None \<Rightarrow> Inl (BoundaryError ''sharing'' ''collection_not_verified'')
              | Some receipt \<Rightarrow>
                  if \<not> bundle_matches row receipt bundle
                  then Inl (BoundaryError ''sharing'' ''verified_bundle_identity_mismatch'')
                  else
                    (case approval_of s i of
                       Some ok \<Rightarrow>
                         Inr (s, [(''availability'', JStr (if ok then ''available'' else ''not_granted'')),
                                  (''reason'', JStr ''existing_owner_decision_preserved'')])
                     | None \<Rightarrow>
                         (case enrollment_found s campaign of
                            None \<Rightarrow> Inr (s, not_granted ''enrollment_not_found'')
                          | Some (e, a, d) \<Rightarrow>
                              if \<not> enrolled_owner s row e d
                              then Inl (BoundaryError ''sharing'' ''active_enrolled_device_owner_required'')
                              else associate_enrolled L repr clock row receipt bundle e a s))))) = Inr (s', reply)"
    using True by (auto simp: associate_verified_collection_def and_then_eq_Inr)
  show thesis
  proof (cases "s' = s")
    case False
    with rest obtain campaign row receipt e a d where
      facts: "campaign_enrollment (vb_campaign_id bundle) = Some campaign" "find (\<lambda>u. u_id u = i) (uploads s) = Some row"
      "verified_receipt row = Some receipt" "bundle_matches row receipt bundle" "approval_of s i = None"
      "enrollment_found s campaign = Some (e, a, d)" "enrolled_owner s row e d"
      and run: "associate_enrolled L repr clock row receipt bundle e a s = Inr (s', reply)"
      by (auto split: option.splits if_splits)
    from run obtain r where "shared s' = shared s @ [r]" "sh_upload r = u_id row" "sh_approved r" "uploads s' = uploads s"
      by (auto simp: associate_enrolled_def and_then_eq_Inr Let_def)
    moreover have "u_id row = i" using find_key_Some [OF facts(2)] by blast
    ultimately show thesis using facts True by (intro added) simp_all
  qed (rule kept)
qed

text \<open>The rows the enrollment query joins are rows of the tables, joined on their keys.\<close>

lemma enrollment_found_rows:
  assumes "enrollment_found s i = Some (e, a, d)"
  shows "e \<in> set (enrollments s)" "en_id e = i" "a \<in> set (activities s)" "ac_id a = en_template_id e"
    "d \<in> set (devices s)" "d_id d = en_device_id e"
proof -
  from assms have "find (\<lambda>e. en_id e = i) (enrollments s) = Some e" "find (\<lambda>a. ac_id a = en_template_id e) (activities s) = Some a"
    "find (\<lambda>d. d_id d = en_device_id e) (devices s) = Some d"
    by (auto simp: enrollment_found_def split: option.splits)
  from this [THEN find_key_Some] show "e \<in> set (enrollments s)" "en_id e = i" "a \<in> set (activities s)"
    "ac_id a = en_template_id e" "d \<in> set (devices s)" "d_id d = en_device_id e" by simp_all
qed

lemma active_subject_member:
  assumes "active_subject s subject"
  shows "\<exists>m \<in> set (members s). m_subject m = Some subject \<and> m_status m = Active"
proof -
  from assms obtain m where m: "find (\<lambda>m. m_subject m = Some subject) (members s) = Some m" "m_status m = Active"
    by (auto simp: active_subject_def split: option.splits)
  from find_key_Some [OF m(1)] m(2) show ?thesis by blast
qed

definition associates :: "stdlib \<Rightarrow> (real \<Rightarrow> string) \<Rightarrow> ops \<Rightarrow> ops \<Rightarrow> bool" where
  "associates L repr s s' \<longleftrightarrow> (\<exists>clock i bundle reply. associate_verified_collection L repr clock i bundle s = Inr (s', reply))"

lemma associates_decided:
  assumes "associates L repr s s'" and "approval_of s k = Some ok"
  shows "approval_of s' k = Some ok"
proof -
  from assms(1) obtain clock i v reply where "associate_verified_collection L repr clock i v s = Inr (s', reply)"
    by (auto simp: associates_def)
  then show ?thesis
  proof (cases rule: association_cases)
    case (added row receipt campaign e a d r)
    have "find P (xs @ [x]) = Some y" if "find P xs = Some y" for P :: "sharing \<Rightarrow> bool" and xs x y
      using that by (induction xs) auto
    with added(8) assms(2) show ?thesis by (auto simp: approval_of_def sharing_row_def)
  qed (simp add: assms(2))
qed

lemma associations_decided:
  "(associates L repr)\<^sup>*\<^sup>* s s' \<Longrightarrow> approval_of s k = Some ok \<Longrightarrow> approval_of s' k = Some ok"
  by (induction rule: rtranclp_induct) (auto intro: associates_decided)

lemma upsert_approval: "approval_of (upsert_sharing r s) (sh_upload r) = Some (sh_approved r)"
proof (cases "sharing_row s (sh_upload r)")
  case None
  have "find P (xs @ [x]) = Some x" if "find P xs = None" "P x" for P :: "sharing \<Rightarrow> bool" and xs x
    using that by (induction xs) (auto split: if_splits)
  with None show ?thesis by (simp add: approval_of_def upsert_sharing_def sharing_row_def)
next
  case (Some q)
  have "find P (update_where P (\<lambda>q. x) xs) = Some x" if "find P xs = Some q" "P x" for P :: "sharing \<Rightarrow> bool" and xs x
    using that by (induction xs) (auto split: if_splits)
  with Some show ?thesis by (simp add: approval_of_def upsert_sharing_def sharing_row_def)
qed

lemma withdrawal_stored:
  assumes "set_collection_access clock upload (JBool ok) evidence actor s = Inr (s', u)"
  obtains i where "sharing_upload_id upload = Inr i" "approval_of s' i = Some ok"
proof -
  from assms obtain i ref where i: "sharing_upload_id upload = Inr i"
    and rest: "(case sharing_row s i of None \<Rightarrow> False | Some r \<Rightarrow> sh_approved r = ok \<and> sh_evidence r = ref) \<and> s' = s \<or>
      s' = record_event clock actor ''collection_sharing_changed'' i (JObj [(''approved'', JBool ok), (''evidence_ref'', JStr ref)])
        (upsert_sharing \<lparr>sh_upload = i, sh_approved = ok, sh_evidence = ref, sh_changed_at = clock\<rparr> s)"
    by (auto simp: set_collection_access_def and_then_eq_Inr split: if_splits)
  have "approval_of s' i = Some ok"
    using rest upsert_approval [of "\<lparr>sh_upload = i, sh_approved = ok, sh_evidence = ref, sh_changed_at = clock\<rparr>" s]
    by (auto simp: approval_of_def sharing_row_def split: option.splits)
  with i show thesis by (rule that)
qed

section \<open>An enrolled upload\<close>

definition sharing_enrollment :: enrollment where
  "sharing_enrollment = \<lparr>en_id = replicate 32 CHR ''a'', en_template_id = sample_sha (json_bytes (JObj sample_template)),
     en_device_id = ''d1'', en_subject = ''s2'', en_consent = JObj (map (\<lambda>key. (key, JBool True)) consent_fields), en_created_at = 5\<rparr>"

definition sharing_upload :: upload where
  "sharing_upload = \<lparr>u_id = replicate 32 CHR ''b'', u_device = ''d1'', u_content_id = ''c'', u_manifest_sha = ''m'',
     u_intent = JObj [], u_status = Verified,
     u_receipt = Some (JObj [(''content_id'', JStr ''c''), (''evidence_id'', JStr sample_input), (''status'', JStr ''verified'')]),
     u_verify_attempts = 0, u_retry_at = 0, u_last_error = None\<rparr>"

definition sharing_bundle :: verified_bundle where
  "sharing_bundle = \<lparr>vb_current = True, vb_content_id = ''c'', vb_sha256 = sample_input,
     vb_campaign_id = campaign_prefix @ replicate 32 CHR ''a'', vb_worker_id = ''d1''\<rparr>"

definition sharing_project :: ops where
  "sharing_project = sample_project\<lparr>
     activities := [sample_activity\<lparr>ac_id := en_template_id sharing_enrollment\<rparr>],
     enrollments := [sharing_enrollment], uploads := [sharing_upload]\<rparr>"

abbreviation association :: "(ops, (string \<times> json) list) tx" where
  "association \<equiv> associate_verified_collection sample_lib (\<lambda>t. ''5.0'') 6 (replicate 32 CHR ''b'') sharing_bundle"

abbreviation withdrawal :: "(ops, unit) tx" where
  "withdrawal \<equiv> set_collection_access 7 (JStr (replicate 32 CHR ''b'')) (JBool False) (JStr sample_input) ''s2''"

lemma association_ran: "map_sum (\<lambda>e. ()) (\<lambda>p. map sh_approved (shared (fst p))) (association sharing_project) = Inr [True]"
  by code_simp

lemma withdrawal_ran: "map_sum (\<lambda>e. ()) (\<lambda>p. map sh_approved (shared (fst p))) (withdrawal sharing_project) = Inr [False]"
  by code_simp

section \<open>The properties\<close>

text \<open>A withdrawal stands: once the owner set an upload to not approved, then after any automatic
associations, of any bundles at any times, no member can read the collection and its availability is
not granted.\<close>

theorem withdrawal_stands:
  assumes "set_collection_access clock upload (JBool False) evidence actor s = Inr (s1, u)"
    and "(associates L repr)\<^sup>*\<^sup>* s1 s2"
  shows "(\<forall>m. collection fetch upload s2 \<noteq> Inr m) \<and>
    (\<forall>views. collection_access [upload] s2 = Inr views \<longrightarrow> map snd views = [''not_granted''])"
proof -
  from withdrawal_stored [OF assms(1)] obtain i where i: "sharing_upload_id upload = Inr i" "approval_of s1 i = Some False" .
  from associations_decided [OF assms(2) i(2)] have "approval_of s2 i = Some False" .
  with i(1) show ?thesis
    by (auto simp: collection_def collection_access_def availability_def and_then_eq_Inr split: option.splits)
qed

theorem withdrawal_stands_witness:
  "\<exists>s1. withdrawal sharing_project = Inr (s1, ()) \<and> (\<forall>m. collection (\<lambda>i. Inl KeyError) (JStr (replicate 32 CHR ''b'')) s1 \<noteq> Inr m)"
proof -
  obtain s1 u where ran: "withdrawal sharing_project = Inr (s1, u)"
    by (rule returned_view [where t = withdrawal and s = sharing_project, OF withdrawal_ran])
  with withdrawal_stands [OF ran rtranclp.rtrancl_refl] show ?thesis by (intro exI [of _ s1]) auto
qed

text \<open>Claim C30. An association grants nothing by itself: when it changes the sharing table it appends one
approval, for an upload nobody has decided on. That upload is stored as verified with the bundle's content
and with the bundle's worker as its device; the bundle's campaign names a stored enrollment of an existing
activity; and the stored device of that enrollment is the upload's own, is active, and belongs to the
enrolled subject, an active member.\<close>

theorem association_needs_owner:
  assumes "associate_verified_collection L repr clock i bundle s = Inr (s', reply)" and "shared s' \<noteq> shared s"
  shows "\<exists>row \<in> set (uploads s). \<exists>e \<in> set (enrollments s). \<exists>d \<in> set (devices s). \<exists>a \<in> set (activities s). \<exists>r.
    u_id row = i \<and> u_status row = Verified \<and> u_content_id row = vb_content_id bundle \<and> u_device row = vb_worker_id bundle \<and>
    vb_current bundle \<and> campaign_enrollment (vb_campaign_id bundle) = Some (en_id e) \<and> ac_id a = en_template_id e \<and>
    d_id d = en_device_id e \<and> d_id d = u_device row \<and> d_owner d = Some (en_subject e) \<and> d_active d \<and>
    (\<exists>m \<in> set (members s). m_subject m = Some (en_subject e) \<and> m_status m = Active) \<and>
    approval_of s i = None \<and> shared s' = shared s @ [r] \<and> sh_upload r = i \<and> sh_approved r"
  using assms(1)
proof (cases rule: association_cases)
  case (added row receipt campaign e a d r)
  have ids: "row \<in> set (uploads s)" "u_id row = i" using find_key_Some [OF added(1)] by simp_all
  have verified: "u_status row = Verified" using added(2) by (simp add: verified_receipt_def split: if_splits)
  have content: "u_content_id row = vb_content_id bundle" "u_device row = vb_worker_id bundle"
    using added(3) by (simp_all add: bundle_matches_def)
  note joined = enrollment_found_rows [OF added(6)]
  have campaign: "campaign_enrollment (vb_campaign_id bundle) = Some (en_id e)" using added(5) joined(2) by simp
  have owner: "d_id d = u_device row" "d_owner d = Some (en_subject e)" "d_active d"
    "\<exists>m \<in> set (members s). m_subject m = Some (en_subject e) \<and> m_status m = Active"
    using added(7) joined(6) active_subject_member unfolding enrolled_owner_def by auto
  show ?thesis
    by (rule bexI [OF _ ids(1)], rule bexI [OF _ joined(1)], rule bexI [OF _ joined(5)], rule bexI [OF _ joined(3)],
        rule exI [of _ r], intro conjI) (fact ids verified content campaign joined owner added)+
qed (use assms(2) in simp)

theorem association_needs_owner_witness:
  "\<exists>s' reply. association sharing_project = Inr (s', reply) \<and> map sh_upload (shared s') = [replicate 32 CHR ''b''] \<and>
     (\<exists>d \<in> set (devices sharing_project). d_active d \<and> d_owner d = Some ''s2'')"
proof -
  obtain s' reply where ran: "association sharing_project = Inr (s', reply)" and one: "map sh_approved (shared s') = [True]"
    using returned_view [where t = association and s = sharing_project, OF association_ran] by blast
  have none: "shared sharing_project = []" by (simp add: sharing_project_def sample_project_def new_operations_def)
  have "shared s' \<noteq> shared sharing_project" using one none by auto
  from association_needs_owner [OF ran this] obtain e d r where e: "e \<in> set (enrollments sharing_project)"
    and d: "d \<in> set (devices sharing_project)" "d_owner d = Some (en_subject e)" "d_active d"
    and r: "shared s' = shared sharing_project @ [r]" "sh_upload r = replicate 32 CHR ''b''" by blast
  from e have "en_subject e = ''s2''" by (simp add: sharing_project_def sharing_enrollment_def)
  with none r d ran show ?thesis by auto
qed

end
