(* ===== verification/Splits.thy ===== *)
theory Splits
  imports Manifests Boundary "HOL-Library.AList"
begin

text \<open>
  \<open>split\_run\_fingerprints\<close> of python/stpd/fullrun/data.py: runs that share a semantic decision are
  joined by a union-find forest over the run names, and whole components are assigned to the test, dev
  and train partitions. The dict \<open>parent\<close> is an association list; None is the loop of \<open>root\<close> that never
  ends or a missing key, and is shown not to happen.
\<close>

section \<open>The forest\<close>

type_synonym forest = "(string \<times> string) list"

text \<open>\<open>root\<close> with its path halving: the forest it leaves and the root.\<close>

partial_function (option) find_root :: "forest \<Rightarrow> string \<Rightarrow> (forest \<times> string) option" where
  "find_root p v =
     (case map_of p v of
        None \<Rightarrow> None
      | Some u \<Rightarrow>
          if u = v then Some (p, v)
          else (case map_of p u of None \<Rightarrow> None | Some w \<Rightarrow> find_root (AList.update v w p) w))"

declare find_root.simps [code]

definition join_roots :: "string \<Rightarrow> string \<Rightarrow> forest \<Rightarrow> forest" where
  "join_roots left right p = (if left \<noteq> right then AList.update (max left right) (min left right) p else p)"

text \<open>One row; \<open>first\<close> is the first run seen with each fingerprint.\<close>

definition split_row :: "string \<times> string \<Rightarrow> forest \<times> (string \<times> string) list \<Rightarrow> (forest \<times> (string \<times> string) list) option" where
  "split_row row st =
     (let (run, fingerprint) = row; (p, firsts) = st;
          p0 = (if map_of p run = None then p @ [(run, run)] else p);
          firsts' = (if map_of firsts fingerprint = None then firsts @ [(fingerprint, run)] else firsts)
      in
        (case find_root p0 (the (map_of firsts' fingerprint)) of
           None \<Rightarrow> None
         | Some (p1, left) \<Rightarrow>
             (case find_root p1 run of
                None \<Rightarrow> None
              | Some (p2, right) \<Rightarrow> Some (join_roots left right p2, firsts'))))"

fun split_rows :: "(string \<times> string) list \<Rightarrow> forest \<times> (string \<times> string) list \<Rightarrow> (forest \<times> (string \<times> string) list) option" where
  "split_rows [] st = Some st"
| "split_rows (row # rows) st = (case split_row row st of None \<Rightarrow> None | Some st' \<Rightarrow> split_rows rows st')"

section \<open>Components and partitions\<close>

definition add_member :: "string \<Rightarrow> string \<Rightarrow> (string \<times> string list) list \<Rightarrow> (string \<times> string list) list" where
  "add_member r run groups =
     (if map_of groups r = None then groups @ [(r, [run])]
      else map (\<lambda>(k, g). (k, if k = r then g @ [run] else g)) groups)"

fun group_runs :: "string list \<Rightarrow> forest \<Rightarrow> (string \<times> string list) list \<Rightarrow> (string \<times> string list) list option" where
  "group_runs [] p groups = Some groups"
| "group_runs (run # runs) p groups =
     (case find_root p run of
        None \<Rightarrow> None
      | Some (p', r) \<Rightarrow> group_runs runs p' (add_member r run groups))"

definition component_key :: "hash \<Rightarrow> int \<Rightarrow> string list \<Rightarrow> string" where
  "component_key sha seed members = sha (canonical_text (JList [JInt seed, JList (map JStr members)]))"

definition run_components :: "hash \<Rightarrow> int \<Rightarrow> (string \<times> string) list \<Rightarrow> string list list option" where
  "run_components sha seed rows =
     (case split_rows rows ([], []) of
        None \<Rightarrow> None
      | Some (p, firsts) \<Rightarrow>
          (case group_runs (sort (map fst p)) p [] of
             None \<Rightarrow> None
           | Some groups \<Rightarrow> Some (sort_key (component_key sha seed) (map snd groups))))"

definition partition_of :: "nat \<Rightarrow> nat \<Rightarrow> string" where
  "partition_of n index =
     (let held = max 1 (n div 10) in
      if index < held then ''test'' else if index < held + held then ''dev'' else ''train'')"

definition assign_partitions :: "string list list \<Rightarrow> (string \<times> string) list" where
  "assign_partitions cs =
     concat (map (\<lambda>(index, c). map (\<lambda>run. (run, partition_of (length cs) index)) c) (enumerate 0 cs))"

definition split_run_fingerprints :: "hash \<Rightarrow> json \<Rightarrow> (string \<times> string) list \<Rightarrow> json result option" where
  "split_run_fingerprints sha seed rows =
     (case unsigned seed ''split.seed'' of
        Inl e \<Rightarrow> Some (Inl e)
      | Inr n \<Rightarrow>
          (case run_components sha n rows of
             None \<Rightarrow> None
           | Some cs \<Rightarrow>
               Some (if length cs < 3 then Inl (BoundaryError ''split'' ''insufficient_independent_run_components'')
                     else freeze (map (\<lambda>(run, part). (run, JStr part)) (assign_partitions cs)))))"

section \<open>The roots of a forest\<close>

inductive rooted :: "forest \<Rightarrow> string \<Rightarrow> string \<Rightarrow> bool" for p where
  here: "map_of p x = Some x \<Longrightarrow> rooted p x x"
| up: "map_of p x = Some y \<Longrightarrow> y \<noteq> x \<Longrightarrow> rooted p y r \<Longrightarrow> rooted p x r"

inductive_cases rootedE: "rooted p x r"

lemma rooted_unique: "rooted p x r \<Longrightarrow> rooted p x q \<Longrightarrow> r = q"
proof (induction arbitrary: q rule: rooted.induct)
  case (here x)
  then show ?case by (auto elim: rootedE)
next
  case (up x y r)
  from up.prems up.hyps(1,2) have "rooted p y q" by (auto elim: rootedE)
  with up.IH show ?case by blast
qed

lemma rooted_root: "rooted p x r \<Longrightarrow> map_of p r = Some r \<and> x \<in> dom (map_of p)"
  by (induction rule: rooted.induct) auto

text \<open>Parents are runs of the forest and never greater: the loop climbs down the order of names.\<close>

definition forest_ok :: "forest \<Rightarrow> bool" where
  "forest_ok p \<longleftrightarrow> distinct (map fst p) \<and> (\<forall>x y. map_of p x = Some y \<longrightarrow> y \<le> x \<and> y \<in> dom (map_of p))"

lemma forest_below: "forest_ok p \<Longrightarrow> map_of p x = Some y \<Longrightarrow> y \<le> x \<and> (\<exists>z. map_of p y = Some z \<and> z \<le> y)"
  unfolding forest_ok_def by blast

definition below :: "forest \<Rightarrow> string \<Rightarrow> nat" where
  "below p v = card {x \<in> dom (map_of p). x < v}"

lemma below_less:
  assumes "w < v" and "w \<in> dom (map_of p)"
  shows "below p w < below p v"
proof -
  have "{x \<in> dom (map_of p). x < w} \<subset> {x \<in> dom (map_of p). x < v}" using assms by auto
  then show ?thesis unfolding below_def by (intro psubset_card_mono) (simp_all add: finite_dom_map_of)
qed

lemma halved:
  assumes ok: "forest_ok p" and v: "map_of p v = Some u" "u \<noteq> v" and u: "map_of p u = Some w"
  shows "forest_ok (AList.update v w p)" and "rooted (AList.update v w p) x r \<longleftrightarrow> rooted p x r"
    and "dom (map_of (AList.update v w p)) = dom (map_of p)" and "w < v"
proof -
  let ?q = "AList.update v w p"
  have q: "map_of ?q = (map_of p)(v \<mapsto> w)" by (simp add: update_conv')
  from forest_below [OF ok v(1)] forest_below [OF ok u] v(2) show less: "w < v" by (auto simp: order.strict_iff_order)
  have w: "w \<in> dom (map_of p)" using ok u unfolding forest_ok_def by blast
  show dom: "dom (map_of ?q) = dom (map_of p)" using v(1) by (auto simp: q)
  have "map_of ?q x = Some y \<Longrightarrow> y \<le> x \<and> y \<in> dom (map_of ?q)" for x y
    using ok w less unfolding dom forest_ok_def by (auto simp: q split: if_splits)
  moreover have "distinct (map fst ?q)" using ok by (simp add: forest_ok_def distinct_update)
  ultimately show "forest_ok ?q" unfolding forest_ok_def by blast
  have forth: "rooted p x r" if "rooted ?q x r" for x
    using that
  proof (induction rule: rooted.induct)
    case (here x)
    with less show ?case by (intro rooted.here) (auto simp: q split: if_splits)
  next
    case (up x y r)
    show ?case
    proof (cases "x = v")
      case True
      with up have y: "y = w" "rooted p w r" by (auto simp: q)
      have "rooted p u r"
      proof (cases "w = u")
        case False
        with u y show ?thesis by (blast intro: rooted.up)
      qed (use y in simp)
      with True v show ?thesis by (blast intro: rooted.up)
    qed (use up in \<open>auto simp: q intro: rooted.up\<close>)
  qed
  have onward: "rooted ?q x r" if "rooted p x r" for x
    using that
  proof (induction rule: rooted.induct)
    case (here x)
    with v show ?case by (intro rooted.here) (auto simp: q)
  next
    case (up x y r)
    show ?case
    proof (cases "x = v")
      case True
      with up v have y: "y = u" "rooted ?q u r" by auto
      have "map_of ?q u = Some w" using u v(2) by (simp add: q)
      with y have "rooted ?q w r" by (cases "w = u") (auto elim: rootedE)
      moreover have "map_of ?q v = Some w" by (simp add: q)
      ultimately show ?thesis using True less by (metis less_irrefl rooted.up)
    qed (use up in \<open>auto simp: q intro: rooted.up\<close>)
  qed
  show "rooted ?q x r \<longleftrightarrow> rooted p x r" using forth onward by blast
qed

lemma find_root_rooted:
  "forest_ok p \<Longrightarrow> v \<in> dom (map_of p) \<Longrightarrow>
   \<exists>q r. find_root p v = Some (q, r) \<and> forest_ok q \<and> dom (map_of q) = dom (map_of p) \<and> rooted p v r \<and>
     (\<forall>x s. rooted q x s \<longleftrightarrow> rooted p x s)"
proof (induction "below p v" arbitrary: p v rule: less_induct)
  case less
  from less.prems obtain u where u: "map_of p v = Some u" by blast
  show ?case
  proof (cases "u = v")
    case True
    with u less.prems show ?thesis by (intro exI [of _ p] exI [of _ v]) (auto simp: find_root.simps [of p v] intro: rooted.here)
  next
    case False
    from forest_below [OF less.prems(1) u] obtain w where w: "map_of p u = Some w" by blast
    let ?q = "AList.update v w p"
    note half = halved [OF less.prems(1) u False w]
    have "w \<in> dom (map_of ?q)" using less.prems(1) w unfolding half(3) forest_ok_def by blast
    moreover have "below ?q w < below p v"
      using below_less [OF half(4), of p] \<open>w \<in> dom (map_of ?q)\<close> unfolding below_def half(3) by simp
    ultimately obtain q r where q: "find_root ?q w = Some (q, r)" "forest_ok q" "dom (map_of q) = dom (map_of p)" "rooted ?q w r"
      "\<forall>x s. rooted q x s \<longleftrightarrow> rooted ?q x s"
      using less.hyps [of ?q w] half(1,3) by auto
    have step: "find_root p v = Some (q, r)" using u w False q(1) by (simp add: find_root.simps [of p v])
    have "map_of ?q v = Some w" by (simp add: update_conv')
    with half(4) q(4) have "rooted ?q v r" by (intro rooted.up [of _ v w]) auto
    then have "rooted p v r" using half(2) by blast
    moreover have "\<forall>x s. rooted q x s \<longleftrightarrow> rooted p x s" using q(5) half(2) by simp
    ultimately show ?thesis using step q(2,3) by (intro exI conjI)
  qed
qed


text \<open>Linking two roots: the greater root becomes a child of the lesser.\<close>

lemma joined_rooted:
  assumes m: "map_of p m = Some m" and n: "map_of p n = Some n" and less: "n < m"
  shows "rooted (AList.update m n p) x s \<longleftrightarrow> (\<exists>t. rooted p x t \<and> s = (if t = m then n else t))"
proof -
  let ?q = "AList.update m n p"
  have q: "map_of ?q = (map_of p)(m \<mapsto> n)" by (simp add: update_conv')
  have at_n: "rooted ?q n n" using n less by (intro rooted.here) (auto simp: q)
  have forth: "\<exists>t. rooted p x t \<and> s = (if t = m then n else t)" if "rooted ?q x s" for x
    using that
  proof (induction rule: rooted.induct)
    case (here x)
    with less have "x \<noteq> m" "map_of p x = Some x" by (auto simp: q split: if_splits)
    then show ?case by (auto intro: rooted.here)
  next
    case (up x y s)
    show ?case
    proof (cases "x = m")
      case True
      with up have "rooted ?q n s" by (auto simp: q)
      with at_n have "s = n" by (blast dest: rooted_unique)
      with True m show ?thesis by (auto intro: rooted.here)
    qed (use up in \<open>auto simp: q intro: rooted.up\<close>)
  qed
  have onward: "rooted ?q x (if t = m then n else t)" if "rooted p x t" for x t
    using that
  proof (induction rule: rooted.induct)
    case (here x)
    show ?case
    proof (cases "x = m")
      case True
      with less at_n show ?thesis by (auto simp: q intro!: rooted.up [of _ m n])
    qed (use here in \<open>auto simp: q intro: rooted.here\<close>)
  next
    case (up x y t)
    with m have "x \<noteq> m" by auto
    with up show ?case by (auto simp: q intro: rooted.up)
  qed
  from forth onward show ?thesis by blast
qed

definition same :: "forest \<Rightarrow> string \<Rightarrow> string \<Rightarrow> bool" where
  "same p x y \<longleftrightarrow> (\<exists>r. rooted p x r \<and> rooted p y r)"

lemma same_sym: "same p x y \<Longrightarrow> same p y x" by (auto simp: same_def)

lemma same_trans: "same p x y \<Longrightarrow> same p y z \<Longrightarrow> same p x z"
  unfolding same_def by (blast dest: rooted_unique)

lemma rooted_total: "forest_ok p \<Longrightarrow> x \<in> dom (map_of p) \<Longrightarrow> \<exists>r. rooted p x r"
  using find_root_rooted by blast

lemma same_refl: "forest_ok p \<Longrightarrow> x \<in> dom (map_of p) \<Longrightarrow> same p x x"
  unfolding same_def using rooted_total by blast

lemma join_roots_same:
  assumes ok: "forest_ok p" and l: "rooted p a l" and r: "rooted p b r"
  shows "forest_ok (join_roots l r p)" and "dom (map_of (join_roots l r p)) = dom (map_of p)"
    and "same (join_roots l r p) x y \<longleftrightarrow> same p x y \<or> (same p x a \<and> same p y b) \<or> (same p x b \<and> same p y a)"
proof -
  from rooted_root [OF l] rooted_root [OF r] have roots: "map_of p l = Some l" "map_of p r = Some r" by auto
  show dom: "dom (map_of (join_roots l r p)) = dom (map_of p)"
    using roots by (auto simp: join_roots_def update_conv' max_def)
  have "map_of (join_roots l r p) x = Some y \<Longrightarrow> y \<le> x \<and> y \<in> dom (map_of p)" for x y
    using ok roots unfolding forest_ok_def
    by (auto simp: join_roots_def update_conv' max_def min_def split: if_splits)
  moreover have "distinct (map fst (join_roots l r p))"
    using ok by (auto simp: forest_ok_def join_roots_def distinct_update)
  ultimately show "forest_ok (join_roots l r p)" unfolding forest_ok_def dom by blast
  have to_root: "same p z a \<longleftrightarrow> rooted p z l" "same p z b \<longleftrightarrow> rooted p z r" for z
    using l r unfolding same_def by (blast dest: rooted_unique)+
  show "same (join_roots l r p) x y \<longleftrightarrow> same p x y \<or> (same p x a \<and> same p y b) \<or> (same p x b \<and> same p y a)"
  proof (cases "l = r")
    case True
    then show ?thesis unfolding to_root by (auto simp: join_roots_def same_def)
  next
    case False
    then have "min l r < max l r" by (auto simp: min_def max_def)
    moreover have "map_of p (max l r) = Some (max l r)" "map_of p (min l r) = Some (min l r)"
      using roots by (auto simp: max_def min_def)
    ultimately have "rooted (join_roots l r p) z s \<longleftrightarrow> (\<exists>t. rooted p z t \<and> s = (if t = max l r then min l r else t))" for z s
      using joined_rooted False unfolding join_roots_def by simp
    then have "same (join_roots l r p) x y \<longleftrightarrow>
        (\<exists>t u. rooted p x t \<and> rooted p y u \<and> (if t = max l r then min l r else t) = (if u = max l r then min l r else u))"
      unfolding same_def by auto
    moreover have "(if t = max l r then min l r else t) = (if u = max l r then min l r else u) \<longleftrightarrow>
        t = u \<or> (t = l \<and> u = r) \<or> (t = r \<and> u = l)" for t u
      by (simp add: max_def min_def) blast
    ultimately have "same (join_roots l r p) x y \<longleftrightarrow>
        (\<exists>t u. rooted p x t \<and> rooted p y u \<and> (t = u \<or> (t = l \<and> u = r) \<or> (t = r \<and> u = l)))"
      by (simp only:)
    then show ?thesis unfolding to_root by (simp only: same_def) blast
  qed
qed


section \<open>The rows\<close>

text \<open>Two runs are linked when one fingerprint occurs in both.\<close>

definition linked :: "(string \<times> string) list \<Rightarrow> (string \<times> string) set" where
  "linked rows = {(a, b). \<exists>f. (a, f) \<in> set rows \<and> (b, f) \<in> set rows}"

lemma linked_sym: "(a, b) \<in> (linked rows)\<^sup>+ \<Longrightarrow> (b, a) \<in> (linked rows)\<^sup>+"
proof -
  have "sym (linked rows)" by (auto simp: linked_def sym_def)
  then show "(a, b) \<in> (linked rows)\<^sup>+ \<Longrightarrow> (b, a) \<in> (linked rows)\<^sup>+" using sym_trancl by (blast dest: symD)
qed

lemma linked_mono: "(a, b) \<in> (linked rows)\<^sup>+ \<Longrightarrow> (a, b) \<in> (linked (rows @ more_rows))\<^sup>+"
  by (erule trancl_mono) (auto simp: linked_def)

definition rows_inv :: "(string \<times> string) list \<Rightarrow> forest \<times> (string \<times> string) list \<Rightarrow> bool" where
  "rows_inv rows st \<longleftrightarrow>
     forest_ok (fst st) \<and> dom (map_of (fst st)) = fst ` set rows \<and>
     (\<forall>f r. map_of (snd st) f = Some r \<longrightarrow> (r, f) \<in> set rows) \<and>
     (\<forall>r f. (r, f) \<in> set rows \<longrightarrow> f \<in> dom (map_of (snd st))) \<and>
     (\<forall>x y. (x, y) \<in> linked rows \<longrightarrow> same (fst st) x y) \<and>
     (\<forall>x y. same (fst st) x y \<longrightarrow> (x, y) \<in> (linked rows)\<^sup>+)"

text \<open>\<open>setdefault\<close> of a run makes it a tree of its own.\<close>

lemma planted:
  assumes "forest_ok p" and "q = (if map_of p run = None then p @ [(run, run)] else p)"
  shows "forest_ok q" and "dom (map_of q) = insert run (dom (map_of p))"
    and "same q x y \<longleftrightarrow> same p x y \<or> (x = run \<and> y = run)"
proof -
  have q: "map_of q = (if map_of p run = None then (map_of p)(run \<mapsto> run) else map_of p)"
    using assms(2) by (auto simp: map_add_def split: option.splits)
  show dom: "dom (map_of q) = insert run (dom (map_of p))" by (auto simp: q)
  have "distinct (map fst q)"
    using assms by (auto simp: forest_ok_def map_of_eq_None_iff)
  moreover have "map_of q a = Some b \<Longrightarrow> b \<le> a \<and> b \<in> dom (map_of q)" for a b
    using assms(1) unfolding dom forest_ok_def by (auto simp: q split: if_splits)
  ultimately show ok: "forest_ok q" unfolding forest_ok_def by blast
  have grown: "rooted q a r" if "rooted p a r" for a r
    using that
  proof (induction rule: rooted.induct)
    case (here x)
    then show ?case by (auto simp: q intro: rooted.here)
  next
    case (up x y r)
    then have "map_of q x = Some y" by (auto simp: q)
    with up show ?case by (blast intro: rooted.up)
  qed
  have "rooted p a r \<or> (a = run \<and> r = run \<and> map_of p run = None)" if "rooted q a r" for a r
    using that
  proof (induction rule: rooted.induct)
    case (here x)
    then show ?case by (auto simp: q intro: rooted.here split: if_splits)
  next
    case (up x y r)
    then have e: "map_of p x = Some y" by (auto simp: q split: if_splits)
    then have "y \<in> dom (map_of p)" using assms(1) unfolding forest_ok_def by blast
    with up.IH have "rooted p y r" by auto
    with e up.hyps(2) show ?case by (blast intro: rooted.up)
  qed
  moreover have "same q run run" using same_refl [OF ok] dom by blast
  ultimately show "same q x y \<longleftrightarrow> same p x y \<or> (x = run \<and> y = run)"
    using grown rooted_root unfolding same_def by (metis domIff)
qed

lemma split_row_inv:
  assumes inv: "rows_inv rows st"
  shows "\<exists>st'. split_row (run, f) st = Some st' \<and> rows_inv (rows @ [(run, f)]) st'"
proof -
  obtain p firsts where st: "st = (p, firsts)" by (cases st)
  let ?rows = "rows @ [(run, f)]"
  define p0 where "p0 = (if map_of p run = None then p @ [(run, run)] else p)"
  define fs where "fs = (if map_of firsts f = None then firsts @ [(f, run)] else firsts)"
  have p: "forest_ok p" "dom (map_of p) = fst ` set rows" and firsts: "\<And>g r. map_of firsts g = Some r \<Longrightarrow> (r, g) \<in> set rows"
    "\<And>r g. (r, g) \<in> set rows \<Longrightarrow> g \<in> dom (map_of firsts)"
    and joined: "\<And>x y. (x, y) \<in> linked rows \<Longrightarrow> same p x y" and apart: "\<And>x y. same p x y \<Longrightarrow> (x, y) \<in> (linked rows)\<^sup>+"
    using inv unfolding rows_inv_def st by auto
  note p0 = planted [OF p(1) p0_def]
  have fs: "map_of fs = (if map_of firsts f = None then (map_of firsts)(f \<mapsto> run) else map_of firsts)"
    unfolding fs_def by (auto simp: map_add_def split: option.splits)
  then obtain r0 where r0: "map_of fs f = Some r0" by (auto split: if_splits)
  then have r0_in: "(r0, f) \<in> set ?rows" "r0 = run \<or> (r0, f) \<in> set rows" using firsts(1) by (auto simp: fs split: if_splits)
  then have "r0 \<in> dom (map_of p0)" unfolding p0(2) p(2) by force
  then obtain p1 l where p1: "find_root p0 r0 = Some (p1, l)" "forest_ok p1" "dom (map_of p1) = dom (map_of p0)" "rooted p0 r0 l"
    "\<And>x s. rooted p1 x s \<longleftrightarrow> rooted p0 x s"
    using find_root_rooted [OF p0(1)] by metis
  moreover have "run \<in> dom (map_of p1)" using p1(3) p0(2) by simp
  ultimately obtain p2 r where p2: "find_root p1 run = Some (p2, r)" "forest_ok p2" "dom (map_of p2) = dom (map_of p0)" "rooted p1 run r"
    "\<And>x s. rooted p2 x s \<longleftrightarrow> rooted p0 x s"
    using find_root_rooted [OF p1(2)] by metis
  have roots: "rooted p2 r0 l" "rooted p2 run r" using p1(4,5) p2(4,5) by auto
  note j = join_roots_same [OF p2(2) roots]
  have same: "same p2 x y \<longleftrightarrow> same p x y \<or> (x = run \<and> y = run)" for x y
    using p0(3) [of x y] unfolding same_def p2(5) .
  have "split_row (run, f) st = Some (join_roots l r p2, fs)"
    unfolding st split_row_def using r0 p1(1) p2(1) by (simp add: p0_def [symmetric] fs_def [symmetric])
  moreover have "rows_inv ?rows (join_roots l r p2, fs)"
    unfolding rows_inv_def fst_conv snd_conv
  proof (intro conjI allI impI)
    show "forest_ok (join_roots l r p2)" by (rule j(1))
    show "dom (map_of (join_roots l r p2)) = fst ` set ?rows" unfolding j(2) p2(3) p0(2) p(2) by auto
    show "(q, g) \<in> set ?rows" if "map_of fs g = Some q" for g q
      using that firsts(1) by (auto simp: fs split: if_splits)
    show "g \<in> dom (map_of fs)" if "(q, g) \<in> set ?rows" for q g
      using that firsts(2) by (auto simp: fs)
    show "(x, y) \<in> (linked ?rows)\<^sup>+" if "same (join_roots l r p2) x y" for x y
    proof -
      have step: "(x, y) \<in> (linked ?rows)\<^sup>+" if "same p2 x y" for x y
      proof (cases "same p x y")
        case True
        then show ?thesis by (intro linked_mono apart)
      next
        case False
        with that show ?thesis unfolding same by (auto simp: linked_def intro!: r_into_trancl)
      qed
      have link: "(r0, run) \<in> (linked ?rows)\<^sup>+" "(run, r0) \<in> (linked ?rows)\<^sup>+"
        using r0_in(1) by (auto simp: linked_def intro!: r_into_trancl)
      from that j(3) consider "same p2 x y" | "same p2 x r0" "same p2 y run" | "same p2 x run" "same p2 y r0" by blast
      then show ?thesis by cases (use step link linked_sym in \<open>blast intro: trancl_trans\<close>)+
    qed
    show "same (join_roots l r p2) x y" if "(x, y) \<in> linked ?rows" for x y
    proof -
      from that obtain g where g: "(x, g) \<in> set ?rows" "(y, g) \<in> set ?rows" by (auto simp: linked_def)
      have run: "same p2 run run" by (simp add: same)
      have near: "same p2 z r0" if "(z, f) \<in> set rows" for z
      proof -
        from firsts(2) [OF that] have "map_of firsts f = Some r0" using r0 by (auto simp: fs)
        with firsts(1) that have "(z, r0) \<in> linked rows" by (auto simp: linked_def)
        with joined show ?thesis by (simp add: same)
      qed
      from g consider "(x, g) \<in> set rows" "(y, g) \<in> set rows" | "x = run" "y = run"
        | "x = run" "(y, f) \<in> set rows" | "y = run" "(x, f) \<in> set rows" by auto
      then show ?thesis
      proof cases
        case 1
        then have "same p x y" by (intro joined) (auto simp: linked_def)
        then show ?thesis unfolding j(3) same by blast
      qed (use near run j(3) in blast)+
    qed
  qed
  ultimately show ?thesis by blast
qed

lemma split_rows_inv:
  "rows_inv done_rows st \<Longrightarrow> \<exists>st'. split_rows rows st = Some st' \<and> rows_inv (done_rows @ rows) st'"
proof (induction rows arbitrary: done_rows st)
  case (Cons row rows)
  obtain run f where row: "row = (run, f)" by (cases row)
  from split_row_inv [OF Cons.prems] obtain st' where st': "split_row (run, f) st = Some st'" "rows_inv (done_rows @ [(run, f)]) st'" by blast
  from Cons.IH [OF st'(2)] st'(1) show ?case by (simp add: row)
qed simp

lemma split_rows_all:
  "\<exists>p firsts. split_rows rows ([], []) = Some (p, firsts) \<and> forest_ok p \<and> dom (map_of p) = fst ` set rows \<and>
     (\<forall>x y. same p x y \<longleftrightarrow> (x, y) \<in> (linked rows)\<^sup>+)"
proof -
  have "rows_inv [] ([], [])"
    by (auto simp: rows_inv_def forest_ok_def linked_def same_def elim: rootedE)
  then obtain st where st: "split_rows rows ([], []) = Some st" "rows_inv rows st"
    using split_rows_inv [of "[]" "([], [])" rows] by (auto simp del: split_paired_Ex)
  obtain p firsts where e: "st = (p, firsts)" by (cases st)
  have "same p x y" if "(x, y) \<in> (linked rows)\<^sup>+" for x y
    using that by induction (use st(2) same_trans in \<open>auto simp: rows_inv_def e\<close>)
  with st e show ?thesis unfolding rows_inv_def by auto
qed


section \<open>The components\<close>

definition grouped :: "forest \<Rightarrow> string list \<Rightarrow> (string \<times> string list) list \<Rightarrow> bool" where
  "grouped p runs groups \<longleftrightarrow>
     distinct (map fst groups) \<and>
     (\<forall>(k, g) \<in> set groups. g = filter (\<lambda>x. rooted p x k) runs \<and> g \<noteq> []) \<and>
     (\<forall>x \<in> set runs. \<forall>k. rooted p x k \<longrightarrow> k \<in> fst ` set groups)"

lemma groupedD:
  assumes "grouped p runs groups"
  shows "distinct (map fst groups)"
    and "(k, g) \<in> set groups \<Longrightarrow> g = filter (\<lambda>x. rooted p x k) runs"
    and "(k, g) \<in> set groups \<Longrightarrow> g \<noteq> []"
    and "x \<in> set runs \<Longrightarrow> rooted p x k \<Longrightarrow> k \<in> fst ` set groups"
  using assms unfolding grouped_def by (simp, fast, fast, simp)

lemma add_member_grouped:
  assumes g: "grouped p runs groups" and r: "rooted p run r"
  shows "grouped p (runs @ [run]) (add_member r run groups)"
proof -
  have only: "rooted p run k \<longleftrightarrow> k = r" for k using r rooted_unique by blast
  have each: "g = filter (\<lambda>x. rooted p x k) runs \<and> g \<noteq> []" if "(k, g) \<in> set groups" for k g
    using groupedD(2,3) [OF g that] by (rule conjI)
  note keys = groupedD(4) [OF g] and dist = groupedD(1) [OF g]
  show ?thesis
  proof (cases "r \<in> fst ` set groups")
    case False
    then have none: "map_of groups r = None" by (simp add: map_of_eq_None_iff)
    have "filter (\<lambda>x. rooted p x r) runs = []" using keys False by (auto simp: filter_empty_conv)
    moreover have "k \<noteq> r" if "(k, g) \<in> set groups" for k g using that False by force
    ultimately show ?thesis
      unfolding grouped_def add_member_def using none dist False keys by (auto simp: only dest!: each)
  next
    case True
    then have some: "map_of groups r \<noteq> None" by (simp add: map_of_eq_None_iff)
    let ?h = "\<lambda>(k, g). (k, if k = r then g @ [run] else g)"
    have fst: "map fst (map ?h groups) = map fst groups" by (simp add: case_prod_beta)
    then have "fst ` set (map ?h groups) = fst ` set groups" by (metis list.set_map)
    moreover have "g = filter (\<lambda>x. rooted p x k) (runs @ [run]) \<and> g \<noteq> []" if "(k, g) \<in> set (map ?h groups)" for k g
    proof -
      from that obtain g0 where g0: "(k, g0) \<in> set groups" "g = (if k = r then g0 @ [run] else g0)" by auto
      from each [OF g0(1)] have "g0 = filter (\<lambda>x. rooted p x k) runs" "g0 \<noteq> []" by auto
      then show ?thesis unfolding g0(2) by (simp add: only)
    qed
    moreover have "k \<in> fst ` set groups" if "x \<in> set (runs @ [run])" "rooted p x k" for x k
      using that keys True only by auto
    ultimately have "grouped p (runs @ [run]) (map ?h groups)"
      unfolding grouped_def fst using dist by (simp only:) blast
    moreover have "add_member r run groups = map ?h groups" using some by (simp only: add_member_def if_False)
    ultimately show ?thesis by (simp only:)
  qed
qed

lemma group_runs_grouped:
  "\<lbrakk>forest_ok q; dom (map_of q) = dom (map_of p); \<And>x s. rooted q x s \<longleftrightarrow> rooted p x s; set runs \<subseteq> dom (map_of p);
    grouped p seen groups\<rbrakk> \<Longrightarrow> \<exists>gs. group_runs runs q groups = Some gs \<and> grouped p (seen @ runs) gs"
proof (induction runs arbitrary: q seen groups)
  case (Cons run runs)
  have "run \<in> dom (map_of q)" using Cons.prems by auto
  then obtain q' r where q': "find_root q run = Some (q', r)" "forest_ok q'" "dom (map_of q') = dom (map_of q)" "rooted q run r"
    "\<And>x s. rooted q' x s \<longleftrightarrow> rooted q x s"
    using find_root_rooted [OF Cons.prems(1)] by metis
  have "\<exists>gs. group_runs runs q' (add_member r run groups) = Some gs \<and> grouped p ((seen @ [run]) @ runs) gs"
  proof (rule Cons.IH)
    show "grouped p (seen @ [run]) (add_member r run groups)"
      using Cons.prems(3,5) q'(4) by (intro add_member_grouped) auto
  qed (use q' Cons.prems in auto)
  with q'(1) show ?case by simp
qed simp

definition run_class :: "(string \<times> string) list \<Rightarrow> string \<Rightarrow> string set" where
  "run_class rows x = {y. (x, y) \<in> (linked rows)\<^sup>+}"

lemma grouped_classes:
  assumes g: "grouped p runs groups" and ok: "forest_ok p" and runs: "set runs = dom (map_of p)" "distinct runs"
  shows "distinct (map snd groups)" and "c \<in> set (map snd groups) \<Longrightarrow> distinct c"
    and "c \<in> set (map snd groups) \<Longrightarrow> d \<in> set (map snd groups) \<Longrightarrow> c \<noteq> d \<Longrightarrow> set c \<inter> set d = {}"
    and "set (concat (map snd groups)) = dom (map_of p)"
    and "c \<in> set (map snd groups) \<Longrightarrow> c \<noteq> [] \<and> (\<forall>x \<in> set c. set c = {y. same p x y})"
proof -
  have each: "g = filter (\<lambda>x. rooted p x k) runs \<and> g \<noteq> []" if "(k, g) \<in> set groups" for k g
    using groupedD(2,3) [OF g that] by (rule conjI)
  note keys = groupedD(4) [OF g] and dist = groupedD(1) [OF g]
  have one: "k = k' \<and> g = g'" if "(k, g) \<in> set groups" "(k', g') \<in> set groups" "x \<in> set g" "x \<in> set g'" for k g k' g' x
  proof -
    have "rooted p x k" "rooted p x k'"
      using that(3,4) each [OF that(1)] each [OF that(2)] by auto
    then have "k = k'" by (rule rooted_unique)
    with each [OF that(1)] each [OF that(2)] show ?thesis by simp
  qed
  show "distinct (map snd groups)"
  proof -
    have "inj_on snd (set groups)"
    proof (rule inj_onI)
      fix a b assume in_groups: "a \<in> set groups" "b \<in> set groups" "snd a = snd b"
      define k k' g where parts: "k = fst a" "k' = fst b" "g = snd a"
      from parts in_groups(3) have "a = (k, g)" "b = (k', g)" by (simp_all add: prod_eq_iff)
      with in_groups(1,2) have ab: "a = (k, g)" "b = (k', g)" "(k, g) \<in> set groups" "(k', g) \<in> set groups" by simp_all
      then have "hd g \<in> set g" using groupedD(3) [OF g ab(3)] by simp
      with one ab show "a = b" by blast
    qed
    with dist show ?thesis by (simp add: distinct_map)
  qed
  show "distinct c" if "c \<in> set (map snd groups)" for c using that each runs(2) by (auto dest!: each)
  show "set c \<inter> set d = {}" if "c \<in> set (map snd groups)" "d \<in> set (map snd groups)" "c \<noteq> d" for c d
    using that one by fastforce
  have "x \<in> set (concat (map snd groups))" if x: "x \<in> set runs" for x
  proof -
    from rooted_total [OF ok] x runs(1) obtain k where k: "rooted p x k" by auto
    have "k \<in> fst ` set groups" using x k by (rule keys)
    then obtain g where g: "(k, g) \<in> set groups" by force
    with each [OF g] x k show ?thesis by force
  qed
  moreover have "set c \<subseteq> set runs" if "c \<in> set (map snd groups)" for c
    using that each by (metis (no_types, lifting) filter_is_subset imageE list.set_map prod.collapse)
  ultimately show "set (concat (map snd groups)) = dom (map_of p)" unfolding runs(1) [symmetric] by fastforce
  show "c \<noteq> [] \<and> (\<forall>x \<in> set c. set c = {y. same p x y})" if "c \<in> set (map snd groups)" for c
  proof -
  from that obtain k where k: "(k, c) \<in> set groups" by auto
  have "set c = {y. same p x y}" if x: "x \<in> set c" for x
  proof -
    have "rooted p x k" using x each [OF k] by auto
    then have "same p x y \<longleftrightarrow> rooted p y k" for y unfolding same_def by (blast dest: rooted_unique)
    moreover have "rooted p y k \<longleftrightarrow> y \<in> set c" for y
      using rooted_root [of p y k] runs(1) by (subst conjunct1 [OF each [OF k]]) auto
    ultimately show ?thesis by auto
  qed
  with each [OF k] show ?thesis by blast
  qed
qed

lemma run_components_classes:
  "\<exists>cs. run_components sha n rows = Some cs \<and> distinct (concat cs) \<and> set (concat cs) = fst ` set rows \<and>
     (\<forall>c \<in> set cs. c \<noteq> [] \<and> (\<forall>x \<in> set c. set c = run_class rows x))"
proof -
  obtain p firsts where p: "split_rows rows ([], []) = Some (p, firsts)" "forest_ok p" "dom (map_of p) = fst ` set rows"
    "\<And>x y. same p x y \<longleftrightarrow> (x, y) \<in> (linked rows)\<^sup>+"
    using split_rows_all by blast
  let ?runs = "sort (map fst p)"
  have "distinct ?runs" using p(2) by (simp add: forest_ok_def)
  moreover have runs: "set ?runs = dom (map_of p)" by (simp add: dom_map_of_conv_image_fst)
  moreover obtain gs where gs: "group_runs ?runs p [] = Some gs" "grouped p ?runs gs"
    using group_runs_grouped [of p p ?runs "[]" "[]"] p(2) runs by (auto simp: grouped_def)
  ultimately have all: "grouped p ?runs gs" "forest_ok p" "set ?runs = dom (map_of p)" "distinct ?runs" using p(2) by blast+
  note classes = grouped_classes [OF this]
  let ?cs = "sort_key (component_key sha n) (map snd gs)"
  have "distinct (concat ?cs)"
    by (rule distinct_concat) (use classes(1-3) in simp_all)
  moreover have "set (concat ?cs) = fst ` set rows" using classes(4) p(3) by simp
  moreover have "run_components sha n rows = Some ?cs" using p(1) gs(1) by (simp add: run_components_def)
  ultimately show ?thesis using classes(5) unfolding run_class_def p(4) [symmetric] by (intro exI [of _ ?cs]) simp
qed


section \<open>The partitions\<close>

lemma partition_first: "3 \<le> n \<Longrightarrow> partition_of n 0 = ''test''"
  by (simp add: partition_of_def Let_def max_def)

lemma partition_next: "3 \<le> n \<Longrightarrow> max 1 (n div 10) < n \<and> partition_of n (max 1 (n div 10)) = ''dev''"
  by (auto simp: partition_of_def Let_def max_def)

lemma partition_last: "3 \<le> n \<Longrightarrow> 2 * max 1 (n div 10) < n \<and> partition_of n (2 * max 1 (n div 10)) = ''train''"
  by (auto simp: partition_of_def Let_def max_def)

lemma assigned:
  assumes dist: "distinct (concat cs)"
  shows "distinct (map fst (assign_partitions cs))"
    and "i < length cs \<Longrightarrow> x \<in> set (cs ! i) \<Longrightarrow> map_of (assign_partitions cs) x = Some (partition_of (length cs) i)"
    and "dom (map_of (assign_partitions cs)) = set (concat cs)"
proof -
  have "map fst (assign_partitions cs) = concat (map snd (enumerate 0 cs))"
    unfolding assign_partitions_def map_concat by (simp add: comp_def case_prod_beta)
  then have keys: "map fst (assign_partitions cs) = concat cs" by simp
  with dist show d: "distinct (map fst (assign_partitions cs))" by simp
  from keys have "fst ` set (assign_partitions cs) = set (concat cs)" by (metis list.set_map)
  then show "dom (map_of (assign_partitions cs)) = set (concat cs)" by (simp add: dom_map_of_conv_image_fst)
  assume "i < length cs" "x \<in> set (cs ! i)"
  then have "(x, partition_of (length cs) i) \<in> set (assign_partitions cs)"
    by (auto simp: assign_partitions_def in_set_enumerate_eq intro!: bexI [of _ "(i, cs ! i)"])
  with d show "map_of (assign_partitions cs) x = Some (partition_of (length cs) i)" by simp
qed

lemma classes_counted:
  assumes dist: "distinct (concat cs)" and cs: "\<And>c. c \<in> set cs \<Longrightarrow> c \<noteq> [] \<and> (\<forall>x \<in> set c. set c = run_class rows x)"
  shows "length cs = card (run_class rows ` set (concat cs))"
proof -
  have ne: "[] \<notin> set cs" using cs by blast
  then have d: "distinct cs" and apart: "\<And>c d. c \<in> set cs \<Longrightarrow> d \<in> set cs \<Longrightarrow> c \<noteq> d \<Longrightarrow> set c \<inter> set d = {}"
    using dist by (auto simp: distinct_concat_iff removeAll_id)
  have "inj_on set (set cs)"
  proof (rule inj_onI)
    fix c d assume "c \<in> set cs" "d \<in> set cs" "set c = set d"
    with apart [of c d] ne show "c = d" by auto
  qed
  then have count: "card (set ` set cs) = length cs" using d by (simp add: card_image distinct_card)
  have classes: "set ` set cs = run_class rows ` set (concat cs)"
  proof (intro equalityI subsetI)
    fix S assume "S \<in> set ` set cs"
    then obtain c where c: "c \<in> set cs" "S = set c" by blast
    from cs [OF c(1)] have x: "hd c \<in> set c" by simp
    have "S = run_class rows (hd c)" using conjunct2 [OF cs [OF c(1)], rule_format, OF x] c(2) by simp
    moreover have "hd c \<in> set (concat cs)" using c(1) x by auto
    ultimately show "S \<in> run_class rows ` set (concat cs)" by (rule image_eqI)
  next
    fix S assume "S \<in> run_class rows ` set (concat cs)"
    then obtain x c where c: "c \<in> set cs" "x \<in> set c" "S = run_class rows x" by auto
    have "S = set c" using conjunct2 [OF cs [OF c(1)], rule_format, OF c(2)] c(3) by simp
    then show "S \<in> set ` set cs" using c(1) by (rule image_eqI)
  qed
  show ?thesis by (rule count [unfolded classes, symmetric])
qed

text \<open>The number of independent components of the rows, as the links define it.\<close>

definition independent_runs :: "(string \<times> string) list \<Rightarrow> nat" where
  "independent_runs rows = card (run_class rows ` fst ` set rows)"

definition split_of :: "json \<Rightarrow> string \<Rightarrow> json option" where
  "split_of v run = map_of (fields_of v) run"

lemma linked_in: "(x, y) \<in> (linked rows)\<^sup>+ \<Longrightarrow> x \<in> fst ` set rows \<and> y \<in> fst ` set rows"
  by (induction rule: trancl.induct) (force simp: linked_def)+

lemma split_ran:
  assumes n: "unsigned seed ''split.seed'' = Inr n" and enough: "3 \<le> independent_runs rows"
  shows "\<exists>v. split_run_fingerprints sha seed rows = Some (Inr v) \<and> dom (split_of v) = fst ` set rows \<and>
    (\<forall>x y. (x, y) \<in> (linked rows)\<^sup>+ \<longrightarrow> split_of v x = split_of v y) \<and> ran (split_of v) = JStr ` {''test'', ''dev'', ''train''}"
proof -
  obtain cs where cs: "run_components sha n rows = Some cs" "distinct (concat cs)" "set (concat cs) = fst ` set rows"
    "\<And>c. c \<in> set cs \<Longrightarrow> c \<noteq> [] \<and> (\<forall>x \<in> set c. set c = run_class rows x)"
    using run_components_classes [of sha n rows] by (elim exE conjE) (rule that, auto)
  have len: "3 \<le> length cs" using enough classes_counted [OF cs(2,4)] cs(3) by (simp add: independent_runs_def)
  define v where "v = sort_keys (JObj (map (\<lambda>(run, part). (run, JStr part)) (assign_partitions cs)))"
  have ran: "split_run_fingerprints sha seed rows = Some (Inr v)"
    using n cs(1) len by (auto simp: split_run_fingerprints_def freeze_def list_all_iff v_def)
  have look: "split_of v x = map_option JStr (map_of (assign_partitions cs) x)" for x
    unfolding split_of_def v_def map_of_document by (simp add: map_of_map option.map_comp comp_def)
  have at_index: "split_of v x = Some (JStr (partition_of (length cs) j))" if "j < length cs" "x \<in> set (cs ! j)" for j x
    using look assigned(2) [OF cs(2) that] by simp
  have dom: "dom (split_of v) = fst ` set rows" using assigned(3) [OF cs(2)] cs(3) by (auto simp: look dom_def)
  have together: "split_of v x = split_of v y" if "(x, y) \<in> (linked rows)\<^sup>+" for x y
  proof -
    from linked_in [OF that] cs(3) obtain c where c: "c \<in> set cs" "x \<in> set c" by auto
    with cs(4) that have "y \<in> set c" by (auto simp: run_class_def)
    from c(1) obtain j where "j < length cs" "c = cs ! j" by (auto simp: in_set_conv_nth)
    with at_index c(2) \<open>y \<in> set c\<close> show ?thesis by simp
  qed
  have hit: "JStr (partition_of (length cs) j) \<in> ran (split_of v)" if j: "j < length cs" for j
  proof -
    from cs(4) j obtain x where "x \<in> set (cs ! j)" by (cases "cs ! j") (auto simp: in_set_conv_nth)
    with at_index [OF j] show ?thesis by (blast intro: ranI)
  qed
  have "0 < length cs" using len by linarith
  from hit [OF this] partition_first [OF len] have "JStr ''test'' \<in> ran (split_of v)" by simp
  moreover from hit partition_next [OF len] have "JStr ''dev'' \<in> ran (split_of v)" by metis
  moreover from hit partition_last [OF len] have "JStr ''train'' \<in> ran (split_of v)" by metis
  moreover have "ran (split_of v) \<subseteq> JStr ` {''test'', ''dev'', ''train''}"
  proof
    fix part assume "part \<in> ran (split_of v)"
    then obtain x where x: "split_of v x = Some part" by (auto simp: ran_def)
    then have "x \<in> set (concat cs)" using dom cs(3) by auto
    then obtain c where "c \<in> set cs" "x \<in> set c" by auto
    then obtain j where "j < length cs" "x \<in> set (cs ! j)" by (auto simp: in_set_conv_nth [of c])
    from at_index [OF this] x show "part \<in> JStr ` {''test'', ''dev'', ''train''}"
      by (auto simp: partition_of_def Let_def)
  qed
  ultimately show ?thesis using ran dom together by (intro exI [of _ v]) auto
qed

lemma split_refused:
  assumes n: "unsigned seed ''split.seed'' = Inr n" and few: "independent_runs rows < 3"
  shows "split_run_fingerprints sha seed rows = Some (Inl (BoundaryError ''split'' ''insufficient_independent_run_components''))"
proof -
  obtain cs where cs: "run_components sha n rows = Some cs" "distinct (concat cs)" "set (concat cs) = fst ` set rows"
    "\<And>c. c \<in> set cs \<Longrightarrow> c \<noteq> [] \<and> (\<forall>x \<in> set c. set c = run_class rows x)"
    using run_components_classes [of sha n rows] by (elim exE conjE) (rule that, auto)
  have "length cs < 3" using few classes_counted [OF cs(2,4)] cs(3) by (simp add: independent_runs_def)
  with n cs(1) show ?thesis by (simp add: split_run_fingerprints_def)
qed

end
