(* ===== verification/SplitClaims.thy ===== *)
theory SplitClaims
  imports Splits Curation
begin

text \<open>
  What the whole-run split promises, and that it respects the run groups of the curation ledger.
\<close>

text \<open>Claim C34. The union-find loop ends and its components are exactly the classes of runs joined by
shared decision fingerprints: every run of the rows is in exactly one component, and a component is the
class of each of its runs.\<close>

theorem run_components_exact:
  "\<exists>cs. run_components sha n rows = Some cs \<and> distinct (concat cs) \<and> set (concat cs) = fst ` set rows \<and>
     (\<forall>c \<in> set cs. c \<noteq> [] \<and> (\<forall>x \<in> set c. set c = {y. (x, y) \<in> (linked rows)\<^sup>+}))"
  using run_components_classes unfolding run_class_def .

definition split_sample :: "(string \<times> string) list" where
  "split_sample = [(''r1'', ''f1''), (''r2'', ''f2''), (''r3'', ''f3''), (''r4'', ''f2''), (''r4'', ''f4'')]"

theorem run_components_exact_witness:
  "\<exists>cs. run_components (\<lambda>s. s) 7 split_sample = Some cs \<and> distinct (concat cs) \<and> (\<forall>c \<in> set cs. c \<noteq> [])"
  using run_components_exact [of "\<lambda>s. s" 7 split_sample] by blast

text \<open>With a valid seed the split answers for any rows. With fewer than three independent
components it is refused; otherwise every run of the rows, and no other, has a partition, runs joined by
shared fingerprints have the same one, and test, dev and train all occur.\<close>

theorem split_keeps_components:
  assumes "unsigned seed ''split.seed'' = Inr n"
  shows "if independent_runs rows < 3
         then split_run_fingerprints sha seed rows = Some (Inl (BoundaryError ''split'' ''insufficient_independent_run_components''))
         else \<exists>v. split_run_fingerprints sha seed rows = Some (Inr v) \<and> dom (split_of v) = fst ` set rows \<and>
           (\<forall>x y. (x, y) \<in> (linked rows)\<^sup>+ \<longrightarrow> split_of v x = split_of v y) \<and>
           ran (split_of v) = JStr ` {''test'', ''dev'', ''train''}"
  using split_ran [OF assms] split_refused [OF assms] by (simp add: not_less)

definition split_returned :: "json result option \<Rightarrow> bool" where
  "split_returned r = (case r of Some (Inr v) \<Rightarrow> True | _ \<Rightarrow> False)"

lemma split_sample_ran: "split_returned (split_run_fingerprints (\<lambda>s. s) (JInt 7) split_sample)"
  by code_simp

theorem split_keeps_components_witness:
  "\<exists>v. split_run_fingerprints (\<lambda>s. s) (JInt 7) split_sample = Some (Inr v) \<and> split_of v ''r2'' = split_of v ''r4'' \<and>
     ran (split_of v) = JStr ` {''test'', ''dev'', ''train''}"
proof -
  have seed: "unsigned (JInt 7) ''split.seed'' = Inr 7" by (simp add: unsigned_def)
  have "(''r2'', ''r4'') \<in> (linked split_sample)\<^sup>+" by (rule r_into_trancl) (auto simp: linked_def split_sample_def)
  with split_keeps_components [OF seed, of split_sample "\<lambda>s. s"] split_sample_ran show ?thesis
    by (auto simp: split_returned_def split: if_splits)
qed

text \<open>The rows of the curation ledger name the run second.\<close>

definition ledger_rows :: "ops \<Rightarrow> (string \<times> string) list" where
  "ledger_rows s = map prod.swap (cur_fingerprints s)"

lemma ledger_links: "linked (ledger_rows s) = shares (cur_fingerprints s)"
  by (force simp: linked_def shares_def ledger_rows_def)

text \<open>A split over the fingerprints of the curation ledger never separates a run group of the
ledger: the runs the grouping query reaches from a run have the partition of that run.\<close>

theorem split_respects_run_groups:
  assumes "split_run_fingerprints sha seed (ledger_rows s) = Some (Inr v)" and "y \<in> set (run_group s [x])"
  shows "split_of v y = split_of v x"
proof -
  from assms(1) obtain n where n: "unsigned seed ''split.seed'' = Inr n"
    by (auto simp: split_run_fingerprints_def split: sum.splits)
  have "\<not> independent_runs (ledger_rows s) < 3" using split_refused [OF n, of "ledger_rows s" sha] assms(1) by auto
  with split_ran [OF n, of "ledger_rows s" sha] assms(1)
  have one: "(a, b) \<in> (shares (cur_fingerprints s))\<^sup>+ \<Longrightarrow> split_of v a = split_of v b" for a b
    by (auto simp: ledger_links)
  from assms(2) have "(x, y) \<in> (shares (cur_fingerprints s))\<^sup>*" by (simp add: run_group_correct)
  then show ?thesis by (auto simp: rtrancl_eq_or_trancl dest: one)
qed

definition split_ledger :: ops where
  "split_ledger = new_operations\<lparr>cur_fingerprints := map prod.swap split_sample\<rparr>"

theorem split_respects_run_groups_witness:
  "\<exists>v. split_run_fingerprints (\<lambda>s. s) (JInt 7) (ledger_rows split_ledger) = Some (Inr v) \<and> split_of v ''r4'' = split_of v ''r2''"
proof -
  have rows: "ledger_rows split_ledger = split_sample" by (simp add: ledger_rows_def split_ledger_def comp_def)
  obtain v where v: "split_run_fingerprints (\<lambda>s. s) (JInt 7) (ledger_rows split_ledger) = Some (Inr v)"
    using split_sample_ran unfolding rows split_returned_def by (auto split: option.splits sum.splits)
  have "''r4'' \<in> set (run_group split_ledger [''r2''])" by code_simp
  with split_respects_run_groups [OF v] v show ?thesis by blast
qed

end
