(* ===== verification/Outbox.thy ===== *)
theory Outbox
  imports DirectoryTransfer Manifests Boundary
begin

text \<open>
  components/evidence/sts2\_platform\_evidence/delivery.py: the outbox of a collecting machine. It
  enrolls sealed recording sessions, packs each into a bundle, and hands the bundle to a transport
  until the receiver answers with a terminal receipt. The rows of the SQLite file and the files beside
  it are the state: bundles, transfer manifests, delivery metadata, receipts and incident diagnostics
  by delivery key. JSON texts the code writes with \<open>canonical\<close> and reads back are kept as the
  key-sorted tree they decode to. The progress projections of delivery\_summary.py are display data
  and are not part of the state. The packer, the bundle verifier and \<open>summarize\<close> are arguments;
  writing the local files is taken to succeed.
\<close>

section \<open>Rows and files\<close>

datatype delivery_status = Waiting | AuthStopped | Accepted | Refused | Incident

record delivery_row =
  sr_id :: string
  sr_source :: string
  sr_identity :: json
  sr_status :: delivery_status
  sr_attempts :: nat
  sr_retry_at :: real
  sr_content_id :: "string option"
  sr_error :: "string option"
  sr_receipt :: "json option"
  sr_summary :: "json option"
  sr_auth_context :: "json option"

record outbox =
  ob_worker :: string
  ob_campaign :: string
  ob_release :: string
  ob_config :: "json option"
  ob_rows :: "delivery_row list"
  ob_bundles :: "(string \<times> tree) list"
  ob_transfers :: "(string \<times> json) list"
  ob_metadata :: "(string \<times> json) list"
  ob_receipts :: "(string \<times> json) list"
  ob_incidents :: "(string \<times> string) list"

definition put_file :: "string \<Rightarrow> 'v \<Rightarrow> (string \<times> 'v) list \<Rightarrow> (string \<times> 'v) list" where
  "put_file key v files = (key, v) # files"

text \<open>An exception of one attempt: \<open>CollectionFailure\<close> is a \<open>ValueError\<close> with a diagnostic.\<close>

datatype fault = Raised py_error | CollectionFailure string string

section \<open>The identity of a sealed session\<close>

text \<open>\<open>read\_json\<close>; \<open>loads\<close> is \<open>json.loads\<close> of the decoded bytes.\<close>

definition read_json :: "(string \<Rightarrow> json result) \<Rightarrow> tree \<Rightarrow> string \<Rightarrow> (string \<times> json) list result" where
  "read_json loads d path =
     (case map_of d path of
        None \<Rightarrow> Inl OSError
      | Some e \<Rightarrow>
          (case file_bytes e of
             None \<Rightarrow> Inl OSError
           | Some b \<Rightarrow>
               and_then (loads b) (\<lambda>v. case v of JObj kvs \<Rightarrow> Inr kvs | _ \<Rightarrow> Inl (ValueError ''expected JSON object''))))"

definition recording_schema :: string where
  "recording_schema = ''sts2.human-annotator/recording-manifest-2''"

definition close_schema :: string where
  "close_schema = ''sts2.human-annotator/session-close-1''"

text \<open>Python's \<open>== 1\<close> and the truth value of a decoded value.\<close>

definition equals_one :: "json option \<Rightarrow> bool" where
  "equals_one v \<longleftrightarrow> v = Some (JInt 1) \<or> v = Some (JBool True) \<or> v = Some (JFloat ''1.0'')"

definition true_value :: "json option \<Rightarrow> bool" where
  "true_value v =
     (case v of
        None \<Rightarrow> False | Some JNull \<Rightarrow> False | Some (JBool b) \<Rightarrow> b | Some (JInt i) \<Rightarrow> i \<noteq> 0
      | Some (JFloat f) \<Rightarrow> f \<noteq> ''0.0'' \<and> f \<noteq> ''-0.0'' | Some (JStr t) \<Rightarrow> t \<noteq> [] | Some (JList vs) \<Rightarrow> vs \<noteq> []
      | Some (JObj kvs) \<Rightarrow> kvs \<noteq> [])"

definition same_name :: "(string \<times> json) list \<Rightarrow> (string \<times> json) list \<Rightarrow> string \<Rightarrow> bool" where
  "same_name recording closing key =
     (case map_of recording key of
        Some (JStr t) \<Rightarrow> t \<noteq> [] \<and> map_of closing key = Some (JStr t)
      | _ \<Rightarrow> False)"

definition properly_closed :: "(string \<times> json) list \<Rightarrow> (string \<times> json) list \<Rightarrow> bool" where
  "properly_closed recording closing \<longleftrightarrow>
     map_of recording ''schema'' = Some (JStr recording_schema) \<and> equals_one (map_of recording ''close_schema_version'') \<and>
     map_of closing ''schema'' = Some (JStr close_schema) \<and> map_of closing ''status'' = Some (JStr ''closed'') \<and>
     true_value (map_of closing ''closed_at'') \<and> same_name recording closing ''session_id'' \<and> same_name recording closing ''timeline_id''"

definition digest_of :: "hash \<Rightarrow> json \<Rightarrow> string" where
  "digest_of sha v = sha (canonical_text v)"

definition inventory_json :: "(string \<times> int \<times> string) list \<Rightarrow> json" where
  "inventory_json files = JList (map (\<lambda>(p, n, h). JList [JStr p, JInt n, JStr h]) files)"

text \<open>The directory is None when the session is a symbolic link.\<close>

definition session_identity :: "hash \<Rightarrow> (string \<Rightarrow> json result) \<Rightarrow> tree option \<Rightarrow> json result" where
  "session_identity sha loads directory =
     (case directory of
        None \<Rightarrow> Inl (ValueError ''session symbolic links are not supported'')
      | Some d \<Rightarrow>
          and_then (read_json loads d ''recording-manifest.json'') (\<lambda>recording.
          and_then (read_json loads d ''session-close-receipt.json'') (\<lambda>closing.
          if \<not> properly_closed recording closing then Inl (ValueError ''exact successful Close receipt required'')
          else
            and_then (inventory sha (Some d)) (\<lambda>files.
            Inr (JObj [(''session_id'', the (map_of recording ''session_id'')), (''timeline_id'', the (map_of recording ''timeline_id'')),
                       (''manifest_sha256'', JStr (digest_of sha (JObj recording))), (''close_sha256'', JStr (digest_of sha (JObj closing))),
                       (''raw_files'', inventory_json files)])))))"

section \<open>Configuration\<close>

definition id_char :: "char \<Rightarrow> bool" where
  "id_char c \<longleftrightarrow> (CHR ''a'' \<le> c \<and> c \<le> CHR ''z'') \<or> (CHR ''A'' \<le> c \<and> c \<le> CHR ''Z'') \<or> (CHR ''0'' \<le> c \<and> c \<le> CHR ''9'')"

definition plain_id :: "string \<Rightarrow> bool" where
  "plain_id t =
     (case t of
        [] \<Rightarrow> False
      | c # cs \<Rightarrow> id_char c \<and> length cs \<le> 127 \<and> list_all (\<lambda>d. id_char d \<or> d \<in> set ''._-'') cs)"

definition outbox_identity :: "string \<Rightarrow> string \<Rightarrow> string \<Rightarrow> (string \<times> json) list" where
  "outbox_identity worker campaign release =
     [(''worker_id'', JStr worker), (''campaign_id'', JStr campaign), (''human_origin_attested'', JBool True),
      (''tool_release_id'', JStr release)]"

text \<open>The constructor on an existing or a fresh directory (\<open>ob\_config\<close> None).\<close>

definition open_outbox :: "string \<Rightarrow> string \<Rightarrow> bool \<Rightarrow> string \<Rightarrow> outbox \<Rightarrow> outbox result" where
  "open_outbox worker campaign attested release stored =
     (if \<not> attested then Inl (ValueError ''operator Human-origin attestation is required before automatic collection'')
      else if \<not> (plain_id worker \<and> plain_id campaign) then Inl (ValueError ''invalid worker/campaign identifier'')
      else if \<not> (length release = 64 \<and> lower_hex release) then Inl (ValueError ''exact tool release ID required'')
      else
        let me = sort_keys (JObj (outbox_identity worker campaign release));
            S = stored\<lparr>ob_worker := worker, ob_campaign := campaign, ob_release := release\<rparr>
        in
          (case ob_config stored of
             None \<Rightarrow> Inr (S\<lparr>ob_config := Some me\<rparr>)
           | Some saved \<Rightarrow>
               if saved \<noteq> me
               then Inl (ValueError ''outbox configuration is immutable; use a new outbox for changed identity'')
               else Inr S))"


section \<open>Enrolling sealed sessions\<close>

text \<open>
  A child of the recording root: its name and path, the directory behind it (None where it is none),
  and whether it is a symbolic link.
\<close>

record child =
  ch_name :: string
  ch_path :: string
  ch_tree :: "tree option"
  ch_link :: bool

record counts =
  co_enqueued :: nat
  co_existing :: nat
  co_unsealed :: nat
  co_incident :: nat

definition has_file :: "tree \<Rightarrow> string \<Rightarrow> bool" where
  "has_file d path = (case map_of d path of None \<Rightarrow> False | Some e \<Rightarrow> file_bytes e \<noteq> None)"

definition delivery_key :: "hash \<Rightarrow> string \<Rightarrow> string" where
  "delivery_key sha path = digest_of sha (JObj [(''source'', JStr path)])"

definition new_row :: "string \<Rightarrow> string \<Rightarrow> json \<Rightarrow> delivery_status \<Rightarrow> string option \<Rightarrow> delivery_row" where
  "new_row key path ident status problem =
     \<lparr>sr_id = key, sr_source = path, sr_identity = sort_keys ident, sr_status = status, sr_attempts = 0, sr_retry_at = 0,
      sr_content_id = None, sr_error = problem, sr_receipt = None, sr_summary = None, sr_auth_context = None\<rparr>"

definition enroll_child ::
  "hash \<Rightarrow> (string \<Rightarrow> json result) \<Rightarrow> (py_error \<Rightarrow> string) \<Rightarrow> child \<Rightarrow> outbox \<times> counts \<Rightarrow> (outbox \<times> counts) result" where
  "enroll_child sha loads str_of ch st =
     (let (S, n) = st; key = delivery_key sha (ch_path ch) in
      case ch_tree ch of
        None \<Rightarrow> Inr st
      | Some d \<Rightarrow>
          if has_prefix ''.'' (ch_name ch) \<or> \<not> has_file d ''recording-manifest.json'' then Inr st
          else if \<not> has_file d ''session-close-receipt.json'' then Inr (S, n\<lparr>co_unsealed := Suc (co_unsealed n)\<rparr>)
          else if find (\<lambda>r. sr_id r = key) (ob_rows S) \<noteq> None then Inr (S, n\<lparr>co_existing := Suc (co_existing n)\<rparr>)
          else
            (case session_identity sha loads (if ch_link ch then None else Some d) of
               Inr ident \<Rightarrow>
                 Inr (S\<lparr>ob_rows := ob_rows S @ [new_row key (ch_path ch) ident Waiting None]\<rparr>,
                      n\<lparr>co_enqueued := Suc (co_enqueued n)\<rparr>)
             | Inl e \<Rightarrow>
                 if value_error e \<or> e = OSError
                 then Inr (S\<lparr>ob_rows := ob_rows S @ [new_row key (ch_path ch) (JObj []) Incident (Some (str_of e))]\<rparr>,
                           n\<lparr>co_incident := Suc (co_incident n)\<rparr>)
                 else Inl e))"

fun enroll_all ::
  "hash \<Rightarrow> (string \<Rightarrow> json result) \<Rightarrow> (py_error \<Rightarrow> string) \<Rightarrow> child list \<Rightarrow> outbox \<times> counts \<Rightarrow> (outbox \<times> counts) result" where
  "enroll_all sha loads str_of [] st = Inr st"
| "enroll_all sha loads str_of (ch # chs) st = and_then (enroll_child sha loads str_of ch st) (enroll_all sha loads str_of chs)"

text \<open>\<open>inside\<close>: the outbox lies in the recording root; the listing is None when the root is no directory.\<close>

definition reconcile ::
  "hash \<Rightarrow> (string \<Rightarrow> json result) \<Rightarrow> (py_error \<Rightarrow> string) \<Rightarrow> bool \<Rightarrow> child list option \<Rightarrow> outbox \<Rightarrow> (outbox \<times> counts) result" where
  "reconcile sha loads str_of inside listing S =
     (if inside then Inl (ValueError ''outbox must not be inside recording root'')
      else
        (case listing of
           None \<Rightarrow> Inl (ValueError ''recording root is absent'')
         | Some children \<Rightarrow>
             enroll_all sha loads str_of (sort_key ch_name children)
               (S, \<lparr>co_enqueued = 0, co_existing = 0, co_unsealed = 0, co_incident = 0\<rparr>)))"

section \<open>One attempt\<close>

record verified =
  vd_content :: string
  vd_session :: string
  vd_summary :: "(string \<times> json) list"

record collection_tool =
  ct_release :: string
  ct_manifest :: json

datatype transport_answer = Blocked int "json option" | Accepting | Broken py_error | Answered json

text \<open>
  What an attempt meets: the clock, the session directory before and after packing, the answer of
  \<open>tool.verify\<close>, the bundle directory and the outcome of \<open>tool.pack\<close>, the bundle verifier with
  \<open>require\_value\<close> and the summary, and the transport.
\<close>

record world =
  wo_now :: real
  wo_before :: "tree option"
  wo_after :: "tree option"
  wo_tool :: "unit result"
  wo_pack :: "tree option \<times> (fault + unit)"
  wo_verify :: "tree \<Rightarrow> verified result"
  wo_transport :: "tree \<Rightarrow> transfer \<Rightarrow> json \<Rightarrow> transport_answer"

definition raised :: "'a result \<Rightarrow> fault + 'a" where
  "raised r = (case r of Inl e \<Rightarrow> Inl (Raised e) | Inr x \<Rightarrow> Inr x)"

definition unchanged :: "hash \<Rightarrow> (string \<Rightarrow> json result) \<Rightarrow> tree option \<Rightarrow> delivery_row \<Rightarrow> string \<Rightarrow> unit result" where
  "unchanged sha loads source row problem =
     and_then (session_identity sha loads source) (\<lambda>ident.
     if sort_keys ident \<noteq> sr_identity row then Inl (ValueError problem) else Inr ())"

definition update_session :: "string \<Rightarrow> (delivery_row \<Rightarrow> delivery_row) \<Rightarrow> outbox \<Rightarrow> outbox" where
  "update_session key f S = S\<lparr>ob_rows := update_where (\<lambda>r. sr_id r = key) f (ob_rows S)\<rparr>"

text \<open>Packing, unless the bundle is there already.\<close>

definition ensure_bundle :: "string \<Rightarrow> world \<Rightarrow> outbox \<Rightarrow> outbox \<times> (fault + unit)" where
  "ensure_bundle key w S =
     (if map_of (ob_bundles S) key \<noteq> None then (S, raised (wo_tool w))
      else
        (case wo_tool w of
           Inl e \<Rightarrow> (S, Inl (Raised e))
         | Inr u \<Rightarrow>
             (case wo_pack w of
                (None, r) \<Rightarrow> (S, r)
              | (Some d, r) \<Rightarrow> (S\<lparr>ob_bundles := put_file key d (ob_bundles S)\<rparr>, r))))"

definition human_bundle :: string where
  "human_bundle = ''human-session-bundle''"

text \<open>The checks on the prepared identity, and the transfer manifest to write.\<close>

definition prepared :: "delivery_row \<Rightarrow> transfer \<Rightarrow> json option \<Rightarrow> bool result" where
  "prepared row t written =
     (if sr_content_id row \<noteq> None \<and> sr_content_id row \<noteq> Some (tr_content_id t)
      then Inl (ValueError ''prepared bundle content identity changed'')
      else
        (case written of
           Some doc \<Rightarrow>
             and_then (read_transfer doc) (\<lambda>previous.
             if previous \<noteq> t then Inl (ValueError ''prepared transfer identity changed'') else Inr False)
         | None \<Rightarrow>
             if sr_content_id row \<noteq> None then Inl (ValueError ''prepared transfer identity is absent'')
             else and_then (transfer_validate t) (\<lambda>_. Inr True)))"

definition delivery_metadata :: "outbox \<Rightarrow> delivery_row \<Rightarrow> collection_tool \<Rightarrow> json" where
  "delivery_metadata S row tool =
     JObj ([(''schema'', JStr ''sts2.evidence/delivery-metadata-1'')] @ outbox_identity (ob_worker S) (ob_campaign S) (ob_release S) @
           [(''source_identity'', sr_identity row), (''collection_tool'', ct_manifest tool)])"

definition locally_verified ::
  "hash \<Rightarrow> delivery_row \<Rightarrow> world \<Rightarrow> tree \<Rightarrow> outbox \<Rightarrow> (transfer \<times> verified \<times> bool) result" where
  "locally_verified sha row w d S =
     and_then (wo_verify w d) (\<lambda>v.
     and_then (from_directory sha (Some d) (vd_content v) human_bundle) (\<lambda>t.
     and_then (prepared row t (map_of (ob_transfers S) (sr_id row))) (\<lambda>fresh. Inr (t, v, fresh))))"

text \<open>Everything of the attempt before the transport is called.\<close>

definition prepare_delivery ::
  "hash \<Rightarrow> (string \<Rightarrow> json result) \<Rightarrow> collection_tool \<Rightarrow> world \<Rightarrow> delivery_row \<Rightarrow> outbox \<Rightarrow> outbox \<times> (fault + tree \<times> transfer)" where
  "prepare_delivery sha loads tool w row S =
     (let key = sr_id row in
      case unchanged sha loads (wo_before w) row ''sealed source changed after enrollment'' of
        Inl e \<Rightarrow> (S, Inl (Raised e))
      | Inr u \<Rightarrow>
          (case ensure_bundle key w S of
             (S1, Inl e) \<Rightarrow> (S1, Inl e)
           | (S1, Inr u') \<Rightarrow>
               (case unchanged sha loads (wo_after w) row ''sealed source changed during packing'' of
                  Inl e \<Rightarrow> (S1, Inl (Raised e))
                | Inr u'' \<Rightarrow>
                    (case map_of (ob_bundles S1) key of
                       None \<Rightarrow> (S1, Inl (Raised (ValueError ''verification did not pass'')))
                     | Some d \<Rightarrow>
                         (case locally_verified sha row w d S1 of
                            Inl e \<Rightarrow> (S1, Inl (Raised e))
                          | Inr (t, v, fresh) \<Rightarrow>
                              let S2 = (if fresh then S1\<lparr>ob_transfers := put_file key (transfer_dict t) (ob_transfers S1)\<rparr> else S1);
                                  S3 = update_session key (\<lambda>r. r\<lparr>sr_summary := Some (JObj (vd_summary v))\<rparr>) S2
                              in (S3\<lparr>ob_metadata := put_file key (delivery_metadata S row tool) (ob_metadata S3)\<rparr>, Inr (d, t)))))))"

section \<open>Settling the attempt\<close>

definition receive_schema :: string where
  "receive_schema = ''stpd/receive-receipt-v1''"

definition settled_status :: "json option \<Rightarrow> delivery_status option" where
  "settled_status v = (if v = Some (JStr ''verified'') then Some Accepted else if v = Some (JStr ''quarantined'') then Some Refused else None)"

definition receipt_identity :: "hash \<Rightarrow> transfer \<Rightarrow> (string \<times> json) list \<Rightarrow> bool" where
  "receipt_identity sha t kvs \<longleftrightarrow>
     map_of kvs ''schema'' = Some (JStr receive_schema) \<and> map_of kvs ''content_id'' = Some (JStr (tr_content_id t)) \<and>
     map_of kvs ''manifest_sha256'' = Some (JStr (transfer_sha256 sha t))"

definition receipt_matches :: "hash \<Rightarrow> transfer \<Rightarrow> json \<Rightarrow> delivery_status option" where
  "receipt_matches sha t receipt =
     (case receipt of
        JObj kvs \<Rightarrow>
          if receipt_identity sha t kvs \<and> (case map_of kvs ''receipt_id'' of Some (JStr i) \<Rightarrow> i \<noteq> [] | _ \<Rightarrow> False)
          then settled_status (map_of kvs ''status'')
          else None
      | _ \<Rightarrow> None)"

text \<open>What a receipt that does not match raises: a status that is a list or an object has no hash.\<close>

definition receipt_error :: "hash \<Rightarrow> transfer \<Rightarrow> json \<Rightarrow> py_error" where
  "receipt_error sha t receipt =
     (case receipt of
        JObj kvs \<Rightarrow>
          if receipt_identity sha t kvs \<and> (case map_of kvs ''status'' of Some (JList _) \<Rightarrow> True | Some (JObj _) \<Rightarrow> True | _ \<Rightarrow> False)
          then TypeError
          else ValueError ''receiver did not return a matching terminal verification receipt''
      | _ \<Rightarrow> ValueError ''receiver did not return a matching terminal verification receipt'')"

definition backoff_delay :: "nat \<Rightarrow> nat" where
  "backoff_delay attempts = min 3600 (2 ^ min (attempts + 1) 11)"

definition auth_context :: "hash \<Rightarrow> transfer \<Rightarrow> int \<Rightarrow> json option \<Rightarrow> json" where
  "auth_context sha t code ident =
     JObj [(''schema'', JStr ''sts2.evidence/delivery-auth-block-1''), (''http_status'', JInt code),
           (''content_id'', JStr (tr_content_id t)), (''manifest_sha256'', JStr (transfer_sha256 sha t)),
           (''transport'', (case ident of None \<Rightarrow> JNull | Some v \<Rightarrow> v))]"

text \<open>The handlers of \<open>(OSError, TimeoutError)\<close> and \<open>(ValueError, RuntimeError)\<close>; \<open>name\_of\<close> is \<open>type(error).\_\_name\_\_\<close>.\<close>

definition runtime_error :: "py_error \<Rightarrow> bool" where
  "runtime_error e = (case e of RuntimeError _ \<Rightarrow> True | _ \<Rightarrow> False)"

definition retry_row :: "real \<Rightarrow> string option \<Rightarrow> delivery_row \<Rightarrow> delivery_row" where
  "retry_row now problem r =
     r\<lparr>sr_attempts := Suc (sr_attempts r), sr_retry_at := now + real (backoff_delay (sr_attempts r)), sr_error := problem\<rparr>"

definition incident_row :: "string \<Rightarrow> delivery_row \<Rightarrow> delivery_row" where
  "incident_row problem r = r\<lparr>sr_status := Incident, sr_attempts := Suc (sr_attempts r), sr_error := Some problem\<rparr>"

definition settle_fault ::
  "(py_error \<Rightarrow> string) \<Rightarrow> (py_error \<Rightarrow> string) \<Rightarrow> real \<Rightarrow> delivery_row \<Rightarrow> fault \<Rightarrow> outbox \<Rightarrow> outbox \<times> unit result" where
  "settle_fault str_of name_of now row e S =
     (case e of
        CollectionFailure problem diagnostic \<Rightarrow>
          (update_session (sr_id row) (incident_row problem)
             (if diagnostic = [] then S else S\<lparr>ob_incidents := put_file (sr_id row) diagnostic (ob_incidents S)\<rparr>), Inr ())
      | Raised p \<Rightarrow>
          if p = OSError then (update_session (sr_id row) (retry_row now (Some (name_of p))) S, Inr ())
          else if value_error p \<or> runtime_error p then (update_session (sr_id row) (incident_row (str_of p)) S, Inr ())
          else (S, Inl p))"

definition settle_answer ::
  "hash \<Rightarrow> (py_error \<Rightarrow> string) \<Rightarrow> (py_error \<Rightarrow> string) \<Rightarrow> real \<Rightarrow> delivery_row \<Rightarrow> transfer \<Rightarrow> transport_answer \<Rightarrow> outbox \<Rightarrow> outbox \<times> unit result" where
  "settle_answer sha str_of name_of now row t a S =
     (case a of
        Broken e \<Rightarrow> settle_fault str_of name_of now row (Raised e) S
      | Blocked code ident \<Rightarrow>
          (update_session (sr_id row)
             (\<lambda>r. r\<lparr>sr_status := AuthStopped, sr_attempts := Suc (sr_attempts r), sr_content_id := Some (tr_content_id t),
                   sr_error := Some ''hub_authentication_blocked'', sr_auth_context := Some (auth_context sha t code ident)\<rparr>) S, Inr ())
      | Accepting \<Rightarrow>
          (update_session (sr_id row) (\<lambda>r. (retry_row now None r)\<lparr>sr_content_id := Some (tr_content_id t)\<rparr>) S, Inr ())
      | Answered receipt \<Rightarrow>
          (case receipt_matches sha t receipt of
             None \<Rightarrow>
               settle_fault str_of name_of now row (Raised (receipt_error sha t receipt)) S
           | Some status \<Rightarrow>
               (update_session (sr_id row)
                  (\<lambda>r. r\<lparr>sr_status := status, sr_content_id := Some (tr_content_id t), sr_receipt := Some (sort_keys receipt),
                        sr_error := None, sr_attempts := Suc (sr_attempts r)\<rparr>)
                  (S\<lparr>ob_receipts := put_file (sr_id row) receipt (ob_receipts S)\<rparr>), Inr ())))"

text \<open>The oldest key that is due; an uncaught exception rolls the rows back and leaves the files.\<close>

definition next_due :: "real \<Rightarrow> outbox \<Rightarrow> delivery_row option" where
  "next_due now S = find (\<lambda>r. sr_status r = Waiting \<and> sr_retry_at r \<le> now) (sort_key sr_id (ob_rows S))"

definition attempt_delivery ::
  "hash \<Rightarrow> (string \<Rightarrow> json result) \<Rightarrow> (py_error \<Rightarrow> string) \<Rightarrow> (py_error \<Rightarrow> string) \<Rightarrow> collection_tool \<Rightarrow> world \<Rightarrow> delivery_row \<Rightarrow>
   outbox \<Rightarrow> outbox \<times> unit result" where
  "attempt_delivery sha loads str_of name_of tool w row S =
     (case prepare_delivery sha loads tool w row S of
        (S1, Inl e) \<Rightarrow> settle_fault str_of name_of (wo_now w) row e S1
      | (S1, Inr (d, t)) \<Rightarrow>
          settle_answer sha str_of name_of (wo_now w) row t
            (wo_transport w d t (delivery_metadata S row tool)) S1)"

definition drain_one ::
  "hash \<Rightarrow> (string \<Rightarrow> json result) \<Rightarrow> (py_error \<Rightarrow> string) \<Rightarrow> (py_error \<Rightarrow> string) \<Rightarrow> collection_tool \<Rightarrow> world \<Rightarrow> outbox \<Rightarrow>
   outbox \<times> delivery_row option result" where
  "drain_one sha loads str_of name_of tool w S =
     (if ct_release tool \<noteq> ob_release S then (S, Inl (ValueError ''outbox/tool identity differs''))
      else
        (case next_due (wo_now w) S of
           None \<Rightarrow> (S, Inr None)
         | Some row \<Rightarrow>
             (case attempt_delivery sha loads str_of name_of tool w row S of
                (S', Inl e) \<Rightarrow> (S'\<lparr>ob_rows := ob_rows S\<rparr>, Inl e)
              | (S', Inr u) \<Rightarrow> (S', Inr (find (\<lambda>r. sr_id r = sr_id row) (ob_rows S'))))))"


section \<open>Rebuilding the summaries\<close>

definition identity_session :: "delivery_row \<Rightarrow> json option" where
  "identity_session r = map_of (fields_of (sr_identity r)) ''session_id''"

definition rebuild_one :: "(tree \<Rightarrow> verified result) \<Rightarrow> delivery_row \<Rightarrow> outbox \<times> nat \<times> nat \<Rightarrow> outbox \<times> nat \<times> nat" where
  "rebuild_one verify row st =
     (let (S, rebuilt, unavailable) = st; missing = (S, rebuilt, Suc unavailable) in
      case map_of (ob_bundles S) (sr_id row) of
        None \<Rightarrow> missing
      | Some d \<Rightarrow>
          (case verify d of
             Inl e \<Rightarrow> missing
           | Inr v \<Rightarrow>
               if identity_session row \<noteq> Some (JStr (vd_session v)) \<or>
                  (sr_content_id row \<noteq> None \<and> sr_content_id row \<noteq> Some (vd_content v))
               then missing
               else (update_session (sr_id row) (\<lambda>r. r\<lparr>sr_summary := Some (JObj (vd_summary v))\<rparr>) S, Suc rebuilt, unavailable)))"

definition rebuild_summaries :: "(tree \<Rightarrow> verified result) \<Rightarrow> json \<Rightarrow> json \<Rightarrow> outbox \<Rightarrow> (outbox \<times> nat \<times> nat) result" where
  "rebuild_summaries verify limit offset S =
     (case (limit, offset) of
        (JInt n, JInt k) \<Rightarrow>
          if \<not> (1 \<le> n \<and> n \<le> 100) \<or> k < 0 then Inl (ValueError ''invalid_delivery_page'')
          else Inr (fold (rebuild_one verify) (take (nat n) (drop (nat k) (rev (ob_rows S)))) (S, 0, 0))
      | _ \<Rightarrow> Inl (ValueError ''invalid_delivery_page''))"

section \<open>Recovery from an authentication block\<close>

text \<open>
  delivery\_recovery.py. The directory of archives is a tree of its own: the archive and the persisted
  upload attempt of each transfer manifest.
\<close>

record recovery_view =
  rc_source :: "string \<Rightarrow> tree option"
  rc_verify :: "tree \<Rightarrow> verified result"
  rc_archives :: tree

datatype rejection = Unavailable | Inconsistent | Mismatch | InvalidEvidence

definition reject_if :: "bool \<Rightarrow> rejection \<Rightarrow> (rejection + unit) result" where
  "reject_if c r = Inr (if c then Inl r else Inr ())"

definition and_check :: "(rejection + 'a) result \<Rightarrow> ('a \<Rightarrow> (rejection + 'b) result) \<Rightarrow> (rejection + 'b) result" where
  "and_check m f = and_then m (\<lambda>r. case r of Inl x \<Rightarrow> Inr (Inl x) | Inr y \<Rightarrow> f y)"

definition checked :: "'a result \<Rightarrow> (rejection + 'a) result" where
  "checked m = and_then m (\<lambda>x. Inr (Inr x))"

definition hex64 :: "string \<Rightarrow> bool" where
  "hex64 t \<longleftrightarrow> length t = 64 \<and> lower_hex t"

definition upload_name :: "string \<Rightarrow> bool" where
  "upload_name t \<longleftrightarrow> 1 \<le> length t \<and> length t \<le> 128 \<and> list_all (\<lambda>c. id_char c \<or> c = CHR ''_'' \<or> c = CHR ''-'') t"

text \<open>The typed block: its status, content, manifest and transport identity.\<close>

definition block_context :: "delivery_row \<Rightarrow> (string \<times> json) list option" where
  "block_context row =
     (case sr_auth_context row of
        Some (JObj kvs) \<Rightarrow>
          if sr_error row = Some ''hub_authentication_blocked'' \<and>
             map_of kvs ''schema'' = Some (JStr ''sts2.evidence/delivery-auth-block-1'') \<and>
             map_of kvs ''http_status'' \<in> {Some (JInt 401), Some (JInt 403)} \<and>
             (case map_of kvs ''transport'' of Some (JObj _) \<Rightarrow> True | _ \<Rightarrow> False)
          then Some kvs else None
      | _ \<Rightarrow> None)"

definition raw_tree :: "tree \<Rightarrow> tree option" where
  "raw_tree d =
     (let below = concat (map (\<lambda>(p, e). if has_prefix ''raw/'' p then [(drop 4 p, e)] else []) d) in
      if below = [] \<and> map_of d ''raw'' \<noteq> Some Folder then None else Some below)"

definition transport_fields :: "(string \<times> json) list \<Rightarrow> (string \<times> int \<times> string option) option" where
  "transport_fields kvs =
     (case (map_of kvs ''archive_sha256'', map_of kvs ''archive_bytes'') of
        (Some (JStr h), Some (JInt n)) \<Rightarrow>
          if \<not> hex64 h \<or> n \<le> 0 then None
          else
            (case map_of kvs ''upload_id'' of
               None \<Rightarrow> Some (h, n, None)
             | Some JNull \<Rightarrow> Some (h, n, None)
             | Some (JStr u) \<Rightarrow> if upload_name u then Some (h, n, Some u) else None
             | _ \<Rightarrow> None)
      | _ \<Rightarrow> None)"

definition archive_name :: "string \<Rightarrow> string" where
  "archive_name sha = sha @ ''.tar.gz''"

definition attempt_name :: "string \<Rightarrow> string" where
  "attempt_name sha = sha @ ''.upload.json''"

definition check_archive :: "hash \<Rightarrow> tree \<Rightarrow> string \<Rightarrow> string \<Rightarrow> int \<Rightarrow> (rejection + unit) result" where
  "check_archive sha archives name h n =
     (case map_of archives name of
        None \<Rightarrow> Inl OSError
      | Some (Link b) \<Rightarrow> Inr (Inl Mismatch)
      | Some Folder \<Rightarrow> Inr (Inl Mismatch)
      | Some (Regular b) \<Rightarrow> reject_if (int (length b) \<noteq> n \<or> sha b \<noteq> h) Mismatch)"

definition check_attempt ::
  "(string \<Rightarrow> json result) \<Rightarrow> tree \<Rightarrow> string \<Rightarrow> string \<Rightarrow> string option \<Rightarrow> (rejection + unit) result" where
  "check_attempt loads archives name h upload =
     (case upload of
        None \<Rightarrow> reject_if (map_of archives name \<noteq> None) Mismatch
      | Some u \<Rightarrow>
          if (case map_of archives name of Some (Link b) \<Rightarrow> True | _ \<Rightarrow> False) then Inr (Inl Mismatch)
          else
            and_then (read_json loads archives name) (\<lambda>kvs.
              reject_if (map_of kvs ''upload_id'' \<noteq> Some (JStr u) \<or> map_of kvs ''archive_sha256'' \<noteq> Some (JStr h)) Mismatch))"

definition check_metadata :: "outbox \<Rightarrow> delivery_row \<Rightarrow> (rejection + unit) result" where
  "check_metadata S row =
     (case map_of (ob_metadata S) (sr_id row) of
        None \<Rightarrow> Inl OSError
      | Some v \<Rightarrow>
          reject_if (get_field v ''schema'' \<noteq> JStr ''sts2.evidence/delivery-metadata-1'' \<or>
                     get_field v ''source_identity'' \<noteq> sr_identity row \<or>
                     list_ex (\<lambda>(name, value). get_field v name \<noteq> value)
                       (outbox_identity (ob_worker S) (ob_campaign S) (ob_release S))) Mismatch)"

definition check_transfer ::
  "hash \<Rightarrow> outbox \<Rightarrow> delivery_row \<Rightarrow> (string \<times> json) list \<Rightarrow> tree \<Rightarrow> verified \<Rightarrow> (rejection + transfer) result" where
  "check_transfer sha S row context d v =
     and_check (checked (from_directory sha (Some d) (vd_content v) human_bundle)) (\<lambda>t.
     and_check (case map_of (ob_transfers S) (sr_id row) of None \<Rightarrow> Inl OSError | Some doc \<Rightarrow> checked (read_transfer doc)) (\<lambda>previous.
     if previous \<noteq> t \<or> identity_session row \<noteq> Some (JStr (vd_session v)) \<or> sr_content_id row \<noteq> Some (tr_content_id t) \<or>
        map_of context ''content_id'' \<noteq> Some (JStr (tr_content_id t)) \<or>
        map_of context ''manifest_sha256'' \<noteq> Some (JStr (transfer_sha256 sha t))
     then Inr (Inl Mismatch)
     else
       and_check (checked (inventory sha (raw_tree d))) (\<lambda>files.
       if map_of (fields_of (sr_identity row)) ''raw_files'' \<noteq> Some (inventory_json files) then Inr (Inl Mismatch)
       else Inr (Inr t))))"

definition check_identity ::
  "hash \<Rightarrow> (string \<Rightarrow> json result) \<Rightarrow> recovery_view \<Rightarrow> outbox \<Rightarrow> delivery_row \<Rightarrow> (rejection + unit) result" where
  "check_identity sha loads w S row =
     (case block_context row of
        None \<Rightarrow> Inr (Inl Unavailable)
      | Some context \<Rightarrow>
          and_check (reject_if (sr_receipt row \<noteq> None \<or> map_of (ob_receipts S) (sr_id row) \<noteq> None) Inconsistent) (\<lambda>_.
          and_check (checked (session_identity sha loads (rc_source w (sr_source row)))) (\<lambda>ident.
          and_check (reject_if (sort_keys ident \<noteq> sr_identity row) Mismatch) (\<lambda>_.
          case map_of (ob_bundles S) (sr_id row) of
            None \<Rightarrow> Inr (Inl InvalidEvidence)
          | Some d \<Rightarrow>
              (case rc_verify w d of
                 Inl e \<Rightarrow> Inr (Inl InvalidEvidence)
               | Inr v \<Rightarrow>
                   and_check (check_transfer sha S row context d v) (\<lambda>t.
                   and_check (check_metadata S row) (\<lambda>_.
                   case map_of context ''transport'' of
                     Some (JObj kvs) \<Rightarrow>
                       (case transport_fields kvs of
                          None \<Rightarrow> Inr (Inl Unavailable)
                        | Some (h, n, upload) \<Rightarrow>
                            and_check (check_archive sha (rc_archives w) (archive_name (transfer_sha256 sha t)) h n) (\<lambda>_.
                            check_attempt loads (rc_archives w) (attempt_name (transfer_sha256 sha t)) h upload))
                   | _ \<Rightarrow> Inr (Inl Unavailable))))))))"

datatype resumption = Unchanged | Rejected | Resumed

definition resume_row ::
  "hash \<Rightarrow> (string \<Rightarrow> json result) \<Rightarrow> recovery_view \<Rightarrow> delivery_row \<Rightarrow> outbox \<times> (string \<times> resumption) list \<Rightarrow>
   (outbox \<times> (string \<times> resumption) list) result" where
  "resume_row sha loads w row st =
     (let (S, report) = st in
      if sr_status row \<noteq> AuthStopped then Inr (S, report @ [(sr_id row, Unchanged)])
      else
        (case check_identity sha loads w S row of
           Inl e \<Rightarrow>
             if e = OSError \<or> value_error e \<or> e = TypeError \<or> e = KeyError then Inr (S, report @ [(sr_id row, Rejected)]) else Inl e
         | Inr (Inl r) \<Rightarrow> Inr (S, report @ [(sr_id row, Rejected)])
         | Inr (Inr u) \<Rightarrow>
             Inr (update_session (sr_id row) (\<lambda>r. r\<lparr>sr_status := Waiting, sr_retry_at := 0, sr_error := None\<rparr>) S,
                  report @ [(sr_id row, Resumed)])))"

fun resume_rows ::
  "hash \<Rightarrow> (string \<Rightarrow> json result) \<Rightarrow> recovery_view \<Rightarrow> delivery_row list \<Rightarrow> outbox \<times> (string \<times> resumption) list \<Rightarrow>
   (outbox \<times> (string \<times> resumption) list) result" where
  "resume_rows sha loads w [] st = Inr st"
| "resume_rows sha loads w (row # rows) st = and_then (resume_row sha loads w row st) (resume_rows sha loads w rows)"

text \<open>The process lock is held: nothing else runs. Without a key every blocked row is examined.\<close>

definition resume_auth ::
  "hash \<Rightarrow> (string \<Rightarrow> json result) \<Rightarrow> recovery_view \<Rightarrow> string option \<Rightarrow> outbox \<Rightarrow> (outbox \<times> (string \<times> resumption) list) result" where
  "resume_auth sha loads w key S =
     (case key of
        None \<Rightarrow> resume_rows sha loads w (sort_key sr_id (filter (\<lambda>r. sr_status r = AuthStopped) (ob_rows S))) (S, [])
      | Some k \<Rightarrow>
          if \<not> hex64 k then Inl (ValueError ''invalid_delivery_id'')
          else resume_rows sha loads w (filter (\<lambda>r. sr_id r = k) (ob_rows S)) (S, []))"

end
