(* ===== verification/Deliveries.thy ===== *)
theory Deliveries
  imports Outbox
begin

text \<open>
  The histories of an outbox: enrolling, attempts, summary rebuilds, recoveries and changes of the
  files beside the database, in any order. Every operation keeps \<open>outbox\_ok\<close> and follows the
  order \<open>follows\<close>: no written transfer manifest, no content identity and no closed row changes.
\<close>

section \<open>What a transfer manifest stands for\<close>

definition stands_for :: "json \<Rightarrow> transfer \<Rightarrow> bool" where
  "stands_for doc t \<longleftrightarrow> doc = transfer_dict t \<or> read_transfer doc = Inr t"

definition same_content :: "transfer \<Rightarrow> transfer \<Rightarrow> bool" where
  "same_content t u \<longleftrightarrow>
     tr_content_id t = tr_content_id u \<and> tr_artifact_type t = tr_artifact_type u \<and>
     map (\<lambda>f. (tf_bytes f, tf_sha256 f)) (tr_files t) = map (\<lambda>f. (tf_bytes f, tf_sha256 f)) (tr_files u)"

lemma read_entry_dict:
  "read_file_entry kvs = Inr g \<Longrightarrow> transfer_file_dict f = JObj kvs \<Longrightarrow> tf_bytes g = tf_bytes f \<and> tf_sha256 g = tf_sha256 f"
  unfolding read_file_entry_def transfer_file_dict_def
  by (auto simp: transfer_int_def transfer_digest_def transfer_text_def returned split: if_splits)

lemma object_entries_dicts:
  "object_entries (map transfer_file_dict fs) = map (\<lambda>f. fields_of (transfer_file_dict f)) fs"
  unfolding object_entries_def by (induction fs) (simp_all add: transfer_file_dict_def fields_of_def)

lemma read_written:
  assumes "read_transfer (transfer_dict t) = Inr u"
  shows "same_content u t"
proof -
  from assms have u: "tr_content_id u = tr_content_id t" "tr_artifact_type u = tr_artifact_type t"
    and files: "each read_file_entry (object_entries (map transfer_file_dict (tr_files t))) = Inr (tr_files u)"
    unfolding read_transfer_def transfer_dict_def
    by (auto simp: returned transfer_text_def Let_def split: if_splits)
  have len: "length (tr_files u) = length (tr_files t)" using each_length [OF files] by (simp add: object_entries_dicts)
  have "tf_bytes (tr_files u ! i) = tf_bytes (tr_files t ! i) \<and> tf_sha256 (tr_files u ! i) = tf_sha256 (tr_files t ! i)"
    if i: "i < length (tr_files t)" for i
  proof (rule read_entry_dict)
    show "read_file_entry (fields_of (transfer_file_dict (tr_files t ! i))) = Inr (tr_files u ! i)"
      using files i by (simp add: each_eq_Inr object_entries_dicts)
    show "transfer_file_dict (tr_files t ! i) = JObj (fields_of (transfer_file_dict (tr_files t ! i)))"
      by (simp add: transfer_file_dict_def fields_of_def)
  qed
  then show ?thesis using u len by (auto simp: same_content_def list_eq_iff_nth_eq)
qed

lemma same_content_sym: "same_content t u \<Longrightarrow> same_content u t" by (auto simp: same_content_def)

lemma stands_for_one: "stands_for doc t \<Longrightarrow> read_transfer doc = Inr u \<Longrightarrow> same_content t u"
  using read_written same_content_sym by (auto simp: stands_for_def same_content_def)

section \<open>Invariant and order\<close>

definition closed_row :: "delivery_row \<Rightarrow> bool" where
  "closed_row r \<longleftrightarrow> sr_status r \<in> {Accepted, Refused, Incident}"

text \<open>A row with a content identity has a written transfer manifest of it; a settled one a receipt bound to it.\<close>

definition row_ok :: "hash \<Rightarrow> (string \<times> json) list \<Rightarrow> delivery_row \<Rightarrow> bool" where
  "row_ok sha written r \<longleftrightarrow>
     (\<forall>c. sr_content_id r = Some c \<longrightarrow> (\<exists>doc t. map_of written (sr_id r) = Some doc \<and> stands_for doc t \<and> tr_content_id t = c)) \<and>
     (sr_status r \<in> {Accepted, Refused} \<longrightarrow>
        (\<exists>doc t receipt. map_of written (sr_id r) = Some doc \<and> stands_for doc t \<and> sr_content_id r = Some (tr_content_id t) \<and>
           sr_receipt r = Some (sort_keys receipt) \<and> receipt_matches sha t receipt = Some (sr_status r)))"

definition outbox_ok :: "hash \<Rightarrow> outbox \<Rightarrow> bool" where
  "outbox_ok sha S \<longleftrightarrow> distinct (map sr_id (ob_rows S)) \<and> (\<forall>r \<in> set (ob_rows S). row_ok sha (ob_transfers S) r)"

definition row_follows :: "delivery_row \<Rightarrow> delivery_row \<Rightarrow> bool" where
  "row_follows r q \<longleftrightarrow>
     sr_id q = sr_id r \<and> sr_source q = sr_source r \<and> sr_identity q = sr_identity r \<and>
     (sr_content_id r \<noteq> None \<longrightarrow> sr_content_id q = sr_content_id r) \<and>
     (closed_row r \<longrightarrow> (\<exists>x. q = r\<lparr>sr_summary := x\<rparr>))"

definition follows :: "outbox \<Rightarrow> outbox \<Rightarrow> bool" where
  "follows S S' \<longleftrightarrow>
     (\<forall>r \<in> set (ob_rows S). \<exists>q \<in> set (ob_rows S'). row_follows r q) \<and>
     (\<forall>k doc. map_of (ob_transfers S) k = Some doc \<longrightarrow> map_of (ob_transfers S') k = Some doc)"

lemma same_row:
  "outbox_ok sha S \<Longrightarrow> r \<in> set (ob_rows S) \<Longrightarrow> q \<in> set (ob_rows S) \<Longrightarrow> sr_id r = sr_id q \<Longrightarrow> r = q"
  unfolding outbox_ok_def distinct_map by (blast dest: inj_onD)

lemma row_follows_refl: "row_follows r r"
  by (auto simp: row_follows_def intro: exI [of _ "sr_summary r"])

lemma row_follows_trans:
  assumes rq: "row_follows r q" and qp: "row_follows q p"
  shows "row_follows r p"
proof -
  have "\<exists>x. p = r\<lparr>sr_summary := x\<rparr>" if c: "closed_row r"
  proof -
    from rq c obtain x where q: "q = r\<lparr>sr_summary := x\<rparr>" by (auto simp: row_follows_def)
    with c have "closed_row q" by (simp add: closed_row_def)
    with qp obtain y where "p = q\<lparr>sr_summary := y\<rparr>" by (auto simp: row_follows_def)
    with q show ?thesis by (intro exI [of _ y]) simp
  qed
  with rq qp show ?thesis by (simp add: row_follows_def)
qed

lemma follows_refl [intro]: "follows S S"
  using row_follows_refl unfolding follows_def by blast

lemma follows_trans: "follows S S' \<Longrightarrow> follows S' S'' \<Longrightarrow> follows S S''"
  unfolding follows_def by (meson row_follows_trans)

lemma row_ok_mono:
  "row_ok sha written r \<Longrightarrow> (\<And>k doc. map_of written k = Some doc \<Longrightarrow> map_of written' k = Some doc) \<Longrightarrow> row_ok sha written' r"
  unfolding row_ok_def by (elim conjE, intro conjI) (fast, fast)

lemma update_session_ok:
  assumes ok: "outbox_ok sha S"
    and f: "\<And>r. r \<in> set (ob_rows S) \<Longrightarrow> sr_id r = key \<Longrightarrow> row_follows r (f r) \<and> row_ok sha (ob_transfers S) (f r)"
  shows "outbox_ok sha (update_session key f S)" and "follows S (update_session key f S)"
proof -
  let ?rows = "update_where (\<lambda>r. sr_id r = key) f (ob_rows S)"
  have "map sr_id ?rows = map sr_id (ob_rows S)"
    using f unfolding update_where_def row_follows_def by (simp add: comp_def)
  moreover have "row_ok sha (ob_transfers S) r" if "r \<in> set ?rows" for r
    using that ok f unfolding in_update_where outbox_ok_def by blast
  ultimately show "outbox_ok sha (update_session key f S)"
    using ok by (simp add: outbox_ok_def update_session_def)
  have "\<exists>q \<in> set ?rows. row_follows r q" if "r \<in> set (ob_rows S)" for r
  proof (cases "sr_id r = key")
    case True
    then have "f r \<in> set ?rows" using that by (auto simp: in_update_where)
    with f that True show ?thesis by blast
  next
    case False
    with that have "r \<in> set ?rows" by (auto simp: in_update_where)
    then show ?thesis using row_follows_refl by blast
  qed
  then show "follows S (update_session key f S)" by (simp add: follows_def update_session_def)
qed

text \<open>What is no row and no transfer manifest plays no part.\<close>

lemma outbox_ok_cong: "ob_rows S' = ob_rows S \<Longrightarrow> ob_transfers S' = ob_transfers S \<Longrightarrow> outbox_ok sha S' = outbox_ok sha S"
  by (simp add: outbox_ok_def)

lemma follows_cong: "ob_rows S' = ob_rows S \<Longrightarrow> ob_transfers S' = ob_transfers S \<Longrightarrow> follows S S'"
  using row_follows_refl unfolding follows_def by auto

section \<open>Enrolling\<close>

lemma enroll_child_ok:
  assumes "enroll_child sha loads str_of ch (S, n) = Inr (S', n')" and ok: "outbox_ok sha S"
  shows "outbox_ok sha S' \<and> follows S S'"
proof -
  let ?key = "delivery_key sha (ch_path ch)"
  have added: "outbox_ok sha (S\<lparr>ob_rows := ob_rows S @ [r]\<rparr>) \<and> follows S (S\<lparr>ob_rows := ob_rows S @ [r]\<rparr>)"
    if "find (\<lambda>r. sr_id r = ?key) (ob_rows S) = None" "sr_id r = ?key" "sr_content_id r = None" "sr_status r \<in> {Waiting, Incident}" for r
  proof -
    have "?key \<notin> sr_id ` set (ob_rows S)" using that(1) by (auto simp: find_None_iff)
    moreover have "row_ok sha (ob_transfers S) r" using that by (auto simp: row_ok_def)
    ultimately show ?thesis using ok that(2) row_follows_refl by (auto simp: outbox_ok_def follows_def)
  qed
  from assms(1) consider "S' = S"
    | r where "S' = S\<lparr>ob_rows := ob_rows S @ [r]\<rparr>" "find (\<lambda>r. sr_id r = ?key) (ob_rows S) = None" "sr_id r = ?key"
        "sr_content_id r = None" "sr_status r \<in> {Waiting, Incident}"
    unfolding enroll_child_def Let_def
    by (auto simp: new_row_def split: option.splits if_splits sum.splits)
  then show ?thesis using ok added by cases auto
qed

lemma enroll_all_ok:
  "enroll_all sha loads str_of chs (S, n) = Inr (S', n') \<Longrightarrow> outbox_ok sha S \<Longrightarrow> outbox_ok sha S' \<and> follows S S'"
proof (induction chs arbitrary: S n)
  case (Cons ch chs)
  from Cons.prems(1) obtain S1 n1 where one: "enroll_child sha loads str_of ch (S, n) = Inr (S1, n1)"
    and rest: "enroll_all sha loads str_of chs (S1, n1) = Inr (S', n')" by (auto simp: returned)
  from enroll_child_ok [OF one Cons.prems(2)] Cons.IH [OF rest] show ?case using follows_trans by blast
qed auto


section \<open>Attempts\<close>

lemma ensure_bundle_rows:
  "ensure_bundle key w S = (S', r) \<Longrightarrow> ob_rows S' = ob_rows S \<and> ob_transfers S' = ob_transfers S"
  unfolding ensure_bundle_def by (auto split: if_splits sum.splits prod.splits option.splits)

text \<open>The transfer manifest that was prepared is the written one.\<close>

lemma prepared_manifest:
  assumes "prepared row t (map_of written (sr_id row)) = Inr fresh"
  shows "\<exists>doc. map_of (if fresh then put_file (sr_id row) (transfer_dict t) written else written) (sr_id row) = Some doc \<and>
      stands_for doc t"
    and "sr_content_id row = None \<or> sr_content_id row = Some (tr_content_id t)"
    and "fresh \<Longrightarrow> map_of written (sr_id row) = None"
  using assms unfolding prepared_def stands_for_def put_file_def
  by (auto simp: returned split: if_splits option.splits)

definition kept :: "delivery_row \<Rightarrow> outbox \<Rightarrow> bool" where
  "kept row S \<longleftrightarrow> (\<forall>r \<in> set (ob_rows S). sr_id r = sr_id row \<longrightarrow> (\<exists>x. r = row\<lparr>sr_summary := x\<rparr>))"

lemma kept_row: "outbox_ok sha S \<Longrightarrow> row \<in> set (ob_rows S) \<Longrightarrow> kept row S"
  unfolding kept_def outbox_ok_def
  by (auto simp: distinct_map dest: inj_onD intro!: exI [of _ "sr_summary row"])

text \<open>Writing the manifest of a key that had none, and the summary of its row.\<close>

lemma write_transfer_ok:
  assumes ok: "outbox_ok sha S" and new: "map_of (ob_transfers S) key = None"
  shows "outbox_ok sha (S\<lparr>ob_transfers := put_file key doc (ob_transfers S)\<rparr>)"
    and "follows S (S\<lparr>ob_transfers := put_file key doc (ob_transfers S)\<rparr>)"
proof -
  have mono: "map_of (ob_transfers S) k = Some d \<Longrightarrow> map_of (put_file key doc (ob_transfers S)) k = Some d" for k d
    using new by (auto simp: put_file_def)
  have "row_ok sha (put_file key doc (ob_transfers S)) r" if "r \<in> set (ob_rows S)" for r
    using row_ok_mono [OF _ mono] that ok unfolding outbox_ok_def by blast
  with ok show "outbox_ok sha (S\<lparr>ob_transfers := put_file key doc (ob_transfers S)\<rparr>)" by (simp add: outbox_ok_def)
  from mono row_follows_refl show "follows S (S\<lparr>ob_transfers := put_file key doc (ob_transfers S)\<rparr>)"
    by (auto simp: follows_def)
qed

lemma summary_follows: "row_follows r (r\<lparr>sr_summary := x\<rparr>)"
  by (auto simp: row_follows_def)

lemma summary_ok: "row_ok sha written (r\<lparr>sr_summary := x\<rparr>) = row_ok sha written r"
  by (simp add: row_ok_def)

lemma summarize_ok:
  assumes "outbox_ok sha S"
  shows "outbox_ok sha (update_session key (\<lambda>r. r\<lparr>sr_summary := x\<rparr>) S)"
    and "follows S (update_session key (\<lambda>r. r\<lparr>sr_summary := x\<rparr>) S)"
proof -
  have "row_ok sha (ob_transfers S) r" if "r \<in> set (ob_rows S)" for r using assms that by (simp add: outbox_ok_def)
  then show "outbox_ok sha (update_session key (\<lambda>r. r\<lparr>sr_summary := x\<rparr>) S)"
    "follows S (update_session key (\<lambda>r. r\<lparr>sr_summary := x\<rparr>) S)"
    using update_session_ok [OF assms, of key "\<lambda>r. r\<lparr>sr_summary := x\<rparr>"] by (auto simp: summary_follows summary_ok)
qed

lemma kept_summary: "kept row S \<Longrightarrow> kept row (update_session (sr_id row) (\<lambda>r. r\<lparr>sr_summary := x\<rparr>) S)"
proof -
  assume kept: "kept row S"
  have "\<exists>y. r = row\<lparr>sr_summary := y\<rparr>"
    if r: "r \<in> set (update_where (\<lambda>r. sr_id r = sr_id row) (\<lambda>r. r\<lparr>sr_summary := x\<rparr>) (ob_rows S))" "sr_id r = sr_id row" for r
  proof -
    from r obtain q where q: "q \<in> set (ob_rows S)" "sr_id q = sr_id row" "r = q\<lparr>sr_summary := x\<rparr>"
      unfolding in_update_where by auto
    with kept obtain y where "q = row\<lparr>sr_summary := y\<rparr>" unfolding kept_def by blast
    with q(3) have "r = row\<lparr>sr_summary := x\<rparr>" by simp
    then show ?thesis by blast
  qed
  then show ?thesis unfolding kept_def update_session_def by simp
qed

lemma prepare_delivery_ok:
  assumes ran: "prepare_delivery sha loads tool w row S = (S', r)" and ok: "outbox_ok sha S" and row: "row \<in> set (ob_rows S)"
  shows "outbox_ok sha S' \<and> follows S S' \<and> kept row S' \<and>
    (\<forall>d t. r = Inr (d, t) \<longrightarrow>
       (\<exists>doc. map_of (ob_transfers S') (sr_id row) = Some doc \<and> stands_for doc t) \<and>
       (sr_content_id row = None \<or> sr_content_id row = Some (tr_content_id t)))"
proof -
  note kept = kept_row [OF ok row]
  obtain S1 e where bundled: "ensure_bundle (sr_id row) w S = (S1, e)" by (cases "ensure_bundle (sr_id row) w S")
  note same = ensure_bundle_rows [OF bundled]
  have S1: "outbox_ok sha S1" "follows S S1" "kept row S1"
    using same ok kept outbox_ok_cong [of S1 S] follows_cong [of S1 S] by (auto simp: kept_def)
  from ran consider "S' = S" "\<forall>x. r \<noteq> Inr x" | "S' = S1" "\<forall>x. r \<noteq> Inr x"
    | d t v fresh S2 where "locally_verified sha row w d S1 = Inr (t, v, fresh)" "r = Inr (d, t)"
      "S2 = (if fresh then S1\<lparr>ob_transfers := put_file (sr_id row) (transfer_dict t) (ob_transfers S1)\<rparr> else S1)"
      "ob_rows S' = ob_rows (update_session (sr_id row) (\<lambda>r. r\<lparr>sr_summary := Some (JObj (vd_summary v))\<rparr>) S2)"
      "ob_transfers S' = ob_transfers (update_session (sr_id row) (\<lambda>r. r\<lparr>sr_summary := Some (JObj (vd_summary v))\<rparr>) S2)"
  proof -
    assume cases: "\<lbrakk>S' = S; \<forall>x. r \<noteq> Inr x\<rbrakk> \<Longrightarrow> thesis" "\<lbrakk>S' = S1; \<forall>x. r \<noteq> Inr x\<rbrakk> \<Longrightarrow> thesis"
      "\<And>d t v fresh S2. \<lbrakk>locally_verified sha row w d S1 = Inr (t, v, fresh); r = Inr (d, t);
        S2 = (if fresh then S1\<lparr>ob_transfers := put_file (sr_id row) (transfer_dict t) (ob_transfers S1)\<rparr> else S1);
        ob_rows S' = ob_rows (update_session (sr_id row) (\<lambda>r. r\<lparr>sr_summary := Some (JObj (vd_summary v))\<rparr>) S2);
        ob_transfers S' = ob_transfers (update_session (sr_id row) (\<lambda>r. r\<lparr>sr_summary := Some (JObj (vd_summary v))\<rparr>) S2)\<rbrakk> \<Longrightarrow> thesis"
    show thesis
    proof (cases "unchanged sha loads (wo_before w) row ''sealed source changed after enrollment''")
      case (Inl a)
      with ran show thesis by (intro cases(1)) (auto simp: prepare_delivery_def Let_def)
    next
      case before: (Inr u)
      show thesis
      proof (cases e)
        case (Inl f)
        with ran before bundled show thesis by (intro cases(2)) (auto simp: prepare_delivery_def Let_def)
      next
        case e: (Inr v)
        show thesis
        proof (cases "unchanged sha loads (wo_after w) row ''sealed source changed during packing''")
          case (Inl a)
          with ran before bundled e show thesis by (intro cases(2)) (auto simp: prepare_delivery_def Let_def)
        next
          case after: (Inr u')
          show thesis
          proof (cases "map_of (ob_bundles S1) (sr_id row)")
            case None
            with ran before bundled e after show thesis by (intro cases(2)) (auto simp: prepare_delivery_def Let_def)
          next
            case d: (Some d)
            show thesis
            proof (cases "locally_verified sha row w d S1")
              case (Inl a)
              with ran before bundled e after d show thesis by (intro cases(2)) (auto simp: prepare_delivery_def Let_def)
            next
              case (Inr x)
              obtain t v fresh where x: "x = (t, v, fresh)" by (cases x)
              with Inr ran before bundled e after d show thesis
                by (intro cases(3) [OF Inr [unfolded x]]) (auto simp: prepare_delivery_def Let_def)
            qed
          qed
        qed
      qed
    qed
  qed
  then show ?thesis
  proof cases
    case 3
    from 3(1) have p: "prepared row t (map_of (ob_transfers S1) (sr_id row)) = Inr fresh"
      by (auto simp: locally_verified_def returned)
    note facts = prepared_manifest [OF p]
    have S2: "outbox_ok sha S2" "follows S1 S2" "kept row S2"
      using S1 facts(3) write_transfer_ok [OF S1(1)] unfolding 3(3) by (auto simp: kept_def)
    let ?S3 = "update_session (sr_id row) (\<lambda>r. r\<lparr>sr_summary := Some (JObj (vd_summary v))\<rparr>) S2"
    have "outbox_ok sha S'" using summarize_ok(1) [OF S2(1)] outbox_ok_cong [OF 3(4,5)] by blast
    moreover have "follows S S'"
      using S1(2) S2(2) summarize_ok(2) [OF S2(1)] follows_cong [OF 3(4,5)] by (blast intro: follows_trans)
    moreover have "kept row S'" using kept_summary [OF S2(3)] 3(4) by (simp add: kept_def)
    moreover have "ob_transfers S' = (if fresh then put_file (sr_id row) (transfer_dict t) (ob_transfers S1) else ob_transfers S1)"
      using 3(3,5) by (simp add: update_session_def)
    ultimately show ?thesis using facts(1,2) 3(2) by auto
  qed (use ok kept S1 in auto)
qed

lemma settle_row_ok:
  assumes ok: "outbox_ok sha S" and kept: "kept row S" and open_row: "\<not> closed_row row"
    and f: "\<And>x. let r = row\<lparr>sr_summary := x\<rparr> in
       sr_id (f r) = sr_id r \<and> sr_source (f r) = sr_source r \<and> sr_identity (f r) = sr_identity r \<and>
       (sr_content_id r \<noteq> None \<longrightarrow> sr_content_id (f r) = sr_content_id r) \<and> row_ok sha (ob_transfers S) (f r)"
  shows "outbox_ok sha (update_session (sr_id row) f S) \<and> follows S (update_session (sr_id row) f S)"
proof -
  have "row_follows r (f r) \<and> row_ok sha (ob_transfers S) (f r)" if "r \<in> set (ob_rows S)" "sr_id r = sr_id row" for r
  proof -
    from kept that obtain x where r: "r = row\<lparr>sr_summary := x\<rparr>" unfolding kept_def by blast
    with open_row have "\<not> closed_row r" by (simp add: closed_row_def)
    with f [of x] show ?thesis unfolding r Let_def row_follows_def by simp
  qed
  with update_session_ok [OF ok] show ?thesis by blast
qed

lemma settle_fault_ok:
  assumes ran: "settle_fault str_of name_of now row e S = (S', r)" and ok: "outbox_ok sha S" and kept: "kept row S"
    and open_row: "sr_status row = Waiting" and row_ok: "row_ok sha (ob_transfers S) row"
  shows "outbox_ok sha S' \<and> follows S S'"
proof -
  have o: "\<not> closed_row row" using open_row by (simp add: closed_row_def)
  have retry: "outbox_ok sha (update_session (sr_id row) (retry_row now p) S) \<and>
      follows S (update_session (sr_id row) (retry_row now p) S)" for p
    by (rule settle_row_ok [OF ok kept o]) (use row_ok open_row in \<open>simp add: row_ok_def retry_row_def\<close>)
  have incident: "outbox_ok sha (update_session (sr_id row) (incident_row p) T) \<and>
      follows S (update_session (sr_id row) (incident_row p) T)"
    if "ob_rows T = ob_rows S" "ob_transfers T = ob_transfers S" for p T
  proof -
    have "outbox_ok sha T" "kept row T" using ok kept that outbox_ok_cong [OF that] by (auto simp: kept_def)
    then have "outbox_ok sha (update_session (sr_id row) (incident_row p) T) \<and> follows T (update_session (sr_id row) (incident_row p) T)"
      by (rule settle_row_ok [OF _ _ o]) (use row_ok that in \<open>simp add: row_ok_def incident_row_def\<close>)
    with follows_cong [OF that] show ?thesis by (blast intro: follows_trans)
  qed
  from ran consider "S' = S" | p where "S' = update_session (sr_id row) (retry_row now p) S"
    | p T where "S' = update_session (sr_id row) (incident_row p) T" "ob_rows T = ob_rows S" "ob_transfers T = ob_transfers S"
    unfolding settle_fault_def by (auto split: fault.splits if_splits)
  then show ?thesis using ok retry incident by cases auto
qed

lemma receipt_status: "receipt_matches sha t receipt = Some status \<Longrightarrow> status = Accepted \<or> status = Refused"
  by (auto simp: receipt_matches_def settled_status_def split: json.splits if_splits)

lemma settle_answer_ok:
  assumes ran: "settle_answer sha str_of name_of now row t a S = (S', r)" and ok: "outbox_ok sha S" and kept: "kept row S"
    and open_row: "sr_status row = Waiting" and row_ok: "row_ok sha (ob_transfers S) row"
    and doc: "map_of (ob_transfers S) (sr_id row) = Some doc" "stands_for doc t"
    and content: "sr_content_id row = None \<or> sr_content_id row = Some (tr_content_id t)"
  shows "outbox_ok sha S' \<and> follows S S'"
proof -
  have o: "\<not> closed_row row" using open_row by (simp add: closed_row_def)
  show ?thesis
  proof (cases a)
    case (Blocked code ident)
    with ran have "S' = update_session (sr_id row)
      (\<lambda>r. r\<lparr>sr_status := AuthStopped, sr_attempts := Suc (sr_attempts r), sr_content_id := Some (tr_content_id t),
            sr_error := Some ''hub_authentication_blocked'', sr_auth_context := Some (auth_context sha t code ident)\<rparr>) S"
      by (simp add: settle_answer_def)
    then show ?thesis
      by (simp only:, intro settle_row_ok [OF ok kept o]) (use content doc in \<open>auto simp: row_ok_def Let_def\<close>)
  next
    case Accepting
    with ran have "S' = update_session (sr_id row) (\<lambda>r. (retry_row now None r)\<lparr>sr_content_id := Some (tr_content_id t)\<rparr>) S"
      by (simp add: settle_answer_def)
    then show ?thesis
      by (simp only:, intro settle_row_ok [OF ok kept o]) (use content doc open_row in \<open>auto simp: row_ok_def retry_row_def Let_def\<close>)
  next
    case (Broken e)
    with ran show ?thesis using settle_fault_ok [OF _ ok kept open_row row_ok] by (simp add: settle_answer_def)
  next
    case (Answered receipt)
    show ?thesis
    proof (cases "receipt_matches sha t receipt")
      case None
      with ran Answered show ?thesis using settle_fault_ok [OF _ ok kept open_row row_ok] by (simp add: settle_answer_def)
    next
      case (Some status)
      let ?T = "S\<lparr>ob_receipts := put_file (sr_id row) receipt (ob_receipts S)\<rparr>"
      from ran Answered Some have S': "S' = update_session (sr_id row)
        (\<lambda>r. r\<lparr>sr_status := status, sr_content_id := Some (tr_content_id t), sr_receipt := Some (sort_keys receipt),
              sr_error := None, sr_attempts := Suc (sr_attempts r)\<rparr>) ?T"
        by (simp add: settle_answer_def)
      have T: "outbox_ok sha ?T" "kept row ?T" "follows S ?T"
        using ok kept outbox_ok_cong [of ?T S] follows_cong [of ?T S] by (auto simp: kept_def)
      have "outbox_ok sha S' \<and> follows ?T S'"
        unfolding S' by (rule settle_row_ok [OF T(1,2) o])
          (use content doc receipt_status [OF Some] Some in \<open>auto simp: row_ok_def Let_def\<close>)
      with T(3) show ?thesis by (blast intro: follows_trans)
    qed
  qed
qed


lemma next_due_row: "next_due now S = Some row \<Longrightarrow> row \<in> set (ob_rows S) \<and> sr_status row = Waiting \<and> sr_retry_at row \<le> now"
  unfolding next_due_def by (auto simp: find_Some_iff) (metis nth_mem set_sort length_sort)+

lemma attempt_delivery_ok:
  assumes ran: "attempt_delivery sha loads str_of name_of tool w row S = (S', r)" and ok: "outbox_ok sha S"
    and row: "row \<in> set (ob_rows S)" "sr_status row = Waiting"
  shows "outbox_ok sha S' \<and> follows S S'"
proof -
  obtain S1 p where prep: "prepare_delivery sha loads tool w row S = (S1, p)" by (cases "prepare_delivery sha loads tool w row S")
  from prepare_delivery_ok [OF prep ok row(1)] have S1: "outbox_ok sha S1" "follows S S1" "kept row S1"
    and doc: "\<And>d t. p = Inr (d, t) \<Longrightarrow> (\<exists>doc. map_of (ob_transfers S1) (sr_id row) = Some doc \<and> stands_for doc t) \<and>
       (sr_content_id row = None \<or> sr_content_id row = Some (tr_content_id t))" by blast+
  have row_ok: "row_ok sha (ob_transfers S1) row"
    using ok row(1) S1(2) row_ok_mono [of sha "ob_transfers S" row "ob_transfers S1"] by (auto simp: outbox_ok_def follows_def)
  have "outbox_ok sha S' \<and> follows S1 S'"
  proof (cases p)
    case (Inl e)
    with ran prep have "settle_fault str_of name_of (wo_now w) row e S1 = (S', r)" by (simp add: attempt_delivery_def)
    then show ?thesis by (rule settle_fault_ok [OF _ S1(1,3) row(2) row_ok])
  next
    case (Inr x)
    obtain d t where x: "x = (d, t)" by (cases x)
    with Inr doc obtain dc where dc: "map_of (ob_transfers S1) (sr_id row) = Some dc" "stands_for dc t"
      "sr_content_id row = None \<or> sr_content_id row = Some (tr_content_id t)" by blast
    from ran prep Inr x have "settle_answer sha str_of name_of (wo_now w) row t (wo_transport w d t (delivery_metadata S row tool)) S1 = (S', r)"
      by (simp add: attempt_delivery_def)
    then show ?thesis by (rule settle_answer_ok [OF _ S1(1,3) row(2) row_ok dc])
  qed
  with S1(2) show ?thesis using follows_trans by blast
qed

lemma drain_one_ok:
  assumes ran: "drain_one sha loads str_of name_of tool w S = (S', r)" and ok: "outbox_ok sha S"
  shows "outbox_ok sha S' \<and> follows S S'"
proof (cases "ct_release tool \<noteq> ob_release S \<or> next_due (wo_now w) S = None")
  case True
  with ran ok show ?thesis by (auto simp: drain_one_def split: if_splits)
next
  case False
  then obtain row where row: "next_due (wo_now w) S = Some row" by blast
  obtain S1 q where att: "attempt_delivery sha loads str_of name_of tool w row S = (S1, q)"
    by (cases "attempt_delivery sha loads str_of name_of tool w row S")
  have S1: "outbox_ok sha S1 \<and> follows S S1" using attempt_delivery_ok [OF att ok] next_due_row [OF row] by blast
  show ?thesis
  proof (cases q)
    case (Inl e)
    with ran False row att have S': "S' = S1\<lparr>ob_rows := ob_rows S\<rparr>" by (auto simp: drain_one_def)
    from S1 have mono: "map_of (ob_transfers S) k = Some d \<Longrightarrow> map_of (ob_transfers S1) k = Some d" for k d
      by (simp add: follows_def)
    have "row_ok sha (ob_transfers S1) r" if "r \<in> set (ob_rows S)" for r
      using row_ok_mono [OF _ mono] that ok unfolding outbox_ok_def by blast
    with ok mono row_follows_refl show ?thesis unfolding S' by (auto simp: outbox_ok_def follows_def)
  next
    case (Inr u)
    with ran False row att have "S' = S1" by (auto simp: drain_one_def)
    with S1 show ?thesis by simp
  qed
qed

section \<open>Summaries and recoveries\<close>

lemma rebuild_fold_ok:
  "fold (rebuild_one verify) rows (S, a, b) = (S', c, d) \<Longrightarrow> outbox_ok sha S \<Longrightarrow> outbox_ok sha S' \<and> follows S S'"
proof (induction rows arbitrary: S a b)
  case (Cons row rows)
  obtain S1 a1 b1 where one: "rebuild_one verify row (S, a, b) = (S1, a1, b1)" by (cases "rebuild_one verify row (S, a, b)")
  then have "S1 = S \<or> (\<exists>x. S1 = update_session (sr_id row) (\<lambda>r. r\<lparr>sr_summary := x\<rparr>) S)"
    unfolding rebuild_one_def Let_def by (auto split: option.splits sum.splits if_splits)
  then have "outbox_ok sha S1 \<and> follows S S1" using Cons.prems(2) summarize_ok by blast
  moreover from this Cons.IH [of S1 a1 b1] Cons.prems(1) one have "outbox_ok sha S' \<and> follows S1 S'" by simp
  ultimately show ?case using follows_trans by blast
qed auto

lemma rebuild_summaries_ok:
  "rebuild_summaries verify limit offset S = Inr (S', n, k) \<Longrightarrow> outbox_ok sha S \<Longrightarrow> outbox_ok sha S' \<and> follows S S'"
  unfolding rebuild_summaries_def by (auto split: json.splits if_splits dest: rebuild_fold_ok)

text \<open>Only a blocked row is resumed, and nothing but its status, retry time and error changes.\<close>

lemma resume_row_ok:
  assumes ran: "resume_row sha loads w row (S, rep) = Inr (S', rep')" and ok: "outbox_ok sha S"
    and row: "sr_status row = AuthStopped \<Longrightarrow> \<exists>r \<in> set (ob_rows S). sr_id r = sr_id row \<and> sr_status r = AuthStopped"
  shows "outbox_ok sha S' \<and> follows S S' \<and>
    (\<forall>r \<in> set (ob_rows S). sr_id r \<noteq> sr_id row \<longrightarrow> r \<in> set (ob_rows S'))"
proof -
  let ?f = "\<lambda>r. r\<lparr>sr_status := Waiting, sr_retry_at := 0, sr_error := None\<rparr>"
  from ran consider "S' = S" | "S' = update_session (sr_id row) ?f S" "sr_status row = AuthStopped"
    unfolding resume_row_def Let_def by (auto split: if_splits sum.splits)
  then show ?thesis
  proof cases
    case 2
    from row [OF 2(2)] obtain q where q: "q \<in> set (ob_rows S)" "sr_id q = sr_id row" "sr_status q = AuthStopped" by blast
    have "row_follows r (?f r) \<and> row_ok sha (ob_transfers S) (?f r)" if r: "r \<in> set (ob_rows S)" "sr_id r = sr_id row" for r
    proof -
      have "r = q" using same_row [OF ok r(1) q(1)] r(2) q(2) by simp
      moreover have "row_ok sha (ob_transfers S) q" using ok q(1) by (simp add: outbox_ok_def)
      ultimately show ?thesis using q(3) by (auto simp: row_follows_def row_ok_def closed_row_def)
    qed
    from update_session_ok [OF ok this, of "sr_id row"] show ?thesis unfolding 2(1)
      by (auto simp: update_session_def in_update_where)
  qed (use ok in auto)
qed

lemma resume_rows_ok:
  "\<lbrakk>resume_rows sha loads w rows (S, rep) = Inr (S', rep'); outbox_ok sha S; distinct (map sr_id rows);
    \<And>row. row \<in> set rows \<Longrightarrow> sr_status row = AuthStopped \<Longrightarrow> \<exists>r \<in> set (ob_rows S). sr_id r = sr_id row \<and> sr_status r = AuthStopped\<rbrakk>
   \<Longrightarrow> outbox_ok sha S' \<and> follows S S'"
proof (induction rows arbitrary: S rep)
  case (Cons row rows)
  from Cons.prems(1) obtain S1 rep1 where one: "resume_row sha loads w row (S, rep) = Inr (S1, rep1)"
    and rest: "resume_rows sha loads w rows (S1, rep1) = Inr (S', rep')" by (auto simp: returned)
  have first: "outbox_ok sha S1 \<and> follows S S1 \<and> (\<forall>r \<in> set (ob_rows S). sr_id r \<noteq> sr_id row \<longrightarrow> r \<in> set (ob_rows S1))"
    by (rule resume_row_ok [OF one Cons.prems(2)]) (use Cons.prems(4) in simp)
  have "outbox_ok sha S' \<and> follows S1 S'"
  proof (rule Cons.IH [OF rest])
    fix q assume q: "q \<in> set rows" "sr_status q = AuthStopped"
    then obtain r where r: "r \<in> set (ob_rows S)" "sr_id r = sr_id q" "sr_status r = AuthStopped" using Cons.prems(4) by fastforce
    moreover have "sr_id q \<noteq> sr_id row" using imageI [OF q(1), of sr_id] Cons.prems(3) by auto
    ultimately show "\<exists>r \<in> set (ob_rows S1). sr_id r = sr_id q \<and> sr_status r = AuthStopped" using first by auto
  qed (use first Cons.prems(3) in simp_all)
  with first show ?case using follows_trans by blast
qed auto

lemma resume_auth_ok:
  assumes ran: "resume_auth sha loads w key S = Inr (S', rep)" and ok: "outbox_ok sha S"
  shows "outbox_ok sha S' \<and> follows S S'"
proof -
  have dist: "distinct (map sr_id (filter P (ob_rows S)))" for P using ok by (simp add: outbox_ok_def distinct_map_filter)
  have sorted: "distinct (map sr_id (sort_key sr_id (filter P (ob_rows S))))" for P
    using dist [of P] by (simp add: distinct_map)
  show ?thesis
  proof (cases key)
    case None
    with ran have "resume_rows sha loads w (sort_key sr_id (filter (\<lambda>r. sr_status r = AuthStopped) (ob_rows S))) (S, []) = Inr (S', rep)"
      by (simp add: resume_auth_def)
    then show ?thesis by (rule resume_rows_ok [OF _ ok sorted]) auto
  next
    case (Some k)
    with ran have "resume_rows sha loads w (filter (\<lambda>r. sr_id r = k) (ob_rows S)) (S, []) = Inr (S', rep)"
      by (simp add: resume_auth_def split: if_splits)
    then show ?thesis by (rule resume_rows_ok [OF _ ok dist]) auto
  qed
qed

section \<open>Histories\<close>

text \<open>\<open>elsewhere\<close>: anything may happen to the files that are neither the database nor the transfer manifests.\<close>

inductive delivery_step :: "hash \<Rightarrow> (string \<Rightarrow> json result) \<Rightarrow> outbox \<Rightarrow> outbox \<Rightarrow> bool" for sha loads where
  enrolled: "reconcile sha loads str_of inside listing S = Inr (S', n) \<Longrightarrow> delivery_step sha loads S S'"
| attempted: "drain_one sha loads str_of name_of tool w S = (S', r) \<Longrightarrow> delivery_step sha loads S S'"
| rebuilt: "rebuild_summaries verify limit offset S = Inr (S', n, k) \<Longrightarrow> delivery_step sha loads S S'"
| resumed: "resume_auth sha loads view key S = Inr (S', report) \<Longrightarrow> delivery_step sha loads S S'"
| elsewhere: "ob_rows S' = ob_rows S \<Longrightarrow> ob_transfers S' = ob_transfers S \<Longrightarrow> delivery_step sha loads S S'"

lemma delivery_step_ok: "delivery_step sha loads S S' \<Longrightarrow> outbox_ok sha S \<Longrightarrow> outbox_ok sha S' \<and> follows S S'"
proof (induction rule: delivery_step.induct)
  case (enrolled str_of inside listing S S' n)
  then show ?case unfolding reconcile_def by (auto split: if_splits option.splits dest: enroll_all_ok)
next
  case (attempted str_of name_of tool w S S' r)
  then show ?case by (rule drain_one_ok)
next
  case (rebuilt verify limit offset S S' n k)
  then show ?case by (rule rebuild_summaries_ok)
next
  case (resumed view key S S' report)
  then show ?case by (rule resume_auth_ok)
next
  case (elsewhere S' S)
  then show ?case using outbox_ok_cong follows_cong by blast
qed

lemma delivery_steps_ok: "(delivery_step sha loads)\<^sup>*\<^sup>* S S' \<Longrightarrow> outbox_ok sha S \<Longrightarrow> outbox_ok sha S' \<and> follows S S'"
proof (induction rule: rtranclp_induct)
  case (step S' S'')
  with delivery_step_ok [OF step.hyps(2)] show ?case using follows_trans by blast
qed auto

definition new_outbox :: "string \<Rightarrow> string \<Rightarrow> string \<Rightarrow> outbox" where
  "new_outbox worker campaign release =
     \<lparr>ob_worker = worker, ob_campaign = campaign, ob_release = release, ob_config = None, ob_rows = [], ob_bundles = [],
      ob_transfers = [], ob_metadata = [], ob_receipts = [], ob_incidents = []\<rparr>"

lemma new_outbox_ok: "outbox_ok sha (new_outbox worker campaign release)"
  by (simp add: outbox_ok_def new_outbox_def)

text \<open>The attempt on \<open>S\<close> hands the transfer \<open>t\<close> of the session \<open>key\<close> to the transport.\<close>

definition hands_over :: "hash \<Rightarrow> (string \<Rightarrow> json result) \<Rightarrow> collection_tool \<Rightarrow> world \<Rightarrow> outbox \<Rightarrow> string \<Rightarrow> transfer \<Rightarrow> bool" where
  "hands_over sha loads tool w S key t \<longleftrightarrow>
     ct_release tool = ob_release S \<and>
     (case next_due (wo_now w) S of
        None \<Rightarrow> False
      | Some row \<Rightarrow>
          sr_id row = key \<and>
          (case prepare_delivery sha loads tool w row S of (S1, Inr (d, u)) \<Rightarrow> u = t | _ \<Rightarrow> False))"

lemma ensure_bundle_transfers:
  "prepare_delivery sha loads tool w row S = (S1, Inr (d, t)) \<Longrightarrow> map_of (ob_transfers S) (sr_id row) = Some doc \<Longrightarrow>
   read_transfer doc = Inr t"
  unfolding prepare_delivery_def Let_def
  by (auto simp: locally_verified_def returned prepared_def dest!: ensure_bundle_rows
      split: sum.splits option.splits prod.splits if_splits)

lemma handed_over_written:
  assumes over: "hands_over sha loads tool w S key t" and ran: "drain_one sha loads str_of name_of tool w S = (S', r)"
    and ok: "outbox_ok sha S"
  shows "\<exists>doc. map_of (ob_transfers S') key = Some doc \<and> stands_for doc t"
proof -
  from over obtain row S1 d where row: "next_due (wo_now w) S = Some row" "sr_id row = key"
    and prep: "prepare_delivery sha loads tool w row S = (S1, Inr (d, t))" and tool: "ct_release tool = ob_release S"
    by (auto simp: hands_over_def split: option.splits prod.splits sum.splits)
  note due = next_due_row [OF row(1)]
  from prepare_delivery_ok [OF prep ok] due obtain doc where doc: "map_of (ob_transfers S1) key = Some doc" "stands_for doc t"
    and S1: "outbox_ok sha S1" "kept row S1" using row(2) by blast
  obtain S2 q where settle: "settle_answer sha str_of name_of (wo_now w) row t
      (wo_transport w d t (delivery_metadata S row tool)) S1 = (S2, q)"
    by (cases "settle_answer sha str_of name_of (wo_now w) row t (wo_transport w d t (delivery_metadata S row tool)) S1")
  have "ob_transfers S2 = ob_transfers S1"
    using settle unfolding settle_answer_def settle_fault_def update_session_def
    by (auto split: transport_answer.splits fault.splits option.splits if_splits)
  moreover have "ob_transfers S' = ob_transfers S2"
    using ran tool row(1) prep settle by (auto simp: drain_one_def attempt_delivery_def split: sum.splits)
  ultimately show ?thesis using doc by auto
qed


section \<open>What settles a row\<close>

text \<open>An update of the row of one key, whatever it does.\<close>

definition only_row :: "string \<Rightarrow> outbox \<Rightarrow> outbox \<Rightarrow> bool" where
  "only_row key S S' \<longleftrightarrow> (\<forall>q \<in> set (ob_rows S'). sr_id q \<noteq> key \<longrightarrow> q \<in> set (ob_rows S))"

lemma only_row_update: "(\<And>r. sr_id (f r) = sr_id r) \<Longrightarrow> only_row key S (update_session key f S)"
  unfolding only_row_def update_session_def by (auto simp: in_update_where)

lemma only_row_same: "ob_rows S' = ob_rows S \<Longrightarrow> only_row key S S'"
  by (simp add: only_row_def)

lemma only_row_trans: "only_row key S S' \<Longrightarrow> only_row key S' S'' \<Longrightarrow> only_row key S S''"
  unfolding only_row_def by blast

lemma prepare_only_row:
  assumes "prepare_delivery sha loads tool w row S = (S', r)"
  shows "only_row (sr_id row) S S'"
proof -
  obtain S1 e where bundled: "ensure_bundle (sr_id row) w S = (S1, e)" by (cases "ensure_bundle (sr_id row) w S")
  have "ob_rows S' = ob_rows S \<or> (\<exists>x. ob_rows S' = ob_rows (update_session (sr_id row) (\<lambda>r. r\<lparr>sr_summary := x\<rparr>) S))"
    using assms ensure_bundle_rows [OF bundled] unfolding prepare_delivery_def Let_def bundled prod.case update_session_def
    by (auto split: sum.splits option.splits prod.splits if_splits)
  then show ?thesis using only_row_update [of "\<lambda>r. r\<lparr>sr_summary := x\<rparr>" for x] by (auto simp: only_row_def)
qed

lemma settle_fault_rows:
  assumes "settle_fault str_of name_of now row e S = (S', r)"
  shows "only_row (sr_id row) S S'" and "kept row S \<Longrightarrow> sr_status row = Waiting \<Longrightarrow> q \<in> set (ob_rows S') \<Longrightarrow> sr_id q = sr_id row \<Longrightarrow>
    sr_status q \<in> {Waiting, Incident}"
proof -
  from assms consider "ob_rows S' = ob_rows S" | p where "ob_rows S' = ob_rows (update_session (sr_id row) (retry_row now p) S)"
    | p where "ob_rows S' = ob_rows (update_session (sr_id row) (incident_row p) S)"
    unfolding settle_fault_def by (auto simp: update_session_def split: fault.splits if_splits)
  then have "only_row (sr_id row) S S' \<and> (kept row S \<longrightarrow> sr_status row = Waiting \<longrightarrow> (\<forall>q \<in> set (ob_rows S'). sr_id q = sr_id row \<longrightarrow>
      sr_status q \<in> {Waiting, Incident}))"
  proof cases
    case 1
    then show ?thesis by (auto simp: only_row_def kept_def)
  next
    case (2 p)
    then show ?thesis by (auto simp: only_row_def update_session_def in_update_where kept_def retry_row_def) force
  next
    case (3 p)
    then show ?thesis by (auto simp: only_row_def update_session_def in_update_where kept_def incident_row_def)
  qed
  then show "only_row (sr_id row) S S'" and "kept row S \<Longrightarrow> sr_status row = Waiting \<Longrightarrow> q \<in> set (ob_rows S') \<Longrightarrow> sr_id q = sr_id row \<Longrightarrow>
    sr_status q \<in> {Waiting, Incident}" by blast+
qed

lemma touched:
  assumes "ob_rows S2 = ob_rows (update_session (sr_id row) f S1)" and "\<And>r. sr_id (f r) = sr_id r"
    and "only_row (sr_id row) S S1" and "kept row S1" and q: "q \<in> set (ob_rows S2)" "q \<notin> set (ob_rows S)"
  shows "\<exists>y. q = f (row\<lparr>sr_summary := y\<rparr>)"
proof -
  from assms(1) q(1) consider "q \<in> set (ob_rows S1)" "sr_id q \<noteq> sr_id row" | r where "r \<in> set (ob_rows S1)" "sr_id r = sr_id row" "q = f r"
    by (auto simp: update_session_def in_update_where)
  then show ?thesis
  proof cases
    case 1
    with assms(3) q(2) show ?thesis by (simp add: only_row_def)
  next
    case (2 r)
    with assms(4) show ?thesis unfolding kept_def by blast
  qed
qed

text \<open>A row becomes settled only by the transport's own answer, a matching receipt.\<close>

lemma settled_by_receipt:
  assumes ran: "drain_one sha loads str_of name_of tool w S = (S', r)" and ok: "outbox_ok sha S"
    and before: "row0 \<in> set (ob_rows S)" "sr_status row0 = Waiting"
    and after: "q \<in> set (ob_rows S')" "sr_id q = sr_id row0" "sr_status q \<in> {Accepted, Refused}"
  shows "\<exists>d t metadata receipt. wo_transport w d t metadata = Answered receipt \<and>
    receipt_matches sha t receipt = Some (sr_status q) \<and> sr_receipt q = Some (sort_keys receipt)"
proof -
  have old: False if "q \<in> set (ob_rows S)"
    using same_row [OF ok that before(1) after(2)] before(2) after(3) by auto
  have "ct_release tool = ob_release S \<and> next_due (wo_now w) S \<noteq> None"
    using ran after(1) old by (auto simp: drain_one_def split: if_splits option.splits)
  then obtain row where tool: "ct_release tool = ob_release S" and row: "next_due (wo_now w) S = Some row" by blast
  note due = next_due_row [OF row]
  obtain S2 p where att: "attempt_delivery sha loads str_of name_of tool w row S = (S2, p)"
    by (cases "attempt_delivery sha loads str_of name_of tool w row S")
  have S2: "S' = S2" using ran tool row att after(1) old by (auto simp: drain_one_def split: sum.splits)
  obtain S1 g where prep: "prepare_delivery sha loads tool w row S = (S1, g)" by (cases "prepare_delivery sha loads tool w row S")
  have kept: "kept row S1" using prepare_delivery_ok [OF prep ok] due by blast
  note first = prepare_only_row [OF prep]
  have fault: False if "settle_fault str_of name_of (wo_now w) row e S1 = (S2, p)" for e
  proof (cases "sr_id q = sr_id row")
    case True
    from settle_fault_rows(2) [OF that kept, of q] due after(1,3) True S2 show False by auto
  next
    case False
    from only_row_trans [OF first settle_fault_rows(1) [OF that]] False after(1) S2 old show False by (auto simp: only_row_def)
  qed
  show ?thesis
  proof (cases g)
    case (Inl e)
    with att prep have "settle_fault str_of name_of (wo_now w) row e S1 = (S2, p)" by (simp add: attempt_delivery_def)
    then show ?thesis using fault by blast
  next
    case (Inr x)
    obtain d t where x: "x = (d, t)" by (cases x)
    let ?a = "wo_transport w d t (delivery_metadata S row tool)"
    have settle: "settle_answer sha str_of name_of (wo_now w) row t ?a S1 = (S2, p)"
      using att prep Inr x by (simp add: attempt_delivery_def)
    have q: "q \<in> set (ob_rows S2)" "q \<notin> set (ob_rows S)" using after(1) S2 old by auto
    show ?thesis
    proof (cases ?a)
      case (Blocked code ident)
      with settle have "ob_rows S2 = ob_rows (update_session (sr_id row)
          (\<lambda>r. r\<lparr>sr_status := AuthStopped, sr_attempts := Suc (sr_attempts r), sr_content_id := Some (tr_content_id t),
            sr_error := Some ''hub_authentication_blocked'', sr_auth_context := Some (auth_context sha t code ident)\<rparr>) S1)"
        by (auto simp: settle_answer_def)
      from touched [OF this _ first kept q] after(3) show ?thesis by auto
    next
      case Accepting
      with settle have "ob_rows S2 = ob_rows (update_session (sr_id row)
          (\<lambda>r. (retry_row (wo_now w) None r)\<lparr>sr_content_id := Some (tr_content_id t)\<rparr>) S1)"
        by (auto simp: settle_answer_def)
      from touched [OF this _ first kept q] after(3) due show ?thesis by (auto simp: retry_row_def)
    next
      case (Broken e)
      with settle have "settle_fault str_of name_of (wo_now w) row (Raised e) S1 = (S2, p)" by (simp add: settle_answer_def)
      then show ?thesis using fault by blast
    next
      case (Answered receipt)
      show ?thesis
      proof (cases "receipt_matches sha t receipt")
        case None
        with settle Answered have "settle_fault str_of name_of (wo_now w) row
          (Raised (receipt_error sha t receipt)) S1 = (S2, p)"
          by (simp add: settle_answer_def)
        then show ?thesis using fault by blast
      next
        case (Some status)
        with settle Answered have "ob_rows S2 = ob_rows (update_session (sr_id row)
          (\<lambda>r. r\<lparr>sr_status := status, sr_content_id := Some (tr_content_id t), sr_receipt := Some (sort_keys receipt),
              sr_error := None, sr_attempts := Suc (sr_attempts r)\<rparr>) S1)"
          by (auto simp: settle_answer_def update_session_def)
        from touched [OF this _ first kept q] have "sr_status q = status" "sr_receipt q = Some (sort_keys receipt)" by auto
        with Answered Some show ?thesis by blast
      qed
    qed
  qed
qed


text \<open>And a matching receipt for what was handed over settles the row.\<close>

lemma matching_receipt_settles:
  assumes over: "hands_over sha loads tool w S key t" and ran: "drain_one sha loads str_of name_of tool w S = (S', r)"
    and ok: "outbox_ok sha S" and answer: "\<And>d metadata. wo_transport w d t metadata = Answered receipt"
    and good: "receipt_matches sha t receipt = Some status"
  shows "\<exists>q \<in> set (ob_rows S'). sr_id q = key \<and> sr_status q = status \<and> sr_receipt q = Some (sort_keys receipt)"
proof -
  from over obtain row S1 d where row: "next_due (wo_now w) S = Some row" "sr_id row = key"
    and prep: "prepare_delivery sha loads tool w row S = (S1, Inr (d, t))" and tool: "ct_release tool = ob_release S"
    by (auto simp: hands_over_def split: option.splits prod.splits sum.splits)
  note due = next_due_row [OF row(1)]
  from prepare_delivery_ok [OF prep ok] due obtain q where q: "q \<in> set (ob_rows S1)" "row_follows row q"
    unfolding follows_def by blast
  let ?f = "\<lambda>r. r\<lparr>sr_status := status, sr_content_id := Some (tr_content_id t), sr_receipt := Some (sort_keys receipt),
                   sr_error := None, sr_attempts := Suc (sr_attempts r)\<rparr>"
  have "S' = update_session key ?f (S1\<lparr>ob_receipts := put_file key receipt (ob_receipts S1)\<rparr>)"
    using ran tool row prep answer good by (simp add: drain_one_def attempt_delivery_def settle_answer_def)
  moreover have "sr_id q = key" using q(2) row(2) by (simp add: row_follows_def)
  ultimately have "?f q \<in> set (ob_rows S')"
    using q(1) by (auto simp: update_session_def in_update_where)
  with \<open>sr_id q = key\<close> show ?thesis by (intro bexI [of _ "?f q"]) simp_all
qed

end
