(* ===== verification/HubTransport.thy ===== *)
theory HubTransport
  imports Outbox PyText
begin

text \<open>
  components/evidence/sts2\_platform\_evidence/delivery\_http.py: the transport that carries a bundle to
  the Hub. The Hub and the object store are a function from the requests made so far to the reply to the
  last of them; \<open>urlsplit\<close> and the gzip and tar writers are arguments, and \<open>disk\<close> says whether the
  upload file can be written after the requests made so far. The requests of one call are recorded in
  order. An exception is a \<open>transport\_answer\<close> of the outbox's model.
\<close>

section \<open>Requests and replies\<close>

datatype hub_request =
    GetUpload string
  | PostIntent json
  | CompleteUpload string
  | PutArchive string "(string \<times> string) list" string

datatype hub_reply = HttpError int | Unreachable | Unreadable | Body "(string \<times> json) list"

record endpoint =
  ep_scheme :: string
  ep_host :: "string option"
  ep_user :: "string option"
  ep_password :: "string option"
  ep_fragment :: string

record http_config =
  hc_split :: "string \<Rightarrow> endpoint result"
  hc_hosts :: "string list"
  hc_loopback :: bool
  hc_max_archive :: int
  hc_now :: string

text \<open>The upload file of one transfer manifest, which only \<open>observe\<close> writes.\<close>

record upload_note =
  un_upload_id :: string
  un_archive :: string
  un_bytes :: int
  un_status :: json
  un_observed :: string

record courier =
  cu_archives :: "(string \<times> string) list"
  cu_note :: "upload_note option"
  cu_held :: "string option"
  cu_trace :: "hub_request list"

definition given :: "string option \<Rightarrow> bool" where
  "given x \<longleftrightarrow> x \<noteq> None \<and> x \<noteq> Some []"

definition loopback_hosts :: "string list" where
  "loopback_hosts = [''127.0.0.1'', ''localhost'', ''::1'']"

definition trusted_endpoint :: "http_config \<Rightarrow> bool \<Rightarrow> endpoint \<Rightarrow> bool" where
  "trusted_endpoint C upload ep \<longleftrightarrow>
     (ep_scheme ep = ''https'' \<or> (hc_loopback C \<and> ep_scheme ep = ''http'' \<and> (\<exists>h \<in> set loopback_hosts. ep_host ep = Some h))) \<and>
     given (ep_host ep) \<and> \<not> given (ep_user ep) \<and> \<not> given (ep_password ep) \<and> ep_fragment ep = [] \<and>
     (upload \<longrightarrow> (\<exists>h \<in> set (hc_hosts C). ep_host ep = Some h))"

definition validate_url :: "http_config \<Rightarrow> bool \<Rightarrow> string \<Rightarrow> unit result" where
  "validate_url C upload url =
     and_then (hc_split C url) (\<lambda>ep.
     if trusted_endpoint C upload ep then Inr () else Inl (ValueError ''HTTPS endpoint required; loopback HTTP is explicit test-only''))"

text \<open>\<open>\_request\<close>: what a reply raises; only the Hub's own API can report a blocked credential.\<close>

definition refused :: "int \<Rightarrow> py_error" where
  "refused code = (if code \<ge> 500 \<or> code = 408 \<or> code = 429 then OSError else ValueError ''Hub/storage rejected request'')"

definition http_request :: "(hub_request list \<Rightarrow> hub_reply) \<Rightarrow> bool \<Rightarrow> json \<Rightarrow> hub_request \<Rightarrow> courier \<Rightarrow> courier \<times> (transport_answer + (string \<times> json) list)" where
  "http_request hub hub_api ident req s =
     (let s' = s\<lparr>cu_trace := cu_trace s @ [req]\<rparr> in
      (s', case hub (cu_trace s') of
             HttpError code \<Rightarrow>
               if hub_api \<and> (code = 401 \<or> code = 403) then Inl (Blocked code (Some ident)) else Inl (Broken (refused code))
           | Unreachable \<Rightarrow> Inl (Broken OSError)
           | Unreadable \<Rightarrow> if hub_api then Inl (Broken (ValueError ''Hub response must be an object'')) else Inr []
           | Body kvs \<Rightarrow> Inr kvs))"

definition carry :: "courier \<times> (transport_answer + 'a) \<Rightarrow> ('a \<Rightarrow> courier \<Rightarrow> courier \<times> (transport_answer + 'b)) \<Rightarrow> courier \<times> (transport_answer + 'b)" where
  "carry m f = (case m of (s, Inl a) \<Rightarrow> (s, Inl a) | (s, Inr x) \<Rightarrow> f x s)"

definition failing :: "'a result \<Rightarrow> courier \<Rightarrow> courier \<times> (transport_answer + 'a)" where
  "failing r s = (s, case r of Inl e \<Rightarrow> Inl (Broken e) | Inr x \<Rightarrow> Inr x)"

section \<open>The archive\<close>

definition archive_total :: "transfer \<Rightarrow> int" where
  "archive_total t = sum_list (map tf_bytes (tr_files t))"

definition archive_entry :: "hash \<Rightarrow> tree \<Rightarrow> transfer_file \<Rightarrow> (string \<times> string) result" where
  "archive_entry sha d f =
     (case map_of d (tf_path f) of
        Some (Regular b) \<Rightarrow> if sha b \<noteq> tf_sha256 f then Inl (ValueError ''bundle changed before archive publication'') else Inr (tf_path f, b)
      | Some (Link b) \<Rightarrow> Inl (ValueError ''bundle changed before archive publication'')
      | _ \<Rightarrow> Inl OSError)"

definition archive_for ::
  "hash \<Rightarrow> ((string \<times> string) list \<Rightarrow> string) \<Rightarrow> http_config \<Rightarrow> tree \<Rightarrow> transfer \<Rightarrow> courier \<Rightarrow> courier \<times> (transport_answer + string)" where
  "archive_for sha tar C d t s =
     (let name = archive_name (transfer_sha256 sha t) in
      case map_of (cu_archives s) name of
        Some b \<Rightarrow> (s, Inr b)
      | None \<Rightarrow>
          if archive_total t > hc_max_archive C \<or> int (length (tr_files t)) > 50000
          then (s, Inl (Broken (ValueError ''transfer exceeds configured delivery limits'')))
          else
            (case each (archive_entry sha d) (tr_files t) of
               Inl e \<Rightarrow> (s, Inl (Broken e))
             | Inr entries \<Rightarrow>
                 if int (length (tar entries)) > hc_max_archive C
                 then (s, Inl (Broken (ValueError ''archive exceeds configured delivery limit'')))
                 else (s\<lparr>cu_archives := put_file name (tar entries) (cu_archives s)\<rparr>, Inr (tar entries))))"

section \<open>Observing and judging a reply\<close>

definition observe_upload ::
  "http_config \<Rightarrow> (hub_request list \<Rightarrow> bool) \<Rightarrow> string \<Rightarrow> int \<Rightarrow> string \<Rightarrow> (string \<times> json) list \<Rightarrow> courier \<Rightarrow> courier \<times> (transport_answer + unit)" where
  "observe_upload C disk archive_sha archive_bytes upload_id response s =
     (if map_of response ''upload_id'' \<noteq> None \<and> map_of response ''upload_id'' \<noteq> Some (JStr upload_id)
      then (s, Inl (Broken (ValueError ''receiver returned a different upload identity'')))
      else if disk (cu_trace s)
      then (s\<lparr>cu_note := Some \<lparr>un_upload_id = upload_id, un_archive = archive_sha, un_bytes = archive_bytes,
                un_status = (case map_of response ''status'' of None \<Rightarrow> JNull | Some v \<Rightarrow> v), un_observed = hc_now C\<rparr>,
             cu_held := Some upload_id\<rparr>, Inr ())
      else if cu_held s \<noteq> Some upload_id then (s, Inl (Broken OSError))
      else (s, Inr ()))"

definition disposition :: "(string \<times> json) list \<Rightarrow> bool \<Rightarrow> transport_answer + (string \<times> json) list option" where
  "disposition response allow_upload =
     (let status = (case map_of response ''status'' of None \<Rightarrow> JNull | Some v \<Rightarrow> v) in
      if status = JStr ''transfer_failed'' then Inl (Broken (ValueError ''receiver transfer failed; explicit operator retry required''))
      else if status = JStr ''verification_pending'' then Inl Accepting
      else
        (case in_strings status [''verified'', ''quarantined''] of
           Inl e \<Rightarrow> Inl (Broken e)
         | Inr True \<Rightarrow>
             (case map_of response ''receipt'' of
                Some (JObj kvs) \<Rightarrow>
                  if map_of kvs ''status'' \<noteq> Some status
                  then Inl (Broken (ValueError ''receiver terminal status lacks its matching receipt''))
                  else Inr (Some kvs)
              | _ \<Rightarrow> Inl (Broken (ValueError ''receiver terminal status lacks its matching receipt'')))
         | Inr False \<Rightarrow>
             if status = JStr ''awaiting_upload'' \<and> allow_upload then Inr None
             else Inl (Broken (ValueError ''unsupported receiver upload state''))))"

definition upload_id_char :: "char \<Rightarrow> bool" where
  "upload_id_char c \<longleftrightarrow> id_char c \<or> c = CHR ''-'' \<or> c = CHR ''_''"

definition intent_upload_id :: "(string \<times> json) list \<Rightarrow> string result" where
  "intent_upload_id response =
     (case map_of response ''upload_id'' of
        Some (JStr u) \<Rightarrow> if u = [] \<or> \<not> list_all upload_id_char u then Inl (ValueError ''invalid Hub upload ID'') else Inr u
      | _ \<Rightarrow> Inl (ValueError ''invalid Hub upload ID''))"

definition forbidden_headers :: "string list" where
  "forbidden_headers = [''authorization'', ''cookie'', ''host'', ''content-length'', ''transfer-encoding'']"

definition upload_header :: "string \<times> json \<Rightarrow> (string \<times> string) result" where
  "upload_header kv =
     (case snd kv of
        JStr v \<Rightarrow>
          if sql_lower (fst kv) \<in> set forbidden_headers then Inl (ValueError ''upload intent contains forbidden headers'')
          else Inr (fst kv, v)
      | _ \<Rightarrow> Inl (ValueError ''upload intent contains forbidden headers''))"

definition upload_headers :: "(string \<times> json) list \<Rightarrow> (string \<times> string) list result" where
  "upload_headers response =
     (case map_of response ''upload_headers'' of
        None \<Rightarrow> Inr []
      | Some (JObj kvs) \<Rightarrow> each upload_header kvs
      | _ \<Rightarrow> Inl (ValueError ''upload intent contains forbidden headers''))"

section \<open>One call\<close>

definition held_json :: "courier \<Rightarrow> string \<Rightarrow> int \<Rightarrow> json" where
  "held_json s h n =
     JObj [(''upload_id'', (case cu_held s of None \<Rightarrow> JNull | Some u \<Rightarrow> JStr u)), (''archive_sha256'', JStr h), (''archive_bytes'', JInt n)]"

definition hub_json ::
  "(hub_request list \<Rightarrow> hub_reply) \<Rightarrow> string \<Rightarrow> int \<Rightarrow> hub_request \<Rightarrow> courier \<Rightarrow> courier \<times> (transport_answer + (string \<times> json) list)" where
  "hub_json hub h n req s = http_request hub True (held_json s h n) req s"

text \<open>A persisted upload is asked about first.\<close>

definition resume_upload ::
  "http_config \<Rightarrow> (hub_request list \<Rightarrow> hub_reply) \<Rightarrow> (hub_request list \<Rightarrow> bool) \<Rightarrow> string \<Rightarrow> int \<Rightarrow> courier \<Rightarrow>
   courier \<times> (transport_answer + (string \<times> json) list option)" where
  "resume_upload C hub disk h n s =
     (case cu_note s of
        None \<Rightarrow> (s, Inr None)
      | Some slip \<Rightarrow>
          if un_archive slip \<noteq> h then (s, Inl (Broken (ValueError ''persisted upload archive changed'')))
          else
            let u = un_upload_id slip in
            carry (hub_json hub h n (GetUpload u) (s\<lparr>cu_held := Some u\<rparr>)) (\<lambda>status.
            \<lambda>s1. carry (observe_upload C disk h n u status s1) (\<lambda>_ s2. (s2, disposition status True))))"

definition intent_document :: "transfer \<Rightarrow> string \<Rightarrow> int \<Rightarrow> json \<Rightarrow> json" where
  "intent_document t h n metadata =
     JObj [(''schema'', JStr ''stpd/upload-intent-v1''), (''transfer_manifest'', transfer_dict t), (''archive_sha256'', JStr h),
           (''archive_bytes'', JInt n), (''delivery_metadata'', metadata)]"

text \<open>The PUT of the archive to the place an intent names, and the completion.\<close>

definition put_archive ::
  "http_config \<Rightarrow> (hub_request list \<Rightarrow> hub_reply) \<Rightarrow> (hub_request list \<Rightarrow> bool) \<Rightarrow> string \<Rightarrow> string \<Rightarrow> int \<Rightarrow> string \<Rightarrow>
   (string \<times> json) list \<Rightarrow> courier \<Rightarrow> courier \<times> (transport_answer + (string \<times> json) list option)" where
  "put_archive C hub disk archive h n u intent s =
     (case (map_of intent ''upload_url'', map_of intent ''upload_method'' = Some (JStr ''PUT'')) of
        (Some (JStr url), True) \<Rightarrow>
          carry (failing (validate_url C True url) s) (\<lambda>_ s1.
          carry (failing (upload_headers intent) s1) (\<lambda>headers s2.
          carry (http_request hub False JNull (PutArchive url (headers @ [(''Content-Length'', show_int n)]) archive) s2) (\<lambda>_ s3.
          carry (hub_json hub h n (CompleteUpload u) s3) (\<lambda>status s4.
          carry (observe_upload C disk h n u status s4) (\<lambda>_ s5. (s5, disposition status False))))))
      | _ \<Rightarrow> (s, Inl (Broken (ValueError ''unsupported upload intent''))))"

definition terminal_without_receipt :: "(string \<times> json) list \<Rightarrow> bool result" where
  "terminal_without_receipt intent =
     and_then (in_strings (case map_of intent ''status'' of None \<Rightarrow> JNull | Some v \<Rightarrow> v) [''verified'', ''quarantined'']) (\<lambda>done.
     Inr (done \<and> \<not> true_value (map_of intent ''receipt'')))"

definition new_upload ::
  "http_config \<Rightarrow> (hub_request list \<Rightarrow> hub_reply) \<Rightarrow> (hub_request list \<Rightarrow> bool) \<Rightarrow> transfer \<Rightarrow> json \<Rightarrow> string \<Rightarrow> string \<Rightarrow> int \<Rightarrow>
   courier \<Rightarrow> courier \<times> (transport_answer + (string \<times> json) list option)" where
  "new_upload C hub disk t metadata archive h n s =
     carry (hub_json hub h n (PostIntent (intent_document t h n metadata)) s) (\<lambda>intent s1.
     carry (failing (intent_upload_id intent) s1) (\<lambda>u s2.
     if cu_held s2 \<noteq> None \<and> cu_held s2 \<noteq> Some u
     then (s2, Inl (Broken (ValueError ''receiver changed durable upload identity'')))
     else
       carry (observe_upload C disk h n u intent s2) (\<lambda>_ s3.
       carry (failing (terminal_without_receipt intent) s3) (\<lambda>ask s4.
       carry (if ask
              then carry (hub_json hub h n (GetUpload u) s4) (\<lambda>status s5. carry (observe_upload C disk h n u status s5) (\<lambda>_ s6. (s6, Inr status)))
              else (s4, Inr intent)) (\<lambda>intent' s7.
       carry (s7, disposition intent' True) (\<lambda>receipt s8.
       case receipt of
         Some kvs \<Rightarrow> (s8, Inr (Some kvs))
       | None \<Rightarrow> put_archive C hub disk archive h n u intent' s8))))))"

definition deliver ::
  "hash \<Rightarrow> ((string \<times> string) list \<Rightarrow> string) \<Rightarrow> http_config \<Rightarrow> (hub_request list \<Rightarrow> hub_reply) \<Rightarrow> (hub_request list \<Rightarrow> bool) \<Rightarrow>
   tree \<Rightarrow> transfer \<Rightarrow> json \<Rightarrow> courier \<Rightarrow> courier \<times> (transport_answer + (string \<times> json) list option)" where
  "deliver sha tar C hub disk d t metadata s =
     carry (archive_for sha tar C d t (s\<lparr>cu_held := None, cu_trace := []\<rparr>)) (\<lambda>archive s1.
     let h = sha archive; n = int (length archive) in
     carry (resume_upload C hub disk h n s1) (\<lambda>receipt s2.
     case receipt of
       Some kvs \<Rightarrow> (s2, Inr (Some kvs))
     | None \<Rightarrow> new_upload C hub disk t metadata archive h n s2))"

definition hub_transport ::
  "hash \<Rightarrow> ((string \<times> string) list \<Rightarrow> string) \<Rightarrow> http_config \<Rightarrow> (hub_request list \<Rightarrow> hub_reply) \<Rightarrow> (hub_request list \<Rightarrow> bool) \<Rightarrow>
   courier \<Rightarrow> tree \<Rightarrow> transfer \<Rightarrow> json \<Rightarrow> transport_answer" where
  "hub_transport sha tar C hub disk s d t metadata =
     (case snd (deliver sha tar C hub disk d t metadata s) of
        Inl a \<Rightarrow> a
      | Inr (Some kvs) \<Rightarrow> Answered (JObj kvs)
      | Inr None \<Rightarrow> Answered JNull)"


section \<open>The requests of a call\<close>

lemma carry_eq:
  "carry m f = (s', r) \<longleftrightarrow> (\<exists>a. m = (s', Inl a) \<and> r = Inl a) \<or> (\<exists>s1 x. m = (s1, Inr x) \<and> f x s1 = (s', r))"
  unfolding carry_def by (auto split: prod.splits sum.splits)

definition is_put :: "hub_request \<Rightarrow> bool" where
  "is_put req = (case req of PutArchive _ _ _ \<Rightarrow> True | _ \<Rightarrow> False)"

text \<open>The persisted identity is the one in the upload file.\<close>

definition quiet :: "courier \<Rightarrow> bool" where
  "quiet s \<longleftrightarrow> \<not> list_ex is_put (cu_trace s) \<and>
     (\<forall>u. cu_held s = Some u \<longrightarrow> (\<exists>slip. cu_note s = Some slip \<and> un_upload_id slip = u))"

lemma observe_quiet:
  assumes "observe_upload C disk h n u response s = (s', r)"
  shows "cu_trace s' = cu_trace s" and "quiet s \<Longrightarrow> quiet s'"
    and "r = Inr () \<Longrightarrow> cu_held s' = Some u"
  using assms unfolding observe_upload_def quiet_def by (auto split: if_splits)

lemma hub_json_quiet:
  assumes "hub_json hub h n req s = (s', r)"
  shows "cu_trace s' = cu_trace s @ [req]" and "quiet s \<Longrightarrow> \<not> is_put req \<Longrightarrow> quiet s'"
    and "r = Inr kvs \<Longrightarrow> hub (cu_trace s') = Body kvs" and "cu_held s' = cu_held s" and "cu_note s' = cu_note s"
  using assms unfolding hub_json_def http_request_def Let_def quiet_def
  by (auto split: hub_reply.splits if_splits)

lemma asked_and_observed:
  assumes ran: "carry (hub_json hub h n req s) (\<lambda>status s1. carry (observe_upload C disk h n u status s1) (\<lambda>_ s2. (s2, f status))) = (s', r)"
    and q: "quiet s" "\<not> is_put req"
  shows "quiet s'" and "r = Inr x \<Longrightarrow> \<exists>body. hub (cu_trace s') = Body body \<and> f body = Inr x \<and> cu_held s' = Some u"
proof -
  obtain s1 r1 where ask: "hub_json hub h n req s = (s1, r1)" by (cases "hub_json hub h n req s")
  note s1 = hub_json_quiet [OF ask]
  show "quiet s'"
    using ran q s1(2) unfolding ask carry_eq by (auto dest: observe_quiet(2))
  assume "r = Inr x"
  with ran ask obtain body s2 where r1: "r1 = Inr body" and ob: "observe_upload C disk h n u body s1 = (s2, Inr ())"
    and "s' = s2" "f body = Inr x"
    unfolding carry_eq by auto
  with s1(3) [OF r1] observe_quiet [OF ob] show "\<exists>body. hub (cu_trace s') = Body body \<and> f body = Inr x \<and> cu_held s' = Some u" by auto
qed

lemma archive_for_trace:
  "archive_for sha tar C d t s = (s', r) \<Longrightarrow> cu_trace s' = cu_trace s \<and> cu_held s' = cu_held s \<and> cu_note s' = cu_note s"
  unfolding archive_for_def Let_def by (auto split: option.splits if_splits sum.splits)

lemma failing_eq: "failing r s = (s', x) \<longleftrightarrow> s' = s \<and> x = (case r of Inl e \<Rightarrow> Inl (Broken e) | Inr y \<Rightarrow> Inr y)"
  by (auto simp: failing_def)

lemma failing_Inr: "failing r s = (s', Inr y) \<longleftrightarrow> s' = s \<and> r = Inr y"
  by (auto simp: failing_def split: sum.splits)

lemma carry_failing:
  "carry (failing m s) f = (s', x) \<longleftrightarrow>
     (\<exists>e. m = Inl e \<and> s' = s \<and> x = Inl (Broken e)) \<or> (\<exists>y. m = Inr y \<and> f y s = (s', x))"
  by (cases m) (auto simp: carry_def failing_def)

definition hub_verdict :: "(hub_request list \<Rightarrow> hub_reply) \<Rightarrow> hub_request list \<Rightarrow> (string \<times> json) list \<Rightarrow> bool" where
  "hub_verdict hub requests receipt \<longleftrightarrow>
     (\<exists>body. hub requests = Body body \<and> map_of body ''receipt'' = Some (JObj receipt) \<and>
        map_of receipt ''status'' = map_of body ''status'' \<and> map_of body ''status'' \<in> {Some (JStr ''verified''), Some (JStr ''quarantined'')})"

lemma disposition_receipt:
  "disposition body allow = Inr (Some receipt) \<Longrightarrow> hub requests = Body body \<Longrightarrow> hub_verdict hub requests receipt"
  unfolding disposition_def hub_verdict_def Let_def in_strings_def
  by (auto split: option.splits if_splits sum.splits bool.splits json.splits)

lemma disposition_upload: "disposition body allow = Inr None \<Longrightarrow> allow \<and> map_of body ''status'' = Some (JStr ''awaiting_upload'')"
  unfolding disposition_def Let_def by (auto split: option.splits if_splits sum.splits bool.splits json.splits)

lemma resume_upload_quiet:
  assumes ran: "resume_upload C hub disk h n s = (s', r)" and q: "quiet s"
  shows "quiet s'" and "r = Inr (Some receipt) \<Longrightarrow> hub_verdict hub (cu_trace s') receipt"
proof -
  from ran consider "s' = s" "\<forall>x. r \<noteq> Inr (Some x)"
    | slip where "cu_note s = Some slip" "carry (hub_json hub h n (GetUpload (un_upload_id slip)) (s\<lparr>cu_held := Some (un_upload_id slip)\<rparr>)) (\<lambda>status s1.
         carry (observe_upload C disk h n (un_upload_id slip) status s1) (\<lambda>_ s2. (s2, disposition status True))) = (s', r)"
    unfolding resume_upload_def Let_def by (auto split: option.splits if_splits)
  then have "quiet s' \<and> (r = Inr (Some receipt) \<longrightarrow> hub_verdict hub (cu_trace s') receipt)"
  proof cases
    case (2 slip)
    have "quiet (s\<lparr>cu_held := Some (un_upload_id slip)\<rparr>)" using q 2(1) by (simp add: quiet_def)
    from asked_and_observed [OF 2(2) this] show ?thesis by (auto simp: is_put_def dest: disposition_receipt)
  qed (use q in simp)
  then show "quiet s'" and "r = Inr (Some receipt) \<Longrightarrow> hub_verdict hub (cu_trace s') receipt" by blast+
qed

text \<open>What the object store may be sent: the archive, to a trusted place the last reply named, without credentials.\<close>

definition authorized_put :: "http_config \<Rightarrow> (hub_request list \<Rightarrow> hub_reply) \<Rightarrow> hub_request list \<Rightarrow> string \<Rightarrow> (string \<times> string) list \<Rightarrow> bool" where
  "authorized_put C hub before url headers \<longleftrightarrow>
     (\<exists>intent. hub before = Body intent \<and> map_of intent ''status'' = Some (JStr ''awaiting_upload'') \<and>
        map_of intent ''upload_url'' = Some (JStr url) \<and> validate_url C True url = Inr ()) \<and>
     (\<forall>(name, v) \<in> set headers. name = ''Content-Length'' \<or> sql_lower name \<notin> set forbidden_headers)"

definition one_put :: "http_config \<Rightarrow> (hub_request list \<Rightarrow> hub_reply) \<Rightarrow> string \<Rightarrow> courier \<Rightarrow> bool" where
  "one_put C hub archive s \<longleftrightarrow>
     (\<exists>before url headers rest u slip. cu_trace s = before @ PutArchive url headers archive # rest \<and> \<not> list_ex is_put before \<and>
        (rest = [] \<or> rest = [CompleteUpload u]) \<and> authorized_put C hub before url headers \<and>
        cu_note s = Some slip \<and> un_upload_id slip = u)"

lemma upload_header_allowed: "upload_header kv = Inr (name, v) \<Longrightarrow> sql_lower name \<notin> set forbidden_headers"
  unfolding upload_header_def by (auto split: json.splits if_splits)

lemma upload_headers_allowed:
  "upload_headers response = Inr headers \<Longrightarrow> (name, v) \<in> set headers \<Longrightarrow> sql_lower name \<notin> set forbidden_headers"
  unfolding upload_headers_def by (auto split: option.splits json.splits dest!: each_out_set upload_header_allowed)

lemma put_archive_ok:
  assumes ran: "put_archive C hub disk archive h n u intent s = (s', r)" and q: "quiet s" and held: "cu_held s = Some u"
    and last: "hub (cu_trace s) = Body intent" and status: "map_of intent ''status'' = Some (JStr ''awaiting_upload'')"
  shows "quiet s' \<or> one_put C hub archive s'" and "r = Inr x \<Longrightarrow> \<exists>receipt. x = Some receipt \<and> hub_verdict hub (cu_trace s') receipt"
proof -
  from q held obtain slip where slip: "cu_note s = Some slip" "un_upload_id slip = u" by (auto simp: quiet_def)
  from ran consider "s' = s" "\<forall>x. r \<noteq> Inr x"
    | url headers s3 b where "map_of intent ''upload_url'' = Some (JStr url)" "validate_url C True url = Inr ()" "upload_headers intent = Inr headers"
      "http_request hub False JNull (PutArchive url (headers @ [(''Content-Length'', show_int n)]) archive) s = (s3, b)"
      "carry (s3, b) (\<lambda>_ s3. carry (hub_json hub h n (CompleteUpload u) s3) (\<lambda>status s4.
         carry (observe_upload C disk h n u status s4) (\<lambda>_ s5. (s5, disposition status False)))) = (s', r)"
  proof (cases "(\<exists>url. map_of intent ''upload_url'' = Some (JStr url)) \<and> map_of intent ''upload_method'' = Some (JStr ''PUT'')")
    case False
    with ran have "s' = s \<and> (\<forall>x. r \<noteq> Inr x)"
      unfolding put_archive_def by (auto split: option.splits json.splits bool.splits)
    with that(1) show thesis by blast
  next
    case True
    then obtain url where url: "map_of intent ''upload_url'' = Some (JStr url)" by blast
    let ?send = "\<lambda>headers. carry (http_request hub False JNull (PutArchive url (headers @ [(''Content-Length'', show_int n)]) archive) s)
      (\<lambda>_ s3. carry (hub_json hub h n (CompleteUpload u) s3) (\<lambda>status s4.
         carry (observe_upload C disk h n u status s4) (\<lambda>_ s5. (s5, disposition status False))))"
    from ran True url have run: "carry (failing (validate_url C True url) s) (\<lambda>_ s1. carry (failing (upload_headers intent) s1)
      (\<lambda>headers s2. carry (http_request hub False JNull (PutArchive url (headers @ [(''Content-Length'', show_int n)]) archive) s2)
      (\<lambda>_ s3. carry (hub_json hub h n (CompleteUpload u) s3) (\<lambda>status s4.
         carry (observe_upload C disk h n u status s4) (\<lambda>_ s5. (s5, disposition status False)))))) = (s', r)"
      by (simp add: put_archive_def)
    show thesis
    proof (cases "validate_url C True url")
      case (Inl e)
      with run that(1) show thesis by (auto simp: carry_failing)
    next
      case valid: (Inr v)
      show thesis
      proof (cases "upload_headers intent")
        case (Inl e)
        with run valid that(1) show thesis by (auto simp: carry_failing)
      next
        case (Inr headers)
        obtain s3 b where put: "http_request hub False JNull (PutArchive url (headers @ [(''Content-Length'', show_int n)]) archive) s = (s3, b)"
          by (cases "http_request hub False JNull (PutArchive url (headers @ [(''Content-Length'', show_int n)]) archive) s")
        from run valid Inr have "?send headers = (s', r)" by (simp add: carry_failing)
        with that(2) [OF url _ Inr put] valid put show thesis by simp
      qed
    qed
  qed
  then have "(quiet s' \<or> one_put C hub archive s') \<and> (r = Inr x \<longrightarrow> (\<exists>receipt. x = Some receipt \<and> hub_verdict hub (cu_trace s') receipt))"
  proof cases
    case (2 url headers s3 b)
    let ?put = "PutArchive url (headers @ [(''Content-Length'', show_int n)]) archive"
    have s3: "cu_trace s3 = cu_trace s @ [?put]" "cu_note s3 = cu_note s" "cu_held s3 = cu_held s"
      using 2(4) by (auto simp: http_request_def Let_def)
    have auth: "authorized_put C hub (cu_trace s) url (headers @ [(''Content-Length'', show_int n)])"
      using last status 2(1,2) upload_headers_allowed [OF 2(3)] unfolding authorized_put_def by auto
    have put: "one_put C hub archive s''"
      if "cu_trace s'' = cu_trace s @ ?put # rest" "rest = [] \<or> rest = [CompleteUpload u]" "cu_note s'' = Some slip'" "un_upload_id slip' = u"
      for s'' rest slip'
      using that q auth unfolding one_put_def quiet_def by blast
    show ?thesis
    proof (cases b)
      case (Inl a)
      with 2(5) s3 slip put [of s3 "[]" slip] show ?thesis by (auto simp: carry_eq)
    next
      case (Inr body)
      obtain s4 c where ask: "hub_json hub h n (CompleteUpload u) s3 = (s4, c)" by (cases "hub_json hub h n (CompleteUpload u) s3")
      note s4 = hub_json_quiet [OF ask]
      have tr4: "cu_trace s4 = cu_trace s @ [?put, CompleteUpload u]" using s4(1) s3(1) by simp
      from 2(5) Inr ask consider a where "c = Inl a" "s' = s4" "r = Inl a"
        | status where "c = Inr status" "carry (observe_upload C disk h n u status s4) (\<lambda>_ s5. (s5, disposition status False)) = (s', r)"
        unfolding carry_eq by auto
      then show ?thesis
      proof cases
        case 1
        then show ?thesis using put [of s4 "[CompleteUpload u]" slip] tr4 s4(5) s3(2) slip by simp
      next
        case (2 status)
        obtain s5 e where ob: "observe_upload C disk h n u status s4 = (s5, e)" by (cases "observe_upload C disk h n u status s4")
        from 2(2) ob have s': "s' = s5" and r: "r = Inr x \<Longrightarrow> disposition status False = Inr x" by (auto simp: carry_eq)
        have "\<exists>slip'. cu_note s5 = Some slip' \<and> un_upload_id slip' = u"
          using ob s4(5) s3(2) slip by (auto simp: observe_upload_def split: if_splits)
        then have "one_put C hub archive s'" unfolding s'
          using put [of s5 "[CompleteUpload u]"] tr4 observe_quiet(1) [OF ob] by auto
        moreover have "\<exists>receipt. x = Some receipt \<and> hub_verdict hub (cu_trace s') receipt" if "r = Inr x"
        proof (cases x)
          case None
          with r [OF that] disposition_upload [of status False] show ?thesis by simp
        next
          case (Some receipt)
          with r [OF that] s4(3) [OF 2(1)] observe_quiet(1) [OF ob] show ?thesis unfolding s' by (auto dest: disposition_receipt)
        qed
        ultimately show ?thesis by blast
      qed
    qed
  qed (use q in simp)
  then show "quiet s' \<or> one_put C hub archive s'" and "r = Inr x \<Longrightarrow> \<exists>receipt. x = Some receipt \<and> hub_verdict hub (cu_trace s') receipt"
    by blast+
qed


lemma new_upload_ok:
  assumes ran: "new_upload C hub disk t metadata archive h n s = (s', r)" and q: "quiet s"
  shows "(quiet s' \<or> one_put C hub archive s') \<and> (\<forall>x. r = Inr x \<longrightarrow> (\<exists>receipt. x = Some receipt \<and> hub_verdict hub (cu_trace s') receipt))"
proof -
  let ?goal = "(quiet s' \<or> one_put C hub archive s') \<and> (\<forall>x. r = Inr x \<longrightarrow> (\<exists>receipt. x = Some receipt \<and> hub_verdict hub (cu_trace s') receipt))"
  have stop: ?goal if "quiet s'" "r = Inl a" for a using that by simp
  obtain s1 r1 where ask: "hub_json hub h n (PostIntent (intent_document t h n metadata)) s = (s1, r1)"
    by (cases "hub_json hub h n (PostIntent (intent_document t h n metadata)) s")
  note s1 = hub_json_quiet [OF ask]
  have q1: "quiet s1" using s1(2) q by (simp add: is_put_def)
  show ?thesis
  proof (cases r1)
    case (Inl a)
    with ran ask q1 show ?thesis by (auto simp: new_upload_def carry_eq)
  next
    case intent: (Inr intent)
    show ?thesis
    proof (cases "intent_upload_id intent")
      case (Inl e)
      with ran ask intent q1 show ?thesis by (auto simp: new_upload_def carry_def failing_def)
    next
      case u: (Inr u)
      show ?thesis
      proof (cases "cu_held s1 \<noteq> None \<and> cu_held s1 \<noteq> Some u")
        case True
        with ran ask intent u q1 show ?thesis by (auto simp: new_upload_def carry_def failing_def)
      next
        case False
        then have held: "cu_held s1 = None \<or> cu_held s1 = Some u" by auto
        obtain s3 r3 where ob: "observe_upload C disk h n u intent s1 = (s3, r3)" by (cases "observe_upload C disk h n u intent s1")
        note s3 = observe_quiet [OF ob]
        have q3: "quiet s3" using s3(2) q1 by simp
        show ?thesis
        proof (cases r3)
          case (Inl a)
          with ran ask intent u held ob q3 show ?thesis by (auto simp: new_upload_def carry_def failing_def)
        next
          case r3: (Inr x)
          show ?thesis
          proof (cases "terminal_without_receipt intent")
            case (Inl e)
            with ran ask intent u held ob r3 q3 show ?thesis by (auto simp: new_upload_def carry_def failing_def)
          next
            case again: (Inr again)
            let ?poll = "if again
              then carry (hub_json hub h n (GetUpload u) s3) (\<lambda>status s5. carry (observe_upload C disk h n u status s5) (\<lambda>_ s6. (s6, Inr status)))
              else (s3, Inr intent)"
            obtain s7 r7 where poll: "?poll = (s7, r7)" by (cases ?poll)
            have s7: "quiet s7 \<and> (\<forall>body. r7 = Inr body \<longrightarrow> hub (cu_trace s7) = Body body \<and> cu_held s7 = Some u)"
            proof (cases again)
              case True
              with poll have p: "carry (hub_json hub h n (GetUpload u) s3)
                (\<lambda>status s5. carry (observe_upload C disk h n u status s5) (\<lambda>_ s6. (s6, Inr status))) = (s7, r7)" by simp
              from asked_and_observed [where f = "Inr", OF p q3] show ?thesis by (auto simp: is_put_def)
            next
              case False
              then have "s7 = s3" "r7 = Inr intent" using poll by auto
              moreover have "hub (cu_trace s3) = Body intent" using s1(3) [OF intent] s3(1) by simp
              moreover have "cu_held s3 = Some u" using s3(3) r3 by simp
              ultimately show ?thesis using q3 by auto
            qed
            from held ran ask intent u ob r3 again poll have rest: "carry (s7, r7) (\<lambda>intent' s7. carry (s7, disposition intent' True) (\<lambda>receipt s8.
                case receipt of Some kvs \<Rightarrow> (s8, Inr (Some kvs)) | None \<Rightarrow> put_archive C hub disk archive h n u intent' s8)) = (s', r)"
              by (elim disjE) (simp_all add: new_upload_def carry_def failing_def)
            show ?thesis
            proof (cases r7)
              case (Inl a)
              with rest s7 show ?thesis by (auto simp: carry_def)
            next
              case (Inr body)
              with s7 have last: "hub (cu_trace s7) = Body body" "cu_held s7 = Some u" "quiet s7" by auto
              show ?thesis
              proof (cases "disposition body True")
                case (Inl a)
                with rest \<open>r7 = Inr body\<close> last show ?thesis by (auto simp: carry_def)
              next
                case d: (Inr receipt)
                show ?thesis
                proof (cases receipt)
                  case None
                  with rest \<open>r7 = Inr body\<close> d have "put_archive C hub disk archive h n u body s7 = (s', r)" by (simp add: carry_def)
                  from put_archive_ok [OF this last(3,2,1)] disposition_upload [of body True] d None show ?thesis by auto
                next
                  case (Some kvs)
                  have "hub_verdict hub (cu_trace s7) kvs" using d Some last(1) by (intro disposition_receipt) simp_all
                  with rest \<open>r7 = Inr body\<close> d Some last(3) show ?thesis by (auto simp: carry_def)
                qed
              qed
            qed
          qed
        qed
      qed
    qed
  qed
qed

lemma deliver_ok:
  assumes ran: "deliver sha tar C hub disk d t metadata s = (s', r)"
  shows "(quiet s' \<or> (\<exists>archive. one_put C hub archive s' \<and> map_of (cu_archives (fst (archive_for sha tar C d t (s\<lparr>cu_held := None, cu_trace := []\<rparr>)))) (archive_name (transfer_sha256 sha t)) = Some archive)) \<and>
    (\<forall>x. r = Inr x \<longrightarrow> (\<exists>receipt. x = Some receipt \<and> hub_verdict hub (cu_trace s') receipt))"
proof -
  obtain s1 r1 where arch: "archive_for sha tar C d t (s\<lparr>cu_held := None, cu_trace := []\<rparr>) = (s1, r1)"
    by (cases "archive_for sha tar C d t (s\<lparr>cu_held := None, cu_trace := []\<rparr>)")
  from archive_for_trace [OF arch] have q1: "quiet s1" by (simp add: quiet_def)
  show ?thesis
  proof (cases r1)
    case (Inl a)
    with ran arch q1 show ?thesis by (auto simp: deliver_def carry_def)
  next
    case archive: (Inr archive)
    then have stored: "map_of (cu_archives s1) (archive_name (transfer_sha256 sha t)) = Some archive"
      using arch unfolding archive_for_def Let_def
      by (auto simp: put_file_def split: option.splits if_splits sum.splits)
    let ?h = "sha archive" and ?n = "int (length archive)"
    obtain s2 r2 where res: "resume_upload C hub disk ?h ?n s1 = (s2, r2)" by (cases "resume_upload C hub disk ?h ?n s1")
    note s2 = resume_upload_quiet [OF res q1]
    from ran arch archive res have rest: "carry (s2, r2) (\<lambda>receipt s2. case receipt of
        Some kvs \<Rightarrow> (s2, Inr (Some kvs)) | None \<Rightarrow> new_upload C hub disk t metadata archive ?h ?n s2) = (s', r)"
      by (simp add: deliver_def carry_def Let_def)
    show ?thesis
    proof (cases r2)
      case (Inl a)
      with rest s2(1) show ?thesis by (auto simp: carry_def)
    next
      case (Inr receipt)
      show ?thesis
      proof (cases receipt)
        case None
        with rest Inr have "new_upload C hub disk t metadata archive ?h ?n s2 = (s', r)" by (simp add: carry_def)
        from new_upload_ok [OF this s2(1)] show ?thesis using stored arch by auto
      next
        case (Some kvs)
        with rest Inr s2 show ?thesis by (auto simp: carry_def)
      qed
    qed
  qed
qed


text \<open>An exception of a call is no receipt.\<close>

definition exceptional :: "courier \<times> (transport_answer + 'a) \<Rightarrow> bool" where
  "exceptional m \<longleftrightarrow> (\<forall>a. snd m \<noteq> Inl (Answered a))"

lemma exceptional_carry: "exceptional m \<Longrightarrow> (\<And>x s. exceptional (f x s)) \<Longrightarrow> exceptional (carry m f)"
  unfolding carry_def exceptional_def by (auto split: prod.splits sum.splits)

lemma exceptional_simps [simp]:
  "exceptional (s, Inr x)" "exceptional (s, Inl (Broken e))" "exceptional (s, Inl (Blocked n i))" "exceptional (s, Inl Accepting)"
  "exceptional (failing m s)" "exceptional (s, disposition body allow)"
  by (auto simp: exceptional_def failing_def disposition_def Let_def split: sum.splits option.splits json.splits bool.splits if_splits)

lemma exceptional_steps [simp]:
  "exceptional (http_request hub api ident req s)" "exceptional (hub_json hub h n req s)"
  "exceptional (observe_upload C disk h n u response s)" "exceptional (archive_for sha tar C d t s)"
  unfolding http_request_def hub_json_def observe_upload_def archive_for_def Let_def
  by (auto split: hub_reply.splits option.splits sum.splits)

lemma deliver_no_answer: "deliver sha tar C hub disk d t metadata s = (s', x) \<Longrightarrow> x \<noteq> Inl (Answered a)"
proof -
  assume ran: "deliver sha tar C hub disk d t metadata s = (s', x)"
  have "exceptional (deliver sha tar C hub disk d t metadata s)"
    unfolding deliver_def resume_upload_def new_upload_def put_archive_def Let_def
    by (auto intro!: exceptional_carry split: option.splits if_splits json.splits bool.splits)
  with ran show ?thesis by (simp add: exceptional_def)
qed

end
