(* ===== verification/DeliveryClaims.thy ===== *)
theory DeliveryClaims
  imports Deliveries HubTransport
begin

text \<open>
  The properties of the outbox and its transport, with a sample machine that enrolls one session.
\<close>

section \<open>A sample session\<close>

definition flat_hash :: "string \<Rightarrow> string" where
  "flat_hash t = replicate 64 CHR ''a''"

definition sample_loads :: "string \<Rightarrow> json result" where
  "sample_loads b =
     (if b = ''m'' then Inr (JObj [(''schema'', JStr recording_schema), (''close_schema_version'', JInt 1),
          (''session_id'', JStr ''s''), (''timeline_id'', JStr ''t'')])
      else Inr (JObj [(''schema'', JStr close_schema), (''status'', JStr ''closed''), (''closed_at'', JStr ''now''),
          (''session_id'', JStr ''s''), (''timeline_id'', JStr ''t'')]))"

definition sample_session :: tree where
  "sample_session = [(''recording-manifest.json'', Regular ''m''), (''session-close-receipt.json'', Regular ''c'')]"

definition sample_child :: child where
  "sample_child = \<lparr>ch_name = ''one'', ch_path = ''/rec/one'', ch_tree = Some sample_session, ch_link = False\<rparr>"

definition sample_content :: string where
  "sample_content = replicate 64 CHR ''c''"

definition sample_tool :: collection_tool where
  "sample_tool = \<lparr>ct_release = ''pin'', ct_manifest = JObj []\<rparr>"

definition meeting :: "real \<Rightarrow> (tree \<Rightarrow> transfer \<Rightarrow> json \<Rightarrow> transport_answer) \<Rightarrow> world" where
  "meeting now transport =
     \<lparr>wo_now = now, wo_before = Some sample_session, wo_after = Some sample_session, wo_tool = Inr (),
      wo_pack = (Some [(''a'', Regular ''x'')], Inr ()),
      wo_verify = (\<lambda>d. Inr \<lparr>vd_content = sample_content, vd_session = ''s'', vd_summary = []\<rparr>), wo_transport = transport\<rparr>"

definition sample_handed :: transfer where
  "sample_handed = \<lparr>tr_content_id = sample_content, tr_artifact_type = human_bundle,
     tr_files = [\<lparr>tf_path = ''a'', tf_bytes = 1, tf_sha256 = replicate 64 CHR ''a''\<rparr>]\<rparr>"

definition verdict_fields :: "(string \<times> json) list" where
  "verdict_fields = [(''schema'', JStr receive_schema), (''receipt_id'', JStr ''r''), (''status'', JStr ''verified''),
     (''content_id'', JStr sample_content), (''manifest_sha256'', JStr (replicate 64 CHR ''a''))]"

definition enrolled_outbox :: outbox where
  "enrolled_outbox = (case reconcile flat_hash sample_loads (\<lambda>e. []) False (Some [sample_child]) (new_outbox ''w'' ''c'' ''pin'') of
     Inr (S, n) \<Rightarrow> S | Inl e \<Rightarrow> new_outbox ''w'' ''c'' ''pin'')"

definition after_attempt :: "world \<Rightarrow> outbox \<Rightarrow> outbox" where
  "after_attempt w S = fst (drain_one flat_hash sample_loads (\<lambda>e. []) (\<lambda>e. []) sample_tool w S)"

definition delivered_outbox :: outbox where
  "delivered_outbox = after_attempt (meeting 10 (\<lambda>d t m. Answered (JObj verdict_fields))) enrolled_outbox"

definition waiting_outbox :: outbox where
  "waiting_outbox = after_attempt (meeting 10 (\<lambda>d t m. Accepting)) enrolled_outbox"

definition sample_key :: string where
  "sample_key = replicate 64 CHR ''a''"

lemma prepare_delivery_world:
  assumes "wo_before w' = wo_before w" "wo_after w' = wo_after w" "wo_tool w' = wo_tool w" "wo_pack w' = wo_pack w" "wo_verify w' = wo_verify w"
  shows "prepare_delivery sha loads tool w' row S = prepare_delivery sha loads tool w row S"
  unfolding prepare_delivery_def ensure_bundle_def locally_verified_def assms ..

lemma hands_over_transport:
  "hands_over sha loads tool (w\<lparr>wo_transport := transport\<rparr>) S key t = hands_over sha loads tool w S key t"
proof -
  have prep: "prepare_delivery sha loads tool (w\<lparr>wo_transport := transport\<rparr>) row S = prepare_delivery sha loads tool w row S" for row
    by (rule prepare_delivery_world) simp_all
  have now: "wo_now (w\<lparr>wo_transport := transport\<rparr>) = wo_now w" by simp
  show ?thesis unfolding hands_over_def prep now ..
qed

lemma enrolled_hands_over:
  "hands_over flat_hash sample_loads sample_tool (meeting 10 transport) enrolled_outbox sample_key sample_handed"
proof -
  have "hands_over flat_hash sample_loads sample_tool (meeting 10 (\<lambda>d t m. Accepting)) enrolled_outbox sample_key sample_handed"
    by code_simp
  moreover have "meeting 10 transport = (meeting 10 (\<lambda>d t m. Accepting))\<lparr>wo_transport := transport\<rparr>" by (simp add: meeting_def)
  ultimately show ?thesis by (simp only: hands_over_transport)
qed

lemma waiting_hands_over:
  "hands_over flat_hash sample_loads sample_tool (meeting 20 (\<lambda>d t m. Accepting)) waiting_outbox sample_key sample_handed"
  by code_simp

lemma verdict_matches: "receipt_matches flat_hash sample_handed (JObj verdict_fields) = Some Accepted"
  by code_simp

lemma enrolled_reached: "delivery_step flat_hash sample_loads (new_outbox ''w'' ''c'' ''pin'') enrolled_outbox"
proof (cases "reconcile flat_hash sample_loads (\<lambda>e. []) False (Some [sample_child]) (new_outbox ''w'' ''c'' ''pin'')")
  case (Inl e)
  then show ?thesis by (intro delivery_step.elsewhere) (simp_all add: enrolled_outbox_def)
next
  case (Inr x)
  obtain S n where "x = (S, n)" by (cases x)
  with Inr show ?thesis using delivery_step.enrolled [OF Inr [unfolded \<open>x = (S, n)\<close>]] by (simp add: enrolled_outbox_def)
qed

lemma attempt_reached: "delivery_step flat_hash sample_loads S (after_attempt w S)"
  unfolding after_attempt_def
  by (cases "drain_one flat_hash sample_loads (\<lambda>e. []) (\<lambda>e. []) sample_tool w S") (auto intro: delivery_step.attempted)

lemma delivered_reached: "(delivery_step flat_hash sample_loads)\<^sup>*\<^sup>* (new_outbox ''w'' ''c'' ''pin'') delivered_outbox"
  unfolding delivered_outbox_def
  by (rule rtranclp.rtrancl_into_rtrancl, rule r_into_rtranclp, rule enrolled_reached, rule attempt_reached)

lemma enrolled_ok: "outbox_ok flat_hash enrolled_outbox"
  using delivery_step_ok [OF enrolled_reached new_outbox_ok] by blast

lemma delivered_row: "\<exists>r \<in> set (ob_rows delivered_outbox). sr_status r = Accepted"
proof -
  let ?w = "meeting 10 (\<lambda>d t m. Answered (JObj verdict_fields))"
  obtain S r where ran: "drain_one flat_hash sample_loads (\<lambda>e. []) (\<lambda>e. []) sample_tool ?w enrolled_outbox = (S, r)"
    by (cases "drain_one flat_hash sample_loads (\<lambda>e. []) (\<lambda>e. []) sample_tool ?w enrolled_outbox")
  have "\<exists>q \<in> set (ob_rows S). sr_id q = sample_key \<and> sr_status q = Accepted \<and> sr_receipt q = Some (sort_keys (JObj verdict_fields))"
    by (rule matching_receipt_settles [OF enrolled_hands_over ran enrolled_ok _ verdict_matches]) (simp add: meeting_def)
  then show ?thesis using ran by (auto simp: delivered_outbox_def after_attempt_def)
qed

section \<open>The outbox\<close>

text \<open>Claim C37. A delivered, quarantined or incident session is closed: in every later history of
enrolments, attempts, rebuilds, recoveries and file changes its row keeps its status, its attempts, its
identities and its receipt; only the display summary may change.\<close>

theorem closed_delivery_final:
  assumes "(delivery_step sha loads)\<^sup>*\<^sup>* (new_outbox worker campaign release) S" and "(delivery_step sha loads)\<^sup>*\<^sup>* S S'"
    and "r \<in> set (ob_rows S)" and "closed_row r"
  shows "\<exists>x. r\<lparr>sr_summary := x\<rparr> \<in> set (ob_rows S')"
proof -
  have "outbox_ok sha S" using delivery_steps_ok [OF assms(1) new_outbox_ok] by blast
  from delivery_steps_ok [OF assms(2) this] assms(3) obtain q where "q \<in> set (ob_rows S')" "row_follows r q"
    unfolding follows_def by blast
  with assms(4) show ?thesis by (auto simp: row_follows_def)
qed

theorem closed_delivery_final_witness:
  "\<exists>r x. r \<in> set (ob_rows delivered_outbox) \<and> sr_status r = Accepted \<and>
     r\<lparr>sr_summary := x\<rparr> \<in> set (ob_rows (after_attempt (meeting 20 (\<lambda>d t m. Accepting)) delivered_outbox))"
proof -
  obtain r where r: "r \<in> set (ob_rows delivered_outbox)" "sr_status r = Accepted" using delivered_row by blast
  have later: "(delivery_step flat_hash sample_loads)\<^sup>*\<^sup>* delivered_outbox (after_attempt (meeting 20 (\<lambda>d t m. Accepting)) delivered_outbox)"
    using attempt_reached by (rule r_into_rtranclp)
  have "closed_row r" using r(2) by (simp add: closed_row_def)
  from closed_delivery_final [OF delivered_reached later r(1) this] r show ?thesis by blast
qed

text \<open>Claim C35. In every reachable outbox a row that counts as verified or quarantined holds a receipt with
that status whose content id and manifest hash are those of the written transfer manifest of the session.\<close>

theorem receipt_bound_to_manifest:
  assumes "(delivery_step sha loads)\<^sup>*\<^sup>* (new_outbox worker campaign release) S"
    and "r \<in> set (ob_rows S)" and "sr_status r \<in> {Accepted, Refused}"
  shows "\<exists>doc t receipt. map_of (ob_transfers S) (sr_id r) = Some doc \<and> (doc = transfer_dict t \<or> read_transfer doc = Inr t) \<and>
    sr_content_id r = Some (tr_content_id t) \<and> sr_receipt r = Some (sort_keys receipt) \<and>
    receipt_matches sha t receipt = Some (sr_status r)"
proof -
  have "outbox_ok sha S" using delivery_steps_ok [OF assms(1) new_outbox_ok] by blast
  with assms(2,3) show ?thesis unfolding outbox_ok_def row_ok_def stands_for_def by blast
qed

theorem receipt_bound_to_manifest_witness:
  "\<exists>r receipt. r \<in> set (ob_rows delivered_outbox) \<and> sr_status r = Accepted \<and> sr_receipt r = Some (sort_keys receipt)"
proof -
  obtain r where r: "r \<in> set (ob_rows delivered_outbox)" "sr_status r = Accepted" using delivered_row by blast
  have "sr_status r \<in> {Accepted, Refused}" using r(2) by simp
  from receipt_bound_to_manifest [OF delivered_reached r(1) this] r show ?thesis by blast
qed

text \<open>Claim C13. Whatever happens between two attempts, bundles changed on disk included, a session is never
handed to the transport with other content: both transfers have the same content id and the same files
by size and hash.\<close>

theorem handed_over_unchanged:
  assumes "(delivery_step sha loads)\<^sup>*\<^sup>* (new_outbox worker campaign release) S"
    and "hands_over sha loads tool w S key t" and "drain_one sha loads str_of name_of tool w S = (S1, r)"
    and "(delivery_step sha loads)\<^sup>*\<^sup>* S1 S2" and "hands_over sha loads tool' w' S2 key u"
  shows "tr_content_id t = tr_content_id u \<and>
    map (\<lambda>f. (tf_bytes f, tf_sha256 f)) (tr_files t) = map (\<lambda>f. (tf_bytes f, tf_sha256 f)) (tr_files u)"
proof -
  have ok: "outbox_ok sha S" using delivery_steps_ok [OF assms(1) new_outbox_ok] by blast
  from handed_over_written [OF assms(2,3) ok] obtain doc where doc: "map_of (ob_transfers S1) key = Some doc" "stands_for doc t" by blast
  have "outbox_ok sha S1" using drain_one_ok [OF assms(3) ok] by blast
  from delivery_steps_ok [OF assms(4) this] doc(1) have kept: "map_of (ob_transfers S2) key = Some doc" by (simp add: follows_def)
  from assms(5) obtain row S3 d where "sr_id row = key" "prepare_delivery sha loads tool' w' row S2 = (S3, Inr (d, u))"
    by (auto simp: hands_over_def split: option.splits prod.splits sum.splits)
  with ensure_bundle_transfers kept have "read_transfer doc = Inr u" by blast
  with stands_for_one [OF doc(2)] show ?thesis by (simp add: same_content_def)
qed

theorem handed_over_unchanged_witness:
  "hands_over flat_hash sample_loads sample_tool (meeting 20 (\<lambda>d t m. Accepting)) waiting_outbox sample_key sample_handed \<and>
   tr_content_id sample_handed = sample_content"
proof -
  have reached: "(delivery_step flat_hash sample_loads)\<^sup>*\<^sup>* (new_outbox ''w'' ''c'' ''pin'') enrolled_outbox"
    using enrolled_reached by (rule r_into_rtranclp)
  obtain r where ran: "drain_one flat_hash sample_loads (\<lambda>e. []) (\<lambda>e. []) sample_tool (meeting 10 (\<lambda>d t m. Accepting)) enrolled_outbox = (waiting_outbox, r)"
    by (metis after_attempt_def waiting_outbox_def prod.collapse)
  from handed_over_unchanged [OF reached enrolled_hands_over ran rtranclp.rtrancl_refl waiting_hands_over]
  have "tr_content_id sample_handed = tr_content_id sample_handed" by blast
  with waiting_hands_over show ?thesis by (simp add: sample_handed_def)
qed


section \<open>The transport\<close>

definition sample_http :: http_config where
  "sample_http = \<lparr>hc_split = (\<lambda>u. Inr \<lparr>ep_scheme = ''https'', ep_host = Some ''store'', ep_user = None, ep_password = None, ep_fragment = []\<rparr>),
     hc_hosts = [''store''], hc_loopback = False, hc_max_archive = 100, hc_now = ''now''\<rparr>"

definition sample_hub :: "hub_request list \<Rightarrow> hub_reply" where
  "sample_hub requests =
     (case last requests of
        PostIntent v \<Rightarrow> Body [(''upload_id'', JStr ''u''), (''status'', JStr ''awaiting_upload''), (''upload_url'', JStr ''https://store''),
                              (''upload_method'', JStr ''PUT'')]
      | PutArchive url headers body \<Rightarrow> Body []
      | CompleteUpload u \<Rightarrow> Body [(''status'', JStr ''verified''), (''receipt'', JObj verdict_fields)]
      | GetUpload u \<Rightarrow> Unreachable)"

definition sample_courier :: courier where
  "sample_courier = \<lparr>cu_archives = [], cu_note = None, cu_held = None, cu_trace = []\<rparr>"

definition sample_delivery :: "courier \<times> (transport_answer + (string \<times> json) list option)" where
  "sample_delivery = deliver flat_hash (\<lambda>entries. ''zip'') sample_http sample_hub (\<lambda>requests. True) [(''a'', Regular ''x'')] sample_handed JNull sample_courier"

text \<open>Claim C36. The archive leaves the machine at most once in a call, and only to the address the Hub's
last reply named while it was awaiting the upload, on a trusted host over HTTPS (or the loopback that was
allowed), with no credential header; the upload identity is on disk by then, and only its completion follows.\<close>

theorem upload_authorized:
  assumes "deliver sha tar C hub disk d t metadata s = (s', r)" and "PutArchive url headers body \<in> set (cu_trace s')"
  shows "\<exists>asked u slip rest. cu_trace s' = asked @ PutArchive url headers body # rest \<and>
    (\<forall>other \<in> set (asked @ rest). \<forall>a b c. other \<noteq> PutArchive a b c) \<and> (rest = [] \<or> rest = [CompleteUpload u]) \<and>
    (\<exists>intent. hub asked = Body intent \<and> map_of intent ''status'' = Some (JStr ''awaiting_upload'') \<and>
       map_of intent ''upload_url'' = Some (JStr url)) \<and> validate_url C True url = Inr () \<and>
    (\<forall>(name, v) \<in> set headers. name = ''Content-Length'' \<or> sql_lower name \<notin> set forbidden_headers) \<and>
    cu_note s' = Some slip \<and> un_upload_id slip = u"
proof -
  have some: "list_ex is_put (cu_trace s')" using assms(2) by (auto simp: list_ex_iff is_put_def intro!: bexI [of _ "PutArchive url headers body"])
  with deliver_ok [OF assms(1)] obtain archive where "one_put C hub archive s'" by (auto simp: quiet_def)
  then obtain asked url' headers' rest u slip where one: "cu_trace s' = asked @ PutArchive url' headers' archive # rest"
      "\<not> list_ex is_put asked" "rest = [] \<or> rest = [CompleteUpload u]" "authorized_put C hub asked url' headers'"
      "cu_note s' = Some slip" "un_upload_id slip = u"
    unfolding one_put_def by blast
  have none: "other \<noteq> PutArchive a b c" if "other \<in> set (asked @ rest)" for other a b c
    using that one(2,3) by (auto simp: list_ex_iff is_put_def)
  from assms(2) one(1) none have same: "url' = url" "headers' = headers" "archive = body" by auto
  from one(4) obtain intent where intent: "hub asked = Body intent" "map_of intent ''status'' = Some (JStr ''awaiting_upload'')"
      "map_of intent ''upload_url'' = Some (JStr url)" "validate_url C True url = Inr ()"
    and plain: "\<forall>(name, v) \<in> set headers. name = ''Content-Length'' \<or> sql_lower name \<notin> set forbidden_headers"
    unfolding authorized_put_def same by (elim conjE exE) (rule that)
  have "\<forall>other \<in> set (asked @ rest). \<forall>a b c. other \<noteq> PutArchive a b c" using none by (intro ballI allI)
  moreover have "\<exists>intent. hub asked = Body intent \<and> map_of intent ''status'' = Some (JStr ''awaiting_upload'') \<and>
       map_of intent ''upload_url'' = Some (JStr url)" using intent(1-3) by (intro exI conjI)
  ultimately show ?thesis using one(1,3,5,6) intent(4) plain unfolding same
    by - (rule exI [of _ asked], rule exI [of _ u], rule exI [of _ slip], rule exI [of _ rest], intro conjI)
qed

lemma sample_delivery_put: "PutArchive ''https://store'' [(''Content-Length'', ''3'')] ''zip'' \<in> set (cu_trace (fst sample_delivery))"
  by code_simp

theorem upload_authorized_witness:
  "validate_url sample_http True ''https://store'' = Inr () \<and> (\<exists>slip. cu_note (fst sample_delivery) = Some slip)"
proof -
  obtain s' r where ran: "sample_delivery = (s', r)" by (cases sample_delivery)
  have "PutArchive ''https://store'' [(''Content-Length'', ''3'')] ''zip'' \<in> set (cu_trace s')"
    using sample_delivery_put unfolding ran fst_conv .
  from upload_authorized [OF ran [unfolded sample_delivery_def] this] obtain slip where
    "validate_url sample_http True ''https://store'' = Inr ()" "cu_note s' = Some slip" by blast
  then show ?thesis unfolding ran fst_conv by blast
qed

text \<open>Claim C14. With this transport a waiting session becomes delivered or quarantined only on the Hub's own
verdict: the last reply of the call carried the receipt stored with the row, with the row's status, for
the content id and the manifest hash of the transfer.\<close>

theorem delivered_on_hub_verdict:
  assumes "drain_one sha loads str_of name_of tool w S = (S', r)"
    and "(delivery_step sha loads)\<^sup>*\<^sup>* (new_outbox worker campaign release) S"
    and "wo_transport w = hub_transport sha tar C hub disk s"
    and "row \<in> set (ob_rows S)" and "sr_status row = Waiting"
    and "q \<in> set (ob_rows S')" and "sr_id q = sr_id row" and "sr_status q \<in> {Accepted, Refused}"
  shows "\<exists>d t metadata receipt body. sr_receipt q = Some (sort_keys (JObj receipt)) \<and>
    receipt_matches sha t (JObj receipt) = Some (sr_status q) \<and>
    hub (cu_trace (fst (deliver sha tar C hub disk d t metadata s))) = Body body \<and>
    map_of body ''receipt'' = Some (JObj receipt) \<and> map_of body ''status'' = map_of receipt ''status''"
proof -
  have ok: "outbox_ok sha S" using delivery_steps_ok [OF assms(2) new_outbox_ok] by blast
  from settled_by_receipt [OF assms(1) ok assms(4-8)] obtain d t metadata receipt where
    answer: "hub_transport sha tar C hub disk s d t metadata = Answered receipt"
    and match: "receipt_matches sha t receipt = Some (sr_status q)" "sr_receipt q = Some (sort_keys receipt)"
    unfolding assms(3) by blast
  obtain s' x where ran: "deliver sha tar C hub disk d t metadata s = (s', x)" by (cases "deliver sha tar C hub disk d t metadata s")
  have verdict: "\<exists>kvs. y = Some kvs \<and> hub_verdict hub (cu_trace s') kvs" if "x = Inr y" for y
    using deliver_ok [OF ran] that by blast
  from answer ran obtain y where y: "x = Inr y" "receipt = (case y of Some kvs \<Rightarrow> JObj kvs | None \<Rightarrow> JNull)"
    using deliver_no_answer [OF ran] by (auto simp: hub_transport_def split: sum.splits option.splits)
  with verdict [OF y(1)] obtain kvs where kvs: "receipt = JObj kvs" "hub_verdict hub (cu_trace s') kvs" by auto
  then obtain body where body: "hub (cu_trace s') = Body body" "map_of body ''receipt'' = Some (JObj kvs)" "map_of body ''status'' = map_of kvs ''status''"
    by (auto simp: hub_verdict_def)
  show ?thesis
    using match body ran unfolding kvs(1)
    by (intro exI [of _ d] exI [of _ t] exI [of _ metadata] exI [of _ kvs] exI [of _ body]) simp
qed


definition packed_courier :: courier where
  "packed_courier = sample_courier\<lparr>cu_archives := [(archive_name (replicate 64 CHR ''a''), ''zip'')]\<rparr>"

definition sample_transport :: "tree \<Rightarrow> transfer \<Rightarrow> json \<Rightarrow> transport_answer" where
  "sample_transport = hub_transport flat_hash (\<lambda>entries. ''zip'') sample_http sample_hub (\<lambda>requests. True) packed_courier"

lemma sample_transport_answers: "sample_transport d sample_handed metadata = Answered (JObj verdict_fields)"
  by code_simp

theorem delivered_on_hub_verdict_witness:
  "\<exists>q receipt. q \<in> set (ob_rows (after_attempt (meeting 10 sample_transport) enrolled_outbox)) \<and> sr_status q = Accepted \<and>
     sr_receipt q = Some (sort_keys (JObj receipt))"
proof -
  obtain S' r where ran: "drain_one flat_hash sample_loads (\<lambda>e. []) (\<lambda>e. []) sample_tool (meeting 10 sample_transport) enrolled_outbox = (S', r)"
    by (cases "drain_one flat_hash sample_loads (\<lambda>e. []) (\<lambda>e. []) sample_tool (meeting 10 sample_transport) enrolled_outbox")
  have "\<exists>q \<in> set (ob_rows S'). sr_id q = sample_key \<and> sr_status q = Accepted \<and> sr_receipt q = Some (sort_keys (JObj verdict_fields))"
    by (rule matching_receipt_settles [OF enrolled_hands_over ran enrolled_ok _ verdict_matches])
      (simp add: meeting_def sample_transport_answers)
  then obtain q where q: "q \<in> set (ob_rows S')" "sr_id q = sample_key" "sr_status q = Accepted" by blast
  from enrolled_hands_over [of "\<lambda>d t m. Accepting"] obtain row where row: "row \<in> set (ob_rows enrolled_outbox)" "sr_id row = sample_key" "sr_status row = Waiting"
    by (auto simp: hands_over_def split: option.splits dest: next_due_row)
  have "(delivery_step flat_hash sample_loads)\<^sup>*\<^sup>* (new_outbox ''w'' ''c'' ''pin'') enrolled_outbox"
    using enrolled_reached by (rule r_into_rtranclp)
  moreover have "wo_transport (meeting 10 sample_transport) =
      hub_transport flat_hash (\<lambda>entries. ''zip'') sample_http sample_hub (\<lambda>requests. True) packed_courier"
    by (simp add: meeting_def sample_transport_def)
  moreover have "sr_id q = sr_id row" "sr_status q \<in> {Accepted, Refused}" using q(2,3) row(2) by simp_all
  ultimately obtain receipt where "sr_receipt q = Some (sort_keys (JObj receipt))"
    using delivered_on_hub_verdict [OF ran _ _ row(1,3) q(1)] by blast
  with q ran show ?thesis unfolding after_attempt_def by auto
qed

text \<open>An attempt that hands a session over and gets a receipt matching what it handed over settles
the session with it: once the local files are written, nothing in between can lose the answer.\<close>

theorem matching_receipt_never_lost:
  assumes "hands_over sha loads tool w S key t" and "drain_one sha loads str_of name_of tool w S = (S', r)"
    and "(delivery_step sha loads)\<^sup>*\<^sup>* (new_outbox worker campaign release) S"
    and "\<And>d metadata. wo_transport w d t metadata = Answered receipt" and "receipt_matches sha t receipt = Some status"
  shows "\<exists>q \<in> set (ob_rows S'). sr_id q = key \<and> sr_status q = status \<and> sr_receipt q = Some (sort_keys receipt)"
proof -
  have "outbox_ok sha S" using delivery_steps_ok [OF assms(3) new_outbox_ok] by blast
  from matching_receipt_settles [OF assms(1,2) this assms(4,5)] show ?thesis .
qed

theorem matching_receipt_never_lost_witness: "\<exists>q \<in> set (ob_rows delivered_outbox). sr_status q = Accepted"
proof -
  let ?w = "meeting 10 (\<lambda>d t m. Answered (JObj verdict_fields))"
  obtain S r where ran: "drain_one flat_hash sample_loads (\<lambda>e. []) (\<lambda>e. []) sample_tool ?w enrolled_outbox = (S, r)"
    by (cases "drain_one flat_hash sample_loads (\<lambda>e. []) (\<lambda>e. []) sample_tool ?w enrolled_outbox")
  have reached: "(delivery_step flat_hash sample_loads)\<^sup>*\<^sup>* (new_outbox ''w'' ''c'' ''pin'') enrolled_outbox"
    using enrolled_reached by (rule r_into_rtranclp)
  have "\<exists>q \<in> set (ob_rows S). sr_id q = sample_key \<and> sr_status q = Accepted \<and> sr_receipt q = Some (sort_keys (JObj verdict_fields))"
    by (rule matching_receipt_never_lost [OF enrolled_hands_over ran reached _ verdict_matches]) (simp add: meeting_def)
  then show ?thesis using ran by (auto simp: delivered_outbox_def after_attempt_def)
qed

end
