(* ===== verification/Exports.thy ===== *)
theory Exports
  imports Sharing
begin

text \<open>
  python/spireagent/hub/exports.py: immutable download inventories over collections and artifacts the
  reader may see. The state is the table \<open>project\_exports\<close> beside the operations database; a stored
  inventory is kept as the typed value its canonical text decodes to. \<open>fetch\<close> is the store's
  \<open>get\_manifest\<close> and \<open>chunks\<close> its \<open>read\_payload\<close>.
\<close>

section \<open>Inventories\<close>

record export_file =
  xf_id :: string
  xf_artifact :: string
  xf_type :: string
  xf_role :: "string option"
  xf_sha256 :: string
  xf_size :: int
  xf_media :: string
  xf_filename :: string
  xf_upload :: "string option"

record export_inventory =
  xi_schema :: string
  xi_policy :: string
  xi_collections :: "string list"
  xi_artifacts :: "(string \<times> string list) list"
  xi_files :: "export_file list"
  xi_total :: int

record export_row =
  xr_id :: string
  xr_inventory :: export_inventory
  xr_created_at :: real

type_synonym export_state = "export_row list \<times> ops"

definition export_schema :: string where "export_schema = ''stpd/project-export-v1''"
definition export_request_schema :: string where "export_request_schema = ''stpd/project-export-request-v1''"
definition sharing_policy :: string where "sharing_policy = ''stpd/project-sharing-v2''"
definition old_sharing_policy :: string where "old_sharing_policy = ''stpd/project-sharing-v1''"
definition max_selections :: int where "max_selections = 100"
definition max_export_files :: int where "max_export_files = 1000"
definition max_export_bytes :: int where "max_export_bytes = 20 * 1024 ^ 3"
definition max_inventory_bytes :: int where "max_inventory_bytes = 2 * 1024 ^ 2"

definition optional_text :: "string option \<Rightarrow> json" where
  "optional_text x = (case x of None \<Rightarrow> JNull | Some t \<Rightarrow> JStr t)"

definition export_file_dict :: "export_file \<Rightarrow> json" where
  "export_file_dict f =
     JObj [(''file_id'', JStr (xf_id f)), (''artifact_id'', JStr (xf_artifact f)), (''type'', JStr (xf_type f)),
           (''role'', optional_text (xf_role f)), (''sha256'', JStr (xf_sha256 f)), (''size'', JInt (xf_size f)),
           (''media_type'', JStr (xf_media f)), (''filename'', JStr (xf_filename f)), (''upload_id'', optional_text (xf_upload f))]"

definition inventory_dict :: "export_inventory \<Rightarrow> json" where
  "inventory_dict v =
     JObj [(''schema'', JStr (xi_schema v)), (''policy'', JStr (xi_policy v)),
           (''selection'', JObj [(''collections'', JList (map JStr (xi_collections v))),
              (''artifacts'', JList (map (\<lambda>(i, roles). JObj [(''artifact_id'', JStr i), (''roles'', JList (map JStr roles))]) (xi_artifacts v)))]),
           (''files'', JList (map export_file_dict (xi_files v))), (''total_bytes'', JInt (xi_total v)),
           (''files_count'', JInt (int (length (xi_files v)))), (''scope'', JStr ''selected_own_payloads''),
           (''non_claims'', JList [JStr ''complete lineage cache'', JStr ''research admission'', JStr ''training permission''])]"

definition inventory_text :: "export_inventory \<Rightarrow> string" where
  "inventory_text v = json_bytes (inventory_dict v)"

text \<open>\<open>\_file\<close>: the manifest itself without a role, or one payload.\<close>

definition file_identity :: "stdlib \<Rightarrow> manifest \<Rightarrow> string option \<Rightarrow> string" where
  "file_identity L m role =
     sha256 L (json_bytes (JList [JStr (artifact_id L m), JStr (if role = None then ''manifest'' else ''payload''), optional_text role]))"

definition export_file_of :: "stdlib \<Rightarrow> manifest \<Rightarrow> string option \<Rightarrow> string option \<Rightarrow> export_file result" where
  "export_file_of L m role upload =
     (let i = file_identity L m role in
      case role of
        None \<Rightarrow>
          (let raw = manifest_bytes L m in
           Inr \<lparr>xf_id = i, xf_artifact = artifact_id L m, xf_type = ''manifest'', xf_role = None, xf_sha256 = sha256 L raw,
                xf_size = int (length raw), xf_media = ''application/json'', xf_filename = i @ ''.json'', xf_upload = upload\<rparr>)
      | Some name \<Rightarrow>
          and_then (manifest_payload m name) (\<lambda>p.
            Inr \<lparr>xf_id = i, xf_artifact = artifact_id L m, xf_type = ''payload'', xf_role = Some name, xf_sha256 = payload_sha p,
                 xf_size = payload_size p, xf_media = payload_media p, xf_filename = i @ ''.bin'', xf_upload = upload\<rparr>))"

section \<open>Creating an inventory\<close>

definition export_error :: "string \<Rightarrow> py_error" where
  "export_error code = BoundaryError ''export'' code"

definition json_list :: "json option \<Rightarrow> json list option" where
  "json_list v = (case v of Some (JList vs) \<Rightarrow> Some vs | _ \<Rightarrow> None)"

text \<open>The checked request: the collections and artifacts it selects.\<close>

definition export_request :: "json \<Rightarrow> (json list \<times> json list) result" where
  "export_request request =
     and_then (object_fields request [''schema'', ''collections'', ''artifacts''] ''export'') (\<lambda>kvs.
     case (json_list (map_of kvs ''collections''), json_list (map_of kvs ''artifacts'')) of
       (Some cs, Some as) \<Rightarrow>
         if map_of kvs ''schema'' \<noteq> Some (JStr export_request_schema) \<or>
            \<not> (1 \<le> int (length cs + length as) \<and> int (length cs + length as) \<le> max_selections)
         then Inl (export_error ''invalid_selection'') else Inr (cs, as)
     | _ \<Rightarrow> Inl (export_error ''invalid_selection''))"

definition export_collections :: "json list \<Rightarrow> string list result" where
  "export_collections cs =
     and_then (each sharing_upload_id cs) (\<lambda>ids.
     if \<not> distinct ids then Inl (export_error ''duplicate_selection'') else Inr (sort ids))"

definition collection_file :: "stdlib \<Rightarrow> (string \<Rightarrow> manifest result) \<Rightarrow> ops \<Rightarrow> string \<Rightarrow> export_file result" where
  "collection_file L fetch s upload =
     and_then (collection fetch (JStr upload) s) (\<lambda>m. export_file_of L m (Some ''archive'') (Some upload))"

definition role_names :: "json \<Rightarrow> string list result" where
  "role_names v =
     (case v of
        JList vs \<Rightarrow>
          if int (length vs) > max_export_files \<or> list_ex (\<lambda>x. case x of JStr _ \<Rightarrow> False | _ \<Rightarrow> True) vs
          then Inl (export_error ''invalid_payload_roles'')
          else
            let names = map (\<lambda>x. case x of JStr t \<Rightarrow> t | _ \<Rightarrow> []) vs in
            if \<not> distinct names then Inl (export_error ''invalid_payload_roles'') else Inr (sort names)
      | _ \<Rightarrow> Inl (export_error ''invalid_payload_roles''))"

definition artifact_files ::
  "stdlib \<Rightarrow> (string \<Rightarrow> manifest result) \<Rightarrow> real \<Rightarrow> ops \<Rightarrow> string list \<Rightarrow> json \<Rightarrow> ((string \<times> string list) \<times> export_file list) result" where
  "artifact_files L fetch clock s seen raw =
     and_then (object_fields raw [''artifact_id'', ''roles''] ''export.artifact'') (\<lambda>kvs.
     and_then (item kvs ''artifact_id'') (\<lambda>wanted.
     and_then (snd (artifact L fetch clock wanted None s)) (\<lambda>m.
     and_then (item kvs ''roles'') (\<lambda>v.
     and_then (role_names v) (\<lambda>roles.
     if artifact_id L m \<in> set seen then Inl (export_error ''invalid_payload_roles'')
     else
       and_then (export_file_of L m None None) (\<lambda>own.
       and_then (each (\<lambda>role. export_file_of L m (Some role) None) roles) (\<lambda>payloads.
         Inr ((artifact_id L m, roles), own # payloads))))))))"

fun export_artifacts ::
  "stdlib \<Rightarrow> (string \<Rightarrow> manifest result) \<Rightarrow> real \<Rightarrow> ops \<Rightarrow> string list \<Rightarrow> json list \<Rightarrow> ((string \<times> string list) list \<times> export_file list) result" where
  "export_artifacts L fetch clock s seen [] = Inr ([], [])"
| "export_artifacts L fetch clock s seen (raw # rest) =
     and_then (artifact_files L fetch clock s seen raw) (\<lambda>(selected, files).
     and_then (export_artifacts L fetch clock s (fst selected # seen) rest) (\<lambda>(more_selected, more_files).
       Inr (selected # more_selected, files @ more_files)))"

definition build_inventory ::
  "stdlib \<Rightarrow> (string \<Rightarrow> manifest result) \<Rightarrow> real \<Rightarrow> json \<Rightarrow> ops \<Rightarrow> export_inventory result" where
  "build_inventory L fetch clock request s =
     and_then (export_request request) (\<lambda>(cs, as).
     and_then (export_collections cs) (\<lambda>uploads.
     and_then (each (collection_file L fetch s) uploads) (\<lambda>archives.
     and_then (export_artifacts L fetch clock s [] as) (\<lambda>(selected, own).
     let files = sort_key xf_id (archives @ own); total = sum_list (map xf_size files) in
     if \<not> distinct (map xf_id files) then Inl (export_error ''duplicate_file_selection'')
     else if int (length files) > max_export_files \<or> total > max_export_bytes then Inl (export_error ''export_size_limit'')
     else
       let v = \<lparr>xi_schema = export_schema, xi_policy = sharing_policy, xi_collections = uploads,
                xi_artifacts = sort_key fst selected, xi_files = files, xi_total = total\<rparr> in
       if int (length (inventory_text v)) > max_inventory_bytes then Inl (export_error ''inventory_size_limit'')
       else Inr v))))"

section \<open>Reading an inventory\<close>

definition stored_inventory :: "stdlib \<Rightarrow> principal \<Rightarrow> json \<Rightarrow> export_row list \<Rightarrow> export_row result" where
  "stored_inventory L p wanted rows =
     and_then (require_member p) (\<lambda>_.
     and_then (digest wanted ''export.id'' 64) (\<lambda>i.
     case find (\<lambda>r. xr_id r = i) rows of
       None \<Rightarrow> Inl (export_error ''export_not_found'')
     | Some r \<Rightarrow>
         let v = xr_inventory r in
         if int (length (inventory_text v)) > max_inventory_bytes \<or> sha256 L (inventory_text v) \<noteq> i
         then Inl (export_error ''inventory_integrity_failure'')
         else if xi_schema v \<noteq> export_schema \<or> xi_policy v \<notin> {old_sharing_policy, sharing_policy}
         then Inl (export_error ''export_policy_changed'')
         else Inr r))"

definition create_export ::
  "stdlib \<Rightarrow> (string \<Rightarrow> manifest result) \<Rightarrow> real \<Rightarrow> principal \<Rightarrow> json \<Rightarrow> export_state \<Rightarrow> export_state \<times> export_row result" where
  "create_export L fetch clock p request st =
     (let (rows, s) = st in
      case and_then (require_member p) (\<lambda>_. build_inventory L fetch clock request s) of
        Inl e \<Rightarrow> (st, Inl e)
      | Inr v \<Rightarrow>
          let i = sha256 L (inventory_text v);
              rows' = insert_ignore xr_id \<lparr>xr_id = i, xr_inventory = v, xr_created_at = clock\<rparr> rows;
              s' = record_event clock (pr_subject p) ''project_export_selected'' i
                     (JObj [(''files'', JInt (int (length (xi_files v)))), (''bytes'', JInt (xi_total v))]) s
          in ((rows', s'), stored_inventory L p (JStr i) rows'))"

definition each_allowed :: "('a \<Rightarrow> 'b result) \<Rightarrow> 'a list \<Rightarrow> unit result" where
  "each_allowed f xs = and_then (each f xs) (\<lambda>_. Inr ())"

text \<open>Every selected source is checked again.\<close>

definition read_export ::
  "stdlib \<Rightarrow> (string \<Rightarrow> manifest result) \<Rightarrow> real \<Rightarrow> principal \<Rightarrow> json \<Rightarrow> export_state \<Rightarrow> export_row result" where
  "read_export L fetch clock p wanted st =
     (let (rows, s) = st in
      and_then (stored_inventory L p wanted rows) (\<lambda>r.
      and_then (each_allowed (\<lambda>u. collection fetch (JStr u) s) (xi_collections (xr_inventory r))) (\<lambda>_.
      and_then (each_allowed (\<lambda>(i, roles). snd (artifact L fetch clock (JStr i) None s)) (xi_artifacts (xr_inventory r))) (\<lambda>_.
        Inr r))))"

definition selected_file :: "stdlib \<Rightarrow> principal \<Rightarrow> json \<Rightarrow> json \<Rightarrow> export_row list \<Rightarrow> export_file result" where
  "selected_file L p wanted file rows =
     and_then (stored_inventory L p wanted rows) (\<lambda>r.
     and_then (digest file ''export.file_id'' 64) (\<lambda>i.
     case find (\<lambda>f. xf_id f = i) (xi_files (xr_inventory r)) of
       None \<Rightarrow> Inl (export_error ''file_not_selected'') | Some f \<Rightarrow> Inr f))"

definition source_manifest ::
  "stdlib \<Rightarrow> (string \<Rightarrow> manifest result) \<Rightarrow> real \<Rightarrow> export_file \<Rightarrow> ops \<Rightarrow> ops \<times> manifest result" where
  "source_manifest L fetch clock f s =
     (case xf_upload f of
        Some u \<Rightarrow> if u = [] then artifact L fetch clock (JStr (xf_artifact f)) (Some ''download'') s else (s, collection fetch (JStr u) s)
      | None \<Rightarrow> artifact L fetch clock (JStr (xf_artifact f)) (Some ''download'') s)"

definition file_content :: "stdlib \<Rightarrow> (payload \<Rightarrow> string list result) \<Rightarrow> manifest \<Rightarrow> export_file \<Rightarrow> string list result" where
  "file_content L chunks m f =
     (if xf_type f = ''manifest'' then Inr [manifest_bytes L m]
      else and_then (manifest_payload m (case xf_role f of None \<Rightarrow> [] | Some r \<Rightarrow> r)) chunks)"

text \<open>The use of a collection is recorded here, the use of an artifact by \<open>artifact\<close>; both before the content is read.\<close>

definition export_payload ::
  "stdlib \<Rightarrow> (string \<Rightarrow> manifest result) \<Rightarrow> (payload \<Rightarrow> string list result) \<Rightarrow> real \<Rightarrow> principal \<Rightarrow> json \<Rightarrow> json \<Rightarrow> export_state \<Rightarrow>
   ops \<times> (export_file \<times> string list) result" where
  "export_payload L fetch chunks clock p wanted file st =
     (let (rows, s) = st in
      case selected_file L p wanted file rows of
        Inl e \<Rightarrow> (s, Inl e)
      | Inr f \<Rightarrow>
          (case source_manifest L fetch clock f s of
             (s1, Inl e) \<Rightarrow> (s1, Inl e)
           | (s1, Inr m) \<Rightarrow>
               (case export_file_of L m (xf_role f) (xf_upload f) of
                  Inl e \<Rightarrow> (s1, Inl e)
                | Inr observed \<Rightarrow>
                    if f \<noteq> observed then (s1, Inl (export_error ''file_identity_mismatch''))
                    else
                      (case (if xf_upload f \<noteq> None \<and> xf_upload f \<noteq> Some [] then record_use L fetch clock m ''download'' [] s1 else (s1, Inr ())) of
                         (s2, Inl e) \<Rightarrow> (s2, Inl e)
                       | (s2, Inr u) \<Rightarrow> (s2, and_then (file_content L chunks m f) (\<lambda>bytes. Inr (f, bytes)))))))"

end
