(* ===== verification/ExportClaims.thy ===== *)
theory ExportClaims
  imports Exports SharingClaims
begin

text \<open>
  The properties of the download inventories: they are well formed and immutable, and what is
  downloaded through them is what the reader may still see.
\<close>

section \<open>Well-formed inventories\<close>

definition inventory_ok :: "stdlib \<Rightarrow> export_row \<Rightarrow> bool" where
  "inventory_ok L r \<longleftrightarrow>
     (let v = xr_inventory r in
      xr_id r = sha256 L (inventory_text v) \<and> xi_schema v = export_schema \<and> xi_policy v = sharing_policy \<and>
      distinct (map xf_id (xi_files v)) \<and> sorted (map xf_id (xi_files v)) \<and> distinct (xi_collections v) \<and>
      xi_total v = sum_list (map xf_size (xi_files v)) \<and>
      length (xi_files v) \<le> 1000 \<and> xi_total v \<le> 21474836480 \<and> int (length (inventory_text v)) \<le> 2097152)"

definition exports_ok :: "stdlib \<Rightarrow> export_row list \<Rightarrow> bool" where
  "exports_ok L rows \<longleftrightarrow> distinct (map xr_id rows) \<and> list_all (inventory_ok L) rows"

lemma build_inventory_ok:
  assumes "build_inventory L fetch clock request s = Inr v"
  shows "inventory_ok L \<lparr>xr_id = sha256 L (inventory_text v), xr_inventory = v, xr_created_at = t\<rparr>"
proof -
  from assms obtain uploads archives selected own cs where parts: "export_collections cs = Inr uploads"
    and files: "distinct (map xf_id (sort_key xf_id (archives @ own)))"
    and v: "v = \<lparr>xi_schema = export_schema, xi_policy = sharing_policy, xi_collections = uploads, xi_artifacts = sort_key fst selected,
        xi_files = sort_key xf_id (archives @ own), xi_total = sum_list (map xf_size (sort_key xf_id (archives @ own)))\<rparr>"
    and bounds: "int (length (sort_key xf_id (archives @ own))) \<le> max_export_files"
      "sum_list (map xf_size (sort_key xf_id (archives @ own))) \<le> max_export_bytes" "int (length (inventory_text v)) \<le> max_inventory_bytes"
    unfolding build_inventory_def by (auto simp: returned Let_def split: prod.splits if_splits)
  have "distinct uploads" using parts by (auto simp: export_collections_def returned split: if_splits)
  moreover have "length (xi_files v) \<le> 1000" "xi_total v \<le> 21474836480" "int (length (inventory_text v)) \<le> 2097152"
    using bounds by (simp_all add: v max_export_files_def max_export_bytes_def max_inventory_bytes_def)
  ultimately show ?thesis using files by (simp add: inventory_ok_def Let_def v)
qed

text \<open>One request to create an export, or anything else, which leaves the table alone.\<close>

inductive export_step :: "stdlib \<Rightarrow> export_state \<Rightarrow> export_state \<Rightarrow> bool" for L where
  created: "create_export L fetch clock p request st = (st', r) \<Longrightarrow> export_step L st st'"
| other: "fst st' = fst st \<Longrightarrow> export_step L st st'"

definition rows_kept :: "export_state \<Rightarrow> export_state \<Rightarrow> bool" where
  "rows_kept st st' \<longleftrightarrow> (\<forall>i r. find (\<lambda>r. xr_id r = i) (fst st) = Some r \<longrightarrow> find (\<lambda>r. xr_id r = i) (fst st') = Some r)"

lemma create_export_cases:
  assumes "create_export L fetch clock p request st = (st', r)"
  shows "st' = st \<and> (\<exists>e. r = Inl e) \<or>
    (\<exists>v. build_inventory L fetch clock request (snd st) = Inr v \<and>
       fst st' = insert_ignore xr_id \<lparr>xr_id = sha256 L (inventory_text v), xr_inventory = v, xr_created_at = clock\<rparr> (fst st) \<and>
       r = stored_inventory L p (JStr (sha256 L (inventory_text v))) (fst st'))"
  using assms unfolding create_export_def Let_def
  by (auto simp: and_then_eq_Inr split: prod.splits sum.splits)

lemma insert_ignore_kept:
  "find (\<lambda>r. key r = i) rows = Some r \<Longrightarrow> find (\<lambda>r. key r = i) (insert_ignore key row rows) = Some r"
  by (simp add: insert_ignore_def find_append)

lemma export_step_ok:
  "export_step L st st' \<Longrightarrow> exports_ok L (fst st) \<Longrightarrow> exports_ok L (fst st') \<and> rows_kept st st'"
proof (induction rule: export_step.induct)
  case (created fetch clock p request st st' r)
  from create_export_cases [OF created(1)] consider "st' = st"
    | v where "build_inventory L fetch clock request (snd st) = Inr v"
      "fst st' = insert_ignore xr_id \<lparr>xr_id = sha256 L (inventory_text v), xr_inventory = v, xr_created_at = clock\<rparr> (fst st)" by blast
  then show ?case
  proof cases
    case 1
    with created(2) show ?thesis by (simp add: rows_kept_def)
  next
    case (2 v)
    have "list_all (inventory_ok L) (fst st')"
      using created(2) build_inventory_ok [OF 2(1)] unfolding 2(2) exports_ok_def list_all_iff by (auto dest: in_insert_ignore)
    moreover have "distinct (map xr_id (fst st'))"
      using created(2) unfolding 2(2) exports_ok_def insert_ignore_def by auto
    moreover have "rows_kept st st'" unfolding rows_kept_def 2(2) by (auto intro: insert_ignore_kept)
    ultimately show ?thesis by (simp add: exports_ok_def)
  qed
qed (simp add: rows_kept_def)

lemma export_steps_ok: "(export_step L)\<^sup>*\<^sup>* st st' \<Longrightarrow> exports_ok L (fst st) \<Longrightarrow> exports_ok L (fst st') \<and> rows_kept st st'"
proof (induction rule: rtranclp_induct)
  case (step st' st'')
  with export_step_ok [OF step.hyps(2)] show ?case unfolding rows_kept_def by blast
qed (simp add: rows_kept_def)

lemma export_steps_kept: "(export_step L)\<^sup>*\<^sup>* st st' \<Longrightarrow> rows_kept st st'"
proof (induction rule: rtranclp_induct)
  case (step st' st'')
  have "rows_kept st' st''"
    using step.hyps(2)
  proof cases
    case (created fetch clock p request r)
    from create_export_cases [OF this] show ?thesis unfolding rows_kept_def by (auto intro: insert_ignore_kept)
  qed (simp add: rows_kept_def)
  with step.IH show ?case unfolding rows_kept_def by blast
qed (simp add: rows_kept_def)

lemma no_exports_ok: "exports_ok L []"
  by (simp add: exports_ok_def)

section \<open>What a download returns\<close>

lemma stored_row: "stored_inventory L p wanted rows = Inr r \<Longrightarrow> project_shared p \<and> r \<in> set rows \<and> digest wanted ''export.id'' 64 = Inr (xr_id r)"
  unfolding stored_inventory_def
  by (auto simp: returned require_member_def Let_def dest!: find_key_Some split: if_splits option.splits)

lemma export_payload_cases:
  assumes "export_payload L fetch chunks clock p wanted file (rows, s) = (s', Inr (f, bytes))"
  obtains r m s1 where "stored_inventory L p wanted rows = Inr r" "f \<in> set (xi_files (xr_inventory r))"
    "source_manifest L fetch clock f s = (s1, Inr m)" "export_file_of L m (xf_role f) (xf_upload f) = Inr f"
    "file_content L chunks m f = Inr bytes"
proof -
  from assms obtain f' where sel: "selected_file L p wanted file rows = Inr f'"
    by (auto simp: export_payload_def split: sum.splits)
  with assms obtain m s1 where src: "source_manifest L fetch clock f' s = (s1, Inr m)"
    by (auto simp: export_payload_def split: prod.splits sum.splits)
  with assms sel have ok: "export_file_of L m (xf_role f') (xf_upload f') = Inr f'" "file_content L chunks m f' = Inr bytes" "f = f'"
    unfolding export_payload_def by (auto simp: returned split: prod.splits sum.splits if_splits)
  from sel obtain r where "stored_inventory L p wanted rows = Inr r" "f' \<in> set (xi_files (xr_inventory r))"
    by (auto simp: selected_file_def returned find_Some_iff split: option.splits)
  with src ok show thesis by (intro that) simp_all
qed

lemma artifact_access:
  assumes "artifact L fetch clock (JStr i) purpose s = (s', Inr m)"
  shows "fetch i = Inr m \<and> (\<exists>nodes. require_artifact_access L m True None (Some fetch) = Inr nodes)"
proof -
  have "(case and_then (digest (JStr i) ''export.artifact_id'' 64) (\<lambda>i. and_then (fetch i) (\<lambda>m.
      and_then (require_artifact_access L m True None (Some fetch)) (\<lambda>checked. Inr (m, checked)))) of Inl e \<Rightarrow> False
    | Inr (n, checked) \<Rightarrow> n = m)"
    using assms unfolding artifact_def by (auto split: sum.splits prod.splits if_splits option.splits)
  then show ?thesis by (auto simp: returned digest_def split: sum.splits if_splits)
qed

text \<open>Claim C38. A download through an export is decided by what holds now: the reader is a project member, the
file is one of the stored inventory, its source can still be read (the collection is shared, or the
artifact's access is granted), and the source's file is exactly the inventory's, down to hash and size.\<close>

theorem export_payload_current:
  assumes "export_payload L fetch chunks clock p wanted file (rows, s) = (s', Inr (f, bytes))"
  shows "project_shared p \<and> (\<exists>r \<in> set rows. f \<in> set (xi_files (xr_inventory r))) \<and>
    (\<exists>m. export_file_of L m (xf_role f) (xf_upload f) = Inr f \<and> file_content L chunks m f = Inr bytes \<and>
       (case xf_upload f of
          Some u \<Rightarrow> collection fetch (JStr u) s = Inr m \<or> u = []
        | None \<Rightarrow> fetch (xf_artifact f) = Inr m \<and> (\<exists>nodes. require_artifact_access L m True None (Some fetch) = Inr nodes)))"
proof -
  from assms obtain r m s1 where parts: "stored_inventory L p wanted rows = Inr r" "f \<in> set (xi_files (xr_inventory r))"
    "source_manifest L fetch clock f s = (s1, Inr m)" "export_file_of L m (xf_role f) (xf_upload f) = Inr f" "file_content L chunks m f = Inr bytes"
    by (rule export_payload_cases)
  have "case xf_upload f of
          Some u \<Rightarrow> collection fetch (JStr u) s = Inr m \<or> u = []
        | None \<Rightarrow> fetch (xf_artifact f) = Inr m \<and> (\<exists>nodes. require_artifact_access L m True None (Some fetch) = Inr nodes)"
    using parts(3) artifact_access by (auto simp: source_manifest_def split: option.splits if_splits)
  with parts(2,4,5) stored_row [OF parts(1)] show ?thesis by blast
qed

text \<open>Claim C39. A withdrawn collection cannot be downloaded through any export, however old: after the
withdrawal, and any automatic associations since, no file of it is handed out and no inventory that
selects it can be read.\<close>

theorem withdrawn_never_exported:
  assumes "set_collection_access clock upload (JBool False) evidence actor s = Inr (s1, u)"
    and "(associates L' repr)\<^sup>*\<^sup>* s1 s2" and "sharing_upload_id upload = Inr i"
  shows "(\<forall>s' f bytes. export_payload L fetch chunks now p wanted file (rows, s2) = (s', Inr (f, bytes)) \<longrightarrow> xf_upload f \<noteq> Some i) \<and>
    (\<forall>r. read_export L fetch now p wanted (rows, s2) = Inr r \<longrightarrow> i \<notin> set (xi_collections (xr_inventory r)))"
proof -
  from withdrawal_stored [OF assms(1)] obtain j where j: "sharing_upload_id upload = Inr j" "approval_of s1 j = Some False" .
  with assms(3) have "approval_of s1 i = Some False" by simp
  from associations_decided [OF assms(2) this] have gone: "approval_of s2 i = Some False" .
  have named: "sharing_upload_id (JStr i) = Inr i" and "i \<noteq> []"
    using assms(3) by (auto simp: sharing_upload_id_def split: json.splits if_splits)
  have none: "collection fetch (JStr i) s2 \<noteq> Inr m" for m
    using gone named by (auto simp: collection_def and_then_eq_Inr split: option.splits)
  have "xf_upload f \<noteq> Some i" if "export_payload L fetch chunks now p wanted file (rows, s2) = (s', Inr (f, bytes))" for s' f bytes
  proof
    assume up: "xf_upload f = Some i"
    from that obtain r m s3 where "source_manifest L fetch now f s2 = (s3, Inr m)" by (rule export_payload_cases)
    with up \<open>i \<noteq> []\<close> none show False by (simp add: source_manifest_def)
  qed
  moreover have "i \<notin> set (xi_collections (xr_inventory r))" if "read_export L fetch now p wanted (rows, s2) = Inr r" for r
  proof
    assume "i \<in> set (xi_collections (xr_inventory r))"
    moreover have "\<exists>ms. each (\<lambda>u. collection fetch (JStr u) s2) (xi_collections (xr_inventory r)) = Inr ms"
      using that unfolding read_export_def each_allowed_def Let_def prod.case and_then_eq_Inr by blast
    ultimately have "\<exists>m. collection fetch (JStr i) s2 = Inr m" using each_in_set [of "\<lambda>u. collection fetch (JStr u) s2"] by blast
    with none show False by blast
  qed
  ultimately show ?thesis by blast
qed

text \<open>In every reachable table the inventories are within their bounds (1000 files, 20 GiB, 2 MiB of
text), list their files once and in order with the exact total, and carry the hash of their text as name.\<close>

theorem exports_well_formed:
  assumes "(export_step L)\<^sup>*\<^sup>* ([], s) (rows, s')" and "r \<in> set rows"
  shows "xr_id r = sha256 L (inventory_text (xr_inventory r)) \<and> distinct (map xf_id (xi_files (xr_inventory r))) \<and>
    sorted (map xf_id (xi_files (xr_inventory r))) \<and> xi_total (xr_inventory r) = sum_list (map xf_size (xi_files (xr_inventory r))) \<and>
    length (xi_files (xr_inventory r)) \<le> 1000 \<and> xi_total (xr_inventory r) \<le> 21474836480 \<and>
    int (length (inventory_text (xr_inventory r))) \<le> 2097152"
proof -
  have "exports_ok L rows" using export_steps_ok [OF assms(1)] no_exports_ok by simp
  with assms(2) have "inventory_ok L r" by (simp add: exports_ok_def list_all_iff)
  then show ?thesis unfolding inventory_ok_def Let_def by blast
qed

text \<open>A created export reads back as it was created, whatever is created or changed later.\<close>

theorem export_reads_back:
  assumes "create_export L fetch clock p request st = (st1, Inr r)" and "(export_step L)\<^sup>*\<^sup>* st1 st2" and "project_shared q"
  shows "stored_inventory L q (JStr (xr_id r)) (fst st2) = Inr r"
proof -
  from create_export_cases [OF assms(1)] obtain i where r: "stored_inventory L p (JStr i) (fst st1) = Inr r" by auto
  with stored_row [OF r] have i: "i = xr_id r" "digest (JStr i) ''export.id'' 64 = Inr i" by (auto simp: digest_def split: if_splits)
  from r i(2) have "find (\<lambda>r. xr_id r = i) (fst st1) = Some r"
    by (auto simp: stored_inventory_def returned Let_def split: option.splits if_splits)
  then have "find (\<lambda>r. xr_id r = i) (fst st2) = Some r"
    using export_steps_kept [OF assms(2)] by (simp add: rows_kept_def)
  with r i assms(3) show ?thesis
    by (auto simp: stored_inventory_def returned require_member_def Let_def split: option.splits if_splits)
qed


section \<open>A shared collection\<close>

definition flat_lib :: stdlib where
  "flat_lib = sample_lib\<lparr>sha256 := (\<lambda>t. replicate 64 CHR ''a'')\<rparr>"

definition received_manifest :: manifest where
  "received_manifest = \<lparr>mf_kind = ''evidence'', mf_producer = sample_producer, mf_parents = [],
     mf_payloads = [Payload ''archive'' sample_input 3 ''application/gzip''],
     mf_parameters = JObj [(''schema'', JStr ''stpd/received-bundle-v1''), (''content_id'', JStr ''c''), (''disposition'', JStr ''verified'')]\<rparr>"

definition exporting_upload :: upload where
  "exporting_upload = sharing_upload\<lparr>u_intent := JObj [(''archive_sha256'', JStr sample_input), (''archive_bytes'', JInt 3)]\<rparr>"

definition exporting_project :: ops where
  "exporting_project = new_operations\<lparr>uploads := [exporting_upload]\<rparr>"

definition exporting_member :: principal where
  "exporting_member = new_principal ''member'' []"

definition flat_id :: string where
  "flat_id = replicate 64 CHR ''a''"

definition exporting_request :: json where
  "exporting_request = JObj [(''schema'', JStr export_request_schema), (''collections'', JList [JStr (replicate 32 CHR ''b'')]),
     (''artifacts'', JList [])]"

abbreviation exporting :: "export_state \<times> export_row result" where
  "exporting \<equiv> create_export flat_lib (\<lambda>i. Inr received_manifest) 5 exporting_member exporting_request ([], exporting_project)"

abbreviation downloading :: "export_row list \<Rightarrow> ops \<times> (export_file \<times> string list) result" where
  "downloading rows \<equiv> export_payload flat_lib (\<lambda>i. Inr received_manifest) (\<lambda>p. Inr [''zip'']) 6 exporting_member
     (JStr flat_id) (JStr flat_id) (rows, exporting_project)"

lemma exporting_ran: "map_sum (\<lambda>e. ()) xr_id (snd exporting) = Inr flat_id"
  by code_simp

lemma downloading_ran: "map_sum (\<lambda>e. ()) (\<lambda>p. (xf_upload (fst p), snd p)) (snd (downloading (fst (fst exporting)))) = Inr (Some (replicate 32 CHR ''b''), [''zip''])"
  by code_simp

lemma exporting_returns: obtains rows s r where "exporting = ((rows, s), Inr r)" "xr_id r = flat_id"
proof -
  obtain rows s q where run: "exporting = ((rows, s), q)" by (cases exporting) auto
  with exporting_ran have "map_sum (\<lambda>e. ()) xr_id q = Inr flat_id" by (simp only: snd_conv)
  then obtain r where "q = Inr r" "xr_id r = flat_id" by (cases q) simp_all
  with run show thesis by (intro that) simp_all
qed

theorem export_payload_current_witness:
  "project_shared exporting_member \<and> (\<exists>m. collection (\<lambda>i. Inr received_manifest) (JStr (replicate 32 CHR ''b'')) exporting_project = Inr m)"
proof -
  obtain s' q where run: "downloading (fst (fst exporting)) = (s', q)" by (cases "downloading (fst (fst exporting))")
  with downloading_ran have "map_sum (\<lambda>e. ()) (\<lambda>p. (xf_upload (fst p), snd p)) q = Inr (Some (replicate 32 CHR ''b''), [''zip''])" by (simp only: snd_conv)
  then obtain f bytes where q: "q = Inr (f, bytes)" "xf_upload f = Some (replicate 32 CHR ''b'')" by (cases q) auto
  from export_payload_current [OF run [unfolded q(1)]] q(2) show ?thesis by auto
qed

lemma exporting_withdrawal: "map_sum (\<lambda>e. ()) (\<lambda>p. map sh_approved (shared (fst p))) (withdrawal exporting_project) = Inr [False]"
  by code_simp

theorem withdrawn_never_exported_witness:
  "\<exists>s1. withdrawal exporting_project = Inr (s1, ()) \<and>
     (\<forall>s' f bytes. export_payload flat_lib (\<lambda>i. Inr received_manifest) (\<lambda>p. Inr [''zip'']) 9 exporting_member (JStr flat_id) (JStr flat_id)
        (fst (fst exporting), s1) = (s', Inr (f, bytes)) \<longrightarrow> xf_upload f \<noteq> Some (replicate 32 CHR ''b''))"
proof -
  obtain s1 u where ran: "withdrawal exporting_project = Inr (s1, u)"
    by (rule returned_view [where t = withdrawal and s = exporting_project, OF exporting_withdrawal])
  have "sharing_upload_id (JStr (replicate 32 CHR ''b'')) = Inr (replicate 32 CHR ''b'')" by code_simp
  from withdrawn_never_exported [OF ran rtranclp.rtrancl_refl this, of flat_lib "\<lambda>i. Inr received_manifest" "\<lambda>p. Inr [''zip'']" 9 exporting_member
      "JStr flat_id" "JStr flat_id" "fst (fst exporting)"] ran
  show ?thesis by (intro exI [of _ s1]) simp
qed

theorem exports_well_formed_witness:
  "\<exists>r \<in> set (fst (fst exporting)). xi_total (xr_inventory r) = sum_list (map xf_size (xi_files (xr_inventory r)))"
proof -
  obtain rows s r where run: "exporting = ((rows, s), Inr r)" by (rule exporting_returns)
  have steps: "(export_step flat_lib)\<^sup>*\<^sup>* ([], exporting_project) (rows, s)"
    by (rule r_into_rtranclp, rule export_step.created, rule run)
  from create_export_cases [OF run] stored_row have "r \<in> set rows" by (auto dest: sym)
  from exports_well_formed [OF steps this] this run show ?thesis by (intro bexI [of _ r]) simp_all
qed

theorem export_reads_back_witness: "\<exists>r. stored_inventory flat_lib exporting_member (JStr flat_id) (fst (fst exporting)) = Inr r \<and> xr_id r = flat_id"
proof -
  obtain rows s r where run: "exporting = ((rows, s), Inr r)" and i: "xr_id r = flat_id" by (rule exporting_returns)
  have "project_shared exporting_member" by code_simp
  from export_reads_back [OF run rtranclp.rtrancl_refl this] i run show ?thesis by (intro exI [of _ r]) simp
qed

end
