(* ===== verification/Transitions.thy ===== *)
theory Transitions
  imports Boundary Artifacts "HOL-Library.AList"
begin

text \<open>
  python/stpd/fullrun/contracts.py: the research transitions of a full run, decoded from untyped JSON
  with their evidence. A frozen object is its key-sorted tree (Artifacts); \<open>ResearchTransitionV2\<close> is a
  transition with a \<open>tr\_extra\<close>.
\<close>

section \<open>Values\<close>

text \<open>\<open>\_object\<close> and \<open>\_boolean\<close>, and membership of an untyped value in a set of texts.\<close>

definition frozen_object :: "string \<Rightarrow> json \<Rightarrow> json result" where
  "frozen_object stage v =
     (case v of JObj kvs \<Rightarrow> freeze kvs | _ \<Rightarrow> Inl (BoundaryError stage ''expected_object''))"

definition boolean :: "json \<Rightarrow> string \<Rightarrow> bool result" where
  "boolean v stage = (case v of JBool b \<Rightarrow> Inr b | _ \<Rightarrow> Inl (BoundaryError stage ''expected_boolean''))"

definition one_of :: "json \<Rightarrow> string list \<Rightarrow> string \<Rightarrow> string \<Rightarrow> string result" where
  "one_of v names stage code =
     (case v of
        JStr s \<Rightarrow> if s \<in> set names then Inr s else Inl (BoundaryError stage code)
      | JList _ \<Rightarrow> Inl TypeError
      | JObj _ \<Rightarrow> Inl TypeError
      | _ \<Rightarrow> Inl (BoundaryError stage code))"

definition optional_digest :: "json \<Rightarrow> string option result" where
  "optional_digest v =
     (if v = JNull then Inr None else and_then (digest v ''source.witness'' 64) (\<lambda>d. Inr (Some d)))"

definition or_null :: "string option \<Rightarrow> json" where
  "or_null x = (case x of None \<Rightarrow> JNull | Some t \<Rightarrow> JStr t)"

record admitted_read =
  ar_kind :: string
  ar_content :: json
  ar_evidence :: string
  ar_profile :: string

definition read_profiles :: "string list" where
  "read_profiles = [''lite'', ''standard'', ''full'']"

definition read_dict :: "admitted_read \<Rightarrow> json" where
  "read_dict r =
     JObj [(''kind'', JStr (ar_kind r)), (''content'', ar_content r), (''evidence_ref'', JStr (ar_evidence r)),
           (''minimum_profile'', JStr (ar_profile r))]"

definition decode_read :: "json \<Rightarrow> admitted_read result" where
  "decode_read v =
     and_then (object_fields v [''kind'', ''content'', ''evidence_ref'', ''minimum_profile''] ''read'') (\<lambda>_.
     and_then (frozen_object ''read.content'' (get_field v ''content'')) (\<lambda>c.
     and_then (text_value (get_field v ''kind'') ''read.kind'' 4096) (\<lambda>k.
     and_then (digest (get_field v ''evidence_ref'') ''read.evidence'' 64) (\<lambda>e.
     and_then (one_of (get_field v ''minimum_profile'') read_profiles ''read'' ''unknown_profile'') (\<lambda>p.
       Inr \<lparr>ar_kind = k, ar_content = c, ar_evidence = e, ar_profile = p\<rparr>)))))"

record semantic_state =
  ss_run :: json
  ss_decision :: json
  ss_entities :: "json list"
  ss_reads :: "admitted_read list"

definition state_dict :: "semantic_state \<Rightarrow> json" where
  "state_dict s =
     JObj [(''boundary'', JStr ''semantic_execution''), (''run'', ss_run s), (''decision'', ss_decision s),
           (''visible_entities'', JList (ss_entities s)), (''reads'', JList (map read_dict (ss_reads s)))]"

definition decode_state :: "json \<Rightarrow> semantic_state result" where
  "decode_state v =
     and_then (object_fields v [''boundary'', ''run'', ''decision'', ''visible_entities'', ''reads''] ''state'') (\<lambda>_.
     if get_field v ''boundary'' \<noteq> JStr ''semantic_execution''
     then Inl (BoundaryError ''state'' ''human_observation_is_not_semantic_state'')
     else
       and_then (frozen_object ''state.run'' (get_field v ''run'')) (\<lambda>run.
       and_then (frozen_object ''state.decision'' (get_field v ''decision'')) (\<lambda>decision.
       and_then (array (get_field v ''visible_entities'') ''state'') (\<lambda>es.
       and_then (each (frozen_object ''state.entity'') es) (\<lambda>entities.
       and_then (array (get_field v ''reads'') ''state.reads'') (\<lambda>rs.
       and_then (each decode_read rs) (\<lambda>reads.
         Inr \<lparr>ss_run = run, ss_decision = decision, ss_entities = entities, ss_reads = reads\<rparr>)))))))"

record semantic_action =
  sa_key :: string
  sa_kind :: string
  sa_subject :: json
  sa_arguments :: json

definition semantic_dict :: "semantic_action \<Rightarrow> json" where
  "semantic_dict a = JObj [(''kind'', JStr (sa_kind a)), (''subject'', sa_subject a), (''arguments'', sa_arguments a)]"

definition action_dict :: "semantic_action \<Rightarrow> json" where
  "action_dict a = JObj ((''key'', JStr (sa_key a)) # fields_of (semantic_dict a))"

definition decode_action :: "json \<Rightarrow> semantic_action result" where
  "decode_action v =
     and_then (object_fields v [''key'', ''kind'', ''subject'', ''arguments''] ''action'') (\<lambda>_.
     and_then (frozen_object ''action.subject'' (get_field v ''subject'')) (\<lambda>subject.
     and_then (frozen_object ''action.arguments'' (get_field v ''arguments'')) (\<lambda>arguments.
     and_then (text_value (get_field v ''key'') ''action.key'' 4096) (\<lambda>key.
     and_then (text_value (get_field v ''kind'') ''action.kind'' 4096) (\<lambda>kind.
       Inr \<lparr>sa_key = key, sa_kind = kind, sa_subject = subject, sa_arguments = arguments\<rparr>)))))"

record evidence_link =
  el_bundle :: string
  el_record :: string
  el_environment :: string
  el_scope :: string
  el_qualification :: string
  el_root :: string
  el_catalog :: "string option"
  el_commit :: "string option"
  el_successor :: "string option"

definition evidence_scopes :: "string list" where
  "evidence_scopes = [''engineering'', ''platform_qualified'', ''platform_verified'']"

definition link_dict :: "evidence_link \<Rightarrow> json" where
  "link_dict e =
     JObj [(''bundle_sha256'', JStr (el_bundle e)), (''record_id'', JStr (el_record e)),
           (''environment_identity'', JStr (el_environment e)), (''scope'', JStr (el_scope e)),
           (''qualification_ref'', JStr (el_qualification e)), (''native_root_ref'', JStr (el_root e)),
           (''catalog_ref'', or_null (el_catalog e)), (''commit_ref'', or_null (el_commit e)),
           (''successor_ref'', or_null (el_successor e))]"

definition decode_link :: "json \<Rightarrow> evidence_link result" where
  "decode_link v =
     and_then (object_fields v [''bundle_sha256'', ''record_id'', ''environment_identity'', ''scope'', ''qualification_ref'',
       ''native_root_ref'', ''catalog_ref'', ''commit_ref'', ''successor_ref''] ''source'') (\<lambda>_.
     and_then (digest (get_field v ''bundle_sha256'') ''source.bundle'' 64) (\<lambda>bundle_sha.
     and_then (digest (get_field v ''environment_identity'') ''source.environment'' 64) (\<lambda>environment.
     and_then (digest (get_field v ''qualification_ref'') ''source.qualification'' 64) (\<lambda>qualification.
     and_then (text_value (get_field v ''record_id'') ''source.record'' 4096) (\<lambda>rid.
     and_then (text_value (get_field v ''native_root_ref'') ''source.root'' 4096) (\<lambda>r.
     and_then (one_of (get_field v ''scope'') evidence_scopes ''source'' ''unknown_evidence_scope'') (\<lambda>scope.
     and_then (optional_digest (get_field v ''catalog_ref'')) (\<lambda>catalog.
     and_then (optional_digest (get_field v ''commit_ref'')) (\<lambda>commit.
     and_then (optional_digest (get_field v ''successor_ref'')) (\<lambda>successor.
       Inr \<lparr>el_bundle = bundle_sha, el_record = rid, el_environment = environment, el_scope = scope,
            el_qualification = qualification, el_root = r, el_catalog = catalog, el_commit = commit,
            el_successor = successor\<rparr>))))))))))"

section \<open>Transitions\<close>

record transition_extra =
  te_occurrence :: json
  te_evidence :: json
  te_authority :: string

record transition =
  tr_run :: string
  tr_episode :: string
  tr_step :: int
  tr_domain :: string
  tr_family :: string
  tr_surface :: string
  tr_state :: semantic_state
  tr_actions :: "semantic_action list"
  tr_complete :: bool
  tr_count :: int
  tr_chosen :: "string option"
  tr_successor :: "semantic_state option"
  tr_terminal :: bool
  tr_disposition :: string
  tr_provenance :: evidence_link
  tr_extra :: "transition_extra option"

definition transition_schema :: string where "transition_schema = ''stpd/research-transition-v1''"
definition transition_schema_v2 :: string where "transition_schema_v2 = ''stpd/research-transition-v2''"

definition dispositions :: "string list" where
  "dispositions = [''committed'', ''cancelled'', ''unknown'', ''unsupported'']"

definition transition_identity :: "stdlib \<Rightarrow> string \<Rightarrow> json \<Rightarrow> json \<Rightarrow> string result" where
  "transition_identity L schema bundle_sha rid =
     semantic_hash (sha256 L) (of_json (JObj [(''schema'', JStr schema), (''bundle'', bundle_sha), (''record'', rid)]))"

definition transition_id :: "stdlib \<Rightarrow> transition \<Rightarrow> string" where
  "transition_id L t =
     sha256 L (canonical_text (JObj [(''schema'', JStr (if tr_extra t = None then transition_schema else transition_schema_v2)),
       (''bundle'', JStr (el_bundle (tr_provenance t))), (''record'', JStr (el_record (tr_provenance t)))]))"

definition rank_eligible :: "transition \<Rightarrow> bool" where
  "rank_eligible t \<longleftrightarrow> tr_disposition t = ''committed'' \<and> tr_complete t"

text \<open>The checks of \<open>\_\_post\_init\_\_\<close> on values that have their types.\<close>

definition catalog_unproved :: "transition \<Rightarrow> bool" where
  "catalog_unproved t \<longleftrightarrow>
     tr_complete t \<and> (tr_actions t = [] \<or> tr_count t \<noteq> int (length (tr_actions t)) \<or> el_catalog (tr_provenance t) = None)"

definition commit_unproved :: "transition \<Rightarrow> bool" where
  "commit_unproved t \<longleftrightarrow> tr_chosen t = None \<or> el_commit (tr_provenance t) = None"

definition successor_unproved :: "transition \<Rightarrow> bool" where
  "successor_unproved t \<longleftrightarrow> (tr_successor t = None \<and> \<not> tr_terminal t) \<or> el_successor (tr_provenance t) = None"

definition checked_transition :: "transition \<Rightarrow> transition result" where
  "checked_transition t =
     (if tr_disposition t = ''committed'' \<and> commit_unproved t
      then Inl (BoundaryError ''transition'' ''missing_chosen_or_commit_evidence'')
      else if tr_disposition t = ''committed'' \<and> successor_unproved t
      then Inl (BoundaryError ''transition'' ''missing_causal_successor_evidence'')
      else Inr t)"

definition chosen_action :: "json \<Rightarrow> semantic_action list \<Rightarrow> string option result" where
  "chosen_action v actions =
     (case v of
        JNull \<Rightarrow> Inr None
      | JStr k \<Rightarrow> if k \<in> sa_key ` set actions then Inr (Some k) else Inl (BoundaryError ''transition'' ''chosen_action_not_in_catalog'')
      | _ \<Rightarrow> Inl (BoundaryError ''transition'' ''chosen_action_not_in_catalog''))"

text \<open>The constructor on the untyped fields of \<open>v\<close> and the parts already decoded.\<close>

definition make_transition ::
  "json \<Rightarrow> semantic_state \<Rightarrow> semantic_action list \<Rightarrow> semantic_state option \<Rightarrow> evidence_link \<Rightarrow> transition result" where
  "make_transition v state actions successor link =
     and_then (text_value (get_field v ''run_id'') ''transition.run_id'' 4096) (\<lambda>run.
     and_then (text_value (get_field v ''episode_id'') ''transition.episode_id'' 4096) (\<lambda>episode.
     and_then (text_value (get_field v ''domain'') ''transition.domain'' 4096) (\<lambda>domain.
     and_then (text_value (get_field v ''family'') ''transition.family'' 4096) (\<lambda>family.
     and_then (text_value (get_field v ''surface'') ''transition.surface'' 4096) (\<lambda>surface.
     and_then (unsigned (get_field v ''step_index'') ''transition.step'') (\<lambda>step.
     and_then (unsigned (get_field v ''catalog_count'') ''transition.catalog_count'') (\<lambda>count.
     and_then (boolean (get_field v ''catalog_complete'') ''transition.catalog_complete'') (\<lambda>complete.
     and_then (boolean (get_field v ''terminal'') ''transition.terminal'') (\<lambda>terminal.
     let t = \<lparr>tr_run = run, tr_episode = episode, tr_step = step, tr_domain = domain, tr_family = family, tr_surface = surface,
              tr_state = state, tr_actions = actions, tr_complete = complete, tr_count = count, tr_chosen = None,
              tr_successor = successor, tr_terminal = terminal, tr_disposition = [], tr_provenance = link, tr_extra = None\<rparr> in
     if \<not> distinct (map sa_key actions) then Inl (BoundaryError ''transition'' ''duplicate_candidate_key'')
     else if catalog_unproved t then Inl (BoundaryError ''transition'' ''unproved_complete_catalog'')
     else
       and_then (one_of (get_field v ''disposition'') dispositions ''transition'' ''unknown_disposition'') (\<lambda>disposition.
       and_then (chosen_action (get_field v ''chosen_key'') actions) (\<lambda>chosen.
         checked_transition (t\<lparr>tr_chosen := chosen, tr_disposition := disposition\<rparr>))))))))))))"

definition transition_fields :: "string list" where
  "transition_fields =
     [''schema'', ''transition_id'', ''run_id'', ''episode_id'', ''step_index'', ''domain'', ''family'', ''surface'', ''state'',
      ''actions'', ''catalog_source'', ''catalog_complete'', ''catalog_count'', ''chosen_key'', ''successor'', ''terminal'',
      ''disposition'', ''provenance'']"

definition successor_state :: "json \<Rightarrow> semantic_state option result" where
  "successor_state v = (if v = JNull then Inr None else and_then (decode_state v) (\<lambda>s. Inr (Some s)))"

definition decode_v1 :: "stdlib \<Rightarrow> json \<Rightarrow> transition result" where
  "decode_v1 L v =
     and_then (object_fields v transition_fields ''transition'') (\<lambda>_.
     if get_field v ''schema'' \<noteq> JStr transition_schema then Inl (BoundaryError ''transition'' ''unsupported_schema'')
     else if get_field v ''catalog_source'' \<noteq> JStr ''platform_semantic_catalog''
     then Inl (BoundaryError ''transition'' ''public_actions_are_not_semantic_actions'')
     else
       and_then (decode_state (get_field v ''state'')) (\<lambda>state.
       and_then (array (get_field v ''actions'') ''actions'') (\<lambda>as.
       and_then (each decode_action as) (\<lambda>actions.
       and_then (successor_state (get_field v ''successor'')) (\<lambda>successor.
       and_then (decode_link (get_field v ''provenance'')) (\<lambda>link.
       and_then (make_transition v state actions successor link) (\<lambda>t.
         if get_field v ''transition_id'' \<noteq> JStr (transition_id L t)
         then Inl (BoundaryError ''transition'' ''identity_mismatch'') else Inr t)))))))"

section \<open>Verified occurrences\<close>

definition decision_kinds :: "string list" where
  "decision_kinds = [''root'', ''nested_selector'', ''native_selector'']"

definition catalog_authorities :: "string list" where
  "catalog_authorities = [''native_semantic_execution'', ''public_bound_actions'']"

text \<open>The fields \<open>ResearchTransitionV2\<close> adds, checked against the base transition.\<close>

definition make_occurrence :: "evidence_link \<Rightarrow> json \<Rightarrow> json \<Rightarrow> string \<Rightarrow> transition_extra result" where
  "make_occurrence link occurrence evidence authority =
     and_then (text_value (get_field occurrence ''decision_id'') ''occurrence.decision_id'' 4096) (\<lambda>decision.
     and_then (text_value (get_field occurrence ''causal_root_id'') ''occurrence.causal_root_id'' 4096) (\<lambda>r.
     and_then (text_value (get_field occurrence ''decision_kind'') ''occurrence.decision_kind'' 4096) (\<lambda>kind.
     let parent = get_field occurrence ''parent_decision_id'' in
     if kind \<notin> set decision_kinds then Inl (BoundaryError ''occurrence'' ''unsupported_decision_kind'')
     else if (kind = ''nested_selector'') \<noteq> (parent \<noteq> JNull) then Inl (BoundaryError ''occurrence'' ''invalid_parent'')
     else if parent = JStr decision then Inl (BoundaryError ''occurrence'' ''self_parent'')
     else if r \<noteq> el_root link then Inl (BoundaryError ''occurrence'' ''root_drift'')
     else if authority \<notin> set catalog_authorities then Inl (BoundaryError ''transition'' ''unsupported_catalog_authority'')
     else
       and_then (digest (get_field evidence ''bundle_content_id'') ''source_evidence.bundle_content_id'' 64) (\<lambda>a.
       and_then (digest (get_field evidence ''pre_frame_sha256'') ''source_evidence.pre_frame_sha256'' 64) (\<lambda>b.
       and_then (digest (get_field evidence ''successor_frame_sha256'') ''source_evidence.successor_frame_sha256'' 64) (\<lambda>c.
         Inr \<lparr>te_occurrence = occurrence, te_evidence = evidence, te_authority = authority\<rparr>))))))"

text \<open>\<open>legacy\<close>: the same object in the first schema; \<open>provenance.get\<close> needs a dict.\<close>

definition legacy_provenance :: "json \<Rightarrow> json result" where
  "legacy_provenance v =
     (case (case v of JObj kvs \<Rightarrow> (case map_of kvs ''provenance'' of None \<Rightarrow> JObj [] | Some p \<Rightarrow> p) | _ \<Rightarrow> JObj []) of
        JObj p \<Rightarrow> Inr (JObj p) | _ \<Rightarrow> Inl AttributeError)"

definition legacy_fields :: "(string \<times> json) list \<Rightarrow> string \<Rightarrow> json" where
  "legacy_fields kvs identity =
     JObj (AList.update ''transition_id'' (JStr identity)
       (AList.update ''catalog_source'' (JStr ''platform_semantic_catalog'')
         (AList.update ''schema'' (JStr transition_schema)
           (AList.delete ''source_evidence'' (AList.delete ''occurrence'' kvs)))))"

definition decode_v2 :: "stdlib \<Rightarrow> json \<Rightarrow> transition result" where
  "decode_v2 L v =
     (if get_field v ''schema'' \<noteq> JStr transition_schema_v2 then Inl (BoundaryError ''transition'' ''unsupported_schema'')
      else
        and_then (frozen_object ''occurrence'' (get_field v ''occurrence'')) (\<lambda>occurrence.
        and_then (frozen_object ''source_evidence'' (get_field v ''source_evidence'')) (\<lambda>evidence.
        and_then (text_value (get_field v ''catalog_source'') ''transition.catalog_source'' 4096) (\<lambda>authority.
        and_then (legacy_provenance v) (\<lambda>p.
        and_then (transition_identity L transition_schema (get_field p ''bundle_sha256'') (get_field p ''record_id'')) (\<lambda>identity.
        and_then (decode_v1 L (legacy_fields (fields_of v) identity)) (\<lambda>base.
        and_then (make_occurrence (tr_provenance base) occurrence evidence authority) (\<lambda>x.
        let t = base\<lparr>tr_extra := Some x\<rparr> in
        if get_field v ''transition_id'' \<noteq> JStr (transition_id L t)
        then Inl (BoundaryError ''transition'' ''identity_mismatch'') else Inr t))))))))"

definition decode_transition :: "stdlib \<Rightarrow> json \<Rightarrow> transition result" where
  "decode_transition L v =
     (if get_field v ''schema'' = JStr transition_schema_v2 then decode_v2 L v else decode_v1 L v)"

definition transition_dict_v1 :: "stdlib \<Rightarrow> transition \<Rightarrow> (string \<times> json) list" where
  "transition_dict_v1 L t =
     [(''schema'', JStr transition_schema), (''transition_id'', JStr (transition_id L t)), (''run_id'', JStr (tr_run t)),
      (''episode_id'', JStr (tr_episode t)), (''step_index'', JInt (tr_step t)), (''domain'', JStr (tr_domain t)),
      (''family'', JStr (tr_family t)), (''surface'', JStr (tr_surface t)), (''state'', state_dict (tr_state t)),
      (''actions'', JList (map action_dict (tr_actions t))), (''catalog_source'', JStr ''platform_semantic_catalog''),
      (''catalog_complete'', JBool (tr_complete t)), (''catalog_count'', JInt (tr_count t)), (''chosen_key'', or_null (tr_chosen t)),
      (''successor'', case tr_successor t of None \<Rightarrow> JNull | Some s \<Rightarrow> state_dict s), (''terminal'', JBool (tr_terminal t)),
      (''disposition'', JStr (tr_disposition t)), (''provenance'', link_dict (tr_provenance t))]"

definition transition_dict :: "stdlib \<Rightarrow> transition \<Rightarrow> json" where
  "transition_dict L t =
     JObj (case tr_extra t of
             None \<Rightarrow> transition_dict_v1 L t
           | Some x \<Rightarrow>
               AList.update ''catalog_source'' (JStr (te_authority x))
                 (AList.update ''source_evidence'' (te_evidence x)
                   (AList.update ''occurrence'' (te_occurrence x)
                     (AList.update ''schema'' (JStr transition_schema_v2) (transition_dict_v1 L t)))))"


section \<open>Decoding again\<close>

text \<open>What a decoder returned, printed as a dictionary, decodes to itself.\<close>

lemma each_again:
  assumes "each f xs = Inr ys" and "\<And>x y. f x = Inr y \<Longrightarrow> h (g y) = Inr y"
  shows "each h (map g ys) = Inr ys"
  using assms(1)
proof (induction xs arbitrary: ys)
  case (Cons x xs)
  then show ?case using assms(2) by (auto simp: and_then_eq_Inr)
qed simp

lemma frozen_again: "frozen_object stage v = Inr c \<Longrightarrow> frozen_object stage' c = Inr c"
proof -
  assume "frozen_object stage v = Inr c"
  then obtain kvs where f: "freeze kvs = Inr c" by (cases v) (auto simp: frozen_object_def)
  then obtain ws where "c = JObj ws" by (auto simp: freeze_def split: if_splits)
  with freeze_again [OF f] show ?thesis by (simp add: frozen_object_def fields_of_def)
qed

lemma one_of_eq_Inr [returned]: "one_of v names stage code = Inr s \<longleftrightarrow> v = JStr s \<and> s \<in> set names"
  by (auto simp: one_of_def split: json.splits)

lemma boolean_eq_Inr [returned]: "boolean v stage = Inr b \<longleftrightarrow> v = JBool b"
  by (auto simp: boolean_def split: json.splits)

lemma optional_digest_eq_Inr [returned]:
  "optional_digest v = Inr x \<longleftrightarrow> v = or_null x \<and> (case x of None \<Rightarrow> True | Some d \<Rightarrow> length d = 64 \<and> lower_hex d)"
  by (cases v; cases x) (auto simp: optional_digest_def or_null_def digest_def split: if_splits)

lemma get_field_cons [simp]:
  "get_field (JObj ((k, x) # kvs)) key = (if k = key then x else get_field (JObj kvs) key)"
  by (simp add: get_field_def fields_of_def)

lemma object_fields_cons [simp]:
  "object_fields (JObj ((k, x) # kvs)) names stage =
     (if insert k (fst ` set kvs) = set names then Inr ((k, x) # kvs) else Inl (BoundaryError stage ''missing_or_unknown_fields''))"
  by (simp add: object_fields_def)

lemmas checks_eq_Inr = and_then_eq_Inr text_value_eq_Inr digest_eq_Inr unsigned_eq_Inr array_eq_Inr one_of_eq_Inr boolean_eq_Inr
  if_raise_eq_Inr

lemma decode_read_again: "decode_read v = Inr r \<Longrightarrow> decode_read (read_dict r) = Inr r"
  unfolding decode_read_def checks_eq_Inr by (clarsimp simp: read_dict_def frozen_again)

lemma frozen_list_again: "each (frozen_object stage) vs = Inr cs \<Longrightarrow> each (frozen_object stage) cs = Inr cs"
  using each_again [where g = "\<lambda>x. x" and h = "frozen_object stage"] frozen_again by fastforce

lemma decode_reads_again: "each decode_read vs = Inr rs \<Longrightarrow> each decode_read (map read_dict rs) = Inr rs"
  by (erule each_again) (rule decode_read_again)

lemma decode_state_again: "decode_state v = Inr s \<Longrightarrow> decode_state (state_dict s) = Inr s"
  unfolding decode_state_def checks_eq_Inr
  by (clarsimp simp: state_dict_def array_def frozen_again frozen_list_again decode_reads_again)

lemma decode_action_again: "decode_action v = Inr a \<Longrightarrow> decode_action (action_dict a) = Inr a"
  unfolding decode_action_def checks_eq_Inr
  by (clarsimp simp: action_dict_def semantic_dict_def fields_of_def frozen_again text_value_eq_Inr)

lemma decode_link_again: "decode_link v = Inr e \<Longrightarrow> decode_link (link_dict e) = Inr e"
  unfolding decode_link_def checks_eq_Inr optional_digest_eq_Inr
  by (clarsimp simp: link_dict_def checks_eq_Inr optional_digest_eq_Inr)

lemma decode_actions_again: "each decode_action vs = Inr as \<Longrightarrow> each decode_action (map action_dict as) = Inr as"
  by (erule each_again) (rule decode_action_again)

lemma successor_state_again:
  "successor_state v = Inr s \<Longrightarrow> successor_state (case s of None \<Rightarrow> JNull | Some x \<Rightarrow> state_dict x) = Inr s"
  by (auto simp: successor_state_def returned decode_state_again state_dict_def split: if_splits) (metis decode_state_again state_dict_def)

lemma chosen_action_eq_Inr [returned]:
  "chosen_action v as = Inr x \<longleftrightarrow> v = or_null x \<and> (case x of None \<Rightarrow> True | Some k \<Rightarrow> k \<in> sa_key ` set as)"
  by (cases v; cases x) (auto simp: chosen_action_def or_null_def)

text \<open>What the constructor has checked.\<close>

lemma make_transition_ok:
  assumes "make_transition v state actions successor link = Inr t"
  shows "make_transition (JObj (transition_dict_v1 L t)) state actions successor link = Inr t"
    and "tr_extra t = None" "tr_state t = state" "tr_actions t = actions" "tr_successor t = successor" "tr_provenance t = link"
  using assms unfolding make_transition_def checks_eq_Inr Let_def chosen_action_eq_Inr checked_transition_def
  by (clarsimp simp: transition_dict_v1_def checks_eq_Inr chosen_action_eq_Inr catalog_unproved_def commit_unproved_def successor_unproved_def)+

lemma decode_v1_again:
  assumes "decode_v1 L v = Inr t"
  shows "decode_v1 L (JObj (transition_dict_v1 L t)) = Inr t"
proof -
  from assms obtain state vs actions successor link where parts: "decode_state (get_field v ''state'') = Inr state"
    "each decode_action vs = Inr actions" "successor_state (get_field v ''successor'') = Inr successor"
    "decode_link (get_field v ''provenance'') = Inr link" and made: "make_transition v state actions successor link = Inr t"
    unfolding decode_v1_def checks_eq_Inr by blast
  note t = make_transition_ok [OF made]
  show ?thesis
    unfolding decode_v1_def
    using parts t
    by (simp add: decode_state_again decode_actions_again successor_state_again decode_link_again array_def transition_dict_v1_def
        transition_fields_def)
qed

lemma decode_v1_base: "decode_v1 L v = Inr t \<Longrightarrow> tr_extra t = None"
  unfolding decode_v1_def checks_eq_Inr by (elim exE conjE) (simp add: make_transition_ok)

text \<open>The decoder looks keys up; their order does not matter.\<close>

lemma decode_v1_lookup:
  assumes "map_of a = map_of b"
  shows "decode_v1 L (JObj a) = decode_v1 L (JObj b)"
proof -
  have get: "get_field (JObj a) = get_field (JObj b)" using assms by (simp add: get_field_def fields_of_def fun_eq_iff)
  have "fst ` set a = fst ` set b" using assms by (metis dom_map_of_conv_image_fst)
  then show ?thesis unfolding decode_v1_def make_transition_def get by (simp add: object_fields_def)
qed

lemma transition_identity_texts:
  "transition_identity L schema (JStr b) (JStr r) =
     Inr (sha256 L (canonical_text (JObj [(''schema'', JStr schema), (''bundle'', JStr b), (''record'', JStr r)])))"
  by (simp add: transition_identity_def semantic_hash_def canonical_json_def canonical_text_def)

lemma make_occurrence_again:
  "make_occurrence link occurrence evidence authority = Inr x \<Longrightarrow>
   te_occurrence x = occurrence \<and> te_evidence x = evidence \<and> te_authority x = authority"
  unfolding make_occurrence_def Let_def checks_eq_Inr by clarsimp

lemma legacy_again:
  assumes "tr_extra t = Some x" and "transition_id L (t\<lparr>tr_extra := None\<rparr>) = i"
  shows "decode_v1 L (legacy_fields (fields_of (transition_dict L t)) i) = decode_v1 L (JObj (transition_dict_v1 L (t\<lparr>tr_extra := None\<rparr>)))"
  unfolding legacy_fields_def
proof (rule decode_v1_lookup, rule ext)
  fix key
  show "map_of (AList.update ''transition_id'' (JStr i)
       (AList.update ''catalog_source'' (JStr ''platform_semantic_catalog'')
         (AList.update ''schema'' (JStr transition_schema)
           (AList.delete ''source_evidence'' (AList.delete ''occurrence'' (fields_of (transition_dict L t))))))) key =
    map_of (transition_dict_v1 L (t\<lparr>tr_extra := None\<rparr>)) key"
    using assms by (simp add: transition_dict_def fields_of_def update_conv' delete_conv' transition_dict_v1_def)
qed

lemma decode_v2_again:
  assumes "decode_v2 L v = Inr t"
  shows "decode_v2 L (transition_dict L t) = Inr t" and "get_field (transition_dict L t) ''schema'' = JStr transition_schema_v2"
proof -
  from assms obtain occurrence evidence authority p i base x where
    frozen: "frozen_object ''occurrence'' (get_field v ''occurrence'') = Inr occurrence"
      "frozen_object ''source_evidence'' (get_field v ''source_evidence'') = Inr evidence"
    and authority: "text_value (get_field v ''catalog_source'') ''transition.catalog_source'' 4096 = Inr authority"
    and base: "decode_v1 L (legacy_fields (fields_of v) i) = Inr base"
    and x: "make_occurrence (tr_provenance base) occurrence evidence authority = Inr x"
    and t: "t = base\<lparr>tr_extra := Some x\<rparr>"
    unfolding decode_v2_def Let_def and_then_eq_Inr if_raise_eq_Inr by blast
  have none: "tr_extra base = None" by (rule decode_v1_base [OF base])
  then have plain: "t\<lparr>tr_extra := None\<rparr> = base" by (simp add: t)
  have look: "get_field (transition_dict L t) ''occurrence'' = occurrence" "get_field (transition_dict L t) ''source_evidence'' = evidence"
    "get_field (transition_dict L t) ''catalog_source'' = JStr authority" "get_field (transition_dict L t) ''transition_id'' = JStr (transition_id L t)"
    "get_field (transition_dict L t) ''schema'' = JStr transition_schema_v2"
    "legacy_provenance (transition_dict L t) = Inr (link_dict (tr_provenance base))"
    using make_occurrence_again [OF x]
    by (simp_all add: transition_dict_def transition_dict_v1_def t legacy_provenance_def link_dict_def)
  show "get_field (transition_dict L t) ''schema'' = JStr transition_schema_v2" by (fact look(5))
  have "transition_id L base = sha256 L (canonical_text (JObj [(''schema'', JStr transition_schema),
      (''bundle'', JStr (el_bundle (tr_provenance base))), (''record'', JStr (el_record (tr_provenance base)))]))"
    using none by (simp add: transition_id_def)
  then have identity: "transition_identity L transition_schema (get_field (link_dict (tr_provenance base)) ''bundle_sha256'')
      (get_field (link_dict (tr_provenance base)) ''record_id'') = Inr (transition_id L base)"
    by (simp add: link_dict_def transition_identity_texts)
  have again: "decode_v1 L (legacy_fields (fields_of (transition_dict L t)) (transition_id L base)) = Inr base"
    using legacy_again [of t x L "transition_id L base"] decode_v1_again [OF base] unfolding plain by (simp add: t)
  from authority have "text_value (JStr authority) ''transition.catalog_source'' 4096 = Inr authority" by (simp add: text_value_eq_Inr)
  then show "decode_v2 L (transition_dict L t) = Inr t"
    unfolding decode_v2_def look
    by (simp only: frozen [THEN frozen_again] look identity again x and_then_simps t [symmetric] Let_def if_False simp_thms)
qed

lemma decode_transition_again: "decode_transition L v = Inr t \<Longrightarrow> decode_transition L (transition_dict L t) = Inr t"
proof (cases "get_field v ''schema'' = JStr transition_schema_v2")
  case True
  then show "decode_transition L v = Inr t \<Longrightarrow> ?thesis" by (simp add: decode_transition_def decode_v2_again)
next
  case False
  assume "decode_transition L v = Inr t"
  with False have v1: "decode_v1 L v = Inr t" by (simp add: decode_transition_def)
  have "get_field (JObj (transition_dict_v1 L t)) ''schema'' \<noteq> JStr transition_schema_v2"
    by (simp add: transition_dict_v1_def transition_schema_def transition_schema_v2_def)
  with decode_v1_again [OF v1] decode_v1_base [OF v1] show ?thesis by (simp add: decode_transition_def transition_dict_def)
qed

section \<open>Eligible decisions\<close>

text \<open>The evidence a decision that may be ranked carries.\<close>

definition evidenced :: "transition \<Rightarrow> bool" where
  "evidenced t \<longleftrightarrow>
     distinct (map sa_key (tr_actions t)) \<and> tr_count t = int (length (tr_actions t)) \<and>
     (\<exists>k. tr_chosen t = Some k \<and> k \<in> sa_key ` set (tr_actions t)) \<and>
     el_catalog (tr_provenance t) \<noteq> None \<and> el_commit (tr_provenance t) \<noteq> None \<and> el_successor (tr_provenance t) \<noteq> None \<and>
     (tr_terminal t \<or> tr_successor t \<noteq> None)"

lemma make_transition_evidenced:
  "make_transition v state actions successor link = Inr t \<Longrightarrow> rank_eligible t \<Longrightarrow> evidenced t \<and> 0 \<le> tr_step t"
  unfolding make_transition_def checks_eq_Inr Let_def chosen_action_eq_Inr checked_transition_def
  by (clarsimp simp: evidenced_def rank_eligible_def catalog_unproved_def commit_unproved_def successor_unproved_def)

lemma evidenced_extra [simp]: "evidenced (t\<lparr>tr_extra := x\<rparr>) = evidenced t" "rank_eligible (t\<lparr>tr_extra := x\<rparr>) = rank_eligible t"
  by (simp_all add: evidenced_def rank_eligible_def)

lemma decode_v1_evidenced: "decode_v1 L v = Inr t \<Longrightarrow> rank_eligible t \<Longrightarrow> evidenced t \<and> 0 \<le> tr_step t"
  unfolding decode_v1_def checks_eq_Inr by (elim exE conjE) (simp add: make_transition_evidenced)

lemma decode_transition_evidenced:
  assumes "decode_transition L v = Inr t" and "rank_eligible t"
  shows "evidenced t \<and> 0 \<le> tr_step t"
proof (cases "get_field v ''schema'' = JStr transition_schema_v2")
  case True
  with assms(1) obtain i base x where base: "decode_v1 L (legacy_fields (fields_of v) i) = Inr base" and t: "t = base\<lparr>tr_extra := Some x\<rparr>"
    unfolding decode_transition_def decode_v2_def Let_def and_then_eq_Inr if_raise_eq_Inr if_P [OF True] by blast
  with decode_v1_evidenced [OF base] assms(2) show ?thesis by simp
next
  case False
  with assms decode_v1_evidenced show ?thesis by (simp add: decode_transition_def)
qed

end
