(* ===== verification/Admission.thy ===== *)
theory Admission
  imports Transitions Splits "HOL-Library.Multiset"
begin

text \<open>
  python/stpd/fullrun/representation.py and the admission of python/stpd/fullrun/data.py: model views with
  their leakage guard, the fingerprint that groups repeated decisions, and \<open>admit\<close>, which turns verified
  source projections into one dataset of complete runs. \<open>adapters\<close> stands for the installed source
  adapters, the function from an adapter id to its \<open>project\<close>.
\<close>

section \<open>Model views\<close>

definition serializer_version :: string where "serializer_version = ''stpd-fullrun-provisional-v1''"

definition profile_level :: "string \<Rightarrow> nat" where
  "profile_level p = (if p = ''lite'' then 0 else if p = ''standard'' then 1 else 2)"

definition forbidden_features :: "string list" where
  "forbidden_features =
     [''outcome'', ''reward'', ''return'', ''label'', ''teacherconfidence'', ''sessionid'', ''runtimeid'', ''environmentidentity'',
      ''hostsourcerevision'', ''gameartifactsha256'', ''actionkey'', ''teachermetadata'', ''teacherlabel'', ''futurestate'',
      ''boundactionid'', ''snapshotid'', ''mutationrequestid'', ''requestid'', ''runtimeinstanceid'', ''processid'',
      ''controllerleaseid'', ''nativeobjectid'', ''nativeoperand'', ''teacheridentity'', ''modelidentity'', ''futureoutcome'',
      ''draworder'', ''hiddenrng'', ''timestamp'', ''createdat'', ''capturedat'', ''runid'', ''episodeid'', ''transitionid'',
      ''chosenkey'', ''chosenaction'', ''candidateindex'', ''candidateposition'', ''candidateorder'', ''selectedindex'',
      ''successor'', ''runoutcome'', ''provenance'', ''commitref'', ''evidenceref'']"

text \<open>\<open>re.sub(r"[^a-z0-9]", "", key.lower())\<close> on the code points up to 255.\<close>

definition lower_char :: "char \<Rightarrow> char" where
  "lower_char c =
     (let n = (of_char c :: nat) in if 65 \<le> n \<and> n \<le> 90 \<or> 192 \<le> n \<and> n \<le> 222 \<and> n \<noteq> 215 then char_of (n + 32) else c)"

definition feature_char :: "char \<Rightarrow> bool" where
  "feature_char c \<longleftrightarrow> (let n = (of_char c :: nat) in 97 \<le> n \<and> n \<le> 122 \<or> 48 \<le> n \<and> n \<le> 57)"

definition feature_key :: "string \<Rightarrow> string" where
  "feature_key key = filter feature_char (map lower_char key)"

text \<open>The same on the bits of a character, for evaluation.\<close>

lemma lower_char_bits [code]:
  "lower_char (Char b0 b1 b2 b3 b4 b5 b6 b7) =
     (if b6 \<and> \<not> b5 \<and> (if b7 then \<not> (b0 \<and> b1 \<and> b2 \<and> \<not> b3 \<and> b4) \<and> \<not> (b0 \<and> b1 \<and> b2 \<and> b3 \<and> b4)
        else (b0 \<or> b1 \<or> b2 \<or> b3 \<or> b4) \<and> \<not> (b4 \<and> b3 \<and> (b2 \<or> b1 \<and> b0)))
      then Char b0 b1 b2 b3 b4 True b6 b7 else Char b0 b1 b2 b3 b4 b5 b6 b7)"
  by (cases b0; cases b1; cases b2; cases b3; cases b4; cases b5; cases b6; cases b7; simp add: lower_char_def char_of_def bit_0)

lemma feature_char_bits [code]:
  "feature_char (Char b0 b1 b2 b3 b4 b5 b6 b7) \<longleftrightarrow>
     \<not> b7 \<and> (if b6 then b5 \<and> (b0 \<or> b1 \<or> b2 \<or> b3 \<or> b4) \<and> \<not> (b4 \<and> b3 \<and> (b2 \<or> b1 \<and> b0)) else b5 \<and> b4 \<and> \<not> (b3 \<and> (b2 \<or> b1)))"
  by (cases b0; cases b1; cases b2; cases b3; cases b4; cases b5; cases b6; cases b7; simp add: feature_char_def)

lemma is_digit_bits [code]:
  "is_digit (Char b0 b1 b2 b3 b4 b5 b6 b7) \<longleftrightarrow> \<not> b7 \<and> \<not> b6 \<and> b5 \<and> b4 \<and> \<not> (b3 \<and> (b2 \<or> b1))"
  by (cases b0; cases b1; cases b2; cases b3; cases b4; cases b5; cases b6; cases b7; simp add: is_digit_def)

definition leaking :: "string \<Rightarrow> bool" where
  "leaking key \<longleftrightarrow> feature_key key \<in> set forbidden_features \<or> take 6 (feature_key key) = ''native''"

definition leakage :: "string \<Rightarrow> py_error option" where
  "leakage key = (if leaking key then Some (BoundaryError ''model_view'' ''forbidden_runtime_or_future_feature'') else None)"

fun reject_leakage :: "json \<Rightarrow> unit result"
  and reject_members :: "(string \<times> json) list \<Rightarrow> unit result"
  and reject_elements :: "json list \<Rightarrow> unit result" where
  "reject_leakage (JObj kvs) = reject_members kvs"
| "reject_leakage (JList xs) = reject_elements xs"
| "reject_leakage _ = Inr ()"
| "reject_members [] = Inr ()"
| "reject_members ((k, x) # kvs) =
     (case leakage k of Some e \<Rightarrow> Inl e | None \<Rightarrow> and_then (reject_leakage x) (\<lambda>_. reject_members kvs))"
| "reject_elements [] = Inr ()"
| "reject_elements (x # xs) = and_then (reject_leakage x) (\<lambda>_. reject_elements xs)"

definition lite_keys :: "string list" where
  "lite_keys = [''character'', ''act'', ''floor'', ''hp'', ''max_hp'', ''gold'', ''run_modifiers'']"

definition run_view :: "string \<Rightarrow> json \<Rightarrow> json" where
  "run_view profile run =
     (if profile = ''lite'' then JObj (filter (\<lambda>kv. fst kv \<in> set lite_keys) (fields_of run)) else run)"

definition read_view :: "admitted_read \<Rightarrow> json" where
  "read_view r = JObj [(''kind'', JStr (ar_kind r)), (''content'', ar_content r)]"

definition state_content :: "string \<Rightarrow> semantic_state \<Rightarrow> json result" where
  "state_content profile s =
     (let v = JObj [(''RUN'', run_view profile (ss_run s)), (''DECISION'', ss_decision s), (''VISIBLE_ENTITIES'', JList (ss_entities s)),
                    (''READS'', JList (map read_view (filter (\<lambda>r. profile_level (ar_profile r) \<le> profile_level profile) (ss_reads s))))]
      in and_then (reject_leakage v) (\<lambda>_. Inr v))"

definition serialize_state :: "string \<Rightarrow> semantic_state \<Rightarrow> string result" where
  "serialize_state profile s =
     and_then (state_content profile s) (\<lambda>v.
     and_then (canonical_json (of_json v)) (\<lambda>t.
       Inr (''[STPD_STATE version='' @ serializer_version @ '' profile='' @ profile @ '']'' @ [CHR 0x0A] @ t @ [CHR 0x0A] @ ''[/STPD_STATE]'')))"

definition serialize_action :: "semantic_action \<Rightarrow> string result" where
  "serialize_action a =
     and_then (reject_leakage (semantic_dict a)) (\<lambda>_.
     and_then (canonical_json (of_json (semantic_dict a))) (\<lambda>t.
       Inr (''[STPD_ACTION version='' @ serializer_version @ '']'' @ [CHR 0x0A] @ t @ [CHR 0x0A] @ ''[/STPD_ACTION]'')))"

definition serialize_transition :: "string \<Rightarrow> transition \<Rightarrow> (string \<times> string list) result" where
  "serialize_transition profile t =
     (if \<not> rank_eligible t then Inl (BoundaryError ''model_view'' ''transition_not_rank_eligible'')
      else and_then (serialize_state profile (tr_state t)) (\<lambda>s.
           and_then (each serialize_action (tr_actions t)) (\<lambda>as. Inr (s, as))))"

definition decision_fingerprint :: "stdlib \<Rightarrow> transition \<Rightarrow> string result" where
  "decision_fingerprint L t =
     and_then (state_content ''full'' (tr_state t)) (\<lambda>s.
     and_then (each serialize_action (tr_actions t)) (\<lambda>as.
       semantic_hash (sha256 L) (of_json (JObj [(''state'', s), (''actions'', JList (map JStr (sort as)))]))))"

section \<open>Source projections\<close>

record projection =
  pj_adapter :: string
  pj_source :: string
  pj_scope :: string
  pj_proofs :: json
  pj_transitions :: "transition list"
  pj_bytes :: "string option"
  pj_accounting :: json

definition check_run_proof :: "string \<times> json \<Rightarrow> unit result" where
  "check_run_proof kv =
     and_then (text_value (JStr (fst kv)) ''projection.run_id'' 4096) (\<lambda>_.
     and_then (object_fields (snd kv) [''started_ref'', ''terminal_ref'', ''record_count''] ''projection.run_proof'') (\<lambda>_.
     and_then (digest (get_field (snd kv) ''started_ref'') ''projection.run_start'' 64) (\<lambda>_.
     and_then (digest (get_field (snd kv) ''terminal_ref'') ''projection.run_terminal'' 64) (\<lambda>_.
     and_then (unsigned (get_field (snd kv) ''record_count'') ''projection.record_count'') (\<lambda>_. Inr ())))))"

definition check_projected :: "projection \<Rightarrow> transition \<Rightarrow> unit result" where
  "check_projected p t =
     (if el_bundle (tr_provenance t) \<noteq> pj_source p \<or> el_scope (tr_provenance t) \<noteq> pj_scope p
      then Inl (BoundaryError ''projection'' ''source_identity_mismatch'') else Inr ())"

definition make_projection :: "projection \<Rightarrow> projection result" where
  "make_projection p =
     and_then (text_value (JStr (pj_adapter p)) ''projection.adapter'' 4096) (\<lambda>_.
     and_then (digest (JStr (pj_source p)) ''projection.source'' 64) (\<lambda>_.
     if pj_scope p \<notin> set evidence_scopes then Inl (BoundaryError ''projection'' ''unknown_scope'')
     else
       and_then (each check_run_proof (fields_of (pj_proofs p))) (\<lambda>_.
       and_then (each (check_projected p) (pj_transitions p)) (\<lambda>_. Inr p))))"

text \<open>\<open>for item in value\<close> over untyped JSON, and \<open>item["disposition"]\<close>, \<open>item.get("disposition")\<close>.\<close>

definition iterate :: "json \<Rightarrow> json list result" where
  "iterate v =
     (case v of
        JList xs \<Rightarrow> Inr xs
      | JObj kvs \<Rightarrow> Inr (map (\<lambda>kv. JStr (fst kv)) kvs)
      | JStr s \<Rightarrow> Inr (map (\<lambda>c. JStr [c]) s)
      | _ \<Rightarrow> Inl TypeError)"

definition subscript :: "json \<Rightarrow> string \<Rightarrow> json result" where
  "subscript v key = (case v of JObj kvs \<Rightarrow> item kvs key | _ \<Rightarrow> Inl TypeError)"

definition method_get :: "json \<Rightarrow> string \<Rightarrow> json result" where
  "method_get v key = (case v of JObj _ \<Rightarrow> Inr (get_field v key) | _ \<Rightarrow> Inl AttributeError)"

definition unresolved :: "json \<Rightarrow> bool result" where
  "unresolved x =
     and_then (subscript x ''disposition'') (\<lambda>d.
     if d = JStr ''transition_unknown'' then Inr True
     else if d = JStr ''transition_proved''
     then and_then (subscript x ''canonical_record_id'') (\<lambda>r. Inr (r = JNull))
     else Inr False)"

definition failed_closed :: "json \<Rightarrow> bool result" where
  "failed_closed x = and_then (method_get x ''disposition'') (\<lambda>d. Inr (d = JStr ''failed_closed''))"

fun any_holds :: "(json \<Rightarrow> bool result) \<Rightarrow> json list \<Rightarrow> bool result" where
  "any_holds f [] = Inr False"
| "any_holds f (x # xs) = and_then (f x) (\<lambda>b. if b then Inr True else any_holds f xs)"

definition list_field :: "json \<Rightarrow> string \<Rightarrow> json list result" where
  "list_field v key = (case map_of (fields_of v) key of None \<Rightarrow> Inr [] | Some x \<Rightarrow> iterate x)"

definition occurrence_field :: "transition \<Rightarrow> string \<Rightarrow> json" where
  "occurrence_field t key = (case tr_extra t of None \<Rightarrow> JNull | Some x \<Rightarrow> get_field (te_occurrence x) key)"

text \<open>The dict of verified occurrences by decision id; the last of equal ids stands.\<close>

definition decisions_of :: "transition list \<Rightarrow> (json \<times> transition) list" where
  "decisions_of ts =
     foldl (\<lambda>ds t. AList.update (occurrence_field t ''decision_id'') t ds) [] (filter (\<lambda>t. tr_extra t \<noteq> None) ts)"

definition check_parent :: "(json \<times> transition) list \<Rightarrow> transition \<Rightarrow> unit result" where
  "check_parent ds t =
     (case occurrence_field t ''parent_decision_id'' of
        JNull \<Rightarrow> Inr ()
      | JList _ \<Rightarrow> Inl TypeError
      | JObj _ \<Rightarrow> Inl TypeError
      | i \<Rightarrow>
          (case map_of ds i of
             None \<Rightarrow> Inl (BoundaryError ''admission'' ''missing_or_inconsistent_canonical_parent'')
           | Some p \<Rightarrow>
               if tr_run p \<noteq> tr_run t \<or> tr_step t \<le> tr_step p \<or> el_root (tr_provenance p) \<noteq> el_root (tr_provenance t)
               then Inl (BoundaryError ''admission'' ''missing_or_inconsistent_canonical_parent'') else Inr ()))"

type_synonym adapters = "string \<Rightarrow> (string \<Rightarrow> projection result) option"

definition installed_adapter :: "adapters \<Rightarrow> string \<Rightarrow> (string \<Rightarrow> projection result) result" where
  "installed_adapter A i =
     (case A i of None \<Rightarrow> Inl (BoundaryError ''source'' ''uninstalled_source_adapter'') | Some f \<Rightarrow> Inr f)"

definition verify_platform_projection :: "adapters \<Rightarrow> projection \<Rightarrow> bool \<Rightarrow> unit result" where
  "verify_platform_projection A p require_admissible =
     (if pj_scope p \<noteq> ''platform_verified'' then Inl (BoundaryError ''admission'' ''unverified_platform_projection'')
      else
        case pj_bytes p of
          None \<Rightarrow> Inl (BoundaryError ''admission'' ''unverified_platform_projection'')
        | Some raw \<Rightarrow>
            and_then (installed_adapter A (pj_adapter p)) (\<lambda>project.
            and_then (project raw) (\<lambda>verified.
            if verified \<noteq> p then Inl (BoundaryError ''admission'' ''source_transition_projection_mismatch'')
            else if \<not> require_admissible then Inr ()
            else
              and_then (list_field (pj_accounting p) ''occurrences'') (\<lambda>occurrences.
              and_then (any_holds unresolved occurrences) (\<lambda>open_ones.
              if open_ones then Inl (BoundaryError ''admission'' ''unresolved_or_unpersisted_occurrence'')
              else
                and_then (list_field (pj_accounting p) ''invalidations'') (\<lambda>invalidations.
                and_then (any_holds failed_closed invalidations) (\<lambda>failed.
                if failed then Inl (BoundaryError ''admission'' ''failed_closed_human_decision'')
                else
                  and_then (each (check_parent (decisions_of (pj_transitions p))) (map snd (decisions_of (pj_transitions p)))) (\<lambda>_.
                    Inr ()))))))))"

section \<open>Admission\<close>

text \<open>
  Python's \<open>==\<close> on decoded JSON: a bool equals the int it is, and a float the int it prints as with
  \<open>.0\<close>. Floats of seventeen digits and more, which print with an exponent, equal no int here.
\<close>

definition float_is :: "string \<Rightarrow> int \<Rightarrow> bool" where
  "float_is f i \<longleftrightarrow> f = show_int i @ ''.0'' \<or> (i = 0 \<and> f = ''-0.0'')"

definition same_number :: "json \<Rightarrow> json \<Rightarrow> bool" where
  "same_number a b =
     (case (a, b) of
        (JBool p, JInt i) \<Rightarrow> i = of_bool p
      | (JInt i, JBool p) \<Rightarrow> i = of_bool p
      | (JFloat f, JInt i) \<Rightarrow> float_is f i
      | (JInt i, JFloat f) \<Rightarrow> float_is f i
      | (JFloat f, JBool p) \<Rightarrow> float_is f (of_bool p)
      | (JBool p, JFloat f) \<Rightarrow> float_is f (of_bool p)
      | (JFloat f, JFloat g) \<Rightarrow> float_is f 0 \<and> float_is g 0
      | _ \<Rightarrow> False)"

fun same_value :: "json \<Rightarrow> json \<Rightarrow> bool"
  and same_members :: "(string \<times> json) list \<Rightarrow> (string \<times> json) list \<Rightarrow> bool"
  and same_elements :: "json list \<Rightarrow> json list \<Rightarrow> bool" where
  "same_value (JObj a) (JObj b) = same_members a b"
| "same_value (JList a) (JList b) = same_elements a b"
| "same_value a b = (a = b \<or> same_number a b)"
| "same_members [] [] = True"
| "same_members ((k, x) # a) ((l, y) # b) = (k = l \<and> same_value x y \<and> same_members a b)"
| "same_members _ _ = False"
| "same_elements [] [] = True"
| "same_elements (x # a) (y # b) = (same_value x y \<and> same_elements a b)"
| "same_elements _ _ = False"

definition same_transition :: "stdlib \<Rightarrow> transition \<Rightarrow> transition \<Rightarrow> bool" where
  "same_transition L a b = same_value (sort_keys (transition_dict L a)) (sort_keys (transition_dict L b))"

text \<open>\<open>unique\<close>, \<open>positions\<close> and \<open>duplicates\<close> of the loop.\<close>

record admission =
  ad_unique :: "(string \<times> transition) list"
  ad_positions :: "(string \<times> int) list"
  ad_duplicates :: int

definition admit_record :: "stdlib \<Rightarrow> transition \<Rightarrow> admission \<Rightarrow> admission result" where
  "admit_record L t st =
     (if \<not> rank_eligible t then Inl (BoundaryError ''admission'' ''incomplete_or_uncommitted_decision'')
      else
        and_then (decision_fingerprint L t) (\<lambda>_.
        case map_of (ad_unique st) (transition_id L t) of
          Some previous \<Rightarrow>
            if \<not> same_transition L previous t then Inl (BoundaryError ''admission'' ''transition_identity_collision'')
            else Inr (st\<lparr>ad_duplicates := ad_duplicates st + 1\<rparr>)
        | None \<Rightarrow>
            if (tr_run t, tr_step t) \<in> set (ad_positions st) then Inl (BoundaryError ''admission'' ''run_step_collision'')
            else Inr (st\<lparr>ad_unique := ad_unique st @ [(transition_id L t, t)],
                         ad_positions := ad_positions st @ [(tr_run t, tr_step t)]\<rparr>)))"

fun admit_records :: "stdlib \<Rightarrow> transition list \<Rightarrow> admission \<Rightarrow> admission result" where
  "admit_records L [] st = Inr st"
| "admit_records L (t # ts) st = and_then (admit_record L t st) (admit_records L ts)"

definition admit_projection :: "stdlib \<Rightarrow> projection \<Rightarrow> admission \<Rightarrow> admission result" where
  "admit_projection L p st =
     (if fst ` set (fields_of (pj_proofs p)) \<noteq> tr_run ` set (pj_transitions p)
      then Inl (BoundaryError ''admission'' ''run_proof_inventory_mismatch'')
      else admit_records L (pj_transitions p) st)"

fun admit_projections :: "stdlib \<Rightarrow> projection list \<Rightarrow> admission \<Rightarrow> admission result" where
  "admit_projections L [] st = Inr st"
| "admit_projections L (p # ps) st = and_then (admit_projection L p st) (admit_projections L ps)"

definition check_proof_count :: "string \<Rightarrow> nat \<Rightarrow> projection \<Rightarrow> unit result" where
  "check_proof_count run n p =
     (case map_of (fields_of (pj_proofs p)) run of
        None \<Rightarrow> Inr ()
      | Some JNull \<Rightarrow> Inr ()
      | Some proof_of_run \<Rightarrow>
          and_then (method_get proof_of_run ''record_count'') (\<lambda>c.
          if \<not> same_value c (JInt (int n)) then Inl (BoundaryError ''admission'' ''source_disposition_count_mismatch'') else Inr ()))"

definition check_run :: "projection list \<Rightarrow> transition list \<Rightarrow> string \<Rightarrow> unit result" where
  "check_run ps records run =
     (let ts = filter (\<lambda>t. tr_run t = run) records in
      if map tr_step ts \<noteq> map int [0..<length ts] then Inl (BoundaryError ''admission'' ''missing_run_step'')
      else if \<not> tr_terminal (last ts) then Inl (BoundaryError ''admission'' ''missing_terminal_disposition'')
      else if list_ex tr_terminal (butlast ts) then Inl (BoundaryError ''admission'' ''decision_after_terminal'')
      else and_then (each (check_proof_count run (length ts)) ps) (\<lambda>_. Inr ()))"

text \<open>\<open>split\_whole\_runs\<close>: the seed is checked before the first fingerprint is computed.\<close>

definition split_whole_runs :: "stdlib \<Rightarrow> transition list \<Rightarrow> json \<Rightarrow> json result option" where
  "split_whole_runs L records seed =
     (case and_then (unsigned seed ''split.seed'') (\<lambda>_. each (decision_fingerprint L) records) of
        Inl e \<Rightarrow> Some (Inl e)
      | Inr fs \<Rightarrow> split_run_fingerprints (sha256 L) seed (zip (map tr_run records) fs))"

record dataset =
  ds_records :: "transition list"
  ds_splits :: json
  ds_seed :: json
  ds_scope :: string
  ds_duplicates :: int

definition dataset_schema :: string where "dataset_schema = ''stpd/fullrun-dataset-v1''"

definition dataset_logical_id :: "stdlib \<Rightarrow> dataset \<Rightarrow> string result" where
  "dataset_logical_id L d =
     semantic_hash (sha256 L) (of_json (JObj [(''schema'', JStr dataset_schema), (''scope'', JStr (ds_scope d)), (''seed'', ds_seed d),
       (''records'', JList (map (transition_dict L) (ds_records d))), (''splits'', ds_splits d)]))"

definition verify_source :: "adapters \<Rightarrow> projection \<Rightarrow> unit result" where
  "verify_source A p = (if pj_scope p \<noteq> ''engineering'' then verify_platform_projection A p True else Inr ())"

text \<open>The records in order, checked; the runs are taken in the order of the records.\<close>

definition admitted_records :: "stdlib \<Rightarrow> adapters \<Rightarrow> projection list \<Rightarrow> (transition list \<times> int) result" where
  "admitted_records L A ps =
     (if ps = [] then Inl (BoundaryError ''admission'' ''no_verified_source_projection'')
      else if \<exists>p \<in> set ps. pj_scope p \<noteq> pj_scope (hd ps) then Inl (BoundaryError ''admission'' ''mixed_engineering_and_qualified_sources'')
      else
        and_then (each (verify_source A) ps) (\<lambda>_.
        and_then (admit_projections L ps \<lparr>ad_unique = [], ad_positions = [], ad_duplicates = 0\<rparr>) (\<lambda>st.
        let records = sort_key (\<lambda>t. (tr_run t, tr_step t, transition_id L t)) (map snd (ad_unique st)) in
        if records = [] then Inl (BoundaryError ''admission'' ''empty_dataset'')
        else and_then (each (check_run ps records) (remdups (map tr_run records))) (\<lambda>_. Inr (records, ad_duplicates st)))))"

definition admit :: "stdlib \<Rightarrow> adapters \<Rightarrow> projection list \<Rightarrow> json \<Rightarrow> dataset result option" where
  "admit L A ps seed =
     (case admitted_records L A ps of
        Inl e \<Rightarrow> Some (Inl e)
      | Inr (records, duplicates) \<Rightarrow>
          map_option (\<lambda>r. and_then r (\<lambda>splits.
            Inr \<lparr>ds_records = records, ds_splits = splits, ds_seed = seed, ds_scope = pj_scope (hd ps), ds_duplicates = duplicates\<rparr>))
            (split_whole_runs L records seed))"

section \<open>The guard\<close>

text \<open>All keys of a value, at any depth.\<close>

fun all_keys :: "json \<Rightarrow> string list"
  and member_keys :: "(string \<times> json) list \<Rightarrow> string list"
  and element_keys :: "json list \<Rightarrow> string list" where
  "all_keys (JObj kvs) = member_keys kvs"
| "all_keys (JList xs) = element_keys xs"
| "all_keys _ = []"
| "member_keys [] = []"
| "member_keys ((k, x) # kvs) = k # all_keys x @ member_keys kvs"
| "element_keys [] = []"
| "element_keys (x # xs) = all_keys x @ element_keys xs"

definition leak_free :: "json \<Rightarrow> bool" where
  "leak_free v \<longleftrightarrow> list_all (\<lambda>k. \<not> leaking k) (all_keys v)"

lemma reject_leakage_iff:
  "reject_leakage v = Inr () \<longleftrightarrow> list_all (\<lambda>k. \<not> leaking k) (all_keys v)"
  "reject_members kvs = Inr () \<longleftrightarrow> list_all (\<lambda>k. \<not> leaking k) (member_keys kvs)"
  "reject_elements xs = Inr () \<longleftrightarrow> list_all (\<lambda>k. \<not> leaking k) (element_keys xs)"
  by (induction v and kvs and xs rule: reject_leakage_reject_members_reject_elements.induct)
     (auto simp: leakage_def and_then_eq_Inr)

lemma element_keys_set: "set (element_keys xs) = (\<Union>x \<in> set xs. set (all_keys x))"
  by (induction xs) auto

lemma profile_level_full: "profile_level p \<le> profile_level ''full''"
  by (simp add: profile_level_def)

lemma state_content_full:
  "state_content ''full'' s =
     (let v = JObj [(''RUN'', ss_run s), (''DECISION'', ss_decision s), (''VISIBLE_ENTITIES'', JList (ss_entities s)),
                    (''READS'', JList (map read_view (ss_reads s)))]
      in and_then (reject_leakage v) (\<lambda>_. Inr v))"
  by (simp add: state_content_def run_view_def profile_level_full)

lemma fingerprint_leak_free:
  assumes "decision_fingerprint L t = Inr f"
  shows "leak_free (ss_run (tr_state t)) \<and> leak_free (ss_decision (tr_state t)) \<and> (\<forall>e \<in> set (ss_entities (tr_state t)). leak_free e) \<and>
    (\<forall>r \<in> set (ss_reads (tr_state t)). leak_free (ar_content r)) \<and>
    (\<forall>a \<in> set (tr_actions t). leak_free (sa_subject a) \<and> leak_free (sa_arguments a))"
proof -
  from assms obtain as where "reject_leakage (JObj [(''RUN'', ss_run (tr_state t)), (''DECISION'', ss_decision (tr_state t)),
      (''VISIBLE_ENTITIES'', JList (ss_entities (tr_state t))), (''READS'', JList (map read_view (ss_reads (tr_state t))))]) = Inr ()"
    and actions: "each serialize_action (tr_actions t) = Inr as"
    by (auto simp: decision_fingerprint_def state_content_full Let_def and_then_eq_Inr)
  then have keys: "list_all (\<lambda>k. \<not> leaking k) (all_keys (ss_run (tr_state t)))" "list_all (\<lambda>k. \<not> leaking k) (all_keys (ss_decision (tr_state t)))"
    "list_all (\<lambda>k. \<not> leaking k) (element_keys (ss_entities (tr_state t)))"
    "list_all (\<lambda>k. \<not> leaking k) (element_keys (map read_view (ss_reads (tr_state t))))"
    unfolding reject_leakage_iff(1) by simp_all
  from keys(4) have "\<forall>r \<in> set (ss_reads (tr_state t)). list_all (\<lambda>k. \<not> leaking k) (all_keys (read_view r))"
    by (auto simp: list_all_iff element_keys_set)
  then have "\<forall>r \<in> set (ss_reads (tr_state t)). leak_free (ar_content r)" by (simp add: read_view_def leak_free_def)
  with keys have s: "leak_free (ss_run (tr_state t))" "leak_free (ss_decision (tr_state t))" "\<forall>e \<in> set (ss_entities (tr_state t)). leak_free e"
    "\<forall>r \<in> set (ss_reads (tr_state t)). leak_free (ar_content r)"
    by (auto simp: leak_free_def list_all_iff element_keys_set)
  have "leak_free (sa_subject a) \<and> leak_free (sa_arguments a)" if "a \<in> set (tr_actions t)" for a
  proof -
    from each_in_set [OF actions that] obtain y where "serialize_action a = Inr y" by blast
    then have "reject_leakage (semantic_dict a) = Inr ()" by (auto simp: serialize_action_def and_then_eq_Inr)
    then show ?thesis unfolding reject_leakage_iff(1) by (auto simp: leak_free_def semantic_dict_def list_all_iff)
  qed
  with s show ?thesis by blast
qed

section \<open>The fingerprint groups decisions\<close>

lemma each_as_map:
  "each h ys = Inr zs \<longleftrightarrow> (\<forall>y \<in> set ys. \<exists>z. h y = Inr z) \<and> zs = map (\<lambda>y. projr (h y)) ys"
  by (induction ys arbitrary: zs) (auto simp: and_then_eq_Inr)

lemma each_mset:
  assumes "each h ys = Inr zs" and "mset ys' = mset ys"
  shows "\<exists>zs'. each h ys' = Inr zs' \<and> mset zs' = mset zs"
  using assms by (auto simp: each_as_map dest: mset_eq_setD)

lemma sort_mset: "mset xs = mset ys \<Longrightarrow> sort xs = sort (ys :: string list)"
  by (rule properties_for_sort) simp_all

lemma fingerprint_same:
  assumes f: "decision_fingerprint L t = Inr f"
    and state: "ss_run (tr_state u) = ss_run (tr_state t)" "ss_decision (tr_state u) = ss_decision (tr_state t)"
      "ss_entities (tr_state u) = ss_entities (tr_state t)" "map read_view (ss_reads (tr_state u)) = map read_view (ss_reads (tr_state t))"
    and actions: "mset (map semantic_dict (tr_actions u)) = mset (map semantic_dict (tr_actions t))"
  shows "decision_fingerprint L u = Inr f"
proof -
  define h where "h d = and_then (reject_leakage d) (\<lambda>_. and_then (canonical_json (of_json d)) (\<lambda>t.
       Inr (''[STPD_ACTION version='' @ serializer_version @ '']'' @ [CHR 0x0A] @ t @ [CHR 0x0A] @ ''[/STPD_ACTION]'')))" for d
  have "serialize_action = (\<lambda>a. h (semantic_dict a))" by (rule ext) (simp only: serialize_action_def h_def)
  then have h: "each serialize_action as = each h (map semantic_dict as)" for as by (simp only: each_map)
  from f obtain as s where s: "state_content ''full'' (tr_state t) = Inr s" and as: "each serialize_action (tr_actions t) = Inr as"
    and hash: "semantic_hash (sha256 L) (of_json (JObj [(''state'', s), (''actions'', JList (map JStr (sort as)))])) = Inr f"
    unfolding decision_fingerprint_def and_then_eq_Inr by blast
  from each_mset [OF as [unfolded h] actions] obtain bs where bs: "each serialize_action (tr_actions u) = Inr bs" "mset bs = mset as"
    unfolding h by blast
  have "state_content ''full'' (tr_state u) = Inr s" using s state by (simp add: state_content_full)
  then show ?thesis using bs(1) sort_mset [OF bs(2)] hash unfolding decision_fingerprint_def by simp
qed

section \<open>What is admitted\<close>

lemma same_value_refl: "same_value v v" "same_members kvs kvs" "same_elements xs xs"
proof (induction v and kvs and xs rule: all_keys_member_keys_element_keys.induct)
qed simp_all

lemma same_transition_refl [simp]: "same_transition L t t"
  by (simp add: same_transition_def same_value_refl)

definition admission_inv :: "stdlib \<Rightarrow> transition list \<Rightarrow> admission \<Rightarrow> bool" where
  "admission_inv L ts st \<longleftrightarrow>
     distinct (map fst (ad_unique st)) \<and> distinct (ad_positions st) \<and>
     ad_positions st = map (\<lambda>(i, t). (tr_run t, tr_step t)) (ad_unique st) \<and>
     (\<forall>(i, t) \<in> set (ad_unique st). i = transition_id L t \<and> t \<in> set ts \<and> rank_eligible t \<and> (\<exists>f. decision_fingerprint L t = Inr f)) \<and>
     (\<forall>t \<in> set ts. \<exists>u. (transition_id L t, u) \<in> set (ad_unique st) \<and> same_transition L u t) \<and>
     int (length (ad_unique st)) + ad_duplicates st = int (length ts)"

lemma admit_record_inv:
  assumes inv: "admission_inv L ts st" and step: "admit_record L t st = Inr st'"
  shows "admission_inv L (ts @ [t]) st'"
proof -
  from step obtain f where ok: "rank_eligible t" "decision_fingerprint L t = Inr f"
    by (auto simp: admit_record_def and_then_eq_Inr split: if_splits)
  show ?thesis
  proof (cases "map_of (ad_unique st) (transition_id L t)")
    case None
    with step ok have new: "(tr_run t, tr_step t) \<notin> set (ad_positions st)"
      and st': "st' = st\<lparr>ad_unique := ad_unique st @ [(transition_id L t, t)], ad_positions := ad_positions st @ [(tr_run t, tr_step t)]\<rparr>"
      by (auto simp: admit_record_def split: if_splits)
    from None have "transition_id L t \<notin> fst ` set (ad_unique st)" by (simp add: map_of_eq_None_iff)
    moreover have "\<forall>v \<in> set (ts @ [t]). \<exists>u. (transition_id L v, u) \<in> set (ad_unique st') \<and> same_transition L u v"
      using inv unfolding admission_inv_def st' by fastforce
    moreover have "\<forall>(i, v) \<in> set (ad_unique st'). i = transition_id L v \<and> v \<in> set (ts @ [t]) \<and> rank_eligible v \<and> (\<exists>f. decision_fingerprint L v = Inr f)"
      using inv ok unfolding admission_inv_def st' by auto
    moreover have "distinct (map fst (ad_unique st'))" "distinct (ad_positions st')"
      "ad_positions st' = map (\<lambda>(i, v). (tr_run v, tr_step v)) (ad_unique st')"
      "int (length (ad_unique st')) + ad_duplicates st' = int (length (ts @ [t]))"
      using inv new calculation(1) unfolding admission_inv_def st' by auto
    ultimately show ?thesis unfolding admission_inv_def by blast
  next
    case (Some u)
    with step ok have same: "same_transition L u t" and st': "st' = st\<lparr>ad_duplicates := ad_duplicates st + 1\<rparr>"
      by (auto simp: admit_record_def split: if_splits)
    from map_of_SomeD [OF Some] same inv show ?thesis unfolding admission_inv_def st' by fastforce
  qed
qed

lemma admit_records_inv:
  "admission_inv L ts st \<Longrightarrow> admit_records L us st = Inr st' \<Longrightarrow> admission_inv L (ts @ us) st'"
proof (induction us arbitrary: ts st)
  case (Cons u us)
  then obtain st1 where "admit_record L u st = Inr st1" "admit_records L us st1 = Inr st'" by (auto simp: and_then_eq_Inr)
  with Cons.IH [OF admit_record_inv [OF Cons.prems(1)]] show ?case by simp
qed simp

lemma admit_projections_inv:
  "admission_inv L ts st \<Longrightarrow> admit_projections L ps st = Inr st' \<Longrightarrow> admission_inv L (ts @ concat (map pj_transitions ps)) st'"
proof (induction ps arbitrary: ts st)
  case (Cons p ps)
  then obtain st1 where "admit_records L (pj_transitions p) st = Inr st1" "admit_projections L ps st1 = Inr st'"
    by (auto simp: and_then_eq_Inr admit_projection_def split: if_splits)
  with Cons.IH [OF admit_records_inv [OF Cons.prems(1)]] show ?case by simp
qed simp

text \<open>One run of an admitted dataset: its steps are 0, 1, \<open>\<dots>\<close> without a gap and only the last one is terminal.\<close>

definition complete_run :: "transition list \<Rightarrow> bool" where
  "complete_run ts \<longleftrightarrow>
     ts \<noteq> [] \<and> map tr_step ts = map int [0..<length ts] \<and> tr_terminal (last ts) \<and> (\<forall>t \<in> set (butlast ts). \<not> tr_terminal t)"

definition run_records :: "dataset \<Rightarrow> string \<Rightarrow> transition list" where
  "run_records d run = filter (\<lambda>t. tr_run t = run) (ds_records d)"

lemma admit_returned:
  assumes "admit L A ps seed = Some (Inr d)"
  obtains st where "admission_inv L (concat (map pj_transitions ps)) st" and "set (ds_records d) = snd ` set (ad_unique st)"
    and "length (ds_records d) = length (ad_unique st)" and "distinct (map (transition_id L) (ds_records d))"
    and "ds_duplicates d = ad_duplicates st"
    and "\<forall>run \<in> tr_run ` set (ds_records d). check_run ps (ds_records d) run = Inr ()"
    and "split_whole_runs L (ds_records d) seed = Some (Inr (ds_splits d))"
    and "each (verify_source A) ps = Inr (map (\<lambda>_. ()) ps)" and "\<forall>p \<in> set ps. pj_scope p = ds_scope d"
proof -
  from assms obtain records n where r: "admitted_records L A ps = Inr (records, n)"
    and splits: "split_whole_runs L records seed = Some (Inr (ds_splits d))" and d: "ds_records d = records" "ds_duplicates d = n"
      "ds_scope d = pj_scope (hd ps)"
    by (auto simp: admit_def and_then_eq_Inr split: sum.splits)
  let ?key = "\<lambda>t. (tr_run t, tr_step t, transition_id L t)"
  from r obtain us st vs where scope: "\<not> (\<exists>p \<in> set ps. pj_scope p \<noteq> pj_scope (hd ps))" and us: "each (verify_source A) ps = Inr us"
    and st: "admit_projections L ps \<lparr>ad_unique = [], ad_positions = [], ad_duplicates = 0\<rparr> = Inr st"
    and found: "sort_key ?key (map snd (ad_unique st)) = records" "ad_duplicates st = n"
    and vs: "each (check_run ps (sort_key ?key (map snd (ad_unique st)))) (remdups (map tr_run (sort_key ?key (map snd (ad_unique st))))) = Inr vs"
    unfolding admitted_records_def Let_def and_then_eq_Inr if_raise_eq_Inr sum.inject prod.inject by blast
  from scope have scopes: "\<forall>p \<in> set ps. pj_scope p = pj_scope (hd ps)" by blast
  note records = found(1) [symmetric] and n = found(2) [symmetric]
  from vs have runs: "each (check_run ps records) (remdups (map tr_run records)) = Inr vs" unfolding found(1) .
  have "admission_inv L [] \<lparr>ad_unique = [], ad_positions = [], ad_duplicates = 0\<rparr>" by (simp add: admission_inv_def)
  from admit_projections_inv [OF this st] have inv: "admission_inv L (concat (map pj_transitions ps)) st" by simp
  have ids: "map (transition_id L) (map snd (ad_unique st)) = map fst (ad_unique st)"
    using inv unfolding admission_inv_def by (auto simp: split_beta)
  have "mset (map (transition_id L) records) = mset (map fst (ad_unique st))"
    by (subst ids [symmetric], unfold records) (simp only: mset_map mset_sort)
  then have "distinct (map (transition_id L) records)"
    using inv unfolding admission_inv_def by (metis mset_eq_imp_distinct_iff)
  moreover have "check_run ps records run = Inr ()" if "run \<in> tr_run ` set records" for run
    using each_in_set [OF runs, of run] that by auto
  moreover have "us = map (\<lambda>_. ()) ps" using each_length [OF us] by (simp add: list_eq_iff_nth_eq)
  ultimately show thesis using inv splits us scopes n by (intro that [of st]) (simp_all add: d records)
qed

lemma check_run_complete:
  assumes "check_run ps (ds_records d) run = Inr ()" and "run \<in> tr_run ` set (ds_records d)"
  shows "complete_run (run_records d run)" and "\<forall>p \<in> set ps. check_proof_count run (length (run_records d run)) p = Inr ()"
proof -
  have "run_records d run \<noteq> []" using assms(2) by (auto simp: run_records_def filter_empty_conv)
  then show "complete_run (run_records d run)"
    using assms(1) unfolding check_run_def Let_def complete_run_def run_records_def [symmetric] by (auto simp: list_ex_iff split: if_splits)
  from assms(1) obtain vs where "each (check_proof_count run (length (run_records d run))) ps = Inr vs"
    unfolding check_run_def Let_def run_records_def [symmetric] by (auto simp: and_then_eq_Inr split: if_splits)
  then show "\<forall>p \<in> set ps. check_proof_count run (length (run_records d run)) p = Inr ()"
    using each_in_set by fastforce
qed

lemma proof_count:
  assumes "make_projection p = Inr q" and "map_of (fields_of (pj_proofs p)) run = Some v" and "check_proof_count run n p = Inr ()"
  shows "get_field v ''record_count'' = JInt (int n)"
proof -
  from assms(1) obtain us where "each check_run_proof (fields_of (pj_proofs p)) = Inr us"
    by (auto simp: make_projection_def and_then_eq_Inr split: if_splits)
  with each_in_set [OF this] map_of_SomeD [OF assms(2)] have "check_run_proof (run, v) = Inr ()" by fastforce
  then obtain i kvs where "get_field v ''record_count'' = JInt i" "v = JObj kvs"
    by (auto simp: check_run_proof_def and_then_eq_Inr unsigned_eq_Inr object_fields_eq_Inr)
  with assms(2,3) show ?thesis
    by (auto simp: check_proof_count_def method_get_def and_then_eq_Inr same_number_def split: if_splits)
qed

end
