(* ===== verification/AdmissionClaims.thy ===== *)
theory AdmissionClaims
  imports Admission
begin

text \<open>
  What decoded research transitions and admitted datasets promise: their round trip and evidence, the
  completeness of every run, and a split that keeps repeated decisions together.
\<close>

text \<open>Claim C40. A decoded transition, printed as a dictionary, decodes to itself in both schemas; when it
may be ranked it carries its evidence: a complete catalog of distinct actions with the chosen one among
them, references to the catalog, the commit and the successor, and a successor unless it ends the run.\<close>

theorem transition_reads_back:
  assumes "decode_transition L v = Inr t"
  shows "decode_transition L (transition_dict L t) = Inr t \<and> (rank_eligible t \<longrightarrow> evidenced t)"
  using decode_transition_again [OF assms] decode_transition_evidenced [OF assms] by blast

definition some_digest :: string where "some_digest = replicate 64 CHR ''a''"

definition plain_lib :: stdlib where
  "plain_lib = \<lparr>sha256 = filter is_digit, urlsplit = (\<lambda>t. Inl (ValueError ''invalid'')), parse_qsl = (\<lambda>t. []), float_text = (\<lambda>t. t)\<rparr>"

definition sample_action :: "string \<Rightarrow> int \<Rightarrow> semantic_action" where
  "sample_action key n = \<lparr>sa_key = key, sa_kind = ''play'', sa_subject = JObj [(''card'', JInt n)], sa_arguments = JObj []\<rparr>"

definition sample_transition :: "string \<Rightarrow> int \<Rightarrow> bool \<Rightarrow> int \<Rightarrow> semantic_action list \<Rightarrow> transition" where
  "sample_transition run step terminal n actions =
     (let s = \<lparr>ss_run = JObj [(''floor'', JInt n)], ss_decision = JObj [], ss_entities = [], ss_reads = []\<rparr> in
      \<lparr>tr_run = run, tr_episode = run, tr_step = step, tr_domain = ''d'', tr_family = ''f'', tr_surface = ''s'', tr_state = s,
       tr_actions = actions, tr_complete = True, tr_count = int (length actions), tr_chosen = Some (sa_key (hd actions)),
       tr_successor = Some s, tr_terminal = terminal, tr_disposition = ''committed'',
       tr_provenance = \<lparr>el_bundle = some_digest, el_record = run @ show_int step, el_environment = some_digest, el_scope = ''engineering'',
         el_qualification = some_digest, el_root = ''root'', el_catalog = Some some_digest, el_commit = Some some_digest,
         el_successor = Some some_digest\<rparr>, tr_extra = None\<rparr>)"

definition sample_records :: "transition list" where
  "sample_records =
     [sample_transition ''r1'' 0 True 1 [sample_action ''a'' 1, sample_action ''b'' 2], sample_transition ''r2'' 1 True 3 [sample_action ''a'' 1],
      sample_transition ''r2'' 0 False 2 [sample_action ''a'' 1], sample_transition ''r3'' 0 True 4 [sample_action ''a'' 1],
      sample_transition ''r4'' 0 True 1 [sample_action ''x'' 2, sample_action ''y'' 1]]"

definition sample_occurrence :: transition_extra where
  "sample_occurrence =
     \<lparr>te_occurrence = JObj [(''causal_root_id'', JStr ''root''), (''decision_id'', JStr ''d1''), (''decision_kind'', JStr ''root'')],
      te_evidence = JObj [(''bundle_content_id'', JStr some_digest), (''pre_frame_sha256'', JStr some_digest),
        (''successor_frame_sha256'', JStr some_digest)], te_authority = ''public_bound_actions''\<rparr>"

definition decodes :: "transition result \<Rightarrow> bool" where
  "decodes r = (case r of Inr t \<Rightarrow> rank_eligible t \<and> tr_extra t \<noteq> None | _ \<Rightarrow> False)"

lemma sample_decodes:
  "decodes (decode_transition plain_lib (transition_dict plain_lib (hd sample_records\<lparr>tr_extra := Some sample_occurrence\<rparr>)))"
  by code_simp

theorem transition_reads_back_witness:
  "\<exists>t. decode_transition plain_lib (transition_dict plain_lib t) = Inr t \<and> evidenced t \<and> tr_extra t \<noteq> None"
proof -
  obtain t where t: "decode_transition plain_lib (transition_dict plain_lib (hd sample_records\<lparr>tr_extra := Some sample_occurrence\<rparr>)) = Inr t"
    "rank_eligible t" "tr_extra t \<noteq> None"
    using sample_decodes by (auto simp: decodes_def split: sum.splits)
  with transition_reads_back [OF t(1)] show ?thesis by blast
qed

text \<open>Claim C6. An admitted dataset holds complete runs: the steps of a run are 0, 1, 2 and so on without
a gap, the last one and no other is terminal, and every source that proves the run counted the same
number of records. No source record is missing, no identity occurs twice, and the repeated records are
counted.\<close>

theorem admitted_runs_complete:
  assumes "admit L A ps seed = Some (Inr d)" and "\<forall>p \<in> set ps. make_projection p = Inr p"
  shows "(\<forall>run \<in> tr_run ` set (ds_records d). complete_run (run_records d run) \<and>
      (\<forall>p \<in> set ps. \<forall>v. map_of (fields_of (pj_proofs p)) run = Some v \<longrightarrow>
         get_field v ''record_count'' = JInt (int (length (run_records d run))))) \<and>
    (\<forall>p \<in> set ps. \<forall>t \<in> set (pj_transitions p). \<exists>u \<in> set (ds_records d). transition_id L u = transition_id L t \<and> same_transition L u t) \<and>
    distinct (map (transition_id L) (ds_records d)) \<and> (\<forall>t \<in> set (ds_records d). rank_eligible t) \<and>
    int (length (ds_records d)) + ds_duplicates d = int (length (concat (map pj_transitions ps)))"
proof -
  from admit_returned [OF assms(1)] obtain st where inv: "admission_inv L (concat (map pj_transitions ps)) st"
    and records: "set (ds_records d) = snd ` set (ad_unique st)" "length (ds_records d) = length (ad_unique st)"
      "distinct (map (transition_id L) (ds_records d))" "ds_duplicates d = ad_duplicates st"
    and runs: "\<forall>run \<in> tr_run ` set (ds_records d). check_run ps (ds_records d) run = Inr ()" .
  have "complete_run (run_records d run) \<and> (\<forall>p \<in> set ps. \<forall>v. map_of (fields_of (pj_proofs p)) run = Some v \<longrightarrow>
      get_field v ''record_count'' = JInt (int (length (run_records d run))))" if "run \<in> tr_run ` set (ds_records d)" for run
    using check_run_complete [OF bspec [OF runs that] that] proof_count assms(2) by blast
  moreover have "\<exists>u \<in> set (ds_records d). transition_id L u = transition_id L t \<and> same_transition L u t"
    if "p \<in> set ps" "t \<in> set (pj_transitions p)" for p t
  proof -
    have "t \<in> set (concat (map pj_transitions ps))" using that by auto
    with inv obtain u where u: "(transition_id L t, u) \<in> set (ad_unique st)" "same_transition L u t" unfolding admission_inv_def by blast
    with inv have "transition_id L t = transition_id L u" unfolding admission_inv_def by blast
    with u records(1) show ?thesis by force
  qed
  moreover have "\<forall>t \<in> set (ds_records d). rank_eligible t" using inv records(1) unfolding admission_inv_def by auto
  ultimately show ?thesis using inv records unfolding admission_inv_def by auto
qed

definition sample_proof :: "int \<Rightarrow> json" where
  "sample_proof n = JObj [(''record_count'', JInt n), (''started_ref'', JStr some_digest), (''terminal_ref'', JStr some_digest)]"

definition sample_projection :: projection where
  "sample_projection =
     \<lparr>pj_adapter = ''synthetic'', pj_source = some_digest, pj_scope = ''engineering'',
      pj_proofs = JObj [(''r1'', sample_proof 1), (''r2'', sample_proof 2), (''r3'', sample_proof 1), (''r4'', sample_proof 1)],
      pj_transitions = sample_records, pj_bytes = None, pj_accounting = JObj []\<rparr>"

lemma sample_projection_made: "make_projection sample_projection = Inr sample_projection"
  by code_simp

definition admitted_all :: "dataset result option \<Rightarrow> bool" where
  "admitted_all r = (case r of Some (Inr d) \<Rightarrow> list_all (\<lambda>t. t \<in> set (ds_records d)) sample_records | _ \<Rightarrow> False)"

lemma sample_admitted: "admitted_all (admit plain_lib (\<lambda>_. None) [sample_projection] (JInt 7))"
  by code_simp

theorem admitted_runs_complete_witness:
  "\<exists>d. admit plain_lib (\<lambda>_. None) [sample_projection] (JInt 7) = Some (Inr d) \<and> complete_run (run_records d ''r2'') \<and>
     int (length (ds_records d)) + ds_duplicates d = 5"
proof -
  obtain d where d: "admit plain_lib (\<lambda>_. None) [sample_projection] (JInt 7) = Some (Inr d)" "\<forall>t \<in> set sample_records. t \<in> set (ds_records d)"
    using sample_admitted by (auto simp: admitted_all_def list_all_iff split: option.splits sum.splits)
  have "''r2'' \<in> tr_run ` set sample_records" "length sample_records = 5" by (simp_all add: sample_records_def sample_transition_def Let_def)
  with d have "''r2'' \<in> tr_run ` set (ds_records d)" by blast
  with admitted_runs_complete [OF d(1)] sample_projection_made \<open>length sample_records = 5\<close> d(1) show ?thesis
    by (auto simp: sample_projection_def)
qed

text \<open>Two decisions a model cannot tell apart: the same state view and the same actions, in any order and
under any keys.\<close>

definition same_inputs :: "transition \<Rightarrow> transition \<Rightarrow> bool" where
  "same_inputs t u \<longleftrightarrow>
     ss_run (tr_state u) = ss_run (tr_state t) \<and> ss_decision (tr_state u) = ss_decision (tr_state t) \<and>
     ss_entities (tr_state u) = ss_entities (tr_state t) \<and> map read_view (ss_reads (tr_state u)) = map read_view (ss_reads (tr_state t)) \<and>
     mset (map semantic_dict (tr_actions u)) = mset (map semantic_dict (tr_actions t))"

text \<open>Claim C7. In an admitted dataset every run has one partition, two decisions a model cannot tell apart
are in the same one whatever their runs, candidate order and action keys, and nothing a model reads has a
key that names a label, an identity or a later outcome at any depth.\<close>

theorem repeated_decisions_together:
  assumes "admit L A ps seed = Some (Inr d)" and "t \<in> set (ds_records d)"
  shows "(\<exists>part \<in> {''test'', ''dev'', ''train''}. split_of (ds_splits d) (tr_run t) = Some (JStr part)) \<and>
    (\<forall>u \<in> set (ds_records d). same_inputs t u \<longrightarrow> split_of (ds_splits d) (tr_run u) = split_of (ds_splits d) (tr_run t)) \<and>
    leak_free (ss_run (tr_state t)) \<and> leak_free (ss_decision (tr_state t)) \<and> (\<forall>e \<in> set (ss_entities (tr_state t)). leak_free e) \<and>
    (\<forall>r \<in> set (ss_reads (tr_state t)). leak_free (ar_content r)) \<and>
    (\<forall>a \<in> set (tr_actions t). leak_free (sa_subject a) \<and> leak_free (sa_arguments a))"
proof -
  from admit_returned [OF assms(1)] have "split_whole_runs L (ds_records d) seed = Some (Inr (ds_splits d))" by blast
  then obtain n fs where n: "unsigned seed ''split.seed'' = Inr n" and fs: "each (decision_fingerprint L) (ds_records d) = Inr fs"
    and split: "split_run_fingerprints (sha256 L) seed (zip (map tr_run (ds_records d)) fs) = Some (Inr (ds_splits d))"
    by (auto simp: split_whole_runs_def and_then_eq_Inr split: sum.splits)
  let ?rows = "zip (map tr_run (ds_records d)) fs"
  have row: "(tr_run u, projr (decision_fingerprint L u)) \<in> set ?rows" "\<exists>f. decision_fingerprint L u = Inr f" if "u \<in> set (ds_records d)" for u
    using fs that by (auto simp: each_as_map zip_map1 zip_map2 zip_same_conv_map)
  have "\<not> independent_runs ?rows < 3" using split_refused [OF n, of ?rows "sha256 L"] split by auto
  with split_ran [OF n, of ?rows "sha256 L"] split
  have dom: "dom (split_of (ds_splits d)) = fst ` set ?rows" and one: "(x, y) \<in> (linked ?rows)\<^sup>+ \<Longrightarrow> split_of (ds_splits d) x = split_of (ds_splits d) y"
    and ran: "ran (split_of (ds_splits d)) = JStr ` {''test'', ''dev'', ''train''}" for x y by auto
  have "split_of (ds_splits d) (tr_run u) = split_of (ds_splits d) (tr_run t)" if u: "u \<in> set (ds_records d)" "same_inputs t u" for u
  proof -
    obtain f where f: "decision_fingerprint L t = Inr f" using row(2) [OF assms(2)] by blast
    from u(2) have "decision_fingerprint L u = Inr f" by (intro fingerprint_same [OF f]) (simp_all add: same_inputs_def)
    with f row(1) [OF u(1)] row(1) [OF assms(2)] have "(tr_run u, tr_run t) \<in> linked ?rows" by (auto simp: linked_def)
    then show ?thesis by (intro one) blast
  qed
  moreover have "\<exists>part \<in> {''test'', ''dev'', ''train''}. split_of (ds_splits d) (tr_run t) = Some (JStr part)"
  proof -
    have "tr_run t \<in> dom (split_of (ds_splits d))" unfolding dom using row(1) [OF assms(2)] by force
    then obtain v where v: "split_of (ds_splits d) (tr_run t) = Some v" by blast
    then have "v \<in> JStr ` {''test'', ''dev'', ''train''}" unfolding ran [symmetric] by (rule ranI)
    with v show ?thesis by blast
  qed
  moreover obtain f where "decision_fingerprint L t = Inr f" using row(2) [OF assms(2)] by blast
  note fingerprint_leak_free [OF this]
  ultimately show ?thesis by blast
qed

theorem repeated_decisions_together_witness:
  "\<exists>d. admit plain_lib (\<lambda>_. None) [sample_projection] (JInt 7) = Some (Inr d) \<and>
     split_of (ds_splits d) ''r4'' = split_of (ds_splits d) ''r1'' \<and> split_of (ds_splits d) ''r1'' \<noteq> None"
proof -
  obtain d where d: "admit plain_lib (\<lambda>_. None) [sample_projection] (JInt 7) = Some (Inr d)" "\<forall>t \<in> set sample_records. t \<in> set (ds_records d)"
    using sample_admitted by (auto simp: admitted_all_def list_all_iff split: option.splits sum.splits)
  let ?t = "sample_transition ''r1'' 0 True 1 [sample_action ''a'' 1, sample_action ''b'' 2]"
  let ?u = "sample_transition ''r4'' 0 True 1 [sample_action ''x'' 2, sample_action ''y'' 1]"
  have "?t \<in> set (ds_records d)" "?u \<in> set (ds_records d)" using d(2) by (simp_all add: sample_records_def)
  moreover have "same_inputs ?t ?u"
    by (simp add: same_inputs_def sample_transition_def sample_action_def semantic_dict_def Let_def)
  moreover have "tr_run ?t = ''r1''" "tr_run ?u = ''r4''" by (simp_all add: sample_transition_def Let_def)
  ultimately show ?thesis using repeated_decisions_together [OF d(1), of ?t] d(1) by force
qed

end
