(* ===== verification/Training.thy ===== *)
theory Training
  imports Admission
begin

text \<open>
  python/stpd/fullrun/dataset\_policy.py: the checks the offline research entry points make before they
  train. \<open>fetch\<close> is the store's \<open>get\_manifest\<close>; the loaders of the three dataset formats are parameters.
\<close>

section \<open>Sources of training data\<close>

definition held_out :: "manifest \<Rightarrow> bool result" where
  "held_out m =
     (if mf_kind m = ''dataset'' then in_strings (get_field (mf_parameters m) ''purpose'') [''test'', ''gold''] else Inr False)"

text \<open>The walk; the stack \<open>pending\<close> is kept with its top first, \<open>found\<close> in insertion order.\<close>

function training_loop ::
  "(string \<Rightarrow> manifest result) \<Rightarrow> string list \<Rightarrow> (string \<times> manifest) list \<Rightarrow> (string \<times> manifest) list result" where
  "training_loop fetch [] found = Inr found"
| "training_loop fetch (i # pending) found =
     (if i \<in> fst ` set found then training_loop fetch pending found
      else if 512 \<le> length found then Inl (BoundaryError ''curation'' ''lineage_limit'')
      else
        and_then (fetch i) (\<lambda>m.
        and_then (held_out m) (\<lambda>held.
        if held then Inl (BoundaryError ''curation'' ''held_out_data_cannot_train'')
        else training_loop fetch (rev (map parent_artifact (mf_parents m)) @ pending) (found @ [(i, m)]))))"
  by pat_completeness auto
termination
  by (relation "measures [\<lambda>(fetch, pending, found). 512 - length found, \<lambda>(fetch, pending, found). length pending]") auto

definition training_sources :: "(string \<Rightarrow> manifest result) \<Rightarrow> string \<Rightarrow> manifest list result" where
  "training_sources fetch identity =
     and_then (training_loop fetch [identity] []) (\<lambda>found.
       Inr (filter (\<lambda>m. mf_kind m = ''dataset'') (map snd found)))"

section \<open>A training and a test dataset\<close>

record loaders =
  ld_curated :: "string \<Rightarrow> transition list result"
  ld_dataset :: "string \<Rightarrow> transition list result"
  ld_decisions :: "string \<Rightarrow> transition list result"

definition curated_schema :: string where "curated_schema = ''stpd/curated-decision-dataset-v1''"

definition records_of :: "(string \<Rightarrow> manifest result) \<Rightarrow> loaders \<Rightarrow> string \<Rightarrow> transition list result" where
  "records_of fetch D identity =
     and_then (fetch identity) (\<lambda>m.
     let schema = get_field (mf_parameters m) ''schema'' in
     if schema = JStr curated_schema then ld_curated D identity
     else if schema = JStr dataset_schema then ld_dataset D identity
     else ld_decisions D identity)"

text \<open>The runs and the fingerprints of the test records that the training data has too.\<close>

fun repeated ::
  "stdlib \<Rightarrow> string list \<Rightarrow> string list \<Rightarrow> transition list \<Rightarrow> string list \<Rightarrow> string list \<Rightarrow> (string list \<times> string list) result" where
  "repeated L runs facts [] rs fs = Inr (rs, fs)"
| "repeated L runs facts (t # ts) rs fs =
     (let rs' = (if tr_run t \<in> set runs then tr_run t # rs else rs) in
      and_then (decision_fingerprint L t) (\<lambda>f. repeated L runs facts ts rs' (if f \<in> set facts then f # fs else fs)))"

definition check_dataset_pair ::
  "stdlib \<Rightarrow> (string \<Rightarrow> manifest result) \<Rightarrow> loaders \<Rightarrow> string \<Rightarrow> string \<Rightarrow> unit result" where
  "check_dataset_pair L fetch D training test =
     and_then (training_sources fetch training) (\<lambda>_.
     and_then (records_of fetch D training) (\<lambda>left.
     and_then (each (decision_fingerprint L) left) (\<lambda>facts.
     and_then (records_of fetch D test) (\<lambda>right.
     and_then (repeated L (map tr_run left) facts right [] []) (\<lambda>(rs, fs).
       if rs \<noteq> [] \<or> fs \<noteq> [] then Inl (BoundaryError ''curation'' ''training_test_overlap'') else Inr ())))))"

section \<open>The walk is complete\<close>

inductive parent_of :: "(string \<Rightarrow> manifest result) \<Rightarrow> string \<Rightarrow> string \<Rightarrow> bool" for fetch where
  "fetch i = Inr m \<Longrightarrow> p \<in> set (mf_parents m) \<Longrightarrow> parent_of fetch i (parent_artifact p)"

inductive_simps parent_of_iff: "parent_of fetch i j"

definition walk_inv :: "(string \<Rightarrow> manifest result) \<Rightarrow> string \<Rightarrow> string list \<Rightarrow> (string \<times> manifest) list \<Rightarrow> bool" where
  "walk_inv fetch origin pending found \<longleftrightarrow>
     origin \<in> set pending \<union> fst ` set found \<and> (\<forall>i \<in> set pending. (parent_of fetch)\<^sup>*\<^sup>* origin i) \<and>
     (\<forall>(i, m) \<in> set found. fetch i = Inr m \<and> held_out m = Inr False \<and> (parent_of fetch)\<^sup>*\<^sup>* origin i \<and>
        (\<forall>p \<in> set (mf_parents m). parent_artifact p \<in> set pending \<union> fst ` set found)) \<and>
     length found \<le> 512"

lemma training_loop_inv:
  "walk_inv fetch origin pending found \<Longrightarrow> training_loop fetch pending found = Inr found' \<Longrightarrow> walk_inv fetch origin [] found'"
proof (induction fetch pending found rule: training_loop.induct)
  case (1 fetch found)
  then show ?case by simp
next
  case (2 fetch i pending found)
  show ?case
  proof (cases "i \<in> fst ` set found")
    case True
    then have known: "set (i # pending) \<union> fst ` set found = set pending \<union> fst ` set found" by auto
    from 2(3) have "walk_inv fetch origin pending found" unfolding walk_inv_def known by simp
    with 2(1) [OF True] 2(4) True show ?thesis by simp
  next
    case False
    from 2(4) False obtain m where few: "\<not> 512 \<le> length found" and m: "fetch i = Inr m" "held_out m = Inr False"
      and loop: "training_loop fetch (rev (map parent_artifact (mf_parents m)) @ pending) (found @ [(i, m)]) = Inr found'"
      by (auto simp: and_then_eq_Inr split: if_splits)
    have here: "(parent_of fetch)\<^sup>*\<^sup>* origin i" using 2(3) unfolding walk_inv_def by simp
    have "(parent_of fetch)\<^sup>*\<^sup>* origin (parent_artifact p)" if "p \<in> set (mf_parents m)" for p
      using here parent_of.intros [of fetch, OF m(1) that] by (rule rtranclp.rtrancl_into_rtrancl)
    then have parents: "\<forall>j \<in> set (rev (map parent_artifact (mf_parents m))). (parent_of fetch)\<^sup>*\<^sup>* origin j" by auto
    have waiting: "\<forall>j \<in> set pending. (parent_of fetch)\<^sup>*\<^sup>* origin j" using 2(3) unfolding walk_inv_def by simp
    let ?seen = "set (rev (map parent_artifact (mf_parents m)) @ pending) \<union> fst ` set (found @ [(i, m)])"
    have sub: "set (i # pending) \<union> fst ` set found \<subseteq> ?seen" by auto
    have own: "\<forall>p \<in> set (mf_parents m). parent_artifact p \<in> ?seen" by auto
    have entry: "fetch j = Inr n \<and> held_out n = Inr False \<and> (parent_of fetch)\<^sup>*\<^sup>* origin j" if "(j, n) \<in> set found" for j n
      using 2(3) that unfolding walk_inv_def by blast
    have old: "\<forall>p \<in> set (mf_parents n). parent_artifact p \<in> ?seen" if "(j, n) \<in> set found" for j n
      using 2(3) that sub unfolding walk_inv_def by blast
    have all: "fetch j = Inr n \<and> held_out n = Inr False \<and> (parent_of fetch)\<^sup>*\<^sup>* origin j \<and> (\<forall>p \<in> set (mf_parents n). parent_artifact p \<in> ?seen)"
      if "(j, n) \<in> set (found @ [(i, m)])" for j n
    proof (cases "(j, n) \<in> set found")
      case True
      then show ?thesis using entry old by blast
    next
      case False
      with that have "j = i" "n = m" by auto
      then show ?thesis using m here own by blast
    qed
    have "walk_inv fetch origin (rev (map parent_artifact (mf_parents m)) @ pending) (found @ [(i, m)])"
      unfolding walk_inv_def
    proof (intro conjI)
      show "origin \<in> ?seen" using 2(3) sub unfolding walk_inv_def by blast
      show "\<forall>j \<in> set (rev (map parent_artifact (mf_parents m)) @ pending). (parent_of fetch)\<^sup>*\<^sup>* origin j"
        unfolding set_append ball_Un using waiting parents by blast
      show "length (found @ [(i, m)]) \<le> 512" using few by simp
      show "\<forall>(j, n) \<in> set (found @ [(i, m)]). fetch j = Inr n \<and> held_out n = Inr False \<and> (parent_of fetch)\<^sup>*\<^sup>* origin j \<and>
          (\<forall>p \<in> set (mf_parents n). parent_artifact p \<in> ?seen)"
        by (intro ballI case_prodI2) (use all in blast)
    qed
    with 2(2) [OF False few m] loop show ?thesis by simp
  qed
qed

lemma training_sources_walk:
  assumes "training_sources fetch origin = Inr ds"
  obtains found where "walk_inv fetch origin [] found" and "ds = filter (\<lambda>m. mf_kind m = ''dataset'') (map snd found)"
proof -
  from assms obtain found where found: "training_loop fetch [origin] [] = Inr found"
    and ds: "ds = filter (\<lambda>m. mf_kind m = ''dataset'') (map snd found)"
    by (auto simp: training_sources_def and_then_eq_Inr)
  have "walk_inv fetch origin [origin] []" by (simp add: walk_inv_def)
  from that [OF training_loop_inv [OF this found] ds] show thesis .
qed

lemma walk_closed:
  assumes "walk_inv fetch origin [] found" and "(parent_of fetch)\<^sup>*\<^sup>* origin j"
  shows "\<exists>m. (j, m) \<in> set found"
  using assms(2)
proof (induction rule: rtranclp_induct)
  case base
  then show ?case using assms(1) unfolding walk_inv_def by auto
next
  case (step j k)
  then obtain m where m: "(j, m) \<in> set found" by blast
  with assms(1) have "fetch j = Inr m" "\<forall>p \<in> set (mf_parents m). parent_artifact p \<in> fst ` set found"
    unfolding walk_inv_def by auto
  with step(2) have "k \<in> fst ` set found" by (auto simp: parent_of_iff)
  then show ?case by force
qed

lemma repeated_none:
  "repeated L runs facts ts rs fs = Inr ([], []) \<Longrightarrow>
   rs = [] \<and> fs = [] \<and> (\<forall>t \<in> set ts. tr_run t \<notin> set runs \<and> (\<exists>f. decision_fingerprint L t = Inr f \<and> f \<notin> set facts))"
proof (induction ts arbitrary: rs fs)
  case (Cons t ts)
  from Cons.prems obtain f where "decision_fingerprint L t = Inr f"
    and "repeated L runs facts ts (if tr_run t \<in> set runs then tr_run t # rs else rs) (if f \<in> set facts then f # fs else fs) = Inr ([], [])"
    by (auto simp: and_then_eq_Inr Let_def)
  with Cons.IH [OF this(2)] show ?case by (auto split: if_splits)
qed simp

end
