(* ===== verification/TrainingClaims.thy ===== *)
theory TrainingClaims
  imports Training AdmissionClaims
begin

text \<open>
  What a checked pair of datasets promises: nothing held out trains, and nothing trained on is tested.
\<close>

text \<open>Claim C8. When a training and a test dataset pass the check, no artifact the training data descends
from, at any distance, is a dataset held out for test or gold, and all of them were read; and no test
record belongs to a run of the training data or is a decision a model cannot tell apart from one of its
decisions.\<close>

theorem training_never_tested:
  assumes "check_dataset_pair L fetch D training test = Inr ()"
  shows "(\<forall>i. (parent_of fetch)\<^sup>*\<^sup>* training i \<longrightarrow> (\<exists>m. fetch i = Inr m \<and>
      \<not> (mf_kind m = ''dataset'' \<and> get_field (mf_parameters m) ''purpose'' \<in> {JStr ''test'', JStr ''gold''}))) \<and>
    (\<exists>left right. records_of fetch D training = Inr left \<and> records_of fetch D test = Inr right \<and>
       (\<forall>t \<in> set left. \<forall>u \<in> set right. tr_run t \<noteq> tr_run u \<and> \<not> same_inputs t u))"
proof -
  from assms obtain ds left facts right where sources: "training_sources fetch training = Inr ds"
    and left: "records_of fetch D training = Inr left" and facts: "each (decision_fingerprint L) left = Inr facts"
    and right: "records_of fetch D test = Inr right" and none: "repeated L (map tr_run left) facts right [] [] = Inr ([], [])"
    by (auto simp: check_dataset_pair_def and_then_eq_Inr split: if_splits)
  from training_sources_walk [OF sources] obtain found where walk: "walk_inv fetch training [] found" by blast
  have "\<exists>m. fetch i = Inr m \<and> held_out m = Inr False" if "(parent_of fetch)\<^sup>*\<^sup>* training i" for i
    using walk_closed [OF walk that] walk unfolding walk_inv_def by blast
  then have "\<exists>m. fetch i = Inr m \<and> \<not> (mf_kind m = ''dataset'' \<and> get_field (mf_parameters m) ''purpose'' \<in> {JStr ''test'', JStr ''gold''})"
    if "(parent_of fetch)\<^sup>*\<^sup>* training i" for i
    using that by (force simp: held_out_def in_strings_def split: if_splits)
  moreover have "tr_run t \<noteq> tr_run u \<and> \<not> same_inputs t u" if t: "t \<in> set left" and u: "u \<in> set right" for t u
  proof -
    from each_in_set [OF facts t] obtain f where f: "decision_fingerprint L t = Inr f" "f \<in> set facts" by auto
    have "decision_fingerprint L u = Inr f" if "same_inputs t u"
      using that by (intro fingerprint_same [OF f(1)]) (simp_all add: same_inputs_def)
    moreover from repeated_none [OF none] u obtain g where g: "tr_run u \<notin> tr_run ` set left" "decision_fingerprint L u = Inr g" "g \<notin> set facts"
      by auto
    ultimately have "\<not> same_inputs t u" using f(2) by auto
    then show ?thesis using g(1) t by (metis imageI)
  qed
  ultimately show ?thesis using left right by blast
qed

definition pair_manifest :: "string \<Rightarrow> string list \<Rightarrow> manifest" where
  "pair_manifest purpose others =
     \<lparr>mf_kind = ''dataset'', mf_producer = \<lparr>p_repository = ''r'', p_source_revision = ''s'', p_uv_lock_sha256 = ''l''\<rparr>,
      mf_parents = map (Parent ''source'') others, mf_payloads = [],
      mf_parameters = JObj [(''purpose'', JStr purpose), (''schema'', JStr dataset_schema)]\<rparr>"

text \<open>Two datasets, the first with a source of its own; the third run is the test data.\<close>

definition pair_fetch :: "string \<Rightarrow> manifest result" where
  "pair_fetch i =
     (if i = ''left'' then Inr (pair_manifest ''train'' [''root'']) else if i = ''root'' then Inr (pair_manifest ''train'' [])
      else if i = ''right'' then Inr (pair_manifest ''test'' []) else Inl (StoreError ''missing''))"

definition pair_loaders :: loaders where
  "pair_loaders =
     \<lparr>ld_curated = (\<lambda>i. Inr []), ld_dataset = (\<lambda>i. Inr (if i = ''left'' then [sample_records ! 0] else [sample_records ! 3])),
      ld_decisions = (\<lambda>i. Inr [])\<rparr>"

lemma pair_checked: "check_dataset_pair plain_lib pair_fetch pair_loaders ''left'' ''right'' = Inr ()"
  by code_simp

theorem training_never_tested_witness:
  "held_out (pair_manifest ''test'' []) = Inr True \<and>
   (\<exists>left right. records_of pair_fetch pair_loaders ''left'' = Inr left \<and> records_of pair_fetch pair_loaders ''right'' = Inr right \<and>
      (\<forall>t \<in> set left. \<forall>u \<in> set right. \<not> same_inputs t u))"
proof -
  have "held_out (pair_manifest ''test'' []) = Inr True" by code_simp
  with training_never_tested [OF pair_checked] show ?thesis by blast
qed

end
