(* ===== verification/EvidenceStore.thy ===== *)
theory EvidenceStore
  imports DirectoryTransfer
begin

text \<open>
  components/evidence/sts2\_platform\_evidence/store.py and core.py: the content-addressed store of whole
  directories, and the registry of typed verifiers. A directory is a \<open>tree\<close> of DirectoryTransfer; the
  inventory of store.py is the one of transfer.py.
\<close>

section \<open>The directory store\<close>

type_synonym objects = "(string \<times> tree) list"

definition store_manifest :: "(string \<times> int \<times> string) list \<Rightarrow> json" where
  "store_manifest files =
     JObj [(''schema'', JStr ''sts2.evidence/store-directory-1''),
           (''files'', JList (map (\<lambda>(p, n, h). JObj [(''path'', JStr p), (''bytes'', JInt n), (''sha256'', JStr h)]) files))]"

definition directory_id :: "hash \<Rightarrow> (string \<times> int \<times> string) list \<Rightarrow> string" where
  "directory_id sha files = sha (canonical_text (store_manifest files))"

record store_receipt =
  so_status :: string
  so_content_id :: string
  so_manifest_sha256 :: string

text \<open>\<open>source\<close> is the directory when it is inventoried, \<open>copied\<close> when it is copied.\<close>

definition put_directory :: "hash \<Rightarrow> tree option \<Rightarrow> tree option \<Rightarrow> objects \<Rightarrow> objects \<times> store_receipt result" where
  "put_directory sha source copied objs =
     (case inventory sha source of
        Inl e \<Rightarrow> (objs, Inl e)
      | Inr files \<Rightarrow>
          let i = directory_id sha files; receipt = (\<lambda>status. \<lparr>so_status = status, so_content_id = i, so_manifest_sha256 = i\<rparr>) in
          (case map_of objs i of
             Some d \<Rightarrow>
               (case inventory sha (Some d) of
                  Inl e \<Rightarrow> (objs, Inl e)
                | Inr old \<Rightarrow> if old \<noteq> files then (objs, Inl (ValueError ''content-address collision'')) else (objs, Inr (receipt ''reused'')))
           | None \<Rightarrow>
               (case and_then (copy_directory copied) (\<lambda>staging.
                      and_then (inventory sha (Some staging)) (\<lambda>found.
                      if found \<noteq> files then Inl (ValueError ''staged directory inventory changed during copy'') else Inr staging)) of
                  Inl e \<Rightarrow> (objs, Inl e)
                | Inr staging \<Rightarrow> (objs @ [(i, staging)], Inr (receipt ''stored'')))))"

definition resolve_directory :: "string \<Rightarrow> objects \<Rightarrow> tree result" where
  "resolve_directory i objs =
     (if length i \<noteq> 64 \<or> \<not> lower_hex i then Inl (ValueError ''content ID must be a lowercase SHA-256 digest'')
      else case map_of objs i of None \<Rightarrow> Inl OSError | Some d \<Rightarrow> Inr d)"

text \<open>Every stored directory has the inventory its name is the hash of.\<close>

definition objects_ok :: "hash \<Rightarrow> objects \<Rightarrow> bool" where
  "objects_ok sha objs \<longleftrightarrow>
     distinct (map fst objs) \<and> (\<forall>(i, d) \<in> set objs. \<exists>files. inventory sha (Some d) = Inr files \<and> directory_id sha files = i)"

text \<open>What a put leaves: the directory with the inventory of the source, under its identity.\<close>

definition found_as :: "hash \<Rightarrow> tree option \<Rightarrow> objects \<Rightarrow> string \<Rightarrow> bool" where
  "found_as sha source objs i \<longleftrightarrow>
     (\<exists>files d. inventory sha source = Inr files \<and> i = directory_id sha files \<and> map_of objs i = Some d \<and> inventory sha (Some d) = Inr files)"

lemma put_directory_cases:
  assumes "put_directory sha source copied objs = (objs', r)"
  obtains (failed) e where "objs' = objs" "r = Inl e"
  | (reused) receipt where "objs' = objs" "r = Inr receipt" "found_as sha source objs (so_content_id receipt)"
  | (stored) receipt files d where "objs' = objs @ [(directory_id sha files, d)]" "r = Inr receipt"
      "so_content_id receipt = directory_id sha files" "map_of objs (directory_id sha files) = None"
      "inventory sha source = Inr files" "inventory sha (Some d) = Inr files"
proof (cases "inventory sha source")
  case (Inl e)
  with assms show thesis by (auto simp: put_directory_def intro: failed)
next
  case (Inr files)
  let ?i = "directory_id sha files"
  show thesis
  proof (cases "map_of objs ?i")
    case (Some d)
    show thesis
    proof (cases "inventory sha (Some d) = Inr files")
      case True
      with assms Inr Some have "objs' = objs" "r = Inr \<lparr>so_status = ''reused'', so_content_id = ?i, so_manifest_sha256 = ?i\<rparr>"
        by (simp_all add: put_directory_def Let_def)
      moreover have "found_as sha source objs ?i" using Inr Some True unfolding found_as_def by blast
      ultimately show thesis by (intro reused [of "\<lparr>so_status = ''reused'', so_content_id = ?i, so_manifest_sha256 = ?i\<rparr>"]) simp_all
    next
      case False
      with assms Inr Some have "objs' = objs \<and> (\<exists>e. r = Inl e)"
        by (cases "inventory sha (Some d)") (auto simp: put_directory_def Let_def)
      then show thesis using failed by blast
    qed
  next
    case None
    let ?copy = "and_then (copy_directory copied) (\<lambda>staging. and_then (inventory sha (Some staging)) (\<lambda>found.
      if found \<noteq> files then Inl (ValueError ''staged directory inventory changed during copy'') else Inr staging))"
    show thesis
    proof (cases ?copy)
      case (Inl e)
      with assms Inr None show thesis by (intro failed [of e]) (simp_all add: put_directory_def Let_def)
    next
      case (Inr d)
      then have "inventory sha (Some d) = Inr files" by (auto simp: and_then_eq_Inr split: if_splits)
      with assms \<open>inventory sha source = Inr files\<close> None Inr show thesis
        by (intro stored [of files d "\<lparr>so_status = ''stored'', so_content_id = ?i, so_manifest_sha256 = ?i\<rparr>"])
          (simp_all add: put_directory_def Let_def)
    qed
  qed
qed

lemma put_directory_ok:
  assumes "objects_ok sha objs" and "put_directory sha source copied objs = (objs', r)"
  shows "objects_ok sha objs'" and "map_of objs \<subseteq>\<^sub>m map_of objs'"
  using assms(2) by (cases rule: put_directory_cases; use assms(1) in \<open>auto simp: objects_ok_def map_of_eq_None_iff map_le_def map_add_def split: option.splits\<close>)+

lemma put_directory_found:
  assumes "put_directory sha source copied objs = (objs', Inr receipt)"
  shows "found_as sha source objs' (so_content_id receipt)"
  using assms by (cases rule: put_directory_cases) (auto simp: found_as_def map_add_def)

text \<open>A directory that was put is found under its identity with exactly its inventory, after any later puts.\<close>

lemma stored_directory_found:
  assumes "put_directory sha source copied objs = (objs', Inr receipt)"
    and "map_of objs' \<subseteq>\<^sub>m map_of later" and "length (so_content_id receipt) = 64" "lower_hex (so_content_id receipt)"
  shows "\<exists>d. resolve_directory (so_content_id receipt) later = Inr d \<and> inventory sha (Some d) = inventory sha source"
proof -
  from put_directory_found [OF assms(1)] obtain files d where f: "inventory sha source = Inr files"
    "map_of objs' (so_content_id receipt) = Some d" "inventory sha (Some d) = Inr files"
    unfolding found_as_def by blast
  from f(2) assms(2) have "map_of later (so_content_id receipt) = Some d" by (metis domI map_le_def)
  with f assms(3,4) show ?thesis by (simp add: resolve_directory_def)
qed

text \<open>
  The inventory lists paths by their components and \<open>validate\<close> wants them as texts in order: a hyphen
  sorts before a slash, so a plain directory may be refused.
\<close>

theorem component_order_refused:
  "from_directory (\<lambda>t. t) (Some [(''a'', Folder), (''a/c'', Regular ''x''), (''a-b'', Regular ''y'')]) (replicate 64 CHR ''0'') ''bundle'' =
     Inl transfer_error"
  by code_simp

section \<open>The verifier registry\<close>

record verifier_descriptor =
  vd_type_id :: string
  vd_schema :: string
  vd_version :: int

definition make_descriptor :: "verifier_descriptor \<Rightarrow> verifier_descriptor result" where
  "make_descriptor d =
     (if vd_type_id d = [] \<or> vd_schema d = [] \<or> vd_version d < 1 then Inl (ValueError ''verifier descriptor identity is incomplete'')
      else Inr d)"

record 'v verification =
  vr_descriptor :: verifier_descriptor
  vr_status :: string
  vr_value :: "'v option"
  vr_findings :: "string list"

definition require_value :: "'v verification \<Rightarrow> 'v result" where
  "require_value r =
     (case vr_value r of
        Some v \<Rightarrow> if vr_status r = ''pass'' then Inr v else Inl (ValueError ''verification did not pass'')
      | None \<Rightarrow> Inl (ValueError ''verification did not pass''))"

type_synonym 'v verifier = "string \<Rightarrow> json option \<Rightarrow> 'v verification result"
type_synonym 'v registry = "(string \<times> verifier_descriptor \<times> 'v verifier) list"

definition register_verifier :: "verifier_descriptor \<Rightarrow> 'v verifier \<Rightarrow> 'v registry \<Rightarrow> 'v registry result" where
  "register_verifier d f R =
     (if vd_type_id d \<in> fst ` set R then Inl (ValueError ''verifier already registered'') else Inr (R @ [(vd_type_id d, d, f)]))"

definition descriptor_of :: "string \<Rightarrow> 'v registry \<Rightarrow> verifier_descriptor result" where
  "descriptor_of i R = (case map_of R i of None \<Rightarrow> Inl KeyError | Some (d, f) \<Rightarrow> Inr d)"

definition verify_with :: "string \<Rightarrow> string \<Rightarrow> json option \<Rightarrow> 'v registry \<Rightarrow> 'v verification result" where
  "verify_with i source expected R = (case map_of R i of None \<Rightarrow> Inl KeyError | Some (d, f) \<Rightarrow> f source expected)"

text \<open>Registering never changes what an earlier type does.\<close>

lemma register_verifier_extends:
  assumes "register_verifier d f R = Inr R'"
  shows "verify_with (vd_type_id d) source expected R' = f source expected"
    and "i \<in> fst ` set R \<Longrightarrow> verify_with i source expected R' = verify_with i source expected R"
proof -
  from assms have new: "map_of R (vd_type_id d) = None" and R': "R' = R @ [(vd_type_id d, d, f)]"
    by (auto simp: register_verifier_def map_of_eq_None_iff split: if_splits)
  from new show "verify_with (vd_type_id d) source expected R' = f source expected" by (simp add: verify_with_def R' map_add_def)
  assume "i \<in> fst ` set R"
  then obtain x where "map_of R i = Some x" by (metis map_of_eq_None_iff not_None_eq)
  then show "verify_with i source expected R' = verify_with i source expected R" by (simp add: verify_with_def R' map_add_def)
qed

end
