(* ===== verification/Episodes.thy ===== *)
theory Episodes
  imports Boundary Artifacts "HOL-Library.Multiset"
begin

text \<open>
  python/stpd/data/splits.py: the seed-stable assignment of episodes to partitions by the hash of their
  root. \<open>shown\<close> is \<open>str\<close> on a list or a dict.
\<close>

definition python_str :: "(json \<Rightarrow> string) \<Rightarrow> json \<Rightarrow> string" where
  "python_str shown v =
     (case v of
        JStr t \<Rightarrow> t
      | JInt i \<Rightarrow> show_int i
      | JBool b \<Rightarrow> if b then ''True'' else ''False''
      | JNull \<Rightarrow> ''None''
      | JFloat f \<Rightarrow> f
      | _ \<Rightarrow> shown v)"

definition record_text :: "(json \<Rightarrow> string) \<Rightarrow> (string \<times> json) list \<Rightarrow> string \<Rightarrow> string" where
  "record_text shown r key = (case map_of r key of None \<Rightarrow> [] | Some v \<Rightarrow> python_str shown v)"

text \<open>The first eight bytes of the digest, from its hexadecimal text.\<close>

definition hex_value :: "char \<Rightarrow> nat" where
  "hex_value c = (let n = (of_char c :: nat) in if 97 \<le> n then n - 87 else n - 48)"

definition bucket :: "hash \<Rightarrow> string \<Rightarrow> string \<Rightarrow> int" where
  "bucket sha salt root_id =
     foldl (\<lambda>v c. 16 * v + int (hex_value c)) 0 (take 16 (sha (salt @ [CHR 0x00] @ root_id))) mod 10000"

definition bucket_split :: "int \<Rightarrow> int \<Rightarrow> int \<Rightarrow> string" where
  "bucket_split train dev v = (if v < train then ''train'' else if v < train + dev then ''dev'' else ''test'')"

text \<open>\<open>episode\_roots\<close>, in insertion order.\<close>

fun episode_roots ::
  "(json \<Rightarrow> string) \<Rightarrow> string \<Rightarrow> (string \<times> json) list list \<Rightarrow> (string \<times> string) list \<Rightarrow> (string \<times> string) list result" where
  "episode_roots shown root_field [] roots = Inr roots"
| "episode_roots shown root_field (r # rs) roots =
     (let e = record_text shown r ''episode_id''; i = record_text shown r root_field in
      if e = [] \<or> i = [] then Inl (ValueError ''record missing episode_id or root'')
      else
        (case map_of roots e of
           None \<Rightarrow> episode_roots shown root_field rs (roots @ [(e, i)])
         | Some previous \<Rightarrow>
             if previous \<noteq> i then Inl (ValueError ''episode spans multiple roots'') else episode_roots shown root_field rs roots))"

definition assign_episode_splits ::
  "hash \<Rightarrow> (json \<Rightarrow> string) \<Rightarrow> (string \<times> json) list list \<Rightarrow> string \<Rightarrow> int \<Rightarrow> int \<Rightarrow> int \<Rightarrow> string \<Rightarrow>
   (string \<times> string \<times> string) list result" where
  "assign_episode_splits sha shown rs salt train dev test root_field =
     (if train + dev + test \<noteq> 10000 then Inl (ValueError ''split ratios must sum to 10000 basis points'')
      else if salt = [] then Inl (ValueError ''split salt must be explicit'')
      else
        and_then (episode_roots shown root_field rs []) (\<lambda>roots.
          Inr (map (\<lambda>(e, i). (e, i, bucket_split train dev (bucket sha salt i))) (sort roots))))"

section \<open>A stable partition\<close>

lemma episode_roots_spec:
  "episode_roots shown root_field rs roots = Inr out \<Longrightarrow> distinct (map fst roots) \<Longrightarrow>
   distinct (map fst out) \<and>
   set out = set roots \<union> (\<lambda>r. (record_text shown r ''episode_id'', record_text shown r root_field)) ` set rs"
proof (induction rs arbitrary: roots)
  case (Cons r rs)
  let ?e = "record_text shown r ''episode_id''" and ?i = "record_text shown r root_field"
  show ?case
  proof (cases "map_of roots ?e")
    case None
    with Cons.prems have step: "episode_roots shown root_field rs (roots @ [(?e, ?i)]) = Inr out" by (simp add: Let_def split: if_splits)
    from None Cons.prems(2) have "distinct (map fst (roots @ [(?e, ?i)]))" by (simp add: map_of_eq_None_iff)
    from Cons.IH [OF step this] show ?thesis by auto
  next
    case (Some previous)
    with Cons.prems have "episode_roots shown root_field rs roots = Inr out" "previous = ?i"
      by (auto simp: Let_def split: if_splits)
    with Cons.IH [OF this(1) Cons.prems(2)] map_of_SomeD [OF Some] show ?thesis by auto
  qed
qed simp

text \<open>The order and the repetition of the records do not matter, and episodes of one root stay together.\<close>

lemma assigned_by_root:
  assumes "assign_episode_splits sha shown rs salt train dev test root_field = Inr out"
  shows "set out = (\<lambda>r. let i = record_text shown r root_field in
      (record_text shown r ''episode_id'', i, bucket_split train dev (bucket sha salt i))) ` set rs"
    and "distinct (map fst out)" and "sorted (map fst out)"
proof -
  from assms obtain roots where roots: "episode_roots shown root_field rs [] = Inr roots"
    and out: "out = map (\<lambda>(e, i). (e, i, bucket_split train dev (bucket sha salt i))) (sort roots)"
    by (auto simp: assign_episode_splits_def and_then_eq_Inr split: if_splits)
  from episode_roots_spec [OF roots] have spec: "distinct (map fst roots)"
    "set roots = (\<lambda>r. (record_text shown r ''episode_id'', record_text shown r root_field)) ` set rs" by auto
  then show "set out = (\<lambda>r. let i = record_text shown r root_field in
      (record_text shown r ''episode_id'', i, bucket_split train dev (bucket sha salt i))) ` set rs"
    by (simp add: out image_image Let_def)
  have fst: "map fst out = map fst (sort roots)" by (simp add: out split_beta)
  have "mset (map fst (sort roots)) = mset (map fst roots)" by simp
  with spec(1) show "distinct (map fst out)" unfolding fst by (metis mset_eq_imp_distinct_iff)
  have "sorted_wrt (\<lambda>x y. fst x \<le> fst y) (sort roots)"
    by (rule sorted_wrt_mono_rel [OF _ sorted_sort [of roots]]) (auto simp: less_eq_prod_def less_imp_le)
  then show "sorted (map fst out)" unfolding fst by (simp add: sorted_map)
qed

end
