(* ===== verification/Spec2Isabelle.thy ===== *)
theory Spec2Isabelle
  imports LedgerClaims HubClaims ServiceClaims SessionClaims SchedulerClaims DecisionClaims ReceivingClaims SharingClaims SplitClaims DeliveryClaims ExportClaims AdmissionClaims TrainingClaims EvidenceStore Episodes
begin

text \<open>
  A verification development for the operational core of the STS2 agent project: the path a recorded
  session takes from a collecting machine through the Hub into research datasets, and the jobs, members
  and reservations around it. All paths below are under src/.

  \<^bold>\<open>The program's parts and how they meet.\<close>

  \<^item> A collecting machine seals recordings into an outbox, packs each into a bundle and hands it to the
  Hub over HTTP (components/evidence/sts2\_platform\_evidence: delivery.py, delivery\_http.py,
  delivery\_recovery.py, collection\_tool.py, transfer.py, store.py, core.py).
  \<^item> The Hub (python/spireagent/hub) authenticates the device, verifies the upload, publishes it as
  content-addressed artifacts (python/spireagent/storage) and answers with a receipt (uploads.py,
  database.py). Members see collections by project membership (membership.py, identity.py,
  console\_auth.py, collections.py, access.py, exports.py, campaigns.py).
  \<^item> Budgeted compute jobs are leased from one ledger and given to a provider by a scheduler
  (database.py, scheduler.py, compute.py, python/stpd/cloud\_jobs). Dataset jobs have a queue and a
  worker of their own (decision\_jobs.py).
  \<^item> The curation ledger reserves runs for training, test or gold (curation.py, curation\_access.py), and
  the offline research code admits verified transitions into datasets, splits them by whole runs and
  checks what may be trained on (python/stpd/fullrun: contracts.py, representation.py, data.py,
  dataset\_policy.py; python/stpd/data/splits.py).

  \<^bold>\<open>Which theory models what.\<close>

  \<^item> Prelude: exceptions, results, clock instants, and the table vocabulary (\<open>find\<close> for SELECT,
  \<open>update\_where\<close> for UPDATE). PyText: Python text operations. Json, JsonText, Boundary: encoding.py and
  json\_boundary.py.
  \<^item> Artifacts, Manifests, Blobs, Store: artifact\_contracts.py, storage/blobs.py, storage/local.py,
  storage/store.py. Access: hub/access.py.
  \<^item> HubSchema, Devices, Uploads, Jobs, Compute, Ledger: hub/database.py; the state \<open>ops\<close> is a record with
  one list per table, in rowid order, and every transaction is one function on it. Contracts:
  stpd/cloud\_jobs/contracts.py and modal.py.
  \<^item> Scheduler, SchedulerRuns: hub/scheduler.py and compute.py.
  \<^item> Principals, Membership, Authority, Identity, Sessions: console\_auth.py, membership.py, identity.py.
  CollectionActivity, Campaigns: stpd/collection\_activity.py, hub/campaigns.py.
  \<^item> Curation, CurationAccess: curation.py, curation\_access.py. Sharing: collections.py. Exports: exports.py.
  \<^item> Selection, Decisions, DecisionQueue, DecisionRuns: the decoded selection rules and decision\_jobs.py.
  \<^item> DirectoryTransfer, EvidenceStore: transfer.py; store.py and core.py. Ingress, Receiving: uploads.py.
  \<^item> Outbox, Deliveries, HubTransport: delivery.py, delivery\_recovery.py, delivery\_http.py and the release
  check of collection\_tool.py.
  \<^item> Splits, Transitions, Admission, Training, Episodes: fullrun/data.py (split and admission),
  fullrun/contracts.py, fullrun/representation.py, fullrun/dataset\_policy.py, data/splits.py.
  \<^item> Samples and the theories that end in Claims hold the properties with their witnesses on concrete states.

  \<^bold>\<open>How the code is rendered.\<close> A transaction is a function from the state to an error or the new state and
  the answer; an error rolls the transaction back, so it carries no state. Where the code commits several
  transactions or calls out in between, the steps are separate and their interleavings are step relations
  (\<open>ledger\_step\<close>, the histories of Membership, DecisionQueue and Deliveries) with invariants by induction on
  their reachable states. A dictionary is the list of its items; untyped JSON keeps its constructors, so a
  wrong type takes the branch the code takes, \<open>TypeError\<close>, \<open>KeyError\<close> and \<open>AttributeError\<close> included. An
  enum is a datatype, a table row and a dataclass a record.

  \<^bold>\<open>Interfaces.\<close> Locales state what one component relies on in another, and each is interpreted on the
  model's own definitions: the permission that is granted once per key (Grants, by the ledger), the member
  authority (Authority, by Membership), the immutable blob store (Blobs, by the local store), and the codec
  of a canonical document (Contracts, by the producer, request, receipt and call codecs).
  Their lemmas are proved once inside the locale and the properties rest on the interpreted facts.

  \<^bold>\<open>What the lemma groups show.\<close>

  \<^item> The ledger: one active job, one provider call per job, receipts bound to their request, settled
  jobs for good, no output for a cancelled job, a bounded budget; a scheduler tick is a finite run of ledger transactions
  whatever the provider answers (a refinement), and terminal evidence settles its job.
  \<^item> Artifacts: what is published reads back after any later puts; lineage walks return exactly the
  ancestors; the disclosure guard counts every run it can reach; run groups are exact.
  \<^item> Reservations: a run sealed as gold has no training use and no other reservation; that no source
  containing it was trained on either needs the discipline of the callers (\<open>disciplined\<close>), because a
  source may be recorded as used before its runs are known.
  \<^item> People and devices: an administrator remains, a disabled member is cut off, access is membership,
  credentials need approval, every authentication failure is one error.
  \<^item> Ingress and outbox: a verified receipt stands for exact evidence in the store, extraction writes only
  declared files, a session is handed over unchanged and delivered only on the Hub's verdict, and the
  archive leaves the machine only where the Hub said.
  \<^item> Sharing: an automatic association needs a stored enrollment and device of one active member,
  withdrawal cannot be undone by it, and exports hand out only what is readable now.
  \<^item> The dataset queue: completed jobs are final, a superseded worker is silent, and a worker writes only
  the open row of its own job and only while its attempt is current (\<open>worker\_run\<close>).
  \<^item> Research data: decoding and printing of transitions are inverse; an admitted dataset is complete and
  loses nothing; decisions a model cannot tell apart share a partition; training data descends from
  nothing held out and shares no decision with its test data.

  \<^bold>\<open>Bounds and termination.\<close> No fuel is used. The union-find loop \<open>find\_root\<close> is a
  \<open>partial\_function\<close> and is proved to return for every forest the split builds. The walks over artifacts
  (\<open>lineage\_loop\<close>, \<open>guarded\_walk\<close>, \<open>training\_loop\<close>) end because they keep at most the number of artifacts the
  code allows (512 for a lineage), the run groups because a run is visited once, and the chunked reads and
  writes because each chunk is not empty. Where the code bounds a value (files, bytes, rows, retries,
  units), the bound is the code's constant.

  \<^bold>\<open>Not modelled.\<close>

  \<^item> Strings are code points up to 255; bytes are strings of them, so the UTF-8 encoding is the identity. A
  float of a document is named by its printed text; clock readings are reals, finite or not, without rounding.
  \<^item> Clock readings, fresh random identifiers and secrets are arguments; SHA-256, HMAC, \<open>urllib.parse\<close>, gzip,
  tar, JWT validation, \<open>subprocess\<close>, the Modal SDK, the S3 client and the HTTP peer are parameters. Where a
  property needs it, a named hypothesis says what they document, such as that a digest is 64 hexadecimal
  digits.
  \<^item> Parts of the repository taken as parameters: the bundle verifiers and summaries of recorded sessions,
  the source adapters and loaders of archived datasets, and the console index. Local disk writes of the outbox succeed;
  symbolic links and file system failures of the local store are left out, as are display projections.
  \<^item> Processes, HTTP routing, command lines, the workbench, deployment scripts, importers of external corpora
  and all numerics (PyTorch models, training, feature extraction) are not modelled: they are input and
  output, or floating point code through third-party libraries. The host of the game is C#, the
  applications are JavaScript.
\<close>

end
